(* ===== verification/Prelude.thy ===== *)
theory Prelude
  imports Main
begin

text \<open>
  Shared vocabulary of the development. The theory holds the collections of facts that the
  component theories extend (\<open>js_simps\<close> for the JavaScript primitives, \<open>gate_defs\<close> for the
  definitions of the decision gates), the two contracts that several components share
  (a state machine with an invariant, a family of graded levels), and the generic lemmas on
  lists that the policy loop, the ranking of candidates and the routing of adapters all need.
\<close>

named_theorems js_simps "evaluation of the JavaScript primitives on constructors"
named_theorems gate_defs "definitions of the gates of the decision pipeline"

section \<open>Interface: a machine with an invariant\<close>

text \<open>
  Every in-memory store and breaker of the program is a class whose methods update private
  fields. Its model is a total step function; the contract below says that one predicate on
  the fields is kept by every method, and the client lemma is that it holds after any run.
\<close>

fun run :: "('s \<Rightarrow> 'e \<Rightarrow> 's) \<Rightarrow> 's \<Rightarrow> 'e list \<Rightarrow> 's" where
  "run step s [] = s"
| "run step s (e # es) = run step (step s e) es"

lemma run_append: "run step s (xs @ ys) = run step (run step s xs) ys"
  by (induction xs arbitrary: s) simp_all

locale state_machine =
  fixes step :: "'s \<Rightarrow> 'e \<Rightarrow> 's"
    and inv :: "'s \<Rightarrow> bool"
  assumes step_inv: "inv s \<Longrightarrow> inv (step s e)"
begin

lemma run_inv: "inv s \<Longrightarrow> inv (run step s es)"
  by (induction es arbitrary: s) (simp_all add: step_inv)

end

locale initialised_machine = state_machine +
  fixes init :: 's
  assumes init_inv: "inv init"
begin

lemma reachable_inv: "inv (run step init es)"
  by (rule run_inv [OF init_inv])

end

section \<open>Interface: graded levels\<close>

text \<open>
  Risk tiers, trust tiers and confidence levels are string enums that the code compares
  through a rank table. The contract is that different levels have different ranks; then
  "the more restrictive of two levels" and "at least this level" behave as on a chain.
\<close>

locale graded =
  fixes rank :: "'a \<Rightarrow> int"
  assumes rank_inject: "rank x = rank y \<Longrightarrow> x = y"
begin

definition lower_of :: "'a \<Rightarrow> 'a \<Rightarrow> 'a" where
  "lower_of x y = (if rank x \<le> rank y then x else y)"

lemma lower_of_rank: "rank (lower_of x y) = min (rank x) (rank y)"
  by (simp add: lower_of_def min_def)

lemma lower_of_commute: "lower_of x y = lower_of y x"
  by (rule rank_inject) (simp add: lower_of_rank min.commute)

lemma lower_of_assoc: "lower_of (lower_of x y) z = lower_of x (lower_of y z)"
  by (rule rank_inject) (simp add: lower_of_rank min.assoc)

lemma lower_of_idem: "lower_of x x = x"
  by (simp add: lower_of_def)

lemma lower_of_least:
  "rank z \<le> rank x \<Longrightarrow> rank z \<le> rank y \<Longrightarrow> rank z \<le> rank (lower_of x y)"
  by (simp add: lower_of_rank)

end

section \<open>Lists\<close>

text \<open>
  The first element with the least key: what a stable ascending sort puts at its head.
\<close>

fun least_first :: "('a \<Rightarrow> int) \<Rightarrow> 'a list \<Rightarrow> 'a option" where
  "least_first f [] = None"
| "least_first f (x # xs) =
     (case least_first f xs of None \<Rightarrow> Some x
      | Some y \<Rightarrow> if f x \<le> f y then Some x else Some y)"

definition head :: "'a list \<Rightarrow> 'a option" where
  "head xs = (case xs of [] \<Rightarrow> None | x # _ \<Rightarrow> Some x)"

lemma head_simps [simp]: "head [] = None" "head (x # xs) = Some x"
  by (simp_all add: head_def)

lemma head_insort_key:
  "head (insort_key f x ys) =
     (case head ys of None \<Rightarrow> Some x | Some y \<Rightarrow> if f x \<le> f y then Some x else Some y)"
  by (cases ys) auto

lemma head_sort_key: "head (sort_key f xs) = least_first f xs"
  for f :: "'a \<Rightarrow> int"
  by (induction xs) (simp_all add: head_insort_key)

lemma least_first_append:
  "least_first f (xs @ ys) =
     (case least_first f xs of None \<Rightarrow> least_first f ys
      | Some x \<Rightarrow> (case least_first f ys of None \<Rightarrow> Some x
                  | Some y \<Rightarrow> if f x \<le> f y then Some x else Some y))"
  by (induction xs) (auto split: option.splits)

lemma least_first_dup: "least_first f (xs @ xs @ ys) = least_first f (xs @ ys)"
  by (auto simp: least_first_append split: option.splits)

lemma find_head_filter: "find P xs = head (filter P xs)"
  by (induction xs) simp_all

lemma find_sort_key: "find P (sort_key f xs) = least_first f (filter P xs)"
  for f :: "'a \<Rightarrow> int"
  by (simp add: find_head_filter filter_sort head_sort_key)

lemma find_Some_in: "find P xs = Some x \<Longrightarrow> x \<in> set xs \<and> P x"
  by (auto simp: find_Some_iff)

lemma find_None_all: "find P xs = None \<longleftrightarrow> (\<forall>x \<in> set xs. \<not> P x)"
  by (auto simp: find_None_iff)

lemma find_cong_set: "(\<And>x. x \<in> set xs \<Longrightarrow> P x = Q x) \<Longrightarrow> find P xs = find Q xs"
  by (induction xs) auto

text \<open>The first hit in a sorted list has the least key among all hits.\<close>

lemma find_sort_key_least:
  assumes "find P (sort_key f xs) = Some x" "y \<in> set xs" "P y"
  shows "f x \<le> f y"
proof -
  let ?ys = "sort_key f xs"
  obtain i where i: "i < length ?ys" "?ys ! i = x" "\<And>j. j < i \<Longrightarrow> \<not> P (?ys ! j)"
    using assms(1) unfolding find_Some_iff by blast
  obtain j where j: "j < length ?ys" "?ys ! j = y"
    using assms(2) by (metis in_set_conv_nth set_sort)
  have "i \<le> j" using i(3) [of j] j(2) assms(3) by (meson not_le)
  then have "map f ?ys ! i \<le> map f ?ys ! j"
    using j(1) by (intro sorted_nth_mono) simp_all
  then show ?thesis using i j by simp
qed

lemma find_sort_key_None: "find P (sort_key f xs) = None \<longleftrightarrow> (\<forall>x \<in> set xs. \<not> P x)"
  by (simp add: find_None_all)

text \<open>Association lists stand for JavaScript objects and maps in insertion order.\<close>

fun put :: "'k \<Rightarrow> 'v \<Rightarrow> ('k \<times> 'v) list \<Rightarrow> ('k \<times> 'v) list" where
  "put k v [] = [(k, v)]"
| "put k v ((k', v') # m) = (if k = k' then (k, v) # m else (k', v') # put k v m)"

lemma map_of_put [simp]: "map_of (put k v m) k' = (if k' = k then Some v else map_of m k')"
  by (induction k v m rule: put.induct) auto

lemma keys_put: "fst ` set (put k v m) = insert k (fst ` set m)"
  by (induction k v m rule: put.induct) auto

lemma distinct_put: "distinct (map fst m) \<Longrightarrow> distinct (map fst (put k v m))"
proof (induction k v m rule: put.induct)
  case (2 k v k' v' m)
  then show ?case using keys_put [of k v m] by (auto simp flip: set_map)
qed simp

lemma length_put:
  "length (put k v m) = (if k \<in> fst ` set m then length m else Suc (length m))"
  by (induction k v m rule: put.induct) auto

lemma map_of_filter_keys:
  "map_of (filter (\<lambda>(k, v). P k) m) k = (if P k then map_of m k else None)"
  by (induction m) auto

end
