(* ===== verification/JsValue.thy ===== *)
theory JsValue
  imports Complex_Main Prelude
begin

text \<open>
  The JavaScript values and library functions the program uses. A number is a finite
  rational, an infinity or NaN; comparisons with NaN are false, as in the language. Negative
  zero is not told apart from zero (nothing in the modelled code can). Sums and products of
  finite numbers are exact here: the program applies them to cents and counts, integers for
  which double arithmetic is exact; the one place where rounding decides an outcome uses
  theory \<open>Float64\<close>. Strings are lists of 8-bit characters, and lower-casing changes the ASCII
  letters only.
\<close>

section \<open>Numbers\<close>

datatype number = Fin rat | PosInf | NegInf | NaN

fun is_finite :: "number \<Rightarrow> bool" where
  "is_finite (Fin _) = True"
| "is_finite _ = False"

fun num_lt :: "number \<Rightarrow> number \<Rightarrow> bool" where
  "num_lt (Fin a) (Fin b) = (a < b)"
| "num_lt (Fin _) PosInf = True"
| "num_lt NegInf (Fin _) = True"
| "num_lt NegInf PosInf = True"
| "num_lt _ _ = False"

definition num_eq :: "number \<Rightarrow> number \<Rightarrow> bool" where
  "num_eq a b \<longleftrightarrow> a = b \<and> a \<noteq> NaN"

definition num_le :: "number \<Rightarrow> number \<Rightarrow> bool" where
  "num_le a b \<longleftrightarrow> num_lt a b \<or> num_eq a b"

lemma num_eq_simps [simp, js_simps]:
  "num_eq (Fin a) (Fin b) \<longleftrightarrow> a = b" "\<not> num_eq NaN x" "\<not> num_eq x NaN"
  by (auto simp: num_eq_def)

lemma num_le_simps [simp, js_simps]:
  "num_le (Fin a) (Fin b) \<longleftrightarrow> a \<le> b" "\<not> num_le NaN x" "\<not> num_le x NaN"
  "num_le (Fin a) PosInf" "num_le NegInf (Fin a)" "\<not> num_le PosInf (Fin a)"
  "\<not> num_le (Fin a) NegInf"
  by (cases x; auto simp: num_le_def num_eq_def)+

lemma num_lt_NaN [simp, js_simps]: "\<not> num_lt NaN b" "\<not> num_lt a NaN"
  by (cases b; simp) (cases a; simp)

lemma num_le_not_lt: "a \<noteq> NaN \<Longrightarrow> b \<noteq> NaN \<Longrightarrow> num_le a b \<longleftrightarrow> \<not> num_lt b a"
  by (cases a; cases b) (auto simp: num_le_def num_eq_def)

lemma num_le_trans: "num_le a b \<Longrightarrow> num_le b c \<Longrightarrow> num_le a c"
  by (cases a; cases b; cases c) (auto simp: num_le_def num_eq_def)

lemma num_le_refl: "num_le a a \<longleftrightarrow> a \<noteq> NaN"
  by (cases a) (auto simp: num_le_def num_eq_def)

fun num_neg :: "number \<Rightarrow> number" where
  "num_neg (Fin a) = Fin (- a)"
| "num_neg PosInf = NegInf"
| "num_neg NegInf = PosInf"
| "num_neg NaN = NaN"

fun num_add :: "number \<Rightarrow> number \<Rightarrow> number" where
  "num_add (Fin a) (Fin b) = Fin (a + b)"
| "num_add NaN _ = NaN"
| "num_add _ NaN = NaN"
| "num_add PosInf NegInf = NaN"
| "num_add NegInf PosInf = NaN"
| "num_add PosInf _ = PosInf"
| "num_add _ PosInf = PosInf"
| "num_add NegInf _ = NegInf"
| "num_add _ NegInf = NegInf"

definition num_sub :: "number \<Rightarrow> number \<Rightarrow> number" where
  "num_sub a b = num_add a (num_neg b)"

lemma num_sub_Fin [simp, js_simps]: "num_sub (Fin a) (Fin b) = Fin (a - b)"
  by (simp add: num_sub_def)

text \<open>Multiplication by a finite non-zero constant, as the code's unit conversions need.\<close>

fun num_scale :: "rat \<Rightarrow> number \<Rightarrow> number" where
  "num_scale c (Fin a) = Fin (c * a)"
| "num_scale c PosInf = (if c = 0 then NaN else if 0 < c then PosInf else NegInf)"
| "num_scale c NegInf = (if c = 0 then NaN else if 0 < c then NegInf else PosInf)"
| "num_scale c NaN = NaN"

text \<open>\<open>Math.min\<close> and \<open>Math.max\<close> return NaN as soon as one argument is NaN.\<close>

definition math_min :: "number \<Rightarrow> number \<Rightarrow> number" where
  "math_min a b = (if a = NaN \<or> b = NaN then NaN else if num_lt b a then b else a)"

definition math_max :: "number \<Rightarrow> number \<Rightarrow> number" where
  "math_max a b = (if a = NaN \<or> b = NaN then NaN else if num_lt a b then b else a)"

lemma math_min_le:
  "a \<noteq> NaN \<Longrightarrow> b \<noteq> NaN \<Longrightarrow> num_le (math_min a b) a \<and> num_le (math_min a b) b"
  by (cases a; cases b) (auto simp: math_min_def num_le_def num_eq_def)

lemma math_min_NaN [simp]: "math_min a b = NaN \<longleftrightarrow> a = NaN \<or> b = NaN"
  by (auto simp: math_min_def)

lemma math_max_Fin [simp, js_simps]: "math_max (Fin a) (Fin b) = Fin (max a b)"
  by (auto simp: math_max_def max_def)

lemma math_min_Fin [simp, js_simps]: "math_min (Fin a) (Fin b) = Fin (min a b)"
  by (auto simp: math_min_def min_def)

text \<open>\<open>Math.round\<close> rounds halves up; \<open>Math.trunc\<close>, \<open>Math.ceil\<close>, \<open>Math.floor\<close> as in HOL.\<close>

fun math_round :: "number \<Rightarrow> number" where
  "math_round (Fin a) = Fin (of_int \<lfloor>a + 1 / 2\<rfloor>)"
| "math_round x = x"

fun math_trunc :: "number \<Rightarrow> number" where
  "math_trunc (Fin a) = Fin (of_int (if 0 \<le> a then \<lfloor>a\<rfloor> else \<lceil>a\<rceil>))"
| "math_trunc x = x"

fun math_ceil :: "number \<Rightarrow> number" where
  "math_ceil (Fin a) = Fin (of_int \<lceil>a\<rceil>)"
| "math_ceil x = x"

text \<open>\<open>Number.isSafeInteger\<close>\<close>

fun is_safe_integer :: "number \<Rightarrow> bool" where
  "is_safe_integer (Fin a) \<longleftrightarrow> of_int \<lfloor>a\<rfloor> = a \<and> \<bar>a\<bar> \<le> 9007199254740991"
| "is_safe_integer _ = False"

section \<open>Strings\<close>

definition lower_char :: "char \<Rightarrow> char" where
  "lower_char c = (let n = (of_char c :: nat) in if 65 \<le> n \<and> n \<le> 90 then char_of (n + 32) else c)"

definition to_lower :: "string \<Rightarrow> string" where
  "to_lower s = map lower_char s"

fun starts_with :: "string \<Rightarrow> string \<Rightarrow> bool" where
  "starts_with s [] = True"
| "starts_with [] (_ # _) = False"
| "starts_with (c # s) (d # t) = (c = d \<and> starts_with s t)"

fun str_includes :: "string \<Rightarrow> string \<Rightarrow> bool" where
  "str_includes [] t = (t = [])"
| "str_includes (c # s) t = (starts_with (c # s) t \<or> str_includes s t)"

lemma starts_with_append: "starts_with s t \<longleftrightarrow> (\<exists>u. s = t @ u)"
  by (induction s t rule: starts_with.induct) auto

lemma includes_append: "str_includes s t \<longleftrightarrow> (\<exists>u v. s = u @ t @ v)"
proof (induction s)
  case (Cons c s)
  then show ?case
    by (auto simp: starts_with_append Cons_eq_append_conv)
qed simp

text \<open>White space at the ends of a numeric string, within the 8-bit range.\<close>

definition is_space :: "char \<Rightarrow> bool" where
  "is_space c = ((of_char c :: nat) \<in> {9, 10, 11, 12, 13, 32, 160})"

definition trim :: "string \<Rightarrow> string" where
  "trim s = rev (dropWhile is_space (rev (dropWhile is_space s)))"

fun split_on :: "char \<Rightarrow> string \<Rightarrow> string list" where
  "split_on d [] = [[]]"
| "split_on d (c # s) =
     (if c = d then [] # split_on d s
      else case split_on d s of [] \<Rightarrow> [[c]] | w # ws \<Rightarrow> (c # w) # ws)"

lemma split_on_nonempty: "split_on d s \<noteq> []"
  by (induction s) (auto split: list.splits)

lemma split_on_join:
  "d \<notin> set w \<Longrightarrow> split_on d (w @ d # s) = w # split_on d s"
  by (induction w) auto

lemma split_on_none: "d \<notin> set w \<Longrightarrow> split_on d w = [w]"
  by (induction w) auto

section \<open>Numeric strings\<close>

text \<open>
  \<open>Number(s)\<close> on a string: trimmed; empty is 0; the Infinity words; a hexadecimal, octal or
  binary prefix; otherwise a decimal literal with optional fraction and exponent; anything
  else is NaN.
\<close>

definition digit_val :: "char \<Rightarrow> nat option" where
  "digit_val c = (let n = (of_char c :: nat) in
     if 48 \<le> n \<and> n \<le> 57 then Some (n - 48)
     else if 97 \<le> n \<and> n \<le> 122 then Some (n - 87)
     else if 65 \<le> n \<and> n \<le> 90 then Some (n - 55) else None)"

definition is_digit :: "nat \<Rightarrow> char \<Rightarrow> bool" where
  "is_digit base c = (case digit_val c of None \<Rightarrow> False | Some d \<Rightarrow> d < base)"

fun digits_val :: "nat \<Rightarrow> nat \<Rightarrow> string \<Rightarrow> nat" where
  "digits_val base acc [] = acc"
| "digits_val base acc (c # s) =
     digits_val base (acc * base + (case digit_val c of None \<Rightarrow> 0 | Some d \<Rightarrow> d)) s"

definition radix_literal :: "nat \<Rightarrow> string \<Rightarrow> number" where
  "radix_literal base ds =
     (if ds \<noteq> [] \<and> list_all (is_digit base) ds then Fin (of_nat (digits_val base 0 ds)) else NaN)"

definition exponent_part :: "string \<Rightarrow> int option" where
  "exponent_part s = (case s of [] \<Rightarrow> Some 0
     | c # t \<Rightarrow>
        if c \<noteq> CHR ''e'' \<and> c \<noteq> CHR ''E'' then None
        else (let (sg, ds) = (case t of [] \<Rightarrow> (1::int, [])
                 | d # u \<Rightarrow> if d = CHR ''-'' then (- 1, u) else if d = CHR ''+'' then (1, u)
                           else (1, t))
              in if ds \<noteq> [] \<and> list_all (is_digit 10) ds
                 then Some (sg * int (digits_val 10 0 ds)) else None))"

definition power10 :: "int \<Rightarrow> rat" where
  "power10 e = (if 0 \<le> e then 10 ^ nat e else 1 / 10 ^ nat (- e))"

definition unsigned_decimal :: "string \<Rightarrow> number" where
  "unsigned_decimal s =
     (if s = ''Infinity'' then PosInf else
      let ip = takeWhile (is_digit 10) s; r1 = dropWhile (is_digit 10) s;
          (fp, r2) = (case r1 of [] \<Rightarrow> ([], [])
             | c # t \<Rightarrow> if c = CHR ''.'' then (takeWhile (is_digit 10) t, dropWhile (is_digit 10) t)
                        else ([], r1))
      in if ip = [] \<and> fp = [] then NaN
         else (case exponent_part r2 of None \<Rightarrow> NaN
           | Some e \<Rightarrow> Fin (of_nat (digits_val 10 0 (ip @ fp)) * power10 (e - int (length fp)))))"

definition radix_prefix :: "string \<Rightarrow> number option" where
  "radix_prefix t = (case t of [] \<Rightarrow> None | c # ds \<Rightarrow>
     if c = CHR ''x'' \<or> c = CHR ''X'' then Some (radix_literal 16 ds)
     else if c = CHR ''o'' \<or> c = CHR ''O'' then Some (radix_literal 8 ds)
     else if c = CHR ''b'' \<or> c = CHR ''B'' then Some (radix_literal 2 ds)
     else None)"

definition string_to_number :: "string \<Rightarrow> number" where
  "string_to_number s = (case trim s of
       [] \<Rightarrow> Fin 0
     | c # t \<Rightarrow> (case (if c = CHR ''0'' then radix_prefix t else None) of
           Some n \<Rightarrow> n
         | None \<Rightarrow>
             if c = CHR ''-'' then num_neg (unsigned_decimal t)
             else if c = CHR ''+'' then unsigned_decimal t
             else unsigned_decimal (c # t)))"

section \<open>Values of type unknown\<close>

datatype jsval =
    JUndefined
  | JNull
  | JBool bool
  | JNum number
  | JStr string
  | JArr "jsval list"
  | JObj "(string \<times> jsval) list"

type_synonym jsobj = "(string \<times> jsval) list"

definition get :: "jsobj \<Rightarrow> string \<Rightarrow> jsval" where
  "get ob k = (case map_of ob k of None \<Rightarrow> JUndefined | Some v \<Rightarrow> v)"

lemma get_Nil [simp, js_simps]: "get [] k = JUndefined"
  by (simp add: get_def)

lemma get_Cons [simp, js_simps]: "get ((k', v) # ob) k = (if k = k' then v else get ob k)"
  by (simp add: get_def)

definition has_own :: "jsobj \<Rightarrow> string \<Rightarrow> bool" where
  "has_own ob k \<longleftrightarrow> k \<in> fst ` set ob"

fun truthy :: "jsval \<Rightarrow> bool" where
  "truthy JUndefined = False"
| "truthy JNull = False"
| "truthy (JBool b) = b"
| "truthy (JNum n) = (n \<noteq> Fin 0 \<and> n \<noteq> NaN)"
| "truthy (JStr s) = (s \<noteq> [])"
| "truthy (JArr _) = True"
| "truthy (JObj _) = True"

text \<open>
  \<open>===\<close>. Two arrays or objects that reach a comparison come from different JSON documents, so
  they are different references and never equal.
\<close>

fun strict_eq :: "jsval \<Rightarrow> jsval \<Rightarrow> bool" where
  "strict_eq JUndefined JUndefined = True"
| "strict_eq JNull JNull = True"
| "strict_eq (JBool a) (JBool b) = (a = b)"
| "strict_eq (JNum a) (JNum b) = num_eq a b"
| "strict_eq (JStr a) (JStr b) = (a = b)"
| "strict_eq _ _ = False"

text \<open>\<open>Array.str_includes\<close> uses the same comparison except that NaN equals NaN.\<close>

definition same_value_zero :: "jsval \<Rightarrow> jsval \<Rightarrow> bool" where
  "same_value_zero a b \<longleftrightarrow> strict_eq a b \<or> (a = JNum NaN \<and> b = JNum NaN)"

text \<open>
  \<open>Number(v)\<close>. An array is first joined to a string with commas: an empty array is the empty
  string, a singleton is its element's string, and a string with a comma is never numeric.
\<close>

fun to_number :: "jsval \<Rightarrow> number" where
  "to_number JUndefined = NaN"
| "to_number JNull = Fin 0"
| "to_number (JBool b) = Fin (if b then 1 else 0)"
| "to_number (JNum n) = n"
| "to_number (JStr s) = string_to_number s"
| "to_number (JArr []) = Fin 0"
| "to_number (JArr [v]) =
     (case v of JUndefined \<Rightarrow> Fin 0 | JNull \<Rightarrow> Fin 0 | JBool _ \<Rightarrow> NaN | _ \<Rightarrow> to_number v)"
| "to_number (JArr _) = NaN"
| "to_number (JObj _) = NaN"

text \<open>\<open>a ?? b\<close>\<close>

definition nullish_or :: "jsval \<Rightarrow> jsval \<Rightarrow> jsval" where
  "nullish_or a b = (if a = JUndefined \<or> a = JNull then b else a)"

definition is_string :: "jsval \<Rightarrow> bool" where
  "is_string v = (case v of JStr _ \<Rightarrow> True | _ \<Rightarrow> False)"

definition opt_str :: "string option \<Rightarrow> jsval" where
  "opt_str x = (case x of None \<Rightarrow> JUndefined | Some s \<Rightarrow> JStr s)"

section \<open>Conversion to strings and relational comparison\<close>

text \<open>
  \<open>String(n)\<close> of a number: its decimal digits laid out by the rules of the language (plain up
  to 21 places, a leading \<open>0.\<close> down to six zeros, an exponent otherwise). The numbers that reach
  a string come from JSON literals, so they have a finite decimal expansion of at most 60 places.
\<close>

function digits_of :: "int \<Rightarrow> string" where
  "digits_of n =
     (if n < 10 then [char_of (48 + nat n)]
      else digits_of (n div 10) @ [char_of (48 + nat (n mod 10))])"
  by auto
termination by (relation "measure nat") auto

declare digits_of.simps [simp del]

fun decimal_places :: "nat \<Rightarrow> int \<Rightarrow> nat" where
  "decimal_places 0 q = 0"
| "decimal_places (Suc k) q = (if q = 1 then 0 else Suc (decimal_places k (q div gcd q 10)))"

definition int_str :: "int \<Rightarrow> string" where
  "int_str n = (if n < 0 then CHR ''-'' # digits_of (- n) else digits_of n)"

definition strip_zeros :: "string \<Rightarrow> string" where
  "strip_zeros ds = rev (dropWhile (\<lambda>c. c = CHR ''0'') (rev ds))"

definition positive_str :: "rat \<Rightarrow> string" where
  "positive_str a = (let j = decimal_places 60 (snd (quotient_of a));
       all = digits_of \<lfloor>a * 10 ^ j\<rfloor>;
       n = int (length all) - int j; ds = strip_zeros all; k = int (length ds) in
     if k \<le> n \<and> n \<le> 21 then ds @ replicate (nat (n - k)) CHR ''0''
     else if 0 < n \<and> n \<le> 21 then take (nat n) ds @ ''.'' @ drop (nat n) ds
     else if - 6 < n \<and> n \<le> 0 then ''0.'' @ replicate (nat (- n)) CHR ''0'' @ ds
     else take 1 ds @ (if k = 1 then [] else ''.'' @ drop 1 ds) @ ''e''
       @ (if 0 \<le> n - 1 then ''+'' else []) @ int_str (n - 1))"

fun num_str :: "number \<Rightarrow> string" where
  "num_str NaN = ''NaN''"
| "num_str PosInf = ''Infinity''"
| "num_str NegInf = ''-Infinity''"
| "num_str (Fin a) =
     (if a = 0 then ''0'' else if a < 0 then CHR ''-'' # positive_str (- a) else positive_str a)"

fun join_with :: "string \<Rightarrow> string list \<Rightarrow> string" where
  "join_with sep [] = []"
| "join_with sep [s] = s"
| "join_with sep (s # t # ss) = s @ sep @ join_with sep (t # ss)"

text \<open>\<open>String(v)\<close>; inside an array, undefined and null print as the empty string.\<close>

fun to_str :: "jsval \<Rightarrow> string" where
  "to_str JUndefined = ''undefined''"
| "to_str JNull = ''null''"
| "to_str (JBool b) = (if b then ''true'' else ''false'')"
| "to_str (JNum n) = num_str n"
| "to_str (JStr s) = s"
| "to_str (JArr vs) =
     join_with '','' (map (\<lambda>v. if v = JUndefined \<or> v = JNull then [] else to_str v) vs)"
| "to_str (JObj _) = ''[object Object]''"

definition to_primitive :: "jsval \<Rightarrow> jsval" where
  "to_primitive v = (case v of JArr _ \<Rightarrow> JStr (to_str v) | JObj _ \<Rightarrow> JStr (to_str v) | _ \<Rightarrow> v)"

fun str_less :: "string \<Rightarrow> string \<Rightarrow> bool" where
  "str_less _ [] = False"
| "str_less [] (_ # _) = True"
| "str_less (c # s) (d # t) =
     ((of_char c :: nat) < of_char d \<or> (c = d \<and> str_less s t))"

text \<open>The operators \<open><\<close> and \<open><=\<close> on arbitrary values; \<open>>\<close> and \<open>>=\<close> swap the arguments.\<close>

definition js_less :: "jsval \<Rightarrow> jsval \<Rightarrow> bool" where
  "js_less a b = (case (to_primitive a, to_primitive b) of
     (JStr s, JStr t) \<Rightarrow> str_less s t
   | (x, y) \<Rightarrow> num_lt (to_number x) (to_number y))"

definition js_leq :: "jsval \<Rightarrow> jsval \<Rightarrow> bool" where
  "js_leq a b = (case (to_primitive a, to_primitive b) of
     (JStr s, JStr t) \<Rightarrow> \<not> str_less t s
   | (x, y) \<Rightarrow> num_le (to_number x) (to_number y))"

lemma js_less_num [simp, js_simps]: "js_less (JNum a) (JNum b) = num_lt a b"
  by (simp add: js_less_def to_primitive_def)

lemma js_leq_num [simp, js_simps]: "js_leq (JNum a) (JNum b) = num_le a b"
  by (simp add: js_leq_def to_primitive_def)

text \<open>\<open>v.k\<close> on a value of unknown shape that is not null or undefined.\<close>

definition prop_of :: "jsval \<Rightarrow> string \<Rightarrow> jsval" where
  "prop_of v k = (case v of JObj ob \<Rightarrow> get ob k | _ \<Rightarrow> JUndefined)"

end
