(* ===== verification/SharedTypes.thy ===== *)
theory SharedTypes
  imports JsValue
begin

text \<open>
  The data model of \<open>packages/shared-types/src\<close>: the string enums with their runtime strings,
  the candidate action and its risk assessment, the policies, the user's autonomy settings, the
  approval statistics and the profile. An interface is a record whose fields carry a short
  prefix for the interface; an optional property is an \<open>option\<close>. Timestamps are integers
  (milliseconds); creation times that nothing reads are left out.
\<close>

section \<open>Enums (enums.ts)\<close>

text \<open>
  A trust tier read from the database may be any string: the last constructor stands for a
  string outside the enum, which the code handles in its default branches.
\<close>

datatype trust_tier =
    OBSERVER
  | SUGGEST
  | LOW_AUTONOMY
  | MODERATE_AUTONOMY
  | HIGH_AUTONOMY
  | UNRECOGNIZED_TIER string

fun trust_str :: "trust_tier \<Rightarrow> string" where
  "trust_str OBSERVER = ''observer''"
| "trust_str SUGGEST = ''suggest''"
| "trust_str LOW_AUTONOMY = ''low_autonomy''"
| "trust_str MODERATE_AUTONOMY = ''moderate_autonomy''"
| "trust_str HIGH_AUTONOMY = ''high_autonomy''"
| "trust_str (UNRECOGNIZED_TIER s) = s"

datatype risk_tier = NEGLIGIBLE | LOW | MODERATE | HIGH | CRITICAL

fun risk_str :: "risk_tier \<Rightarrow> string" where
  "risk_str NEGLIGIBLE = ''negligible''"
| "risk_str LOW = ''low''"
| "risk_str MODERATE = ''moderate''"
| "risk_str HIGH = ''high''"
| "risk_str CRITICAL = ''critical''"

datatype confidence_level =
    C_SPECULATIVE | C_LOW | C_MODERATE | C_HIGH | C_CONFIRMED

fun confidence_str :: "confidence_level \<Rightarrow> string" where
  "confidence_str C_SPECULATIVE = ''speculative''"
| "confidence_str C_LOW = ''low''"
| "confidence_str C_MODERATE = ''moderate''"
| "confidence_str C_HIGH = ''high''"
| "confidence_str C_CONFIRMED = ''confirmed''"

datatype situation_type =
    EMAIL_TRIAGE | CALENDAR_INVITE | CALENDAR_CONFLICT | CALENDAR_UPDATE
  | SUBSCRIPTION_RENEWAL | GROCERY_REORDER | TRAVEL_DECISION | FINANCE_OPERATION
  | SMART_HOME | TASK_MANAGEMENT | SOCIAL_MEDIA | DOCUMENT_MANAGEMENT
  | HEALTH_WELLNESS | SECURITY_ALERT | GENERIC

fun situation_str :: "situation_type \<Rightarrow> string" where
  "situation_str EMAIL_TRIAGE = ''email_triage''"
| "situation_str CALENDAR_INVITE = ''calendar_invite''"
| "situation_str CALENDAR_CONFLICT = ''calendar_conflict''"
| "situation_str CALENDAR_UPDATE = ''calendar_update''"
| "situation_str SUBSCRIPTION_RENEWAL = ''subscription_renewal''"
| "situation_str GROCERY_REORDER = ''grocery_reorder''"
| "situation_str TRAVEL_DECISION = ''travel_decision''"
| "situation_str FINANCE_OPERATION = ''finance_operation''"
| "situation_str SMART_HOME = ''smart_home''"
| "situation_str TASK_MANAGEMENT = ''task_management''"
| "situation_str SOCIAL_MEDIA = ''social_media''"
| "situation_str DOCUMENT_MANAGEMENT = ''document_management''"
| "situation_str HEALTH_WELLNESS = ''health_wellness''"
| "situation_str SECURITY_ALERT = ''security_alert''"
| "situation_str GENERIC = ''generic''"

datatype risk_dimension =
    REVERSIBILITY | FINANCIAL_IMPACT | LEGAL_SENSITIVITY | PRIVACY_SENSITIVITY
  | RELATIONSHIP_SENSITIVITY | OPERATIONAL_RISK

fun dimension_str :: "risk_dimension \<Rightarrow> string" where
  "dimension_str REVERSIBILITY = ''reversibility''"
| "dimension_str FINANCIAL_IMPACT = ''financial_impact''"
| "dimension_str LEGAL_SENSITIVITY = ''legal_sensitivity''"
| "dimension_str PRIVACY_SENSITIVITY = ''privacy_sensitivity''"
| "dimension_str RELATIONSHIP_SENSITIVITY = ''relationship_sensitivity''"
| "dimension_str OPERATIONAL_RISK = ''operational_risk''"

text \<open>Risk tiers and confidence levels are chains; the library's order applies to them.\<close>

fun risk_index :: "risk_tier \<Rightarrow> int" where
  "risk_index NEGLIGIBLE = 0"
| "risk_index LOW = 1"
| "risk_index MODERATE = 2"
| "risk_index HIGH = 3"
| "risk_index CRITICAL = 4"

lemma risk_index_inject: "risk_index x = risk_index y \<Longrightarrow> x = y"
  by (cases x; cases y) simp_all

instantiation risk_tier :: linorder
begin

definition less_eq_risk_tier :: "risk_tier \<Rightarrow> risk_tier \<Rightarrow> bool" where
  "less_eq_risk_tier x y \<longleftrightarrow> risk_index x \<le> risk_index y"

definition less_risk_tier :: "risk_tier \<Rightarrow> risk_tier \<Rightarrow> bool" where
  "less_risk_tier x y \<longleftrightarrow> risk_index x < risk_index y"

instance
  by standard (auto simp: less_eq_risk_tier_def less_risk_tier_def intro: risk_index_inject)

end

fun confidence_index :: "confidence_level \<Rightarrow> int" where
  "confidence_index C_SPECULATIVE = 0"
| "confidence_index C_LOW = 1"
| "confidence_index C_MODERATE = 2"
| "confidence_index C_HIGH = 3"
| "confidence_index C_CONFIRMED = 4"

lemma confidence_index_inject: "confidence_index x = confidence_index y \<Longrightarrow> x = y"
  by (cases x; cases y) simp_all

instantiation confidence_level :: linorder
begin

definition less_eq_confidence_level :: "confidence_level \<Rightarrow> confidence_level \<Rightarrow> bool" where
  "less_eq_confidence_level x y \<longleftrightarrow> confidence_index x \<le> confidence_index y"

definition less_confidence_level :: "confidence_level \<Rightarrow> confidence_level \<Rightarrow> bool" where
  "less_confidence_level x y \<longleftrightarrow> confidence_index x < confidence_index y"

instance
  by standard
    (auto simp: less_eq_confidence_level_def less_confidence_level_def
      intro: confidence_index_inject)

end

lemmas level_order_defs =
  less_eq_risk_tier_def less_risk_tier_def
  less_eq_confidence_level_def less_confidence_level_def

interpretation risk_grade: graded risk_index
  by unfold_locales (rule risk_index_inject)

interpretation confidence_grade: graded confidence_index
  by unfold_locales (rule confidence_index_inject)

section \<open>Decisions and candidate actions (decision.ts)\<close>

datatype action_provenance = user_originated | trusted_context | untrusted_external

fun provenance_str :: "action_provenance \<Rightarrow> string" where
  "provenance_str user_originated = ''user_originated''"
| "provenance_str trusted_context = ''trusted_context''"
| "provenance_str untrusted_external = ''untrusted_external''"

datatype urgency = U_low | U_medium | U_high | U_critical

fun urgency_str :: "urgency \<Rightarrow> string" where
  "urgency_str U_low = ''low''"
| "urgency_str U_medium = ''medium''"
| "urgency_str U_high = ''high''"
| "urgency_str U_critical = ''critical''"

record decision_object =
  do_id :: string
  do_situationType :: situation_type
  do_domain :: string
  do_urgency :: urgency
  do_summary :: string
  do_rawData :: jsobj
  do_interpretedAt :: int
  do_provenance :: "action_provenance option"

datatype cost_intent = verified_zero | cost_unknown

record candidate_action =
  ca_id :: string
  ca_decisionId :: string
  ca_actionType :: string
  ca_description :: string
  ca_domain :: string
  ca_parameters :: jsobj
  ca_estimatedCostCents :: number
  ca_costZeroIntent :: "cost_intent option"
  ca_reversible :: bool
  ca_confidence :: confidence_level
  ca_reasoning :: string
  ca_provenance :: "action_provenance option"
  ca_capabilityProvenanceNodeId :: "string option"

text \<open>
  Explanatory texts are kept as structured values: one constructor per message of the code,
  with the values that the message interpolates.
\<close>

datatype risk_reason =
    rr_reversible | rr_irreversible_deletion | rr_irreversible_sending | rr_irreversible
  | rr_no_cost | rr_minor_cost number | rr_moderate_cost number | rr_significant_cost number
  | rr_major_cost number
  | rr_legal_none | rr_legal_minor | rr_legal_moderate "string list" | rr_legal_high
  | rr_privacy_none | rr_privacy_sharing | rr_privacy_potential | rr_privacy_high
  | rr_relation_positive | rr_relation_none | rr_relation_minor | rr_relation_moderate
  | rr_relation_high
  | rr_operational_none | rr_operational_minor | rr_operational_moderate | rr_operational_high

record dimension_assessment =
  dim_tier :: risk_tier
  dim_score :: rat
  dim_reasoning :: risk_reason

datatype assessment_reason =
    Overall risk_tier "(risk_dimension \<times> risk_tier \<times> risk_reason) list"
  | WithAdapterModifier assessment_reason int string

record risk_assessment =
  ra_actionId :: string
  ra_overallTier :: risk_tier
  ra_dimensions :: "(risk_dimension \<times> dimension_assessment) list"
  ra_reasoning :: assessment_reason
  ra_assessedAt :: int

datatype confirmation_level = single | dual

section \<open>Policies (policy.ts)\<close>

datatype policy_effect = allow_effect | deny_effect | require_approval_effect

datatype condition_operator =
    op_eq | op_neq | op_gt | op_gte | op_lt | op_lte | op_in | op_not_in | op_contains
  | op_other string

record policy_condition =
  pc_field :: string
  pc_operator :: condition_operator
  pc_value :: jsval

record policy_rule =
  pr_id :: string
  pr_policyId :: string
  pr_condition :: policy_condition
  pr_effect :: policy_effect
  pr_reason :: string

record action_policy =
  pol_id :: string
  pol_name :: string
  pol_description :: string
  pol_rules :: "policy_rule list"
  pol_priority :: int
  pol_enabled :: bool
  pol_builtIn :: bool

record approval_stats =
  st_totalApprovals :: int
  st_totalRejections :: int
  st_totalUndos :: int
  st_consecutiveApprovals :: int
  st_recentRejections :: int
  st_hasCriticalUndo :: bool
  st_approvalRatio :: rat
  st_hoursInCurrentTier :: "number option"

datatype tier_direction = promotion | regression

record promotion_threshold =
  th_consecutiveApprovals :: int
  th_minApprovalRatio :: rat
  th_minDurationInTierHours :: rat
  th_nextTier :: trust_tier

section \<open>The user's settings (user.ts)\<close>

text \<open>
  \<open>perAppOverrides\<close> is read from a JSON column and only cast to its interface, so it stays the
  raw object here; the readers coerce its fields as the code does.
\<close>

record autonomy_settings =
  as_maxSpendPerActionCents :: number
  as_maxDailySpendCents :: number
  as_allowedDomains :: "string list"
  as_blockedDomains :: "string list"
  as_requireApprovalForIrreversible :: bool
  as_quietHoursStart :: "string option"
  as_quietHoursEnd :: "string option"
  as_perAppOverrides :: "jsobj option"
  as_paused :: "bool option"
  as_pausedAt :: "string option"
  as_pausedReason :: "string option"

section \<open>The profile (twin.ts, patterns.ts)\<close>

record preference =
  pf_id :: string
  pf_domain :: string
  pf_key :: string
  pf_value :: jsval
  pf_confidence :: confidence_level

record inference =
  inf_id :: string
  inf_domain :: string
  inf_key :: string
  inf_value :: jsval
  inf_confidence :: confidence_level

record twin_profile =
  tp_userId :: string
  tp_version :: int
  tp_preferences :: "preference list"
  tp_inferences :: "inference list"

record behavioral_pattern =
  bp_observedAction :: string
  bp_triggerDomain :: "string option"
  bp_frequency :: int

record cross_domain_trait =
  ct_traitName :: string

end
