(* ===== verification/DefaultPolicies.thy ===== *)
theory DefaultPolicies
  imports SharedTypes
begin

text \<open>
  \<open>packages/policy-engine/src/default-policies.ts\<close>: the five policies that ship with the
  program and that every evaluation puts in front of the user's own.
\<close>

definition NO_SPEND_WITHOUT_LIMIT :: action_policy where
  \<open>NO_SPEND_WITHOUT_LIMIT =
     \<lparr> pol_id = ''builtin_no_spend_without_limit'',
       pol_name = ''No Spend Without Limit'',
       pol_description = ''Prevents any financial action from being auto-executed unless the user '' @
         ''has configured spend limits in their autonomy settings.'',
       pol_rules =
         [\<lparr> pr_id = ''rule_spend_limit_required'',
            pr_policyId = ''builtin_no_spend_without_limit'',
            pr_condition = \<lparr> pc_field = ''estimatedCostCents'', pc_operator = op_gt,
              pc_value = JNum (Fin 0) \<rparr>,
            pr_effect = deny_effect,
            pr_reason = ''Financial actions require configured spend limits. '' @
              ''Please set a spend limit in your autonomy settings.'' \<rparr>],
       pol_priority = 100, pol_enabled = True, pol_builtIn = True \<rparr>\<close>

definition NO_IRREVERSIBLE_WITHOUT_APPROVAL :: action_policy where
  \<open>NO_IRREVERSIBLE_WITHOUT_APPROVAL =
     \<lparr> pol_id = ''builtin_no_irreversible_without_approval'',
       pol_name = ''No Irreversible Without Approval'',
       pol_description = ''Requires explicit user approval for any action that is irreversible '' @
         ''and has risk above "low".'',
       pol_rules =
         [\<lparr> pr_id = ''rule_irreversible_approval'',
            pr_policyId = ''builtin_no_irreversible_without_approval'',
            pr_condition = \<lparr> pc_field = ''reversible'', pc_operator = op_eq,
              pc_value = JBool False \<rparr>,
            pr_effect = require_approval_effect,
            pr_reason = ''This action cannot be undone. '' @
              ''Approval is required for irreversible actions with elevated risk.'' \<rparr>],
       pol_priority = 95, pol_enabled = True, pol_builtIn = True \<rparr>\<close>

definition NO_LEGAL_WITHOUT_REVIEW :: action_policy where
  \<open>NO_LEGAL_WITHOUT_REVIEW =
     \<lparr> pol_id = ''builtin_no_legal_without_review'',
       pol_name = ''No Legal Without Review'',
       pol_description = ''Blocks any action that has legal sensitivity rated above "moderate". '' @
         ''These actions require human review.'',
       pol_rules =
         [\<lparr> pr_id = ''rule_legal_review'',
            pr_policyId = ''builtin_no_legal_without_review'',
            pr_condition = \<lparr> pc_field = ''riskDimension.legal_sensitivity'', pc_operator = op_gt,
              pc_value = JStr ''moderate'' \<rparr>,
            pr_effect = deny_effect,
            pr_reason = ''Actions with significant legal implications cannot be auto-executed. '' @
              ''Please review this action manually.'' \<rparr>],
       pol_priority = 90, pol_enabled = True, pol_builtIn = True \<rparr>\<close>

definition NO_PRIVACY_VIOLATIONS :: action_policy where
  \<open>NO_PRIVACY_VIOLATIONS =
     \<lparr> pol_id = ''builtin_no_privacy_violations'',
       pol_name = ''No Privacy Violations'',
       pol_description = ''Prevents any action that could expose private user data to '' @
         ''unauthorized parties.'',
       pol_rules =
         [\<lparr> pr_id = ''rule_privacy_protection'',
            pr_policyId = ''builtin_no_privacy_violations'',
            pr_condition = \<lparr> pc_field = ''riskDimension.privacy_sensitivity'', pc_operator = op_gt,
              pc_value = JStr ''low'' \<rparr>,
            pr_effect = deny_effect,
            pr_reason = ''This action may expose private data. '' @
              ''Privacy-sensitive actions require explicit approval.'' \<rparr>],
       pol_priority = 100, pol_enabled = True, pol_builtIn = True \<rparr>\<close>

definition TRUST_TIER_GATING :: action_policy where
  \<open>TRUST_TIER_GATING =
     \<lparr> pol_id = ''builtin_trust_tier_gating'',
       pol_name = ''Trust Tier Gating'',
       pol_description = ''Requires progressively higher trust tiers for actions with increasing '' @
         ''risk. Observer and suggest tiers require approval for every action; '' @
         ''higher tiers earn auto-execution.'',
       pol_rules =
         [\<lparr> pr_id = ''rule_observer_approval'',
            pr_policyId = ''builtin_trust_tier_gating'',
            pr_condition = \<lparr> pc_field = ''trustTier'', pc_operator = op_eq,
              pc_value = JStr ''observer'' \<rparr>,
            pr_effect = require_approval_effect,
            pr_reason = ''Observer trust tier requires approval for all actions.'' \<rparr>,
          \<lparr> pr_id = ''rule_suggest_approval'',
            pr_policyId = ''builtin_trust_tier_gating'',
            pr_condition = \<lparr> pc_field = ''trustTier'', pc_operator = op_eq,
              pc_value = JStr ''suggest'' \<rparr>,
            pr_effect = require_approval_effect,
            pr_reason = ''Suggest trust tier requires approval for all actions.'' \<rparr>],
       pol_priority = 100, pol_enabled = True, pol_builtIn = True \<rparr>\<close>

definition DEFAULT_POLICIES :: "action_policy list" where
  "DEFAULT_POLICIES =
     [NO_SPEND_WITHOUT_LIMIT, NO_IRREVERSIBLE_WITHOUT_APPROVAL, NO_LEGAL_WITHOUT_REVIEW,
      NO_PRIVACY_VIOLATIONS, TRUST_TIER_GATING]"

lemmas default_policy_defs =
  NO_SPEND_WITHOUT_LIMIT_def NO_IRREVERSIBLE_WITHOUT_APPROVAL_def NO_LEGAL_WITHOUT_REVIEW_def
  NO_PRIVACY_VIOLATIONS_def TRUST_TIER_GATING_def

lemma default_enabled: "p \<in> set DEFAULT_POLICIES \<Longrightarrow> pol_enabled p"
  by (auto simp: DEFAULT_POLICIES_def default_policy_defs)

end
