(* ===== verification/Regex.thy ===== *)
theory Regex
  imports JsValue
begin

text \<open>
  The regular expressions of the program as data (\<open>Lazy\<close> is the star that prefers fewer rounds), and \<open>RegExp.prototype.test\<close> as an executable
  matcher. A position is the character to the left (for word boundaries) and the rest of the
  string. The matcher returns every end position of a match, so backtracking and greediness
  play no part; \<open>ends_iff\<close> shows that it computes exactly the usual relational semantics.
\<close>

datatype rx =
    Empty
  | Chr "char \<Rightarrow> bool"
  | Seq rx rx
  | Alt rx rx
  | Star rx
  | Lazy rx
  | Boundary
  | AtStart
  | AtEnd

type_synonym pos = "char option \<times> string"

definition is_word :: "char \<Rightarrow> bool" where
  "is_word c = (let n = (of_char c :: nat) in
     (48 \<le> n \<and> n \<le> 57) \<or> (65 \<le> n \<and> n \<le> 90) \<or> n = 95 \<or> (97 \<le> n \<and> n \<le> 122))"

definition word_side :: "char option \<Rightarrow> bool" where
  "word_side c = (case c of None \<Rightarrow> False | Some d \<Rightarrow> is_word d)"

definition at_boundary :: "pos \<Rightarrow> bool" where
  "at_boundary q = (word_side (fst q) \<noteq> word_side (head (snd q)))"

fun star_ends :: "nat \<Rightarrow> (pos \<Rightarrow> pos list) \<Rightarrow> pos \<Rightarrow> pos list" where
  "star_ends 0 f q = [q]"
| "star_ends (Suc n) f q =
     q # concat (map (star_ends n f)
       (filter (\<lambda>q'. length (snd q') < length (snd q)) (f q)))"

definition chr_ends :: "(char \<Rightarrow> bool) \<Rightarrow> pos \<Rightarrow> pos list" where
  "chr_ends P q = (case snd q of [] \<Rightarrow> [] | c # s \<Rightarrow> if P c then [(Some c, s)] else [])"

primrec ends :: "rx \<Rightarrow> pos \<Rightarrow> pos list" where
  "ends Empty = (\<lambda>q. [q])"
| "ends (Chr P) = chr_ends P"
| "ends (Seq a b) = (\<lambda>q. concat (map (ends b) (ends a q)))"
| "ends (Alt a b) = (\<lambda>q. ends a q @ ends b q)"
| "ends (Star a) = (\<lambda>q. star_ends (length (snd q)) (ends a) q)"
| "ends (Lazy a) = (\<lambda>q. star_ends (length (snd q)) (ends a) q)"
| "ends Boundary = (\<lambda>q. if at_boundary q then [q] else [])"
| "ends AtStart = (\<lambda>q. if fst q = None then [q] else [])"
| "ends AtEnd = (\<lambda>q. if snd q = [] then [q] else [])"

text \<open>\<open>r.test(s)\<close>: a match that starts anywhere in the string.\<close>

fun rx_search :: "rx \<Rightarrow> char option \<Rightarrow> string \<Rightarrow> bool" where
  "rx_search r p [] = (ends r (p, []) \<noteq> [])"
| "rx_search r p (c # s) = (ends r (p, c # s) \<noteq> [] \<or> rx_search r (Some c) s)"

definition rx_test :: "rx \<Rightarrow> string \<Rightarrow> bool" where
  "rx_test r s = rx_search r None s"

section \<open>Building blocks\<close>

definition seqs :: "rx list \<Rightarrow> rx" where
  "seqs rs = foldr Seq rs Empty"

definition alts :: "rx list \<Rightarrow> rx" where
  "alts rs = (case rs of [] \<Rightarrow> Chr (\<lambda>_. False) | r # t \<Rightarrow> foldr Alt (butlast rs) (last rs))"

definition lit :: "string \<Rightarrow> rx" where
  "lit s = seqs (map (\<lambda>d. Chr (\<lambda>c. c = d)) s)"

text \<open>A literal under the \<open>i\<close> flag.\<close>

definition lit_i :: "string \<Rightarrow> rx" where
  "lit_i s = seqs (map (\<lambda>d. Chr (\<lambda>c. lower_char c = lower_char d)) s)"

definition any_of :: "string \<Rightarrow> rx" where
  "any_of s = Chr (\<lambda>c. c \<in> set s)"

definition letter :: rx where
  "letter = Chr (\<lambda>c. let n = (of_char (lower_char c) :: nat) in 97 \<le> n \<and> n \<le> 122)"

definition spaces :: rx where
  "spaces = Star (Chr is_space)"

definition spaces1 :: rx where
  "spaces1 = Seq (Chr is_space) spaces"

text \<open>\<open>.*\<close>: any characters other than line terminators.\<close>

definition any_run :: rx where
  "any_run = Star (Chr (\<lambda>c. (of_char c :: nat) \<noteq> 10 \<and> (of_char c :: nat) \<noteq> 13))"

definition opt :: "rx \<Rightarrow> rx" where
  "opt r = Alt r Empty"

section \<open>The matcher against the relational semantics\<close>

inductive matches :: "rx \<Rightarrow> pos \<Rightarrow> pos \<Rightarrow> bool" where
  m_empty: "matches Empty q q"
| m_chr: "P c \<Longrightarrow> matches (Chr P) (p, c # s) (Some c, s)"
| m_seq: "matches a q q' \<Longrightarrow> matches b q' q'' \<Longrightarrow> matches (Seq a b) q q''"
| m_left: "matches a q q' \<Longrightarrow> matches (Alt a b) q q'"
| m_right: "matches b q q' \<Longrightarrow> matches (Alt a b) q q'"
| m_star_stop: "matches (Star a) q q"
| m_star_step: "matches a q q' \<Longrightarrow> matches (Star a) q' q'' \<Longrightarrow> matches (Star a) q q''"
| m_lazy: "matches (Star a) q q' \<Longrightarrow> matches (Lazy a) q q'"
| m_boundary: "at_boundary q \<Longrightarrow> matches Boundary q q"
| m_start: "fst q = None \<Longrightarrow> matches AtStart q q"
| m_end: "snd q = [] \<Longrightarrow> matches AtEnd q q"

inductive_cases matches_Empty: "matches Empty q q'"
inductive_cases matches_Chr: "matches (Chr P) q q'"
inductive_cases matches_Seq: "matches (Seq a b) q q'"
inductive_cases matches_Alt: "matches (Alt a b) q q'"
inductive_cases matches_Lazy: "matches (Lazy a) q q'"
inductive_cases matches_Boundary: "matches Boundary q q'"
inductive_cases matches_AtStart: "matches AtStart q q'"
inductive_cases matches_AtEnd: "matches AtEnd q q'"

lemmas matches_elims = matches_Empty matches_Chr matches_Seq matches_Alt matches_Boundary
  matches_AtStart matches_AtEnd

text \<open>A match consumes a prefix: it either stays where it is or shortens the rest.\<close>

lemma matches_progress: "matches r q q' \<Longrightarrow> q' = q \<or> length (snd q') < length (snd q)"
  by (induction rule: matches.induct) auto

lemma star_ends_sound:
  assumes f: "\<And>x y. y \<in> set (f x) \<Longrightarrow> matches a x y"
  shows "q' \<in> set (star_ends n f q) \<Longrightarrow> matches (Star a) q q'"
proof (induction n arbitrary: q)
  case 0
  then show ?case by (simp add: m_star_stop)
next
  case (Suc n)
  then consider "q' = q" | q1 where "q1 \<in> set (f q)" "q' \<in> set (star_ends n f q1)"
    by (simp del: split_paired_Ex split_paired_All) blast
  then show ?case
  proof cases
    case 1
    then show ?thesis by (simp add: m_star_stop)
  next
    case 2
    then show ?thesis using f Suc.IH m_star_step by blast
  qed
qed

lemma ends_sound: "q' \<in> set (ends r q) \<Longrightarrow> matches r q q'"
proof (induction r arbitrary: q q')
  case (Chr P)
  then show ?case
    by (cases q) (auto simp: chr_ends_def intro: m_chr split: list.splits if_splits)
next
  case (Star r)
  then show ?case using star_ends_sound [of "ends r" r] by simp
next
  case (Lazy r)
  then show ?case using star_ends_sound [of "ends r" r] m_lazy by simp
next
  case (Seq a b)
  then show ?case using m_seq by (simp del: split_paired_Ex split_paired_All) blast
next
  case (Alt a b)
  then show ?case using m_left m_right by (simp del: split_paired_Ex split_paired_All) blast
qed (simp_all add: matches.intros split: if_splits)

lemma star_ends_complete:
  assumes "matches s q q'" and "s = Star a" and "length (snd q) \<le> n"
    and f: "\<And>x y. matches a x y \<Longrightarrow> y \<in> set (f x)"
  shows "q' \<in> set (star_ends n f q)"
  using assms(1-3)
proof (induction arbitrary: n rule: matches.induct)
  case (m_star_stop b q)
  then show ?case by (cases n) simp_all
next
  case (m_star_step b q q1 q2)
  show ?case
  proof (cases "q1 = q")
    case True
    then show ?thesis using m_star_step by simp
  next
    case False
    then have less: "length (snd q1) < length (snd q)"
      using matches_progress [OF m_star_step.hyps(1)] by simp
    then obtain k where k: "n = Suc k" "length (snd q1) \<le> k"
      using m_star_step.prems by (cases n) auto
    have "q2 \<in> set (star_ends k f q1)"
      using m_star_step.IH(2) m_star_step.prems(1) k(2) by simp
    moreover have "q1 \<in> {x \<in> set (f q). length (snd x) < length (snd q)}"
      using f m_star_step.hyps(1) m_star_step.prems(1) less by simp
    ultimately show ?thesis
      unfolding k(1) by (simp del: split_paired_Ex split_paired_All) blast
  qed
qed simp_all

lemma ends_complete: "matches r q q' \<Longrightarrow> q' \<in> set (ends r q)"
proof (induction r arbitrary: q q')
  case (Star r)
  then show ?case using star_ends_complete [of "Star r" q q' r] by simp
next
  case (Lazy r)
  from Lazy.prems have "matches (Star r) q q'" by (rule matches_Lazy)
  then show ?case using star_ends_complete [of "Star r" q q' r] Lazy.IH by simp
next
  case (Chr P)
  then show ?case by (auto simp: chr_ends_def elim: matches_Chr)
next
  case (Seq a b)
  from Seq.prems obtain q1 where "matches a q q1" "matches b q1 q'" by (rule matches_Seq)
  then have "q1 \<in> set (ends a q)" "q' \<in> set (ends b q1)" using Seq.IH by auto
  then show ?case by (simp del: split_paired_Ex) blast
qed (auto elim: matches_elims)

lemma ends_iff: "q' \<in> set (ends r q) \<longleftrightarrow> matches r q q'"
  using ends_sound ends_complete by blast

lemma ends_nonempty_iff: "ends r q \<noteq> [] \<longleftrightarrow> (\<exists>q'. matches r q q')"
proof -
  have "ends r q \<noteq> [] \<longleftrightarrow> (\<exists>q'. q' \<in> set (ends r q))"
    by (metis ex_in_conv set_empty2)
  then show ?thesis by (simp add: ends_iff del: split_paired_Ex)
qed

text \<open>\<open>test\<close> is true exactly when some split of the string has a match between its parts.\<close>

fun last_char :: "char option \<Rightarrow> string \<Rightarrow> char option" where
  "last_char p [] = p"
| "last_char p (c # s) = last_char (Some c) s"

lemma rx_search_iff:
  "rx_search r p s \<longleftrightarrow> (\<exists>u v. s = u @ v \<and> (\<exists>q. matches r (last_char p u, v) q))"
proof (induction s arbitrary: p)
  case Nil
  show ?case by (simp only: rx_search.simps ends_nonempty_iff) simp
next
  case (Cons c s)
  have "(\<exists>u v. c # s = u @ v \<and> (\<exists>q. matches r (last_char p u, v) q)) \<longleftrightarrow>
     (\<exists>q. matches r (p, c # s) q) \<or>
     (\<exists>u v. s = u @ v \<and> (\<exists>q. matches r (last_char (Some c) u, v) q))" (is "?l \<longleftrightarrow> ?r")
  proof
    assume ?l
    then obtain u v where "c # s = u @ v" "\<exists>q. matches r (last_char p u, v) q" by blast
    then show ?r by (cases u) auto
  next
    assume ?r
    then show ?l
    proof
      assume "\<exists>q. matches r (p, c # s) q"
      then have "c # s = [] @ (c # s) \<and> (\<exists>q. matches r (last_char p [], c # s) q)" by simp
      then show ?l by blast
    next
      assume "\<exists>u v. s = u @ v \<and> (\<exists>q. matches r (last_char (Some c) u, v) q)"
      then obtain u v where "s = u @ v" "\<exists>q. matches r (last_char (Some c) u, v) q" by blast
      then have "c # s = (c # u) @ v \<and> (\<exists>q. matches r (last_char p (c # u), v) q)" by simp
      then show ?l by blast
    qed
  qed
  then show ?case by (simp only: rx_search.simps ends_nonempty_iff Cons)
qed

lemma rx_test_iff: "rx_test r s \<longleftrightarrow> (\<exists>u v. s = u @ v \<and> (\<exists>q. matches r (last_char None u, v) q))"
  by (simp only: rx_test_def rx_search_iff)

section \<open>Replacing\<close>

text \<open>
  \<open>String.prototype.replace\<close> with the global flag needs the match that backtracking finds first:
  \<open>prio\<close> lists the ends of the matches in that order, the left branch of an alternative first, a
  greedy star with as many rounds as possible first and a lazy one with as few.
\<close>

fun greedy_ends :: "nat \<Rightarrow> (pos \<Rightarrow> pos list) \<Rightarrow> pos \<Rightarrow> pos list" where
  "greedy_ends 0 f q = [q]"
| "greedy_ends (Suc n) f q =
     concat (map (greedy_ends n f)
       (filter (\<lambda>q'. length (snd q') < length (snd q)) (f q))) @ [q]"

primrec prio :: "rx \<Rightarrow> pos \<Rightarrow> pos list" where
  "prio Empty = (\<lambda>q. [q])"
| "prio (Chr P) = chr_ends P"
| "prio (Seq a b) = (\<lambda>q. concat (map (prio b) (prio a q)))"
| "prio (Alt a b) = (\<lambda>q. prio a q @ prio b q)"
| "prio (Star a) = (\<lambda>q. greedy_ends (length (snd q)) (prio a) q)"
| "prio (Lazy a) = (\<lambda>q. star_ends (length (snd q)) (prio a) q)"
| "prio Boundary = (\<lambda>q. if at_boundary q then [q] else [])"
| "prio AtStart = (\<lambda>q. if fst q = None then [q] else [])"
| "prio AtEnd = (\<lambda>q. if snd q = [] then [q] else [])"

lemma set_greedy_ends:
  "(\<And>x. set (f x) = set (g x)) \<Longrightarrow> set (greedy_ends n f q) = set (star_ends n g q)"
  by (induction n arbitrary: q) auto

lemma set_star_ends:
  "(\<And>x. set (f x) = set (g x)) \<Longrightarrow> set (star_ends n f q) = set (star_ends n g q)"
  by (induction n arbitrary: q) auto

lemma set_prio: "set (prio r q) = set (ends r q)"
proof (induction r arbitrary: q)
  case (Star r)
  then show ?case using set_greedy_ends [of "prio r" "ends r"] by simp
next
  case (Lazy r)
  then show ?case using set_star_ends [of "prio r" "ends r"] by simp
qed simp_all

lemma prio_iff: "q' \<in> set (prio r q) \<longleftrightarrow> matches r q q'"
  by (simp add: set_prio ends_iff)

text \<open>
  The replacement of every match; the second argument turns the matched text into the new one.
\<close>

function rx_replace :: "rx \<Rightarrow> (string \<Rightarrow> string) \<Rightarrow> char option \<Rightarrow> string \<Rightarrow> string" where
  "rx_replace r f p s =
     (case prio r (p, s) of
        [] \<Rightarrow> (case s of [] \<Rightarrow> [] | c # t \<Rightarrow> c # rx_replace r f (Some c) t)
      | q # _ \<Rightarrow>
          if length (snd q) < length s
          then f (take (length s - length (snd q)) s) @ rx_replace r f (fst q) (snd q)
          else (case s of [] \<Rightarrow> f [] | c # t \<Rightarrow> f [] @ c # rx_replace r f (Some c) t))"
  by auto
termination by (relation "measure (\<lambda>(r, f, p, s). length s)") auto

declare rx_replace.simps [simp del]

definition replace_all :: "rx \<Rightarrow> (string \<Rightarrow> string) \<Rightarrow> string \<Rightarrow> string" where
  "replace_all r f s = rx_replace r f None s"

lemma no_match_prio: "prio r q = [] \<longleftrightarrow> ends r q = []"
  using set_prio [of r q] by (metis set_empty)

lemma rx_replace_none: "\<not> rx_search r p s \<Longrightarrow> rx_replace r f p s = s"
proof (induction s arbitrary: p)
  case Nil
  then show ?case by (simp add: rx_replace.simps no_match_prio [THEN iffD2])
next
  case (Cons c s)
  then show ?case by (subst rx_replace.simps) (simp add: no_match_prio [THEN iffD2])
qed

lemma replace_all_none: "\<not> rx_test r s \<Longrightarrow> replace_all r f s = s"
  by (simp add: replace_all_def rx_test_def rx_replace_none)

text \<open>A character that the new texts begin with does not move to the right.\<close>

abbreviation before :: "char \<Rightarrow> string \<Rightarrow> nat" where
  "before d s \<equiv> length (takeWhile (\<lambda>c. c \<noteq> d) s)"

lemma matches_suffix: "matches r q q' \<Longrightarrow> \<exists>x. snd q = x @ snd q'"
  by (induction rule: matches.induct) auto

lemma replace_cases:
  obtains (stop) "prio r (p, s) = []" "s = []" "rx_replace r f p s = []"
  | (skip) c t where "prio r (p, s) = []" "s = c # t" "rx_replace r f p s = c # rx_replace r f (Some c) t"
  | (found) m t q where "prio r (p, s) \<noteq> []" "rx_replace r f p s = f m @ t"
      "t = [] \<or> t = rx_replace r f (fst q) (snd q) \<and> length (snd q) < length s \<and>
        (\<exists>x. s = x @ snd q) \<or> (\<exists>c u. s = c # u \<and> t = c # rx_replace r f (Some c) u)"
proof (cases "prio r (p, s)")
  case Nil
  then show ?thesis
    using stop skip by (cases s) (simp_all add: rx_replace.simps [of r f p])
next
  case (Cons q qs)
  have suffix: "\<exists>x. s = x @ snd q" using Cons prio_iff [of q r "(p, s)"] matches_suffix by fastforce
  show ?thesis
  proof (cases "length (snd q) < length s")
    case True
    then have "rx_replace r f p s = f (take (length s - length (snd q)) s) @ rx_replace r f (fst q) (snd q)"
      by (simp add: rx_replace.simps [of r f p s] Cons)
    then show ?thesis using Cons True suffix by (intro found [of _ "rx_replace r f (fst q) (snd q)" q]) simp_all
  next
    case False
    show ?thesis
    proof (cases s)
      case Nil
      then have "rx_replace r f p s = f [] @ []"
        using Cons False by (subst rx_replace.simps) simp
      then show ?thesis using Cons by (intro found [of "[]" "[]" q]) simp_all
    next
      case s: (Cons c t)
      then have "rx_replace r f p s = f [] @ c # rx_replace r f (Some c) t"
        using Cons False by (subst rx_replace.simps) simp
      then show ?thesis using Cons s by (intro found [of "[]" "c # rx_replace r f (Some c) t" q]) simp_all
    qed
  qed
qed

lemma replace_keeps_mark:
  assumes f: "\<And>m. \<exists>u. f m = d # u"
  shows "before d (rx_replace r f p s) \<le> before d s"
proof (induction s arbitrary: p rule: length_induct)
  case (1 s)
  show ?case
  proof (cases rule: replace_cases [of r p s f])
    case (skip c t)
    then show ?thesis using 1 by simp
  next
    case (found m t q)
    then show ?thesis using f [of m] by auto
  qed simp
qed

lemma replace_marks:
  assumes f: "\<And>m. \<exists>u. f m = d # u" and nonempty: "\<And>p. prio r (p, []) = []"
  shows "rx_search r p s \<Longrightarrow> before d (rx_replace r f p s) < length s"
proof (induction s arbitrary: p rule: length_induct)
  case (1 s)
  show ?case
  proof (cases rule: replace_cases [of r p s f])
    case stop
    then show ?thesis using 1(2) by (simp add: no_match_prio)
  next
    case (skip c t)
    then show ?thesis using 1 by (auto simp: no_match_prio)
  next
    case (found m t q)
    moreover have "s \<noteq> []" using found(1) nonempty by auto
    ultimately show ?thesis using f [of m] by auto
  qed
qed

lemma replace_chars:
  assumes f: "\<And>m. set (f m) \<subseteq> M"
  shows "set (rx_replace r f p s) \<subseteq> set s \<union> M"
proof (induction s arbitrary: p rule: length_induct)
  case (1 s)
  show ?case
  proof (cases rule: replace_cases [of r p s f])
    case (skip c t)
    then show ?thesis using 1 by auto
  next
    case (found m t q)
    from found(3) have "set t \<subseteq> set s \<union> M"
    proof (elim disjE exE conjE)
      fix x assume "t = rx_replace r f (fst q) (snd q)" "length (snd q) < length s" "s = x @ snd q"
      then have "set t \<subseteq> set (snd q) \<union> M" "set (snd q) \<subseteq> set s" using 1 by (blast, metis Un_upper2 set_append)
      then show ?thesis by blast
    next
      fix c u assume "s = c # u" "t = c # rx_replace r f (Some c) u"
      then show ?thesis using 1 by auto
    qed simp
    then show ?thesis using found(2) f by auto
  qed simp
qed

end
