(* ===== verification/ActionSafety.thy ===== *)
theory ActionSafety
  imports SharedTypes Regex
begin

text \<open>
  \<open>packages/shared-types/src/action-safety.ts\<close>: where an action comes from, how destructive its
  shape is, and the injection guard that the policy evaluator and the execution router both
  consult. The lemmas characterise the guard: when it escalates, at which confirmation level,
  and that the only way past it is a harmless shape that is reversible or trusted.
\<close>

section \<open>Provenance\<close>

definition resolveActionProvenance :: "string \<Rightarrow> string option \<Rightarrow> action_provenance" where
  "resolveActionProvenance source authoringTier =
     (if authoringTier = Some ''user_sent_originated'' \<or> authoringTier = Some ''user_sent_reply''
      then user_originated
      else if authoringTier = Some ''inbox_personal'' \<or> authoringTier = Some ''inbox_broadcast''
        \<or> authoringTier = Some ''inbox_newsletter'' \<or> authoringTier = Some ''inbox_automated''
      then untrusted_external
      else if source = ''user_request'' \<or> source = ''ask_twin'' then user_originated
      else if source = ''twin_profile'' \<or> source = ''preference_replay'' then trusted_context
      else if source = ''idle-miner'' \<or> source = ''idle_miner'' \<or> source = ''filesystem''
      then untrusted_external
      else untrusted_external)"

section \<open>Severity\<close>

datatype action_severity = severity_none | severity_destructive | severity_extreme

definition EXTREME_ACTION_MARKERS :: "string list" where
  "EXTREME_ACTION_MARKERS =
     [''shell'', ''exec'', ''spawn'', ''rm_rf'', ''rmrf'', ''wipe'', ''destroy'',
      ''format_disk'', ''drop_table'', ''drop_database'', ''truncate_table'',
      ''delete_account'', ''delete_user'', ''factory_reset'', ''purge_all'']"

definition DESTRUCTIVE_ACTION_MARKERS :: "string list" where
  "DESTRUCTIVE_ACTION_MARKERS =
     [''delete'', ''remove'', ''revoke'', ''unsubscribe'', ''archive_email'', ''archive_all'',
      ''empty_trash'', ''permanently'', ''send'', ''forward'', ''bulk_'']"

definition BULK_PARAMETER_KEYS :: "string list" where
  "BULK_PARAMETER_KEYS = [''all'', ''wildcard'', ''matchAll'', ''everything'']"

text \<open>\<open>/\brm\s+-[a-z]*r/i\<close>\<close>

definition rx_rm_recursive :: rx where
  "rx_rm_recursive = seqs [Boundary, lit_i ''rm'', spaces1, lit_i ''-'', Star letter, lit_i ''r'']"

text \<open>\<open>/\bdrop\s+(table|database)\b/i\<close>\<close>

definition rx_drop :: rx where
  "rx_drop = seqs [Boundary, lit_i ''drop'', spaces1, alts [lit_i ''table'', lit_i ''database''],
     Boundary]"

text \<open>\<open>/\btruncate\s+table\b/i\<close>\<close>

definition rx_truncate :: rx where
  "rx_truncate = seqs [Boundary, lit_i ''truncate'', spaces1, lit_i ''table'', Boundary]"

text \<open>\<open>/\bmkfs\b/i\<close>\<close>

definition rx_mkfs :: rx where
  "rx_mkfs = seqs [Boundary, lit_i ''mkfs'', Boundary]"

text \<open>\<open>/\bdd\s+if=/i\<close>\<close>

definition rx_dd :: rx where
  "rx_dd = seqs [Boundary, lit_i ''dd'', spaces1, lit_i ''if='']"

text \<open>\<open>/[;&|`$]\s*(rm|curl|wget|bash|sh|eval)\b/i\<close>\<close>

definition rx_shell_chain :: rx where
  "rx_shell_chain = seqs [any_of [CHR '';'', CHR ''&'', CHR ''|'', CHR 0x60, CHR ''$''], spaces,
     alts [lit_i ''rm'', lit_i ''curl'', lit_i ''wget'', lit_i ''bash'', lit_i ''sh'', lit_i ''eval''],
     Boundary]"

text \<open>\<open>/>\s*\/dev\/sd/i\<close>\<close>

definition rx_device_write :: rx where
  "rx_device_write = seqs [lit_i ''>'', spaces, lit_i ''/dev/sd'']"

definition EXTREME_PARAMETER_SIGNATURES :: "rx list" where
  "EXTREME_PARAMETER_SIGNATURES =
     [rx_rm_recursive, rx_drop, rx_truncate, rx_mkfs, rx_dd, rx_shell_chain, rx_device_write]"

definition smuggles_command :: "jsval \<Rightarrow> bool" where
  "smuggles_command v = (case v of
     JStr s \<Rightarrow> list_ex (\<lambda>sig. rx_test sig s) EXTREME_PARAMETER_SIGNATURES
   | _ \<Rightarrow> False)"

definition classifyActionSeverity :: "string \<Rightarrow> jsobj \<Rightarrow> action_severity" where
  "classifyActionSeverity actionType parameters =
     (let type = to_lower actionType in
      if list_ex smuggles_command (map snd parameters) then severity_extreme
      else if list_ex (str_includes type) EXTREME_ACTION_MARKERS then severity_extreme
      else if list_ex (str_includes type) DESTRUCTIVE_ACTION_MARKERS then severity_destructive
      else if list_ex (\<lambda>key. truthy (get parameters key)) BULK_PARAMETER_KEYS
      then severity_destructive
      else severity_none)"

section \<open>The guard\<close>

datatype guard_reason = ExtremeShape | DestructiveShape | UntrustedIrreversible

record injection_guard_verdict =
  gv_escalate :: bool
  gv_confirmationLevel :: "confirmation_level option"
  gv_reason :: "guard_reason option"

definition evaluateInjectionGuard ::
  "string \<Rightarrow> jsobj \<Rightarrow> bool \<Rightarrow> action_provenance option \<Rightarrow> injection_guard_verdict" where
  "evaluateInjectionGuard actionType parameters reversible prov =
     (let severity = classifyActionSeverity actionType parameters;
          provenance = (case prov of None \<Rightarrow> untrusted_external | Some p \<Rightarrow> p) in
      if severity = severity_extreme then
        \<lparr> gv_escalate = True, gv_confirmationLevel = Some dual, gv_reason = Some ExtremeShape \<rparr>
      else if severity = severity_destructive then
        \<lparr> gv_escalate = True, gv_confirmationLevel = Some single,
          gv_reason = Some DestructiveShape \<rparr>
      else if provenance = untrusted_external \<and> \<not> reversible then
        \<lparr> gv_escalate = True, gv_confirmationLevel = Some single,
          gv_reason = Some UntrustedIrreversible \<rparr>
      else \<lparr> gv_escalate = False, gv_confirmationLevel = None, gv_reason = None \<rparr>)"

text \<open>The guard on a candidate action, as both callers apply it.\<close>

definition guard_of :: "candidate_action \<Rightarrow> injection_guard_verdict" where
  "guard_of a =
     evaluateInjectionGuard (ca_actionType a) (ca_parameters a) (ca_reversible a) (ca_provenance a)"

definition severity_of :: "candidate_action \<Rightarrow> action_severity" where
  "severity_of a = classifyActionSeverity (ca_actionType a) (ca_parameters a)"

definition untrusted :: "candidate_action \<Rightarrow> bool" where
  "untrusted a \<longleftrightarrow> ca_provenance a = None \<or> ca_provenance a = Some untrusted_external"

section \<open>Facts for the gates\<close>

lemma guard_verdict:
  "gv_escalate (guard_of a) \<longleftrightarrow>
     severity_of a \<noteq> severity_none \<or> (untrusted a \<and> \<not> ca_reversible a)"
  "gv_confirmationLevel (guard_of a) =
     (if severity_of a = severity_extreme then Some dual
      else if severity_of a = severity_destructive \<or> (untrusted a \<and> \<not> ca_reversible a)
      then Some single else None)"
  "gv_reason (guard_of a) =
     (if severity_of a = severity_extreme then Some ExtremeShape
      else if severity_of a = severity_destructive then Some DestructiveShape
      else if untrusted a \<and> \<not> ca_reversible a then Some UntrustedIrreversible else None)"
  by (cases "severity_of a"; cases "ca_provenance a";
      simp add: guard_of_def evaluateInjectionGuard_def severity_of_def untrusted_def)+

lemma guard_level_iff: "gv_escalate (guard_of a) \<longleftrightarrow> gv_confirmationLevel (guard_of a) \<noteq> None"
  by (cases "severity_of a") (auto simp: guard_verdict)

lemma str_includes_lower: "str_includes s t \<Longrightarrow> str_includes (to_lower s) (to_lower t)"
  unfolding includes_append to_lower_def by (metis map_append)

text \<open>
  The exact conditions of the classifier, which the definition states as a cascade.
\<close>

definition extreme_shape :: "string \<Rightarrow> jsobj \<Rightarrow> bool" where
  "extreme_shape t ps \<longleftrightarrow>
     (\<exists>v \<in> snd ` set ps. smuggles_command v) \<or>
     (\<exists>m \<in> set EXTREME_ACTION_MARKERS. str_includes (to_lower t) m)"

definition destructive_shape :: "string \<Rightarrow> jsobj \<Rightarrow> bool" where
  "destructive_shape t ps \<longleftrightarrow>
     (\<exists>m \<in> set DESTRUCTIVE_ACTION_MARKERS. str_includes (to_lower t) m) \<or>
     (\<exists>k \<in> set BULK_PARAMETER_KEYS. truthy (get ps k))"

lemma classify_iff:
  "classifyActionSeverity t ps =
     (if extreme_shape t ps then severity_extreme
      else if destructive_shape t ps then severity_destructive else severity_none)"
  by (auto simp: classifyActionSeverity_def extreme_shape_def destructive_shape_def list_ex_iff
      Let_def)

lemma smuggled_extreme:
  "(k, JStr s) \<in> set ps \<Longrightarrow> sig \<in> set EXTREME_PARAMETER_SIGNATURES \<Longrightarrow> rx_test sig s \<Longrightarrow>
   classifyActionSeverity t ps = severity_extreme"
  by (force simp: classify_iff extreme_shape_def list_ex_iff smuggles_command_def)

lemma marker_destructive:
  "m \<in> set DESTRUCTIVE_ACTION_MARKERS \<Longrightarrow> str_includes (to_lower t) m \<Longrightarrow>
   classifyActionSeverity t ps \<noteq> severity_none"
  by (auto simp: classify_iff destructive_shape_def)

text \<open>
  Severity is monotone: an action whose type contains the type of another, and whose
  parameters include the other's, is classified at least as severely.
\<close>

fun severity_rank :: "action_severity \<Rightarrow> int" where
  "severity_rank severity_none = 0"
| "severity_rank severity_destructive = 1"
| "severity_rank severity_extreme = 2"

lemma severity_rank_inject: "severity_rank x = severity_rank y \<Longrightarrow> x = y"
  by (cases x; cases y) simp_all

interpretation severity_grade: graded severity_rank
  by unfold_locales (rule severity_rank_inject)

lemma str_includes_trans: "str_includes s t \<Longrightarrow> str_includes t m \<Longrightarrow> str_includes s m"
  unfolding includes_append by (metis append.assoc)

lemma classify_monotone:
  assumes "str_includes t' t" and "set ps \<subseteq> set ps'"
    and "\<And>k. k \<in> set BULK_PARAMETER_KEYS \<Longrightarrow> truthy (get ps k) \<Longrightarrow> truthy (get ps' k)"
  shows "severity_rank (classifyActionSeverity t ps) \<le> severity_rank (classifyActionSeverity t' ps')"
proof -
  have inc: "str_includes (to_lower t') m" if "str_includes (to_lower t) m" for m
    using str_includes_lower [OF assms(1)] that by (rule str_includes_trans)
  have "extreme_shape t' ps'" if "extreme_shape t ps"
    using that assms(2) inc unfolding extreme_shape_def by blast
  moreover have "destructive_shape t' ps'" if "destructive_shape t ps"
    using that assms(3) inc unfolding destructive_shape_def by blast
  ultimately show ?thesis by (auto simp: classify_iff)
qed

end
