(* ===== verification/Autonomy.thy ===== *)
theory Autonomy
  imports SharedTypes
begin

text \<open>
  \<open>packages/shared-types/src/autonomy.ts\<close>: the parser that narrows the JSON column
  \<open>users.autonomy_settings\<close> to the settings record, with the conservative defaults. The lemmas
  show that it is total on any JSON value, that it never turns a restrictive allow list into the
  permissive empty one, and when exactly it carries every field back from its own serialisation.
\<close>

section \<open>Model\<close>

definition CONSERVATIVE_AUTONOMY_DEFAULTS :: autonomy_settings where
  "CONSERVATIVE_AUTONOMY_DEFAULTS =
     \<lparr> as_maxSpendPerActionCents = Fin 0,
       as_maxDailySpendCents = Fin 0,
       as_allowedDomains = [],
       as_blockedDomains = [],
       as_requireApprovalForIrreversible = True,
       as_quietHoursStart = None,
       as_quietHoursEnd = None,
       as_perAppOverrides = None,
       as_paused = None,
       as_pausedAt = None,
       as_pausedReason = None \<rparr>"

definition UNMATCHABLE_DOMAIN :: string where
  "UNMATCHABLE_DOMAIN = CHR 0x00 # ''invalid-domain''"

fun strings_of :: "jsval list \<Rightarrow> string list" where
  "strings_of [] = []"
| "strings_of (JStr s # vs) = s # strings_of vs"
| "strings_of (_ # vs) = strings_of vs"

fun parseAllowlist :: "jsval \<Rightarrow> string list \<Rightarrow> string list" where
  "parseAllowlist (JArr raw) fallback =
     (if strings_of raw = [] \<and> 0 < length raw then [UNMATCHABLE_DOMAIN] else strings_of raw)"
| "parseAllowlist _ fallback = fallback"

fun optionalString :: "jsval \<Rightarrow> string option" where
  "optionalString (JStr s) = Some s"
| "optionalString _ = None"

definition or_else :: "'a option \<Rightarrow> 'a option \<Rightarrow> 'a option" where
  "or_else a b = (case a of None \<Rightarrow> b | Some _ \<Rightarrow> a)"

definition number_field :: "jsval \<Rightarrow> number \<Rightarrow> number" where
  "number_field v d = (case v of JNum n \<Rightarrow> n | _ \<Rightarrow> d)"

definition bool_field :: "jsval \<Rightarrow> 'a \<Rightarrow> (bool \<Rightarrow> 'a) \<Rightarrow> 'a" where
  "bool_field v d f = (case v of JBool b \<Rightarrow> f b | _ \<Rightarrow> d)"

fun parseAutonomySettings :: "jsval \<Rightarrow> autonomy_settings \<Rightarrow> autonomy_settings" where
  "parseAutonomySettings (JObj r) fallback =
     \<lparr> as_maxSpendPerActionCents =
         number_field (get r ''maxSpendPerActionCents'') (as_maxSpendPerActionCents fallback),
       as_maxDailySpendCents =
         number_field (get r ''maxDailySpendCents'') (as_maxDailySpendCents fallback),
       as_allowedDomains =
         parseAllowlist (get r ''allowedDomains'') (as_allowedDomains fallback),
       as_blockedDomains =
         (case get r ''blockedDomains'' of JArr vs \<Rightarrow> strings_of vs
            | _ \<Rightarrow> as_blockedDomains fallback),
       as_requireApprovalForIrreversible =
         bool_field (get r ''requireApprovalForIrreversible'')
           (as_requireApprovalForIrreversible fallback) id,
       as_quietHoursStart =
         or_else (optionalString (get r ''quietHoursStart'')) (as_quietHoursStart fallback),
       as_quietHoursEnd =
         or_else (optionalString (get r ''quietHoursEnd'')) (as_quietHoursEnd fallback),
       as_perAppOverrides =
         (case get r ''perAppOverrides'' of JObj ovr \<Rightarrow> Some ovr
            | _ \<Rightarrow> as_perAppOverrides fallback),
       as_paused = bool_field (get r ''paused'') (as_paused fallback) Some,
       as_pausedAt = or_else (optionalString (get r ''pausedAt'')) (as_pausedAt fallback),
       as_pausedReason =
         or_else (optionalString (get r ''pausedReason'')) (as_pausedReason fallback) \<rparr>"
| "parseAutonomySettings _ fallback = fallback"

section \<open>Properties\<close>

lemma strings_of_eq: "s \<in> set (strings_of vs) \<longleftrightarrow> JStr s \<in> set vs"
  by (induction vs rule: strings_of.induct) auto

lemma strings_of_map_JStr [simp]: "strings_of (map JStr ss) = ss"
  by (induction ss) simp_all

text \<open>An allow list that was present and not empty is never narrowed to the empty list.\<close>

lemma parseAllowlist_closed: "raw \<noteq> [] \<Longrightarrow> parseAllowlist (JArr raw) d \<noteq> []"
  by simp

lemma parseAllowlist_no_widening:
  "s \<in> set (parseAllowlist (JArr raw) d) \<Longrightarrow> s \<noteq> UNMATCHABLE_DOMAIN \<Longrightarrow> JStr s \<in> set raw"
  by (auto simp: strings_of_eq split: if_splits)

text \<open>
  What \<open>JSON.parse(JSON.stringify(v))\<close> gives: a member that is undefined is left out, an element that is
  undefined and a number that is not finite become null. The members keep their order.
\<close>

fun json_stored :: "jsval \<Rightarrow> jsval option"
  and json_elements :: "jsval list \<Rightarrow> jsval list"
  and json_members :: "jsobj \<Rightarrow> jsobj" where
  "json_stored JUndefined = None"
| "json_stored JNull = Some JNull"
| "json_stored (JBool b) = Some (JBool b)"
| "json_stored (JNum x) = Some (if is_finite x then JNum x else JNull)"
| "json_stored (JStr s) = Some (JStr s)"
| "json_stored (JArr vs) = Some (JArr (json_elements vs))"
| "json_stored (JObj ob) = Some (JObj (json_members ob))"
| "json_elements [] = []"
| "json_elements (v # vs) = (case json_stored v of None \<Rightarrow> JNull | Some w \<Rightarrow> w) # json_elements vs"
| "json_members [] = []"
| "json_members ((k, v) # ob) = (case json_stored v of None \<Rightarrow> json_members ob | Some w \<Rightarrow> (k, w) # json_members ob)"

text \<open>The values that JSON can express.\<close>

fun json_data :: "jsval \<Rightarrow> bool"
  and elements_data :: "jsval list \<Rightarrow> bool"
  and members_data :: "jsobj \<Rightarrow> bool" where
  "json_data JUndefined = False"
| "json_data (JNum x) = is_finite x"
| "json_data (JArr vs) = elements_data vs"
| "json_data (JObj ob) = members_data ob"
| "json_data _ = True"
| "elements_data [] = True"
| "elements_data (v # vs) = (json_data v \<and> elements_data vs)"
| "members_data [] = True"
| "members_data ((k, v) # ob) = (json_data v \<and> members_data ob)"

lemma length_json_members: "length (json_members ob) \<le> length ob"
proof (induction ob)
  case (Cons m ob)
  then show ?case by (cases m) (auto split: option.splits)
qed simp

lemma json_stored_iff:
  "json_stored v = Some v \<longleftrightarrow> json_data v"
  "json_elements vs = vs \<longleftrightarrow> elements_data vs"
  "json_members ob = ob \<longleftrightarrow> members_data ob"
proof (induction v and vs and ob rule: json_stored_json_elements_json_members.induct)
  case (4 x)
  then show ?case by (cases x) simp_all
next
  case (9 v vs)
  then show ?case by (cases v) (auto split: option.splits)
next
  case (11 k v ob)
  show ?case
  proof (cases "json_stored v")
    case None
    moreover have "json_members ob \<noteq> (k, v) # ob"
      using length_json_members [of ob] by (metis Suc_n_not_le_n length_Cons)
    ultimately show ?thesis using 11 by auto
  next
    case (Some w)
    then show ?thesis using 11 by auto
  qed
qed simp_all

text \<open>
  The object that is read back when a settings record was written as JSON: absent optional fields
  are left out.
\<close>

definition opt_field :: "string \<Rightarrow> ('a \<Rightarrow> jsval) \<Rightarrow> 'a option \<Rightarrow> jsobj" where
  "opt_field k f x = (case x of None \<Rightarrow> [] | Some a \<Rightarrow> [(k, f a)])"

definition settings_fields :: "autonomy_settings \<Rightarrow> jsobj" where
  "settings_fields s =
     [(''maxSpendPerActionCents'', JNum (as_maxSpendPerActionCents s)),
      (''maxDailySpendCents'', JNum (as_maxDailySpendCents s)),
      (''allowedDomains'', JArr (map JStr (as_allowedDomains s))),
      (''blockedDomains'', JArr (map JStr (as_blockedDomains s))),
      (''requireApprovalForIrreversible'', JBool (as_requireApprovalForIrreversible s))]
     @ opt_field ''quietHoursStart'' JStr (as_quietHoursStart s)
     @ opt_field ''quietHoursEnd'' JStr (as_quietHoursEnd s)
     @ opt_field ''perAppOverrides'' JObj (as_perAppOverrides s)
     @ opt_field ''paused'' JBool (as_paused s)
     @ opt_field ''pausedAt'' JStr (as_pausedAt s)
     @ opt_field ''pausedReason'' JStr (as_pausedReason s)"

definition stored_settings :: "autonomy_settings \<Rightarrow> jsval" where
  "stored_settings s = JObj (json_members (settings_fields s))"

lemma json_members_append: "json_members (xs @ ys) = json_members xs @ json_members ys"
proof (induction xs)
  case (Cons x xs)
  then show ?case by (cases x) (simp split: option.split)
qed simp

lemma json_opt_field:
  "json_members (opt_field k f x) = opt_field k (\<lambda>w. w) (case x of None \<Rightarrow> None | Some a \<Rightarrow> json_stored (f a))"
  by (simp add: opt_field_def split: option.split)

lemma json_strings [simp]: "json_elements (map JStr ss) = map JStr ss"
  by (induction ss) simp_all

lemma get_append: "get (xs @ ys) k = (if has_own xs k then get xs k else get ys k)"
  by (induction xs) (auto simp: get_def has_own_def map_add_def)

lemma has_own_opt_field [simp]: "has_own (opt_field k' f x) k \<longleftrightarrow> k = k' \<and> x \<noteq> None"
  by (auto simp: has_own_def opt_field_def split: option.splits)

lemma get_opt_field [simp]:
  "get (opt_field k' f x) k =
     (if k = k' then (case x of None \<Rightarrow> JUndefined | Some a \<Rightarrow> f a) else JUndefined)"
  by (simp add: opt_field_def get_def split: option.splits)

lemma has_own_simps [simp]:
  "\<not> has_own [] k" "has_own ((k', v) # ob) k \<longleftrightarrow> k = k' \<or> has_own ob k"
  by (auto simp: has_own_def)

text \<open>
  C33: a settings record that is written as JSON and read again under the conservative defaults comes
  back unchanged, field by field (the kill switch, the quiet hours, the overrides with everything in
  them), exactly when JSON can express it: both caps are finite numbers, and no value inside the
  overrides is undefined or a number that is not finite.
\<close>

theorem settings_roundtrip:
  "parseAutonomySettings (stored_settings s) CONSERVATIVE_AUTONOMY_DEFAULTS = s \<longleftrightarrow>
     is_finite (as_maxSpendPerActionCents s) \<and> is_finite (as_maxDailySpendCents s) \<and>
     (case as_perAppOverrides s of None \<Rightarrow> True | Some ovr \<Rightarrow> members_data ovr)"
proof -
  have cap: "number_field (if is_finite x then JNum x else JNull) (Fin 0) = x \<longleftrightarrow> is_finite x" for x
    by (cases x) (simp_all add: number_field_def)
  have read: "parseAutonomySettings (stored_settings s) CONSERVATIVE_AUTONOMY_DEFAULTS = s
      \<lparr> as_maxSpendPerActionCents := number_field (if is_finite (as_maxSpendPerActionCents s)
           then JNum (as_maxSpendPerActionCents s) else JNull) (Fin 0),
        as_maxDailySpendCents := number_field (if is_finite (as_maxDailySpendCents s)
           then JNum (as_maxDailySpendCents s) else JNull) (Fin 0),
        as_perAppOverrides := map_option json_members (as_perAppOverrides s) \<rparr>"
    by (cases s)
      (simp add: stored_settings_def settings_fields_def json_members_append json_opt_field
        CONSERVATIVE_AUTONOMY_DEFAULTS_def get_append bool_field_def or_else_def split: option.split)
  show ?thesis
    unfolding read using cap [of "as_maxSpendPerActionCents s"] cap [of "as_maxDailySpendCents s"]
    by (cases s) (auto simp: json_stored_iff split: option.splits)
qed

definition night_settings :: autonomy_settings where
  "night_settings = CONSERVATIVE_AUTONOMY_DEFAULTS \<lparr> as_paused := Some True, as_allowedDomains := [''email''],
     as_quietHoursStart := Some ''22:00'', as_quietHoursEnd := Some ''07:00'',
     as_perAppOverrides := Some [(''mail'', JObj [(''limit'', JNum (Fin 5)), (''apps'', JArr [JStr ''x'', JNull])])] \<rparr>"

theorem settings_roundtrip_witness:
  "parseAutonomySettings (stored_settings night_settings) CONSERVATIVE_AUTONOMY_DEFAULTS = night_settings \<and>
   parseAutonomySettings (stored_settings (night_settings \<lparr> as_maxDailySpendCents := PosInf \<rparr>))
     CONSERVATIVE_AUTONOMY_DEFAULTS \<noteq> night_settings \<lparr> as_maxDailySpendCents := PosInf \<rparr>"
  unfolding settings_roundtrip by (simp add: night_settings_def CONSERVATIVE_AUTONOMY_DEFAULTS_def)

end
