(* ===== verification/QuietHours.thy ===== *)
theory QuietHours
  imports JsValue
begin

text \<open>
  The quiet-hours window of \<open>packages/policy-engine/src/policy-evaluator.ts\<close>. A wall clock time
  is a minute of the day. The lemmas show that for well-formed bounds the window is the cyclic
  interval from start to end on the 1440 minutes, and that a bound that does not parse (NaN)
  leaves only the other bound in force.
\<close>

definition parseTimeToMinutes :: "string \<Rightarrow> number" where
  "parseTimeToMinutes time =
     (case map string_to_number (split_on CHR '':'' time) of
        [] \<Rightarrow> num_add (num_scale 60 (Fin 0)) (Fin 0)
      | [hours] \<Rightarrow> num_add (num_scale 60 hours) (Fin 0)
      | hours # minutes # _ \<Rightarrow> num_add (num_scale 60 hours) minutes)"

definition isWithinQuietHours :: "string \<Rightarrow> string \<Rightarrow> int \<times> int \<Rightarrow> bool" where
  "isWithinQuietHours start endT now =
     (let currentMinutes = Fin (of_int (fst now * 60 + snd now));
          startMinutes = parseTimeToMinutes start;
          endMinutes = parseTimeToMinutes endT in
      if num_le startMinutes endMinutes
      then num_le startMinutes currentMinutes \<and> num_lt currentMinutes endMinutes
      else num_le startMinutes currentMinutes \<or> num_lt currentMinutes endMinutes)"

section \<open>The window as a cyclic interval\<close>

definition minute_of_day :: "int \<times> int \<Rightarrow> int" where
  "minute_of_day now = fst now * 60 + snd now"

definition clock_time :: "int \<times> int \<Rightarrow> bool" where
  "clock_time now \<longleftrightarrow> 0 \<le> fst now \<and> fst now < 24 \<and> 0 \<le> snd now \<and> snd now < 60"

lemma minute_of_day_range: "clock_time now \<Longrightarrow> 0 \<le> minute_of_day now \<and> minute_of_day now < 1440"
  by (simp add: clock_time_def minute_of_day_def)

text \<open>
  From a start to an end minute, going forward on the clock: the distance from the start to
  now is smaller than the distance from the start to the end.
\<close>

definition in_cyclic :: "int \<Rightarrow> int \<Rightarrow> int \<Rightarrow> bool" where
  "in_cyclic s e t \<longleftrightarrow> (t - s) mod 1440 < (e - s) mod 1440"

lemma cyclic_window:
  assumes "0 \<le> s" "s < 1440" "0 \<le> e" "e < 1440" "0 \<le> t" "t < 1440"
  shows "in_cyclic s e t \<longleftrightarrow> (if s \<le> e then s \<le> t \<and> t < e else s \<le> t \<or> t < e)"
proof -
  have m: "(x - y) mod 1440 = (if y \<le> x then x - y else x - y + 1440)"
    if "0 \<le> x" "x < 1440" "0 \<le> y" "y < 1440" for x y :: int
  proof (cases "y \<le> x")
    case True
    then show ?thesis using that by simp
  next
    case False
    have "(x - y + 1440) mod 1440 = x - y + 1440"
      by (rule mod_pos_pos_trivial) (use that False in simp_all)
    then have "(x - y) mod 1440 = x - y + 1440" by (simp only: mod_add_self2)
    then show ?thesis using False by simp
  qed
  show ?thesis using assms by (simp add: in_cyclic_def m)
qed

lemma quiet_window_cyclic:
  assumes "parseTimeToMinutes start = Fin (of_int s)" "0 \<le> s" "s < 1440"
    and "parseTimeToMinutes endT = Fin (of_int e)" "0 \<le> e" "e < 1440"
    and "clock_time now"
  shows "isWithinQuietHours start endT now \<longleftrightarrow> in_cyclic s e (minute_of_day now)"
  using assms minute_of_day_range [OF assms(7)]
  by (simp add: cyclic_window isWithinQuietHours_def Let_def flip: minute_of_day_def)

lemma quiet_window_unparsed_start:
  "parseTimeToMinutes start = NaN \<Longrightarrow>
   isWithinQuietHours start endT now \<longleftrightarrow>
     num_lt (Fin (of_int (minute_of_day now))) (parseTimeToMinutes endT)"
  by (simp add: isWithinQuietHours_def minute_of_day_def Let_def)

lemma quiet_window_unparsed_end:
  "parseTimeToMinutes endT = NaN \<Longrightarrow>
   isWithinQuietHours start endT now \<longleftrightarrow>
     num_le (parseTimeToMinutes start) (Fin (of_int (minute_of_day now)))"
  by (simp add: isWithinQuietHours_def minute_of_day_def Let_def)

section \<open>Well-formed bounds\<close>

definition two_digits :: "nat \<Rightarrow> string" where
  "two_digits n = [char_of (48 + n div 10), char_of (48 + n mod 10)]"

definition hh_mm :: "nat \<Rightarrow> nat \<Rightarrow> string" where
  "hh_mm h m = two_digits h @ CHR '':'' # two_digits m"

definition digit_char :: "nat \<Rightarrow> char" where
  "digit_char d = char_of (48 + d)"

lemma of_char_digit: "d < 10 \<Longrightarrow> (of_char (digit_char d) :: nat) = 48 + d"
  by (simp add: digit_char_def)

lemma digit_char_facts:
  "d < 10 \<Longrightarrow> is_digit 10 (digit_char d)"
  "d < 10 \<Longrightarrow> digit_val (digit_char d) = Some d"
  "d < 10 \<Longrightarrow> \<not> is_space (digit_char d)"
  by (simp_all add: is_digit_def digit_val_def is_space_def of_char_digit)

lemma digit_char_neq:
  "d < 10 \<Longrightarrow> \<not> (48 \<le> (of_char c :: nat) \<and> (of_char c :: nat) < 58) \<Longrightarrow> digit_char d \<noteq> c"
  using of_char_digit by fastforce

lemma unsigned_two_digits:
  assumes "c < 10" "d < 10"
  shows "unsigned_decimal [digit_char c, digit_char d] = Fin (of_nat (c * 10 + d))"
  using assms digit_char_neq [OF assms(1), of "CHR ''I''"]
  by (simp add: unsigned_decimal_def digit_char_facts exponent_part_def power10_def)

lemma number_two_digits:
  assumes "c < 10" "d < 10"
  shows "string_to_number [digit_char c, digit_char d] = Fin (of_nat (c * 10 + d))"
proof -
  have "trim [digit_char c, digit_char d] = [digit_char c, digit_char d]"
    using assms by (simp add: trim_def digit_char_facts)
  moreover have "digit_char d \<noteq> CHR ''x''" "digit_char d \<noteq> CHR ''X''" "digit_char d \<noteq> CHR ''o''"
    "digit_char d \<noteq> CHR ''O''" "digit_char d \<noteq> CHR ''b''" "digit_char d \<noteq> CHR ''B''"
    "digit_char c \<noteq> CHR ''-''" "digit_char c \<noteq> CHR ''+''"
    using assms by (simp_all add: digit_char_neq)
  ultimately show ?thesis
    using unsigned_two_digits [OF assms]
    by (auto simp: string_to_number_def radix_prefix_def)
qed

lemma two_digits_number:
  assumes "n < 60"
  shows "string_to_number (two_digits n) = Fin (of_nat n)" "CHR '':'' \<notin> set (two_digits n)"
proof -
  have eq: "two_digits n = [digit_char (n div 10), digit_char (n mod 10)]"
    by (simp add: two_digits_def digit_char_def)
  have less: "n div 10 < 10" "n mod 10 < 10" using assms by simp_all
  show "string_to_number (two_digits n) = Fin (of_nat n)"
    unfolding eq number_two_digits [OF less] by (simp add: div_mult_mod_eq)
  show "CHR '':'' \<notin> set (two_digits n)"
    unfolding eq using less by (simp add: digit_char_neq digit_char_neq [THEN not_sym])
qed

lemma parse_hh_mm:
  "h < 24 \<Longrightarrow> m < 60 \<Longrightarrow> parseTimeToMinutes (hh_mm h m) = Fin (of_int (int (h * 60 + m)))"
  by (simp add: parseTimeToMinutes_def hh_mm_def split_on_join split_on_none two_digits_number)

end
