(* ===== verification/PolicyEvaluator.thy ===== *)
theory PolicyEvaluator
  imports DefaultPolicies ActionSafety Autonomy QuietHours
begin

text \<open>
  \<open>packages/policy-engine/src/policy-evaluator.ts\<close>: the evaluation of a candidate action against
  the built-in and the user's policies, the trust tier, the autonomy settings, quiet hours, the
  injection guard and the kill switch. The reason texts are kept as the constructors of
  \<open>reason\<close>; the clock is the argument \<open>now\<close> (hours and minutes), the operator switch that the
  constructor reads from the environment is the argument \<open>globallyPaused\<close>. Field lookups on an
  action see its own properties only.
\<close>

section \<open>Conditions\<close>

definition resolve_dimension :: "risk_assessment \<Rightarrow> string \<Rightarrow> jsval" where
  "resolve_dimension r s =
     (case find (\<lambda>(d, _). dimension_str d = s) (ra_dimensions r) of
        None \<Rightarrow> JUndefined
      | Some (_, da) \<Rightarrow> JStr (risk_str (dim_tier da)))"

definition cost_intent_val :: "cost_intent option \<Rightarrow> jsval" where
  "cost_intent_val c = (case c of None \<Rightarrow> JUndefined
     | Some verified_zero \<Rightarrow> JStr ''verified_zero'' | Some cost_unknown \<Rightarrow> JStr ''unknown'')"

definition action_field :: "candidate_action \<Rightarrow> string \<Rightarrow> jsval" where
  "action_field a f =
     (if f = ''id'' then JStr (ca_id a)
      else if f = ''decisionId'' then JStr (ca_decisionId a)
      else if f = ''actionType'' then JStr (ca_actionType a)
      else if f = ''description'' then JStr (ca_description a)
      else if f = ''domain'' then JStr (ca_domain a)
      else if f = ''parameters'' then JObj (ca_parameters a)
      else if f = ''estimatedCostCents'' then JNum (ca_estimatedCostCents a)
      else if f = ''costZeroIntent'' then cost_intent_val (ca_costZeroIntent a)
      else if f = ''reversible'' then JBool (ca_reversible a)
      else if f = ''confidence'' then JStr (confidence_str (ca_confidence a))
      else if f = ''reasoning'' then JStr (ca_reasoning a)
      else if f = ''provenance'' then opt_str (map_option provenance_str (ca_provenance a))
      else if f = ''capabilityProvenanceNodeId'' then opt_str (ca_capabilityProvenanceNodeId a)
      else JUndefined)"

definition resolveField ::
  "candidate_action \<Rightarrow> string \<Rightarrow> trust_tier \<Rightarrow> risk_assessment option \<Rightarrow> jsval" where
  "resolveField a field trustTier ra =
     (if field = ''trustTier'' then JStr (trust_str trustTier)
      else if field = ''overallRiskTier'' then
        (case ra of None \<Rightarrow> JUndefined | Some r \<Rightarrow> JStr (risk_str (ra_overallTier r)))
      else (case (starts_with field ''riskDimension.'', ra) of
          (True, Some r) \<Rightarrow> resolve_dimension r (drop 14 field)
        | _ \<Rightarrow> action_field a field))"

fun riskTierRank :: "string \<Rightarrow> int" where
  "riskTierRank tier =
     (if tier = ''negligible'' then 0 else if tier = ''low'' then 1
      else if tier = ''moderate'' then 2 else if tier = ''high'' then 3
      else if tier = ''critical'' then 4 else - 1)"

declare riskTierRank.simps [simp del]

definition isRiskTierString :: "jsval \<Rightarrow> bool" where
  "isRiskTierString v = (case v of
     JStr s \<Rightarrow> s \<in> set [''negligible'', ''low'', ''moderate'', ''high'', ''critical'']
   | _ \<Rightarrow> False)"

fun the_str :: "jsval \<Rightarrow> string" where
  "the_str (JStr s) = s"
| "the_str _ = []"

definition compare_ranks :: "int \<Rightarrow> condition_operator \<Rightarrow> int \<Rightarrow> bool" where
  "compare_ranks x operator y = (case operator of
     op_eq \<Rightarrow> x = y | op_neq \<Rightarrow> x \<noteq> y | op_gt \<Rightarrow> x > y | op_gte \<Rightarrow> x \<ge> y
   | op_lt \<Rightarrow> x < y | op_lte \<Rightarrow> x \<le> y | _ \<Rightarrow> False)"

definition compareValues :: "jsval \<Rightarrow> condition_operator \<Rightarrow> jsval \<Rightarrow> bool" where
  "compareValues actual operator expected =
     (if isRiskTierString actual \<and> isRiskTierString expected
      then compare_ranks (riskTierRank (the_str actual)) operator (riskTierRank (the_str expected))
      else (case operator of
          op_eq \<Rightarrow> strict_eq actual expected
        | op_neq \<Rightarrow> \<not> strict_eq actual expected
        | op_gt \<Rightarrow> js_less expected actual
        | op_gte \<Rightarrow> js_leq expected actual
        | op_lt \<Rightarrow> js_less actual expected
        | op_lte \<Rightarrow> js_leq actual expected
        | op_in \<Rightarrow> (case expected of
            JArr vs \<Rightarrow> list_ex (\<lambda>v. same_value_zero v actual) vs | _ \<Rightarrow> False)
        | op_not_in \<Rightarrow> (case expected of
            JArr vs \<Rightarrow> \<not> list_ex (\<lambda>v. same_value_zero v actual) vs | _ \<Rightarrow> False)
        | op_contains \<Rightarrow> (case actual of
            JStr s \<Rightarrow> str_includes s (to_str expected) | _ \<Rightarrow> False)
        | op_other _ \<Rightarrow> False))"

definition ruleMatches ::
  "candidate_action \<Rightarrow> policy_condition \<Rightarrow> trust_tier \<Rightarrow> risk_assessment option \<Rightarrow> bool" where
  "ruleMatches a condition trustTier ra =
     (let fieldValue = resolveField a (pc_field condition) trustTier ra in
      if fieldValue = JUndefined then False
      else compareValues fieldValue (pc_operator condition) (pc_value condition))"

fun evaluateRules ::
  "candidate_action \<Rightarrow> policy_rule list \<Rightarrow> trust_tier \<Rightarrow> risk_assessment option
   \<Rightarrow> policy_effect option" where
  "evaluateRules a [] trustTier ra = None"
| "evaluateRules a (rule # rules) trustTier ra =
     (if ruleMatches a (pr_condition rule) trustTier ra then Some (pr_effect rule)
      else evaluateRules a rules trustTier ra)"

definition evaluatePolicy ::
  "candidate_action \<Rightarrow> action_policy \<Rightarrow> trust_tier \<Rightarrow> risk_assessment option
   \<Rightarrow> policy_effect option" where
  "evaluatePolicy a policy trustTier ra = evaluateRules a (pol_rules policy) trustTier ra"

section \<open>Decisions\<close>

datatype reason =
    OperatorPaused
  | UserPaused
  | QuietHours string string
  | QuietHoursAnd string string reason
  | GuardReason guard_reason
  | MissingWriteScope
  | EscalationTerminal
  | DomainNotAllowed string
  | CostUnknown
  | SpendExceeded number number
  | SettingsIrreversible
  | TierRequires trust_tier
  | UnrecognizedTier string
  | BlockedBy string string
  | ApprovalBy string string
  | PolicyFallback
  | AllPassed
  | ZeroTrust

record policy_decision =
  pd_allowed :: bool
  pd_requiresApproval :: bool
  pd_reason :: reason
  pd_blockingPolicy :: "action_policy option"
  pd_confirmationLevel :: "confirmation_level option"

definition verdict_of :: "bool \<Rightarrow> bool \<Rightarrow> reason \<Rightarrow> policy_decision" where
  "verdict_of al req why = \<lparr> pd_allowed = al, pd_requiresApproval = req, pd_reason = why,
     pd_blockingPolicy = None, pd_confirmationLevel = None \<rparr>"

definition rank_of :: "risk_assessment \<Rightarrow> int" where
  "rank_of r = riskTierRank (risk_str (ra_overallTier r))"

definition checkTrustTierGating ::
  "trust_tier \<Rightarrow> risk_assessment option \<Rightarrow> policy_decision option" where
  "checkTrustTierGating trustTier ra = (case trustTier of
     OBSERVER \<Rightarrow> Some (verdict_of True True (TierRequires OBSERVER))
   | SUGGEST \<Rightarrow> Some (verdict_of True True (TierRequires SUGGEST))
   | LOW_AUTONOMY \<Rightarrow> (case ra of
       Some r \<Rightarrow> if rank_of r > riskTierRank (risk_str LOW)
                then Some (verdict_of True True (TierRequires LOW_AUTONOMY)) else None
     | None \<Rightarrow> None)
   | MODERATE_AUTONOMY \<Rightarrow> (case ra of
       Some r \<Rightarrow> if rank_of r > riskTierRank (risk_str MODERATE)
                then Some (verdict_of True True (TierRequires MODERATE_AUTONOMY)) else None
     | None \<Rightarrow> None)
   | HIGH_AUTONOMY \<Rightarrow> (case ra of
       Some r \<Rightarrow> if ra_overallTier r = CRITICAL
                then Some (verdict_of True True (TierRequires HIGH_AUTONOMY)) else None
     | None \<Rightarrow> None)
   | UNRECOGNIZED_TIER s \<Rightarrow> Some (verdict_of False True (UnrecognizedTier s)))"

definition checkSpendLimit :: "candidate_action \<Rightarrow> autonomy_settings \<Rightarrow> bool" where
  "checkSpendLimit a settings =
     (if ca_costZeroIntent a = Some cost_unknown then False
      else if num_le (ca_estimatedCostCents a) (Fin 0) then True
      else num_le (ca_estimatedCostCents a) (as_maxSpendPerActionCents settings))"

definition checkReversibility :: "candidate_action \<Rightarrow> risk_assessment \<Rightarrow> bool" where
  "checkReversibility a r =
     (if ca_reversible a then True
      else ra_overallTier r = NEGLIGIBLE \<or> ra_overallTier r = LOW)"

definition checkDomainAllowlist :: "string \<Rightarrow> autonomy_settings \<Rightarrow> bool" where
  "checkDomainAllowlist domain settings =
     (if 0 < length (as_blockedDomains settings)
         \<and> list_ex (\<lambda>d. d = domain) (as_blockedDomains settings) then False
      else if 0 < length (as_allowedDomains settings)
      then list_ex (\<lambda>d. d = domain) (as_allowedDomains settings)
      else True)"

definition checkAutonomySettings ::
  "candidate_action \<Rightarrow> autonomy_settings \<Rightarrow> risk_assessment option \<Rightarrow> policy_decision option" where
  "checkAutonomySettings a settings ra =
     (if \<not> checkDomainAllowlist (ca_domain a) settings
      then Some (verdict_of False False (DomainNotAllowed (ca_domain a)))
      else if ca_costZeroIntent a = Some cost_unknown
      then Some (verdict_of True True CostUnknown)
      else if \<not> checkSpendLimit a settings
      then Some (verdict_of False False
             (SpendExceeded (ca_estimatedCostCents a) (as_maxSpendPerActionCents settings)))
      else if ra \<noteq> None \<and> as_requireApprovalForIrreversible settings \<and> \<not> ca_reversible a
      then Some (verdict_of True True SettingsIrreversible)
      else None)"

definition checkQuietHours :: "autonomy_settings \<Rightarrow> int \<times> int \<Rightarrow> policy_decision option" where
  "checkQuietHours settings now =
     (case (as_quietHoursStart settings, as_quietHoursEnd settings) of
        (Some s, Some e) \<Rightarrow>
          if s = [] \<or> e = [] then None
          else if \<not> isWithinQuietHours s e now then None
          else Some (verdict_of True True (QuietHours s e))
      | _ \<Rightarrow> None)"

section \<open>The evaluation\<close>

record guard_result =
  gr_requiresApproval :: bool
  gr_confirmationLevel :: "confirmation_level option"
  gr_reason :: "guard_reason option"

definition checkInjectionGuard :: "candidate_action \<Rightarrow> guard_result" where
  "checkInjectionGuard a = (let verdict = guard_of a in
     if \<not> gv_escalate verdict
     then \<lparr> gr_requiresApproval = False, gr_confirmationLevel = None, gr_reason = None \<rparr>
     else \<lparr> gr_requiresApproval = True, gr_confirmationLevel = gv_confirmationLevel verdict,
            gr_reason = gv_reason verdict \<rparr>)"

text \<open>\<open>[...DEFAULT_POLICIES, ...policies].filter(enabled).sort(by descending priority)\<close>\<close>

definition policies_in_force :: "action_policy list \<Rightarrow> action_policy list" where
  "policies_in_force policies =
     sort_key (\<lambda>p. - pol_priority p) (filter pol_enabled (DEFAULT_POLICIES @ policies))"

text \<open>
  The loop over the policies: the first denial ends it, an approval effect raises the flag and
  keeps the first reason.
\<close>

fun policy_loop ::
  "(action_policy \<Rightarrow> policy_effect option) \<Rightarrow> action_policy list \<Rightarrow> bool \<Rightarrow> reason option
   \<Rightarrow> action_policy + (bool \<times> reason option)" where
  "policy_loop eff [] req why = Inr (req, why)"
| "policy_loop eff (p # ps) req why = (case eff p of
     Some deny_effect \<Rightarrow> Inl p
   | Some require_approval_effect \<Rightarrow>
       policy_loop eff ps True
         (if why = None then Some (ApprovalBy (pol_name p) (pol_description p)) else why)
   | _ \<Rightarrow> policy_loop eff ps req why)"

definition escalate_step :: "candidate_action \<Rightarrow> bool \<times> reason option \<Rightarrow> bool \<times> reason option" where
  "escalate_step a st =
     (if ca_actionType a = ''escalate_to_user'' then
        (True, if snd st \<noteq> None then snd st
               else if strict_eq (get (ca_parameters a) ''reason'') (JStr ''missing_write_scope'')
               then Some MissingWriteScope else Some EscalationTerminal)
      else st)"

definition final_reason ::
  "bool \<Rightarrow> bool \<Rightarrow> reason option \<Rightarrow> reason option \<Rightarrow> policy_decision option \<Rightarrow> reason" where
  "final_reason globallyPaused userPaused quiet why tierDecision =
     (if globallyPaused then OperatorPaused
      else if userPaused then UserPaused
      else (case quiet of
          Some q \<Rightarrow> (case (q, why) of
              (QuietHours s e, Some w) \<Rightarrow> QuietHoursAnd s e w
            | _ \<Rightarrow> q)
        | None \<Rightarrow> (case why of
            Some w \<Rightarrow> w
          | None \<Rightarrow> (case tierDecision of Some d \<Rightarrow> pd_reason d | None \<Rightarrow> PolicyFallback))))"

text \<open>A check's verdict that denies; every such verdict ends the evaluation.\<close>

definition denial :: "policy_decision option \<Rightarrow> policy_decision option" where
  "denial d = (case d of None \<Rightarrow> None | Some x \<Rightarrow> if pd_allowed x then None else Some x)"

definition settings_step :: "policy_decision option \<Rightarrow> bool \<times> reason option \<Rightarrow> bool \<times> reason option" where
  "settings_step d st = (case d of
     Some x \<Rightarrow> if pd_requiresApproval x
              then (True, if snd st \<noteq> None then snd st else Some (pd_reason x)) else st
   | None \<Rightarrow> st)"

definition conclude ::
  "bool \<Rightarrow> bool \<Rightarrow> confirmation_level option \<Rightarrow> policy_decision option \<Rightarrow> policy_decision option
   \<Rightarrow> action_policy + (bool \<times> reason option) \<Rightarrow> policy_decision" where
  "conclude globallyPaused userPaused level tierDecision quietDecision looped = (case looped of
     Inl p \<Rightarrow> \<lparr> pd_allowed = False, pd_requiresApproval = False,
       pd_reason = BlockedBy (pol_name p) (pol_description p),
       pd_blockingPolicy = Some p, pd_confirmationLevel = None \<rparr>
   | Inr (requiresApproval, approvalReason) \<Rightarrow>
       if requiresApproval
          \<or> (case tierDecision of Some d \<Rightarrow> pd_requiresApproval d | None \<Rightarrow> False)
          \<or> globallyPaused \<or> userPaused
       then \<lparr> pd_allowed = True, pd_requiresApproval = True,
              pd_reason = final_reason globallyPaused userPaused
                (map_option pd_reason quietDecision) approvalReason tierDecision,
              pd_blockingPolicy = None, pd_confirmationLevel = level \<rparr>
       else verdict_of True False AllPassed)"

definition evaluate_policies ::
  "bool \<Rightarrow> int \<times> int \<Rightarrow> candidate_action \<Rightarrow> action_policy list \<Rightarrow> trust_tier
   \<Rightarrow> risk_assessment option \<Rightarrow> autonomy_settings option \<Rightarrow> policy_decision" where
  "evaluate_policies globallyPaused now a policies trustTier ra settings =
     (let userPaused = (case settings of None \<Rightarrow> False | Some s \<Rightarrow> as_paused s = Some True);
          allPolicies = policies_in_force policies;
          tierDecision = checkTrustTierGating trustTier ra in
      case denial tierDecision of Some d \<Rightarrow> d | None \<Rightarrow>
        (let guard = checkInjectionGuard a;
             st = escalate_step a (gr_requiresApproval guard, map_option GuardReason (gr_reason guard));
             settingsDecision = Option.bind settings (\<lambda>s. checkAutonomySettings a s ra) in
         case denial settingsDecision of Some d \<Rightarrow> d | None \<Rightarrow>
           (let (req, why) = settings_step settingsDecision st;
                quietDecision = Option.bind settings (\<lambda>s. checkQuietHours s now) in
            conclude globallyPaused userPaused (gr_confirmationLevel guard) tierDecision
              quietDecision
              (policy_loop (\<lambda>p. evaluatePolicy a p trustTier ra) allPolicies
                (req \<or> quietDecision \<noteq> None) why))))"

text \<open>
  \<open>loadPolicies\<close>; the repository's \<open>getEnabledPolicies\<close> is the argument.
\<close>

definition loadPolicies :: "(string \<Rightarrow> action_policy list) \<Rightarrow> string \<Rightarrow> action_policy list" where
  "loadPolicies getEnabledPolicies userId = DEFAULT_POLICIES @ getEnabledPolicies userId"

end
