(* ===== verification/PolicySpec.thy ===== *)
theory PolicySpec
  imports PolicyEvaluator
begin

text \<open>
  What an evaluation promises. The abstract specification gives every gate one of three
  outcomes (clear, ask, deny) and says that the evaluation's outcome is the strictest of them;
  the cascade of early returns of the code implements it. The built-in policies are evaluated
  once here, and the properties of the evaluator follow from the two.
\<close>

section \<open>The policy loop\<close>

lemma policy_loop_eq:
  "policy_loop eff ps req why =
     (case find (\<lambda>p. eff p = Some deny_effect) ps of
        Some p \<Rightarrow> Inl p
      | None \<Rightarrow> Inr (req \<or> (\<exists>p \<in> set ps. eff p = Some require_approval_effect),
          if why \<noteq> None then why
          else map_option (\<lambda>p. ApprovalBy (pol_name p) (pol_description p))
            (find (\<lambda>p. eff p = Some require_approval_effect) ps)))"
proof (induction ps arbitrary: req why)
  case (Cons p ps)
  show ?case
  proof (cases "eff p")
    case None
    then show ?thesis by (auto simp: Cons.IH split: option.splits)
  next
    case (Some e)
    then show ?thesis by (cases e) (auto simp: Cons.IH split: option.splits)
  qed
qed simp

lemma set_policies_in_force:
  "set (policies_in_force ps) = {p \<in> set DEFAULT_POLICIES \<union> set ps. pol_enabled p}"
  by (auto simp: policies_in_force_def)

lemma find_in_force:
  "find P (policies_in_force ps) =
     least_first (\<lambda>p. - pol_priority p) (filter P (filter pol_enabled (DEFAULT_POLICIES @ ps)))"
  by (simp add: policies_in_force_def find_sort_key)

lemma find_in_force_dup: "find P (policies_in_force (DEFAULT_POLICIES @ ps)) = find P (policies_in_force ps)"
  by (simp add: find_in_force least_first_dup)

lemma policy_loop_dup:
  "policy_loop eff (policies_in_force (DEFAULT_POLICIES @ ps)) req why =
   policy_loop eff (policies_in_force ps) req why"
proof -
  have same: "set (policies_in_force (DEFAULT_POLICIES @ ps)) = set (policies_in_force ps)"
    by (auto simp: set_policies_in_force)
  show ?thesis unfolding policy_loop_eq find_in_force_dup same by (rule refl)
qed

section \<open>Outcomes\<close>

datatype outcome = Clear | Ask | Deny

fun outcome_rank :: "outcome \<Rightarrow> int" where
  "outcome_rank Clear = 0"
| "outcome_rank Ask = 1"
| "outcome_rank Deny = 2"

lemma outcome_rank_inject: "outcome_rank x = outcome_rank y \<Longrightarrow> x = y"
  by (cases x; cases y) simp_all

instantiation outcome :: linorder
begin

definition less_eq_outcome :: "outcome \<Rightarrow> outcome \<Rightarrow> bool" where
  "less_eq_outcome x y \<longleftrightarrow> outcome_rank x \<le> outcome_rank y"

definition less_outcome :: "outcome \<Rightarrow> outcome \<Rightarrow> bool" where
  "less_outcome x y \<longleftrightarrow> outcome_rank x < outcome_rank y"

instance
  by standard (auto simp: less_eq_outcome_def less_outcome_def intro: outcome_rank_inject)

end

lemmas outcome_order = less_eq_outcome_def less_outcome_def

definition outcome_of :: "policy_decision \<Rightarrow> outcome" where
  "outcome_of d = (if \<not> pd_allowed d then Deny else if pd_requiresApproval d then Ask else Clear)"

definition of_check :: "policy_decision option \<Rightarrow> outcome" where
  "of_check d = (case d of None \<Rightarrow> Clear | Some x \<Rightarrow> outcome_of x)"

fun of_effect :: "policy_effect option \<Rightarrow> outcome" where
  "of_effect (Some deny_effect) = Deny"
| "of_effect (Some require_approval_effect) = Ask"
| "of_effect _ = Clear"

definition ask_if :: "bool \<Rightarrow> outcome" where
  "ask_if b = (if b then Ask else Clear)"

definition strictest :: "outcome list \<Rightarrow> outcome" where
  "strictest xs = foldr max xs Clear"

lemma strictest_simps [simp]:
  "strictest [] = Clear" "strictest (x # xs) = max x (strictest xs)"
  by (simp_all add: strictest_def)

lemma Clear_least [simp]: "Clear \<le> x" "max Clear x = x" "max x Clear = x"
  by (cases x; simp add: outcome_order max_def)+

lemma Deny_greatest [simp]: "x \<le> Deny" "max Deny x = Deny" "max x Deny = Deny"
  by (cases x; simp add: outcome_order max_def)+

lemma strictest_append: "strictest (xs @ ys) = max (strictest xs) (strictest ys)"
  by (induction xs) (simp_all add: max.assoc)

lemma strictest_Deny_iff: "strictest xs = Deny \<longleftrightarrow> Deny \<in> set xs"
proof (induction xs)
  case (Cons x xs)
  then show ?case by (cases x; cases "strictest xs") (simp_all add: outcome_order max_def)
qed simp

lemma strictest_Clear_iff: "strictest xs = Clear \<longleftrightarrow> (\<forall>x \<in> set xs. x = Clear)"
proof (induction xs)
  case (Cons x xs)
  then show ?case by (cases x; cases "strictest xs") (auto simp: outcome_order max_def)
qed simp

text \<open>The gates of an evaluation, in any order.\<close>

definition pause_of :: "autonomy_settings option \<Rightarrow> bool" where
  "pause_of settings = (case settings of None \<Rightarrow> False | Some s \<Rightarrow> as_paused s = Some True)"

definition gates ::
  "bool \<Rightarrow> int \<times> int \<Rightarrow> candidate_action \<Rightarrow> trust_tier \<Rightarrow> risk_assessment option
   \<Rightarrow> autonomy_settings option \<Rightarrow> outcome list" where
  "gates globallyPaused now a trustTier ra settings =
     [of_check (checkTrustTierGating trustTier ra),
      ask_if (gv_escalate (guard_of a)),
      ask_if (ca_actionType a = ''escalate_to_user''),
      of_check (Option.bind settings (\<lambda>s. checkAutonomySettings a s ra)),
      of_check (Option.bind settings (\<lambda>s. checkQuietHours s now)),
      ask_if (globallyPaused \<or> pause_of settings)]"

definition policy_outcomes ::
  "candidate_action \<Rightarrow> action_policy list \<Rightarrow> trust_tier \<Rightarrow> risk_assessment option \<Rightarrow> outcome list" where
  "policy_outcomes a ps trustTier ra =
     map (\<lambda>p. of_effect (evaluatePolicy a p trustTier ra)) (filter pol_enabled (DEFAULT_POLICIES @ ps))"

section \<open>Shape of the checks\<close>

lemma quiet_outcome: "checkQuietHours s now = Some d \<Longrightarrow> outcome_of d = Ask"
  by (auto simp: checkQuietHours_def outcome_of_def verdict_of_def split: option.splits if_splits)

lemma of_check_quiet:
  "of_check (Option.bind st (\<lambda>s. checkQuietHours s now)) =
   ask_if (Option.bind st (\<lambda>s. checkQuietHours s now) \<noteq> None)"
  by (cases st) (auto simp: of_check_def ask_if_def quiet_outcome split: option.splits)

lemma denial_iff:
  "denial d = None \<longleftrightarrow> of_check d \<noteq> Deny" "denial d = Some x \<Longrightarrow> of_check d = Deny \<and> outcome_of x = Deny"
  by (auto simp: denial_def of_check_def outcome_of_def split: option.splits if_splits)

lemma of_effect_iff:
  "of_effect e = Deny \<longleftrightarrow> e = Some deny_effect"
  "Deny = of_effect e \<longleftrightarrow> e = Some deny_effect"
  "of_effect e = Ask \<longleftrightarrow> e = Some require_approval_effect"
  "of_effect e = Clear \<longleftrightarrow> e \<noteq> Some deny_effect \<and> e \<noteq> Some require_approval_effect"
  by (cases e rule: of_effect.cases; simp)+

lemma guard_result_simps [simp]:
  "gr_requiresApproval (checkInjectionGuard a) = gv_escalate (guard_of a)"
  "gr_confirmationLevel (checkInjectionGuard a) = gv_confirmationLevel (guard_of a)"
  "gr_reason (checkInjectionGuard a) = gv_reason (guard_of a)"
  using guard_level_iff [of a] guard_verdict(1,3) [of a]
  by (auto simp: checkInjectionGuard_def Let_def split: if_splits)

lemma fst_escalate [simp]:
  "fst (escalate_step a st) \<longleftrightarrow> fst st \<or> ca_actionType a = ''escalate_to_user''"
  by (simp add: escalate_step_def)

lemma fst_settings [simp]:
  "fst (settings_step d st) \<longleftrightarrow> fst st \<or> (\<exists>x. d = Some x \<and> pd_requiresApproval x)"
  by (auto simp: settings_step_def split: option.splits)

lemma strictest_policies:
  "strictest (policy_outcomes a ps t ra) = Deny \<longleftrightarrow>
     find (\<lambda>p. evaluatePolicy a p t ra = Some deny_effect) (policies_in_force ps) \<noteq> None"
  "strictest (policy_outcomes a ps t ra) = Clear \<longleftrightarrow>
     (\<forall>p \<in> set (policies_in_force ps). of_effect (evaluatePolicy a p t ra) = Clear)"
proof -
  show "strictest (policy_outcomes a ps t ra) = Deny \<longleftrightarrow>
      find (\<lambda>p. evaluatePolicy a p t ra = Some deny_effect) (policies_in_force ps) \<noteq> None"
    by (auto simp: strictest_Deny_iff policy_outcomes_def find_None_iff
        set_policies_in_force of_effect_iff(1,2))
  show "strictest (policy_outcomes a ps t ra) = Clear \<longleftrightarrow>
      (\<forall>p \<in> set (policies_in_force ps). of_effect (evaluatePolicy a p t ra) = Clear)"
    by (auto simp: strictest_Clear_iff policy_outcomes_def set_policies_in_force)
qed

lemma outcome_conclude_Inr:
  "outcome_of (conclude g u level td qd (Inr (req, why))) =
   ask_if (req \<or> (\<exists>d. td = Some d \<and> pd_requiresApproval d) \<or> g \<or> u)"
  by (cases td) (simp_all add: conclude_def outcome_of_def verdict_of_def ask_if_def)

lemma max_ask_if: "max (ask_if x) (ask_if y) = ask_if (x \<or> y)"
  by (simp add: ask_if_def)

lemma outcome_conclude:
  "outcome_of (conclude g u level td qd
      (policy_loop (\<lambda>p. evaluatePolicy a p t ra) (policies_in_force ps) req why)) =
   max (strictest (policy_outcomes a ps t ra))
     (ask_if (req \<or> (\<exists>d. td = Some d \<and> pd_requiresApproval d) \<or> g \<or> u))"
proof (cases "find (\<lambda>p. evaluatePolicy a p t ra = Some deny_effect) (policies_in_force ps)")
  case (Some p)
  then have "strictest (policy_outcomes a ps t ra) = Deny" by (simp add: strictest_policies)
  with Some show ?thesis by (simp add: policy_loop_eq conclude_def outcome_of_def)
next
  case None
  let ?some = "\<exists>p \<in> set (policies_in_force ps). evaluatePolicy a p t ra = Some require_approval_effect"
  have "strictest (policy_outcomes a ps t ra) \<noteq> Deny" using None by (simp add: strictest_policies)
  moreover have "strictest (policy_outcomes a ps t ra) = Clear \<longleftrightarrow> \<not> ?some"
    using None by (simp add: strictest_policies(2) of_effect_iff(4) find_None_all)
  ultimately have "strictest (policy_outcomes a ps t ra) = ask_if ?some"
    by (cases "strictest (policy_outcomes a ps t ra)") (simp_all add: ask_if_def)
  moreover have "policy_loop (\<lambda>p. evaluatePolicy a p t ra) (policies_in_force ps) req why =
      Inr (req \<or> ?some, if why \<noteq> None then why
        else map_option (\<lambda>p. ApprovalBy (pol_name p) (pol_description p))
          (find (\<lambda>p. evaluatePolicy a p t ra = Some require_approval_effect) (policies_in_force ps)))"
    unfolding policy_loop_eq None by simp
  ultimately show ?thesis by (simp only: outcome_conclude_Inr max_ask_if disj_ac)
qed

section \<open>The refinement\<close>

lemma evaluate_cases:
  obtains (tier) d where "checkTrustTierGating t ra = Some d" "\<not> pd_allowed d"
      "evaluate_policies g now a ps t ra st = d"
  | (settings) d where "denial (checkTrustTierGating t ra) = None"
      "Option.bind st (\<lambda>s. checkAutonomySettings a s ra) = Some d" "\<not> pd_allowed d"
      "evaluate_policies g now a ps t ra st = d"
  | (policies) req why qd where "denial (checkTrustTierGating t ra) = None"
      "denial (Option.bind st (\<lambda>s. checkAutonomySettings a s ra)) = None"
      "qd = Option.bind st (\<lambda>s. checkQuietHours s now)"
      "req \<longleftrightarrow> gv_escalate (guard_of a) \<or> ca_actionType a = ''escalate_to_user'' \<or>
         (\<exists>x. Option.bind st (\<lambda>s. checkAutonomySettings a s ra) = Some x \<and> pd_requiresApproval x)
         \<or> qd \<noteq> None"
      "evaluate_policies g now a ps t ra st =
         conclude g (pause_of st) (gv_confirmationLevel (guard_of a)) (checkTrustTierGating t ra) qd
           (policy_loop (\<lambda>p. evaluatePolicy a p t ra) (policies_in_force ps) req why)"
proof -
  let ?td = "checkTrustTierGating t ra"
  let ?sd = "Option.bind st (\<lambda>s. checkAutonomySettings a s ra)"
  let ?qd = "Option.bind st (\<lambda>s. checkQuietHours s now)"
  let ?st = "settings_step ?sd (escalate_step a
    (gv_escalate (guard_of a), map_option GuardReason (gv_reason (guard_of a))))"
  show thesis
  proof (cases "denial ?td")
    case (Some d)
    then have "?td = Some d" "\<not> pd_allowed d"
      by (auto simp: denial_def split: option.splits if_splits)
    then show thesis using tier Some by (simp add: evaluate_policies_def Let_def)
  next
    case tdn: None
    show thesis
    proof (cases "denial ?sd")
      case (Some d)
      then have "?sd = Some d" "\<not> pd_allowed d"
        by (auto simp: denial_def split: option.splits if_splits)
      then show thesis using settings tdn Some by (simp add: evaluate_policies_def Let_def)
    next
      case None
      have "evaluate_policies g now a ps t ra st =
         conclude g (pause_of st) (gv_confirmationLevel (guard_of a)) ?td ?qd
           (policy_loop (\<lambda>p. evaluatePolicy a p t ra) (policies_in_force ps)
             (fst ?st \<or> ?qd \<noteq> None) (snd ?st))"
        using tdn None
        by (simp add: evaluate_policies_def Let_def pause_of_def case_prod_beta)
      then show thesis using policies [OF tdn None refl] by auto
    qed
  qed
qed

text \<open>The whole evaluation, whatever its cascade of returns, is the strictest of its gates.\<close>

lemma evaluate_strictest:
  "outcome_of (evaluate_policies g now a ps t ra st) =
   strictest (gates g now a t ra st @ policy_outcomes a ps t ra)"
proof (cases rule: evaluate_cases [of t ra g now a ps st])
  case (tier d)
  then have "of_check (checkTrustTierGating t ra) = Deny" by (simp add: of_check_def outcome_of_def)
  with tier show ?thesis by (simp add: gates_def outcome_of_def)
next
  case (settings d)
  then have "of_check (Option.bind st (\<lambda>s. checkAutonomySettings a s ra)) = Deny"
    by (simp add: of_check_def outcome_of_def)
  with settings show ?thesis by (simp add: gates_def outcome_of_def)
next
  case (policies req why qd)
  have check: "of_check d = ask_if (\<exists>x. d = Some x \<and> pd_requiresApproval x)" if "denial d = None" for d
    using that by (auto simp: denial_def of_check_def outcome_of_def ask_if_def split: option.splits if_splits)
  have quiet: "of_check qd = ask_if (qd \<noteq> None)"
    unfolding policies(3) by (rule of_check_quiet)
  have "strictest (gates g now a t ra st) =
      ask_if (req \<or> (\<exists>d. checkTrustTierGating t ra = Some d \<and> pd_requiresApproval d) \<or> g \<or> pause_of st)"
    by (simp only: gates_def strictest_simps Clear_least check [OF policies(1)]
        check [OF policies(2)] quiet max_ask_if policies(4) flip: policies(3))
      (simp only: disj_ac)
  then show ?thesis
    by (simp only: policies(5) outcome_conclude strictest_append max.commute)
qed

lemma outcome_of_iff:
  "pd_allowed d \<longleftrightarrow> outcome_of d \<noteq> Deny"
  "pd_allowed d \<and> \<not> pd_requiresApproval d \<longleftrightarrow> outcome_of d = Clear"
  by (simp_all add: outcome_of_def)

section \<open>The gates in closed form\<close>

fun tier_clears :: "trust_tier \<Rightarrow> risk_tier option \<Rightarrow> bool" where
  "tier_clears LOW_AUTONOMY r = (case r of None \<Rightarrow> True | Some x \<Rightarrow> x \<le> LOW)"
| "tier_clears MODERATE_AUTONOMY r = (case r of None \<Rightarrow> True | Some x \<Rightarrow> x \<le> MODERATE)"
| "tier_clears HIGH_AUTONOMY r = (r \<noteq> Some CRITICAL)"
| "tier_clears _ r = False"

definition recognized :: "trust_tier \<Rightarrow> bool" where
  "recognized t = (case t of UNRECOGNIZED_TIER _ \<Rightarrow> False | _ \<Rightarrow> True)"

lemma riskTierRank_str: "riskTierRank (risk_str r) = risk_index r"
  by (cases r) (simp_all add: riskTierRank.simps)

lemma of_check_tier:
  "of_check (checkTrustTierGating t ra) =
     (if \<not> recognized t then Deny
      else if tier_clears t (map_option ra_overallTier ra) then Clear else Ask)"
  by (cases t; cases ra)
    (auto simp: checkTrustTierGating_def of_check_def outcome_of_def verdict_of_def recognized_def
      rank_of_def riskTierRank_str less_eq_risk_tier_def
      simp del: risk_str.simps)

definition settings_permit :: "candidate_action \<Rightarrow> autonomy_settings \<Rightarrow> bool" where
  "settings_permit a s \<longleftrightarrow> checkDomainAllowlist (ca_domain a) s \<and>
     (ca_costZeroIntent a = Some cost_unknown \<or> checkSpendLimit a s)"

lemma of_check_settings:
  "of_check (checkAutonomySettings a s ra) =
     (if \<not> settings_permit a s then Deny
      else ask_if (ca_costZeroIntent a = Some cost_unknown \<or>
        ra \<noteq> None \<and> as_requireApprovalForIrreversible s \<and> \<not> ca_reversible a))"
  by (auto simp: checkAutonomySettings_def settings_permit_def of_check_def outcome_of_def
      verdict_of_def ask_if_def)

definition quiet_now :: "autonomy_settings \<Rightarrow> int \<times> int \<Rightarrow> bool" where
  "quiet_now s now \<longleftrightarrow> checkQuietHours s now \<noteq> None"

section \<open>The built-in policies\<close>

definition dimension_tier :: "risk_assessment \<Rightarrow> risk_dimension \<Rightarrow> risk_tier option" where
  "dimension_tier r d = map_option dim_tier (map_of (ra_dimensions r) d)"

lemma dimension_str_inject: "dimension_str x = dimension_str y \<longleftrightarrow> x = y"
  by (cases x; cases y) simp_all

lemma resolve_dimension_str:
  "resolve_dimension r (dimension_str d) =
     (case dimension_tier r d of None \<Rightarrow> JUndefined | Some x \<Rightarrow> JStr (risk_str x))"
proof -
  have "find (\<lambda>(e, _). dimension_str e = dimension_str d) xs = map_option (Pair d) (map_of xs d)"
    for xs :: "(risk_dimension \<times> dimension_assessment) list"
    by (induction xs) (auto simp: dimension_str_inject)
  then show ?thesis
    by (simp add: resolve_dimension_def dimension_tier_def split: option.splits)
qed

lemma isRiskTier_risk_str: "isRiskTierString (JStr (risk_str x))"
  by (cases x) (simp_all add: isRiskTierString_def)

lemma compare_risk:
  "compareValues (JStr (risk_str x)) op_gt (JStr (risk_str y)) \<longleftrightarrow> y < x"
  by (simp add: compareValues_def isRiskTier_risk_str compare_ranks_def riskTierRank_str
      less_risk_tier_def)

lemma dimension_fields:
  "resolveField a ''riskDimension.legal_sensitivity'' t (Some r) =
     resolve_dimension r (dimension_str LEGAL_SENSITIVITY)"
  "resolveField a ''riskDimension.privacy_sensitivity'' t (Some r) =
     resolve_dimension r (dimension_str PRIVACY_SENSITIVITY)"
  "resolveField a ''riskDimension.legal_sensitivity'' t None = JUndefined"
  "resolveField a ''riskDimension.privacy_sensitivity'' t None = JUndefined"
  by (simp_all add: resolveField_def action_field_def)

lemma effect_spend:
  "evaluatePolicy a NO_SPEND_WITHOUT_LIMIT t ra =
     (if num_lt (Fin 0) (ca_estimatedCostCents a) then Some deny_effect else None)"
  by (simp add: evaluatePolicy_def NO_SPEND_WITHOUT_LIMIT_def ruleMatches_def resolveField_def
      action_field_def compareValues_def isRiskTierString_def)

lemma effect_irreversible:
  "evaluatePolicy a NO_IRREVERSIBLE_WITHOUT_APPROVAL t ra =
     (if ca_reversible a then None else Some require_approval_effect)"
  by (simp add: evaluatePolicy_def NO_IRREVERSIBLE_WITHOUT_APPROVAL_def ruleMatches_def
      resolveField_def action_field_def compareValues_def isRiskTierString_def)

text \<open>A dimension's tier, when there is an assessment that has the dimension.\<close>

definition assessed :: "risk_assessment option \<Rightarrow> risk_dimension \<Rightarrow> risk_tier option" where
  "assessed ra d = Option.bind ra (\<lambda>r. dimension_tier r d)"

definition exceeds :: "risk_tier option \<Rightarrow> risk_tier \<Rightarrow> bool" where
  "exceeds x bound = (case x of None \<Rightarrow> False | Some y \<Rightarrow> bound < y)"

lemma effect_legal:
  "evaluatePolicy a NO_LEGAL_WITHOUT_REVIEW t ra =
     (if exceeds (assessed ra LEGAL_SENSITIVITY) MODERATE then Some deny_effect else None)"
proof -
  have "JStr ''moderate'' = JStr (risk_str MODERATE)" by simp
  then show ?thesis
    by (cases ra)
      (auto simp: evaluatePolicy_def NO_LEGAL_WITHOUT_REVIEW_def ruleMatches_def dimension_fields
        resolve_dimension_str exceeds_def assessed_def compare_risk simp del: dimension_str.simps
        risk_str.simps split: option.splits)
qed

lemma effect_privacy:
  "evaluatePolicy a NO_PRIVACY_VIOLATIONS t ra =
     (if exceeds (assessed ra PRIVACY_SENSITIVITY) LOW then Some deny_effect else None)"
proof -
  have "JStr ''low'' = JStr (risk_str LOW)" by simp
  then show ?thesis
    by (cases ra)
      (auto simp: evaluatePolicy_def NO_PRIVACY_VIOLATIONS_def ruleMatches_def dimension_fields
        resolve_dimension_str exceeds_def assessed_def compare_risk simp del: dimension_str.simps
        risk_str.simps split: option.splits)
qed

lemma effect_tier:
  "recognized t \<Longrightarrow> evaluatePolicy a TRUST_TIER_GATING t ra =
     (if t = OBSERVER \<or> t = SUGGEST then Some require_approval_effect else None)"
  by (cases t)
    (simp_all add: evaluatePolicy_def TRUST_TIER_GATING_def ruleMatches_def resolveField_def
      compareValues_def isRiskTierString_def recognized_def)

lemmas builtin_effects =
  effect_spend effect_irreversible effect_legal effect_privacy effect_tier

end
