(* ===== verification/PolicyTheorems.thy ===== *)
theory PolicyTheorems
  imports PolicySpec
begin

text \<open>
  The properties of the policy evaluator: the exact conditions for clearing an action for
  automatic execution and for denying it, the confirmation level that is asked for, the effect
  of the built-in policies, and the monotonicity of the evaluation in the set of policies.
\<close>

section \<open>Lemmas\<close>

lemma all_builtin:
  "(\<forall>p \<in> set DEFAULT_POLICIES. P p) \<longleftrightarrow>
     P NO_SPEND_WITHOUT_LIMIT \<and> P NO_IRREVERSIBLE_WITHOUT_APPROVAL \<and> P NO_LEGAL_WITHOUT_REVIEW
     \<and> P NO_PRIVACY_VIOLATIONS \<and> P TRUST_TIER_GATING"
  by (simp add: DEFAULT_POLICIES_def)

lemma policies_clear_iff:
  "recognized t \<Longrightarrow> strictest (policy_outcomes a ps t ra) = Clear \<longleftrightarrow>
     \<not> num_lt (Fin 0) (ca_estimatedCostCents a) \<and> ca_reversible a \<and>
     \<not> exceeds (assessed ra LEGAL_SENSITIVITY) MODERATE \<and>
     \<not> exceeds (assessed ra PRIVACY_SENSITIVITY) LOW \<and> t \<noteq> OBSERVER \<and> t \<noteq> SUGGEST \<and>
     (\<forall>p \<in> set ps. pol_enabled p \<longrightarrow> of_effect (evaluatePolicy a p t ra) = Clear)"
proof -
  assume t: "recognized t"
  have "strictest (policy_outcomes a ps t ra) = Clear \<longleftrightarrow>
      (\<forall>p \<in> set DEFAULT_POLICIES. of_effect (evaluatePolicy a p t ra) = Clear) \<and>
      (\<forall>p \<in> set ps. pol_enabled p \<longrightarrow> of_effect (evaluatePolicy a p t ra) = Clear)"
    using default_enabled by (auto simp: strictest_policies(2) set_policies_in_force)
  then show ?thesis by (simp add: all_builtin builtin_effects t)
qed

lemma policies_deny_iff:
  "recognized t \<Longrightarrow> strictest (policy_outcomes a ps t ra) = Deny \<longleftrightarrow>
     num_lt (Fin 0) (ca_estimatedCostCents a) \<or>
     exceeds (assessed ra LEGAL_SENSITIVITY) MODERATE \<or>
     exceeds (assessed ra PRIVACY_SENSITIVITY) LOW \<or>
     (\<exists>p \<in> set ps. pol_enabled p \<and> evaluatePolicy a p t ra = Some deny_effect)"
proof -
  assume t: "recognized t"
  have "strictest (policy_outcomes a ps t ra) = Deny \<longleftrightarrow>
      \<not> (\<forall>p \<in> set DEFAULT_POLICIES. evaluatePolicy a p t ra \<noteq> Some deny_effect) \<or>
      (\<exists>p \<in> set ps. pol_enabled p \<and> evaluatePolicy a p t ra = Some deny_effect)"
    using default_enabled by (auto simp: strictest_policies(1) find_None_all set_policies_in_force)
  then show ?thesis by (simp add: all_builtin builtin_effects t)
qed

lemma gates_clear_iff:
  "strictest (gates g now a t ra st) = Clear \<longleftrightarrow>
     tier_clears t (map_option ra_overallTier ra) \<and> \<not> gv_escalate (guard_of a) \<and>
     ca_actionType a \<noteq> ''escalate_to_user'' \<and> \<not> g \<and>
     (\<forall>s. st = Some s \<longrightarrow> settings_permit a s \<and> ca_costZeroIntent a \<noteq> Some cost_unknown \<and>
        \<not> (ra \<noteq> None \<and> as_requireApprovalForIrreversible s \<and> \<not> ca_reversible a) \<and>
        as_paused s \<noteq> Some True \<and> \<not> quiet_now s now)"
proof -
  have tier: "of_check (checkTrustTierGating t ra) = Clear \<longleftrightarrow>
      tier_clears t (map_option ra_overallTier ra)"
    by (cases t) (simp_all add: of_check_tier recognized_def)
  have none: "of_check None = Clear" by (simp add: of_check_def)
  show ?thesis
    by (cases st)
      (auto simp: gates_def strictest_Clear_iff tier none ask_if_def pause_of_def
        of_check_settings quiet_now_def of_check_quiet [where st = "Some s" for s, simplified]
        simp del: strictest_simps)
qed

lemma gates_deny_iff:
  "strictest (gates g now a t ra st) = Deny \<longleftrightarrow>
     \<not> recognized t \<or> (\<exists>s. st = Some s \<and> \<not> settings_permit a s)"
proof -
  have none: "of_check None = Clear" by (simp add: of_check_def)
  show ?thesis
    by (cases st)
      (auto simp: gates_def strictest_Deny_iff of_check_tier none ask_if_def
        of_check_settings of_check_quiet [where st = "Some s" for s, simplified]
        simp del: strictest_simps split: if_splits)
qed

lemma max_outcome_iff:
  "max x y = Clear \<longleftrightarrow> x = Clear \<and> y = Clear" "max x y = Deny \<longleftrightarrow> x = Deny \<or> y = Deny"
  for x y :: outcome
  by (cases x; cases y; simp add: max_def outcome_order)+

lemma strictest_Max: "xs \<noteq> [] \<Longrightarrow> strictest xs = Max (set xs)"
proof (induction xs)
  case (Cons x xs)
  show ?case
  proof (cases "xs = []")
    case False
    then show ?thesis using Cons.IH [OF False] by (simp only: strictest_simps list.set Max_insert
        finite_set set_empty not_False_eq_True)
  qed simp
qed simp

lemma tier_clears_recognized: "tier_clears t r \<Longrightarrow> recognized t \<and> t \<noteq> OBSERVER \<and> t \<noteq> SUGGEST"
  by (cases t) (simp_all add: recognized_def)

section \<open>Clearing and denying\<close>

text \<open>
  C20: an action is cleared for automatic execution exactly when the trust tier covers its
  overall risk, its shape is harmless, it is reversible, it is not an escalation, it costs
  nothing, its legal and privacy risks are within bounds, the settings permit it with a
  verified cost, neither switch nor quiet hours are on, and no enabled policy of the user
  objects.
\<close>

theorem auto_clear_iff:
  "pd_allowed (evaluate_policies g now a ps t ra st) \<and>
   \<not> pd_requiresApproval (evaluate_policies g now a ps t ra st) \<longleftrightarrow>
     tier_clears t (map_option ra_overallTier ra) \<and>
     severity_of a = severity_none \<and> ca_reversible a \<and>
     ca_actionType a \<noteq> ''escalate_to_user'' \<and>
     \<not> num_lt (Fin 0) (ca_estimatedCostCents a) \<and>
     \<not> exceeds (assessed ra LEGAL_SENSITIVITY) MODERATE \<and>
     \<not> exceeds (assessed ra PRIVACY_SENSITIVITY) LOW \<and>
     (\<forall>s. st = Some s \<longrightarrow> settings_permit a s \<and> ca_costZeroIntent a \<noteq> Some cost_unknown \<and>
        as_paused s \<noteq> Some True \<and> \<not> quiet_now s now) \<and>
     \<not> g \<and>
     (\<forall>p \<in> set ps. pol_enabled p \<longrightarrow> of_effect (evaluatePolicy a p t ra) = Clear)"
proof (cases "tier_clears t (map_option ra_overallTier ra)")
  case True
  note r = tier_clears_recognized [OF True]
  show ?thesis
    unfolding outcome_of_iff(2) evaluate_strictest strictest_append max_outcome_iff
      gates_clear_iff policies_clear_iff [OF conjunct1 [OF r]] guard_verdict
    using r True by auto
next
  case False
  then show ?thesis
    unfolding outcome_of_iff(2) evaluate_strictest strictest_append max_outcome_iff
      gates_clear_iff by simp
qed

text \<open>
  an action is denied exactly when the trust tier is not one of the enum, the settings
  refuse its domain or its price, it costs anything at all, its legal or privacy risk is above
  the bound, or an enabled policy of the user denies it. The switches, quiet hours and the
  injection guard play no part.
\<close>

theorem denied_iff:
  "\<not> pd_allowed (evaluate_policies g now a ps t ra st) \<longleftrightarrow>
     \<not> recognized t \<or> (\<exists>s. st = Some s \<and> \<not> settings_permit a s) \<or>
     num_lt (Fin 0) (ca_estimatedCostCents a) \<or>
     exceeds (assessed ra LEGAL_SENSITIVITY) MODERATE \<or>
     exceeds (assessed ra PRIVACY_SENSITIVITY) LOW \<or>
     (\<exists>p \<in> set ps. pol_enabled p \<and> evaluatePolicy a p t ra = Some deny_effect)"
proof (cases "recognized t")
  case True
  then show ?thesis
    unfolding outcome_of_iff(1) evaluate_strictest strictest_append max_outcome_iff not_not
      gates_deny_iff policies_deny_iff [OF True] by simp
next
  case False
  then show ?thesis
    unfolding outcome_of_iff(1) evaluate_strictest strictest_append max_outcome_iff not_not
      gates_deny_iff by simp
qed

text \<open>
  C24: the outcome of an evaluation is the greatest, in the order clear, ask, deny, of the
  outcomes of its gates and of all enabled policies; neither the order of the checks nor the
  priorities and repetitions of policies matter to it.
\<close>

theorem evaluate_is_greatest_gate:
  "outcome_of (evaluate_policies g now a ps t ra st) =
   Max (set (gates g now a t ra st) \<union> set (policy_outcomes a ps t ra))"
proof -
  let ?xs = "gates g now a t ra st @ policy_outcomes a ps t ra"
  have "?xs \<noteq> []" by (simp add: gates_def)
  then have "strictest ?xs = Max (set ?xs)" by (rule strictest_Max)
  then show ?thesis by (simp only: evaluate_strictest set_append)
qed

section \<open>Confirmation\<close>

lemma check_levels:
  "checkTrustTierGating t ra = Some d \<Longrightarrow> pd_confirmationLevel d = None"
  "Option.bind st (\<lambda>s. checkAutonomySettings a s ra) = Some d' \<Longrightarrow> pd_confirmationLevel d' = None"
  by (auto simp: checkTrustTierGating_def checkAutonomySettings_def verdict_of_def
      split: trust_tier.splits option.splits if_splits bind_splits)

text \<open>
  an action that is allowed and asks for approval carries exactly the confirmation level of
  the injection guard, so two confirmations whenever its shape is extreme, whatever else
  (kill switch, quiet hours, settings, policies) asked too; every other decision carries none.
\<close>

theorem confirmation_level:
  "pd_confirmationLevel (evaluate_policies g now a ps t ra st) =
     (if pd_allowed (evaluate_policies g now a ps t ra st)
         \<and> pd_requiresApproval (evaluate_policies g now a ps t ra st)
      then if severity_of a = severity_extreme then Some dual
           else if severity_of a = severity_destructive \<or> (untrusted a \<and> \<not> ca_reversible a)
           then Some single else None
      else None)"
proof (cases rule: evaluate_cases [of t ra g now a ps st])
  case (tier d)
  then show ?thesis by (simp add: check_levels(1))
next
  case (settings d)
  then show ?thesis by (simp add: check_levels(2))
next
  case (policies req why qd)
  then show ?thesis
    by (auto simp: conclude_def verdict_of_def guard_verdict(2) split: sum.splits)
qed

section \<open>Policies\<close>

text \<open>
  loading the policies of a user puts the built-in ones in front, and the evaluation adds
  them again; the second copy changes nothing, down to the reason and the blocking policy.
\<close>

theorem loaded_policies_same:
  "evaluate_policies g now a (loadPolicies repo userId) t ra st =
   evaluate_policies g now a (repo userId) t ra st"
  unfolding evaluate_policies_def loadPolicies_def Let_def policy_loop_dup by (rule refl)

text \<open>
  adding policies never loosens a decision: with more policies the outcome is the same or
  stricter, and no policy can lift what the gates or the built-in policies ask for.
\<close>

theorem more_policies_stricter:
  "set ps \<subseteq> set qs \<Longrightarrow>
   outcome_of (evaluate_policies g now a ps t ra st)
     \<le> outcome_of (evaluate_policies g now a qs t ra st)"
proof -
  assume sub: "set ps \<subseteq> set qs"
  have "strictest xs \<le> strictest ys" if "set xs \<subseteq> set ys" for xs ys
  proof (cases "strictest xs")
    case Ask
    then have "strictest ys \<noteq> Clear" using that strictest_Clear_iff by (metis outcome.simps(2) subsetD)
    with Ask show ?thesis by (cases "strictest ys") (simp_all add: outcome_order)
  next
    case Deny
    then have "strictest ys = Deny" using that by (auto simp: strictest_Deny_iff)
    with Deny show ?thesis by simp
  qed simp
  then show ?thesis unfolding evaluate_strictest
    by this (use sub in \<open>auto simp: policy_outcomes_def\<close>)
qed

section \<open>Concrete instances\<close>

definition label_action :: candidate_action where
  "label_action =
     \<lparr> ca_id = ''a1'', ca_decisionId = ''d1'', ca_actionType = ''label_email'',
       ca_description = ''Label the message'', ca_domain = ''email'', ca_parameters = [],
       ca_estimatedCostCents = Fin 0, ca_costZeroIntent = None, ca_reversible = True,
       ca_confidence = C_HIGH, ca_reasoning = ''A label helps'',
       ca_provenance = Some untrusted_external, ca_capabilityProvenanceNodeId = None \<rparr>"

definition low_risk :: risk_assessment where
  "low_risk = \<lparr> ra_actionId = ''a1'', ra_overallTier = LOW, ra_dimensions = [],
     ra_reasoning = Overall LOW [], ra_assessedAt = 0 \<rparr>"

definition email_settings :: autonomy_settings where
  "email_settings = CONSERVATIVE_AUTONOMY_DEFAULTS
     \<lparr> as_allowedDomains := [''email''], as_quietHoursStart := Some ''22:00'',
       as_quietHoursEnd := Some ''07:00'' \<rparr>"

definition no_email_policy :: action_policy where
  "no_email_policy = \<lparr> pol_id = ''p1'', pol_name = ''No email'', pol_description = ''No email'',
     pol_rules = [\<lparr> pr_id = ''r1'', pr_policyId = ''p1'',
       pr_condition = \<lparr> pc_field = ''domain'', pc_operator = op_eq, pc_value = JStr ''email'' \<rparr>,
       pr_effect = deny_effect, pr_reason = ''No email'' \<rparr>],
     pol_priority = 10, pol_enabled = True, pol_builtIn = False \<rparr>"

lemma label_harmless: "severity_of label_action = severity_none"
  by code_simp

lemma email_settings_permit:
  "settings_permit label_action email_settings" "as_paused email_settings = None"
  "\<not> quiet_now email_settings (12, 0)"
  by code_simp+

theorem auto_clear_iff_witness:
  "pd_allowed (evaluate_policies False (12, 0) label_action [] LOW_AUTONOMY (Some low_risk)
     (Some email_settings)) \<and>
   \<not> pd_requiresApproval (evaluate_policies False (12, 0) label_action [] LOW_AUTONOMY
     (Some low_risk) (Some email_settings))"
  unfolding auto_clear_iff
  by (simp add: label_harmless email_settings_permit)
    (simp add: label_action_def low_risk_def assessed_def dimension_tier_def exceeds_def)

theorem denied_iff_witness:
  "\<not> pd_allowed (evaluate_policies False (12, 0)
     (label_action \<lparr> ca_estimatedCostCents := Fin 100 \<rparr>) [] HIGH_AUTONOMY (Some low_risk) None)"
  unfolding denied_iff by simp

theorem more_policies_stricter_witness:
  "outcome_of (evaluate_policies False (12, 0) label_action [] LOW_AUTONOMY (Some low_risk) None)
     \<le> outcome_of (evaluate_policies False (12, 0) label_action [no_email_policy] LOW_AUTONOMY
         (Some low_risk) None)"
  by (rule more_policies_stricter) simp

end
