(* ===== verification/PolicyRouting.thy ===== *)
theory PolicyRouting
  imports PolicyTheorems
begin

text \<open>
  The smaller parts of \<open>packages/policy-engine/src\<close>: approval expiry (\<open>approval-router.ts\<close>), the
  effective trust tier of a domain (\<open>domain-autonomy.ts\<close>), zero-trust mode (\<open>zero-trust.ts\<close>) and
  the write-scope gate (\<open>scope-gate.ts\<close>). Repositories are functions; times are milliseconds.
\<close>

section \<open>Approval expiry (approval-router.ts)\<close>

definition DEFAULT_EXPIRY_MS :: int where
  "DEFAULT_EXPIRY_MS = 24 * 60 * 60 * 1000"

definition EXPIRY_DURATIONS_MS :: "string \<Rightarrow> int option" where
  "EXPIRY_DURATIONS_MS urgency =
     (if urgency = ''immediate'' then Some (15 * 60 * 1000)
      else if urgency = ''normal'' then Some (24 * 60 * 60 * 1000)
      else if urgency = ''low'' then Some (72 * 60 * 60 * 1000) else None)"

definition getExpiryDurationMs :: "string \<Rightarrow> int" where
  "getExpiryDurationMs urgency =
     (case EXPIRY_DURATIONS_MS urgency of Some d \<Rightarrow> d | None \<Rightarrow> DEFAULT_EXPIRY_MS)"

definition computeExpiry :: "string \<Rightarrow> int \<Rightarrow> int" where
  "computeExpiry urgency now =
     (let durationMs = (case EXPIRY_DURATIONS_MS urgency of Some d \<Rightarrow> d | None \<Rightarrow> DEFAULT_EXPIRY_MS)
      in now + durationMs)"

definition isExpired :: "int \<Rightarrow> int \<Rightarrow> bool" where
  "isExpired expiresAt now \<longleftrightarrow> expiresAt \<le> now"

lemma expiry_window:
  "isExpired (computeExpiry u now) t \<longleftrightarrow> now + getExpiryDurationMs u \<le> t"
  "0 < getExpiryDurationMs u" "getExpiryDurationMs u \<le> 259200000"
  by (simp_all add: isExpired_def computeExpiry_def getExpiryDurationMs_def EXPIRY_DURATIONS_MS_def
      DEFAULT_EXPIRY_MS_def)

section \<open>Effective trust tier of a domain (domain-autonomy.ts)\<close>

record domain_autonomy_policy =
  da_domain :: string
  da_trustTier :: trust_tier
  da_maxSpendPerActionCents :: "number option"

text \<open>\<open>TIER_RANK[tier] ?? 0\<close>\<close>

fun TIER_RANK :: "trust_tier \<Rightarrow> int" where
  "TIER_RANK OBSERVER = 0"
| "TIER_RANK SUGGEST = 1"
| "TIER_RANK LOW_AUTONOMY = 2"
| "TIER_RANK MODERATE_AUTONOMY = 3"
| "TIER_RANK HIGH_AUTONOMY = 4"
| "TIER_RANK (UNRECOGNIZED_TIER _) = 0"

datatype tier_source = source_global | source_domain

record effective_tier =
  ef_effectiveTier :: trust_tier
  ef_source :: tier_source
  ef_domainPolicy :: "domain_autonomy_policy option"

definition getEffectiveTier ::
  "(string \<Rightarrow> string \<Rightarrow> domain_autonomy_policy option) \<Rightarrow> string \<Rightarrow> string \<Rightarrow> trust_tier
   \<Rightarrow> effective_tier" where
  "getEffectiveTier getForDomain userId domain globalTier =
     (case getForDomain userId domain of
        None \<Rightarrow> \<lparr> ef_effectiveTier = globalTier, ef_source = source_global, ef_domainPolicy = None \<rparr>
      | Some domainPolicy \<Rightarrow>
          if TIER_RANK (da_trustTier domainPolicy) \<le> TIER_RANK globalTier
          then \<lparr> ef_effectiveTier = da_trustTier domainPolicy, ef_source = source_domain,
                 ef_domainPolicy = Some domainPolicy \<rparr>
          else \<lparr> ef_effectiveTier = globalTier, ef_source = source_global,
                 ef_domainPolicy = Some domainPolicy \<rparr>)"

definition resolveEffectiveTier ::
  "string \<Rightarrow> trust_tier \<Rightarrow> domain_autonomy_policy list \<Rightarrow> trust_tier" where
  "resolveEffectiveTier domain globalTier policies =
     (case find (\<lambda>p. da_domain p = domain) policies of
        None \<Rightarrow> globalTier
      | Some domainPolicy \<Rightarrow>
          if TIER_RANK (da_trustTier domainPolicy) \<le> TIER_RANK globalTier
          then da_trustTier domainPolicy else globalTier)"

lemma effective_tier_min:
  "TIER_RANK (resolveEffectiveTier d g ps) =
     (case find (\<lambda>p. da_domain p = d) ps of None \<Rightarrow> TIER_RANK g
      | Some p \<Rightarrow> min (TIER_RANK (da_trustTier p)) (TIER_RANK g))"
  by (simp add: resolveEffectiveTier_def split: option.splits)

lemma effective_tier_paths_agree:
  "repo u d = find (\<lambda>p. da_domain p = d) ps \<Longrightarrow>
   ef_effectiveTier (getEffectiveTier repo u d g) = resolveEffectiveTier d g ps"
  by (simp add: getEffectiveTier_def resolveEffectiveTier_def split: option.splits)

section \<open>Zero-trust mode (zero-trust.ts)\<close>

definition MCP_HOST_BASE_RISK_MODIFIER :: int where
  "MCP_HOST_BASE_RISK_MODIFIER = 1"

definition ZERO_TRUST_RISK_MODIFIER_DELTA :: int where
  "ZERO_TRUST_RISK_MODIFIER_DELTA = 1"

definition getEffectiveRiskModifier :: "bool \<Rightarrow> int" where
  "getEffectiveRiskModifier zero_trust_mode =
     MCP_HOST_BASE_RISK_MODIFIER + (if zero_trust_mode then ZERO_TRUST_RISK_MODIFIER_DELTA else 0)"

definition applyZeroTrustOverride :: "bool \<Rightarrow> policy_decision option" where
  "applyZeroTrustOverride zero_trust_mode =
     (if \<not> zero_trust_mode then None else Some (verdict_of True True ZeroTrust))"

section \<open>The write-scope gate (scope-gate.ts)\<close>

record scope_requirement =
  sq_scope :: string
  sq_provider :: string

text \<open>\<open>/^send_|reply|compose|^email_send/\<close>\<close>

definition rx_mail_write :: rx where
  "rx_mail_write = alts [Seq AtStart (lit ''send_''), lit ''reply'', lit ''compose'',
     Seq AtStart (lit ''email_send'')]"

text \<open>\<open>/(create|update|modify|delete|cancel|move|rsvp).*(event|calendar)|^calendar_/\<close>\<close>

definition rx_calendar_write :: rx where
  "rx_calendar_write = Alt
     (seqs [alts [lit ''create'', lit ''update'', lit ''modify'', lit ''delete'', lit ''cancel'',
              lit ''move'', lit ''rsvp''], any_run, alts [lit ''event'', lit ''calendar'']])
     (Seq AtStart (lit ''calendar_''))"

text \<open>
  \<open>/(accept|decline|tentative)_invite|tentative_accept|propose_alternative|^rsvp|respond_to_event/\<close>
\<close>

definition rx_invite_response :: rx where
  "rx_invite_response = alts
     [Seq (alts [lit ''accept'', lit ''decline'', lit ''tentative'']) (lit ''_invite''),
      lit ''tentative_accept'', lit ''propose_alternative'', Seq AtStart (lit ''rsvp''),
      lit ''respond_to_event'']"

definition requiredWriteScope :: "string \<Rightarrow> scope_requirement option" where
  "requiredWriteScope actionType =
     (let a = to_lower actionType in
      if rx_test rx_mail_write a
      then Some \<lparr> sq_scope = ''gmail.send'', sq_provider = ''gmail'' \<rparr>
      else if rx_test rx_calendar_write a
      then Some \<lparr> sq_scope = ''calendar.events'', sq_provider = ''google_calendar'' \<rparr>
      else if rx_test rx_invite_response a
      then Some \<lparr> sq_scope = ''calendar.events'', sq_provider = ''google_calendar'' \<rparr>
      else None)"

definition hasWriteScope :: "string \<Rightarrow> string list \<Rightarrow> bool" where
  "hasWriteScope actionType grantedScopes =
     (case requiredWriteScope actionType of
        None \<Rightarrow> True
      | Some req \<Rightarrow>
          if length grantedScopes = 0 then False
          else list_ex (\<lambda>s. str_includes s (sq_scope req)) grantedScopes)"

definition scope_or :: "scope_requirement option \<Rightarrow> string \<Rightarrow> string" where
  "scope_or req d = (case req of Some r \<Rightarrow> sq_scope r | None \<Rightarrow> d)"

definition gate_candidate :: "candidate_action \<Rightarrow> string list \<Rightarrow> candidate_action" where
  "gate_candidate c grantedScopes =
     (if hasWriteScope (ca_actionType c) grantedScopes then c
      else (let req = requiredWriteScope (ca_actionType c) in
        c \<lparr> ca_actionType := ''escalate_to_user'',
            ca_description := ''Connect write access ('' @ scope_or req ''required permission''
              @ '') to enable: '' @ ca_description c,
            ca_parameters :=
              [(''reason'', JStr ''missing_write_scope''),
               (''requiredScope'', case req of Some r \<Rightarrow> JStr (sq_scope r) | None \<Rightarrow> JNull),
               (''provider'', case req of Some r \<Rightarrow> JStr (sq_provider r) | None \<Rightarrow> JNull),
               (''originalActionType'', JStr (ca_actionType c))],
            ca_estimatedCostCents := Fin 0,
            ca_reversible := True,
            ca_reasoning := ''Not proposed for auto-execution: the user has not granted the write ''
              @ ''scope ('' @ scope_or req ''unknown'' @ '') this action requires (spec 11).'' \<rparr>))"

definition applyScopeGate :: "candidate_action list \<Rightarrow> string list \<Rightarrow> candidate_action list" where
  "applyScopeGate candidates grantedScopes = map (\<lambda>c. gate_candidate c grantedScopes) candidates"

lemma escalation_needs_no_scope: "requiredWriteScope ''escalate_to_user'' = None"
  by code_simp

lemma gate_candidate_cases:
  "(gate_candidate c scopes = c \<and> hasWriteScope (ca_actionType c) scopes) \<or>
   (ca_actionType (gate_candidate c scopes) = ''escalate_to_user'' \<and>
    ca_reversible (gate_candidate c scopes) \<and> ca_estimatedCostCents (gate_candidate c scopes) = Fin 0)"
  by (simp add: gate_candidate_def Let_def)

lemma gated_has_scope: "hasWriteScope (ca_actionType (gate_candidate c scopes)) scopes"
proof -
  have "hasWriteScope ''escalate_to_user'' scopes"
    by (simp add: hasWriteScope_def escalation_needs_no_scope)
  then show ?thesis using gate_candidate_cases [of c scopes] by auto
qed

lemma escalation_asks:
  "ca_actionType a = ''escalate_to_user'' \<Longrightarrow>
   outcome_of (evaluate_policies g now a ps t ra st) \<noteq> Clear"
  unfolding evaluate_strictest strictest_append max_outcome_iff gates_clear_iff by simp

section \<open>Properties\<close>

text \<open>
  the scope gate and the evaluator together never let a write action that the user did not
  grant run by itself: whatever policies, settings and tier apply, a gated candidate that is
  cleared is one of the original candidates and has its scope. Gating twice changes nothing.
\<close>

theorem ungranted_writes_never_clear:
  "c \<in> set (applyScopeGate cs scopes) \<Longrightarrow>
   outcome_of (evaluate_policies g now c ps t ra st) = Clear \<Longrightarrow>
   c \<in> set cs \<and> hasWriteScope (ca_actionType c) scopes \<and>
   applyScopeGate (applyScopeGate cs scopes) scopes = applyScopeGate cs scopes"
proof -
  assume "c \<in> set (applyScopeGate cs scopes)"
    and clear: "outcome_of (evaluate_policies g now c ps t ra st) = Clear"
  then obtain d where d: "d \<in> set cs" "c = gate_candidate d scopes"
    by (auto simp: applyScopeGate_def)
  have "ca_actionType c \<noteq> ''escalate_to_user''" using escalation_asks clear by blast
  then have "c = d" using gate_candidate_cases [of d scopes] d(2) by auto
  moreover have "gate_candidate (gate_candidate e scopes) scopes = gate_candidate e scopes" for e
    using gated_has_scope [of e scopes] by (simp only: gate_candidate_def [of "gate_candidate e scopes"] if_True)
  ultimately show ?thesis
    using d gated_has_scope [of d scopes] by (simp add: applyScopeGate_def)
qed

text \<open>
  the effective tier of a domain is the more restrictive of the user's tier and the domain's,
  on both code paths, and tightening the user's tier never loosens it.
\<close>

theorem effective_tier_restrictive:
  assumes "repo u d = find (\<lambda>p. da_domain p = d) ps"
  shows "ef_effectiveTier (getEffectiveTier repo u d g) = resolveEffectiveTier d g ps \<and>
    TIER_RANK (resolveEffectiveTier d g ps) =
      (case find (\<lambda>p. da_domain p = d) ps of None \<Rightarrow> TIER_RANK g
       | Some p \<Rightarrow> min (TIER_RANK (da_trustTier p)) (TIER_RANK g)) \<and>
    (TIER_RANK g' \<le> TIER_RANK g \<longrightarrow>
      TIER_RANK (resolveEffectiveTier d g' ps) \<le> TIER_RANK (resolveEffectiveTier d g ps))"
  using effective_tier_paths_agree [where repo = repo and ps = ps, OF assms] by (auto simp: effective_tier_min split: option.splits)

text \<open>Concrete instances.\<close>

lemma label_needs_no_scope: "requiredWriteScope ''label_email'' = None"
  by code_simp

theorem ungranted_writes_never_clear_witness:
  "label_action \<in> set [label_action] \<and> hasWriteScope (ca_actionType label_action) [] \<and>
   applyScopeGate (applyScopeGate [label_action] []) [] = applyScopeGate [label_action] []"
proof (rule ungranted_writes_never_clear)
  have "ca_actionType label_action = ''label_email''" by (simp add: label_action_def)
  then show "label_action \<in> set (applyScopeGate [label_action] [])"
    using label_needs_no_scope by (simp add: applyScopeGate_def gate_candidate_def hasWriteScope_def)
  show "outcome_of (evaluate_policies False (12, 0) label_action [] LOW_AUTONOMY (Some low_risk)
      (Some email_settings)) = Clear"
    by code_simp
qed

theorem effective_tier_restrictive_witness:
  "ef_effectiveTier (getEffectiveTier (\<lambda>_ _. Some \<lparr> da_domain = ''email'', da_trustTier = SUGGEST,
       da_maxSpendPerActionCents = None \<rparr>) ''u'' ''email'' HIGH_AUTONOMY) = SUGGEST"
  using effective_tier_restrictive [of "\<lambda>_ _. Some \<lparr> da_domain = ''email'', da_trustTier = SUGGEST,
       da_maxSpendPerActionCents = None \<rparr>" "''u''" "''email''"
       "[\<lparr> da_domain = ''email'', da_trustTier = SUGGEST, da_maxSpendPerActionCents = None \<rparr>]"
       HIGH_AUTONOMY]
  by (simp add: resolveEffectiveTier_def)

end
