(* ===== verification/EscalationTriggers.thy ===== *)
theory EscalationTriggers
  imports SharedTypes
begin

text \<open>
  \<open>packages/policy-engine/src/escalation-triggers.ts\<close>: the configurable triggers that force a
  decision to the user. The conditions of a trigger are a JSON object whose fields the code only
  casts; they are raw values here and are compared with the operators of the language.
\<close>

section \<open>Model\<close>

datatype trigger_type =
    amount_threshold | risk_tier_threshold | low_confidence | novel_situation
  | consecutive_rejections | unknown_trigger string

record escalation_trigger =
  et_id :: string
  et_triggerType :: trigger_type
  et_conditions :: jsobj
  et_enabled :: bool

record escalation_context =
  ec_action :: candidate_action
  ec_riskAssessment :: risk_assessment
  ec_matchingPreferenceCount :: int
  ec_consecutiveRejections :: int

datatype escalation_reason =
    AmountReached number jsval
  | RiskReached risk_tier jsval
  | ConfidenceBelow confidence_level jsval
  | NovelSituation
  | RejectionsReached int jsval
  | UnknownTrigger string

record escalation_result =
  er_shouldEscalate :: bool
  er_reasons :: "escalation_reason list"
  er_triggeredBy :: "string list"

text \<open>\<open>RISK_RANK[key] ?? 0\<close> and \<open>CONFIDENCE_RANK[key] ?? 0\<close>\<close>

definition RISK_RANK :: "string \<Rightarrow> int" where
  "RISK_RANK s = (if s = ''low'' then 1 else if s = ''moderate'' then 2
     else if s = ''high'' then 3 else if s = ''critical'' then 4 else 0)"

definition CONFIDENCE_RANK :: "string \<Rightarrow> int" where
  "CONFIDENCE_RANK s = (if s = ''low'' then 1 else if s = ''moderate'' then 2
     else if s = ''high'' then 3 else if s = ''confirmed'' then 4 else 0)"

definition checkAmountThreshold ::
  "escalation_trigger \<Rightarrow> escalation_context \<Rightarrow> escalation_reason option" where
  "checkAmountThreshold trigger ctx =
     (let threshold = get (et_conditions trigger) ''thresholdCents'';
          cost = ca_estimatedCostCents (ec_action ctx) in
      if threshold = JUndefined then None
      else if js_leq threshold (JNum cost) then Some (AmountReached cost threshold) else None)"

definition checkRiskTierThreshold ::
  "escalation_trigger \<Rightarrow> escalation_context \<Rightarrow> escalation_reason option" where
  "checkRiskTierThreshold trigger ctx =
     (let threshold = get (et_conditions trigger) ''minRiskTier'';
          tier = ra_overallTier (ec_riskAssessment ctx) in
      if \<not> truthy threshold then None
      else if RISK_RANK (to_str threshold) \<le> RISK_RANK (risk_str tier)
      then Some (RiskReached tier threshold) else None)"

definition checkLowConfidence ::
  "escalation_trigger \<Rightarrow> escalation_context \<Rightarrow> escalation_reason option" where
  "checkLowConfidence trigger ctx =
     (let minConfidence = get (et_conditions trigger) ''minConfidence'';
          confidence = ca_confidence (ec_action ctx) in
      if \<not> truthy minConfidence then None
      else if CONFIDENCE_RANK (confidence_str confidence) < CONFIDENCE_RANK (to_str minConfidence)
      then Some (ConfidenceBelow confidence minConfidence) else None)"

definition checkNovelSituation :: "escalation_context \<Rightarrow> escalation_reason option" where
  "checkNovelSituation ctx =
     (if ec_matchingPreferenceCount ctx = 0 then Some NovelSituation else None)"

definition checkConsecutiveRejections ::
  "escalation_trigger \<Rightarrow> escalation_context \<Rightarrow> escalation_reason option" where
  "checkConsecutiveRejections trigger ctx =
     (let threshold = get (et_conditions trigger) ''count'';
          rejections = ec_consecutiveRejections ctx in
      if threshold = JUndefined then None
      else if js_leq threshold (JNum (Fin (of_int rejections)))
      then Some (RejectionsReached rejections threshold) else None)"

definition evaluateTrigger ::
  "escalation_trigger \<Rightarrow> escalation_context \<Rightarrow> escalation_reason option" where
  "evaluateTrigger trigger ctx = (case et_triggerType trigger of
     amount_threshold \<Rightarrow> checkAmountThreshold trigger ctx
   | risk_tier_threshold \<Rightarrow> checkRiskTierThreshold trigger ctx
   | low_confidence \<Rightarrow> checkLowConfidence trigger ctx
   | novel_situation \<Rightarrow> checkNovelSituation ctx
   | consecutive_rejections \<Rightarrow> checkConsecutiveRejections trigger ctx
   | unknown_trigger s \<Rightarrow> Some (UnknownTrigger s))"

fun trigger_loop ::
  "escalation_trigger list \<Rightarrow> escalation_context \<Rightarrow> escalation_reason list \<Rightarrow> string list
   \<Rightarrow> escalation_reason list \<times> string list" where
  "trigger_loop [] ctx reasons triggeredBy = (reasons, triggeredBy)"
| "trigger_loop (trigger # ts) ctx reasons triggeredBy =
     (if \<not> et_enabled trigger then trigger_loop ts ctx reasons triggeredBy
      else (case evaluateTrigger trigger ctx of
          None \<Rightarrow> trigger_loop ts ctx reasons triggeredBy
        | Some fired \<Rightarrow> trigger_loop ts ctx (reasons @ [fired]) (triggeredBy @ [et_id trigger])))"

definition evaluateTriggers ::
  "escalation_trigger list \<Rightarrow> escalation_context \<Rightarrow> escalation_result" where
  "evaluateTriggers triggers ctx =
     (let (reasons, triggeredBy) = trigger_loop triggers ctx [] [] in
      \<lparr> er_shouldEscalate = (reasons \<noteq> []), er_reasons = reasons, er_triggeredBy = triggeredBy \<rparr>)"

section \<open>Lemmas\<close>

definition fires :: "escalation_context \<Rightarrow> escalation_trigger \<Rightarrow> bool" where
  "fires ctx t \<longleftrightarrow> et_enabled t \<and> evaluateTrigger t ctx \<noteq> None"

lemma trigger_loop_eq:
  "trigger_loop ts ctx rs ids =
     (rs @ map (\<lambda>t. the (evaluateTrigger t ctx)) (filter (fires ctx) ts),
      ids @ map et_id (filter (fires ctx) ts))"
  by (induction ts ctx rs ids rule: trigger_loop.induct) (auto simp: fires_def split: option.splits)

lemma evaluateTriggers_eq:
  "er_shouldEscalate (evaluateTriggers ts ctx) \<longleftrightarrow> (\<exists>t \<in> set ts. fires ctx t)"
  "er_reasons (evaluateTriggers ts ctx) =
     map (\<lambda>t. the (evaluateTrigger t ctx)) (filter (fires ctx) ts)"
  "er_triggeredBy (evaluateTriggers ts ctx) = map et_id (filter (fires ctx) ts)"
  by (auto simp: evaluateTriggers_def trigger_loop_eq filter_empty_conv)

lemma unknown_fires: "et_triggerType t = unknown_trigger s \<Longrightarrow> et_enabled t \<Longrightarrow> fires ctx t"
  by (simp add: fires_def evaluateTrigger_def)

lemma rank_strings:
  "RISK_RANK (risk_str r) = risk_index r" "CONFIDENCE_RANK (confidence_str c) = confidence_index c"
  by (cases r; simp add: RISK_RANK_def) (cases c; simp add: CONFIDENCE_RANK_def)

text \<open>When a trigger asks for escalation, in terms of its conditions.\<close>

definition asks :: "escalation_trigger \<Rightarrow> escalation_context \<Rightarrow> bool" where
  "asks t ctx = (case et_triggerType t of
     unknown_trigger _ \<Rightarrow> True
   | amount_threshold \<Rightarrow> get (et_conditions t) ''thresholdCents'' \<noteq> JUndefined \<and>
       js_leq (get (et_conditions t) ''thresholdCents'')
         (JNum (ca_estimatedCostCents (ec_action ctx)))
   | risk_tier_threshold \<Rightarrow> truthy (get (et_conditions t) ''minRiskTier'') \<and>
       RISK_RANK (to_str (get (et_conditions t) ''minRiskTier''))
         \<le> risk_index (ra_overallTier (ec_riskAssessment ctx))
   | low_confidence \<Rightarrow> truthy (get (et_conditions t) ''minConfidence'') \<and>
       confidence_index (ca_confidence (ec_action ctx))
         < CONFIDENCE_RANK (to_str (get (et_conditions t) ''minConfidence''))
   | novel_situation \<Rightarrow> ec_matchingPreferenceCount ctx = 0
   | consecutive_rejections \<Rightarrow> get (et_conditions t) ''count'' \<noteq> JUndefined \<and>
       js_leq (get (et_conditions t) ''count'')
         (JNum (Fin (of_int (ec_consecutiveRejections ctx)))))"

lemma fires_iff: "fires ctx t \<longleftrightarrow> et_enabled t \<and> asks t ctx"
  by (cases "et_triggerType t")
    (simp_all add: fires_def asks_def evaluateTrigger_def checkAmountThreshold_def
      checkRiskTierThreshold_def checkLowConfidence_def checkNovelSituation_def
      checkConsecutiveRejections_def rank_strings Let_def)

section \<open>Properties\<close>

text \<open>
  a decision is escalated exactly when some enabled trigger asks for it: its type is
  unknown, its amount is reached, its risk tier (or any string outside the enum) is reached, the
  confidence is below its bound, nothing is known about the situation, or the rejections reach
  its count. A reason is reported for exactly the triggers that asked, in their order.
\<close>

theorem escalation_iff:
  "(er_shouldEscalate (evaluateTriggers ts ctx) \<longleftrightarrow>
     (\<exists>t \<in> set ts. et_enabled t \<and> asks t ctx)) \<and>
   length (er_reasons (evaluateTriggers ts ctx)) = length (er_triggeredBy (evaluateTriggers ts ctx)) \<and>
   er_triggeredBy (evaluateTriggers ts ctx) = map et_id (filter (\<lambda>t. et_enabled t \<and> asks t ctx) ts)"
proof -
  have "fires ctx = (\<lambda>t. et_enabled t \<and> asks t ctx)" by (rule ext) (rule fires_iff)
  then show ?thesis by (simp add: evaluateTriggers_eq)
qed

end
