(* ===== verification/Float64.thy ===== *)
theory Float64
  imports Complex_Main
begin

text \<open>
  Rounding of a rational to the nearest IEEE double (53 significant bits, ties to even), for
  numbers in the normal range. The approval ratio of the trust engine is compared with literals
  such as 0.3 after two roundings, and the outcome at the boundary depends on them.
\<close>

function ilog2 :: "int \<Rightarrow> int" where
  "ilog2 n = (if n < 2 then 0 else 1 + ilog2 (n div 2))"
  by auto
termination by (relation "measure nat") auto

declare ilog2.simps [simp del]

definition pow2 :: "int \<Rightarrow> rat" where
  "pow2 e = (if 0 \<le> e then 2 ^ nat e else 1 / 2 ^ nat (- e))"

definition round_even :: "rat \<Rightarrow> int" where
  "round_even y = (let f = \<lfloor>y\<rfloor>; d = y - of_int f in
     if d < 1 / 2 then f else if 1 / 2 < d then f + 1 else if even f then f else f + 1)"

text \<open>The exponent of the leading bit of a positive rational.\<close>

definition binary_exponent :: "rat \<Rightarrow> int" where
  "binary_exponent x = (let (p, q) = quotient_of x; e = ilog2 p - ilog2 q in
     if pow2 e \<le> x then e else e - 1)"

definition f64_pos :: "rat \<Rightarrow> rat" where
  "f64_pos x = (let u = pow2 (binary_exponent x - 52) in of_int (round_even (x / u)) * u)"

definition f64 :: "rat \<Rightarrow> rat" where
  "f64 x = (if x = 0 then 0 else if x < 0 then - f64_pos (- x) else f64_pos x)"

section \<open>Error of the rounding\<close>

lemma pow2_pos: "0 < pow2 e"
  by (simp add: pow2_def)

lemma pow2_mono: "e \<le> f \<Longrightarrow> pow2 e \<le> pow2 f"
proof -
  assume le: "e \<le> f"
  consider "0 \<le> e" | "e < 0" "0 \<le> f" | "f < 0" by linarith
  then show "pow2 e \<le> pow2 f"
  proof cases
    case 1
    then show ?thesis using le by (simp add: pow2_def power_increasing)
  next
    case 2
    have "1 / 2 ^ nat (- e) \<le> (1::rat)" by simp
    also have "(1::rat) \<le> 2 ^ nat f" by simp
    finally show ?thesis using 2 by (simp add: pow2_def)
  next
    case 3
    then have "(2::rat) ^ nat (- f) \<le> 2 ^ nat (- e)" using le by (intro power_increasing) auto
    then show ?thesis using 3 le by (simp add: pow2_def frac_le)
  qed
qed

lemma round_even_error: "\<bar>of_int (round_even y) - y\<bar> \<le> 1 / 2"
proof -
  have lo: "of_int \<lfloor>y\<rfloor> \<le> y" by simp
  have hi: "y < of_int \<lfloor>y\<rfloor> + 1" by linarith
  show ?thesis
    using lo hi by (auto simp: round_even_def Let_def abs_le_iff)
qed

lemma ilog2_mono: "m \<le> n \<Longrightarrow> ilog2 m \<le> ilog2 n"
proof (induction n arbitrary: m rule: ilog2.induct)
  case (1 n)
  have pos: "0 \<le> ilog2 k" for k
    by (induction k rule: ilog2.induct) (subst ilog2.simps, simp)
  show ?case
  proof (cases "m < 2")
    case True
    then show ?thesis using pos [of n] by (simp add: ilog2.simps [of m])
  next
    case False
    then have "\<not> n < 2" "m div 2 \<le> n div 2" using 1(2) by (auto intro: zdiv_mono1)
    then show ?thesis using 1(1) [of "m div 2"] False by (subst (1 2) ilog2.simps) simp
  qed
qed

lemma binary_exponent_le_0: "0 < x \<Longrightarrow> x \<le> 1 \<Longrightarrow> binary_exponent x \<le> 0"
proof -
  assume x: "0 < x" "x \<le> 1"
  obtain p q where pq: "quotient_of x = (p, q)" by fastforce
  then have q: "0 < q" and eq: "x = of_int p / of_int q"
    by (auto simp: quotient_of_denom_pos dest: quotient_of_div)
  have "(of_int p :: rat) \<le> of_int q" using x(2) q by (simp add: eq)
  then have "ilog2 p \<le> ilog2 q" by (intro ilog2_mono) simp
  then show ?thesis by (simp add: binary_exponent_def pq Let_def)
qed

lemma f64_error:
  assumes "0 \<le> x" "x \<le> 1"
  shows "\<bar>f64 x - x\<bar> \<le> 1 / 2 ^ 53"
proof (cases "x = 0")
  case True
  then show ?thesis by (simp add: f64_def)
next
  case False
  then have x: "0 < x" using assms(1) by simp
  let ?u = "pow2 (binary_exponent x - 52)"
  have u: "0 < ?u" "?u \<le> 1 / 2 ^ 52"
    using pow2_pos pow2_mono [of "binary_exponent x - 52" "- 52"] binary_exponent_le_0 [OF x assms(2)]
    by (simp_all add: pow2_def)
  have "f64 x - x = (of_int (round_even (x / ?u)) - x / ?u) * ?u"
    using x u(1) by (simp add: f64_def f64_pos_def Let_def field_simps)
  then have "\<bar>f64 x - x\<bar> \<le> (1 / 2) * ?u"
    using round_even_error [of "x / ?u"] u(1)
    by (simp only: abs_mult abs_of_pos) (rule mult_right_mono, simp_all)
  also have "\<dots> \<le> (1 / 2) * (1 / 2 ^ 52)" using u(2) by (intro mult_left_mono) simp_all
  finally show ?thesis by simp
qed

section \<open>The unit interval\<close>

lemma round_even_bounds:
  "y \<le> of_int m \<Longrightarrow> round_even y \<le> m" "of_int m \<le> y \<Longrightarrow> m \<le> round_even y"
proof -
  assume le: "y \<le> of_int m"
  show "round_even y \<le> m"
  proof (cases "\<lfloor>y\<rfloor> = m")
    case True
    then show ?thesis using le by (simp add: round_even_def Let_def)
  next
    case False
    then have "\<lfloor>y\<rfloor> + 1 \<le> m" using le by linarith
    then show ?thesis by (simp add: round_even_def Let_def)
  qed
next
  assume "of_int m \<le> y"
  then have "m \<le> \<lfloor>y\<rfloor>" by (simp add: le_floor_iff)
  then show "m \<le> round_even y" by (simp add: round_even_def Let_def)
qed

lemma f64_unit:
  assumes "0 \<le> x" "x \<le> 1"
  shows "0 \<le> f64 x" "f64 x \<le> 1"
proof -
  let ?e = "binary_exponent x - 52"
  have pos: "0 < pow2 ?e" by (rule pow2_pos)
  have e: "?e \<le> - 52" if "0 < x" using binary_exponent_le_0 [OF that assms(2)] by simp
  have inv: "1 / pow2 ?e = of_int (2 ^ nat (- ?e))" if "0 < x"
    using e [OF that] by (simp add: pow2_def)
  have "0 \<le> round_even (x / pow2 ?e)" if "0 < x"
    by (rule round_even_bounds(2)) (use that pos in simp)
  then show "0 \<le> f64 x" using assms(1) pos by (simp add: f64_def f64_pos_def Let_def)
  have "x / pow2 ?e \<le> 1 / pow2 ?e" using assms(2) pos by (simp add: divide_right_mono)
  then have "round_even (x / pow2 ?e) \<le> 2 ^ nat (- ?e)" if "0 < x"
    by (intro round_even_bounds(1)) (simp only: inv [OF that])
  then have "of_int (round_even (x / pow2 ?e)) \<le> 1 / pow2 ?e" if "0 < x"
    using that unfolding inv [OF that] by (simp only: of_int_le_iff)
  then have "of_int (round_even (x / pow2 ?e)) * pow2 ?e \<le> 1" if "0 < x"
    using that pos by (simp add: pos_le_divide_eq)
  then show "f64 x \<le> 1" using assms(1) by (simp add: f64_def f64_pos_def Let_def)
qed

section \<open>Relative error\<close>

lemma ilog2_bounds:
  assumes "1 \<le> n"
  shows "0 \<le> ilog2 n \<and> 2 ^ nat (ilog2 n) \<le> n \<and> n < 2 * 2 ^ nat (ilog2 n)"
  using assms
proof (induction n rule: ilog2.induct)
  case (1 n)
  show ?case
  proof (cases "n < 2")
    case True
    then show ?thesis using 1 by (simp add: ilog2.simps [of n])
  next
    case False
    then have h: "1 \<le> n div 2" by simp
    from "1.IH" [OF False h] have ih: "0 \<le> ilog2 (n div 2)" "2 ^ nat (ilog2 (n div 2)) \<le> n div 2"
      "n div 2 < 2 * 2 ^ nat (ilog2 (n div 2))" by auto
    have e: "ilog2 n = 1 + ilog2 (n div 2)" using False by (simp add: ilog2.simps [of n])
    have "2 * (n div 2) \<le> n" "n < 2 * (n div 2) + 2" by simp_all
    then show ?thesis using ih unfolding e by (simp add: nat_add_distrib)
  qed
qed

lemma binary_exponent_le: "0 < x \<Longrightarrow> pow2 (binary_exponent x) \<le> x"
proof -
  assume x: "0 < x"
  obtain p q where pq: "quotient_of x = (p, q)" by fastforce
  then have q: "0 < q" and eq: "x = of_int p / of_int q"
    by (auto simp: quotient_of_denom_pos dest: quotient_of_div)
  have p: "0 < p" using x q by (simp add: eq zero_less_divide_iff)
  let ?e = "ilog2 p - ilog2 q"
  have P: "of_int (2 ^ nat (ilog2 p)) \<le> (of_int p :: rat)" "0 \<le> ilog2 p"
    using ilog2_bounds [of p] p by (simp_all only: of_int_le_iff)
  have Q: "(of_int q :: rat) < of_int (2 * 2 ^ nat (ilog2 q))" "0 \<le> ilog2 q"
    using ilog2_bounds [of q] q by (simp_all only: of_int_less_iff)
  have split: "pow2 (?e - 1) = 2 ^ nat (ilog2 p) / (2 * 2 ^ nat (ilog2 q))"
  proof (cases "0 \<le> ?e - 1")
    case True
    then have "nat (ilog2 p) = nat (?e - 1) + Suc (nat (ilog2 q))" using P Q by simp
    then have "(2::rat) ^ nat (ilog2 p) = 2 ^ nat (?e - 1) * (2 * 2 ^ nat (ilog2 q))"
      by (simp add: power_add)
    then show ?thesis using True by (simp add: pow2_def)
  next
    case False
    then have "Suc (nat (ilog2 q)) = nat (- (?e - 1)) + nat (ilog2 p)" using P Q by simp
    then have "2 * 2 ^ nat (ilog2 q) = (2::rat) ^ nat (- (?e - 1)) * 2 ^ nat (ilog2 p)"
      by (metis power_Suc power_add)
    then show ?thesis using False by (simp add: pow2_def)
  qed
  have "2 ^ nat (ilog2 p) / (2 * 2 ^ nat (ilog2 q)) \<le> x"
    unfolding eq using P Q q p by (intro frac_le) simp_all
  then show ?thesis using split by (simp add: binary_exponent_def pq Let_def)
qed

lemma f64_relative:
  assumes "0 < x"
  shows "\<bar>f64 x - x\<bar> \<le> x / 2 ^ 53"
proof -
  let ?u = "pow2 (binary_exponent x - 52)"
  have shift: "?u = pow2 (binary_exponent x) / 2 ^ 52"
  proof -
    let ?e = "binary_exponent x"
    consider "52 \<le> ?e" | "0 \<le> ?e" "?e < 52" | "?e < 0" by linarith
    then show ?thesis
    proof cases
      case 1
      then have "nat ?e = nat (?e - 52) + 52" by simp
      then have "(2::rat) ^ nat ?e = 2 ^ nat (?e - 52) * 2 ^ 52" by (simp only: power_add)
      then show ?thesis using 1 by (simp add: pow2_def)
    next
      case 2
      then have "52 = nat (52 - ?e) + nat ?e" by simp
      then have "(2::rat) ^ 52 = 2 ^ nat (52 - ?e) * 2 ^ nat ?e" by (metis power_add)
      then show ?thesis using 2 by (simp add: pow2_def field_simps)
    next
      case 3
      then have "nat (52 - ?e) = nat (- ?e) + 52" by simp
      then have "(2::rat) ^ nat (52 - ?e) = 2 ^ nat (- ?e) * 2 ^ 52" by (simp only: power_add)
      then show ?thesis using 3 by (simp add: pow2_def)
    qed
  qed
  have u: "0 < ?u" "?u \<le> x / 2 ^ 52"
    using pow2_pos binary_exponent_le [OF assms] by (simp_all add: shift divide_right_mono)
  have "f64 x - x = (of_int (round_even (x / ?u)) - x / ?u) * ?u"
    using assms u(1) by (simp add: f64_def f64_pos_def Let_def field_simps)
  then have "\<bar>f64 x - x\<bar> \<le> (1 / 2) * ?u"
    using round_even_error [of "x / ?u"] u(1)
    by (simp only: abs_mult abs_of_pos) (rule mult_right_mono, simp_all)
  also have "\<dots> \<le> (1 / 2) * (x / 2 ^ 52)" using u(2) by (intro mult_left_mono) simp_all
  finally show ?thesis by simp
qed

lemma f64_half_bound:
  assumes "0 < x"
  shows "f64 (f64 x * (1 / 2)) < x"
proof -
  have a: "\<bar>f64 x - x\<bar> \<le> x / 2 ^ 53" by (rule f64_relative [OF assms])
  have small: "x / 2 ^ 53 \<le> x / 4" using assms by (simp add: frac_le)
  have "\<bar>f64 x - x\<bar> \<le> x / 4" using a small by (rule order_trans)
  then have pos: "0 < f64 x * (1 / 2)" and le: "f64 x * (1 / 2) \<le> 5 / 8 * x"
    using assms by linarith+
  have "\<bar>f64 (f64 x * (1 / 2)) - f64 x * (1 / 2)\<bar> \<le> (f64 x * (1 / 2)) / 2 ^ 53"
    by (rule f64_relative [OF pos])
  moreover have "(f64 x * (1 / 2)) / 2 ^ 53 \<le> (f64 x * (1 / 2)) / 4"
    using pos by (intro divide_left_mono) simp_all
  ultimately have "\<bar>f64 (f64 x * (1 / 2)) - f64 x * (1 / 2)\<bar> \<le> (f64 x * (1 / 2)) / 4"
    by (rule order_trans)
  then show ?thesis using le assms by linarith
qed

end
