(* ===== verification/TrustTier.thy ===== *)
theory TrustTier
  imports SharedTypes Float64
begin

text \<open>
  \<open>packages/policy-engine/src/trust-tier-engine.ts\<close> with the promotion thresholds of
  \<open>packages/shared-types/src/policy.ts\<close>: promotion and demotion of a user's trust tier. The
  ratio of approvals is the double that the caller computed, as the rational it stands for; the
  one subtraction on it rounds. The outcome of the language model's prompt is an argument of the
  asynchronous path. The explanatory texts are the constructors of \<open>tier_reason\<close>.
\<close>

section \<open>Thresholds\<close>

definition recentRejectionThreshold :: int where
  "recentRejectionThreshold = 3"

definition rejectionRatioThreshold :: rat where
  "rejectionRatioThreshold = f64 (3 / 10)"

definition minEventsForRatioCheck :: int where
  "minEventsForRatioCheck = 10"

definition TIER_ORDER :: "trust_tier list" where
  "TIER_ORDER = [OBSERVER, SUGGEST, LOW_AUTONOMY, MODERATE_AUTONOMY, HIGH_AUTONOMY]"

fun PROMOTION_THRESHOLDS :: "trust_tier \<Rightarrow> promotion_threshold option" where
  "PROMOTION_THRESHOLDS OBSERVER =
     Some \<lparr> th_consecutiveApprovals = 10, th_minApprovalRatio = f64 (4 / 5),
            th_minDurationInTierHours = 24, th_nextTier = SUGGEST \<rparr>"
| "PROMOTION_THRESHOLDS SUGGEST =
     Some \<lparr> th_consecutiveApprovals = 20, th_minApprovalRatio = f64 (17 / 20),
            th_minDurationInTierHours = 72, th_nextTier = LOW_AUTONOMY \<rparr>"
| "PROMOTION_THRESHOLDS LOW_AUTONOMY =
     Some \<lparr> th_consecutiveApprovals = 50, th_minApprovalRatio = f64 (9 / 10),
            th_minDurationInTierHours = 168, th_nextTier = MODERATE_AUTONOMY \<rparr>"
| "PROMOTION_THRESHOLDS _ = None"

text \<open>\<open>indexOf\<close> gives -1 for a tier outside the list; index access out of range is undefined.\<close>

fun index_of :: "'a \<Rightarrow> 'a list \<Rightarrow> int option" where
  "index_of x [] = None"
| "index_of x (y # ys) = (if x = y then Some 0 else map_option (\<lambda>i. i + 1) (index_of x ys))"

definition tierIndex :: "trust_tier \<Rightarrow> int" where
  "tierIndex t = (case index_of t TIER_ORDER of None \<Rightarrow> - 1 | Some i \<Rightarrow> i)"

definition tier_at :: "int \<Rightarrow> trust_tier option" where
  "tier_at i = (if 0 \<le> i \<and> i < int (length TIER_ORDER) then Some (TIER_ORDER ! nat i) else None)"

definition nextTier :: "trust_tier \<Rightarrow> trust_tier option" where
  "nextTier t = tier_at (tierIndex t + 1)"

section \<open>Promotion\<close>

datatype tier_reason =
    AlreadyHighest
  | OptInRequired
  | NoPath trust_tier
  | NeedApprovals int int
  | RatioBelow rat rat
  | TimeFloor rat trust_tier rat int
  | Eligible approval_stats promotion_threshold
  | EligibleByModel int rat
  | ModelReason string
  | AlreadyLowest
  | CriticalUndo
  | RecentRejections int
  | RejectionRatio rat int
  | Stable

record promotion_judgment =
  pj_shouldPromote :: bool
  pj_toTier :: "trust_tier option"
  pj_reasoning :: tier_reason
  pj_confidence :: number

definition no_promotion :: "tier_reason \<Rightarrow> promotion_judgment" where
  "no_promotion r = \<lparr> pj_shouldPromote = False, pj_toTier = None, pj_reasoning = r,
     pj_confidence = Fin 1 \<rparr>"

text \<open>\<open>Number.isFinite(h) \<and> h < floor\<close>\<close>

definition below_floor :: "number option \<Rightarrow> rat \<Rightarrow> bool" where
  "below_floor h bound = (case h of Some (Fin x) \<Rightarrow> x < bound | _ \<Rightarrow> False)"

definition hours_of :: "number option \<Rightarrow> rat" where
  "hours_of h = (case h of Some (Fin x) \<Rightarrow> max 0 x | _ \<Rightarrow> 0)"

definition deterministicPromotion :: "trust_tier \<Rightarrow> approval_stats \<Rightarrow> promotion_judgment" where
  "deterministicPromotion currentTier stats =
     (if currentTier = HIGH_AUTONOMY then no_promotion AlreadyHighest
      else if currentTier = MODERATE_AUTONOMY then no_promotion OptInRequired
      else (case PROMOTION_THRESHOLDS currentTier of
          None \<Rightarrow> no_promotion (NoPath currentTier)
        | Some threshold \<Rightarrow>
            if st_consecutiveApprovals stats < th_consecutiveApprovals threshold
            then no_promotion (NeedApprovals (th_consecutiveApprovals threshold)
              (st_consecutiveApprovals stats))
            else if st_approvalRatio stats < th_minApprovalRatio threshold
            then no_promotion (RatioBelow (st_approvalRatio stats) (th_minApprovalRatio threshold))
            else if below_floor (st_hoursInCurrentTier stats) (th_minDurationInTierHours threshold)
            then (let hours = hours_of (st_hoursInCurrentTier stats) in
              no_promotion (TimeFloor hours currentTier (th_minDurationInTierHours threshold)
                \<lceil>th_minDurationInTierHours threshold - hours\<rceil>))
            else \<lparr> pj_shouldPromote = True, pj_toTier = Some (th_nextTier threshold),
                   pj_reasoning = Eligible stats threshold, pj_confidence = Fin 1 \<rparr>))"

text \<open>
  The result of the prompt \<open>tier-promotion-judgment\<close>: it threw, it fell back, or it returned
  the model's object.
\<close>

datatype prompt_result =
    PromptThrew
  | FellBack
  | ModelOutput bool number string

definition judgePromotion ::
  "prompt_result option \<Rightarrow> trust_tier \<Rightarrow> approval_stats \<Rightarrow> promotion_judgment" where
  "judgePromotion llm currentTier stats =
     (if currentTier = MODERATE_AUTONOMY \<or> currentTier = HIGH_AUTONOMY
      then deterministicPromotion currentTier stats
      else (case llm of
          None \<Rightarrow> deterministicPromotion currentTier stats
        | Some PromptThrew \<Rightarrow> deterministicPromotion currentTier stats
        | Some FellBack \<Rightarrow> deterministicPromotion currentTier stats
        | Some (ModelOutput recommend_promote confidence reasoning) \<Rightarrow>
            \<lparr> pj_shouldPromote = recommend_promote,
              pj_toTier = (if recommend_promote then nextTier currentTier else None),
              pj_reasoning = ModelReason reasoning, pj_confidence = confidence \<rparr>))"

section \<open>Evaluation\<close>

record tier_evaluation =
  te_shouldChange :: bool
  te_currentTier :: trust_tier
  te_recommendedTier :: "trust_tier option"
  te_reason :: tier_reason
  te_direction :: "tier_direction option"

definition unchanged :: "trust_tier \<Rightarrow> tier_reason \<Rightarrow> tier_evaluation" where
  "unchanged t r = \<lparr> te_shouldChange = False, te_currentTier = t, te_recommendedTier = None,
     te_reason = r, te_direction = None \<rparr>"

definition changed ::
  "trust_tier \<Rightarrow> trust_tier option \<Rightarrow> tier_reason \<Rightarrow> tier_direction \<Rightarrow> tier_evaluation" where
  "changed t t' r d = \<lparr> te_shouldChange = True, te_currentTier = t, te_recommendedTier = t',
     te_reason = r, te_direction = Some d \<rparr>"

definition judgmentToEvaluation ::
  "trust_tier \<Rightarrow> promotion_judgment \<Rightarrow> approval_stats \<Rightarrow> tier_evaluation" where
  "judgmentToEvaluation currentTier judgment stats =
     (if \<not> pj_shouldPromote judgment then unchanged currentTier (pj_reasoning judgment)
      else changed currentTier
        (case pj_toTier judgment of Some t \<Rightarrow> Some t
         | None \<Rightarrow> map_option th_nextTier (PROMOTION_THRESHOLDS currentTier))
        (if pj_reasoning judgment = ModelReason []
         then EligibleByModel (st_consecutiveApprovals stats) (st_approvalRatio stats)
         else pj_reasoning judgment)
        promotion)"

definition evaluateProgression :: "trust_tier \<Rightarrow> approval_stats \<Rightarrow> tier_evaluation" where
  "evaluateProgression currentTier stats =
     judgmentToEvaluation currentTier (deterministicPromotion currentTier stats) stats"

definition evaluateProgressionAsync ::
  "prompt_result option \<Rightarrow> trust_tier \<Rightarrow> approval_stats \<Rightarrow> tier_evaluation" where
  "evaluateProgressionAsync llm currentTier stats =
     judgmentToEvaluation currentTier (judgePromotion llm currentTier stats) stats"

definition evaluateRegression :: "trust_tier \<Rightarrow> approval_stats \<Rightarrow> tier_evaluation" where
  "evaluateRegression currentTier stats =
     (if currentTier = OBSERVER then unchanged currentTier AlreadyLowest
      else
        (let currentIndex = tierIndex currentTier;
             lowerTier = tier_at (currentIndex - 1) in
         if st_hasCriticalUndo stats
         then changed currentTier (Some OBSERVER) CriticalUndo regression
         else if recentRejectionThreshold \<le> st_recentRejections stats
         then changed currentTier lowerTier (RecentRejections (st_recentRejections stats)) regression
         else
           (let totalEvents = st_totalApprovals stats + st_totalRejections stats;
                rejectionRatio = f64 (1 - st_approvalRatio stats) in
            if minEventsForRatioCheck \<le> totalEvents \<and> rejectionRatioThreshold < rejectionRatio
            then changed currentTier lowerTier (RejectionRatio rejectionRatio totalEvents) regression
            else unchanged currentTier Stable)))"

definition evaluateTier :: "trust_tier \<Rightarrow> approval_stats \<Rightarrow> tier_evaluation" where
  "evaluateTier currentTier stats =
     (let r = evaluateRegression currentTier stats in
      if te_shouldChange r then r else evaluateProgression currentTier stats)"

definition evaluateTierAsync ::
  "prompt_result option \<Rightarrow> trust_tier \<Rightarrow> approval_stats \<Rightarrow> tier_evaluation" where
  "evaluateTierAsync llm currentTier stats =
     (let r = evaluateRegression currentTier stats in
      if te_shouldChange r then r else evaluateProgressionAsync llm currentTier stats)"

section \<open>Steps between tiers\<close>

text \<open>
  The caller applies a recommendation and asks again later, with other statistics and another
  answer of the model. A step is one applied recommendation.
\<close>

inductive tier_step :: "trust_tier \<Rightarrow> trust_tier \<Rightarrow> bool" where
  apply_recommendation:
    "te_recommendedTier (evaluateTierAsync llm t s) = Some t' \<Longrightarrow>
     te_shouldChange (evaluateTierAsync llm t s) \<Longrightarrow> tier_step t t'"

inductive_cases tier_step_elim: "tier_step t t'"

lemma tier_tables [simp]:
  "tierIndex OBSERVER = 0" "tierIndex SUGGEST = 1" "tierIndex LOW_AUTONOMY = 2"
  "tierIndex MODERATE_AUTONOMY = 3" "tierIndex HIGH_AUTONOMY = 4"
  "tierIndex (UNRECOGNIZED_TIER u) = - 1"
  by (simp_all add: tierIndex_def TIER_ORDER_def)

lemma tier_at_simps [simp]:
  "tier_at 0 = Some OBSERVER" "tier_at 1 = Some SUGGEST" "tier_at 2 = Some LOW_AUTONOMY"
  "tier_at 3 = Some MODERATE_AUTONOMY" "tier_at 4 = Some HIGH_AUTONOMY" "tier_at (- 2) = None"
  by (simp_all add: tier_at_def TIER_ORDER_def nat_numeral)

lemma nextTier_simps [simp]:
  "nextTier OBSERVER = Some SUGGEST" "nextTier SUGGEST = Some LOW_AUTONOMY"
  "nextTier LOW_AUTONOMY = Some MODERATE_AUTONOMY" "nextTier (UNRECOGNIZED_TIER u) = Some OBSERVER"
  by (simp_all add: nextTier_def)

lemma changed_simps [simp]:
  "te_shouldChange (unchanged t r) = False" "te_recommendedTier (unchanged t r) = None"
  "te_shouldChange (changed t t' r d) = True" "te_recommendedTier (changed t t' r d) = t'"
  "te_direction (unchanged t r) = None" "te_direction (changed t t' r d) = Some d"
  by (simp_all add: unchanged_def changed_def)

text \<open>What asks for a demotion, in terms of the statistics.\<close>

definition demotion_trigger :: "approval_stats \<Rightarrow> bool" where
  "demotion_trigger s \<longleftrightarrow> st_hasCriticalUndo s \<or> 3 \<le> st_recentRejections s \<or>
     (10 \<le> st_totalApprovals s + st_totalRejections s \<and>
      f64 (3 / 10) < f64 (1 - st_approvalRatio s))"

lemma regression_eq:
  "te_shouldChange (evaluateRegression t s) \<longleftrightarrow> t \<noteq> OBSERVER \<and> demotion_trigger s"
  "te_recommendedTier (evaluateRegression t s) =
     (if t \<noteq> OBSERVER \<and> demotion_trigger s
      then if st_hasCriticalUndo s then Some OBSERVER else tier_at (tierIndex t - 1) else None)"
  by (auto simp: evaluateRegression_def demotion_trigger_def Let_def
      recentRejectionThreshold_def minEventsForRatioCheck_def rejectionRatioThreshold_def)

text \<open>What the deterministic path asks of a promotion.\<close>

definition earned :: "approval_stats \<Rightarrow> promotion_threshold \<Rightarrow> bool" where
  "earned s th \<longleftrightarrow> th_consecutiveApprovals th \<le> st_consecutiveApprovals s \<and>
     th_minApprovalRatio th \<le> st_approvalRatio s \<and>
     \<not> below_floor (st_hoursInCurrentTier s) (th_minDurationInTierHours th)"

lemma deterministic_eq:
  "pj_shouldPromote (deterministicPromotion t s) \<longleftrightarrow>
     (\<exists>th. PROMOTION_THRESHOLDS t = Some th \<and> earned s th)"
  "pj_shouldPromote (deterministicPromotion t s) \<Longrightarrow>
     pj_toTier (deterministicPromotion t s) = map_option th_nextTier (PROMOTION_THRESHOLDS t)"
  by (cases t; auto simp: deterministicPromotion_def no_promotion_def earned_def Let_def
      split: if_splits)+

lemma progression_eq:
  "te_shouldChange (evaluateProgression t s) \<longleftrightarrow>
     (\<exists>th. PROMOTION_THRESHOLDS t = Some th \<and> earned s th)"
  "te_shouldChange (evaluateProgression t s) \<Longrightarrow>
     te_recommendedTier (evaluateProgression t s) = map_option th_nextTier (PROMOTION_THRESHOLDS t)"
  using deterministic_eq [of t s]
  by (auto simp: evaluateProgression_def judgmentToEvaluation_def split: option.splits)

lemma async_without_model: "evaluateTierAsync None t s = evaluateTier t s"
proof -
  have "judgePromotion None t s = deterministicPromotion t s" by (simp add: judgePromotion_def)
  then have "evaluateProgressionAsync None t s = evaluateProgression t s"
    by (simp add: evaluateProgressionAsync_def evaluateProgression_def)
  then show ?thesis by (simp only: evaluateTierAsync_def evaluateTier_def)
qed

lemma threshold_next: "PROMOTION_THRESHOLDS t = Some th \<Longrightarrow>
   t \<in> {OBSERVER, SUGGEST, LOW_AUTONOMY} \<and> nextTier t = Some (th_nextTier th)"
  by (cases t) auto

lemma judge_promotes:
  "pj_shouldPromote (judgePromotion llm t s) \<Longrightarrow>
   t \<noteq> MODERATE_AUTONOMY \<and> t \<noteq> HIGH_AUTONOMY \<and> pj_toTier (judgePromotion llm t s) = nextTier t"
  using deterministic_eq [of t s] threshold_next [of t]
  by (auto simp: judgePromotion_def split: if_splits option.splits prompt_result.splits)

lemma progression_async:
  assumes "te_shouldChange (evaluateProgressionAsync llm t s)"
  shows "t \<noteq> MODERATE_AUTONOMY" "t \<noteq> HIGH_AUTONOMY"
    "te_recommendedTier (evaluateProgressionAsync llm t s) = nextTier t"
proof -
  have j: "pj_shouldPromote (judgePromotion llm t s)"
    using assms by (simp add: evaluateProgressionAsync_def judgmentToEvaluation_def split: if_splits)
  note p = judge_promotes [OF j]
  show "t \<noteq> MODERATE_AUTONOMY" "t \<noteq> HIGH_AUTONOMY" using p by simp_all
  then have "\<exists>t'. nextTier t = Some t'" by (cases t) simp_all
  then show "te_recommendedTier (evaluateProgressionAsync llm t s) = nextTier t"
    using p j by (auto simp: evaluateProgressionAsync_def judgmentToEvaluation_def)
qed

lemma tier_step_cases:
  "tier_step t t' \<Longrightarrow>
   (t' = OBSERVER \<and> t \<noteq> OBSERVER) \<or> tierIndex t' = tierIndex t - 1 \<or>
   (tierIndex t' = tierIndex t + 1 \<and> t' \<noteq> HIGH_AUTONOMY)"
proof (erule tier_step_elim)
  fix llm s
  assume rec: "te_recommendedTier (evaluateTierAsync llm t s) = Some t'"
    and change: "te_shouldChange (evaluateTierAsync llm t s)"
  show ?thesis
  proof (cases "te_shouldChange (evaluateRegression t s)")
    case True
    then have "t \<noteq> OBSERVER" "t' = OBSERVER \<or> tier_at (tierIndex t - 1) = Some t'"
      using rec by (auto simp: evaluateTierAsync_def Let_def regression_eq split: if_splits)
    then show ?thesis by (cases t) auto
  next
    case False
    then have p: "te_shouldChange (evaluateProgressionAsync llm t s)"
      "te_recommendedTier (evaluateProgressionAsync llm t s) = Some t'"
      using rec change by (simp_all add: evaluateTierAsync_def)
    note q = progression_async [OF p(1)]
    then show ?thesis using p(2) by (cases t) auto
  qed
qed

text \<open>
  C28: no sequence of applied recommendations, whatever the statistics and whatever the language
  model answers, ever takes a user to the highest tier; a user is there only if put there.
\<close>

theorem high_autonomy_not_earned: "tier_step\<^sup>*\<^sup>* t HIGH_AUTONOMY \<longleftrightarrow> t = HIGH_AUTONOMY"
proof
  assume "tier_step\<^sup>*\<^sup>* t HIGH_AUTONOMY"
  then show "t = HIGH_AUTONOMY"
  proof (cases rule: rtranclp.cases)
    case (rtrancl_into_rtrancl u)
    note tier_step_cases [OF rtrancl_into_rtrancl(2)]
    then show ?thesis by (cases u) auto
  qed simp
qed simp

text \<open>
  the tier that an evaluation without a model recommends. A critical undo sends anyone above
  the floor back to the floor; another trigger takes one tier; otherwise the user moves one tier
  up when the count, the ratio and the time in the tier all reach the tier's thresholds, which
  exist for the three lowest tiers only.
\<close>

theorem recommended_tier:
  "te_recommendedTier (evaluateTier t s) =
     (if t \<noteq> OBSERVER \<and> demotion_trigger s
      then if st_hasCriticalUndo s then Some OBSERVER else tier_at (tierIndex t - 1)
      else (case PROMOTION_THRESHOLDS t of
          Some th \<Rightarrow> if earned s th then tier_at (tierIndex t + 1) else None
        | None \<Rightarrow> None))"
proof (cases "te_shouldChange (evaluateRegression t s)")
  case True
  then show ?thesis by (simp add: evaluateTier_def regression_eq)
next
  case False
  have "te_recommendedTier (evaluateProgression t s) = None"
    if "\<not> te_shouldChange (evaluateProgression t s)"
    using that by (auto simp: evaluateProgression_def judgmentToEvaluation_def split: if_splits)
  then show ?thesis
    using False progression_eq [of t s] threshold_next [of t]
    by (auto simp: evaluateTier_def regression_eq nextTier_def split: option.splits)
qed

text \<open>
  with a model that recommends it, an observer moves to the next tier whatever the
  statistics say: no count, no ratio and no time in the tier is asked for, and not even a
  critical undo prevents it.
\<close>

theorem model_overrides_thresholds:
  "evaluateTierAsync (Some (ModelOutput True c why)) OBSERVER s =
     changed OBSERVER (Some SUGGEST)
       (if why = [] then EligibleByModel (st_consecutiveApprovals s) (st_approvalRatio s)
        else ModelReason why) promotion"
  by (simp add: evaluateTierAsync_def regression_eq evaluateProgressionAsync_def
      judgePromotion_def judgmentToEvaluation_def)

section \<open>The ratio trigger in whole numbers\<close>

lemma f64_pos_eq:
  "binary_exponent x = e \<Longrightarrow> x / pow2 (e - 52) = y \<Longrightarrow> round_even y = m \<Longrightarrow> 0 < x \<Longrightarrow>
   f64 x = of_int m * pow2 (e - 52)"
  by (simp add: f64_def f64_pos_def Let_def)

lemma literal_exponents:
  "binary_exponent (3 / 10) = - 2" "binary_exponent (7 / 10) = - 1"
  "binary_exponent (1351079888211149 / 4503599627370496) = - 2"
  by code_simp+

lemma literal_roundings:
  "round_even (27021597764222976 / 5) = 5404319552844595"
  "round_even (31525197391593472 / 5) = 6305039478318694"
  "round_even 5404319552844596 = 5404319552844596"
  by code_simp+

lemma f64_literals:
  "f64 (3 / 10) = 5404319552844595 / 18014398509481984"
  "f64 (7 / 10) = 3152519739159347 / 4503599627370496"
  "f64 (1351079888211149 / 4503599627370496) = 1351079888211149 / 4503599627370496"
  by (subst f64_pos_eq [OF literal_exponents(1) _ literal_roundings(1)], simp_all add: pow2_def)
    (subst f64_pos_eq [OF literal_exponents(2) _ literal_roundings(2)], simp_all add: pow2_def,
     subst f64_pos_eq [OF literal_exponents(3) _ literal_roundings(3)], simp_all add: pow2_def)

text \<open>The comparison in double arithmetic, for a of n answered requests approved.\<close>

lemma ratio_compared:
  assumes "0 \<le> a" "a \<le> n" "10 \<le> n" "n < 2 ^ 46"
    and "st_approvalRatio s = f64 (of_int a / of_int n)"
  shows "rejectionRatioThreshold < f64 (1 - st_approvalRatio s) \<longleftrightarrow> 3 * n \<le> 10 * (n - a)"
proof -
  let ?x = "of_int a / of_int n :: rat"
  have n: "0 < (of_int n :: rat)" using assms(3) by simp
  have x: "0 \<le> ?x" "?x \<le> 1" using assms(1,2) n by simp_all
  have y: "0 \<le> 1 - f64 ?x" "1 - f64 ?x \<le> 1" using f64_unit [OF x] by simp_all
  note bounds = f64_error [OF x, unfolded abs_le_iff] f64_error [OF y, unfolded abs_le_iff]
  have "10 * n \<le> 2 ^ 50" using assms(4) by simp
  then have "of_int (10 * n) \<le> (of_int (2 ^ 50) :: rat)" by (simp only: of_int_le_iff)
  then have gap: "1 / 2 ^ 50 \<le> 1 / (10 * of_int n :: rat)"
    using n by (intro divide_left_mono) simp_all
  consider "10 * a = 7 * n" | "7 * n + 1 \<le> 10 * a" | "10 * a + 1 \<le> 7 * n" by linarith
  then show ?thesis
  proof cases
    case 1
    then have "of_int (10 * a) = (of_int (7 * n) :: rat)" by simp
    then have x_eq: "?x = 7 / 10" using n by (simp add: field_simps)
    have "f64 (1 - st_approvalRatio s) = f64 (1 - f64 (7 / 10))" unfolding assms(5) x_eq ..
    then show ?thesis using 1 by (simp add: rejectionRatioThreshold_def f64_literals)
  next
    case 2
    then have "of_int (7 * n + 1) \<le> (of_int (10 * a) :: rat)" by (simp only: of_int_le_iff)
    then have "of_int (7 * n + 1) / (10 * of_int n) \<le> of_int (10 * a) / (10 * of_int n :: rat)"
      using n by (intro divide_right_mono) simp_all
    then have "7 / 10 + 1 / (10 * of_int n) \<le> ?x" using n by (simp add: add_divide_distrib)
    then have "f64 (1 - f64 ?x) \<le> 3 / 10 - 1 / 2 ^ 50 + 1 / 2 ^ 52"
      using bounds gap by simp
    then show ?thesis using 2 by (simp add: assms(5) rejectionRatioThreshold_def f64_literals)
  next
    case 3
    then have "of_int (10 * a) \<le> (of_int (7 * n - 1) :: rat)" by (simp only: of_int_le_iff)
    then have "of_int (10 * a) / (10 * of_int n) \<le> of_int (7 * n - 1) / (10 * of_int n :: rat)"
      using n by (intro divide_right_mono) simp_all
    then have "?x \<le> 7 / 10 - 1 / (10 * of_int n)" using n by (simp add: diff_divide_distrib)
    then have "3 / 10 + 1 / 2 ^ 50 - 1 / 2 ^ 52 \<le> f64 (1 - f64 ?x)"
      using bounds gap by simp
    then show ?thesis using 3 by (simp add: assms(5) rejectionRatioThreshold_def f64_literals)
  qed
qed

text \<open>
  C32: when the approval ratio is the quotient of the counts (fewer than 2^46 of them), a demotion is
  recommended exactly when there was a critical undo, or three recent rejections, or, among at least
  ten answered requests, at least 30 percent rejections; OBSERVER is never demoted. The recommended
  tier is OBSERVER after a critical undo and the next lower one otherwise. The two roundings of the
  ratio put the boundary of exactly 30 percent on the demoting side, although the rule of the code is
  written as "more than 30 percent".
\<close>

theorem ratio_trigger_iff:
  assumes "0 \<le> st_totalApprovals s" "0 \<le> st_totalRejections s"
    and "st_totalApprovals s + st_totalRejections s < 2 ^ 46"
    and "st_approvalRatio s = f64 (of_int (st_totalApprovals s) /
      of_int (st_totalApprovals s + st_totalRejections s))"
  shows "(te_shouldChange (evaluateRegression t s) \<longleftrightarrow> t \<noteq> OBSERVER \<and>
      (st_hasCriticalUndo s \<or> 3 \<le> st_recentRejections s \<or>
       (10 \<le> st_totalApprovals s + st_totalRejections s \<and>
        30 * (st_totalApprovals s + st_totalRejections s) \<le> 100 * st_totalRejections s))) \<and>
    te_recommendedTier (evaluateRegression t s) =
      (if \<not> te_shouldChange (evaluateRegression t s) then None
       else if st_hasCriticalUndo s then Some OBSERVER else tier_at (tierIndex t - 1))"
proof -
  have "f64 (3 / 10) < f64 (1 - st_approvalRatio s) \<longleftrightarrow>
      30 * (st_totalApprovals s + st_totalRejections s) \<le> 100 * st_totalRejections s"
    if "10 \<le> st_totalApprovals s + st_totalRejections s"
    using ratio_compared [OF assms(1) _ that assms(3,4)] assms(2) by (simp add: rejectionRatioThreshold_def)
  then show ?thesis by (auto simp: regression_eq demotion_trigger_def)
qed

definition stats_of :: "int \<Rightarrow> int \<Rightarrow> rat \<Rightarrow> approval_stats" where
  "stats_of a r ratio = \<lparr> st_totalApprovals = a, st_totalRejections = r, st_totalUndos = 0,
     st_consecutiveApprovals = 0, st_recentRejections = 0, st_hasCriticalUndo = False,
     st_approvalRatio = ratio, st_hoursInCurrentTier = None \<rparr>"

lemma stats_of_sel [simp]:
  "st_totalApprovals (stats_of a r q) = a" "st_totalRejections (stats_of a r q) = r"
  "st_recentRejections (stats_of a r q) = 0" "\<not> st_hasCriticalUndo (stats_of a r q)"
  "st_approvalRatio (stats_of a r q) = q"
  by (simp_all add: stats_of_def)

theorem ratio_trigger_iff_witness:
  "te_recommendedTier (evaluateRegression MODERATE_AUTONOMY (stats_of 7 3 (f64 (7 / 10)))) = Some LOW_AUTONOMY \<and>
   te_recommendedTier (evaluateRegression MODERATE_AUTONOMY (stats_of 71 29 (f64 (71 / 100)))) = None"
  using ratio_trigger_iff [of "stats_of 7 3 (f64 (7 / 10))" MODERATE_AUTONOMY]
    ratio_trigger_iff [of "stats_of 71 29 (f64 (71 / 100))" MODERATE_AUTONOMY]
  by simp

end
