(* ===== verification/SpendTracker.thy ===== *)
theory SpendTracker
  imports SharedTypes
begin

text \<open>
  \<open>packages/policy-engine/src/spend-tracker.ts\<close> and its store
  \<open>packages/db/src/repositories/spend-repository.ts\<close>: the caps in force for an action, the daily
  and monthly checks, reconciliation, and the ledger of spend records. Per-app overrides and the
  interpreted risk profile are JSON objects that the code only casts, so their fields are raw
  values and are coerced where the code's arithmetic coerces them. Amounts of the ledger are the
  integers of its columns; times are milliseconds, and \<open>now()\<close> of the database is an argument.
\<close>

section \<open>Effective caps\<close>

definition clampDown :: "number \<Rightarrow> jsval \<Rightarrow> number" where
  "clampDown globalCap overrideCap =
     (if overrideCap = JUndefined then globalCap else math_min globalCap (to_number overrideCap))"

definition applyInterpretedCaps :: "autonomy_settings \<Rightarrow> jsobj \<Rightarrow> autonomy_settings" where
  "applyInterpretedCaps settings caps = settings
     \<lparr> as_maxSpendPerActionCents :=
         clampDown (as_maxSpendPerActionCents settings) (get caps ''maxSpendPerActionCents''),
       as_maxDailySpendCents :=
         clampDown (as_maxDailySpendCents settings) (get caps ''maxDailySpendCents''),
       as_requireApprovalForIrreversible :=
         as_requireApprovalForIrreversible settings
         \<or> strict_eq (get caps ''requireApprovalForIrreversible'') (JBool True) \<rparr>"

record effective_caps =
  ec_maxSpendPerActionCents :: number
  ec_maxDailySpendCents :: number
  ec_maxMonthlySpendCents :: jsval
  ec_requireApprovalForIrreversible :: bool
  ec_override :: jsval

definition override_for :: "autonomy_settings \<Rightarrow> string option \<Rightarrow> jsval" where
  "override_for settings appRegistryId = (case appRegistryId of
     None \<Rightarrow> JUndefined
   | Some app \<Rightarrow> if app = [] then JUndefined
       else (case as_perAppOverrides settings of None \<Rightarrow> JUndefined | Some m \<Rightarrow> get m app))"

definition resolveEffectiveCaps ::
  "autonomy_settings \<Rightarrow> string option \<Rightarrow> jsobj option \<Rightarrow> effective_caps" where
  "resolveEffectiveCaps settings appRegistryId interpretedCaps =
     (let base = (case interpretedCaps of None \<Rightarrow> settings
                  | Some caps \<Rightarrow> applyInterpretedCaps settings caps);
          override = override_for base appRegistryId in
      \<lparr> ec_maxSpendPerActionCents =
          clampDown (as_maxSpendPerActionCents base) (prop_of override ''maxSpendPerActionCents''),
        ec_maxDailySpendCents =
          clampDown (as_maxDailySpendCents base) (prop_of override ''maxDailySpendCents''),
        ec_maxMonthlySpendCents = prop_of override ''maxMonthlySpendCents'',
        ec_requireApprovalForIrreversible =
          as_requireApprovalForIrreversible base
          \<or> strict_eq (prop_of override ''requireApprovalForIrreversible'') (JBool True),
        ec_override = override \<rparr>)"

section \<open>The ledger (spend-repository.ts)\<close>

record spend_record =
  sr_userId :: string
  sr_actionId :: string
  sr_decisionId :: string
  sr_estimatedCostCents :: int
  sr_actualCostCents :: "int option"
  sr_registryId :: "string option"
  sr_recordedAt :: int
  sr_reconciledAt :: "int option"

type_synonym ledger = "spend_record list"

definition charged :: "spend_record \<Rightarrow> int" where
  "charged r = (case sr_actualCostCents r of Some c \<Rightarrow> c | None \<Rightarrow> sr_estimatedCostCents r)"

definition hours_ms :: "int \<Rightarrow> int" where
  "hours_ms h = h * 3600000"

definition getDailyTotal :: "ledger \<Rightarrow> string \<Rightarrow> int \<Rightarrow> int \<Rightarrow> int" where
  "getDailyTotal db userId windowHours now =
     sum_list (map charged
       (filter (\<lambda>r. sr_userId r = userId \<and> now - hours_ms windowHours \<le> sr_recordedAt r) db))"

definition getMonthlyTotal :: "ledger \<Rightarrow> string \<Rightarrow> string option \<Rightarrow> int \<Rightarrow> int" where
  "getMonthlyTotal db userId appRegistryId monthStart =
     sum_list (map charged
       (filter (\<lambda>r. sr_userId r = userId \<and>
          (case appRegistryId of None \<Rightarrow> True | Some app \<Rightarrow> sr_registryId r = Some app) \<and>
          monthStart \<le> sr_recordedAt r) db))"

record create_spend_input =
  cs_userId :: string
  cs_actionId :: string
  cs_decisionId :: string
  cs_estimatedCostCents :: int
  cs_actualCostCents :: "int option"
  cs_registryId :: "string option"

definition spend_row :: "create_spend_input \<Rightarrow> int \<Rightarrow> spend_record" where
  "spend_row i now = \<lparr> sr_userId = cs_userId i, sr_actionId = cs_actionId i,
     sr_decisionId = cs_decisionId i, sr_estimatedCostCents = cs_estimatedCostCents i,
     sr_actualCostCents = cs_actualCostCents i, sr_registryId = cs_registryId i,
     sr_recordedAt = now, sr_reconciledAt = None \<rparr>"

definition create_spend :: "ledger \<Rightarrow> create_spend_input \<Rightarrow> int \<Rightarrow> ledger" where
  "create_spend db i now = db @ [spend_row i now]"

definition checkAndRecordSpend ::
  "ledger \<Rightarrow> create_spend_input \<Rightarrow> int \<Rightarrow> int \<Rightarrow> int \<Rightarrow> (bool \<times> int) \<times> ledger" where
  "checkAndRecordSpend db i dailyLimitCents windowHours now =
     (let currentTotal = getDailyTotal db (cs_userId i) windowHours now in
      if dailyLimitCents < currentTotal + cs_estimatedCostCents i
      then ((False, currentTotal), db)
      else ((True, currentTotal + cs_estimatedCostCents i), create_spend db i now))"

text \<open>Reconciliation updates every record of the action and returns the first of them.\<close>

definition reconcile_record :: "ledger \<Rightarrow> string \<Rightarrow> int \<Rightarrow> int \<Rightarrow> spend_record option \<times> ledger" where
  "reconcile_record db actionId actualCostCents now =
     (let upd = (\<lambda>r. if sr_actionId r = actionId
                then r \<lparr> sr_actualCostCents := Some actualCostCents, sr_reconciledAt := Some now \<rparr>
                else r);
          db' = map upd db in
      (find (\<lambda>r. sr_actionId r = actionId) db', db'))"

section \<open>The tracker\<close>

datatype spend_reason =
    NegativeCost number
  | ZeroCost
  | LimitExceeded "string option" number number number number number
  | WithinLimit "string option" number number
  | NoMonthlyCap

record spend_check_result =
  sc_allowed :: bool
  sc_currentSpendCents :: number
  sc_proposedActionCents :: number
  sc_limitCents :: number
  sc_remainingCents :: number
  sc_reason :: spend_reason

text \<open>The note names the app when the id is not empty.\<close>

definition app_note :: "string option \<Rightarrow> string option" where
  "app_note app = (case app of Some s \<Rightarrow> if s = [] then None else Some s | None \<Rightarrow> None)"

definition limit_check :: "string option \<Rightarrow> number \<Rightarrow> number \<Rightarrow> number \<Rightarrow> spend_check_result" where
  "limit_check note currentSpend proposed limit =
     (let totalAfterAction = num_add currentSpend proposed;
          remaining = num_sub limit currentSpend in
      if num_lt limit totalAfterAction then
        \<lparr> sc_allowed = False, sc_currentSpendCents = currentSpend,
          sc_proposedActionCents = proposed, sc_limitCents = limit,
          sc_remainingCents = math_max (Fin 0) remaining,
          sc_reason = LimitExceeded note currentSpend proposed totalAfterAction limit
            (math_max (Fin 0) remaining) \<rparr>
      else
        \<lparr> sc_allowed = True, sc_currentSpendCents = currentSpend,
          sc_proposedActionCents = proposed, sc_limitCents = limit,
          sc_remainingCents = num_sub remaining proposed,
          sc_reason = WithinLimit note totalAfterAction limit \<rparr>)"

definition checkDailyLimit ::
  "(string \<Rightarrow> int \<Rightarrow> number) \<Rightarrow> string \<Rightarrow> number \<Rightarrow> autonomy_settings \<Rightarrow> int \<Rightarrow> string option
   \<Rightarrow> jsobj option \<Rightarrow> spend_check_result" where
  "checkDailyLimit dailyTotal userId proposed settings windowHours appRegistryId interpretedCaps =
     (let effectiveDaily =
            ec_maxDailySpendCents (resolveEffectiveCaps settings appRegistryId interpretedCaps) in
      if num_lt proposed (Fin 0) then
        \<lparr> sc_allowed = False, sc_currentSpendCents = Fin 0, sc_proposedActionCents = proposed,
          sc_limitCents = effectiveDaily, sc_remainingCents = Fin 0,
          sc_reason = NegativeCost proposed \<rparr>
      else if num_eq proposed (Fin 0) then
        \<lparr> sc_allowed = True, sc_currentSpendCents = Fin 0, sc_proposedActionCents = Fin 0,
          sc_limitCents = effectiveDaily, sc_remainingCents = effectiveDaily,
          sc_reason = ZeroCost \<rparr>
      else limit_check (app_note appRegistryId) (dailyTotal userId windowHours) proposed
        effectiveDaily)"

text \<open>
  The monthly cap is the raw override value; a value that is not a number is coerced by the
  comparison and the subtraction, and is reported here as the number it is compared as.
\<close>

definition checkMonthlyLimit ::
  "(string \<Rightarrow> string option \<Rightarrow> number) \<Rightarrow> string \<Rightarrow> number \<Rightarrow> autonomy_settings \<Rightarrow> string option
   \<Rightarrow> spend_check_result" where
  "checkMonthlyLimit monthlyTotal userId proposed settings appRegistryId =
     (let monthlyLimitCents =
            ec_maxMonthlySpendCents (resolveEffectiveCaps settings appRegistryId None) in
      if monthlyLimitCents = JUndefined then
        \<lparr> sc_allowed = True, sc_currentSpendCents = Fin 0, sc_proposedActionCents = proposed,
          sc_limitCents = Fin 0, sc_remainingCents = Fin 0, sc_reason = NoMonthlyCap \<rparr>
      else if num_lt proposed (Fin 0) then
        \<lparr> sc_allowed = False, sc_currentSpendCents = Fin 0, sc_proposedActionCents = proposed,
          sc_limitCents = to_number monthlyLimitCents, sc_remainingCents = Fin 0,
          sc_reason = NegativeCost proposed \<rparr>
      else limit_check (app_note appRegistryId) (monthlyTotal userId appRegistryId) proposed
        (to_number monthlyLimitCents))"

record monthly_spend_summary =
  ms_spentCents :: number
  ms_capCents :: jsval
  ms_percentUsed :: "number option"

fun num_div :: "number \<Rightarrow> rat \<Rightarrow> number" where
  "num_div (Fin a) b = Fin (a / b)"
| "num_div x b = x"

definition percent_of :: "number \<Rightarrow> number \<Rightarrow> number" where
  "percent_of spent cap = (case cap of
     Fin c \<Rightarrow> math_min (Fin 100) (math_round (num_scale 100 (num_div spent c)))
   | _ \<Rightarrow> (if is_finite spent then Fin 0 else NaN))"

definition getMonthlySpendForApp ::
  "(string \<Rightarrow> string option \<Rightarrow> number) \<Rightarrow> string \<Rightarrow> autonomy_settings \<Rightarrow> string
   \<Rightarrow> monthly_spend_summary" where
  "getMonthlySpendForApp monthlyTotal userId settings appRegistryId =
     (let caps = resolveEffectiveCaps settings (Some appRegistryId) None;
          capCents = nullish_or (ec_maxMonthlySpendCents caps) JNull;
          spentCents = monthlyTotal userId (Some appRegistryId) in
      \<lparr> ms_spentCents = spentCents, ms_capCents = capCents,
        ms_percentUsed =
          (if capCents \<noteq> JNull \<and> js_less (JNum (Fin 0)) capCents
           then Some (percent_of spentCents (to_number capCents)) else None) \<rparr>)"

record reconciliation_result =
  rc_actionId :: string
  rc_estimatedCents :: rat
  rc_actualCents :: rat
  rc_varianceCents :: rat
  rc_variancePercent :: rat
  rc_overEstimated :: bool

definition reconcile_spend ::
  "ledger \<Rightarrow> string \<Rightarrow> int \<Rightarrow> int \<Rightarrow> int \<Rightarrow> reconciliation_result \<times> ledger" where
  "reconcile_spend db actionId estimatedCents actualCents now =
     (let db' = snd (reconcile_record db actionId actualCents now);
          variance = actualCents - estimatedCents in
      (\<lparr> rc_actionId = actionId, rc_estimatedCents = of_int estimatedCents,
         rc_actualCents = of_int actualCents, rc_varianceCents = of_int variance,
         rc_variancePercent =
           (if 0 < estimatedCents then of_int variance / of_int estimatedCents * 100 else 0),
         rc_overEstimated = (variance < 0) \<rparr>, db'))"

section \<open>Caps only narrow\<close>

lemma clampDown_le:
  "g \<noteq> NaN \<Longrightarrow> clampDown g v \<noteq> NaN \<Longrightarrow> num_le (clampDown g v) g"
  using math_min_le [of g "to_number v"]
  by (auto simp: clampDown_def num_le_refl split: if_splits)

lemma base_caps_le:
  "as_maxDailySpendCents s \<noteq> NaN \<Longrightarrow>
   as_maxDailySpendCents (applyInterpretedCaps s caps) \<noteq> NaN \<Longrightarrow>
   num_le (as_maxDailySpendCents (applyInterpretedCaps s caps)) (as_maxDailySpendCents s)"
  "as_maxSpendPerActionCents s \<noteq> NaN \<Longrightarrow>
   as_maxSpendPerActionCents (applyInterpretedCaps s caps) \<noteq> NaN \<Longrightarrow>
   num_le (as_maxSpendPerActionCents (applyInterpretedCaps s caps)) (as_maxSpendPerActionCents s)"
  by (simp_all add: applyInterpretedCaps_def clampDown_le)

text \<open>
  whatever a risk profile and a per-app override say, the caps in force never exceed the
  user's own (provided no value in them fails to be a number), and the duty to approve
  irreversible actions is never lifted.
\<close>

theorem caps_only_narrow:
  assumes "as_maxSpendPerActionCents s \<noteq> NaN" "as_maxDailySpendCents s \<noteq> NaN"
    and "ec_maxSpendPerActionCents (resolveEffectiveCaps s app caps) \<noteq> NaN"
    and "ec_maxDailySpendCents (resolveEffectiveCaps s app caps) \<noteq> NaN"
  shows "num_le (ec_maxSpendPerActionCents (resolveEffectiveCaps s app caps))
           (as_maxSpendPerActionCents s) \<and>
         num_le (ec_maxDailySpendCents (resolveEffectiveCaps s app caps))
           (as_maxDailySpendCents s) \<and>
         (as_requireApprovalForIrreversible s \<longrightarrow>
           ec_requireApprovalForIrreversible (resolveEffectiveCaps s app caps))"
proof -
  define base where "base = (case caps of None \<Rightarrow> s | Some c \<Rightarrow> applyInterpretedCaps s c)"
  have nan: "clampDown NaN v = NaN" for v by (simp add: clampDown_def)
  have base_ok: "as_maxSpendPerActionCents base \<noteq> NaN" "as_maxDailySpendCents base \<noteq> NaN"
    using assms(3,4) nan by (auto simp: resolveEffectiveCaps_def Let_def base_def)
  have "num_le (as_maxSpendPerActionCents base) (as_maxSpendPerActionCents s)"
    "num_le (as_maxDailySpendCents base) (as_maxDailySpendCents s)"
    using assms(1,2) base_ok base_caps_le by (auto simp: base_def num_le_refl split: option.splits)
  moreover have "num_le (ec_maxSpendPerActionCents (resolveEffectiveCaps s app caps))
      (as_maxSpendPerActionCents base)"
    "num_le (ec_maxDailySpendCents (resolveEffectiveCaps s app caps)) (as_maxDailySpendCents base)"
    using assms(3,4) base_ok clampDown_le
    by (auto simp: resolveEffectiveCaps_def Let_def simp flip: base_def)
  moreover have "as_requireApprovalForIrreversible s \<longrightarrow>
      ec_requireApprovalForIrreversible (resolveEffectiveCaps s app caps)"
    by (auto simp: resolveEffectiveCaps_def applyInterpretedCaps_def Let_def split: option.splits)
  ultimately show ?thesis using num_le_trans by blast
qed

section \<open>Interface: a store that checks and records at once\<close>

text \<open>
  What the tracker relies on: a check-and-record accepts exactly when the window's total and the
  cost stay within the limit, a refusal changes nothing, an acceptance adds the cost to the
  user's window and touches nobody else's, and with time a window only loses records. \<open>valid s t\<close>
  says that the store holds no record after time t and none with a negative charge.
\<close>

locale spend_store =
  fixes total :: "'s \<Rightarrow> string \<Rightarrow> int \<Rightarrow> int"
    and attempt :: "'s \<Rightarrow> 'i \<Rightarrow> int \<Rightarrow> int \<Rightarrow> (bool \<times> int) \<times> 's"
    and user :: "'i \<Rightarrow> string" and cost :: "'i \<Rightarrow> int" and proper :: "'i \<Rightarrow> bool"
    and valid :: "'s \<Rightarrow> int \<Rightarrow> bool"
  assumes accepts: "fst (fst (attempt s i limit t)) \<longleftrightarrow> total s (user i) t + cost i \<le> limit"
    and refusal: "\<not> fst (fst (attempt s i limit t)) \<Longrightarrow> snd (attempt s i limit t) = s"
    and adds: "fst (fst (attempt s i limit t)) \<Longrightarrow> proper i \<Longrightarrow>
      total (snd (attempt s i limit t)) (user i) t = total s (user i) t + cost i"
    and others: "u \<noteq> user i \<Longrightarrow> total (snd (attempt s i limit t)) u t' = total s u t'"
    and keeps_valid: "valid s t \<Longrightarrow> proper i \<Longrightarrow> valid (snd (attempt s i limit t)) t"
    and valid_later: "valid s t \<Longrightarrow> t \<le> t' \<Longrightarrow> valid s t'"
    and aging: "valid s t \<Longrightarrow> t \<le> t' \<Longrightarrow> total s u t' \<le> total s u t"
begin

text \<open>A run of attempts, each with the time that passed since the previous one.\<close>

fun attempts :: "int \<Rightarrow> 's \<Rightarrow> int \<Rightarrow> ('i \<times> nat) list \<Rightarrow> 's \<times> int" where
  "attempts limit s t [] = (s, t)"
| "attempts limit s t ((i, dt) # xs) =
     attempts limit (snd (attempt s i limit (t + int dt))) (t + int dt) xs"

lemma attempt_within:
  assumes "valid s t" "\<And>v. total s v t \<le> limit" "proper i" "t \<le> t'"
  shows "valid (snd (attempt s i limit t')) t' \<and>
    total (snd (attempt s i limit t')) v t' \<le> limit"
proof -
  have v: "valid s t'" using valid_later assms(1,4) by blast
  have old: "total s v t' \<le> limit" for v
    using aging [OF assms(1,4), of v] assms(2) [of v] by simp
  have "total (snd (attempt s i limit t')) v t' \<le> limit"
  proof (cases "v = user i")
    case True
    then show ?thesis
      using accepts adds refusal old assms(3) by (cases "fst (fst (attempt s i limit t'))") auto
  next
    case False
    then show ?thesis using others old by simp
  qed
  then show ?thesis using keeps_valid v assms(3) by blast
qed

lemma attempts_within:
  "valid s t \<Longrightarrow> (\<And>v. total s v t \<le> limit) \<Longrightarrow> list_all (proper \<circ> fst) xs \<Longrightarrow>
   (case attempts limit s t xs of (s', t') \<Rightarrow> valid s' t' \<and> total s' v t' \<le> limit)"
proof (induction xs arbitrary: s t)
  case (Cons x xs)
  obtain i dt where x: "x = (i, dt)" by fastforce
  have "proper i" using Cons.prems(3) x by simp
  then have "valid (snd (attempt s i limit (t + int dt))) (t + int dt) \<and>
      total (snd (attempt s i limit (t + int dt))) v (t + int dt) \<le> limit" for v
    using attempt_within Cons.prems(1,2) by simp
  then show ?case using Cons.IH Cons.prems(3) by (simp add: x)
qed simp

end

section \<open>The ledger is such a store\<close>

definition ledger_valid :: "ledger \<Rightarrow> int \<Rightarrow> bool" where
  "ledger_valid db t \<longleftrightarrow> (\<forall>r \<in> set db. 0 \<le> charged r \<and> sr_recordedAt r \<le> t)"

text \<open>The port's input has no actual cost; the cost is not negative.\<close>

definition port_input :: "create_spend_input \<Rightarrow> bool" where
  "port_input i \<longleftrightarrow> cs_actualCostCents i = None \<and> 0 \<le> cs_estimatedCostCents i"

lemma total_create:
  "getDailyTotal (create_spend db i now) u w now' =
     getDailyTotal db u w now' +
     (if cs_userId i = u \<and> now' - hours_ms w \<le> now then charged (spend_row i now) else 0)"
  by (simp add: getDailyTotal_def create_spend_def spend_row_def)

lemma sum_filter_subset:
  "(\<And>x. x \<in> set xs \<Longrightarrow> P x \<Longrightarrow> Q x) \<Longrightarrow> (\<And>x. x \<in> set xs \<Longrightarrow> 0 \<le> f x) \<Longrightarrow>
   sum_list (map f (filter P xs)) \<le> sum_list (map f (filter Q xs))"
  for f :: "'a \<Rightarrow> int"
  by (induction xs) (auto simp: add_mono add_increasing)

lemma total_aging:
  "ledger_valid db t \<Longrightarrow> t \<le> t' \<Longrightarrow> getDailyTotal db u w t' \<le> getDailyTotal db u w t"
  unfolding getDailyTotal_def by (rule sum_filter_subset) (auto simp: ledger_valid_def)

lemma charged_port: "port_input i \<Longrightarrow> charged (spend_row i t) = cs_estimatedCostCents i"
  by (simp add: charged_def spend_row_def port_input_def)

text \<open>The tracker's default window is 24 hours.\<close>

definition day_total :: "ledger \<Rightarrow> string \<Rightarrow> int \<Rightarrow> int" where
  "day_total db u t = getDailyTotal db u 24 t"

definition day_attempt ::
  "ledger \<Rightarrow> create_spend_input \<Rightarrow> int \<Rightarrow> int \<Rightarrow> (bool \<times> int) \<times> ledger" where
  "day_attempt db i limit t = checkAndRecordSpend db i limit 24 t"

interpretation ledger: spend_store day_total day_attempt cs_userId cs_estimatedCostCents
  port_input ledger_valid
proof unfold_locales
  fix s i limit t u t'
  let ?a = "day_attempt s i limit t"
  note defs = day_attempt_def day_total_def checkAndRecordSpend_def
  show "fst (fst ?a) \<longleftrightarrow> day_total s (cs_userId i) t + cs_estimatedCostCents i \<le> limit"
    by (auto simp: defs Let_def)
  show "\<not> fst (fst ?a) \<Longrightarrow> snd ?a = s"
    by (auto simp: defs Let_def split: if_splits)
  show "fst (fst ?a) \<Longrightarrow> port_input i \<Longrightarrow>
      day_total (snd ?a) (cs_userId i) t = day_total s (cs_userId i) t + cs_estimatedCostCents i"
    by (auto simp: defs Let_def total_create hours_ms_def charged_port split: if_splits)
  show "u \<noteq> cs_userId i \<Longrightarrow> day_total (snd ?a) u t' = day_total s u t'"
    by (auto simp: defs Let_def total_create)
  show "ledger_valid s t \<Longrightarrow> port_input i \<Longrightarrow> ledger_valid (snd ?a) t"
    using charged_port [of i t]
    by (auto simp: defs Let_def ledger_valid_def create_spend_def port_input_def spend_row_def)
  show "ledger_valid s t \<Longrightarrow> t \<le> t' \<Longrightarrow> ledger_valid s t'"
    by (auto simp: ledger_valid_def)
  show "ledger_valid s t \<Longrightarrow> t \<le> t' \<Longrightarrow> day_total s u t' \<le> day_total s u t"
    unfolding day_total_def by (rule total_aging)
qed

text \<open>The run of attempts written over the ledger's own operation.\<close>

fun spend_run :: "int \<Rightarrow> ledger \<Rightarrow> int \<Rightarrow> (create_spend_input \<times> nat) list \<Rightarrow> ledger \<times> int" where
  "spend_run limit db t [] = (db, t)"
| "spend_run limit db t ((i, dt) # xs) =
     spend_run limit (snd (checkAndRecordSpend db i limit 24 (t + int dt))) (t + int dt) xs"

lemma spend_run_eq: "spend_run limit db t xs = ledger.attempts limit db t xs"
  by (induction limit db t xs rule: spend_run.induct) (simp_all flip: day_attempt_def)

text \<open>
  C23: from an empty ledger, any sequence of check-and-record calls of any users, at any
  distances in time, leaves every user's rolling 24 hour total within the limit.
\<close>

theorem ledger_within_limit:
  assumes "0 \<le> limit" and "list_all (port_input \<circ> fst) xs"
  shows "getDailyTotal (fst (spend_run limit [] t xs)) u 24 (snd (spend_run limit [] t xs)) \<le> limit"
proof -
  have start: "ledger_valid [] t" "\<And>v. day_total [] v t \<le> limit"
    using assms(1) by (simp_all add: ledger_valid_def day_total_def getDailyTotal_def)
  show ?thesis
    using ledger.attempts_within [OF start assms(2), of u]
    by (auto simp: spend_run_eq day_total_def split: prod.splits)
qed

definition charge :: "string \<Rightarrow> int \<Rightarrow> create_spend_input" where
  "charge u c = \<lparr> cs_userId = u, cs_actionId = ''a'', cs_decisionId = ''d'',
     cs_estimatedCostCents = c, cs_actualCostCents = None, cs_registryId = None \<rparr>"

theorem ledger_within_limit_witness:
  "getDailyTotal (fst (spend_run 100 [] 0 [(charge ''u'' 60, 0), (charge ''u'' 60, 5)])) ''u'' 24
     (snd (spend_run 100 [] 0 [(charge ''u'' 60, 0), (charge ''u'' 60, 5)])) \<le> 100"
  by (rule ledger_within_limit) (simp_all add: charge_def port_input_def)

text \<open>
  the daily check allows a positive cost exactly when the total after the action does not
  exceed the cap in force; a negative cost is refused and a zero cost passes.
\<close>

theorem daily_check_iff:
  "sc_allowed (checkDailyLimit dailyTotal u (Fin c) s w app caps) \<longleftrightarrow>
     c = 0 \<or> (0 < c \<and> \<not> num_lt (ec_maxDailySpendCents (resolveEffectiveCaps s app caps))
        (num_add (dailyTotal u w) (Fin c)))"
  by (auto simp: checkDailyLimit_def limit_check_def Let_def)

text \<open>
  an override whose daily cap is a string that is not a number makes the cap NaN, every
  comparison with it fails, and the daily check lets any cost pass.
\<close>

theorem malformed_override_lifts_limit:
  assumes "as_perAppOverrides s = Some ovr" and "app \<noteq> []"
    and "get ovr app = JObj ob" and "get ob ''maxDailySpendCents'' = JStr v"
    and "string_to_number v = NaN" and "0 < c"
  shows "sc_allowed (checkDailyLimit dailyTotal u (Fin c) s w (Some app) None)"
proof -
  have "ec_maxDailySpendCents (resolveEffectiveCaps s (Some app) None) = NaN"
    using assms(1-5)
    by (simp add: resolveEffectiveCaps_def override_for_def prop_of_def clampDown_def Let_def)
  then show ?thesis using assms(6) by (simp add: checkDailyLimit_def limit_check_def Let_def)
qed

definition capped_settings :: "autonomy_settings" where
  "capped_settings =
     \<lparr> as_maxSpendPerActionCents = Fin 5000, as_maxDailySpendCents = Fin 10000,
       as_allowedDomains = [], as_blockedDomains = [], as_requireApprovalForIrreversible = True,
       as_quietHoursStart = None, as_quietHoursEnd = None,
       as_perAppOverrides = Some [(''app'', JObj [(''maxDailySpendCents'', JStr ''ten'')])],
       as_paused = None, as_pausedAt = None, as_pausedReason = None \<rparr>"

lemma ten_not_a_number: "string_to_number ''ten'' = NaN"
  by code_simp

theorem malformed_override_lifts_limit_witness:
  "sc_allowed (checkDailyLimit (\<lambda>_ _. Fin 1000000) ''u'' (Fin 999) capped_settings 24 (Some ''app'') None)"
  by (rule malformed_override_lifts_limit
      [where ovr = "[(''app'', JObj [(''maxDailySpendCents'', JStr ''ten'')])]"
        and ob = "[(''maxDailySpendCents'', JStr ''ten'')]" and v = "''ten''"])
    (simp_all add: capped_settings_def ten_not_a_number)

theorem caps_only_narrow_witness:
  "num_le (ec_maxSpendPerActionCents (resolveEffectiveCaps capped_settings None
     (Some [(''maxDailySpendCents'', JNum (Fin 700))]))) (Fin 5000) \<and>
   num_le (ec_maxDailySpendCents (resolveEffectiveCaps capped_settings None
     (Some [(''maxDailySpendCents'', JNum (Fin 700))]))) (Fin 10000) \<and>
   ec_requireApprovalForIrreversible (resolveEffectiveCaps capped_settings None
     (Some [(''maxDailySpendCents'', JNum (Fin 700))]))"
  using caps_only_narrow [of capped_settings None "Some [(''maxDailySpendCents'', JNum (Fin 700))]"]
  by (simp add: capped_settings_def resolveEffectiveCaps_def applyInterpretedCaps_def
      clampDown_def override_for_def prop_of_def Let_def)

end
