(* ===== verification/CandidateGenerators.thy ===== *)
theory CandidateGenerators
  imports PolicyRouting
begin

text \<open>
  The built-in candidate generators of \<open>packages/decision-engine/src/decision-maker.ts\<close>, one
  definition per method, with the helpers for labels and preferences. Identifiers come from the
  supply \<open>uid\<close>; the n-th candidate takes the n-th identifier. The grocery generator calls
  \<open>reduce\<close> on a raw value and reads fields of its elements, which can throw: it returns an option,
  and None is the thrown type error. The descriptions are the code's own, since the risk
  assessor searches them for keywords.
\<close>

section \<open>Helpers\<close>

type_synonym uid_supply = "nat \<Rightarrow> string"

definition candidate ::
  "string \<Rightarrow> decision_object \<Rightarrow> string \<Rightarrow> string \<Rightarrow> string \<Rightarrow> jsobj \<Rightarrow> number \<Rightarrow> bool
   \<Rightarrow> confidence_level \<Rightarrow> string \<Rightarrow> candidate_action" where
  "candidate i d actionType description domain parameters cost reversible confidence why =
     \<lparr> ca_id = i, ca_decisionId = do_id d, ca_actionType = actionType,
       ca_description = description, ca_domain = domain, ca_parameters = parameters,
       ca_estimatedCostCents = cost, ca_costZeroIntent = None, ca_reversible = reversible,
       ca_confidence = confidence, ca_reasoning = why, ca_provenance = None,
       ca_capabilityProvenanceNodeId = None \<rparr>"

definition raw :: "decision_object \<Rightarrow> string \<Rightarrow> jsval" where
  "raw d k = get (do_rawData d) k"

definition getPreferenceConfidence :: "twin_profile \<Rightarrow> string \<Rightarrow> string \<Rightarrow> confidence_level" where
  "getPreferenceConfidence profile domain key =
     (case find (\<lambda>p. pf_domain p = domain \<and> pf_key p = key) (tp_preferences profile) of
        Some pref \<Rightarrow> pf_confidence pref
      | None \<Rightarrow> (case find (\<lambda>i. inf_domain i = domain \<and> inf_key i = key) (tp_inferences profile) of
            Some inference \<Rightarrow> inf_confidence inference
          | None \<Rightarrow> C_SPECULATIVE))"

section \<open>Labels\<close>

record sender_label_hint =
  slh_label :: string
  slh_count :: int

definition GMAIL_SYSTEM_LABELS :: "string list" where
  "GMAIL_SYSTEM_LABELS =
     [''INBOX'', ''UNREAD'', ''STARRED'', ''IMPORTANT'', ''SENT'', ''DRAFT'',
      ''SPAM'', ''TRASH'', ''CHAT'']"

definition LABEL_HINT_MIN_COUNT :: int where
  "LABEL_HINT_MIN_COUNT = 2"

definition user_label :: "sender_label_hint \<Rightarrow> bool" where
  "user_label h \<longleftrightarrow> slh_label h \<notin> set GMAIL_SYSTEM_LABELS
     \<and> \<not> starts_with (slh_label h) ''CATEGORY_''"

definition subject_labels :: "string \<Rightarrow> string list" where
  "subject_labels subject =
     (let has = str_includes subject;
          labels =
            (if has ''invoice'' \<or> has ''receipt'' then [''finance''] else [])
            @ (if has ''meeting'' \<or> has ''invite'' then [''meetings''] else [])
            @ (if has ''newsletter'' \<or> has ''digest'' then [''newsletters''] else [])
            @ (if has ''update'' \<or> has ''notification'' then [''notifications''] else [])
            @ (if has ''urgent'' \<or> has ''asap'' then [''urgent''] else []) in
      if labels = [] then [''inbox''] else labels)"

definition inferLabels :: "decision_object \<Rightarrow> sender_label_hint list \<Rightarrow> string list" where
  "inferLabels d hints =
     (let fromHints = filter user_label (filter (\<lambda>h. LABEL_HINT_MIN_COUNT \<le> slh_count h) hints) in
      if fromHints \<noteq> [] then map slh_label (take 2 fromHints)
      else subject_labels (to_lower (to_str (nullish_or (raw d ''subject'') (JStr [])))))"

definition top_hint :: "sender_label_hint list \<Rightarrow> sender_label_hint option" where
  "top_hint hints = head (sort_key (\<lambda>h. - slh_count h) (filter user_label hints))"

definition labelConfidence :: "sender_label_hint list \<Rightarrow> confidence_level" where
  "labelConfidence hints = (case top_hint hints of
     None \<Rightarrow> C_LOW
   | Some best \<Rightarrow> if 5 \<le> slh_count best then C_HIGH
       else if LABEL_HINT_MIN_COUNT \<le> slh_count best then C_MODERATE else C_LOW)"

definition no_history_text :: string where
  "no_history_text = ''Organizing email with labels based on subject keywords (no sender history).''"

definition labelReasoning :: "sender_label_hint list \<Rightarrow> string" where
  "labelReasoning hints = (case top_hint hints of
     None \<Rightarrow> no_history_text
   | Some best \<Rightarrow> if LABEL_HINT_MIN_COUNT \<le> slh_count best
       then ''Mail from this sender has been labelled '' @ [CHR 0x22] @ slh_label best @ [CHR 0x22]
         @ '' '' @ int_str (slh_count best) @ '' time(s) before.''
       else no_history_text)"

text \<open>
  \<open>normalizeSenderAddress\<close> of \<open>packages/core/src/email-normalize.ts\<close>; \<open>angle_part\<close> is the group of
  the match of \<open>/<([^>]+)>/\<close>.
\<close>

fun angle_part :: "string \<Rightarrow> string option" where
  "angle_part [] = None"
| "angle_part (c # s) =
     (let g = takeWhile (\<lambda>x. x \<noteq> CHR ''>'') s in
      if c = CHR ''<'' \<and> g \<noteq> [] \<and> length g < length s then Some g else angle_part s)"

definition normalizeSenderAddress :: "jsval \<Rightarrow> string" where
  "normalizeSenderAddress v = (case v of
     JStr s \<Rightarrow>
       (let trimmed = trim s;
            cand = (case angle_part trimmed of Some g \<Rightarrow> g | None \<Rightarrow> trimmed);
            addr = to_lower (trim cand) in
        if str_includes addr ''@'' then addr else [])
   | _ \<Rightarrow> [])"

text \<open>
  The label port; None is a lookup that throws. A missing port is None as a whole.
\<close>

record label_port =
  lp_topLabelsForSender :: "string \<Rightarrow> string \<Rightarrow> int \<Rightarrow> sender_label_hint list option"
  lp_topLabelsForListId :: "string \<Rightarrow> string \<Rightarrow> int \<Rightarrow> sender_label_hint list option"

definition usable :: "sender_label_hint list \<Rightarrow> bool" where
  "usable hints = list_ex (\<lambda>h. LABEL_HINT_MIN_COUNT \<le> slh_count h) hints"

definition fetchSenderLabelHints ::
  "label_port option \<Rightarrow> string \<Rightarrow> decision_object \<Rightarrow> sender_label_hint list" where
  "fetchSenderLabelHints port userId d = (case port of
     None \<Rightarrow> []
   | Some p \<Rightarrow>
      (let sender = normalizeSenderAddress (raw d ''from'');
           listId = trim (to_str (nullish_or (raw d ''listId'') (JStr []))) in
       if sender = [] \<and> listId = [] then []
       else (case (if sender \<noteq> [] then lp_topLabelsForSender p userId sender 5 else Some []) of
           None \<Rightarrow> []
         | Some senderHints \<Rightarrow>
             if usable senderHints then senderHints
             else if listId = [] then senderHints
             else (case lp_topLabelsForListId p userId listId 5 of
                 None \<Rightarrow> []
               | Some listHints \<Rightarrow> if usable listHints then listHints else senderHints))))"

section \<open>Awareness mail\<close>

definition AWARENESS_TIERS :: "string list" where
  "AWARENESS_TIERS =
     [''inbox_newsletter'', ''inbox_automated'', ''user_sent_originated'', ''user_sent_reply'']"

definition authoring_tier :: "decision_object \<Rightarrow> jsval" where
  "authoring_tier d =
     (let tier = raw d ''authoringTier''; data = raw d ''data'' in
      if is_string tier then tier
      else if truthy data then prop_of data ''authoringTier'' else tier)"

definition isAwarenessTierEmail :: "decision_object \<Rightarrow> bool" where
  "isAwarenessTierEmail d =
     (case authoring_tier d of JStr s \<Rightarrow> s \<in> set AWARENESS_TIERS | _ \<Rightarrow> False)"

definition OUTBOUND_REPLY_ACTIONS :: "string list" where
  "OUTBOUND_REPLY_ACTIONS =
     [''send_reply'', ''reply_email'', ''send_email'', ''forward_email'', ''draft_email'']"

definition stripAwarenessTierReplies ::
  "candidate_action list \<Rightarrow> decision_object \<Rightarrow> candidate_action list" where
  "stripAwarenessTierReplies cs d =
     (if \<not> isAwarenessTierEmail d then cs
      else filter (\<lambda>c. ca_actionType c \<notin> set OUTBOUND_REPLY_ACTIONS) cs)"

text \<open>The em dash of the texts, as its UTF-8 bytes.\<close>

definition EM_DASH :: string where
  "EM_DASH = [CHR 0xE2, CHR 0x80, CHR 0x94]"

section \<open>Generators\<close>

definition generateSecurityAlertCandidates ::
  "uid_supply \<Rightarrow> decision_object \<Rightarrow> candidate_action list" where
  "generateSecurityAlertCandidates uid d =
     [candidate (uid 0) d ''escalate_to_user''
       (''Review this security alert in the provider'' @ [CHR 0x27] @ ''s official app or website. '' @
        ''Do not click links in the message.'')
       (do_domain d) [(''summary'', JStr (do_summary d)), (''urgency'', JStr (urgency_str (do_urgency d))), (''safeAction'', JStr ''open_provider_directly'')]
       (Fin 0) True C_HIGH
       (''Security alerts are inbound and untrusted (phishing surface). Surfaced '' @
        ''for human review only '' @ EM_DASH @ '' never auto-executed, never via links in the message.'')]"

definition email_id :: "decision_object \<Rightarrow> jsval" where
  "email_id d =
     (if is_string (raw d ''emailId'') then raw d ''emailId''
      else if is_string (raw d ''messageId'') then raw d ''messageId'' else JUndefined)"

definition string_or_empty :: "jsval \<Rightarrow> jsval" where
  "string_or_empty v = (if is_string v then v else JStr [])"

definition generateEmailTriageCandidates ::
  "uid_supply \<Rightarrow> decision_object \<Rightarrow> twin_profile \<Rightarrow> sender_label_hint list \<Rightarrow> candidate_action list" where
  "generateEmailTriageCandidates uid d profile hints =
     [candidate (uid 0) d ''archive_email''
       ''Archive this email for later review.''
       ''email'' [(''emailId'', email_id d), (''folder'', JStr ''archive'')]
       (Fin 0) True (getPreferenceConfidence profile ''email'' ''auto_archive'')
       ''Low-risk action to keep inbox clean.'',
      candidate (uid 1) d ''label_email''
       ''Apply appropriate labels to this email.''
       ''email'' [(''emailId'', email_id d), (''labels'', JArr (map JStr (inferLabels d hints)))]
       (Fin 0) True (labelConfidence hints)
       (labelReasoning hints)]
     @ (if truthy (raw d ''requiresResponse'') \<and> \<not> isAwarenessTierEmail d then
      [candidate (uid 2) d ''send_reply''
       ''Send a brief acknowledgment reply.''
       ''email'' [(''emailId'', email_id d), (''replyType'', JStr ''acknowledgment''), (''replyToFrom'', string_or_empty (raw d ''from'')), (''replyToSubject'', string_or_empty (raw d ''subject''))]
       (Fin 0) False C_LOW
       ''Sending a reply is irreversible but may be expected.'']
     else [])"

definition generateCalendarCandidates ::
  "uid_supply \<Rightarrow> decision_object \<Rightarrow> twin_profile \<Rightarrow> candidate_action list" where
  "generateCalendarCandidates uid d profile =
     [candidate (uid 0) d ''accept_invite''
       ''Accept this calendar invitation.''
       ''calendar'' [(''eventId'', raw d ''eventId'')]
       (Fin 0) True (getPreferenceConfidence profile ''calendar'' ''auto_accept'')
       ''Accepting the invite commits time but can be changed later.'',
      candidate (uid 1) d ''decline_invite''
       ''Decline this calendar invitation.''
       ''calendar'' [(''eventId'', raw d ''eventId'')]
       (Fin 0) False (getPreferenceConfidence profile ''calendar'' ''auto_decline'')
       ''Declining may affect the relationship with the organizer.'',
      candidate (uid 2) d ''propose_alternative''
       ''Propose an alternative time for this meeting.''
       ''calendar'' [(''eventId'', raw d ''eventId''), (''suggestedTimes'', JArr [])]
       (Fin 0) True C_LOW
       ''Proposing alternatives is collaborative but needs user input.'']"

definition chat_intent :: "decision_object \<Rightarrow> string \<Rightarrow> bool" where
  "chat_intent d intent \<longleftrightarrow> strict_eq (raw d ''intent'') (JStr intent)
     \<and> strict_eq (raw d ''source'') (JStr ''chat'')"

definition generateCalendarInviteCandidates ::
  "uid_supply \<Rightarrow> decision_object \<Rightarrow> twin_profile \<Rightarrow> candidate_action list" where
  "generateCalendarInviteCandidates uid d profile =
     (if chat_intent d ''create_event'' then
     [candidate (uid 0) d ''escalate_to_user''
       (''You asked to schedule a meeting '' @ EM_DASH @ '' confirm the time and attendees to create it.'')
       ''calendar'' [(''intent'', JStr ''create_event''), (''request'', JStr (do_summary d))]
       (Fin 0) True C_HIGH
       ''You explicitly asked to schedule an event; surfacing it for you to confirm the details.'']
     else
     [candidate (uid 0) d ''accept_invite''
       ''Accept this calendar invitation.''
       ''calendar'' [(''eventId'', raw d ''eventId'')]
       (Fin 0) True (getPreferenceConfidence profile ''calendar'' ''auto_accept'')
       ''Accepting the invite commits time but can be changed later.'',
      candidate (uid 1) d ''tentative_accept''
       ''Tentatively accept this calendar invitation.''
       ''calendar'' [(''eventId'', raw d ''eventId'')]
       (Fin 0) True (getPreferenceConfidence profile ''calendar'' ''default_response'')
       ''Tentative acceptance signals interest without full commitment.'',
      candidate (uid 2) d ''decline_invite''
       ''Decline this calendar invitation.''
       ''calendar'' [(''eventId'', raw d ''eventId'')]
       (Fin 0) False (getPreferenceConfidence profile ''calendar'' ''auto_decline'')
       ''Declining may affect the relationship with the organizer.''])"

definition generateCalendarUpdateCandidates ::
  "uid_supply \<Rightarrow> decision_object \<Rightarrow> twin_profile \<Rightarrow> candidate_action list" where
  "generateCalendarUpdateCandidates uid d profile =
     (let asked = chat_intent d ''decline_event''; k = (if asked then 1 else 0) in
      (if asked then
      [candidate (uid 0) d ''escalate_to_user''
       (''You asked to decline a meeting '' @ EM_DASH @ '' confirm which event to decline.'')
       ''calendar'' [(''intent'', JStr ''decline_event''), (''eventId'', raw d ''eventId''), (''request'', JStr (do_summary d))]
       (Fin 0) True C_HIGH
       ''You explicitly asked to decline a meeting; surfacing it for you to confirm the specific event.'']
      else [])
      @ [candidate (uid k) d ''acknowledge''
       ''Acknowledge this calendar update. No action required.''
       ''calendar'' [(''eventId'', raw d ''eventId'')]
       (Fin 0) True C_HIGH
       ''Calendar updates are informational and rarely need action.'',
      candidate (uid (Suc k)) d ''dismiss''
       ''Dismiss this calendar notification.''
       ''calendar'' [(''eventId'', raw d ''eventId'')]
       (Fin 0) True C_MODERATE
       ''Dismissing clears the notification without further action.''])"

text \<open>\<open>(cost / 100).toFixed(2)\<close> for a whole number of cents below 10^23.\<close>

definition two_places :: "int \<Rightarrow> string" where
  "two_places c = (let n = \<bar>c\<bar> in
     (if c < 0 then ''-'' else []) @ int_str (n div 100) @ ''.''
       @ [char_of (48 + nat (n mod 100 div 10)), char_of (48 + nat (n mod 10))])"

fun dollars :: "number \<Rightarrow> string" where
  "dollars (Fin c) = two_places \<lfloor>c\<rfloor>"
| "dollars x = num_str x"

definition subscription_cost :: "decision_object \<Rightarrow> number" where
  "subscription_cost d =
     (let rawAmount = to_number
            (nullish_or (nullish_or (raw d ''amount'') (raw d ''costCents'')) (JNum (Fin 0))) in
      if num_lt (Fin 0) rawAmount \<and> num_lt rawAmount (Fin 100)
      then math_round (num_scale 100 rawAmount) else math_round rawAmount)"

definition generateSubscriptionCandidates ::
  "uid_supply \<Rightarrow> decision_object \<Rightarrow> twin_profile \<Rightarrow> candidate_action list" where
  "generateSubscriptionCandidates uid d profile =
     [candidate (uid 0) d ''renew_subscription''
       (''Renew subscription for $'' @ dollars (subscription_cost d) @ ''.'')
       ''subscriptions'' [(''subscriptionId'', raw d ''subscriptionId''), (''amount'', JNum (subscription_cost d))]
       (subscription_cost d) False (getPreferenceConfidence profile ''subscriptions'' ''auto_renew'')
       ''Renewal maintains service continuity but involves spending.'',
      candidate (uid 1) d ''cancel_subscription''
       ''Cancel this subscription.''
       ''subscriptions'' [(''subscriptionId'', raw d ''subscriptionId'')]
       (Fin 0) False C_LOW
       ''Cancellation saves money but may lose access to the service.'',
      candidate (uid 2) d ''snooze_reminder''
       ''Snooze this renewal reminder for 3 days.''
       ''subscriptions'' [(''subscriptionId'', raw d ''subscriptionId''), (''snoozeDays'', JNum (Fin 3))]
       (Fin 0) True C_MODERATE
       ''Deferring the decision is low-risk if the deadline allows it.'']"

text \<open>
  One element's price: reading a field of null or undefined throws; a value that is not a number,
  or zero, counts as 300 cents.
\<close>

definition item_price :: "jsval \<Rightarrow> number option" where
  "item_price item =
     (if item = JUndefined \<or> item = JNull then None
      else (let n = to_number (prop_of item ''priceCents'') in
        Some (if n = Fin 0 \<or> n = NaN then Fin 300 else n)))"

fun sum_prices :: "number \<Rightarrow> jsval list \<Rightarrow> number option" where
  "sum_prices acc [] = Some acc"
| "sum_prices acc (item # items) = (case item_price item of
     None \<Rightarrow> None
   | Some p \<Rightarrow> sum_prices (num_add acc p) items)"

text \<open>The raw value when it is an array; \<open>reduce\<close> is not a function of any other value.\<close>

definition grocery_items :: "decision_object \<Rightarrow> jsval list option" where
  "grocery_items d = (case nullish_or (raw d ''items'') (JArr []) of
     JArr vs \<Rightarrow> Some vs | _ \<Rightarrow> None)"

definition generateGroceryCandidates ::
  "uid_supply \<Rightarrow> decision_object \<Rightarrow> twin_profile \<Rightarrow> candidate_action list option" where
  "generateGroceryCandidates uid d profile =
     Option.bind (grocery_items d) (\<lambda>items.
     Option.bind (sum_prices (Fin 0) items) (\<lambda>estimatedCost. Some
      [candidate (uid 0) d ''place_order''
       (''Reorder '' @ int_str (int (length items)) @ '' grocery item(s).'')
       ''shopping'' [(''items'', JArr items), (''deliveryPreference'', JStr ''standard'')]
       estimatedCost True (getPreferenceConfidence profile ''shopping'' ''auto_reorder'')
       ''Reordering familiar items is routine if preferences are established.'',
      candidate (uid 1) d ''add_to_list''
       (''Add '' @ int_str (int (length items)) @ '' item(s) to the shopping list.'')
       ''shopping'' [(''items'', JArr items)]
       (Fin 0) True C_HIGH
       ''Adding to the list is zero-cost and fully reversible.'']))"

definition generateTravelCandidates ::
  "uid_supply \<Rightarrow> decision_object \<Rightarrow> twin_profile \<Rightarrow> candidate_action list" where
  "generateTravelCandidates uid d profile =
     [candidate (uid 0) d ''book_travel''
       ''Book this travel arrangement.''
       ''travel'' [(''destination'', raw d ''destination''), (''dates'', raw d ''dates''), (''type'', raw d ''travelType'')]
       (to_number (nullish_or (raw d ''costCents'') (JNum (Fin 0)))) False (getPreferenceConfidence profile ''travel'' ''auto_book'')
       ''Travel booking is typically high-cost and irreversible.'',
      candidate (uid 1) d ''save_option''
       ''Save this travel option for later review.''
       ''travel'' [(''destination'', raw d ''destination''), (''details'', JObj (do_rawData d))]
       (Fin 0) True C_HIGH
       ''Saving for review is zero-risk.'']"

definition bill_cost :: "decision_object \<Rightarrow> number" where
  "bill_cost d = to_number
     (nullish_or (nullish_or (raw d ''costCents'') (raw d ''amount'')) (JNum (Fin 0)))"

definition generateFinanceCandidates ::
  "uid_supply \<Rightarrow> decision_object \<Rightarrow> twin_profile \<Rightarrow> candidate_action list" where
  "generateFinanceCandidates uid d profile =
     [candidate (uid 0) d ''categorize_transaction''
       ''Categorize this transaction''
       ''finance'' [(''transactionId'', raw d ''transactionId'')]
       (Fin 0) True (getPreferenceConfidence profile ''finance'' ''auto_categorize'')
       ''Categorizing is zero-cost and fully reversible.'',
      candidate (uid 1) d ''pay_bill''
       ''Pay this bill''
       ''finance'' [(''billId'', raw d ''billId''), (''amount'', JNum (bill_cost d))]
       (bill_cost d) False (getPreferenceConfidence profile ''finance'' ''auto_pay'')
       ''Paying a bill is irreversible and involves spending.'',
      candidate (uid 2) d ''flag_suspicious_transaction''
       ''Flag this transaction for review''
       ''finance'' [(''transactionId'', raw d ''transactionId'')]
       (Fin 0) True (getPreferenceConfidence profile ''finance'' ''auto_flag'')
       ''Flagging is zero-cost and reversible, erring on the side of caution.'',
      candidate (uid 3) d ''record_expense''
       ''Record this expense''
       ''finance'' [(''transactionId'', raw d ''transactionId''), (''amount'', JNum (bill_cost d))]
       (Fin 0) True (getPreferenceConfidence profile ''finance'' ''auto_record'')
       ''Recording an expense is zero-cost and reversible.'']"

definition generateSmartHomeCandidates ::
  "uid_supply \<Rightarrow> decision_object \<Rightarrow> twin_profile \<Rightarrow> candidate_action list" where
  "generateSmartHomeCandidates uid d profile =
     [candidate (uid 0) d ''run_routine''
       ''Run the suggested routine''
       ''smart_home'' [(''routineId'', raw d ''routineId'')]
       (Fin 0) True (getPreferenceConfidence profile ''smart_home'' ''auto_routine'')
       ''Running a home routine is reversible and low-risk.'',
      candidate (uid 1) d ''set_thermostat''
       ''Adjust thermostat to recommended temperature''
       ''smart_home'' [(''temperature'', raw d ''temperature'')]
       (Fin 0) True (getPreferenceConfidence profile ''smart_home'' ''auto_thermostat'')
       ''Thermostat adjustments are reversible and zero-cost.'',
      candidate (uid 2) d ''escalate_to_user''
       ''Alert user about this home event''
       ''smart_home'' [(''eventType'', raw d ''eventType''), (''summary'', JStr (do_summary d))]
       (Fin 0) True C_HIGH
       ''Alerting the user is the safest option for home events.'']"

definition generateTaskManagementCandidates ::
  "uid_supply \<Rightarrow> decision_object \<Rightarrow> twin_profile \<Rightarrow> candidate_action list" where
  "generateTaskManagementCandidates uid d profile =
     [candidate (uid 0) d ''create_task''
       ''Create a new task from this''
       ''tasks'' [(''title'', raw d ''title''), (''summary'', JStr (do_summary d))]
       (Fin 0) True (getPreferenceConfidence profile ''tasks'' ''auto_create_task'')
       ''Creating a task is zero-cost and reversible.'',
      candidate (uid 1) d ''set_reminder''
       ''Set a reminder''
       ''tasks'' [(''taskId'', raw d ''taskId''), (''reminderTime'', raw d ''reminderTime'')]
       (Fin 0) True (getPreferenceConfidence profile ''tasks'' ''auto_reminder'')
       ''Setting a reminder is zero-cost and reversible.'',
      candidate (uid 2) d ''complete_task''
       ''Mark this task as done''
       ''tasks'' [(''taskId'', raw d ''taskId'')]
       (Fin 0) False (getPreferenceConfidence profile ''tasks'' ''auto_complete'')
       ''Completing a task is irreversible and should match confirmed intent.'']"

definition generateSocialMediaCandidates ::
  "uid_supply \<Rightarrow> decision_object \<Rightarrow> twin_profile \<Rightarrow> candidate_action list" where
  "generateSocialMediaCandidates uid d profile =
     [candidate (uid 0) d ''draft_social_post''
       ''Draft a response''
       ''social_media'' [(''postId'', raw d ''postId''), (''platform'', raw d ''platform'')]
       (Fin 0) True (getPreferenceConfidence profile ''social_media'' ''auto_draft'')
       ''Drafting a response is reversible and requires user review before posting.'',
      candidate (uid 1) d ''mute_conversation''
       ''Mute this conversation''
       ''social_media'' [(''conversationId'', raw d ''conversationId'')]
       (Fin 0) True (getPreferenceConfidence profile ''social_media'' ''auto_mute'')
       ''Muting is reversible and reduces notification noise.'',
      candidate (uid 2) d ''respond_to_mention''
       ''Reply to this mention''
       ''social_media'' [(''mentionId'', raw d ''mentionId''), (''platform'', raw d ''platform'')]
       (Fin 0) False (getPreferenceConfidence profile ''social_media'' ''auto_respond'')
       ''Replying to a mention is irreversible and publicly visible.'']"

definition generateDocumentCandidates ::
  "uid_supply \<Rightarrow> decision_object \<Rightarrow> twin_profile \<Rightarrow> candidate_action list" where
  "generateDocumentCandidates uid d profile =
     [candidate (uid 0) d ''organize_file''
       ''Move to appropriate folder''
       ''documents'' [(''documentId'', raw d ''documentId''), (''targetFolder'', raw d ''targetFolder'')]
       (Fin 0) True (getPreferenceConfidence profile ''documents'' ''auto_organize'')
       ''Organizing files is reversible and keeps documents tidy.'',
      candidate (uid 1) d ''summarize_document''
       ''Generate a summary''
       ''documents'' [(''documentId'', raw d ''documentId'')]
       (Fin 0) True (getPreferenceConfidence profile ''documents'' ''auto_summarize'')
       ''Generating a summary is zero-cost and reversible.'',
      candidate (uid 2) d ''share_document''
       ''Share with relevant people''
       ''documents'' [(''documentId'', raw d ''documentId''), (''recipients'', raw d ''recipients'')]
       (Fin 0) False (getPreferenceConfidence profile ''documents'' ''auto_share'')
       ''Sharing a document is irreversible and exposes content to others.'']"

definition generateHealthCandidates ::
  "uid_supply \<Rightarrow> decision_object \<Rightarrow> twin_profile \<Rightarrow> candidate_action list" where
  "generateHealthCandidates uid d profile =
     [candidate (uid 0) d ''log_health_metric''
       ''Log this health data''
       ''health'' [(''metricType'', raw d ''metricType''), (''value'', raw d ''value'')]
       (Fin 0) True (getPreferenceConfidence profile ''health'' ''auto_log'')
       ''Logging health data is zero-cost and reversible.'',
      candidate (uid 1) d ''set_medication_reminder''
       ''Set a medication reminder''
       ''health'' [(''medication'', raw d ''medication''), (''schedule'', raw d ''schedule'')]
       (Fin 0) True (getPreferenceConfidence profile ''health'' ''auto_medication_reminder'')
       ''Setting a medication reminder is zero-cost and reversible.'',
      candidate (uid 2) d ''book_appointment''
       ''Book an appointment''
       ''health'' [(''provider'', raw d ''provider''), (''appointmentType'', raw d ''appointmentType'')]
       (Fin 0) False (getPreferenceConfidence profile ''health'' ''auto_book_appointment'')
       ''Booking an appointment is irreversible and may incur cancellation fees.'']"

definition generateGenericCandidates ::
  "uid_supply \<Rightarrow> decision_object \<Rightarrow> twin_profile \<Rightarrow> candidate_action list" where
  "generateGenericCandidates uid d profile =
     [candidate (uid 0) d ''create_note''
       (''Create a note about: '' @ do_summary d)
       (do_domain d) [(''summary'', JStr (do_summary d)), (''rawData'', JObj (do_rawData d))]
       (Fin 0) True C_MODERATE
       ''Creating a note is a safe default action for unrecognized situations.'',
      candidate (uid 1) d ''escalate_to_user''
       (''Escalate to user: '' @ do_summary d)
       (do_domain d) [(''summary'', JStr (do_summary d)), (''urgency'', JStr (urgency_str (do_urgency d)))]
       (Fin 0) True C_HIGH
       ''Escalating unrecognized situations to the user is the safest option.'']"

section \<open>Dispatch\<close>

definition dispatchCandidates ::
  "uid_supply \<Rightarrow> decision_object \<Rightarrow> twin_profile \<Rightarrow> sender_label_hint list
   \<Rightarrow> candidate_action list option" where
  "dispatchCandidates uid d profile hints = (case do_situationType d of
     EMAIL_TRIAGE \<Rightarrow> Some (generateEmailTriageCandidates uid d profile hints)
   | CALENDAR_INVITE \<Rightarrow> Some (generateCalendarInviteCandidates uid d profile)
   | CALENDAR_CONFLICT \<Rightarrow> Some (generateCalendarCandidates uid d profile)
   | CALENDAR_UPDATE \<Rightarrow> Some (generateCalendarUpdateCandidates uid d profile)
   | SUBSCRIPTION_RENEWAL \<Rightarrow> Some (generateSubscriptionCandidates uid d profile)
   | GROCERY_REORDER \<Rightarrow> generateGroceryCandidates uid d profile
   | TRAVEL_DECISION \<Rightarrow> Some (generateTravelCandidates uid d profile)
   | FINANCE_OPERATION \<Rightarrow> Some (generateFinanceCandidates uid d profile)
   | SMART_HOME \<Rightarrow> Some (generateSmartHomeCandidates uid d profile)
   | TASK_MANAGEMENT \<Rightarrow> Some (generateTaskManagementCandidates uid d profile)
   | SOCIAL_MEDIA \<Rightarrow> Some (generateSocialMediaCandidates uid d profile)
   | DOCUMENT_MANAGEMENT \<Rightarrow> Some (generateDocumentCandidates uid d profile)
   | HEALTH_WELLNESS \<Rightarrow> Some (generateHealthCandidates uid d profile)
   | SECURITY_ALERT \<Rightarrow> Some (generateSecurityAlertCandidates uid d)
   | GENERIC \<Rightarrow> Some (generateGenericCandidates uid d profile))"

definition generateCandidates ::
  "uid_supply \<Rightarrow> decision_object \<Rightarrow> twin_profile \<Rightarrow> sender_label_hint list \<Rightarrow> string list option
   \<Rightarrow> candidate_action list option" where
  "generateCandidates uid d profile hints grantedScopes =
     map_option (\<lambda>cs. applyScopeGate cs (case grantedScopes of Some s \<Rightarrow> s | None \<Rightarrow> []))
       (dispatchCandidates uid d profile hints)"

end
