(* ===== verification/RiskAssessor.thy ===== *)
theory RiskAssessor
  imports PolicyTheorems
begin

text \<open>
  \<open>packages/decision-engine/src/risk-assessor.ts\<close>: the six dimension assessments of a candidate
  action and the overall tier. Scores are the decimal literals of the code; the texts are the
  constructors of \<open>risk_reason\<close>, amounts unformatted. The lemmas give the exact overall tier and
  connect the assessment with the built-in policies that read it.
\<close>

section \<open>Dimensions\<close>

definition dim :: "risk_tier \<Rightarrow> rat \<Rightarrow> risk_reason \<Rightarrow> dimension_assessment" where
  "dim t s r = \<lparr> dim_tier = t, dim_score = s, dim_reasoning = r \<rparr>"

definition assessReversibility :: "candidate_action \<Rightarrow> dimension_assessment" where
  "assessReversibility a =
     (if ca_reversible a then dim NEGLIGIBLE (1 / 10) rr_reversible
      else
        (let actionType = to_lower (ca_actionType a) in
         if str_includes actionType ''delete'' \<or> str_includes actionType ''cancel''
            \<or> str_includes actionType ''terminate''
         then dim HIGH (85 / 100) rr_irreversible_deletion
         else if str_includes actionType ''send'' \<or> str_includes actionType ''submit''
            \<or> str_includes actionType ''publish''
         then dim MODERATE (6 / 10) rr_irreversible_sending
         else dim MODERATE (5 / 10) rr_irreversible))"

definition assessFinancialImpact :: "candidate_action \<Rightarrow> dimension_assessment" where
  "assessFinancialImpact a =
     (let costCents = ca_estimatedCostCents a in
      if num_le costCents (Fin 0) then dim NEGLIGIBLE 0 rr_no_cost
      else if num_le costCents (Fin 500) then dim LOW (2 / 10) (rr_minor_cost costCents)
      else if num_le costCents (Fin 2500) then dim MODERATE (5 / 10) (rr_moderate_cost costCents)
      else if num_le costCents (Fin 10000) then dim HIGH (8 / 10) (rr_significant_cost costCents)
      else dim CRITICAL 1 (rr_major_cost costCents))"

definition combined_text :: "candidate_action \<Rightarrow> string" where
  "combined_text a = to_lower (ca_actionType a) @ '' '' @ to_lower (ca_description a)"

definition matching :: "string list \<Rightarrow> string \<Rightarrow> string list" where
  "matching keywords text = filter (\<lambda>kw. str_includes text kw) keywords"

definition legalKeywords :: "string list" where
  "legalKeywords =
     [''contract'', ''agreement'', ''legal'', ''binding'', ''terms'',
      ''liability'', ''warranty'', ''indemnity'', ''compliance'']"

definition assessLegalSensitivity :: "candidate_action \<Rightarrow> dimension_assessment" where
  "assessLegalSensitivity a =
     (let found = matching legalKeywords (combined_text a); matchCount = length found in
      if matchCount = 0 then dim NEGLIGIBLE 0 rr_legal_none
      else if matchCount \<le> 1 then dim LOW (25 / 100) rr_legal_minor
      else if matchCount \<le> 3 then dim MODERATE (55 / 100) (rr_legal_moderate found)
      else dim HIGH (85 / 100) rr_legal_high)"

definition privacyKeywords :: "string list" where
  "privacyKeywords =
     [''personal'', ''private'', ''confidential'', ''ssn'', ''password'',
      ''credential'', ''medical'', ''health'', ''financial_data'',
      ''share'', ''forward'', ''expose'', ''publish'']"

definition assessPrivacySensitivity :: "candidate_action \<Rightarrow> dimension_assessment" where
  "assessPrivacySensitivity a =
     (let actionType = to_lower (ca_actionType a);
          matchCount = length (matching privacyKeywords (combined_text a));
          isSharing = str_includes actionType ''share'' \<or> str_includes actionType ''forward''
            \<or> str_includes actionType ''send'' in
      if matchCount = 0 \<and> \<not> isSharing then dim NEGLIGIBLE 0 rr_privacy_none
      else if isSharing \<and> matchCount = 0 then dim LOW (2 / 10) rr_privacy_sharing
      else if matchCount \<le> 2 then dim MODERATE (5 / 10) rr_privacy_potential
      else dim HIGH (85 / 100) rr_privacy_high)"

definition relationshipKeywords :: "string list" where
  "relationshipKeywords =
     [''decline'', ''reject'', ''cancel_meeting'', ''ignore'',
      ''unsubscribe'', ''block'', ''remove'', ''unfriend'',
      ''escalate'', ''complain'', ''criticize'']"

definition positiveKeywords :: "string list" where
  "positiveKeywords = [''accept'', ''confirm'', ''thank'', ''acknowledge'', ''approve'']"

definition assessRelationshipSensitivity :: "candidate_action \<Rightarrow> dimension_assessment" where
  "assessRelationshipSensitivity a =
     (let negativeMatchCount = length (matching relationshipKeywords (combined_text a));
          positiveMatchCount = length (matching positiveKeywords (combined_text a)) in
      if negativeMatchCount = 0 then
        (if positiveMatchCount > 0 then dim NEGLIGIBLE 0 rr_relation_positive
         else dim NEGLIGIBLE (5 / 100) rr_relation_none)
      else if negativeMatchCount = 1 then dim LOW (3 / 10) rr_relation_minor
      else if negativeMatchCount \<le> 3 then dim MODERATE (55 / 100) rr_relation_moderate
      else dim HIGH (8 / 10) rr_relation_high)"

definition operationalKeywords :: "string list" where
  "operationalKeywords =
     [''config'', ''setting'', ''deploy'', ''migrate'', ''restart'',
      ''shutdown'', ''update_system'', ''permission'', ''access'',
      ''integration'', ''workflow'', ''automation'']"

definition assessOperationalRisk :: "candidate_action \<Rightarrow> dimension_assessment" where
  "assessOperationalRisk a =
     (let matchCount = length (matching operationalKeywords (combined_text a)) in
      if matchCount = 0 then dim NEGLIGIBLE 0 rr_operational_none
      else if matchCount = 1 then dim LOW (25 / 100) rr_operational_minor
      else if matchCount \<le> 3 then dim MODERATE (55 / 100) rr_operational_moderate
      else dim HIGH (8 / 10) rr_operational_high)"

section \<open>Overall tier\<close>

type_synonym dimensions = "(risk_dimension \<times> dimension_assessment) list"

definition rankToTier :: "int \<Rightarrow> risk_tier" where
  "rankToTier n = (if n = 0 then NEGLIGIBLE else if n = 1 then LOW else if n = 2 then MODERATE
     else if n = 3 then HIGH else if n = 4 then CRITICAL else MODERATE)"

text \<open>\<open>Math.max\<close> of no arguments is minus infinity, below every rank.\<close>

definition calculateOverallTier :: "dimensions \<Rightarrow> risk_tier" where
  "calculateOverallTier dimensions =
     (let tiers = map (\<lambda>(_, d). dim_tier d) dimensions;
          maxRank = foldr max (map risk_index tiers) (- 1);
          moderateOrAboveCount =
            length (filter (\<lambda>t. risk_index MODERATE \<le> risk_index t) tiers) in
      if moderateOrAboveCount \<ge> 3 \<and> maxRank < risk_index HIGH then HIGH
      else rankToTier maxRank)"

definition buildReasoning :: "dimensions \<Rightarrow> risk_tier \<Rightarrow> assessment_reason" where
  "buildReasoning dimensions overallTier =
     Overall overallTier
       (map (\<lambda>(k, d). (k, dim_tier d, dim_reasoning d))
         (filter (\<lambda>(_, d). dim_tier d \<noteq> NEGLIGIBLE) dimensions))"

definition assess_dimensions :: "candidate_action \<Rightarrow> dimensions" where
  "assess_dimensions a =
     [(REVERSIBILITY, assessReversibility a),
      (FINANCIAL_IMPACT, assessFinancialImpact a),
      (LEGAL_SENSITIVITY, assessLegalSensitivity a),
      (PRIVACY_SENSITIVITY, assessPrivacySensitivity a),
      (RELATIONSHIP_SENSITIVITY, assessRelationshipSensitivity a),
      (OPERATIONAL_RISK, assessOperationalRisk a)]"

definition assess :: "int \<Rightarrow> candidate_action \<Rightarrow> risk_assessment" where
  "assess now a =
     (let dimensions = assess_dimensions a; overallTier = calculateOverallTier dimensions in
      \<lparr> ra_actionId = ca_id a, ra_overallTier = overallTier, ra_dimensions = dimensions,
        ra_reasoning = buildReasoning dimensions overallTier, ra_assessedAt = now \<rparr>)"

section \<open>Lemmas\<close>

lemma dim_simps [simp]: "dim_tier (dim t s r) = t" "dim_score (dim t s r) = s"
  by (simp_all add: dim_def)

lemma risk_index_range: "0 \<le> risk_index t" "risk_index t \<le> 4"
  by (cases t; simp)+

lemma rankToTier_index [simp]: "rankToTier (risk_index t) = t"
  by (cases t) (simp_all add: rankToTier_def)

lemma rankToTier_max: "rankToTier (max (risk_index x) (risk_index y)) = max x y"
  by (simp add: max_def less_eq_risk_tier_def)

lemma foldr_max_risk:
  "ts \<noteq> [] \<Longrightarrow> foldr max (map risk_index ts) (- 1) = risk_index (Max (set ts))"
proof (induction ts)
  case (Cons t ts)
  show ?case
  proof (cases "ts = []")
    case True
    then show ?thesis using risk_index_range(1) [of t] by simp
  next
    case False
    then show ?thesis
      using Cons.IH by (simp add: max_def less_eq_risk_tier_def)
  qed
qed simp

text \<open>The overall tier of a non-empty assessment.\<close>

definition moderate_count :: "risk_tier list \<Rightarrow> nat" where
  "moderate_count ts = length (filter (\<lambda>t. MODERATE \<le> t) ts)"

lemma overall_tier_eq:
  assumes "ds \<noteq> []"
  shows "calculateOverallTier ds =
    (let ts = map (dim_tier \<circ> snd) ds in
     if 3 \<le> moderate_count ts \<and> Max (set ts) = MODERATE then HIGH else Max (set ts))"
proof -
  let ?ts = "map (dim_tier \<circ> snd) ds"
  have ts: "map (\<lambda>(_, d). dim_tier d) ds = ?ts" by auto
  have ne: "?ts \<noteq> []" using assms by simp
  have "MODERATE \<le> Max (set ?ts)" if "3 \<le> moderate_count ?ts"
  proof -
    have "filter (\<lambda>t. MODERATE \<le> t) ?ts \<noteq> []" using that unfolding moderate_count_def by force
    then obtain t where "t \<in> set ?ts" "MODERATE \<le> t" by (auto simp: filter_empty_conv)
    then show ?thesis by (meson List.finite_set Max_ge order_trans)
  qed
  then have "3 \<le> moderate_count ?ts \<and> risk_index (Max (set ?ts)) < 3 \<longleftrightarrow>
      3 \<le> moderate_count ?ts \<and> Max (set ?ts) = MODERATE"
    by (cases "Max (set ?ts)") (auto simp: less_eq_risk_tier_def)
  then show ?thesis
    unfolding calculateOverallTier_def Let_def ts foldr_max_risk [OF ne]
    by (simp add: moderate_count_def less_eq_risk_tier_def)
qed

lemma dimension_in_assessment:
  "dimension_tier (assess now a) PRIVACY_SENSITIVITY = Some (dim_tier (assessPrivacySensitivity a))"
  "dimension_tier (assess now a) LEGAL_SENSITIVITY = Some (dim_tier (assessLegalSensitivity a))"
  by (simp_all add: dimension_tier_def assess_def assess_dimensions_def Let_def)

lemma matching_empty: "length (matching ks t) = 0 \<longleftrightarrow> (\<forall>k \<in> set ks. \<not> str_includes t k)"
  by (simp add: matching_def filter_empty_conv)

lemma privacy_above_low:
  "LOW < dim_tier (assessPrivacySensitivity a) \<longleftrightarrow>
     (\<exists>k \<in> set privacyKeywords. str_includes (combined_text a) k)"
proof (cases "length (matching privacyKeywords (combined_text a)) = 0")
  case True
  then have "\<not> (\<exists>k \<in> set privacyKeywords. str_includes (combined_text a) k)"
    by (simp only: matching_empty) blast
  moreover have "dim_tier (assessPrivacySensitivity a) \<le> LOW"
    unfolding assessPrivacySensitivity_def Let_def True by (simp add: less_eq_risk_tier_def)
  ultimately show ?thesis by (simp add: not_less)
next
  case False
  then show ?thesis
    using False matching_empty [of privacyKeywords "combined_text a"]
    by (auto simp: assessPrivacySensitivity_def Let_def less_risk_tier_def)
qed

lemma Max_risk_list_mono:
  "list_all2 (\<le>) xs ys \<Longrightarrow> xs \<noteq> [] \<Longrightarrow> Max (set xs) \<le> Max (set ys)"
  for xs ys :: "risk_tier list"
proof (induction rule: list_all2_induct)
  case (Cons x xs y ys)
  show ?case
  proof (cases "xs = []")
    case True
    then show ?thesis using Cons by simp
  next
    case False
    then have "ys \<noteq> []" using Cons.hyps(2) by auto
    then show ?thesis using Cons False by (simp add: max.coboundedI1 max.coboundedI2)
  qed
qed simp

lemma moderate_count_mono: "list_all2 (\<le>) xs ys \<Longrightarrow> moderate_count xs \<le> moderate_count ys"
  by (induction rule: list_all2_induct) (auto simp: moderate_count_def)

lemma overall_tier_mono:
  assumes "list_all2 (\<lambda>(_, x) (_, y). dim_tier x \<le> dim_tier y) ds es" "ds \<noteq> []"
  shows "calculateOverallTier ds \<le> calculateOverallTier es"
proof -
  let ?xs = "map (dim_tier \<circ> snd) ds" and ?ys = "map (dim_tier \<circ> snd) es"
  have all: "list_all2 (\<le>) ?xs ?ys"
    unfolding list_all2_map1 list_all2_map2 using assms(1) by (rule list_all2_mono) auto
  have "es \<noteq> []" using assms by auto
  moreover have "Max (set ?xs) \<le> Max (set ?ys)" using Max_risk_list_mono [OF all] assms(2) by simp
  moreover have "moderate_count ?xs \<le> moderate_count ?ys" using moderate_count_mono [OF all] .
  ultimately show ?thesis using assms(2)
    by (cases "Max (set ?xs)"; cases "Max (set ?ys)")
      (auto simp: overall_tier_eq Let_def less_eq_risk_tier_def)
qed

lemma financial_mono:
  "num_le x y \<Longrightarrow> ca_estimatedCostCents a = x \<Longrightarrow> ca_estimatedCostCents b = y \<Longrightarrow>
   dim_tier (assessFinancialImpact a) \<le> dim_tier (assessFinancialImpact b)"
  using num_le_trans [of x y "Fin 0"] num_le_trans [of x y "Fin 500"]
    num_le_trans [of x y "Fin 2500"] num_le_trans [of x y "Fin 10000"]
  by (auto simp: assessFinancialImpact_def Let_def less_eq_risk_tier_def)

lemma privacy_words_deny:
  "k \<in> set privacyKeywords \<Longrightarrow> str_includes (combined_text a) k \<Longrightarrow>
   outcome_of (evaluate_policies g now a ps t (Some (assess when a)) st) = Deny"
proof -
  assume "k \<in> set privacyKeywords" "str_includes (combined_text a) k"
  then have "LOW < dim_tier (assessPrivacySensitivity a)" unfolding privacy_above_low by blast
  then have "exceeds (assessed (Some (assess when a)) PRIVACY_SENSITIVITY) LOW"
    by (simp add: exceeds_def assessed_def dimension_in_assessment)
  then show ?thesis
    unfolding evaluate_strictest strictest_append max_outcome_iff gates_deny_iff
    by (cases "recognized t") (simp_all add: policies_deny_iff)
qed

section \<open>Properties\<close>

text \<open>
  the overall tier is the highest of the six dimensions, raised to HIGH when that highest is
  MODERATE and at least three dimensions have it; so no dimension is ever above the overall tier.
\<close>

theorem overall_tier_exact:
  "ra_overallTier (assess now a) =
     (let ts = map (dim_tier \<circ> snd) (assess_dimensions a) in
      if 3 \<le> moderate_count ts \<and> Max (set ts) = MODERATE then HIGH else Max (set ts)) \<and>
   list_all (\<lambda>(_, d). dim_tier d \<le> ra_overallTier (assess now a)) (assess_dimensions a)"
proof -
  let ?ts = "map (dim_tier \<circ> snd) (assess_dimensions a)"
  have ne: "assess_dimensions a \<noteq> []" by (simp add: assess_dimensions_def)
  have eq: "ra_overallTier (assess now a) = calculateOverallTier (assess_dimensions a)"
    by (simp add: assess_def Let_def)
  have "Max (set ?ts) \<le> calculateOverallTier (assess_dimensions a)"
    unfolding overall_tier_eq [OF ne] by (simp add: Let_def less_eq_risk_tier_def)
  moreover have "dim_tier (snd p) \<le> Max (set ?ts)" if "p \<in> set (assess_dimensions a)" for p
    using that by (intro Max_ge) auto
  ultimately have "dim_tier (snd p) \<le> calculateOverallTier (assess_dimensions a)"
    if "p \<in> set (assess_dimensions a)" for p
    using that by (meson order_trans)
  then have "list_all (\<lambda>(_, d). dim_tier d \<le> calculateOverallTier (assess_dimensions a))
      (assess_dimensions a)"
    by (auto simp: list_all_iff)
  then show ?thesis unfolding eq using overall_tier_eq [OF ne] by blast
qed

text \<open>
  risk is monotone in what makes an action worse: giving up reversibility and raising the
  cost never lowers the overall tier. A cost that is not a number counts as critical.
\<close>

theorem risk_monotone:
  assumes "num_le (ca_estimatedCostCents a) c"
  shows "ra_overallTier (assess now a) \<le>
      ra_overallTier (assess now (a \<lparr> ca_estimatedCostCents := c, ca_reversible := False \<rparr>)) \<and>
    ra_overallTier (assess now (a \<lparr> ca_estimatedCostCents := NaN \<rparr>)) = CRITICAL"
proof -
  let ?b = "a \<lparr> ca_estimatedCostCents := c, ca_reversible := False \<rparr>"
  let ?n = "a \<lparr> ca_estimatedCostCents := NaN \<rparr>"
  have words: "combined_text ?b = combined_text a" by (simp add: combined_text_def)
  have same: "assessLegalSensitivity ?b = assessLegalSensitivity a"
    "assessPrivacySensitivity ?b = assessPrivacySensitivity a"
    "assessRelationshipSensitivity ?b = assessRelationshipSensitivity a"
    "assessOperationalRisk ?b = assessOperationalRisk a"
    by (simp_all only: assessLegalSensitivity_def assessPrivacySensitivity_def
        assessRelationshipSensitivity_def assessOperationalRisk_def words)
      (simp add: Let_def)
  have rev: "dim_tier (assessReversibility a) \<le> dim_tier (assessReversibility ?b)"
    by (simp add: assessReversibility_def Let_def less_eq_risk_tier_def)
  have "calculateOverallTier (assess_dimensions a) \<le> calculateOverallTier (assess_dimensions ?b)"
    by (rule overall_tier_mono)
      (simp_all add: assess_dimensions_def same rev financial_mono [OF assms])
  moreover have "calculateOverallTier (assess_dimensions ?n) = CRITICAL"
  proof -
    have crit: "dim_tier (assessFinancialImpact ?n) = CRITICAL"
      by (simp add: assessFinancialImpact_def Let_def)
    have "CRITICAL \<in> set (map (dim_tier \<circ> snd) (assess_dimensions ?n))"
      by (simp add: assess_dimensions_def crit)
    then have "CRITICAL \<le> Max (set (map (dim_tier \<circ> snd) (assess_dimensions ?n)))"
      by (intro Max_ge) simp_all
    then have "Max (set (map (dim_tier \<circ> snd) (assess_dimensions ?n))) = CRITICAL"
      by (cases "Max (set (map (dim_tier \<circ> snd) (assess_dimensions ?n)))")
        (simp_all add: less_eq_risk_tier_def)
    then show ?thesis by (simp add: overall_tier_eq assess_dimensions_def Let_def)
  qed
  ultimately show ?thesis by (simp add: assess_def Let_def)
qed

text \<open>
  assessor and evaluator together: an action whose type or description contains any of the
  privacy keywords (share, forward, publish, health, personal, ...) is denied at every trust tier
  and under any settings and policies; approval cannot bring it back.
\<close>

theorem privacy_words_denied:
  "k \<in> set privacyKeywords \<Longrightarrow> str_includes (combined_text a) k \<Longrightarrow>
   \<not> pd_allowed (evaluate_policies g now a ps t (Some (assess when a)) st)"
  using privacy_words_deny [of k a] by (simp add: outcome_of_iff(1))

text \<open>Concrete instances.\<close>

theorem risk_monotone_witness:
  "ra_overallTier (assess 0 label_action) \<le>
     ra_overallTier (assess 0 (label_action \<lparr> ca_estimatedCostCents := Fin 900, ca_reversible := False \<rparr>))"
  using risk_monotone [of label_action "Fin 900" 0] by (simp add: label_action_def)

theorem privacy_words_denied_witness:
  "\<not> pd_allowed (evaluate_policies False (12, 0)
     (label_action \<lparr> ca_actionType := ''share_document'' \<rparr>) [] HIGH_AUTONOMY
     (Some (assess 0 (label_action \<lparr> ca_actionType := ''share_document'' \<rparr>))) None)"
proof (rule privacy_words_denied [where k = "''share''"])
  show "''share'' \<in> set privacyKeywords" by (simp add: privacyKeywords_def)
  show "str_includes (combined_text (label_action \<lparr> ca_actionType := ''share_document'' \<rparr>)) ''share''"
    by code_simp
qed

end
