(* ===== verification/DecisionMaker.thy ===== *)
theory DecisionMaker
  imports CandidateGenerators RiskAssessor
begin

text \<open>
  The pipeline of \<open>packages/decision-engine/src/decision-maker.ts\<close>: candidates, provenance, risk,
  score, policy, selection, and the writes to the decision repository, with
  \<open>decision-helpers.ts\<close>. The services the class is given are the fields of \<open>environment\<close>; the
  writes are the list of effects in the order they are made. None as a result is a rejected
  promise (a generator that threw). Identity of candidate objects is equality of candidates:
  their identifiers are fresh UUIDs.
\<close>

section \<open>Context and environment\<close>

record episodic_memory =
  em_domain :: string
  em_situationType :: string
  em_actionTaken :: "string option"
  em_outcomeSuccess :: "bool option"
  em_feedbackType :: "string option"
  em_utilityScore :: rat

record decision_context =
  cx_userId :: string
  cx_decision :: decision_object
  cx_trustTier :: trust_tier
  cx_relevantPreferences :: "preference list"
  cx_patterns :: "behavioral_pattern list option"
  cx_traits :: "cross_domain_trait list option"
  cx_episodicMemories :: "episodic_memory list option"
  cx_grantedScopes :: "string list option"
  cx_autonomySettings :: "autonomy_settings option"

type_synonym candidate_generator =
  "decision_object \<Rightarrow> twin_profile \<Rightarrow> decision_context \<Rightarrow> candidate_action list option"

record environment =
  en_relevantPreferences :: "string \<Rightarrow> string \<Rightarrow> string \<Rightarrow> preference list"
  en_profile :: "string \<Rightarrow> twin_profile"
  en_enabledPolicies :: "string \<Rightarrow> action_policy list"
  en_generator :: "candidate_generator option"
  en_labelPort :: "label_port option"
  en_globallyPaused :: bool
  en_clock :: "int \<times> int"
  en_now :: int
  en_uid :: uid_supply
  en_outcomeId :: string

section \<open>Outcomes\<close>

datatype policy_verdict = v_allowed | v_requires_approval | v_denied

datatype outcome_reason =
    NoCandidates
  | SelectedAuto string reason
  | SelectedForApproval string reason
  | SelectedOnly string reason
  | AllBlocked nat string reason

record decision_outcome =
  oc_id :: string
  oc_decisionId :: string
  oc_selectedAction :: "candidate_action option"
  oc_allCandidates :: "candidate_action list"
  oc_riskAssessment :: "risk_assessment option"
  oc_allRiskAssessments :: "risk_assessment list option"
  oc_autoExecute :: bool
  oc_requiresApproval :: bool
  oc_reasoning :: outcome_reason
  oc_decidedAt :: int
  oc_policyVerdicts :: "(string \<times> policy_verdict) list option"
  oc_confirmationLevel :: "confirmation_level option"

text \<open>The writes to the decision repository.\<close>

datatype effect =
    SaveCandidates "candidate_action list"
  | SaveRiskAssessment risk_assessment
  | SaveOutcome decision_outcome

section \<open>Scoring\<close>

definition calculatePreferenceAlignment :: "candidate_action \<Rightarrow> preference list \<Rightarrow> rat" where
  "calculatePreferenceAlignment c prefs =
     of_int (min (sum_list (map (\<lambda>p.
        if pf_domain p = ca_domain c \<or> str_includes (pf_key p) (ca_actionType c)
        then confidence_index (pf_confidence p) * 3 else 0) prefs)) 20)"

definition calculatePatternBoost :: "candidate_action \<Rightarrow> decision_context \<Rightarrow> rat" where
  "calculatePatternBoost c cx = (case cx_patterns cx of
     None \<Rightarrow> 0
   | Some patterns \<Rightarrow> if patterns = [] then 0 else
       of_int (min (sum_list (map (\<lambda>p.
         (if bp_observedAction p = ca_actionType c then min (bp_frequency p) 10 else 0)
         + (if bp_triggerDomain p = Some (ca_domain c) then 3 else 0)) patterns)) 20))"

definition trait_adjustment :: "candidate_action \<Rightarrow> cross_domain_trait \<Rightarrow> int" where
  "trait_adjustment c t =
     (if ct_traitName t = ''cautious_spender'' then
        (if num_lt (Fin 1000) (ca_estimatedCostCents c) then - 10 else 0)
      else if ct_traitName t = ''quick_responder'' then
        (if ca_actionType c \<in> set [''accept_invite'', ''send_reply''] then 5 else 0)
      else if ct_traitName t = ''delegation_averse'' then (if \<not> ca_reversible c then - 5 else 0)
      else if ct_traitName t = ''routine_driven'' then 3
      else if ct_traitName t = ''privacy_conscious'' then
        (if ca_actionType c \<in> set [''send_reply'', ''accept_invite''] then - 3 else 0)
      else 0)"

definition calculateTraitAdjustment :: "candidate_action \<Rightarrow> decision_context \<Rightarrow> rat" where
  "calculateTraitAdjustment c cx = (case cx_traits cx of
     None \<Rightarrow> 0
   | Some traits \<Rightarrow> of_int (sum_list (map (trait_adjustment c) traits)))"

definition spaced :: "string \<Rightarrow> string" where
  "spaced s = map (\<lambda>ch. if ch = CHR ''_'' then CHR '' '' else ch) s"

definition episode_boost :: "candidate_action \<Rightarrow> decision_context \<Rightarrow> episodic_memory \<Rightarrow> rat" where
  "episode_boost c cx e =
     (if em_domain e \<noteq> ca_domain c then 0
      else
        (let actionMatch = (case em_actionTaken e of None \<Rightarrow> False
                | Some s \<Rightarrow> str_includes (to_lower s) (spaced (ca_actionType c))) in
         if actionMatch \<or> em_situationType e = situation_str (do_situationType (cx_decision cx)) then
           (if em_feedbackType e = Some ''approve'' then 10 * em_utilityScore e
            else if em_feedbackType e = Some ''reject'' \<or> em_feedbackType e = Some ''undo''
            then - (8 * (1 - em_utilityScore e))
            else if em_feedbackType e = Some ''correct'' then - 3
            else if em_feedbackType e = None \<and> em_outcomeSuccess e = Some True then 3 else 0)
         else 0))"

definition calculateEpisodicBoost :: "candidate_action \<Rightarrow> decision_context \<Rightarrow> rat" where
  "calculateEpisodicBoost c cx = (case cx_episodicMemories cx of
     None \<Rightarrow> 0
   | Some episodes \<Rightarrow> if episodes = [] then 0
       else max (- 15) (min (sum_list (map (episode_boost c cx) episodes)) 20))"

definition scoreCandidate ::
  "candidate_action \<Rightarrow> decision_context \<Rightarrow> risk_assessment \<Rightarrow> rat" where
  "scoreCandidate c cx r =
     of_int (confidence_index (ca_confidence c) * 10)
     + of_int ((4 - risk_index (ra_overallTier r)) * 5)
     + (if ca_reversible c then 15 else 0)
     + (if num_eq (ca_estimatedCostCents c) (Fin 0) then 10
        else if num_le (ca_estimatedCostCents c) (Fin 500) then 5 else 0)
     + calculatePreferenceAlignment c (cx_relevantPreferences cx)
     + calculatePatternBoost c cx
     + calculateTraitAdjustment c cx
     + calculateEpisodicBoost c cx"

section \<open>Automatic execution\<close>

definition shouldAutoExecute :: "int \<Rightarrow> candidate_action \<Rightarrow> trust_tier \<Rightarrow> bool" where
  "shouldAutoExecute now c trustTier =
     (if trustTier = OBSERVER \<or> trustTier = SUGGEST then False
      else if confidence_index (ca_confidence c) < confidence_index C_MODERATE then False
      else
        (let riskRank = risk_index (ra_overallTier (assess now c)) in
         (case trustTier of
            LOW_AUTONOMY \<Rightarrow> riskRank \<le> risk_index LOW
          | MODERATE_AUTONOMY \<Rightarrow> riskRank \<le> risk_index MODERATE
          | HIGH_AUTONOMY \<Rightarrow> riskRank \<le> risk_index HIGH
          | _ \<Rightarrow> False)))"

section \<open>Selection\<close>

record selection =
  sl_verdicts :: "(string \<times> policy_verdict) list"
  sl_action :: "candidate_action option"
  sl_assessment :: "risk_assessment option"
  sl_autoExecute :: bool
  sl_requiresApproval :: bool
  sl_confirmationLevel :: "confirmation_level option"
  sl_reasoning :: "outcome_reason option"
  sl_lastBlocked :: "(string \<times> reason) option"

definition no_selection :: selection where
  "no_selection = \<lparr> sl_verdicts = [], sl_action = None, sl_assessment = None,
     sl_autoExecute = False, sl_requiresApproval = True, sl_confirmationLevel = None,
     sl_reasoning = None, sl_lastBlocked = None \<rparr>"

definition verdict :: "policy_decision \<Rightarrow> policy_verdict" where
  "verdict d = (if \<not> pd_allowed d then v_denied
     else if pd_requiresApproval d then v_requires_approval else v_allowed)"

text \<open>The body of the loop over the ranked candidates.\<close>

definition select_step ::
  "(candidate_action \<Rightarrow> risk_assessment \<Rightarrow> policy_decision) \<Rightarrow> (candidate_action \<Rightarrow> bool)
   \<Rightarrow> candidate_action \<times> risk_assessment \<Rightarrow> selection \<Rightarrow> selection" where
  "select_step judge auto ca st =
     (let (c, r) = ca; d = judge c r; v = verdict d;
          st1 = st \<lparr> sl_verdicts := put (ca_id c) v (sl_verdicts st) \<rparr> in
      if v = v_denied
      then st1 \<lparr> sl_lastBlocked := Some (ca_description c, pd_reason d) \<rparr>
      else if sl_action st = None
      then (let autoExecute = \<not> pd_requiresApproval d \<and> auto c in
        st1 \<lparr> sl_action := Some c, sl_assessment := Some r,
              sl_requiresApproval := pd_requiresApproval d,
              sl_confirmationLevel := pd_confirmationLevel d,
              sl_autoExecute := autoExecute,
              sl_reasoning := Some
                (if autoExecute then SelectedAuto (ca_description c) (pd_reason d)
                 else if pd_requiresApproval d
                 then SelectedForApproval (ca_description c) (pd_reason d)
                 else SelectedOnly (ca_description c) (pd_reason d)) \<rparr>)
      else st1)"

definition select_all ::
  "(candidate_action \<Rightarrow> risk_assessment \<Rightarrow> policy_decision) \<Rightarrow> (candidate_action \<Rightarrow> bool)
   \<Rightarrow> (candidate_action \<times> risk_assessment) list \<Rightarrow> selection" where
  "select_all judge auto ranked = fold (select_step judge auto) ranked no_selection"

section \<open>The pipeline\<close>

definition stamp_provenance ::
  "decision_object \<Rightarrow> candidate_action list \<Rightarrow> candidate_action list" where
  "stamp_provenance d cs = map (\<lambda>c. c \<lparr> ca_provenance := do_provenance d \<rparr>) cs"

definition granted :: "decision_context \<Rightarrow> string list" where
  "granted cx = (case cx_grantedScopes cx of Some s \<Rightarrow> s | None \<Rightarrow> [])"

definition enriched :: "environment \<Rightarrow> decision_context \<Rightarrow> decision_context" where
  "enriched env cx = cx \<lparr> cx_relevantPreferences :=
     en_relevantPreferences env (cx_userId cx) (do_domain (cx_decision cx))
       (do_summary (cx_decision cx)) \<rparr>"

definition generated :: "environment \<Rightarrow> decision_context \<Rightarrow> candidate_action list option" where
  "generated env cx =
     (let d = cx_decision cx;
          profile = en_profile env (cx_userId cx);
          hints = fetchSenderLabelHints (en_labelPort env) (cx_userId cx) d in
      case en_generator env of
        Some generate \<Rightarrow>
          map_option (\<lambda>cs. applyScopeGate cs (granted cx)) (generate d profile (enriched env cx))
      | None \<Rightarrow> generateCandidates (en_uid env) d profile hints (cx_grantedScopes cx))"

definition prepared :: "environment \<Rightarrow> decision_context \<Rightarrow> candidate_action list option" where
  "prepared env cx = map_option
     (\<lambda>cs. stamp_provenance (cx_decision cx) (stripAwarenessTierReplies cs (cx_decision cx)))
     (generated env cx)"

text \<open>The map from candidate identifiers to assessments; a later entry overwrites.\<close>

definition assessments_of ::
  "int \<Rightarrow> candidate_action list \<Rightarrow> (string \<times> risk_assessment) list" where
  "assessments_of now cs = fold (\<lambda>c m. put (ca_id c) (assess now c) m) cs []"

definition assessment_of ::
  "(string \<times> risk_assessment) list \<Rightarrow> candidate_action \<Rightarrow> risk_assessment" where
  "assessment_of m c = the (map_of m (ca_id c))"

definition ranked ::
  "decision_context \<Rightarrow> (string \<times> risk_assessment) list \<Rightarrow> candidate_action list
   \<Rightarrow> (candidate_action \<times> risk_assessment) list" where
  "ranked cx m cs =
     sort_key (\<lambda>(c, r). - scoreCandidate c cx r) (map (\<lambda>c. (c, assessment_of m c)) cs)"

definition no_candidate_outcome :: "environment \<Rightarrow> decision_context \<Rightarrow> decision_outcome" where
  "no_candidate_outcome env cx =
     \<lparr> oc_id = en_outcomeId env, oc_decisionId = do_id (cx_decision cx), oc_selectedAction = None,
       oc_allCandidates = [], oc_riskAssessment = None, oc_allRiskAssessments = Some [],
       oc_autoExecute = False, oc_requiresApproval = True, oc_reasoning = NoCandidates,
       oc_decidedAt = en_now env, oc_policyVerdicts = None, oc_confirmationLevel = None \<rparr>"

definition judge_in ::
  "environment \<Rightarrow> decision_context \<Rightarrow> candidate_action \<Rightarrow> risk_assessment \<Rightarrow> policy_decision" where
  "judge_in env cx c r =
     evaluate_policies (en_globallyPaused env) (en_clock env) c
       (loadPolicies (en_enabledPolicies env) (cx_userId cx)) (cx_trustTier cx) (Some r)
       (cx_autonomySettings cx)"

definition outcome_from ::
  "environment \<Rightarrow> decision_context \<Rightarrow> candidate_action list \<Rightarrow> (string \<times> risk_assessment) list
   \<Rightarrow> selection \<Rightarrow> decision_outcome" where
  "outcome_from env cx cs m sl =
     \<lparr> oc_id = en_outcomeId env, oc_decisionId = do_id (cx_decision cx),
       oc_selectedAction = sl_action sl, oc_allCandidates = cs,
       oc_riskAssessment = sl_assessment sl,
       oc_allRiskAssessments = Some (List.map_filter (\<lambda>c. map_of m (ca_id c)) cs),
       oc_autoExecute = sl_autoExecute sl,
       oc_requiresApproval = (sl_action sl = None \<or> sl_requiresApproval sl),
       oc_reasoning = (case sl_reasoning sl of Some why \<Rightarrow> why
         | None \<Rightarrow> (case sl_lastBlocked sl of
             Some (desc, why) \<Rightarrow> AllBlocked (length cs) desc why
           | None \<Rightarrow> NoCandidates)),
       oc_decidedAt = en_now env, oc_policyVerdicts = Some (sl_verdicts sl),
       oc_confirmationLevel =
         (if sl_action sl \<noteq> None \<and> sl_requiresApproval sl then sl_confirmationLevel sl else None) \<rparr>"

definition decide :: "environment \<Rightarrow> decision_context \<Rightarrow> (decision_outcome \<times> effect list) option" where
  "decide env cx = (case prepared env cx of
     None \<Rightarrow> None
   | Some candidates \<Rightarrow>
       if candidates = [] then
         (let oc = no_candidate_outcome env cx in Some (oc, [SaveOutcome oc]))
       else
         (let m = assessments_of (en_now env) candidates;
              order = ranked (enriched env cx) m candidates;
              sl = select_all (judge_in env cx)
                (\<lambda>c. shouldAutoExecute (en_now env) c (cx_trustTier cx)) order;
              oc = outcome_from env cx candidates m sl in
          Some (oc, [SaveCandidates candidates]
            @ map (\<lambda>c. SaveRiskAssessment (assess (en_now env) c)) candidates
            @ [SaveOutcome oc])))"

text \<open>A candidate set prepared by the caller goes through the whole evaluation again.\<close>

definition reevaluatePreparedCandidates ::
  "environment \<Rightarrow> decision_context \<Rightarrow> candidate_action list
   \<Rightarrow> (decision_outcome \<times> effect list) option" where
  "reevaluatePreparedCandidates env cx cs =
     decide (env \<lparr> en_generator := Some (\<lambda>d profile c. Some cs) \<rparr>) cx"

section \<open>Hypothetical questions\<close>

record what_would_i_do_request =
  wr_situation :: string
  wr_domain :: "string option"
  wr_urgency :: "urgency option"

record what_would_i_do_response =
  ww_predictedAction :: "candidate_action option"
  ww_confidence :: confidence_level
  ww_reasoning :: outcome_reason
  ww_wouldAutoExecute :: bool
  ww_policyNotes :: "outcome_reason option"
  ww_alternativeActions :: "candidate_action list"
  ww_predictionId :: string

record query_service =
  qs_relevantPreferences :: "string \<Rightarrow> string \<Rightarrow> string \<Rightarrow> preference list"
  qs_patterns :: "string \<Rightarrow> behavioral_pattern list"
  qs_traits :: "string \<Rightarrow> cross_domain_trait list"

definition domainMap :: "string \<Rightarrow> situation_type option" where
  "domainMap s =
     (if s = ''email'' then Some EMAIL_TRIAGE
      else if s = ''calendar'' then Some CALENDAR_INVITE
      else if s = ''subscriptions'' then Some SUBSCRIPTION_RENEWAL
      else if s = ''shopping'' then Some GROCERY_REORDER
      else if s = ''travel'' then Some TRAVEL_DECISION
      else if s = ''finance'' then Some FINANCE_OPERATION
      else if s = ''smart_home'' then Some SMART_HOME
      else if s = ''tasks'' then Some TASK_MANAGEMENT
      else if s = ''social_media'' then Some SOCIAL_MEDIA
      else if s = ''documents'' then Some DOCUMENT_MANAGEMENT
      else if s = ''health'' then Some HEALTH_WELLNESS else None)"

definition inferSituationType :: "string option \<Rightarrow> situation_type" where
  "inferSituationType domain = (case domain of
     None \<Rightarrow> GENERIC
   | Some s \<Rightarrow> if s = [] then GENERIC
       else (case domainMap (to_lower s) of Some t \<Rightarrow> t | None \<Rightarrow> GENERIC))"

definition query_context ::
  "environment \<Rightarrow> string \<Rightarrow> what_would_i_do_request \<Rightarrow> query_service \<Rightarrow> trust_tier \<Rightarrow> decision_context" where
  "query_context env userId request service tier =
     (let d = \<lparr> do_id = ''query_'' @ int_str (en_now env),
            do_situationType = inferSituationType (wr_domain request),
            do_domain = (case wr_domain request of Some s \<Rightarrow> s | None \<Rightarrow> ''general''),
            do_urgency = (case wr_urgency request of Some u \<Rightarrow> u | None \<Rightarrow> U_medium),
            do_summary = wr_situation request,
            do_rawData = [(''query'', JBool True), (''situation'', JStr (wr_situation request))],
            do_interpretedAt = en_now env, do_provenance = None \<rparr> in
      \<lparr> cx_userId = userId, cx_decision = d, cx_trustTier = tier,
        cx_relevantPreferences = qs_relevantPreferences service userId (do_domain d) (do_summary d),
        cx_patterns = Some (qs_patterns service userId),
        cx_traits = Some (qs_traits service userId),
        cx_episodicMemories = None, cx_grantedScopes = None, cx_autonomySettings = None \<rparr>)"

definition alternatives :: "decision_outcome \<Rightarrow> candidate_action list" where
  "alternatives oc =
     (let verdicts = (case oc_policyVerdicts oc of Some vs \<Rightarrow> vs | None \<Rightarrow> []) in
      filter (\<lambda>c. Some c \<noteq> oc_selectedAction oc \<and>
        (map_of verdicts (ca_id c) = Some v_allowed
         \<or> map_of verdicts (ca_id c) = Some v_requires_approval)) (oc_allCandidates oc))"

definition whatWouldIDo ::
  "environment \<Rightarrow> string \<Rightarrow> what_would_i_do_request \<Rightarrow> query_service \<Rightarrow> trust_tier
   \<Rightarrow> (what_would_i_do_response \<times> effect list) option" where
  "whatWouldIDo env userId request service tier =
     map_option (\<lambda>(oc, effects).
       (\<lparr> ww_predictedAction = oc_selectedAction oc,
          ww_confidence = (case oc_selectedAction oc of Some c \<Rightarrow> ca_confidence c
            | None \<Rightarrow> C_SPECULATIVE),
          ww_reasoning = oc_reasoning oc,
          ww_wouldAutoExecute = oc_autoExecute oc,
          ww_policyNotes = (if oc_requiresApproval oc \<or> oc_selectedAction oc = None
            then Some (oc_reasoning oc) else None),
          ww_alternativeActions = alternatives oc,
          ww_predictionId = ''pred_'' @ int_str (en_now env) \<rparr>, effects))
       (decide env (query_context env userId request service tier))"

section \<open>Assessment lookup (decision-helpers.ts)\<close>

definition getAssessmentForAction :: "decision_outcome \<Rightarrow> string \<Rightarrow> risk_assessment option" where
  "getAssessmentForAction oc actionId = (case oc_allRiskAssessments oc of
     Some (r # rs) \<Rightarrow> find (\<lambda>a. ra_actionId a = actionId) (r # rs)
   | _ \<Rightarrow> (case oc_riskAssessment oc of
       Some r \<Rightarrow> if ra_actionId r = actionId then Some r else None
     | None \<Rightarrow> None))"

end
