(* ===== verification/GeneratorTheorems.thy ===== *)
theory GeneratorTheorems
  imports CandidateGenerators RiskAssessor
begin

text \<open>
  What the built-in candidate generators can make run by itself, once the scope gate, the risk
  assessor and the policy evaluator have seen their candidates.
\<close>

section \<open>What the generators can make run by itself\<close>

lemma candidate_simps [simp]:
  "ca_actionType (candidate i d ty desc dn ps c rv cf why) = ty"
  "ca_reversible (candidate i d ty desc dn ps c rv cf why) = rv"
  "ca_estimatedCostCents (candidate i d ty desc dn ps c rv cf why) = c"
  "ca_description (candidate i d ty desc dn ps c rv cf why) = desc"
  "ca_parameters (candidate i d ty desc dn ps c rv cf why) = ps"
  "ca_confidence (candidate i d ty desc dn ps c rv cf why) = cf"
  "ca_id (candidate i d ty desc dn ps c rv cf why) = i"
  by (simp_all add: candidate_def)

definition AUTONOMOUS_TYPES :: "string list" where
  "AUTONOMOUS_TYPES =
     [''label_email'', ''accept_invite'', ''tentative_accept'', ''propose_alternative'',
      ''acknowledge'', ''dismiss'', ''snooze_reminder'', ''place_order'', ''add_to_list'',
      ''save_option'', ''categorize_transaction'', ''flag_suspicious_transaction'',
      ''record_expense'', ''run_routine'', ''set_thermostat'', ''create_task'', ''set_reminder'',
      ''draft_social_post'', ''mute_conversation'', ''organize_file'', ''summarize_document'',
      ''set_medication_reminder'', ''create_note'']"

text \<open>A candidate that some gate always stops, for a reason visible in its shape.\<close>

definition held_back :: "candidate_action \<Rightarrow> bool" where
  "held_back c \<longleftrightarrow> \<not> ca_reversible c \<or> ca_actionType c = ''archive_email'' \<or>
     ca_actionType c = ''escalate_to_user'' \<or>
     (ca_actionType c = ''log_health_metric'' \<and> ca_description c = ''Log this health data'')"

definition autonomous_or_held :: "candidate_action \<Rightarrow> bool" where
  "autonomous_or_held c \<longleftrightarrow> held_back c \<or> ca_actionType c \<in> set AUTONOMOUS_TYPES"

lemma archive_destructive: "severity_of c \<noteq> severity_none" if "ca_actionType c = ''archive_email''"
proof -
  have "str_includes (to_lower ''archive_email'') ''archive_email''" by code_simp
  then show ?thesis unfolding severity_of_def that
    by (rule marker_destructive [rotated]) (simp add: DESTRUCTIVE_ACTION_MARKERS_def)
qed

lemma health_log_words: "str_includes (combined_text c) ''health''"
  if "ca_actionType c = ''log_health_metric''" "ca_description c = ''Log this health data''"
  unfolding combined_text_def that by code_simp

lemma held_back_not_clear:
  assumes "held_back c"
  shows "outcome_of (evaluate_policies g now c ps t (Some (assess when c)) st) \<noteq> Clear"
proof -
  consider "\<not> ca_reversible c" | "severity_of c \<noteq> severity_none"
    | "ca_actionType c = ''escalate_to_user''" | "str_includes (combined_text c) ''health''"
    using assms archive_destructive health_log_words by (auto simp: held_back_def)
  then show ?thesis
  proof cases
    case 1
    then have "strictest (policy_outcomes c ps t (Some (assess when c))) \<noteq> Clear"
      if "recognized t" using policies_clear_iff [OF that] by blast
    moreover have "strictest (gates g now c t (Some (assess when c)) st) \<noteq> Clear" if "\<not> recognized t"
      unfolding gates_clear_iff using that tier_clears_recognized by blast
    ultimately show ?thesis unfolding evaluate_strictest strictest_append max_outcome_iff by blast
  next
    case 2
    then show ?thesis
      unfolding evaluate_strictest strictest_append max_outcome_iff gates_clear_iff guard_verdict
      by blast
  next
    case 3
    then show ?thesis by (rule escalation_asks)
  next
    case 4
    then have "outcome_of (evaluate_policies g now c ps t (Some (assess when c)) st) = Deny"
      by (rule privacy_words_deny [rotated]) (simp add: privacyKeywords_def)
    then show ?thesis by simp
  qed
qed

lemmas generator_defs =
  generateEmailTriageCandidates_def generateCalendarInviteCandidates_def
  generateCalendarCandidates_def generateCalendarUpdateCandidates_def
  generateSubscriptionCandidates_def generateGroceryCandidates_def generateTravelCandidates_def
  generateFinanceCandidates_def generateSmartHomeCandidates_def generateTaskManagementCandidates_def
  generateSocialMediaCandidates_def generateDocumentCandidates_def generateHealthCandidates_def
  generateSecurityAlertCandidates_def generateGenericCandidates_def

text \<open>Every candidate of every generator is one or the other.\<close>

lemma dispatch_all:
  "dispatchCandidates uid d profile hints = Some cs \<Longrightarrow> list_all autonomous_or_held cs"
  by (cases "do_situationType d")
    (auto simp: dispatchCandidates_def generator_defs autonomous_or_held_def held_back_def
      AUTONOMOUS_TYPES_def Let_def bind_eq_Some_conv split: if_splits)

lemma scope_gate_all:
  "list_all autonomous_or_held cs \<Longrightarrow> list_all autonomous_or_held (applyScopeGate cs scopes)"
proof -
  have "autonomous_or_held (gate_candidate c scopes)" if "autonomous_or_held c" for c
    using gate_candidate_cases [of c scopes] that
    by (auto simp: autonomous_or_held_def held_back_def)
  then show "list_all autonomous_or_held cs \<Longrightarrow> list_all autonomous_or_held (applyScopeGate cs scopes)"
    by (auto simp: applyScopeGate_def list_all_iff)
qed

text \<open>
  C29: the action types that a built-in generator can ever get cleared for automatic execution
  are the 23 of this list, whatever the decision, profile, tier, settings and policies: nothing
  that sends, pays, books, cancels, declines, deletes, archives, shares or escalates.
\<close>

theorem autonomous_surface:
  assumes "generateCandidates uid d profile hints scopes = Some cs" and "c \<in> set cs"
    and "outcome_of (evaluate_policies g now c ps t (Some (assess when c)) st) = Clear"
  shows "ca_actionType c \<in> set AUTONOMOUS_TYPES"
proof -
  obtain cs0 where "dispatchCandidates uid d profile hints = Some cs0"
    "cs = applyScopeGate cs0 (case scopes of Some s \<Rightarrow> s | None \<Rightarrow> [])"
    using assms(1) by (auto simp: generateCandidates_def)
  then have "list_all autonomous_or_held cs" using dispatch_all scope_gate_all by blast
  then have "autonomous_or_held c" using assms(2) by (simp add: list_all_iff)
  then show ?thesis using held_back_not_clear assms(3) unfolding autonomous_or_held_def by blast
qed

text \<open>
  a security alert yields exactly one candidate, an escalation whose parameters hold the
  summary, the urgency and a fixed hint but nothing of the raw message, and no evaluation
  clears it for automatic execution.
\<close>

theorem security_alert_escalates:
  assumes "do_situationType d = SECURITY_ALERT"
  shows "\<exists>c. generateCandidates uid d profile hints scopes = Some [c] \<and>
    ca_actionType c = ''escalate_to_user'' \<and>
    map fst (ca_parameters c) = [''summary'', ''urgency'', ''safeAction''] \<and>
    generateCandidates uid (d \<lparr> do_rawData := other \<rparr>) profile hints scopes = Some [c] \<and>
    outcome_of (evaluate_policies g now c ps t ra st) \<noteq> Clear"
proof -
  define c where "c = hd (generateSecurityAlertCandidates uid d)"
  have one: "generateSecurityAlertCandidates uid d = [c]"
    "generateSecurityAlertCandidates uid (d \<lparr> do_rawData := other \<rparr>) = [c]"
    by (simp_all add: c_def generateSecurityAlertCandidates_def candidate_def)
  have ty: "ca_actionType c = ''escalate_to_user''"
    by (simp add: c_def generateSecurityAlertCandidates_def)
  have same: "gate_candidate c s = c" for s
    by (simp add: gate_candidate_def hasWriteScope_def ty escalation_needs_no_scope)
  have "generateCandidates uid d profile hints scopes = Some [c]"
    "generateCandidates uid (d \<lparr> do_rawData := other \<rparr>) profile hints scopes = Some [c]"
    by (simp_all add: generateCandidates_def dispatchCandidates_def assms applyScopeGate_def one same)
  moreover have "map fst (ca_parameters c) = [''summary'', ''urgency'', ''safeAction'']"
    by (simp add: c_def generateSecurityAlertCandidates_def)
  ultimately show ?thesis using escalation_asks [OF ty] ty by metis
qed

text \<open>Concrete instances.\<close>

definition mail_decision :: decision_object where
  "mail_decision = \<lparr> do_id = ''d1'', do_situationType = EMAIL_TRIAGE, do_domain = ''email'',
     do_urgency = U_low, do_summary = ''hi'', do_rawData = [], do_interpretedAt = 0,
     do_provenance = Some untrusted_external \<rparr>"

definition no_profile :: twin_profile where
  "no_profile = \<lparr> tp_userId = ''u'', tp_version = 1, tp_preferences = [], tp_inferences = [] \<rparr>"

definition label_candidate :: candidate_action where
  "label_candidate = generateEmailTriageCandidates (\<lambda>n. replicate n CHR ''x'') mail_decision
     no_profile [] ! 1"

lemma label_candidate_clear:
  "outcome_of (evaluate_policies False (12, 0) label_candidate [] LOW_AUTONOMY
     (Some (assess 0 label_candidate)) None) = Clear"
  by code_simp

theorem autonomous_surface_witness: "ca_actionType label_candidate \<in> set AUTONOMOUS_TYPES"
proof (rule autonomous_surface)
  show "generateCandidates (\<lambda>n. replicate n CHR ''x'') mail_decision no_profile [] None =
      Some (applyScopeGate (generateEmailTriageCandidates (\<lambda>n. replicate n CHR ''x'') mail_decision
        no_profile []) [])"
    by (simp add: generateCandidates_def dispatchCandidates_def mail_decision_def)
  have "gate_candidate label_candidate [] = label_candidate"
    by (simp add: gate_candidate_def hasWriteScope_def label_candidate_def
        generateEmailTriageCandidates_def label_needs_no_scope)
  moreover have "label_candidate \<in> set (generateEmailTriageCandidates (\<lambda>n. replicate n CHR ''x'')
      mail_decision no_profile [])"
    unfolding label_candidate_def by (rule nth_mem) (simp add: generateEmailTriageCandidates_def)
  ultimately show "label_candidate \<in> set (applyScopeGate (generateEmailTriageCandidates
      (\<lambda>n. replicate n CHR ''x'') mail_decision no_profile []) [])"
    by (force simp: applyScopeGate_def)
  show "outcome_of (evaluate_policies False (12, 0) label_candidate [] LOW_AUTONOMY
      (Some (assess 0 label_candidate)) None) = Clear"
    by (rule label_candidate_clear)
qed

theorem security_alert_escalates_witness:
  "\<exists>c. generateCandidates (\<lambda>n. replicate n CHR ''x'')
     (mail_decision \<lparr> do_situationType := SECURITY_ALERT \<rparr>) no_profile [] None = Some [c] \<and>
     ca_actionType c = ''escalate_to_user''"
  using security_alert_escalates [of "mail_decision \<lparr> do_situationType := SECURITY_ALERT \<rparr>"
    "\<lambda>n. replicate n CHR ''x''" no_profile "[]" None "[]" False "(12, 0)" "[]" HIGH_AUTONOMY None None]
  by auto
end
