(* ===== verification/DecisionTheorems.thy ===== *)
theory DecisionTheorems
  imports DecisionMaker GeneratorTheorems "HOL-Library.Multiset"
begin

text \<open>
  What the decision pipeline guarantees: which candidates can be marked for automatic execution,
  which candidate is selected, what is written in which order, and what the hypothetical query
  shows.
\<close>

section \<open>The selection loop\<close>

definition not_denied ::
  "(candidate_action \<Rightarrow> risk_assessment \<Rightarrow> policy_decision) \<Rightarrow> candidate_action \<times> risk_assessment \<Rightarrow> bool"
  where "not_denied judge = (\<lambda>(c, r). verdict (judge c r) \<noteq> v_denied)"

lemma verdict_iff:
  "verdict d = v_denied \<longleftrightarrow> outcome_of d = Deny"
  "verdict d = v_allowed \<longleftrightarrow> outcome_of d = Clear"
  "verdict d = v_requires_approval \<longleftrightarrow> outcome_of d = Ask"
  by (simp_all add: verdict_def outcome_of_def)

lemma fold_select:
  "sl_action (fold (select_step judge auto) xs st) =
     (case sl_action st of Some c \<Rightarrow> Some c
      | None \<Rightarrow> map_option fst (find (not_denied judge) xs))"
  "sl_action st = None \<Longrightarrow> find (not_denied judge) xs = Some (c, r) \<Longrightarrow>
     sl_assessment (fold (select_step judge auto) xs st) = Some r \<and>
     sl_requiresApproval (fold (select_step judge auto) xs st) = pd_requiresApproval (judge c r) \<and>
     sl_confirmationLevel (fold (select_step judge auto) xs st) = pd_confirmationLevel (judge c r) \<and>
     sl_autoExecute (fold (select_step judge auto) xs st) =
       (\<not> pd_requiresApproval (judge c r) \<and> auto c)"
  "sl_action st \<noteq> None \<Longrightarrow>
     sl_assessment (fold (select_step judge auto) xs st) = sl_assessment st \<and>
     sl_requiresApproval (fold (select_step judge auto) xs st) = sl_requiresApproval st \<and>
     sl_confirmationLevel (fold (select_step judge auto) xs st) = sl_confirmationLevel st \<and>
     sl_autoExecute (fold (select_step judge auto) xs st) = sl_autoExecute st"
  "find (not_denied judge) xs = None \<Longrightarrow>
     sl_autoExecute (fold (select_step judge auto) xs st) = sl_autoExecute st"
  by (induction xs arbitrary: st)
    (auto simp: select_step_def not_denied_def Let_def split: option.splits prod.splits if_splits)

lemma select_all_None:
  "find (not_denied judge) xs = None \<Longrightarrow>
   sl_action (select_all judge auto xs) = None \<and> \<not> sl_autoExecute (select_all judge auto xs)"
  by (simp add: select_all_def fold_select(1,4) no_selection_def)

lemma select_all_Some:
  "find (not_denied judge) xs = Some (c, r) \<Longrightarrow>
   sl_action (select_all judge auto xs) = Some c \<and>
   sl_assessment (select_all judge auto xs) = Some r \<and>
   sl_requiresApproval (select_all judge auto xs) = pd_requiresApproval (judge c r) \<and>
   sl_confirmationLevel (select_all judge auto xs) = pd_confirmationLevel (judge c r) \<and>
   sl_autoExecute (select_all judge auto xs) = (\<not> pd_requiresApproval (judge c r) \<and> auto c)"
  using fold_select(1) [of judge auto xs no_selection]
    fold_select(2) [of no_selection judge xs c r auto]
  by (simp add: select_all_def no_selection_def)

lemma fold_select_verdicts:
  "distinct (map (ca_id \<circ> fst) xs) \<Longrightarrow>
   map_of (sl_verdicts (fold (select_step judge auto) xs st)) k =
     (case find (\<lambda>(c, r). ca_id c = k) xs of Some (c, r) \<Rightarrow> Some (verdict (judge c r))
      | None \<Rightarrow> map_of (sl_verdicts st) k)"
proof (induction xs arbitrary: st)
  case (Cons x xs)
  obtain c r where x: "x = (c, r)" by fastforce
  have step: "sl_verdicts (select_step judge auto x st) = put (ca_id c) (verdict (judge c r)) (sl_verdicts st)"
    by (simp add: x select_step_def Let_def)
  have "find (\<lambda>(c, r). ca_id c = k) xs = None" if "ca_id c = k"
    using Cons.prems that by (auto simp: x find_None_iff image_iff)
  then show ?case using Cons by (auto simp: x step [unfolded x] split: option.splits)
qed simp

section \<open>The parts of a decision\<close>

lemma assessments_of_eq:
  "map_of (fold (\<lambda>c m. put (ca_id c) (assess now c) m) cs m) k =
     (case find (\<lambda>c. ca_id c = k) (rev cs) of Some c \<Rightarrow> Some (assess now c) | None \<Rightarrow> map_of m k)"
proof (induction cs arbitrary: m rule: rev_induct)
  case (snoc c cs)
  then show ?case by simp
qed simp

lemma assessment_of_distinct:
  assumes "distinct (map ca_id cs)" "c \<in> set cs"
  shows "assessment_of (assessments_of now cs) c = assess now c"
    "map_of (assessments_of now cs) (ca_id c) = Some (assess now c)"
proof -
  obtain x where x: "find (\<lambda>x. ca_id x = ca_id c) (rev cs) = Some x"
    using assms(2) by (cases "find (\<lambda>x. ca_id x = ca_id c) (rev cs)") (auto simp: find_None_iff)
  then have "x \<in> set cs" "ca_id x = ca_id c" by (auto dest: find_Some_in)
  then have "x = c" using assms by (auto simp: distinct_map inj_on_def)
  then show "map_of (assessments_of now cs) (ca_id c) = Some (assess now c)"
    using x by (simp add: assessments_of_def assessments_of_eq)
  then show "assessment_of (assessments_of now cs) c = assess now c"
    by (simp add: assessment_of_def)
qed

lemma set_ranked: "set (ranked cx m cs) = (\<lambda>c. (c, assessment_of m c)) ` set cs"
  by (simp add: ranked_def)

lemma generated_scoped:
  "generated env cx = Some cs \<Longrightarrow> c \<in> set cs \<Longrightarrow> hasWriteScope (ca_actionType c) (granted cx)"
  using gated_has_scope
  by (auto simp: generated_def generateCandidates_def granted_def applyScopeGate_def Let_def
      split: option.splits)

lemma prepared_parts:
  assumes "prepared env cx = Some cs" "c \<in> set cs"
  shows "ca_provenance c = do_provenance (cx_decision cx)"
    "hasWriteScope (ca_actionType c) (granted cx)"
    "isAwarenessTierEmail (cx_decision cx) \<Longrightarrow> ca_actionType c \<notin> set OUTBOUND_REPLY_ACTIONS"
proof -
  obtain gs where gs: "generated env cx = Some gs"
    "cs = stamp_provenance (cx_decision cx) (stripAwarenessTierReplies gs (cx_decision cx))"
    using assms(1) by (auto simp: prepared_def)
  then obtain g where g: "g \<in> set (stripAwarenessTierReplies gs (cx_decision cx))"
    "c = g \<lparr> ca_provenance := do_provenance (cx_decision cx) \<rparr>"
    using assms(2) by (auto simp: stamp_provenance_def)
  then show "ca_provenance c = do_provenance (cx_decision cx)" by simp
  have "g \<in> set gs" using g(1) by (auto simp: stripAwarenessTierReplies_def split: if_splits)
  then show "hasWriteScope (ca_actionType c) (granted cx)"
    using generated_scoped [OF gs(1)] g(2) by simp
  show "isAwarenessTierEmail (cx_decision cx) \<Longrightarrow> ca_actionType c \<notin> set OUTBOUND_REPLY_ACTIONS"
    using g by (simp add: stripAwarenessTierReplies_def)
qed

text \<open>The ranking and the selection that a decision with candidates makes.\<close>

definition ranking :: "environment \<Rightarrow> decision_context \<Rightarrow> candidate_action list
   \<Rightarrow> (candidate_action \<times> risk_assessment) list" where
  "ranking env cx cs = ranked (enriched env cx) (assessments_of (en_now env) cs) cs"

definition chosen :: "environment \<Rightarrow> decision_context \<Rightarrow> candidate_action list \<Rightarrow> selection" where
  "chosen env cx cs = select_all (judge_in env cx)
     (\<lambda>c. shouldAutoExecute (en_now env) c (cx_trustTier cx)) (ranking env cx cs)"

lemma decide_cases:
  assumes "decide env cx = Some (oc, fx)"
  obtains (none) "prepared env cx = Some []" "oc = no_candidate_outcome env cx" "fx = [SaveOutcome oc]"
  | (some) cs where "prepared env cx = Some cs" "cs \<noteq> []"
      "oc = outcome_from env cx cs (assessments_of (en_now env) cs) (chosen env cx cs)"
      "fx = [SaveCandidates cs] @ map (\<lambda>c. SaveRiskAssessment (assess (en_now env) c)) cs
         @ [SaveOutcome oc]"
  using assms
  by (auto simp: decide_def Let_def chosen_def ranking_def split: option.splits if_splits)

lemma judge_in_outcome:
  "outcome_of (judge_in env cx c r) =
   outcome_of (evaluate_policies (en_globallyPaused env) (en_clock env) c
     (en_enabledPolicies env (cx_userId cx)) (cx_trustTier cx) (Some r) (cx_autonomySettings cx))"
  unfolding judge_in_def evaluate_policies_def loadPolicies_def Let_def policy_loop_dup by (rule refl)

lemma ranking_fst: "fst ` set (ranking env cx cs) = set cs"
  by (auto simp: ranking_def set_ranked image_image)

lemma ranking_pair: "(c, r) \<in> set (ranking env cx cs) \<Longrightarrow>
    c \<in> set cs \<and> r = assessment_of (assessments_of (en_now env) cs) c"
  by (auto simp: ranking_def set_ranked)

lemma ranking_ids:
  "distinct (map ca_id cs) \<Longrightarrow> distinct (map (ca_id \<circ> fst) (ranking env cx cs))"
proof -
  assume d: "distinct (map ca_id cs)"
  have "mset (map (ca_id \<circ> fst) (ranking env cx cs)) = mset (map ca_id cs)"
    unfolding ranking_def ranked_def mset_map mset_sort by (simp add: multiset.map_comp comp_def)
  then show ?thesis using d by (metis mset_eq_imp_distinct_iff)
qed

text \<open>What a cleared selection amounts to.\<close>

lemma shouldAutoExecute_iff:
  "shouldAutoExecute now c t \<longleftrightarrow>
     confidence_index C_MODERATE \<le> confidence_index (ca_confidence c) \<and>
     tier_clears t (Some (ra_overallTier (assess now c)))"
proof -
  have "risk_index x \<le> risk_index HIGH \<longleftrightarrow> x \<noteq> CRITICAL" for x by (cases x) simp_all
  then show ?thesis
    by (cases t) (auto simp: shouldAutoExecute_def Let_def less_eq_risk_tier_def)
qed

lemma judge_clear_iff:
  "\<not> pd_requiresApproval (judge_in env cx c r) \<and> verdict (judge_in env cx c r) \<noteq> v_denied \<longleftrightarrow>
   outcome_of (judge_in env cx c r) = Clear"
  by (simp add: verdict_def outcome_of_def)

lemma chosen_auto:
  assumes "sl_autoExecute (chosen env cx cs)"
  obtains c r where "c \<in> set cs" "r = assessment_of (assessments_of (en_now env) cs) c"
    "sl_action (chosen env cx cs) = Some c" "sl_assessment (chosen env cx cs) = Some r"
    "\<not> sl_requiresApproval (chosen env cx cs)" "shouldAutoExecute (en_now env) c (cx_trustTier cx)"
    "outcome_of (judge_in env cx c r) = Clear"
proof (cases "find (not_denied (judge_in env cx)) (ranking env cx cs)")
  case None
  then show ?thesis using assms select_all_None unfolding chosen_def by blast
next
  case (Some p)
  obtain c r where p: "p = (c, r)" by fastforce
  note s = select_all_Some [OF Some [unfolded p],
    of "\<lambda>c. shouldAutoExecute (en_now env) c (cx_trustTier cx)", folded chosen_def]
  have "(c, r) \<in> set (ranking env cx cs)" "verdict (judge_in env cx c r) \<noteq> v_denied"
    using find_Some_in [OF Some [unfolded p]] by (simp_all add: not_denied_def)
  then have "c \<in> set cs" "r = assessment_of (assessments_of (en_now env) cs) c"
    "outcome_of (judge_in env cx c r) = Clear"
    using s assms ranking_pair judge_clear_iff by blast+
  then show ?thesis using s assms by (intro that [of c r]) auto
qed

lemma outcome_from_simps [simp]:
  "oc_autoExecute (outcome_from env cx cs m sl) = sl_autoExecute sl"
  "oc_selectedAction (outcome_from env cx cs m sl) = sl_action sl"
  "oc_riskAssessment (outcome_from env cx cs m sl) = sl_assessment sl"
  "oc_allCandidates (outcome_from env cx cs m sl) = cs"
  "oc_requiresApproval (outcome_from env cx cs m sl) = (sl_action sl = None \<or> sl_requiresApproval sl)"
  "oc_policyVerdicts (outcome_from env cx cs m sl) = Some (sl_verdicts sl)"
  by (simp_all add: outcome_from_def)

section \<open>Automatic execution\<close>

text \<open>
  C2: an outcome marked for automatic execution selects one of its candidates, which passed
  every gate of the pipeline: the provenance is the decision's, the user granted the write scope,
  it is no reply to awareness mail, it is reversible, harmless in shape, free, no escalation,
  confident enough, its own risk is within the trust tier, no switch, quiet hour or setting stands
  against it, the assessment on the outcome keeps the legal and the privacy risk within the bounds of
  the built-in policies, and no enabled policy of the user objects to it with that assessment.
\<close>

theorem auto_execute_safe:
  assumes "decide env cx = Some (oc, fx)" and "oc_autoExecute oc"
  shows "\<exists>c. oc_selectedAction oc = Some c \<and> c \<in> set (oc_allCandidates oc) \<and>
    \<not> oc_requiresApproval oc \<and>
    ca_provenance c = do_provenance (cx_decision cx) \<and>
    hasWriteScope (ca_actionType c) (granted cx) \<and>
    \<not> (isAwarenessTierEmail (cx_decision cx) \<and> ca_actionType c \<in> set OUTBOUND_REPLY_ACTIONS) \<and>
    ca_reversible c \<and> severity_of c = severity_none \<and> ca_actionType c \<noteq> ''escalate_to_user'' \<and>
    \<not> num_lt (Fin 0) (ca_estimatedCostCents c) \<and>
    ca_confidence c \<in> {C_MODERATE, C_HIGH, C_CONFIRMED} \<and>
    tier_clears (cx_trustTier cx) (Some (ra_overallTier (assess (en_now env) c))) \<and>
    \<not> en_globallyPaused env \<and>
    (\<forall>s. cx_autonomySettings cx = Some s \<longrightarrow> settings_permit c s \<and>
       ca_costZeroIntent c \<noteq> Some cost_unknown \<and> as_paused s \<noteq> Some True \<and>
       \<not> quiet_now s (en_clock env)) \<and>
    \<not> exceeds (assessed (oc_riskAssessment oc) LEGAL_SENSITIVITY) MODERATE \<and>
    \<not> exceeds (assessed (oc_riskAssessment oc) PRIVACY_SENSITIVITY) LOW \<and>
    (\<forall>p \<in> set (en_enabledPolicies env (cx_userId cx)). pol_enabled p \<longrightarrow>
       of_effect (evaluatePolicy c p (cx_trustTier cx) (oc_riskAssessment oc)) = Clear)"
  using assms(1)
proof (cases rule: decide_cases)
  case none
  then show ?thesis using assms(2) by (simp add: no_candidate_outcome_def)
next
  case (some cs)
  have auto: "sl_autoExecute (chosen env cx cs)" using assms(2) some by simp
  obtain c r where c: "c \<in> set cs" "sl_action (chosen env cx cs) = Some c"
    "sl_assessment (chosen env cx cs) = Some r" "\<not> sl_requiresApproval (chosen env cx cs)"
    "shouldAutoExecute (en_now env) c (cx_trustTier cx)"
    "outcome_of (judge_in env cx c r) = Clear"
    by (rule chosen_auto [OF auto])
  note clear = c(6) [unfolded judge_in_outcome, folded outcome_of_iff(2), unfolded auto_clear_iff]
  have conf: "ca_confidence c \<in> {C_MODERATE, C_HIGH, C_CONFIRMED}"
    using c(5) by (cases "ca_confidence c") (simp_all add: shouldAutoExecute_iff)
  have risk: "tier_clears (cx_trustTier cx) (Some (ra_overallTier (assess (en_now env) c)))"
    using c(5) by (simp add: shouldAutoExecute_iff)
  show ?thesis
    by (rule exI [of _ c], intro conjI; (use some c clear conf risk prepared_parts [OF some(1) c(1)] in
      \<open>simp; fail\<close> | use some c clear prepared_parts [OF some(1) c(1)] in blast))
qed

section \<open>Selection\<close>

definition denied_in :: "environment \<Rightarrow> decision_context \<Rightarrow> candidate_action \<Rightarrow> bool" where
  "denied_in env cx c \<longleftrightarrow> \<not> pd_allowed (judge_in env cx c (assess (en_now env) c))"

definition score_in :: "environment \<Rightarrow> decision_context \<Rightarrow> candidate_action \<Rightarrow> rat" where
  "score_in env cx c = scoreCandidate c (enriched env cx) (assess (en_now env) c)"

lemma ranking_pairs:
  "distinct (map ca_id cs) \<Longrightarrow> (c, r) \<in> set (ranking env cx cs) \<longleftrightarrow>
     c \<in> set cs \<and> r = assess (en_now env) c"
  by (auto simp: ranking_def set_ranked assessment_of_distinct)

lemma not_denied_pair: "not_denied (judge_in env cx) (c, assess (en_now env) c) \<longleftrightarrow> \<not> denied_in env cx c"
  by (simp add: not_denied_def verdict_def denied_in_def)

text \<open>
  with distinct identifiers, a decision selects nothing exactly when every candidate is
  denied; otherwise it selects a candidate that is not denied and has the greatest score among
  those, asks for approval exactly when the evaluation of that candidate does, and puts the
  assessment of that candidate on the outcome.
\<close>

theorem selection_best:
  assumes "decide env cx = Some (oc, fx)" and "distinct (map ca_id (oc_allCandidates oc))"
  shows "case oc_selectedAction oc of
      None \<Rightarrow> (\<forall>c \<in> set (oc_allCandidates oc). denied_in env cx c) \<and>
        oc_requiresApproval oc \<and> \<not> oc_autoExecute oc
    | Some c \<Rightarrow> c \<in> set (oc_allCandidates oc) \<and> \<not> denied_in env cx c \<and>
        oc_riskAssessment oc = Some (assess (en_now env) c) \<and>
        oc_requiresApproval oc = pd_requiresApproval (judge_in env cx c (assess (en_now env) c)) \<and>
        (\<forall>c' \<in> set (oc_allCandidates oc).
           \<not> denied_in env cx c' \<longrightarrow> score_in env cx c' \<le> score_in env cx c)"
  using assms(1)
proof (cases rule: decide_cases)
  case none
  then show ?thesis by (simp add: no_candidate_outcome_def)
next
  case (some cs)
  have d: "distinct (map ca_id cs)" using assms(2) some by simp
  show ?thesis
  proof (cases "find (not_denied (judge_in env cx)) (ranking env cx cs)")
    case None
    then have "\<forall>c \<in> set cs. denied_in env cx c"
      using ranking_pairs [OF d] not_denied_pair by (fastforce simp: find_None_all)
    then show ?thesis using select_all_None [OF None] some by (simp add: chosen_def)
  next
    case (Some p)
    obtain c r where p: "p = (c, r)" by fastforce
    note s = select_all_Some [OF Some [unfolded p],
      of "\<lambda>c. shouldAutoExecute (en_now env) c (cx_trustTier cx)", folded chosen_def]
    have c: "c \<in> set cs" "r = assess (en_now env) c"
      using find_Some_in [OF Some [unfolded p]] ranking_pairs [OF d] by blast+
    then have nd: "\<not> denied_in env cx c"
      using find_Some_in [OF Some [unfolded p]] by (simp add: not_denied_pair)
    have "score_in env cx c' \<le> score_in env cx c" if "c' \<in> set cs" "\<not> denied_in env cx c'" for c'
      using find_sort_key_least [OF Some [unfolded p ranking_def ranked_def],
          of "(c', assess (en_now env) c')"] that c(2)
      by (simp add: not_denied_pair assessment_of_distinct [OF d] score_in_def image_iff)
    then show ?thesis using s some c nd by simp
  qed
qed

section \<open>Identifiers of the built-in candidates\<close>

lemma candidate_ids:
  assumes "dispatchCandidates uid d profile hints = Some cs" and "inj uid"
  shows "distinct (map ca_id cs)"
proof -
  have ne: "i \<noteq> j \<Longrightarrow> uid i \<noteq> uid j" for i j using assms(2) by (auto dest: injD)
  show ?thesis using assms(1)
    by (cases "do_situationType d")
      (auto simp: dispatchCandidates_def generator_defs Let_def bind_eq_Some_conv ne split: if_splits)
qed

lemma gate_keeps_id: "ca_id (gate_candidate c scopes) = ca_id c"
  by (simp add: gate_candidate_def Let_def)

lemma builtin_ids:
  assumes "prepared env cx = Some cs" and "en_generator env = None" and "inj (en_uid env)"
  shows "distinct (map ca_id cs)"
proof -
  obtain ds where ds: "dispatchCandidates (en_uid env) (cx_decision cx) (en_profile env (cx_userId cx))
      (fetchSenderLabelHints (en_labelPort env) (cx_userId cx) (cx_decision cx)) = Some ds"
    and cs: "cs = stamp_provenance (cx_decision cx) (stripAwarenessTierReplies
      (applyScopeGate ds (granted cx)) (cx_decision cx))"
    using assms(1,2)
    by (auto simp: prepared_def generated_def generateCandidates_def granted_def Let_def)
  have "map ca_id (applyScopeGate ds (granted cx)) = map ca_id ds"
    by (simp add: applyScopeGate_def gate_keeps_id)
  then have "distinct (map ca_id (applyScopeGate ds (granted cx)))"
    using candidate_ids [OF ds assms(3)] by simp
  then show ?thesis
    unfolding cs stamp_provenance_def stripAwarenessTierReplies_def
    by (auto simp: comp_def distinct_map_filter)
qed

section \<open>Selected without approval\<close>

text \<open>
  with distinct identifiers, a selected action that asks for no approval is marked for
  automatic execution exactly when the twin is at least moderately confident. Below that the
  outcome neither runs nor asks.
\<close>

theorem unattended_needs_confidence:
  assumes "decide env cx = Some (oc, fx)" and "distinct (map ca_id (oc_allCandidates oc))"
    and "oc_selectedAction oc = Some c" and "\<not> oc_requiresApproval oc"
  shows "oc_autoExecute oc \<longleftrightarrow> ca_confidence c \<in> {C_MODERATE, C_HIGH, C_CONFIRMED}"
  using assms(1)
proof (cases rule: decide_cases)
  case none
  then show ?thesis using assms(3) by (simp add: no_candidate_outcome_def)
next
  case (some cs)
  have d: "distinct (map ca_id cs)" using assms(2) some by simp
  obtain p where p: "find (not_denied (judge_in env cx)) (ranking env cx cs) = Some p"
    using assms(3) some select_all_None by (fastforce simp: chosen_def)
  obtain c' r where cr: "p = (c', r)" by fastforce
  note s = select_all_Some [OF p [unfolded cr],
      of "\<lambda>c. shouldAutoExecute (en_now env) c (cx_trustTier cx)", folded chosen_def]
  have "c' = c" using s assms(3) some by simp
  then have r: "r = assess (en_now env) c" and v: "verdict (judge_in env cx c r) \<noteq> v_denied"
    using find_Some_in [OF p [unfolded cr]] ranking_pairs [OF d] by (auto simp: not_denied_def)
  have req: "\<not> pd_requiresApproval (judge_in env cx c r)"
    using s assms(4) some \<open>c' = c\<close> by simp
  have "outcome_of (judge_in env cx c r) = Clear" using req v judge_clear_iff by blast
  then have "tier_clears (cx_trustTier cx) (Some (ra_overallTier r))"
    unfolding judge_in_outcome outcome_of_iff(2) [symmetric] auto_clear_iff by simp
  then have "oc_autoExecute oc \<longleftrightarrow> confidence_index C_MODERATE \<le> confidence_index (ca_confidence c)"
    using s some req \<open>c' = c\<close> by (simp add: shouldAutoExecute_iff r)
  then show ?thesis by (cases "ca_confidence c") simp_all
qed

section \<open>What is written and looked up\<close>

lemma find_map_key: "find (\<lambda>r. ra_actionId r = k) (map (assess now) cs) =
    map_option (assess now) (find (\<lambda>c. ca_id c = k) cs)"
  by (induction cs) (simp_all add: assess_def Let_def)

lemma all_assessments:
  assumes "distinct (map ca_id cs)"
  shows "List.map_filter (\<lambda>c. map_of (assessments_of now cs) (ca_id c)) cs = map (assess now) cs"
proof -
  have "List.map_filter (\<lambda>c. map_of (assessments_of now cs) (ca_id c)) xs = map (assess now) xs"
    if "set xs \<subseteq> set cs" for xs
    using that by (induction xs) (simp_all add: assessment_of_distinct(2) [OF assms] map_filter_simps)
  then show ?thesis by blast
qed

text \<open>
  a decision writes its candidates first, then one assessment per candidate, for a candidate
  already written, and its outcome last; without candidates only the outcome. Looking up a
  candidate's assessment on the outcome gives the one written for it, and nothing for any other
  identifier.
\<close>

theorem writes_and_lookup:
  assumes "decide env cx = Some (oc, fx)" and "distinct (map ca_id (oc_allCandidates oc))"
  shows "fx = (if oc_allCandidates oc = [] then []
       else SaveCandidates (oc_allCandidates oc) #
         map (\<lambda>c. SaveRiskAssessment (assess (en_now env) c)) (oc_allCandidates oc)) @ [SaveOutcome oc] \<and>
    getAssessmentForAction oc k =
      map_option (assess (en_now env)) (find (\<lambda>c. ca_id c = k) (oc_allCandidates oc))"
  using assms(1)
proof (cases rule: decide_cases)
  case none
  then show ?thesis by (simp add: no_candidate_outcome_def getAssessmentForAction_def)
next
  case (some cs)
  have d: "distinct (map ca_id cs)" using assms(2) some by simp
  have "oc_allRiskAssessments oc = Some (map (assess (en_now env)) cs)"
    using some all_assessments [OF d] by (simp add: outcome_from_def)
  then have "getAssessmentForAction oc k =
      map_option (assess (en_now env)) (find (\<lambda>c. ca_id c = k) cs)"
    using some(2) find_map_key [of k "en_now env" cs]
    by (cases cs) (simp_all add: getAssessmentForAction_def)
  then show ?thesis using some by simp
qed

lemma builtin_total_iff:
  assumes "en_generator env = None"
  shows "decide env cx = None \<longleftrightarrow>
    do_situationType (cx_decision cx) = GROCERY_REORDER \<and>
    (case nullish_or (raw (cx_decision cx) ''items'') (JArr []) of
       JArr items \<Rightarrow> JNull \<in> set items \<or> JUndefined \<in> set items | _ \<Rightarrow> True)"
proof -
  have sum: "sum_prices acc items = None \<longleftrightarrow> JNull \<in> set items \<or> JUndefined \<in> set items" for acc items
    by (induction acc items rule: sum_prices.induct) (auto simp: item_price_def Let_def split: option.splits)
  have grocery: "generateGroceryCandidates uid d profile = None \<longleftrightarrow>
      (case nullish_or (raw d ''items'') (JArr []) of
         JArr items \<Rightarrow> JNull \<in> set items \<or> JUndefined \<in> set items | _ \<Rightarrow> True)" for uid d profile
    by (simp add: generateGroceryCandidates_def grocery_items_def sum bind_eq_None_conv
        split: jsval.splits)
  have "dispatchCandidates uid d profile hints = None \<longleftrightarrow> do_situationType d = GROCERY_REORDER \<and>
      generateGroceryCandidates uid d profile = None" for uid d profile hints
    by (cases "do_situationType d") (simp_all add: dispatchCandidates_def)
  moreover have "decide env cx = None \<longleftrightarrow> dispatchCandidates (en_uid env) (cx_decision cx)
      (en_profile env (cx_userId cx))
      (fetchSenderLabelHints (en_labelPort env) (cx_userId cx) (cx_decision cx)) = None"
    using assms by (auto simp: decide_def prepared_def generated_def generateCandidates_def Let_def
        split: option.splits)
  ultimately show ?thesis by (simp add: grocery)
qed

text \<open>
  with the built-in generators a decision fails only for a grocery order whose items are no
  array of objects; every other decision, of any type and content, has an outcome.
\<close>

theorem builtin_decision_total:
  assumes "en_generator env = None"
  shows "decide env cx = None \<longleftrightarrow>
    do_situationType (cx_decision cx) = GROCERY_REORDER \<and>
    (case nullish_or (raw (cx_decision cx) ''items'') (JArr []) of
       JArr items \<Rightarrow> JNull \<in> set items \<or> JUndefined \<in> set items | _ \<Rightarrow> True)"
  by (rule builtin_total_iff [OF assms])

section \<open>Hypothetical questions\<close>

text \<open>
  the alternatives offered by a hypothetical query are candidates that the policies do not
  deny and differ from the predicted action. The query is answered without the user's autonomy
  settings, and it writes an outcome to the repository like any decision.
\<close>

theorem query_alternatives:
  assumes "whatWouldIDo env userId request service tier = Some (rsp, fx)"
    and "\<And>cs. prepared env (query_context env userId request service tier) = Some cs \<Longrightarrow>
      distinct (map ca_id cs)"
  shows "\<exists>oc. last fx = SaveOutcome oc \<and> ww_predictedAction rsp = oc_selectedAction oc \<and>
    (\<forall>c \<in> set (ww_alternativeActions rsp). c \<in> set (oc_allCandidates oc) \<and>
       ww_predictedAction rsp \<noteq> Some c \<and>
       pd_allowed (evaluate_policies (en_globallyPaused env) (en_clock env) c
         (en_enabledPolicies env userId) tier (Some (assess (en_now env) c)) None))"
proof -
  let ?cx = "query_context env userId request service tier"
  obtain oc where oc: "decide env ?cx = Some (oc, fx)" "ww_predictedAction rsp = oc_selectedAction oc"
    "ww_alternativeActions rsp = alternatives oc"
    using assms(1) by (auto simp: whatWouldIDo_def)
  have settings: "cx_autonomySettings ?cx = None" "cx_userId ?cx = userId" "cx_trustTier ?cx = tier"
    by (simp_all add: query_context_def Let_def)
  from oc(1) show ?thesis
  proof (cases rule: decide_cases)
    case none
    then show ?thesis using oc by (simp add: alternatives_def no_candidate_outcome_def)
  next
    case (some cs)
    have d: "distinct (map ca_id cs)" using assms(2) some(1) by blast
    have "pd_allowed (judge_in env ?cx c (assess (en_now env) c))"
      if c: "c \<in> set (alternatives oc)" for c
    proof -
      have "map_of (sl_verdicts (chosen env ?cx cs)) (ca_id c) \<in> {Some v_allowed, Some v_requires_approval}"
        "c \<in> set cs" using c some(3) by (auto simp: alternatives_def Let_def)
      then obtain c' r' where find: "find (\<lambda>(x, r). ca_id x = ca_id c) (ranking env ?cx cs) = Some (c', r')"
        "verdict (judge_in env ?cx c' r') \<noteq> v_denied"
        unfolding chosen_def select_all_def fold_select_verdicts [OF ranking_ids [OF d]]
        by (auto simp: no_selection_def split: option.splits)
      then have "c' \<in> set cs" "r' = assess (en_now env) c'" "ca_id c' = ca_id c"
        using find_Some_in [OF find(1)] ranking_pairs [OF d] by auto
      then have "c' = c" using d \<open>c \<in> set cs\<close> by (auto simp: distinct_map inj_on_def)
      then show ?thesis using find(2) \<open>r' = _\<close> by (auto simp: verdict_def split: if_splits)
    qed
    moreover have "pd_allowed (judge_in env ?cx c r) \<longleftrightarrow>
        pd_allowed (evaluate_policies (en_globallyPaused env) (en_clock env) c
          (en_enabledPolicies env userId) tier (Some r) None)" for c r
      using judge_in_outcome [of env ?cx c r] unfolding settings
      by (metis outcome_of_iff(1))
    ultimately show ?thesis using some oc
      by (intro exI [of _ oc]) (auto simp: alternatives_def Let_def)
  qed
qed

section \<open>Concrete instances\<close>

definition sample_decision :: decision_object where
  "sample_decision = \<lparr> do_id = ''d1'', do_situationType = EMAIL_TRIAGE, do_domain = ''email'',
     do_urgency = U_low, do_summary = ''hi'', do_rawData = [], do_interpretedAt = 0,
     do_provenance = Some untrusted_external \<rparr>"

definition sample_context :: decision_context where
  "sample_context = \<lparr> cx_userId = ''u'', cx_decision = sample_decision, cx_trustTier = LOW_AUTONOMY,
     cx_relevantPreferences = [], cx_patterns = None, cx_traits = None, cx_episodicMemories = None,
     cx_grantedScopes = None, cx_autonomySettings = Some email_settings \<rparr>"

definition sample_env :: environment where
  "sample_env = \<lparr> en_relevantPreferences = (\<lambda>_ _ _. []),
     en_profile = (\<lambda>u. \<lparr> tp_userId = u, tp_version = 1,
       tp_preferences = [], tp_inferences = [] \<rparr>),
     en_enabledPolicies = (\<lambda>_. []), en_generator = Some (\<lambda>_ _ _. Some [label_action]),
     en_labelPort = None, en_globallyPaused = False, en_clock = (12, 0), en_now = 0,
     en_uid = (\<lambda>n. replicate n CHR ''x''), en_outcomeId = ''o1'' \<rparr>"

definition sample_result :: "decision_outcome \<times> effect list" where
  "sample_result = the (decide sample_env sample_context)"

lemma sample_prepared: "prepared sample_env sample_context = Some [label_action]"
proof -
  have "applyScopeGate [label_action] [] = [label_action]"
    by (simp add: applyScopeGate_def gate_candidate_def hasWriteScope_def label_needs_no_scope
        label_action_def)
  then show ?thesis
    by (simp add: prepared_def generated_def sample_env_def sample_context_def sample_decision_def
        granted_def stamp_provenance_def stripAwarenessTierReplies_def OUTBOUND_REPLY_ACTIONS_def
        label_action_def)
qed

lemma sample_judged:
  "\<not> pd_requiresApproval (judge_in sample_env sample_context label_action (assess 0 label_action))"
  "verdict (judge_in sample_env sample_context label_action (assess 0 label_action)) \<noteq> v_denied"
  "shouldAutoExecute 0 label_action LOW_AUTONOMY"
  by code_simp+

lemma sample_facts:
  "decide sample_env sample_context = Some sample_result"
  "oc_autoExecute (fst sample_result)"
  "oc_allCandidates (fst sample_result) = [label_action]"
  "oc_selectedAction (fst sample_result) = Some label_action"
  "\<not> oc_requiresApproval (fst sample_result)"
proof -
  have env: "en_now sample_env = 0" "cx_trustTier sample_context = LOW_AUTONOMY"
    by (simp_all add: sample_env_def sample_context_def)
  have "ranked cx (assessments_of 0 [label_action]) [label_action] = [(label_action, assess 0 label_action)]"
    for cx by (simp add: ranked_def assessment_of_def assessments_of_def)
  then obtain oc fx where oc: "decide sample_env sample_context = Some (oc, fx)" "oc_autoExecute oc"
    "oc_allCandidates oc = [label_action]" "oc_selectedAction oc = Some label_action" "\<not> oc_requiresApproval oc"
    by (simp add: decide_def sample_prepared Let_def env select_all_def select_step_def
        no_selection_def sample_judged)
  then show "decide sample_env sample_context = Some sample_result"
    "oc_autoExecute (fst sample_result)"
    "oc_allCandidates (fst sample_result) = [label_action]"
    "oc_selectedAction (fst sample_result) = Some label_action"
    "\<not> oc_requiresApproval (fst sample_result)"
    by (simp_all add: sample_result_def)
qed

lemma sample_pair:
  "decide sample_env sample_context = Some (fst sample_result, snd sample_result)"
  "distinct (map ca_id (oc_allCandidates (fst sample_result)))"
  by (simp_all add: sample_facts)

theorem auto_execute_safe_witness:
  "\<exists>c. oc_selectedAction (fst sample_result) = Some c \<and> ca_reversible c \<and>
     severity_of c = severity_none \<and> \<not> quiet_now email_settings (12, 0)"
  using auto_execute_safe [OF sample_pair(1) sample_facts(2)]
  by (auto simp: sample_context_def sample_env_def)

theorem selection_best_witness:
  "\<not> denied_in sample_env sample_context label_action"
  using selection_best [OF sample_pair] by (simp add: sample_facts(4))

theorem unattended_needs_confidence_witness:
  "ca_confidence label_action \<in> {C_MODERATE, C_HIGH, C_CONFIRMED}"
  using unattended_needs_confidence [OF sample_pair sample_facts(4,5)] sample_facts(2) by blast

theorem writes_and_lookup_witness:
  "length (snd sample_result) = 3 \<and>
   getAssessmentForAction (fst sample_result) ''a1'' = Some (assess 0 label_action)"
  using writes_and_lookup [OF sample_pair, of "''a1''"]
  by (simp add: sample_facts(3)) (simp add: label_action_def sample_env_def)

definition builtin_env :: environment where
  "builtin_env = sample_env \<lparr> en_generator := None \<rparr>"

theorem builtin_decision_total_witness:
  "decide builtin_env sample_context \<noteq> None"
  using builtin_decision_total [of builtin_env sample_context]
  by (simp add: builtin_env_def sample_context_def sample_decision_def)

definition sample_request :: what_would_i_do_request where
  "sample_request = \<lparr> wr_situation = ''hi'', wr_domain = None, wr_urgency = None \<rparr>"

definition sample_service :: query_service where
  "sample_service = \<lparr> qs_relevantPreferences = (\<lambda>_ _ _. []), qs_patterns = (\<lambda>_. []),
     qs_traits = (\<lambda>_. []) \<rparr>"

theorem query_alternatives_witness:
  "\<exists>rsp fx. whatWouldIDo builtin_env ''u'' sample_request sample_service LOW_AUTONOMY = Some (rsp, fx) \<and>
     (\<exists>oc. last fx = SaveOutcome oc)"
proof -
  let ?cx = "query_context builtin_env ''u'' sample_request sample_service LOW_AUTONOMY"
  have "do_situationType (cx_decision ?cx) = GENERIC"
    by (simp add: query_context_def sample_request_def inferSituationType_def Let_def)
  moreover have none: "en_generator builtin_env = None" by (simp add: builtin_env_def)
  ultimately have "decide builtin_env ?cx \<noteq> None"
    unfolding builtin_total_iff [OF none] by simp
  then obtain rsp fx where
    q: "whatWouldIDo builtin_env ''u'' sample_request sample_service LOW_AUTONOMY = Some (rsp, fx)"
    by (fastforce simp: whatWouldIDo_def)
  have "inj (en_uid builtin_env)"
    by (auto simp: builtin_env_def sample_env_def inj_def replicate_eq_replicate)
  then have "\<exists>oc. last fx = SaveOutcome oc"
    using query_alternatives [OF q] builtin_ids [OF _ none] by blast
  then show ?thesis using q by blast
qed

end
