(* ===== verification/ExecutionEvidence.thy ===== *)
theory ExecutionEvidence
  imports Regex
begin

text \<open>
  The durable evidence of executions, \<open>packages/shared-types/src/execution-evidence.ts\<close>: the
  redaction of recognisable credentials, the identifier grammar, and the typed schemas that adapter
  outputs, events, plans, observations and memory reports are reduced to. The known secrets of a
  call are an argument, as are the instants that \<open>Date\<close> reads from a string.
\<close>

definition REDACTED_CREDENTIAL :: string where
  "REDACTED_CREDENTIAL = ''[redacted:credential]''"

definition REDACTED_EVIDENCE :: string where
  "REDACTED_EVIDENCE = ''[redacted:unapproved-evidence]''"

definition REDACTED_ERROR :: string where
  "REDACTED_ERROR = ''[redacted:execution-error]''"

definition REDACTED_URL :: string where
  "REDACTED_URL = ''[redacted:url]''"

definition MAX_IDENTIFIER_LENGTH :: nat where
  "MAX_IDENTIFIER_LENGTH = 128"

definition MAX_TEXT_LENGTH :: nat where
  "MAX_TEXT_LENGTH = 1000"

definition TERMINAL_STATUSES :: "string list" where
  "TERMINAL_STATUSES = [''completed'', ''failed'', ''ambiguous'']"

definition RESULT_STATUSES :: "string list" where
  "RESULT_STATUSES = [''pending'', ''running'', ''completed'', ''failed'', ''ambiguous'']"

definition EVENT_TYPES :: "string list" where
  "EVENT_TYPES = [''plan_started'', ''step_started'', ''step_completed'', ''step_failed'',
     ''plan_completed'', ''plan_failed'']"

definition MEMORY_STATUSES :: "string list" where
  "MEMORY_STATUSES = [''suggested'', ''queued_approval'', ''auto_executed'', ''blocked_by_policy'',
     ''learning_needed'', ''execution_failed'', ''execution_ambiguous'', ''noted_awareness'', ''skipped'']"

definition SAFE_FALLBACK_REASON :: string where
  "SAFE_FALLBACK_REASON = ''previous adapter returned non-completed status, fallback unsafe''"

section \<open>Recognisable credentials\<close>

definition plus :: "rx \<Rightarrow> rx" where
  "plus r = Seq r (Star r)"

definition at_least :: "nat \<Rightarrow> rx \<Rightarrow> rx" where
  "at_least n r = seqs (replicate n r @ [Star r])"

definition is_alnum :: "char \<Rightarrow> bool" where
  "is_alnum c = (is_word c \<and> c \<noteq> CHR ''_'')"

definition alnum_or :: "string \<Rightarrow> rx" where
  "alnum_or s = Chr (\<lambda>c. is_alnum c \<or> c \<in> set s)"

definition key_name_i :: rx where
  "key_name_i = opt (Seq (plus (alnum_or '' '')) (lit '' ''))"

definition rx_private_key :: rx where
  "rx_private_key = seqs [lit_i ''-----BEGIN '', key_name_i, lit_i ''PRIVATE KEY-----'', Lazy (Chr (\<lambda>_. True)),
     Alt (seqs [lit_i ''-----END '', key_name_i, lit_i ''PRIVATE KEY-----'']) AtEnd]"

definition rx_url :: rx where
  "rx_url = seqs [lit_i ''http'', opt (lit_i ''s''), lit ''://'',
     plus (Chr (\<lambda>c. \<not> is_space c \<and> c \<notin> {CHR 34, CHR 39, CHR ''<'', CHR ''>''}))]"

definition rx_bearer :: rx where
  "rx_bearer = seqs [Boundary, lit_i ''Bearer'', spaces1,
     plus (Chr (\<lambda>c. \<not> is_space c \<and> c \<notin> {CHR '','', CHR '';'', CHR 34, CHR 39}))]"

definition rx_assignment :: rx where
  "rx_assignment = (let dash = opt (any_of ''_-'') in
     seqs [Boundary,
       alts [seqs [lit_i ''access'', dash, lit_i ''token''], seqs [lit_i ''refresh'', dash, lit_i ''token''],
         seqs [lit_i ''api'', dash, lit_i ''key''], seqs [lit_i ''client'', dash, lit_i ''secret''],
         lit_i ''password''],
       lit ''='', plus (Chr (\<lambda>c. \<not> is_space c \<and> c \<noteq> CHR ''&''))])"

definition rx_jwt :: rx where
  "rx_jwt = (let part = plus (alnum_or ''_-'') in
     seqs [Boundary, lit ''eyJ'', part, lit ''.'', part, lit ''.'', part, Boundary])"

definition rx_google_access :: rx where
  "rx_google_access = seqs [Boundary, lit ''ya29.'', plus (alnum_or ''._-''), Boundary]"

definition rx_google_refresh :: rx where
  "rx_google_refresh = seqs [Boundary, lit ''1//'', plus (alnum_or ''._-''), Boundary]"

definition rx_sk :: rx where
  "rx_sk = seqs [Boundary, lit ''sk-'', opt (lit ''proj-''), at_least 6 (alnum_or ''_-''), Boundary]"

definition rx_github :: rx where
  "rx_github = seqs [Boundary, lit ''gh'', any_of ''pousr'', lit ''_'', at_least 20 (alnum_or ''''), Boundary]"

definition rx_github_pat :: rx where
  "rx_github_pat = seqs [Boundary, lit ''github_pat_'', at_least 20 (alnum_or ''_''), Boundary]"

definition rx_aws :: rx where
  "rx_aws = seqs ([Boundary, Alt (lit ''AKIA'') (lit ''ASIA'')]
     @ replicate 16 (Chr (\<lambda>c. is_alnum c \<and> lower_char c \<noteq> c \<or> is_digit 10 c)) @ [Boundary])"

definition rx_slack :: rx where
  "rx_slack = seqs [Boundary, lit_i ''xox'', Chr (\<lambda>c. lower_char c \<in> set ''baprs''), lit ''-'',
     at_least 8 (alnum_or ''-''), Boundary]"

text \<open>The patterns of the code in their order, each with the text it becomes.\<close>

definition with_credential :: "string \<Rightarrow> string" where
  "with_credential m = REDACTED_CREDENTIAL"

definition REDACTIONS :: "(rx \<times> (string \<Rightarrow> string)) list" where
  "REDACTIONS =
     [(rx_private_key, with_credential),
      (rx_url, \<lambda>m. REDACTED_URL),
      (rx_bearer, \<lambda>m. ''Bearer '' @ REDACTED_CREDENTIAL),
      (rx_assignment, \<lambda>m. takeWhile (\<lambda>c. c \<noteq> CHR ''='') m @ ''='' @ REDACTED_CREDENTIAL),
      (rx_jwt, with_credential), (rx_google_access, with_credential),
      (rx_google_refresh, with_credential), (rx_sk, with_credential), (rx_github, with_credential),
      (rx_github_pat, with_credential), (rx_aws, with_credential), (rx_slack, with_credential)]"

text \<open>\<open>s.split(secret).join(marker)\<close> for a secret that is not empty.\<close>

function replace_secret :: "string \<Rightarrow> string \<Rightarrow> string \<Rightarrow> string" where
  "replace_secret secret marker [] = []"
| "replace_secret secret marker (c # s) =
     (if secret \<noteq> [] \<and> starts_with (c # s) secret
      then marker @ replace_secret secret marker (drop (length secret) (c # s))
      else c # replace_secret secret marker s)"
  by pat_completeness auto
termination by (relation "measure (\<lambda>(x, y, s). length s)") auto

definition secrets :: "string option list \<Rightarrow> string list" where
  "secrets secretValues = filter (\<lambda>s. s \<noteq> []) (List.map_filter (\<lambda>s. s) secretValues)"

definition redactRecognizableText :: "string \<Rightarrow> string option list \<Rightarrow> nat \<Rightarrow> string" where
  "redactRecognizableText value options maxLength =
     (let known = fold (\<lambda>secret s. replace_secret secret REDACTED_CREDENTIAL s) (secrets options) value in
      take maxLength (fold (\<lambda>(r, f) s. replace_all r f s) REDACTIONS known))"

section \<open>Identifiers\<close>

definition identifier_char :: "char \<Rightarrow> bool" where
  "identifier_char c \<longleftrightarrow> is_alnum c \<or> c \<in> set ''._:-''"

definition normalizeExecutionIdentifier :: "jsval \<Rightarrow> nat \<Rightarrow> string option" where
  "normalizeExecutionIdentifier v maxLength = (case v of
     JStr s \<Rightarrow> if length s = 0 \<or> maxLength < length s then None
       else if is_alnum (hd s) \<and> list_all identifier_char (tl s) then Some s else None
   | _ \<Rightarrow> None)"

definition normalizeMemoryActionAdapterName :: "jsval \<Rightarrow> string option" where
  "normalizeMemoryActionAdapterName v =
     map_option (\<lambda>i. redactRecognizableText i [] 64) (normalizeExecutionIdentifier v 64)"

definition normalizeMemoryActionReference :: "jsval \<Rightarrow> string option" where
  "normalizeMemoryActionReference v = map_option
     (\<lambda>i. if redactRecognizableText i [] MAX_TEXT_LENGTH = i then i else REDACTED_CREDENTIAL)
     (normalizeExecutionIdentifier v MAX_IDENTIFIER_LENGTH)"

definition normalizeMemoryActionIdentifier :: "jsval \<Rightarrow> string option" where
  "normalizeMemoryActionIdentifier v =
     (case normalizeExecutionIdentifier v MAX_IDENTIFIER_LENGTH of None \<Rightarrow> None
      | Some i \<Rightarrow> if redactRecognizableText i [] MAX_TEXT_LENGTH = i then Some i else None)"

definition normalizeMemoryActionText :: "jsval \<Rightarrow> string option list \<Rightarrow> string option" where
  "normalizeMemoryActionText v options = (case v of
     JStr s \<Rightarrow> if s \<noteq> [] then Some (redactRecognizableText s options MAX_TEXT_LENGTH) else None
   | _ \<Rightarrow> None)"

section \<open>Schemas\<close>

text \<open>What a field contributes to the normal form, and whether something was left out.\<close>

definition identifier_field ::
    "string option list \<Rightarrow> jsobj \<Rightarrow> string \<Rightarrow> nat \<Rightarrow> nat \<Rightarrow> jsobj \<times> bool" where
  "identifier_field options source key maxIdentifier maxText =
     (case normalizeExecutionIdentifier (get source key) maxIdentifier of
        Some i \<Rightarrow> ([(key, JStr (redactRecognizableText i options maxText))], False)
      | None \<Rightarrow> ([], get source key \<noteq> JUndefined))"

definition checked_field :: "(jsval \<Rightarrow> bool) \<Rightarrow> jsobj \<Rightarrow> string \<Rightarrow> jsobj \<times> bool" where
  "checked_field ok source key =
     (if ok (get source key) then ([(key, get source key)], False) else ([], get source key \<noteq> JUndefined))"

definition attempts_value :: "jsval \<Rightarrow> bool" where
  "attempts_value v = (case v of JNum (Fin x) \<Rightarrow> of_int \<lfloor>x\<rfloor> = x \<and> 0 \<le> x \<and> x \<le> 100 | _ \<Rightarrow> False)"

definition status_value :: "string list \<Rightarrow> jsval \<Rightarrow> bool" where
  "status_value statuses v = (case v of JStr s \<Rightarrow> s \<in> set statuses | _ \<Rightarrow> False)"

definition bool_value :: "jsval \<Rightarrow> bool" where
  "bool_value v = (case v of JBool _ \<Rightarrow> True | _ \<Rightarrow> False)"

definition OUTPUT_KEYS :: "string list" where
  "OUTPUT_KEYS = [''adapter_used'', ''routing_decision'', ''fallbacks_attempted'', ''fallback_skipped_reason'',
     ''adapter_plan_id'', ''status'', ''success'', ''rollback_available'', ''_redacted'']"

definition output_fields :: "string option list \<Rightarrow> jsobj \<Rightarrow> (jsobj \<times> bool) list" where
  "output_fields options source =
     [identifier_field options source ''adapter_used'' 64 64,
      identifier_field options source ''routing_decision'' 64 64,
      checked_field attempts_value source ''fallbacks_attempted'',
      checked_field (\<lambda>v. v = JStr SAFE_FALLBACK_REASON) source ''fallback_skipped_reason'',
      identifier_field options source ''adapter_plan_id'' MAX_IDENTIFIER_LENGTH MAX_TEXT_LENGTH,
      checked_field (status_value RESULT_STATUSES) source ''status'',
      checked_field bool_value source ''success'',
      checked_field bool_value source ''rollback_available'']"

definition normalizeAdapterOutput :: "jsval \<Rightarrow> string option list \<Rightarrow> jsobj" where
  "normalizeAdapterOutput v options = (case v of
     JNull \<Rightarrow> []
   | JUndefined \<Rightarrow> []
   | JObj source \<Rightarrow>
       (let fields = output_fields options source;
            omitted = list_ex snd fields \<or> list_ex (\<lambda>(k, x). k \<notin> set OUTPUT_KEYS) source \<or>
              get source ''_redacted'' = JStr REDACTED_EVIDENCE in
        concat (map fst fields) @ (if omitted then [(''_redacted'', JStr REDACTED_EVIDENCE)] else []))
   | _ \<Rightarrow> [(''_redacted'', JStr REDACTED_EVIDENCE)])"

definition normalizeExecutionEventPayload :: "jsval \<Rightarrow> string option list \<Rightarrow> jsobj" where
  "normalizeExecutionEventPayload v options =
     (let normalized = normalizeAdapterOutput v options in
      if get normalized ''adapter_plan_id'' \<noteq> JUndefined
      then put ''_redacted'' (JStr REDACTED_EVIDENCE) (filter (\<lambda>(k, x). k \<noteq> ''adapter_plan_id'') normalized)
      else normalized)"

definition normalizeExecutionEventType :: "jsval \<Rightarrow> string" where
  "normalizeExecutionEventType v = (case v of
     JStr s \<Rightarrow> if s \<in> set EVENT_TYPES then s else ''unknown'' | _ \<Rightarrow> ''unknown'')"

definition normalize_step :: "jsval \<Rightarrow> (string \<times> string) list" where
  "normalize_step step = (case step of
     JObj source \<Rightarrow>
       (case (normalizeExecutionIdentifier (get source ''type'') 128, get source ''status'') of
          (Some ty, JStr status) \<Rightarrow>
            if status \<in> {''pending'', ''running'', ''completed'', ''failed'', ''skipped''}
            then [(redactRecognizableText ty [] 128, status)] else []
        | _ \<Rightarrow> [])
   | _ \<Rightarrow> [])"

text \<open>The steps that are left, as pairs of a type and a status.\<close>

definition normalizeExecutionPlanSteps :: "jsval \<Rightarrow> (string \<times> string) list" where
  "normalizeExecutionPlanSteps v = (case v of
     JArr steps \<Rightarrow> concat (map normalize_step (take 100 steps)) | _ \<Rightarrow> [])"

definition normalizeExecutionError :: "jsval \<Rightarrow> string" where
  "normalizeExecutionError v =
     (if v = JNull \<or> v = JUndefined \<or> v = JStr [] then [] else REDACTED_ERROR)"

definition normalizeExecutionObservation :: "jsobj \<Rightarrow> string option list \<Rightarrow> jsobj" where
  "normalizeExecutionObservation value options =
     (let planId = normalizeExecutionIdentifier (get value ''planId'') MAX_IDENTIFIER_LENGTH;
          status = (if status_value TERMINAL_STATUSES (get value ''status'') then Some (get value ''status'')
            else None);
          adapterName = normalizeExecutionIdentifier
            (nullish_or (get value ''adapterName'') (get value ''adapterUsed'')) 64;
          adapterPlanId = normalizeExecutionIdentifier (get value ''adapterPlanId'') MAX_IDENTIFIER_LENGTH in
      (case planId of Some i \<Rightarrow> [(''planId'', JStr i)] | None \<Rightarrow> [])
      @ (case status of Some s \<Rightarrow> [(''status'', s)] | None \<Rightarrow> [])
      @ [(''output'', JObj (normalizeAdapterOutput (get value ''output'') options)),
         (''error'', if truthy (get value ''error'') then JStr (normalizeExecutionError (get value ''error''))
            else JNull)]
      @ (case adapterName of
           Some i \<Rightarrow> [(if get value ''adapterName'' \<noteq> JUndefined then ''adapterName'' else ''adapterUsed'',
             JStr (redactRecognizableText i options 64))]
         | None \<Rightarrow> [])
      @ (case adapterPlanId of
           Some i \<Rightarrow> [(''adapterPlanId'', JStr (redactRecognizableText i options MAX_TEXT_LENGTH))]
         | None \<Rightarrow> [])
      @ (if planId = None \<or> status = None \<or>
           list_ex (\<lambda>(k, x). k \<notin> {''planId'', ''status'', ''output'', ''error'', ''adapterName'',
             ''adapterUsed'', ''adapterPlanId'', ''_redacted''}) value \<or>
           get value ''_redacted'' = JStr REDACTED_EVIDENCE
         then [(''_redacted'', JStr REDACTED_EVIDENCE)] else []))"

definition given_string :: "string option \<Rightarrow> string \<Rightarrow> jsobj" where
  "given_string x key = (case x of Some s \<Rightarrow> if s = [] then [] else [(key, JStr s)] | None \<Rightarrow> [])"

text \<open>The instant of an attempt is what \<open>to_iso\<close> makes of the string, None for an invalid date.\<close>

definition normalizeMemoryActionReport ::
    "(string \<Rightarrow> string option) \<Rightarrow> jsobj \<Rightarrow> string option list \<Rightarrow> jsobj" where
  "normalizeMemoryActionReport to_iso value options =
     (let identifier = (\<lambda>key fallback. JStr (case normalizeMemoryActionIdentifier (get value key) of
            Some i \<Rightarrow> i | None \<Rightarrow> fallback));
          shown = (\<lambda>key. JStr (case normalizeMemoryActionText (get value key) options of
            Some s \<Rightarrow> s | None \<Rightarrow> REDACTED_EVIDENCE));
          kept = (\<lambda>key. if normalizeMemoryActionIdentifier (get value key) \<noteq> None
            then [(key, get value key)] else []) in
      [(''opportunityId'', identifier ''opportunityId'' ''unknown''),
       (''status'', if status_value MEMORY_STATUSES (get value ''status'') then get value ''status''
          else JStr ''execution_ambiguous''),
       (''title'', shown ''title''), (''actionType'', identifier ''actionType'' ''unknown''),
       (''actionLabel'', shown ''actionLabel'')]
      @ given_string (normalizeMemoryActionAdapterName (get value ''adapterName'')) ''adapterName''
      @ kept ''decisionId'' @ kept ''approvalRequestId'' @ kept ''executionPlanId''
      @ given_string (normalizeMemoryActionText (get value ''policyReason'') options) ''policyReason''
      @ given_string (normalizeMemoryActionText (get value ''routeReason'') options) ''routeReason''
      @ [(''summary'', shown ''summary''), (''nextStep'', shown ''nextStep''),
         (''attemptedAt'', JStr (case get value ''attemptedAt'' of
            JStr s \<Rightarrow> (if length s \<le> 64 then
                (case to_iso s of Some t \<Rightarrow> t | None \<Rightarrow> ''1970-01-01T00:00:00.000Z'')
              else ''1970-01-01T00:00:00.000Z'')
          | _ \<Rightarrow> ''1970-01-01T00:00:00.000Z''))])"

section \<open>Properties\<close>

lemma redacted_length: "length (redactRecognizableText s options n) \<le> n"
  by (simp add: redactRecognizableText_def Let_def)

text \<open>What a durable output may hold under each of its keys.\<close>

definition bounded_text :: "nat \<Rightarrow> jsval \<Rightarrow> bool" where
  "bounded_text n v = (case v of JStr s \<Rightarrow> length s \<le> n | _ \<Rightarrow> False)"

definition output_entry :: "string \<times> jsval \<Rightarrow> bool" where
  "output_entry e = (case e of (k, v) \<Rightarrow>
     if k = ''adapter_used'' \<or> k = ''routing_decision'' then bounded_text 64 v
     else if k = ''fallbacks_attempted'' then attempts_value v
     else if k = ''fallback_skipped_reason'' then v = JStr SAFE_FALLBACK_REASON
     else if k = ''adapter_plan_id'' then bounded_text 1000 v
     else if k = ''status'' then status_value RESULT_STATUSES v
     else if k = ''success'' \<or> k = ''rollback_available'' then bool_value v
     else k = ''_redacted'' \<and> v = JStr REDACTED_EVIDENCE)"

lemma identifier_field_cases:
  "fst (identifier_field options source key n m) = [] \<or>
   (\<exists>v. fst (identifier_field options source key n m) = [(key, v)] \<and> bounded_text m v)"
  using redacted_length by (auto simp: identifier_field_def bounded_text_def split: option.splits)

lemma checked_field_cases:
  "fst (checked_field ok source key) = [] \<or>
   (\<exists>v. fst (checked_field ok source key) = [(key, v)] \<and> ok v)"
  by (simp add: checked_field_def)

lemma fields_keys:
  "list_all2 (\<lambda>f k. fst f = [] \<or> (\<exists>v. fst f = [(k, v)] \<and> output_entry (k, v))) fs ks \<Longrightarrow> distinct ks \<Longrightarrow>
   distinct (map fst (concat (map fst fs))) \<and> set (map fst (concat (map fst fs))) \<subseteq> set ks \<and>
   list_all output_entry (concat (map fst fs))"
proof (induction rule: list_all2_induct)
  case (Cons f fs k ks)
  define out where "out = concat (map fst fs)"
  have step: "concat (map fst (f # fs)) = fst f @ out" by (simp add: out_def)
  have IH: "distinct (map fst out)" "fst ` set out \<subseteq> set ks" "list_all output_entry out" "k \<notin> set ks"
    using Cons unfolding out_def [symmetric] by simp_all
  from Cons(1) show ?case
    unfolding step using IH by auto
qed simp

lemma output_fields_keys:
  "list_all2 (\<lambda>f k. fst f = [] \<or> (\<exists>v. fst f = [(k, v)] \<and> output_entry (k, v)))
     (output_fields options source) (butlast OUTPUT_KEYS)"
  using identifier_field_cases checked_field_cases
  by (simp add: output_fields_def OUTPUT_KEYS_def output_entry_def MAX_TEXT_LENGTH_def) blast

lemma output_typed:
  "list_all output_entry (normalizeAdapterOutput v options) \<and> distinct (map fst (normalizeAdapterOutput v options))"
proof -
  have marker: "output_entry (''_redacted'', JStr REDACTED_EVIDENCE)" by (simp add: output_entry_def)
  have d: "distinct (butlast OUTPUT_KEYS)" "''_redacted'' \<notin> set (butlast OUTPUT_KEYS)"
    by (simp_all add: OUTPUT_KEYS_def)
  show ?thesis
  proof (cases v)
    case (JObj source)
    then show ?thesis
      using fields_keys [OF output_fields_keys d(1), of options source] d(2) marker
      by (auto simp: normalizeAdapterOutput_def Let_def)
  qed (simp_all add: normalizeAdapterOutput_def marker)
qed

text \<open>
  C31: whatever an adapter returned, its durable form is typed and bounded: known keys, each at most
  once, with two names of at most 64 characters, a plan identifier of at most 1000, a status of the
  closed vocabulary, a count up to 100, flags and markers; no array, no object and no other text.
  The same holds for the payload of an event, which never has a plan identifier.
\<close>

theorem evidence_typed:
  "list_all output_entry (normalizeAdapterOutput v options) \<and>
   distinct (map fst (normalizeAdapterOutput v options)) \<and>
   list_all output_entry (normalizeExecutionEventPayload v options) \<and>
   distinct (map fst (normalizeExecutionEventPayload v options)) \<and>
   get (normalizeExecutionEventPayload v options) ''adapter_plan_id'' = JUndefined"
proof -
  have put: "list_all output_entry (put k x m)" if "list_all output_entry m" "output_entry (k, x)" for k x m
    using that by (induction k x m rule: put.induct) auto
  note typed = output_typed [of v options]
  define rest where "rest = filter (\<lambda>(k, x). k \<noteq> ''adapter_plan_id'') (normalizeAdapterOutput v options)"
  have "list_all output_entry rest" "distinct (map fst rest)"
    using typed by (auto simp: rest_def list_all_iff distinct_map_filter)
  moreover have "map_of rest ''adapter_plan_id'' = None"
    unfolding map_of_eq_None_iff by (auto simp: rest_def)
  ultimately show ?thesis
    using typed put [of rest "''_redacted''" "JStr REDACTED_EVIDENCE"]
    by (auto simp: normalizeExecutionEventPayload_def Let_def rest_def [symmetric] distinct_put get_def
        output_entry_def)
qed

section \<open>Names without credentials\<close>

text \<open>A pattern of which every match contains a character with a given property.\<close>

primrec needs :: "(char \<Rightarrow> bool) \<Rightarrow> rx \<Rightarrow> bool" where
  "needs bad Empty = False"
| "needs bad (Chr P) = (\<forall>c. P c \<longrightarrow> bad c)"
| "needs bad (Seq a b) = (needs bad a \<or> needs bad b)"
| "needs bad (Alt a b) = (needs bad a \<and> needs bad b)"
| "needs bad (Star a) = False"
| "needs bad (Lazy a) = False"
| "needs bad Boundary = False"
| "needs bad AtStart = False"
| "needs bad AtEnd = False"

lemma needs_seqs: "needs bad (seqs rs) = list_ex (needs bad) rs"
  by (induction rs) (simp_all add: seqs_def)

lemma needs_match: "matches r q q' \<Longrightarrow> needs bad r \<Longrightarrow> \<exists>c \<in> set (snd q). bad c"
proof (induction rule: matches.induct)
  case (m_seq a q q' b q'')
  then show ?case using matches_suffix [OF m_seq(1)] by auto
qed auto

lemma needs_test: "rx_test r s \<Longrightarrow> needs bad r \<Longrightarrow> \<exists>c \<in> set s. bad c"
  unfolding rx_test_iff using needs_match by fastforce

definition masks :: "(string \<Rightarrow> string) \<Rightarrow> bool" where
  "masks f \<longleftrightarrow> (\<forall>m. \<exists>u. f m = CHR ''['' # u \<and> set (f m) \<subseteq> set (REDACTED_CREDENTIAL @ REDACTED_URL))"

definition plain :: "string \<Rightarrow> bool" where
  "plain s \<longleftrightarrow> (\<forall>c \<in> set s. identifier_char c \<or> c \<in> set (REDACTED_CREDENTIAL @ REDACTED_URL))"

definition bars_name :: "rx \<times> (string \<Rightarrow> string) \<Rightarrow> bool" where
  "bars_name e \<longleftrightarrow> (masks (snd e) \<and> (\<forall>p. prio (fst e) (p, []) = [])) \<or>
     (\<forall>s. plain s \<longrightarrow> \<not> rx_test (fst e) s)"

lemma redact_marks:
  assumes "\<forall>e \<in> set es. bars_name e" "plain s"
  shows "before CHR ''['' (fold (\<lambda>(r, f) s. replace_all r f s) es s) \<le> before CHR ''['' s \<and>
    ((\<exists>e \<in> set es. rx_test (fst e) s) \<longrightarrow>
      before CHR ''['' (fold (\<lambda>(r, f) s. replace_all r f s) es s) < length s)"
  using assms
proof (induction es arbitrary: s)
  case (Cons e es)
  obtain r f where e: "e = (r, f)" by fastforce
  show ?case
  proof (cases "rx_test r s")
    case False
    then show ?thesis using Cons by (simp add: e replace_all_none)
  next
    case True
    then have masks: "masks f" and empty: "\<And>p. prio r (p, []) = []"
      using Cons.prems by (auto simp: bars_name_def e)
    then have f: "\<exists>u. f m = CHR ''['' # u" "set (f m) \<subseteq> set (REDACTED_CREDENTIAL @ REDACTED_URL)" for m
      unfolding masks_def by blast+
    let ?t = "replace_all r f s"
    have "before CHR ''['' ?t < length s" "before CHR ''['' ?t \<le> before CHR ''['' s"
      using replace_marks [OF f(1) empty] replace_keeps_mark [OF f(1)] True
      by (simp_all add: replace_all_def rx_test_def)
    moreover have "set ?t \<subseteq> set s \<union> set (REDACTED_CREDENTIAL @ REDACTED_URL)"
      unfolding replace_all_def by (rule replace_chars) (rule f(2))
    then have "plain ?t" using Cons.prems(2) unfolding plain_def by blast
    ultimately show ?thesis using Cons.IH [of ?t] Cons.prems(1) by (auto simp: e)
  qed
qed simp

lemma identifier_no_space: "identifier_char c \<Longrightarrow> \<not> is_space c \<and> c \<noteq> CHR ''='' \<and> c \<noteq> CHR ''[''"
  by (auto simp: identifier_char_def is_alnum_def is_word_def is_space_def Let_def)

lemma masking: "masks with_credential" "masks (\<lambda>m. REDACTED_URL)"
  by (auto simp: masks_def with_credential_def REDACTED_CREDENTIAL_def REDACTED_URL_def)

lemma plain_free: "plain s \<Longrightarrow> c \<in> set s \<Longrightarrow> \<not> is_space c \<and> c \<noteq> CHR ''=''"
proof -
  assume c: "plain s" "c \<in> set s"
  have "list_all (\<lambda>c. \<not> is_space c \<and> c \<noteq> CHR ''='') (REDACTED_CREDENTIAL @ REDACTED_URL)" by code_simp
  then show ?thesis using c identifier_no_space unfolding plain_def list_all_iff by blast
qed

lemma redactions_bar_names: "\<forall>e \<in> set REDACTIONS. bars_name e"
proof -
  have "needs is_space rx_bearer" "needs (\<lambda>c. c = CHR ''='') rx_assignment"
    by (simp_all add: rx_bearer_def rx_assignment_def seqs_def spaces1_def lit_def Let_def)
  then have "bars_name (rx_bearer, f)" "bars_name (rx_assignment, f)" for f
    using needs_test plain_free unfolding bars_name_def by fastforce+
  moreover have "\<forall>p. prio r (p, []) = []"
    if "r \<in> {rx_private_key, rx_url, rx_jwt, rx_google_access, rx_google_refresh, rx_sk, rx_github,
      rx_github_pat, rx_aws, rx_slack}" for r
    using that
    by (auto simp: rx_private_key_def rx_url_def rx_jwt_def rx_google_access_def rx_google_refresh_def
        rx_sk_def rx_github_def rx_github_pat_def rx_aws_def rx_slack_def seqs_def lit_i_def lit_def
        chr_ends_def Let_def)
  ultimately show ?thesis
    using masking by (auto simp: REDACTIONS_def bars_name_def)
qed

lemma before_take: "before d (take k s) = min k (before d s)"
proof (induction s arbitrary: k)
  case (Cons c s)
  then show ?case by (cases k) auto
qed simp

text \<open>The names that a registry of adapters accepts.\<close>

definition canonical_name :: "string \<Rightarrow> bool" where
  "canonical_name n \<longleftrightarrow> normalizeMemoryActionAdapterName (JStr n) = Some n"

lemma canonical_clean: "canonical_name n \<Longrightarrow> list_all (\<lambda>(r, f). \<not> rx_test r n) REDACTIONS"
proof -
  assume "canonical_name n"
  then have "n \<noteq> []" "identifier_char (hd n)" "list_all identifier_char (tl n)" "length n \<le> 64"
    and fix_point: "take 64 (fold (\<lambda>(r, f) s. replace_all r f s) REDACTIONS n) = n"
    by (auto simp: canonical_name_def normalizeMemoryActionAdapterName_def normalizeExecutionIdentifier_def
        redactRecognizableText_def secrets_def List.map_filter_def identifier_char_def split: if_splits)
  then have id: "list_all identifier_char n" "length n \<le> 64" by (cases n; simp)+
  have "plain n" using id(1) by (simp add: plain_def list_all_iff)
  note marks = redact_marks [OF redactions_bar_names this]
  have "\<forall>c \<in> set n. c \<noteq> CHR ''[''" using id(1) identifier_no_space unfolding list_all_iff by blast
  then have "before CHR ''['' n = length n" by (simp add: takeWhile_eq_all_conv [THEN iffD2])
  then have "min 64 (before CHR ''['' (fold (\<lambda>(r, f) s. replace_all r f s) REDACTIONS n)) = length n"
    using before_take [of "CHR ''[''" 64 "fold (\<lambda>(r, f) s. replace_all r f s) REDACTIONS n"]
    unfolding fix_point by (rule trans [OF sym, rotated])
  then have "length n \<le> before CHR ''['' (fold (\<lambda>(r, f) s. replace_all r f s) REDACTIONS n)" by linarith
  then have "\<not> (\<exists>e \<in> set REDACTIONS. rx_test (fst e) n)" using marks by (meson leD)
  then show ?thesis by (auto simp: list_all_iff)
qed

definition small_letter :: "char \<Rightarrow> bool" where
  "small_letter c = (let n = (of_char c :: nat) in 97 \<le> n \<and> n \<le> 122)"

lemma small_letters:
  "list_all (\<lambda>c. \<not> small_letter c) (CHR 34 # ''-/ =._'')"
  "small_letter c \<Longrightarrow> identifier_char c \<and> is_alnum c \<and> lower_char c = c \<and> \<not> is_digit 10 c \<and> \<not> is_space c"
  by (simp add: small_letter_def)
    (auto simp: small_letter_def identifier_char_def is_alnum_def is_word_def lower_char_def is_digit_def
      digit_val_def is_space_def Let_def split: option.splits if_splits)

lemma canonical_letters:
  assumes "n \<noteq> []" "length n \<le> 64" "list_all small_letter n"
  shows "canonical_name n"
proof -
  have "lower_char CHR ''-'' = CHR ''-''" by (simp add: lower_char_def)
  then have others: "\<forall>c. lower_char c = lower_char CHR ''-'' \<longrightarrow> \<not> small_letter c"
    "\<forall>c. is_space c \<longrightarrow> \<not> small_letter c"
    "list_ex (needs (\<lambda>c. \<not> small_letter c))
       (replicate 16 (Chr (\<lambda>c. is_alnum c \<and> lower_char c \<noteq> c \<or> is_digit 10 c)))"
    using small_letters by (auto simp: list_ex_iff)
  have "list_all (\<lambda>(r, f). needs (\<lambda>c. \<not> small_letter c) r) REDACTIONS"
    using small_letters(1) others
    by (simp add: REDACTIONS_def rx_private_key_def rx_url_def rx_bearer_def rx_assignment_def rx_jwt_def
        rx_google_access_def rx_google_refresh_def rx_sk_def rx_github_def rx_github_pat_def rx_aws_def
        rx_slack_def needs_seqs lit_i_def lit_def spaces1_def Let_def)
  then have "\<not> rx_test r n" if "(r, f) \<in> set REDACTIONS" for r f
    using that needs_test assms(3) by (fastforce simp: list_all_iff)
  then have "fold (\<lambda>(r, f) s. replace_all r f s) es n = n" if "set es \<subseteq> set REDACTIONS" for es
    using that by (induction es) (auto simp: replace_all_none)
  then have "redactRecognizableText n [] 64 = n"
    using assms(2) by (simp add: redactRecognizableText_def secrets_def List.map_filter_def)
  moreover have "is_alnum (hd n)" "list_all identifier_char (tl n)"
    using assms(1,3) small_letters(2) by (cases n; auto simp: list_all_iff)+
  ultimately show ?thesis
    using assms(1,2) by (simp add: canonical_name_def normalizeMemoryActionAdapterName_def
        normalizeExecutionIdentifier_def)
qed

lemma canonical_samples [simp]:
  "canonical_name ''direct''" "canonical_name ''openclaw''" "canonical_name ''fax''"
  by (rule canonical_letters; simp add: small_letter_def)+

end
