(* ===== verification/AdapterRegistry.thy ===== *)
theory AdapterRegistry
  imports SharedTypes ExecutionEvidence
begin

text \<open>
  Execution adapters and their registry: the records of
  \<open>packages/shared-types/src/execution.ts\<close> and \<open>twin.ts\<close>, the adapter interface of
  \<open>packages/ironclaw-adapter/src/ironclaw-adapter.ts\<close>, and from \<open>packages/execution-router/src\<close>
  the registry (\<open>adapter-registry.ts\<close>) and the risk modifier (\<open>risk-modifier.ts\<close>). An adapter is
  a record of its methods; a method that rejects is an error value or None, and \<open>ad_ref\<close> is the
  identity of the object.
\<close>

section \<open>Plans and results\<close>

record execution_step =
  es_id :: string
  es_order :: number
  es_type :: string
  es_description :: string
  es_parameters :: jsobj
  es_timeout :: number

record execution_plan =
  xp_id :: string
  xp_decisionId :: string
  xp_executionOwnerId :: "string option"
  xp_executionChannel :: "string option"
  xp_action :: candidate_action
  xp_steps :: "execution_step list"
  xp_rollbackSteps :: "execution_step list"

datatype execution_status = ex_pending | ex_running | ex_completed | ex_failed

record execution_result =
  xr_planId :: string
  xr_status :: execution_status
  xr_error :: "string option"
  xr_output :: "jsobj option"

datatype event_type =
    plan_started | step_started | step_completed | step_failed | plan_completed | plan_failed

record execution_event =
  ee_planId :: string
  ee_stepId :: "string option"
  ee_eventType :: event_type
  ee_payload :: "jsobj option"

section \<open>The adapter interface\<close>

datatype build_error = be_invariant string | be_pre_request | be_other

record credential_binding =
  cb_provider :: string
  cb_accountEmail :: "string option"
  cb_oauthTokenId :: string
  cb_credentialRevision :: string
  cb_vaultGeneration :: "string option"

record request_preparation =
  rq_credentialBinding :: "credential_binding option"
  rq_executionChannel :: "string option"

text \<open>A stream is the events it yields and whether it ends by throwing.\<close>

record event_stream =
  sm_events :: "execution_event list"
  sm_threw :: bool

record adapter =
  ad_ref :: nat
  ad_buildPlan :: "candidate_action \<Rightarrow> bool \<Rightarrow> build_error + execution_plan"
  ad_prepareRequestStart ::
    "(execution_plan \<Rightarrow> bool \<Rightarrow> build_error + request_preparation) option"
  ad_execute :: "execution_plan \<Rightarrow> request_preparation option \<Rightarrow> execution_result option"
  ad_executeStreaming ::
    "(execution_plan \<Rightarrow> request_preparation option \<Rightarrow> event_stream) option"
  ad_rollback :: "string \<Rightarrow> bool option"

section \<open>The registry (adapter-registry.ts)\<close>

datatype reversibility_guarantee = rg_full | rg_partial | rg_none

datatype auth_model = am_hmac | am_oauth | am_api_key | am_none

record adapter_trust_profile =
  at_name :: string
  at_reversibilityGuarantee :: reversibility_guarantee
  at_authModel :: auth_model
  at_auditTrail :: bool
  at_riskModifier :: int

definition IRONCLAW_TRUST_PROFILE :: adapter_trust_profile where
  "IRONCLAW_TRUST_PROFILE = \<lparr> at_name = ''ironclaw'', at_reversibilityGuarantee = rg_full,
     at_authModel = am_hmac, at_auditTrail = True, at_riskModifier = 0 \<rparr>"

definition OPENCLAW_TRUST_PROFILE :: adapter_trust_profile where
  "OPENCLAW_TRUST_PROFILE = \<lparr> at_name = ''openclaw'', at_reversibilityGuarantee = rg_none,
     at_authModel = am_api_key, at_auditTrail = True, at_riskModifier = 1 \<rparr>"

definition DIRECT_TRUST_PROFILE :: adapter_trust_profile where
  "DIRECT_TRUST_PROFILE = \<lparr> at_name = ''direct'', at_reversibilityGuarantee = rg_partial,
     at_authModel = am_none, at_auditTrail = False, at_riskModifier = 0 \<rparr>"

definition MCP_HOST_TRUST_PROFILE :: adapter_trust_profile where
  "MCP_HOST_TRUST_PROFILE = \<lparr> at_name = ''mcp-host'', at_reversibilityGuarantee = rg_partial,
     at_authModel = am_oauth, at_auditTrail = True, at_riskModifier = 1 \<rparr>"

record adapter_entry =
  ae_adapter :: adapter
  ae_trustProfile :: adapter_trust_profile

record registry =
  rg_entries :: "(string \<times> adapter_entry) list"
  rg_adapterSkills :: "(string \<times> string list) list"
  rg_entryRevisions :: "(string \<times> int) list"
  rg_nextRevision :: int

definition empty_registry :: registry where
  "empty_registry = \<lparr> rg_entries = [], rg_adapterSkills = [], rg_entryRevisions = [],
     rg_nextRevision = 1 \<rparr>"

definition registry_register ::
  "string \<Rightarrow> adapter \<Rightarrow> adapter_trust_profile \<Rightarrow> string list option
   \<Rightarrow> registry \<Rightarrow> registry option" where
  "registry_register name a profile skills rg =
     (if \<not> canonical_name name then None
      else Some (rg \<lparr>
        rg_entries := put name \<lparr> ae_adapter = a, ae_trustProfile = profile \<rparr> (rg_entries rg),
        rg_entryRevisions := put name (rg_nextRevision rg) (rg_entryRevisions rg),
        rg_nextRevision := rg_nextRevision rg + 1,
        rg_adapterSkills := (case skills of
            Some s \<Rightarrow> put name s (rg_adapterSkills rg)
          | None \<Rightarrow> filter (\<lambda>(k, s). k \<noteq> name) (rg_adapterSkills rg)) \<rparr>))"

definition registry_get :: "registry \<Rightarrow> string \<Rightarrow> adapter_entry option" where
  "registry_get rg name = map_of (rg_entries rg) name"

definition getRevision :: "registry \<Rightarrow> string \<Rightarrow> int option" where
  "getRevision rg name = map_of (rg_entryRevisions rg) name"

definition canHandle :: "registry \<Rightarrow> string \<Rightarrow> string \<Rightarrow> bool" where
  "canHandle rg name actionType = (case registry_get rg name of
     None \<Rightarrow> False
   | Some e \<Rightarrow> (case map_of (rg_adapterSkills rg) name of
       None \<Rightarrow> True
     | Some skills \<Rightarrow> actionType \<in> set skills))"

definition getCapableAdapters :: "registry \<Rightarrow> string \<Rightarrow> string list" where
  "getCapableAdapters rg actionType =
     filter (\<lambda>name. canHandle rg name actionType) (map fst (rg_entries rg))"

text \<open>
  The revisions name registrations: two registrations never share one, and a revision that is
  still current means that the entry has not been replaced since.
\<close>

definition registry_inv :: "registry \<Rightarrow> bool" where
  "registry_inv rg \<longleftrightarrow> distinct (map fst (rg_entries rg)) \<and>
     map fst (rg_entries rg) = map fst (rg_entryRevisions rg) \<and>
     inj_on snd (set (rg_entryRevisions rg)) \<and>
     (\<forall>(n, k) \<in> set (rg_entryRevisions rg). k < rg_nextRevision rg)"

lemma map_fst_put: "map fst (put k v m) = (if k \<in> fst ` set m then map fst m else map fst m @ [k])"
  by (induction k v m rule: put.induct) auto

lemma set_put_sub: "set (put k v m) \<subseteq> insert (k, v) (set m)"
  by (induction k v m rule: put.induct) auto

lemma registry_inv_register:
  assumes "registry_inv rg" "registry_register name a profile skills rg = Some rg'"
  shows "registry_inv rg'"
proof -
  let ?rev = "put name (rg_nextRevision rg) (rg_entryRevisions rg)"
  have fields: "rg_entries rg' = put name \<lparr> ae_adapter = a, ae_trustProfile = profile \<rparr> (rg_entries rg)"
    "rg_entryRevisions rg' = ?rev" "rg_nextRevision rg' = rg_nextRevision rg + 1"
    using assms(2) by (auto simp: registry_register_def split: if_splits)
  have rg': "map fst (rg_entries rg') = (if name \<in> fst ` set (rg_entries rg)
      then map fst (rg_entries rg) else map fst (rg_entries rg) @ [name])"
    by (simp only: fields map_fst_put)
  have keys: "map fst (rg_entries rg) = map fst (rg_entryRevisions rg)"
    and dist: "distinct (map fst (rg_entries rg))"
    and inj: "inj_on snd (set (rg_entryRevisions rg))"
    and bound: "\<forall>(n, k) \<in> set (rg_entryRevisions rg). k < rg_nextRevision rg"
    using assms(1) by (auto simp: registry_inv_def)
  have fsts: "fst ` set (rg_entries rg) = fst ` set (rg_entryRevisions rg)"
    using keys by (metis set_map)
  have k': "map fst (rg_entries rg') = map fst ?rev"
    unfolding rg' map_fst_put fsts keys by (rule refl)
  have d': "distinct (map fst ?rev)"
    using dist keys by (intro distinct_put) simp
  have "inj_on snd (insert (name, rg_nextRevision rg) (set (rg_entryRevisions rg)))"
    using inj bound by (auto simp: inj_on_def)
  then have inj': "inj_on snd (set ?rev)"
    by (rule inj_on_subset) (rule set_put_sub)
  have "\<forall>(n, k) \<in> set ?rev. k < rg_nextRevision rg + 1"
    using bound set_put_sub [of name "rg_nextRevision rg" "rg_entryRevisions rg"] by fastforce
  then show ?thesis using k' d' inj' unfolding registry_inv_def fields(2,3) by simp
qed

text \<open>Registrations as a machine; an invalid name throws and leaves the registry as it is.\<close>

type_synonym registration =
  "string \<times> adapter \<times> adapter_trust_profile \<times> string list option"

definition registry_step :: "registry \<Rightarrow> registration \<Rightarrow> registry" where
  "registry_step rg r = (case r of (name, a, profile, skills) \<Rightarrow>
     (case registry_register name a profile skills rg of Some rg' \<Rightarrow> rg' | None \<Rightarrow> rg))"

interpretation registrations: initialised_machine registry_step registry_inv empty_registry
proof unfold_locales
  show "registry_inv s \<Longrightarrow> registry_inv (registry_step s e)" for s e
    by (auto simp: registry_step_def intro: registry_inv_register split: prod.splits option.splits)
  show "registry_inv empty_registry"
    by (simp add: registry_inv_def empty_registry_def)
qed

section \<open>The risk modifier (risk-modifier.ts)\<close>

definition RISK_TIER_ORDER :: "risk_tier list" where
  "RISK_TIER_ORDER = [NEGLIGIBLE, LOW, MODERATE, HIGH, CRITICAL]"

definition tier_position :: "risk_tier \<Rightarrow> nat" where
  "tier_position t = length (takeWhile (\<lambda>x. x \<noteq> t) RISK_TIER_ORDER)"

text \<open>Called with a positive number of levels only.\<close>

definition bumpTier :: "risk_tier \<Rightarrow> int \<Rightarrow> risk_tier" where
  "bumpTier t levels =
     RISK_TIER_ORDER ! nat (min (int (tier_position t) + levels) (int (length RISK_TIER_ORDER) - 1))"

definition applyAdapterRiskModifier ::
  "risk_assessment \<Rightarrow> adapter_trust_profile \<Rightarrow> bool \<Rightarrow> risk_assessment" where
  "applyAdapterRiskModifier r profile isIrreversible =
     (if \<not> isIrreversible \<or> at_riskModifier profile \<le> 0 then r
      else r \<lparr> ra_overallTier := bumpTier (ra_overallTier r) (at_riskModifier profile),
               ra_reasoning := WithAdapterModifier (ra_reasoning r) (at_riskModifier profile)
                 (at_name profile) \<rparr>)"

lemma bump_rank:
  "0 \<le> levels \<Longrightarrow> risk_index (bumpTier t levels) = min (risk_index t + levels) 4"
  by (cases t) (auto simp: bumpTier_def tier_position_def RISK_TIER_ORDER_def nth_Cons' min_def
      nat_diff_distrib' split: if_splits)

lemma bump_zero: "bumpTier t 0 = t"
  by (cases t) (simp_all add: bumpTier_def tier_position_def RISK_TIER_ORDER_def)

section \<open>Properties\<close>

lemma register_other:
  assumes "registry_register n a profile skills rg = Some rg'" "m \<noteq> n"
  shows "getRevision rg' m = getRevision rg m" "registry_get rg' m = registry_get rg m"
    "canHandle rg' m ty = canHandle rg m ty"
  using assms
  by (auto simp: registry_register_def getRevision_def registry_get_def canHandle_def
      map_of_filter_keys [where P = "\<lambda>k. k \<noteq> n", simplified] split: if_splits option.splits)

lemma register_same:
  assumes "registry_register n a profile skills rg = Some rg'"
  shows "getRevision rg' n = Some (rg_nextRevision rg)"
    "registry_get rg' n = Some \<lparr> ae_adapter = a, ae_trustProfile = profile \<rparr>"
    "rg_nextRevision rg' = rg_nextRevision rg + 1"
  using assms by (auto simp: registry_register_def getRevision_def registry_get_def split: if_splits)

lemma register_next:
  "registry_register n a profile skills rg = Some rg' \<Longrightarrow>
   rg_nextRevision rg' = rg_nextRevision rg + 1"
  by (rule register_same(3))

definition pinned :: "registry \<Rightarrow> string \<Rightarrow> int \<Rightarrow> registry \<Rightarrow> bool" where
  "pinned rg name k rg' \<longleftrightarrow> k < rg_nextRevision rg' \<and>
     (getRevision rg' name = Some k \<longrightarrow> registry_get rg' name = registry_get rg name \<and>
        (\<forall>ty. canHandle rg' name ty = canHandle rg name ty))"

lemma pinned_step: "pinned rg name k s \<Longrightarrow> pinned rg name k (registry_step s e)"
proof -
  assume p: "pinned rg name k s"
  obtain n a profile skills where e: "e = (n, a, profile, skills)" by (cases e)
  show ?thesis
  proof (cases "registry_register n a profile skills s")
    case None
    then show ?thesis using p by (simp add: registry_step_def e)
  next
    case (Some s')
    then have "pinned rg name k s'"
      using p register_other [OF Some] register_same [OF Some]
      by (cases "n = name") (auto simp: pinned_def)
    then show ?thesis by (simp add: registry_step_def e Some)
  qed
qed

interpretation pinning: state_machine registry_step "pinned rg name k"
  for rg name k
  by unfold_locales (rule pinned_step)

text \<open>
  a revision pins a registration. Whatever is registered later, under whatever names: as long
  as the revision of a name is the one read before, its adapter, its trust profile and its skills
  are those of that time.
\<close>

theorem revision_pins_entry:
  assumes "getRevision rg name = Some k" and "registry_inv rg"
    and "getRevision (run registry_step rg es) name = Some k"
  shows "registry_get (run registry_step rg es) name = registry_get rg name \<and>
    canHandle (run registry_step rg es) name ty = canHandle rg name ty"
proof -
  have "(name, k) \<in> set (rg_entryRevisions rg)"
    using assms(1) by (simp add: getRevision_def map_of_SomeD)
  then have "k < rg_nextRevision rg" using assms(2) by (auto simp: registry_inv_def)
  then have "pinned rg name k rg" by (simp add: pinned_def)
  then have "pinned rg name k (run registry_step rg es)" by (rule pinning.run_inv)
  then show ?thesis using assms(3) by (simp add: pinned_def)
qed

text \<open>
  The risk modifier of an adapter only ever raises the overall tier, by exactly its number of
  levels up to CRITICAL, for an irreversible action; a reversible action, the dimensions and the
  identity of the assessed action are untouched.
\<close>

lemma modifier_raises:
  "risk_index (ra_overallTier (applyAdapterRiskModifier r p irreversible)) =
     (if irreversible then min (risk_index (ra_overallTier r) + max 0 (at_riskModifier p)) 4
      else risk_index (ra_overallTier r)) \<and>
   ra_overallTier r \<le> ra_overallTier (applyAdapterRiskModifier r p irreversible) \<and>
   ra_dimensions (applyAdapterRiskModifier r p irreversible) = ra_dimensions r \<and>
   ra_actionId (applyAdapterRiskModifier r p irreversible) = ra_actionId r"
proof -
  have "risk_index t \<le> 4" for t by (cases t) simp_all
  then show ?thesis
    by (auto simp: applyAdapterRiskModifier_def bump_rank less_eq_risk_tier_def)
qed

section \<open>Registered names\<close>

lemma register_names: "registry_step rg (n, a, p, skills) = rg \<or>
   canonical_name n \<and> fst ` set (rg_entries (registry_step rg (n, a, p, skills))) = insert n (fst ` set (rg_entries rg))"
  by (simp add: registry_step_def registry_register_def keys_put)

definition names_canonical :: "registry \<Rightarrow> bool" where
  "names_canonical rg \<longleftrightarrow> (\<forall>n \<in> fst ` set (rg_entries rg). canonical_name n)"

interpretation naming: initialised_machine registry_step names_canonical empty_registry
proof unfold_locales
  show "names_canonical s \<Longrightarrow> names_canonical (registry_step s e)" for s e
    by (cases e) (metis (no_types, lifting) names_canonical_def register_names insert_iff)
  show "names_canonical empty_registry" by (simp add: names_canonical_def empty_registry_def)
qed

text \<open>
  no sequence of registrations puts an adapter under a name in which any of the credential
  patterns matches, so a name can be stored and shown wherever evidence is.
\<close>

theorem registered_names_clean:
  "list_all (\<lambda>(n, e). list_all (\<lambda>(r, f). \<not> rx_test r n) REDACTIONS)
     (rg_entries (run registry_step empty_registry registrations))"
  using naming.reachable_inv [of registrations] canonical_clean
  by (fastforce simp: names_canonical_def list_all_iff)

section \<open>Concrete instances\<close>

definition idle_adapter :: adapter where
  "idle_adapter = \<lparr> ad_ref = 0, ad_buildPlan = (\<lambda>_ _. Inl be_other),
     ad_prepareRequestStart = None, ad_execute = (\<lambda>_ _. None), ad_executeStreaming = None,
     ad_rollback = (\<lambda>_. None) \<rparr>"

definition two_adapters :: registry where
  "two_adapters = run registry_step empty_registry
     [(''direct'', idle_adapter, DIRECT_TRUST_PROFILE, None),
      (''openclaw'', idle_adapter, OPENCLAW_TRUST_PROFILE, Some [''send_email''])]"

theorem revision_pins_entry_witness:
  "canHandle (run registry_step two_adapters
     [(''openclaw'', idle_adapter, OPENCLAW_TRUST_PROFILE, None)]) ''direct'' ''send_email''"
proof -
  have "registry_inv two_adapters" unfolding two_adapters_def by (rule registrations.reachable_inv)
  then show ?thesis
    using revision_pins_entry [of two_adapters "''direct''" 1
        "[(''openclaw'', idle_adapter, OPENCLAW_TRUST_PROFILE, None)]" "''send_email''"]
    by (simp add: two_adapters_def registry_step_def registry_register_def empty_registry_def
        getRevision_def canHandle_def registry_get_def)
qed

end
