(* ===== verification/PlanBinding.thy ===== *)
theory PlanBinding
  imports ActionSafety AdapterRegistry
begin

text \<open>
  The pure functions of \<open>packages/execution-router/src/execution-router.ts\<close>: canonical JSON,
  the binding of an adapter's plan to the admitted action, the guards on inputs, and the archive
  quarantine of \<open>packages/shared-types/src/gmail-archive-quarantine.ts\<close>. Error messages keep
  their fixed text without the interpolated data. The order of \<open>localeCompare\<close> is the parameter
  \<open>coll\<close> (negative, zero, positive).
\<close>

section \<open>Errors\<close>

record skill_gap =
  sg_actionType :: string
  sg_actionDescription :: string
  sg_attemptedAdapters :: "string list"
  sg_userId :: string
  sg_decisionId :: string

definition logSkillGap :: "string \<Rightarrow> string \<Rightarrow> string list \<Rightarrow> string \<Rightarrow> string \<Rightarrow> skill_gap" where
  "logSkillGap actionType actionDescription attemptedAdapters userId decisionId =
     \<lparr> sg_actionType = actionType, sg_actionDescription = actionDescription,
       sg_attemptedAdapters = attemptedAdapters, sg_userId = userId, sg_decisionId = decisionId \<rparr>"

text \<open>
  The first three are subclasses of \<open>NoRequestExecutionError\<close>, the class that proves that no
  request was made; the last is an exception of the admission guard itself.
\<close>

datatype router_error =
    NoRequestExecutionError string
  | NoAdapterError skill_gap
  | InvariantViolationError string
  | AmbiguousExecutionError string
  | GuardThrew

fun no_request_error :: "router_error \<Rightarrow> bool" where
  "no_request_error (AmbiguousExecutionError _) = False"
| "no_request_error GuardThrew = False"
| "no_request_error _ = True"

section \<open>Stable sorting with a comparator\<close>

fun insert_by :: "('a \<Rightarrow> 'a \<Rightarrow> int) \<Rightarrow> 'a \<Rightarrow> 'a list \<Rightarrow> 'a list" where
  "insert_by cmp x [] = [x]"
| "insert_by cmp x (y # ys) = (if cmp x y \<le> 0 then x # y # ys else y # insert_by cmp x ys)"

definition sort_by :: "('a \<Rightarrow> 'a \<Rightarrow> int) \<Rightarrow> 'a list \<Rightarrow> 'a list" where
  "sort_by cmp xs = foldr (insert_by cmp) xs []"

lemma sort_by_simps [simp]: "sort_by cmp [] = []" "sort_by cmp (x # xs) = insert_by cmp x (sort_by cmp xs)"
  by (simp_all add: sort_by_def)

lemma set_insert_by [simp]: "set (insert_by cmp x ys) = insert x (set ys)"
  by (induction cmp x ys rule: insert_by.induct) auto

lemma set_sort_by [simp]: "set (sort_by cmp xs) = set xs"
  by (induction xs) simp_all

lemma distinct_insert_by: "distinct (insert_by cmp x ys) \<longleftrightarrow> x \<notin> set ys \<and> distinct ys"
  by (induction cmp x ys rule: insert_by.induct) auto

lemma distinct_sort_by [simp]: "distinct (sort_by cmp xs) \<longleftrightarrow> distinct xs"
  by (induction xs) (simp_all add: distinct_insert_by)

text \<open>For a comparator that comes from a total preorder the result is sorted.\<close>

lemma insert_by_sorted:
  assumes total: "\<And>x y. cmp x y \<le> 0 \<or> cmp y x \<le> 0"
    and trans: "\<And>x y z. cmp x y \<le> 0 \<Longrightarrow> cmp y z \<le> 0 \<Longrightarrow> cmp x z \<le> 0"
  shows "sorted_wrt (\<lambda>x y. cmp x y \<le> 0) ys \<Longrightarrow> sorted_wrt (\<lambda>x y. cmp x y \<le> 0) (insert_by cmp x ys)"
  by (induction ys) (use total in \<open>auto intro: trans\<close>)

lemma sort_by_sorted:
  assumes "\<And>x y. cmp x y \<le> 0 \<or> cmp y x \<le> 0"
    and "\<And>x y z. cmp x y \<le> 0 \<Longrightarrow> cmp y z \<le> 0 \<Longrightarrow> cmp x z \<le> 0"
  shows "sorted_wrt (\<lambda>x y. cmp x y \<le> 0) (sort_by cmp xs)"
  by (induction xs) (use insert_by_sorted [of cmp, OF assms] in simp_all)

section \<open>Canonical JSON\<close>

definition hex_digit :: "nat \<Rightarrow> char" where
  "hex_digit n = (if n < 10 then char_of (48 + n) else char_of (87 + n))"

definition json_char :: "char \<Rightarrow> string" where
  "json_char c = (let n = (of_char c :: nat) in
     if n = 34 then [CHR 92, CHR 34] else if n = 92 then [CHR 92, CHR 92]
     else if n = 8 then [CHR 92, CHR ''b''] else if n = 9 then [CHR 92, CHR ''t'']
     else if n = 10 then [CHR 92, CHR ''n''] else if n = 12 then [CHR 92, CHR ''f'']
     else if n = 13 then [CHR 92, CHR ''r'']
     else if n < 32 then [CHR 92] @ ''u00'' @ [hex_digit (n div 16), hex_digit (n mod 16)]
     else [c])"

definition json_string :: "string \<Rightarrow> string" where
  "json_string s = [CHR 34] @ concat (map json_char s) @ [CHR 34]"

definition join_fields :: "(string \<Rightarrow> string \<Rightarrow> int) \<Rightarrow> (string \<times> string) list \<Rightarrow> string" where
  "join_fields coll fs = join_with '',''
     (map (\<lambda>(k, t). json_string k @ '':'' @ t) (sort_by (\<lambda>x y. coll (fst x) (fst y)) fs))"

primrec canonicalJson :: "(string \<Rightarrow> string \<Rightarrow> int) \<Rightarrow> jsval \<Rightarrow> string" where
  "canonicalJson coll JUndefined = ''undefined''"
| "canonicalJson coll JNull = ''null''"
| "canonicalJson coll (JBool b) = (if b then ''true'' else ''false'')"
| "canonicalJson coll (JNum n) = (if is_finite n then num_str n else ''null'')"
| "canonicalJson coll (JStr s) = json_string s"
| "canonicalJson coll (JArr vs) = ''['' @ join_with '','' (map (canonicalJson coll) vs) @ '']''"
| "canonicalJson coll (JObj ob) =
     ''{'' @ join_fields coll (map (map_prod id (canonicalJson coll)) ob) @ ''}''"

definition valuesMatch :: "(string \<Rightarrow> string \<Rightarrow> int) \<Rightarrow> jsval \<Rightarrow> jsval \<Rightarrow> bool" where
  "valuesMatch coll v w \<longleftrightarrow> canonicalJson coll v = canonicalJson coll w"

text \<open>
  Candidate actions and risk assessments as values. Two assessments match when their canonical
  forms do: same fields, with the dimensions compared as an object, whatever the order.
\<close>

definition field_if :: "string \<Rightarrow> string option \<Rightarrow> jsobj" where
  "field_if k x = (case x of None \<Rightarrow> [] | Some s \<Rightarrow> [(k, JStr s)])"

definition cost_intent_str :: "cost_intent \<Rightarrow> string" where
  "cost_intent_str i = (case i of verified_zero \<Rightarrow> ''verified_zero'' | cost_unknown \<Rightarrow> ''unknown'')"

definition action_value :: "candidate_action \<Rightarrow> jsval" where
  "action_value a = JObj
     ([(''id'', JStr (ca_id a)), (''decisionId'', JStr (ca_decisionId a)),
       (''actionType'', JStr (ca_actionType a)), (''description'', JStr (ca_description a)),
       (''domain'', JStr (ca_domain a)), (''parameters'', JObj (ca_parameters a)),
       (''estimatedCostCents'', JNum (ca_estimatedCostCents a)),
       (''reversible'', JBool (ca_reversible a)),
       (''confidence'', JStr (confidence_str (ca_confidence a))),
       (''reasoning'', JStr (ca_reasoning a))]
      @ field_if ''costZeroIntent'' (map_option cost_intent_str (ca_costZeroIntent a))
      @ field_if ''provenance'' (map_option provenance_str (ca_provenance a))
      @ field_if ''capabilityProvenanceNodeId'' (ca_capabilityProvenanceNodeId a))"

definition risk_match :: "risk_assessment \<Rightarrow> risk_assessment \<Rightarrow> bool" where
  "risk_match r s \<longleftrightarrow> ra_actionId r = ra_actionId s \<and> ra_overallTier r = ra_overallTier s \<and>
     ra_reasoning r = ra_reasoning s \<and> ra_assessedAt r = ra_assessedAt s \<and>
     length (ra_dimensions r) = length (ra_dimensions s) \<and>
     list_all (\<lambda>(d, a). map_of (ra_dimensions s) d = Some a) (ra_dimensions r)"

section \<open>Reserved keys\<close>

definition ADAPTER_RESERVED_OUTPUT_KEYS :: "string list" where
  "ADAPTER_RESERVED_OUTPUT_KEYS =
     [''adapter_used'', ''routing_decision'', ''fallbacks_attempted'', ''fallback_skipped_reason'',
      ''adapter_plan_id'', ''status'', ''success'', ''rollback_available'']"

definition ROUTER_CONTROL_PARAMETER_KEYS :: "string list" where
  "ROUTER_CONTROL_PARAMETER_KEYS =
     [''executionPlanId'', ''userId'', ''credentialActionId'', ''credentialDecisionId'',
      ''credentialExecutionPlanId'', ''credentialAuthorityRevision'',
      ''credentialPolicyAuthorityRevision'', ''dispatchAuthorityId'',
      ''dispatchAuthorityUpdatedAt'', ''dispatchCapability'', ''dispatchLeaseGeneration'',
      ''mcpServerId'', ''mcpToolName'', ''ironclawChannel'']"

definition LATE_BOUND_AUTHORITY_PARAMETER_KEYS :: "string list" where
  "LATE_BOUND_AUTHORITY_PARAMETER_KEYS =
     [''credentialAuthorityRevision'', ''credentialPolicyAuthorityRevision'',
      ''dispatchAuthorityId'', ''dispatchAuthorityUpdatedAt'']"

definition without_keys :: "string list \<Rightarrow> jsobj \<Rightarrow> jsobj" where
  "without_keys ks ob = filter (\<lambda>(k, v). k \<notin> set ks) ob"

definition stripRouterControlParameters :: "jsobj \<Rightarrow> jsobj" where
  "stripRouterControlParameters ob = without_keys ROUTER_CONTROL_PARAMETER_KEYS ob"

definition withoutLateBoundAuthority :: "candidate_action \<Rightarrow> candidate_action" where
  "withoutLateBoundAuthority a =
     a \<lparr> ca_parameters := without_keys LATE_BOUND_AUTHORITY_PARAMETER_KEYS (ca_parameters a) \<rparr>"

definition stripAdapterReservedOutput :: "jsobj option \<Rightarrow> jsobj" where
  "stripAdapterReservedOutput output = (case output of None \<Rightarrow> []
     | Some ob \<Rightarrow> without_keys ADAPTER_RESERVED_OUTPUT_KEYS ob)"

definition requiresExactMcpRouting :: "candidate_action \<Rightarrow> router_error + bool" where
  "requiresExactMcpRouting a =
     (let ob = ca_parameters a; serverId = get ob ''mcpServerId''; toolName = get ob ''mcpToolName'' in
      if \<not> (has_own ob ''mcpServerId'' \<or> has_own ob ''mcpToolName'') then Inr False
      else if (case serverId of JStr s \<Rightarrow> trim s = [] | _ \<Rightarrow> True)
      then Inl (InvariantViolationError ''An explicit MCP action requires a non-empty mcpServerId.'')
      else if toolName \<noteq> JUndefined \<and> \<not> strict_eq toolName (JStr (ca_actionType a))
      then Inl (InvariantViolationError
        ''An explicit MCP tool must exactly match the admitted actionType.'')
      else Inr True)"

section \<open>Guards\<close>

text \<open>An assessment is always given (its absence is a type error here).\<close>

definition assertValidExecutionInputs ::
  "candidate_action \<Rightarrow> risk_assessment \<Rightarrow> router_error option" where
  "assertValidExecutionInputs a r =
     (if ca_id a \<noteq> ra_actionId r
      then Some (InvariantViolationError ''Refusing to execute with a mismatched assessment.'')
      else None)"

record execution_context =
  ec_approved :: bool
  ec_ironclawChannel :: "string option"

definition no_context :: execution_context where
  "no_context = \<lparr> ec_approved = False, ec_ironclawChannel = None \<rparr>"

datatype archive_classification = ac_archive | ac_other | ac_invalid

definition classifyGmailArchiveGenericAction :: "jsval \<Rightarrow> archive_classification" where
  "classifyGmailArchiveGenericAction v = (case v of
     JObj ob \<Rightarrow> (case get ob ''actionType'' of
         JStr t \<Rightarrow> if t = ''archive_email'' then ac_archive else ac_other
       | _ \<Rightarrow> ac_invalid)
   | _ \<Rightarrow> ac_invalid)"

definition assertGenericExecutionActionAllowed :: "candidate_action \<Rightarrow> router_error option" where
  "assertGenericExecutionActionAllowed a =
     (case classifyGmailArchiveGenericAction (action_value a) of
        ac_other \<Rightarrow> None
      | ac_archive \<Rightarrow> Some (InvariantViolationError
          ''The archive_email action is reserved for its dedicated execution lifecycle.'')
      | ac_invalid \<Rightarrow> Some (InvariantViolationError
          ''The generic execution action could not be inspected safely.''))"

definition assertExecutionPermitted ::
  "candidate_action \<Rightarrow> execution_context \<Rightarrow> router_error option" where
  "assertExecutionPermitted a ctx =
     (case assertGenericExecutionActionAllowed a of Some e \<Rightarrow> Some e
      | None \<Rightarrow> if gv_escalate (guard_of a) \<and> \<not> ec_approved ctx
          then Some (InvariantViolationError ''Injection-guard backstop: refusing to auto-execute action'')
          else None)"

section \<open>Binding the plan to the admitted action\<close>

definition DISPATCH_STRIPPED_KEYS :: "string list" where
  "DISPATCH_STRIPPED_KEYS =
     [''accessToken'', ''access_token'', ''refreshToken'', ''refresh_token'', ''authorization'',
      ''actionType'', ''domain'', ''estimatedCostCents'', ''adapter_used'', ''_mcpServerId'',
      ''_mcpToolName'', ''_isRollback'', ''originalActionType'', ''ironclawChannel'']"

definition bindTrustedDispatchAction :: "candidate_action \<Rightarrow> string \<Rightarrow> candidate_action" where
  "bindTrustedDispatchAction a userId =
     a \<lparr> ca_parameters := put ''userId'' (JStr userId)
           (without_keys DISPATCH_STRIPPED_KEYS (ca_parameters a)) \<rparr>"

datatype step_kind = k_step | k_rollback

text \<open>The canonical value of a parameter that the action does not have, or the refusal.\<close>

definition extra_parameter ::
  "candidate_action \<Rightarrow> string \<Rightarrow> step_kind \<Rightarrow> string \<Rightarrow> jsval \<Rightarrow> router_error + jsval" where
  "extra_parameter a adapterName kind key v =
     (if key = ''actionType'' \<and> strict_eq v (JStr (ca_actionType a)) then Inr (JStr (ca_actionType a))
      else if key = ''domain'' \<and> strict_eq v (JStr (ca_domain a)) then Inr (JStr (ca_domain a))
      else if key = ''estimatedCostCents'' \<and> strict_eq v (JNum (ca_estimatedCostCents a))
      then Inr (JNum (ca_estimatedCostCents a))
      else if key = ''adapter_used'' \<and> strict_eq v (JStr adapterName) then Inr (JStr adapterName)
      else if kind = k_rollback \<and> key = ''originalActionType'' \<and> strict_eq v (JStr (ca_actionType a))
      then Inr (JStr (ca_actionType a))
      else if kind = k_rollback \<and> adapterName = ''mcp-host'' \<and> key = ''_isRollback'' \<and>
        strict_eq v (JBool True) then Inr (JBool True)
      else if adapterName = ''mcp-host'' \<and> key = ''_mcpToolName'' then
        (if \<not> strict_eq v (JStr (ca_actionType a))
         then Inl (InvariantViolationError ''MCP build plan changed the admitted tool identity.'')
         else Inr (JStr (ca_actionType a)))
      else if adapterName = ''mcp-host'' \<and> key = ''_mcpServerId'' then
        (case get (ca_parameters a) ''mcpServerId'' of
           JStr expected \<Rightarrow>
             if expected = [] \<or> \<not> strict_eq v (JStr expected)
             then Inl (InvariantViolationError ''MCP build plan changed the admitted server identity.'')
             else Inr (JStr expected)
         | _ \<Rightarrow> Inl (InvariantViolationError ''MCP build plan changed the admitted server identity.''))
      else Inl (InvariantViolationError ''Adapter build plan introduced executable parameter''))"

fun bind_extras ::
  "candidate_action \<Rightarrow> string \<Rightarrow> step_kind \<Rightarrow> jsobj \<Rightarrow> jsobj \<Rightarrow> router_error + jsobj" where
  "bind_extras a adapterName kind [] canonical = Inr canonical"
| "bind_extras a adapterName kind ((key, v) # ob) canonical =
     (if has_own (ca_parameters a) key then bind_extras a adapterName kind ob canonical
      else (case extra_parameter a adapterName kind key v of
          Inl e \<Rightarrow> Inl e
        | Inr w \<Rightarrow> bind_extras a adapterName kind ob (put key w canonical)))"

definition bindExactStepParameters ::
  "(string \<Rightarrow> string \<Rightarrow> int) \<Rightarrow> jsobj \<Rightarrow> candidate_action \<Rightarrow> string \<Rightarrow> step_kind
   \<Rightarrow> router_error + jsobj" where
  "bindExactStepParameters coll parameters a adapterName kind =
     (if list_ex (\<lambda>(key, expected). key \<notin> set LATE_BOUND_AUTHORITY_PARAMETER_KEYS \<and>
          \<not> (has_own parameters key \<and> valuesMatch coll (get parameters key) expected))
          (ca_parameters a)
      then Inl (InvariantViolationError ''Adapter build plan changed admitted parameter'')
      else bind_extras a adapterName kind parameters (ca_parameters a))"

record lease_grant =
  lg_capability :: string
  lg_leaseGeneration :: string

definition bound_parameters ::
  "candidate_action \<Rightarrow> string \<Rightarrow> string \<Rightarrow> string \<Rightarrow> lease_grant option \<Rightarrow> jsobj \<Rightarrow> jsobj" where
  "bound_parameters a planId userId adapterName grant ob =
     (let ob1 = put ''credentialPolicyAuthorityRevision''
            (get (ca_parameters a) ''credentialPolicyAuthorityRevision'')
          (put ''credentialAuthorityRevision'' (get (ca_parameters a) ''credentialAuthorityRevision'')
          (put ''credentialExecutionPlanId'' (JStr planId)
          (put ''credentialDecisionId'' (JStr (ca_decisionId a))
          (put ''credentialActionId'' (JStr (ca_id a))
          (put ''userId'' (JStr userId) ob))))) in
      (case grant of
         Some g \<Rightarrow> if adapterName = ''direct''
           then put ''dispatchLeaseGeneration'' (JStr (lg_leaseGeneration g))
             (put ''dispatchCapability'' (JStr (lg_capability g)) ob1)
           else ob1
       | None \<Rightarrow> ob1))"

definition expected_type :: "candidate_action \<Rightarrow> step_kind \<Rightarrow> string" where
  "expected_type a kind = (case kind of k_step \<Rightarrow> ca_actionType a
     | k_rollback \<Rightarrow> ''rollback_'' @ ca_actionType a)"

definition expected_description :: "candidate_action \<Rightarrow> step_kind \<Rightarrow> string" where
  "expected_description a kind = (case kind of k_step \<Rightarrow> ca_description a
     | k_rollback \<Rightarrow> ''Rollback: '' @ ca_description a)"

text \<open>The step at index 0: no list that gets here is longer than one.\<close>

definition bind_step ::
  "(string \<Rightarrow> string \<Rightarrow> int) \<Rightarrow> execution_plan \<Rightarrow> candidate_action \<Rightarrow> string \<Rightarrow> string
   \<Rightarrow> lease_grant option \<Rightarrow> step_kind \<Rightarrow> execution_step \<Rightarrow> router_error + execution_step" where
  "bind_step coll plan a userId adapterName grant kind st =
     (if \<not> num_eq (es_order st) (Fin 1) \<or> es_type st \<noteq> expected_type a kind \<or>
         es_description st \<noteq> expected_description a kind \<or> \<not> num_eq (es_timeout st) (Fin 30000)
      then Inl (InvariantViolationError ''Adapter build plan changed the admitted effect shape.'')
      else (case bindExactStepParameters coll (es_parameters st) a adapterName kind of
          Inl e \<Rightarrow> Inl e
        | Inr ob \<Rightarrow> Inr \<lparr> es_id = (case kind of k_step \<Rightarrow> ''step-1'' | k_rollback \<Rightarrow> ''rollback-1''),
            es_order = Fin 1, es_type = expected_type a kind,
            es_description = expected_description a kind,
            es_parameters = bound_parameters a (xp_id plan) userId adapterName grant ob,
            es_timeout = Fin 30000 \<rparr>))"

fun bind_all :: "('a \<Rightarrow> 'e + 'b) \<Rightarrow> 'a list \<Rightarrow> 'e + 'b list" where
  "bind_all f [] = Inr []"
| "bind_all f (x # xs) = (case f x of Inl e \<Rightarrow> Inl e | Inr y \<Rightarrow>
     (case bind_all f xs of Inl e \<Rightarrow> Inl e | Inr ys \<Rightarrow> Inr (y # ys)))"

definition strip_step :: "execution_step \<Rightarrow> execution_step" where
  "strip_step st = st \<lparr> es_parameters := stripRouterControlParameters (es_parameters st) \<rparr>"

definition strip_plan :: "execution_plan \<Rightarrow> execution_plan" where
  "strip_plan plan = plan
     \<lparr> xp_action := (xp_action plan)
         \<lparr> ca_parameters := stripRouterControlParameters (ca_parameters (xp_action plan)) \<rparr>,
       xp_steps := map strip_step (xp_steps plan),
       xp_rollbackSteps := map strip_step (xp_rollbackSteps plan) \<rparr>"

definition plan_refusal ::
  "(string \<Rightarrow> string \<Rightarrow> int) \<Rightarrow> execution_plan \<Rightarrow> candidate_action \<Rightarrow> router_error option" where
  "plan_refusal coll plan a =
     (if (case get (ca_parameters a) ''executionPlanId'' of JStr s \<Rightarrow> xp_id plan \<noteq> s | _ \<Rightarrow> False)
      then Some (InvariantViolationError
        ''Adapter build plan did not preserve the admitted execution identity.'')
      else if xp_decisionId plan \<noteq> ca_decisionId a \<or>
        \<not> valuesMatch coll (action_value (withoutLateBoundAuthority (xp_action plan)))
          (action_value (withoutLateBoundAuthority a))
      then Some (InvariantViolationError
        ''Adapter build plan changed the admitted action identity or effect shape.'')
      else if length (xp_steps plan) \<noteq> 1
      then Some (InvariantViolationError
        ''Adapter build plan must contain exactly one admitted executable step.'')
      else if 1 < length (xp_rollbackSteps plan) \<or> (\<not> ca_reversible a \<and> xp_rollbackSteps plan \<noteq> [])
      then Some (InvariantViolationError ''Adapter build plan changed the admitted rollback shape.'')
      else None)"

definition trusted_plan ::
  "execution_plan \<Rightarrow> candidate_action \<Rightarrow> string \<Rightarrow> string option \<Rightarrow> execution_step list
   \<Rightarrow> execution_step list \<Rightarrow> execution_plan" where
  "trusted_plan plan a userId channel steps rollbackSteps = plan
     \<lparr> xp_executionOwnerId := Some userId,
       xp_executionChannel := (case channel of
           Some s \<Rightarrow> if s = [] then xp_executionChannel plan else Some s
         | None \<Rightarrow> xp_executionChannel plan),
       xp_action := a, xp_steps := steps, xp_rollbackSteps := rollbackSteps \<rparr>"

definition bindTrustedPlanContext ::
  "(string \<Rightarrow> string \<Rightarrow> int) \<Rightarrow> execution_plan \<Rightarrow> candidate_action \<Rightarrow> string \<Rightarrow> string
   \<Rightarrow> lease_grant option \<Rightarrow> string option \<Rightarrow> router_error + execution_plan" where
  "bindTrustedPlanContext coll plan a userId adapterName grant channel =
     (case plan_refusal coll plan a of Some e \<Rightarrow> Inl e | None \<Rightarrow>
     (case bind_all (bind_step coll plan a userId adapterName grant k_step) (xp_steps plan) of
        Inl e \<Rightarrow> Inl e
      | Inr steps \<Rightarrow>
        (case bind_all (bind_step coll plan a userId adapterName grant k_rollback)
            (xp_rollbackSteps plan) of
          Inl e \<Rightarrow> Inl e
        | Inr rollbackSteps \<Rightarrow>
            Inr (if adapterName = ''direct''
              then trusted_plan plan a userId channel steps rollbackSteps
              else strip_plan (trusted_plan plan a userId channel steps rollbackSteps)))))"

end
