(* ===== verification/ExecutionRouter.thy ===== *)
theory ExecutionRouter
  imports PlanBinding
begin

text \<open>
  The class \<open>ExecutionRouter\<close> of \<open>packages/execution-router/src/execution-router.ts\<close>. Its own
  state is the map of prepared executions, keyed by opaque handles; a handle is a number from a
  counter, since a fresh object is equal to no other. What the class is given is \<open>ports\<close>: the
  registry as it is at successive points of a call (every await may let it change), the admission
  guard at its successive calls, the fresh plan identifier, the dispatch authority and the order
  of \<open>localeCompare\<close>. A call returns its result, the new state and its effects on the adapters and
  on the dispatch authority, in order. Consuming a handle (the lookup and the deletion) happens
  before the first await of a call, so calls that interleave act on the map in some sequence.
\<close>

section \<open>Ports\<close>

datatype admission = adm_allowed | adm_refused string | adm_threw

record authority_input =
  ai_userId :: string
  ai_decisionId :: string
  ai_actionId :: string
  ai_executionPlanId :: string
  ai_adapterName :: string
  ai_expectedRiskSnapshot :: risk_assessment
  ai_expectedExecutionChannel :: "string option"
  ai_expectedUserExecutionChannel :: "string option"
  ai_expectedAuthorityRevision :: string
  ai_expectedPolicyAuthorityRevision :: string
  ai_expectedAdmissionAuthorityId :: string
  ai_expectedAdmissionAuthorityUpdatedAt :: string
  ai_mcpServerId :: jsval
  ai_mcpToolName :: "string option"
  ai_credentialProvider :: "string option"
  ai_expectedOAuthTokenId :: "string option"
  ai_expectedCredentialRevision :: "string option"
  ai_credentialAccountEmail :: "string option"
  ai_expectedVaultGeneration :: "string option"

datatype start_result =
    st_granted lease_grant | st_authority_revoked string | st_dispatch_replayed string | st_threw

datatype ambiguity =
    adapter_result_unbound | adapter_exception
  | stream_protocol_invalid | stream_incomplete | stream_exception

datatype terminal_state = ts_completed | ts_failed | ts_ambiguous ambiguity

text \<open>\<open>terminalize\<close> answers whether the state was persisted; None is a rejection.\<close>

record ports =
  po_registry :: "nat \<Rightarrow> registry"
  po_admit :: "nat \<Rightarrow> candidate_action \<Rightarrow> string \<Rightarrow> string option \<Rightarrow> admission"
  po_planId :: string
  po_start :: "authority_input \<Rightarrow> start_result"
  po_terminalize :: "string \<Rightarrow> string \<Rightarrow> lease_grant \<Rightarrow> terminal_state \<Rightarrow> bool option"
  po_collate :: "string \<Rightarrow> string \<Rightarrow> int"

section \<open>State and effects\<close>

record routing_decision =
  rd_selectedAdapter :: string
  rd_trustProfile :: adapter_trust_profile
  rd_riskModifierApplied :: int
  rd_modifiedRiskAssessment :: risk_assessment
  rd_fallbackChain :: "string list"
  rd_reasoning :: string

record prepared_execution =
  pe_handle :: nat
  pe_adapterName :: string
  pe_planId :: string
  pe_riskAssessment :: risk_assessment
  pe_streaming :: bool
  pe_routingDecision :: routing_decision
  pe_fallbacksAttempted :: nat
  pe_executionChannel :: "string option"

record prepared_state =
  ps_adapterName :: string
  ps_registryRevision :: int
  ps_adapter :: adapter
  ps_builtPlan :: execution_plan
  ps_preparation :: "request_preparation option"
  ps_action :: candidate_action
  ps_userId :: string
  ps_riskAssessment :: risk_assessment
  ps_streaming :: bool
  ps_fallbacksAttempted :: nat
  ps_requestedExecutionChannel :: "string option"
  ps_executionChannel :: "string option"

record router =
  rt_prepared :: "(nat \<times> prepared_state) list"
  rt_nextHandle :: nat

definition new_router :: router where
  "new_router = \<lparr> rt_prepared = [], rt_nextHandle = 0 \<rparr>"

datatype router_effect =
    Eff_build string candidate_action
  | Eff_prepareRequestStart string execution_plan
  | Eff_start nat authority_input
  | Eff_execute nat string execution_plan
  | Eff_terminalize nat terminal_state
  | Eff_yield nat execution_event

section \<open>Choosing an adapter\<close>

definition BUILTIN_TRUST_RANKING :: "string list" where
  "BUILTIN_TRUST_RANKING = [''ironclaw'', ''direct'', ''openclaw'']"

definition TRUSTED_PRE_REQUEST_ADAPTERS :: "string list" where
  "TRUSTED_PRE_REQUEST_ADAPTERS = [''ironclaw'', ''direct'', ''openclaw'', ''mcp-host'']"

definition builtin_index :: "string \<Rightarrow> int" where
  "builtin_index n = (if n \<in> set BUILTIN_TRUST_RANKING
     then int (length (takeWhile (\<lambda>x. x \<noteq> n) BUILTIN_TRUST_RANKING)) else - 1)"

definition risk_modifier_of :: "registry \<Rightarrow> string \<Rightarrow> int" where
  "risk_modifier_of rg n = (case registry_get rg n of
     Some e \<Rightarrow> at_riskModifier (ae_trustProfile e) | None \<Rightarrow> 99)"

definition trust_compare :: "registry \<Rightarrow> string \<Rightarrow> string \<Rightarrow> int" where
  "trust_compare rg a b =
     (let aBuiltin = builtin_index a; bBuiltin = builtin_index b in
      if aBuiltin \<noteq> - 1 \<and> bBuiltin \<noteq> - 1 then aBuiltin - bBuiltin
      else if aBuiltin \<noteq> - 1 then - 1
      else if bBuiltin \<noteq> - 1 then 1
      else risk_modifier_of rg a - risk_modifier_of rg b)"

definition sortByTrust :: "registry \<Rightarrow> string list \<Rightarrow> string list" where
  "sortByTrust rg names = sort_by (trust_compare rg) names"

definition guarantee_str :: "reversibility_guarantee \<Rightarrow> string" where
  "guarantee_str g = (case g of rg_full \<Rightarrow> ''full'' | rg_partial \<Rightarrow> ''partial'' | rg_none \<Rightarrow> ''none'')"

definition auth_str :: "auth_model \<Rightarrow> string" where
  "auth_str m = (case m of am_hmac \<Rightarrow> ''hmac'' | am_oauth \<Rightarrow> ''oauth'' | am_api_key \<Rightarrow> ''api_key''
     | am_none \<Rightarrow> ''none'')"

definition routing_reasoning ::
  "string \<Rightarrow> string list \<Rightarrow> adapter_trust_profile \<Rightarrow> int \<Rightarrow> candidate_action \<Rightarrow> string" where
  "routing_reasoning selectedName capableNames p riskModifierApplied a =
     join_with '' ''
       ([''Selected '' @ [CHR 34] @ selectedName @ [CHR 34] @ '' from ''
           @ int_str (int (length capableNames)) @ '' capable adapter(s): [''
           @ join_with '', '' capableNames @ ''].'',
         ''Trust profile: reversibility='' @ guarantee_str (at_reversibilityGuarantee p)
           @ '', auth='' @ auth_str (at_authModel p)
           @ '', audit='' @ (if at_auditTrail p then ''true'' else ''false'') @ ''.'']
        @ (if 0 < riskModifierApplied then
            [''Risk modifier of +'' @ int_str riskModifierApplied
              @ '' tier(s) applied because action '' @ [CHR 34] @ ca_actionType a @ [CHR 34]
              @ '' is irreversible and adapter has riskModifier=''
              @ int_str (at_riskModifier p) @ ''.'']
           else []))"

definition modifier_applied :: "risk_assessment \<Rightarrow> risk_assessment \<Rightarrow> adapter_trust_profile \<Rightarrow> int" where
  "modifier_applied modified r p =
     (if ra_overallTier modified \<noteq> ra_overallTier r then at_riskModifier p else 0)"

definition capable_names :: "registry \<Rightarrow> bool \<Rightarrow> string \<Rightarrow> string list" where
  "capable_names rg exactMcp actionType =
     (if exactMcp then (if canHandle rg ''mcp-host'' actionType then [''mcp-host''] else [])
      else getCapableAdapters rg actionType)"

definition assertAdmitted ::
  "ports \<Rightarrow> nat \<Rightarrow> candidate_action \<Rightarrow> string \<Rightarrow> string option \<Rightarrow> router_error option" where
  "assertAdmitted p k a userId adapterName = (case po_admit p k a userId adapterName of
     adm_allowed \<Rightarrow> None
   | adm_refused why \<Rightarrow> Some (NoRequestExecutionError why)
   | adm_threw \<Rightarrow> Some GuardThrew)"

definition route ::
  "ports \<Rightarrow> candidate_action \<Rightarrow> risk_assessment \<Rightarrow> string \<Rightarrow> router_error + routing_decision" where
  "route p a r userId =
     (case assertGenericExecutionActionAllowed a of Some e \<Rightarrow> Inl e | None \<Rightarrow>
     (case assertAdmitted p 0 a userId None of Some e \<Rightarrow> Inl e | None \<Rightarrow>
     (case requiresExactMcpRouting a of Inl e \<Rightarrow> Inl e | Inr exactMcp \<Rightarrow>
       (let rg = po_registry p 0; capableNames = capable_names rg exactMcp (ca_actionType a) in
        case sortByTrust rg capableNames of
          [] \<Rightarrow> Inl (NoAdapterError (logSkillGap (ca_actionType a) (ca_description a) [] userId
            (ca_decisionId a)))
        | primaryName # fallbackChain \<Rightarrow>
          (case assertAdmitted p 1 a userId (Some primaryName) of Some e \<Rightarrow> Inl e | None \<Rightarrow>
          (case registry_get (po_registry p 1) primaryName of
            None \<Rightarrow> Inl (NoAdapterError (logSkillGap (ca_actionType a) (ca_description a)
              capableNames userId (ca_decisionId a)))
          | Some entry \<Rightarrow>
            (let tp = ae_trustProfile entry;
                 modified = applyAdapterRiskModifier r tp (\<not> ca_reversible a);
                 applied = modifier_applied modified r tp in
             Inr \<lparr> rd_selectedAdapter = primaryName, rd_trustProfile = tp,
               rd_riskModifierApplied = applied, rd_modifiedRiskAssessment = modified,
               rd_fallbackChain = fallbackChain,
               rd_reasoning = routing_reasoning primaryName capableNames tp applied a \<rparr>)))))))"

section \<open>Preparing\<close>

text \<open>
  One turn of the loop over the adapters: the adapter is skipped, the call fails, or the adapter
  is ready with its built plan, its preparation, the entry and the revision that were read.
\<close>

datatype attempt =
    Skip
  | Fail router_error
  | Ready execution_plan "request_preparation option" adapter_entry int

definition prepared_action :: "ports \<Rightarrow> candidate_action \<Rightarrow> string \<Rightarrow> candidate_action" where
  "prepared_action p a userId =
     (let b = withoutLateBoundAuthority a in
      bindTrustedDispatchAction
        (b \<lparr> ca_parameters := put ''executionPlanId'' (JStr (po_planId p)) (ca_parameters b) \<rparr>)
        userId)"

definition build_failure :: "string \<Rightarrow> build_error \<Rightarrow> attempt" where
  "build_failure adapterName e = (case e of
     be_invariant why \<Rightarrow> Fail (InvariantViolationError why)
   | be_pre_request \<Rightarrow> (if adapterName \<in> set TRUSTED_PRE_REQUEST_ADAPTERS then Skip
       else Fail (AmbiguousExecutionError ''preparation could not prove a safe refusal.''))
   | be_other \<Rightarrow> Fail (AmbiguousExecutionError ''preparation could not prove a safe refusal.''))"

definition attempt_adapter ::
  "ports \<Rightarrow> candidate_action \<Rightarrow> string \<Rightarrow> execution_context \<Rightarrow> bool \<Rightarrow> nat \<Rightarrow> string
   \<Rightarrow> attempt \<times> router_effect list" where
  "attempt_adapter p a userId ctx streaming i adapterName =
     (let before = po_registry p (2 * i); after = po_registry p (2 * i + 1);
          pa = prepared_action p a userId in
      case (registry_get before adapterName, getRevision before adapterName) of
        (Some entry, Some revision) \<Rightarrow>
          (case assertAdmitted p (i + 1) a userId (Some adapterName) of Some e \<Rightarrow> (Fail e, []) | None \<Rightarrow>
          (case ad_buildPlan (ae_adapter entry) pa streaming of
            Inl e \<Rightarrow> (build_failure adapterName e, [Eff_build adapterName pa])
          | Inr adapterPlan \<Rightarrow>
            (let builtPlan = adapterPlan \<lparr> xp_id := po_planId p \<rparr> in
             case bindTrustedPlanContext (po_collate p) builtPlan pa userId adapterName None
                 (ec_ironclawChannel ctx) of
               Inl e \<Rightarrow> (Fail e, [Eff_build adapterName pa])
             | Inr preparedPlan \<Rightarrow>
               (let ready = (\<lambda>preparation.
                  if getRevision after adapterName \<noteq> Some revision \<or>
                     map_option (ad_ref \<circ> ae_adapter) (registry_get after adapterName)
                       \<noteq> Some (ad_ref (ae_adapter entry))
                  then Fail (InvariantViolationError ''authority changed during preparation.'')
                  else Ready builtPlan preparation entry revision) in
                case ad_prepareRequestStart (ae_adapter entry) of
                  None \<Rightarrow> (ready None, [Eff_build adapterName pa])
                | Some prepare \<Rightarrow>
                  (case prepare preparedPlan streaming of
                     Inl e \<Rightarrow> (build_failure adapterName e,
                       [Eff_build adapterName pa, Eff_prepareRequestStart adapterName preparedPlan])
                   | Inr rq \<Rightarrow> (ready (Some rq),
                       [Eff_build adapterName pa, Eff_prepareRequestStart adapterName preparedPlan]))))))
      | _ \<Rightarrow> (Skip, []))"

definition effective_channel ::
  "string \<Rightarrow> request_preparation option \<Rightarrow> execution_context \<Rightarrow> string option" where
  "effective_channel adapterName preparation ctx =
     (if adapterName \<noteq> ''ironclaw'' then None
      else (case Option.bind preparation rq_executionChannel of
          Some s \<Rightarrow> Some s | None \<Rightarrow> ec_ironclawChannel ctx))"

definition accept ::
  "ports \<Rightarrow> candidate_action \<Rightarrow> risk_assessment \<Rightarrow> string \<Rightarrow> execution_context \<Rightarrow> bool \<Rightarrow> nat
   \<Rightarrow> string list \<Rightarrow> string \<Rightarrow> string list \<Rightarrow> execution_plan \<Rightarrow> request_preparation option
   \<Rightarrow> adapter_entry \<Rightarrow> int \<Rightarrow> router \<Rightarrow> (router_error + prepared_execution) \<times> router" where
  "accept p a r userId ctx streaming i capableNames adapterName rest builtPlan preparation entry
      revision rt =
     (let tp = ae_trustProfile entry;
          modified = applyAdapterRiskModifier r tp (\<not> ca_reversible a);
          applied = modifier_applied modified r tp;
          rd = \<lparr> rd_selectedAdapter = adapterName, rd_trustProfile = tp,
            rd_riskModifierApplied = applied, rd_modifiedRiskAssessment = modified,
            rd_fallbackChain = rest,
            rd_reasoning = routing_reasoning adapterName capableNames tp applied a \<rparr>;
          h = rt_nextHandle rt; channel = effective_channel adapterName preparation ctx in
      if (case channel of Some s \<Rightarrow> trim s = [] | None \<Rightarrow> False)
      then (Inl (InvariantViolationError ''Prepared execution channel is malformed.''), rt)
      else
        (Inr \<lparr> pe_handle = h, pe_adapterName = adapterName, pe_planId = po_planId p,
           pe_riskAssessment = modified, pe_streaming = streaming, pe_routingDecision = rd,
           pe_fallbacksAttempted = i, pe_executionChannel = channel \<rparr>,
         \<lparr> rt_prepared = (h, \<lparr> ps_adapterName = adapterName, ps_registryRevision = revision,
             ps_adapter = ae_adapter entry, ps_builtPlan = builtPlan,
             ps_preparation = preparation, ps_action = prepared_action p a userId,
             ps_userId = userId, ps_riskAssessment = modified, ps_streaming = streaming,
             ps_fallbacksAttempted = i, ps_requestedExecutionChannel = ec_ironclawChannel ctx,
             ps_executionChannel = channel \<rparr>) # rt_prepared rt,
           rt_nextHandle = Suc h \<rparr>))"

fun prepare_chain ::
  "ports \<Rightarrow> candidate_action \<Rightarrow> risk_assessment \<Rightarrow> string \<Rightarrow> execution_context \<Rightarrow> bool
   \<Rightarrow> string list \<Rightarrow> nat \<Rightarrow> string list \<Rightarrow> string list \<Rightarrow> router
   \<Rightarrow> (router_error + prepared_execution) \<times> router \<times> router_effect list" where
  "prepare_chain p a r userId ctx streaming capableNames i attempted [] rt =
     (Inl (NoAdapterError (logSkillGap (ca_actionType a) (ca_description a) attempted userId
        (ca_decisionId a))), rt, [])"
| "prepare_chain p a r userId ctx streaming capableNames i attempted (n # rest) rt =
     (case attempt_adapter p a userId ctx streaming i n of
        (Skip, es) \<Rightarrow>
          (case prepare_chain p a r userId ctx streaming capableNames (Suc i) (attempted @ [n]) rest rt of
             (res, rt', es') \<Rightarrow> (res, rt', es @ es'))
      | (Fail e, es) \<Rightarrow> (Inl e, rt, es)
      | (Ready builtPlan preparation entry revision, es) \<Rightarrow>
          (case accept p a r userId ctx streaming i capableNames n rest builtPlan preparation entry
               revision rt of
             (res, rt') \<Rightarrow> (res, rt', es)))"

definition prepareExecution ::
  "ports \<Rightarrow> candidate_action \<Rightarrow> risk_assessment \<Rightarrow> string \<Rightarrow> execution_context \<Rightarrow> bool \<Rightarrow> router
   \<Rightarrow> (router_error + prepared_execution) \<times> router \<times> router_effect list" where
  "prepareExecution p a r userId ctx streaming rt =
     (case assertValidExecutionInputs a r of Some e \<Rightarrow> (Inl e, rt, []) | None \<Rightarrow>
     (case assertExecutionPermitted a ctx of Some e \<Rightarrow> (Inl e, rt, []) | None \<Rightarrow>
     (case assertAdmitted p 0 a userId None of Some e \<Rightarrow> (Inl e, rt, []) | None \<Rightarrow>
     (case requiresExactMcpRouting a of Inl e \<Rightarrow> (Inl e, rt, []) | Inr exactMcp \<Rightarrow>
       (let rg = po_registry p 0; capableNames = capable_names rg exactMcp (ca_actionType a) in
        prepare_chain p a r userId ctx streaming capableNames 0 [] (sortByTrust rg capableNames) rt)))))"

section \<open>Consuming a handle\<close>

definition same_prepared ::
  "ports \<Rightarrow> prepared_state \<Rightarrow> prepared_execution \<Rightarrow> candidate_action \<Rightarrow> risk_assessment \<Rightarrow> string
   \<Rightarrow> bool \<Rightarrow> execution_context \<Rightarrow> bool" where
  "same_prepared p st pe a r userId streaming ctx \<longleftrightarrow>
     map_option (ad_ref \<circ> ae_adapter) (registry_get (po_registry p 0) (ps_adapterName st))
       = Some (ad_ref (ps_adapter st)) \<and>
     getRevision (po_registry p 0) (ps_adapterName st) = Some (ps_registryRevision st) \<and>
     ps_userId st = userId \<and> ps_streaming st = streaming \<and> pe_streaming pe = streaming \<and>
     ps_adapterName st = pe_adapterName pe \<and> xp_id (ps_builtPlan st) = pe_planId pe \<and>
     get (ca_parameters a) ''executionPlanId'' = JStr (pe_planId pe) \<and>
     ps_requestedExecutionChannel st = ec_ironclawChannel ctx \<and>
     ps_executionChannel st = pe_executionChannel pe \<and>
     risk_match (ps_riskAssessment st) r \<and> risk_match (pe_riskAssessment pe) r \<and>
     valuesMatch (po_collate p) (action_value (withoutLateBoundAuthority (ps_action st)))
       (action_value (withoutLateBoundAuthority (bindTrustedDispatchAction a userId)))"

definition drop_handle :: "nat \<Rightarrow> router \<Rightarrow> router" where
  "drop_handle h rt = rt \<lparr> rt_prepared := filter (\<lambda>(k, s). k \<noteq> h) (rt_prepared rt) \<rparr>"

definition consumePreparedExecution ::
  "ports \<Rightarrow> prepared_execution \<Rightarrow> candidate_action \<Rightarrow> risk_assessment \<Rightarrow> string \<Rightarrow> bool
   \<Rightarrow> execution_context \<Rightarrow> router \<Rightarrow> (router_error + prepared_state) \<times> router" where
  "consumePreparedExecution p pe a r userId streaming ctx rt =
     (let found = map_of (rt_prepared rt) (pe_handle pe); rt' = drop_handle (pe_handle pe) rt in
      (case assertAdmitted p 0 a userId (map_option ps_adapterName found) of Some e \<Rightarrow> Inl e | None \<Rightarrow>
      (case found of
         None \<Rightarrow> Inl (InvariantViolationError ''Prepared execution does not match'')
       | Some st \<Rightarrow>
           if \<not> same_prepared p st pe a r userId streaming ctx
           then Inl (InvariantViolationError ''Prepared execution does not match'')
           else (case assertValidExecutionInputs a r of Some e \<Rightarrow> Inl e | None \<Rightarrow>
             (case assertExecutionPermitted a ctx of Some e \<Rightarrow> Inl e | None \<Rightarrow> Inr st))), rt'))"

end
