(* ===== verification/RouterDispatch.thy ===== *)
theory RouterDispatch
  imports ExecutionRouter
begin

text \<open>
  The second half of \<open>packages/execution-router/src/execution-router.ts\<close>: claiming the dispatch
  authority, executing and streaming a prepared execution, the routing entry points and rollback.
  Values that an adapter yields are trees; an adapter that repeats one object inside a payload is
  refused by the code for that alone.
\<close>

section \<open>The dispatch authority\<close>

definition GOOGLE_CREDENTIAL_ACTION_TYPES :: "string list" where
  "GOOGLE_CREDENTIAL_ACTION_TYPES =
     [''archive_email'', ''label_email'', ''send_reply'', ''reply_email'', ''draft_email'',
      ''send_email'', ''delete_email'', ''accept_invite'', ''decline_invite'',
      ''propose_alternative'', ''tentative_accept'']"

definition nonempty :: "string option \<Rightarrow> string option" where
  "nonempty x = (if x = Some [] then None else x)"

definition authorityInput ::
  "candidate_action \<Rightarrow> execution_plan \<Rightarrow> string \<Rightarrow> string \<Rightarrow> risk_assessment \<Rightarrow> string option
   \<Rightarrow> string option \<Rightarrow> request_preparation option \<Rightarrow> router_error + authority_input" where
  "authorityInput a plan userId adapterName r executionChannel userExecutionChannel preparation =
     (case (get (ca_parameters a) ''credentialAuthorityRevision'',
            get (ca_parameters a) ''credentialPolicyAuthorityRevision'',
            get (ca_parameters a) ''dispatchAuthorityId'',
            get (ca_parameters a) ''dispatchAuthorityUpdatedAt'') of
        (JStr authorityRevision, JStr policyAuthorityRevision, JStr admissionId, JStr admissionUpdatedAt) \<Rightarrow>
          (let required = (adapterName = ''direct'' \<and> ca_actionType a \<in> set GOOGLE_CREDENTIAL_ACTION_TYPES);
               credential = (if required then Option.bind preparation rq_credentialBinding else None) in
           if (case credential of Some c \<Rightarrow> cb_provider c \<noteq> ''google'' | None \<Rightarrow> False)
           then Inl (InvariantViolationError ''Direct credential dispatch provider is invalid.'')
           else Inr \<lparr> ai_userId = userId, ai_decisionId = ca_decisionId a, ai_actionId = ca_id a,
             ai_executionPlanId = xp_id plan, ai_adapterName = adapterName,
             ai_expectedRiskSnapshot = r,
             ai_expectedExecutionChannel = (if adapterName = ''ironclaw'' then executionChannel else None),
             ai_expectedUserExecutionChannel =
               (if adapterName = ''ironclaw'' then userExecutionChannel else None),
             ai_expectedAuthorityRevision = authorityRevision,
             ai_expectedPolicyAuthorityRevision = policyAuthorityRevision,
             ai_expectedAdmissionAuthorityId = admissionId,
             ai_expectedAdmissionAuthorityUpdatedAt = admissionUpdatedAt,
             ai_mcpServerId = (if adapterName = ''mcp-host'' then get (ca_parameters a) ''mcpServerId''
               else JUndefined),
             ai_mcpToolName = (if adapterName = ''mcp-host'' then Some (ca_actionType a) else None),
             ai_credentialProvider = (if required then Some ''google'' else None),
             ai_expectedOAuthTokenId = map_option cb_oauthTokenId credential,
             ai_expectedCredentialRevision = map_option cb_credentialRevision credential,
             ai_credentialAccountEmail = nonempty (Option.bind credential cb_accountEmail),
             ai_expectedVaultGeneration = nonempty (Option.bind credential cb_vaultGeneration) \<rparr>)
      | _ \<Rightarrow> Inl (InvariantViolationError
          ''Persisted execution authority revisions are required at request start.''))"

definition startDispatch ::
  "ports \<Rightarrow> nat \<Rightarrow> candidate_action \<Rightarrow> execution_plan \<Rightarrow> string \<Rightarrow> string \<Rightarrow> risk_assessment
   \<Rightarrow> string option \<Rightarrow> string option \<Rightarrow> request_preparation option
   \<Rightarrow> (router_error + lease_grant) \<times> router_effect list" where
  "startDispatch p h a plan userId adapterName r executionChannel userExecutionChannel preparation =
     (case authorityInput a plan userId adapterName r executionChannel userExecutionChannel preparation of
        Inl e \<Rightarrow> (Inl (AmbiguousExecutionError
          ''Execution request-start authority outcome is ambiguous.''), [])
      | Inr inp \<Rightarrow>
          ((case po_start p inp of
              st_granted g \<Rightarrow> Inr g
            | st_authority_revoked why \<Rightarrow> Inl (NoRequestExecutionError why)
            | st_dispatch_replayed why \<Rightarrow> Inl (AmbiguousExecutionError why)
            | st_threw \<Rightarrow> Inl (AmbiguousExecutionError
                ''Execution request-start authority outcome is ambiguous.'')),
           [Eff_start h inp]))"

text \<open>What a call that does not reach a persisted terminal state ends with.\<close>

definition ambiguous_end ::
  "nat \<Rightarrow> ambiguity \<Rightarrow> (router_error + 'a) \<times> router_effect list" where
  "ambiguous_end h why =
     (Inl (AmbiguousExecutionError ''Execution through adapter is ambiguous.''),
      [Eff_terminalize h (ts_ambiguous why)])"

definition terminal_of :: "execution_status \<Rightarrow> terminal_state" where
  "terminal_of s = (if s = ex_completed then ts_completed else ts_failed)"

definition status_str :: "execution_status \<Rightarrow> string" where
  "status_str s = (case s of ex_pending \<Rightarrow> ''pending'' | ex_running \<Rightarrow> ''running''
     | ex_completed \<Rightarrow> ''completed'' | ex_failed \<Rightarrow> ''failed'')"

definition unbound :: "execution_plan \<Rightarrow> execution_result \<Rightarrow> bool" where
  "unbound plan result \<longleftrightarrow> xr_planId result \<noteq> xp_id plan \<or>
     (xr_status result \<noteq> ex_completed \<and> xr_status result \<noteq> ex_failed)"

definition routed_fields :: "prepared_state \<Rightarrow> (string \<times> jsval) list" where
  "routed_fields st =
     [(''adapter_used'', JStr (ps_adapterName st)), (''routing_decision'', JStr (ps_adapterName st)),
      (''fallbacks_attempted'', JNum (Fin (of_nat (ps_fallbacksAttempted st))))]"

section \<open>Executing\<close>

text \<open>
  Everything between consuming the handle and the call of the adapter: the bound plan and the
  lease, or the error.
\<close>

definition start_prepared ::
  "ports \<Rightarrow> nat \<Rightarrow> prepared_state \<Rightarrow> candidate_action \<Rightarrow> risk_assessment \<Rightarrow> string
   \<Rightarrow> execution_context \<Rightarrow> (router_error + execution_plan \<times> lease_grant) \<times> router_effect list" where
  "start_prepared p h st a r userId ctx =
     (let da = bindTrustedDispatchAction a userId;
          bind = (\<lambda>grant. bindTrustedPlanContext (po_collate p) (ps_builtPlan st) da userId
            (ps_adapterName st) grant (ps_executionChannel st)) in
      case bind None of Inl e \<Rightarrow> (Inl e, [])
      | Inr unleasedPlan \<Rightarrow>
        (case startDispatch p h da unleasedPlan userId (ps_adapterName st) r (ps_executionChannel st)
            (ec_ironclawChannel ctx) (ps_preparation st) of
          (Inl e, es) \<Rightarrow> (Inl e, es)
        | (Inr grant, es) \<Rightarrow>
            (case bind (Some grant) of Inl e \<Rightarrow> (Inl e, es) | Inr plan \<Rightarrow> (Inr (plan, grant), es))))"

definition routed_result :: "prepared_state \<Rightarrow> execution_plan \<Rightarrow> execution_result \<Rightarrow> execution_result" where
  "routed_result st plan result = result
     \<lparr> xr_output := Some (stripAdapterReservedOutput (xr_output result) @ routed_fields st
         @ (if xr_status result = ex_failed
            then [(''fallback_skipped_reason'',
              JStr ''the admitted adapter returned a terminal failure'')] else [])
         @ [(''adapter_plan_id'', JStr (xp_id plan)), (''status'', JStr (status_str (xr_status result))),
            (''success'', JBool (xr_status result = ex_completed)),
            (''rollback_available'', JBool (xp_rollbackSteps plan \<noteq> []))]) \<rparr>"

definition run_adapter ::
  "ports \<Rightarrow> nat \<Rightarrow> prepared_state \<Rightarrow> execution_plan \<Rightarrow> lease_grant \<Rightarrow> string
   \<Rightarrow> (router_error + execution_result) \<times> router_effect list" where
  "run_adapter p h st plan grant userId =
     (case ad_execute (ps_adapter st) plan (ps_preparation st) of
        None \<Rightarrow> ambiguous_end h adapter_exception
      | Some result \<Rightarrow>
          if unbound plan result then ambiguous_end h adapter_result_unbound
          else (case po_terminalize p userId (xp_id plan) grant (terminal_of (xr_status result)) of
              Some True \<Rightarrow> (Inr (routed_result st plan result),
                [Eff_terminalize h (terminal_of (xr_status result))])
            | _ \<Rightarrow> (case ambiguous_end h adapter_exception of
                (res, es) \<Rightarrow> (res, Eff_terminalize h (terminal_of (xr_status result)) # es))))"

definition executePrepared ::
  "ports \<Rightarrow> prepared_execution \<Rightarrow> candidate_action \<Rightarrow> risk_assessment \<Rightarrow> string
   \<Rightarrow> execution_context \<Rightarrow> router
   \<Rightarrow> (router_error + execution_result) \<times> router \<times> router_effect list" where
  "executePrepared p pe a r userId ctx rt =
     (case consumePreparedExecution p pe a r userId False ctx rt of
        (Inl e, rt') \<Rightarrow> (Inl e, rt', [])
      | (Inr st, rt') \<Rightarrow>
          (case start_prepared p (pe_handle pe) st a r userId ctx of
             (Inl e, es) \<Rightarrow> (Inl e, rt', es)
           | (Inr (plan, grant), es) \<Rightarrow>
               (case run_adapter p (pe_handle pe) st plan grant userId of
                  (res, es') \<Rightarrow>
                    (res, rt', es @ Eff_execute (pe_handle pe) (ps_adapterName st) plan # es'))))"

section \<open>The size of streamed values\<close>

definition MAX_BUFFERED_STREAM_EVENTS :: nat where
  "MAX_BUFFERED_STREAM_EVENTS = 256"

definition MAX_BUFFERED_STREAM_BYTES :: int where
  "MAX_BUFFERED_STREAM_BYTES = 1048576"

definition MAX_STREAM_VALUE_DEPTH :: nat where
  "MAX_STREAM_VALUE_DEPTH = 16"

definition MAX_STREAM_CONTAINER_ENTRIES :: nat where
  "MAX_STREAM_CONTAINER_ENTRIES = 1024"

type_synonym sizer = "int \<Rightarrow> nat \<Rightarrow> int \<Rightarrow> int option"

definition add_bytes :: "int \<Rightarrow> int \<Rightarrow> int \<Rightarrow> int option" where
  "add_bytes limit n bytes = (if bytes + n \<le> limit then Some (bytes + n) else None)"

definition text_bytes :: "int \<Rightarrow> string \<Rightarrow> int" where
  "text_bytes limit s = min (int (length s)) (limit + 1) * 3 + 2"

definition shallow :: "(int \<Rightarrow> int \<Rightarrow> int option) \<Rightarrow> sizer" where
  "shallow f = (\<lambda>limit depth bytes.
     if MAX_STREAM_VALUE_DEPTH < depth then None else f limit bytes)"

definition sum_sizes :: "(int \<Rightarrow> int option) list \<Rightarrow> int \<Rightarrow> int option" where
  "sum_sizes fs bytes = foldl Option.bind (Some bytes) fs"

definition container :: "(int \<Rightarrow> nat \<Rightarrow> int \<Rightarrow> int option) list \<Rightarrow> sizer" where
  "container fs = (\<lambda>limit depth bytes.
     if MAX_STREAM_VALUE_DEPTH < depth then None
     else Option.bind (add_bytes limit 2 bytes) (\<lambda>b.
       if MAX_STREAM_CONTAINER_ENTRIES < length fs then None
       else sum_sizes (map (\<lambda>f. f limit (Suc depth)) fs) b))"

definition entry_size :: "string \<times> sizer \<Rightarrow> sizer" where
  "entry_size = (\<lambda>(k, f) limit depth bytes.
     Option.bind (add_bytes limit (text_bytes limit k) bytes) (f limit depth))"

primrec addStreamValueSize :: "jsval \<Rightarrow> sizer" where
  "addStreamValueSize JUndefined = shallow (\<lambda>limit bytes. Some bytes)"
| "addStreamValueSize JNull = shallow (\<lambda>limit. add_bytes limit 32)"
| "addStreamValueSize (JBool b) = shallow (\<lambda>limit. add_bytes limit 32)"
| "addStreamValueSize (JNum n) = shallow (\<lambda>limit. add_bytes limit 32)"
| "addStreamValueSize (JStr s) = shallow (\<lambda>limit. add_bytes limit (text_bytes limit s))"
| "addStreamValueSize (JArr vs) = container (map addStreamValueSize vs)"
| "addStreamValueSize (JObj ob) = container (map entry_size (map (map_prod id addStreamValueSize) ob))"

section \<open>Streaming\<close>

record stream_state =
  ss_terminalEvent :: "execution_event option"
  ss_activeStepId :: "string option"
  ss_nextStepIndex :: nat
  ss_bufferedEvents :: "execution_event list"
  ss_bufferedBytes :: int

definition stream_start :: stream_state where
  "stream_start = \<lparr> ss_terminalEvent = None, ss_activeStepId = None, ss_nextStepIndex = 0,
     ss_bufferedEvents = [], ss_bufferedBytes = 0 \<rparr>"

definition is_terminal :: "execution_event \<Rightarrow> bool" where
  "is_terminal ev \<longleftrightarrow> ee_eventType ev = plan_completed \<or> ee_eventType ev = plan_failed"

definition event_type_str :: "event_type \<Rightarrow> string" where
  "event_type_str t = (case t of plan_started \<Rightarrow> ''plan_started'' | step_started \<Rightarrow> ''step_started''
     | step_completed \<Rightarrow> ''step_completed'' | step_failed \<Rightarrow> ''step_failed''
     | plan_completed \<Rightarrow> ''plan_completed'' | plan_failed \<Rightarrow> ''plan_failed'')"

text \<open>The timestamp counts like null.\<close>

definition event_value :: "execution_event \<Rightarrow> jsval" where
  "event_value ev = JObj
     [(''planId'', JStr (ee_planId ev)), (''stepId'', opt_str (ee_stepId ev)),
      (''eventType'', JStr (event_type_str (ee_eventType ev))), (''timestamp'', JNull),
      (''payload'', JObj (case ee_payload ev of None \<Rightarrow> [] | Some ob \<Rightarrow> ob))]"

text \<open>The step protocol: the canonical step of the event with the new active step and index.\<close>

definition stream_protocol ::
  "execution_plan \<Rightarrow> stream_state \<Rightarrow> execution_event
   \<Rightarrow> (string option \<times> string option \<times> nat) option" where
  "stream_protocol plan ss ev =
     (if ee_eventType ev \<in> {step_started, step_completed, step_failed} then
        (if ss_nextStepIndex ss < length (xp_steps plan) \<and>
            ee_stepId ev = Some (es_id (xp_steps plan ! ss_nextStepIndex ss))
         then
           (let stepId = es_id (xp_steps plan ! ss_nextStepIndex ss) in
            if ee_eventType ev = step_started then
              (if ss_activeStepId ss \<noteq> None then None
               else Some (Some stepId, Some stepId, ss_nextStepIndex ss))
            else if ss_activeStepId ss \<noteq> None \<and> ss_activeStepId ss \<noteq> Some stepId then None
            else Some (Some stepId, None, Suc (ss_nextStepIndex ss)))
         else None)
      else if ee_stepId ev \<noteq> None then None
      else Some (None, ss_activeStepId ss, ss_nextStepIndex ss))"

definition routed_event :: "prepared_state \<Rightarrow> execution_plan \<Rightarrow> string option \<Rightarrow> execution_event
   \<Rightarrow> execution_event" where
  "routed_event st plan stepId ev = ev
     \<lparr> ee_stepId := stepId,
       ee_payload := Some (stripAdapterReservedOutput (ee_payload ev) @ routed_fields st
         @ (if is_terminal ev then
              [(''status'', JStr (if ee_eventType ev = plan_completed then ''completed'' else ''failed'')),
               (''success'', JBool (ee_eventType ev = plan_completed)),
               (''rollback_available'', JBool (xp_rollbackSteps plan \<noteq> []))]
            else [])) \<rparr>"

definition stream_step ::
  "prepared_state \<Rightarrow> execution_plan \<Rightarrow> execution_event \<Rightarrow> stream_state \<Rightarrow> stream_state option" where
  "stream_step st plan ev ss =
     (if ee_planId ev \<noteq> xp_id plan \<or> ss_terminalEvent ss \<noteq> None then None
      else (case stream_protocol plan ss ev of
          None \<Rightarrow> None
        | Some (stepId, active, next_index) \<Rightarrow>
            (let rev = routed_event st plan stepId ev in
             if \<not> is_terminal ev \<and> MAX_BUFFERED_STREAM_EVENTS \<le> length (ss_bufferedEvents ss) then None
             else (case addStreamValueSize (event_value rev)
                 (MAX_BUFFERED_STREAM_BYTES - ss_bufferedBytes ss) 0 0 of
               None \<Rightarrow> None
             | Some sz \<Rightarrow> Some \<lparr>
                 ss_terminalEvent = (if is_terminal ev then Some rev else None),
                 ss_activeStepId = active, ss_nextStepIndex = next_index,
                 ss_bufferedEvents = (if is_terminal ev then ss_bufferedEvents ss
                   else ss_bufferedEvents ss @ [rev]),
                 ss_bufferedBytes = ss_bufferedBytes ss + sz \<rparr>))))"

fun stream_loop ::
  "prepared_state \<Rightarrow> execution_plan \<Rightarrow> execution_event list \<Rightarrow> stream_state \<Rightarrow> stream_state option" where
  "stream_loop st plan [] ss = Some ss"
| "stream_loop st plan (ev # evs) ss = (case stream_step st plan ev ss of
     None \<Rightarrow> None | Some ss' \<Rightarrow> stream_loop st plan evs ss')"

definition single_event ::
  "prepared_state \<Rightarrow> execution_plan \<Rightarrow> execution_result \<Rightarrow> execution_event" where
  "single_event st plan result =
     \<lparr> ee_planId = xp_id plan, ee_stepId = None,
       ee_eventType = (if xr_status result = ex_completed then plan_completed else plan_failed),
       ee_payload = Some (stripAdapterReservedOutput (xr_output result)
         @ [(''error'', opt_str (xr_error result))] @ routed_fields st
         @ [(''status'', JStr (status_str (xr_status result))),
            (''success'', JBool (xr_status result = ex_completed)),
            (''rollback_available'', JBool (xp_rollbackSteps plan \<noteq> [])),
            (''adapter_plan_id'', JStr (xp_id plan))]) \<rparr>"

text \<open>Persist the terminal state, then release the events; or end ambiguously.\<close>

definition release ::
  "ports \<Rightarrow> nat \<Rightarrow> string \<Rightarrow> string \<Rightarrow> lease_grant \<Rightarrow> terminal_state \<Rightarrow> execution_event list
   \<Rightarrow> (router_error + unit) \<times> router_effect list" where
  "release p h userId planId grant t evs =
     (case po_terminalize p userId planId grant t of
        Some True \<Rightarrow> (Inr (), Eff_terminalize h t # map (Eff_yield h) evs)
      | _ \<Rightarrow> (case ambiguous_end h stream_exception of (res, es) \<Rightarrow> (res, Eff_terminalize h t # es)))"

definition stream_adapter ::
  "ports \<Rightarrow> nat \<Rightarrow> prepared_state \<Rightarrow> execution_plan \<Rightarrow> lease_grant \<Rightarrow> string
   \<Rightarrow> (router_error + unit) \<times> router_effect list" where
  "stream_adapter p h st plan grant userId =
     (case ad_executeStreaming (ps_adapter st) of
        None \<Rightarrow>
          (case ad_execute (ps_adapter st) plan (ps_preparation st) of
             None \<Rightarrow> ambiguous_end h stream_exception
           | Some result \<Rightarrow>
               if unbound plan result then ambiguous_end h adapter_result_unbound
               else release p h userId (xp_id plan) grant (terminal_of (xr_status result))
                 [single_event st plan result])
      | Some stream \<Rightarrow>
          (let sm = stream plan (ps_preparation st) in
           case stream_loop st plan (sm_events sm) stream_start of
             None \<Rightarrow> ambiguous_end h stream_protocol_invalid
           | Some ss \<Rightarrow>
               if sm_threw sm then ambiguous_end h stream_exception
               else (case ss_terminalEvent ss of
                   None \<Rightarrow> ambiguous_end h stream_incomplete
                 | Some ev \<Rightarrow> release p h userId (xp_id plan) grant
                     (if ee_eventType ev = plan_completed then ts_completed else ts_failed)
                     (ss_bufferedEvents ss @ [ev]))))"

definition executePreparedStreaming ::
  "ports \<Rightarrow> prepared_execution \<Rightarrow> candidate_action \<Rightarrow> risk_assessment \<Rightarrow> string
   \<Rightarrow> execution_context \<Rightarrow> router \<Rightarrow> (router_error + unit) \<times> router \<times> router_effect list" where
  "executePreparedStreaming p pe a r userId ctx rt =
     (case consumePreparedExecution p pe a r userId True ctx rt of
        (Inl e, rt') \<Rightarrow> (Inl e, rt', [])
      | (Inr st, rt') \<Rightarrow>
          (case start_prepared p (pe_handle pe) st a r userId ctx of
             (Inl e, es) \<Rightarrow> (Inl e, rt', es)
           | (Inr (plan, grant), es) \<Rightarrow>
               (case stream_adapter p (pe_handle pe) st plan grant userId of
                  (res, es') \<Rightarrow>
                    (res, rt', es @ Eff_execute (pe_handle pe) (ps_adapterName st) plan # es'))))"

section \<open>Routing entry points\<close>

definition admitted_action :: "candidate_action \<Rightarrow> string \<Rightarrow> candidate_action" where
  "admitted_action a planId =
     a \<lparr> ca_parameters := put ''executionPlanId'' (JStr planId) (ca_parameters a) \<rparr>"

definition executeWithRouting ::
  "ports \<Rightarrow> ports \<Rightarrow> candidate_action \<Rightarrow> risk_assessment \<Rightarrow> string \<Rightarrow> execution_context \<Rightarrow> router
   \<Rightarrow> (router_error + execution_result) \<times> router \<times> router_effect list" where
  "executeWithRouting p q a r userId ctx rt =
     (case prepareExecution p a r userId ctx False rt of
        (Inl e, rt', es) \<Rightarrow> (Inl e, rt', es)
      | (Inr pe, rt', es) \<Rightarrow>
          if \<not> risk_match (pe_riskAssessment pe) r
          then (Inl (InvariantViolationError
              ''Adapter-adjusted risk must be policy-evaluated and admitted before execution.''),
            drop_handle (pe_handle pe) rt', es)
          else (case executePrepared q pe (admitted_action a (pe_planId pe)) r userId ctx rt' of
              (res, rt'', es') \<Rightarrow> (res, rt'', es @ es')))"

definition executeWithRoutingStreaming ::
  "ports \<Rightarrow> ports \<Rightarrow> candidate_action \<Rightarrow> risk_assessment \<Rightarrow> string \<Rightarrow> execution_context \<Rightarrow> router
   \<Rightarrow> (router_error + unit) \<times> router \<times> router_effect list" where
  "executeWithRoutingStreaming p q a r userId ctx rt =
     (case prepareExecution p a r userId ctx True rt of
        (Inl e, rt', es) \<Rightarrow> (Inl e, rt', es)
      | (Inr pe, rt', es) \<Rightarrow>
          if \<not> risk_match (pe_riskAssessment pe) r
          then (Inl (InvariantViolationError
              ''Adapter-adjusted risk must be policy-evaluated and admitted before streaming execution.''),
            drop_handle (pe_handle pe) rt', es)
          else (case executePreparedStreaming q pe (admitted_action a (pe_planId pe)) r userId ctx rt' of
              (res, rt'', es') \<Rightarrow> (res, rt'', es @ es')))"

section \<open>Rollback\<close>

definition snapshotRollbackActionIdentity :: "jsval \<Rightarrow> (string \<times> string) option" where
  "snapshotRollbackActionIdentity v = (case v of
     JObj ob \<Rightarrow>
       (if length ob = 2 \<and> has_own ob ''actionId'' \<and> has_own ob ''actionType'' then
          (case (get ob ''actionId'', get ob ''actionType'') of
             (JStr i, JStr t) \<Rightarrow> if i = [] \<or> t = [] then None else Some (i, t)
           | _ \<Rightarrow> None)
        else None)
   | _ \<Rightarrow> None)"

record rollback_result =
  rr_success :: bool
  rr_message :: string
  rr_adapterUsed :: "string option"
  rr_noAdapter :: bool

definition rolled :: "bool \<Rightarrow> string \<Rightarrow> string option \<Rightarrow> bool \<Rightarrow> rollback_result" where
  "rolled ok message used none =
     \<lparr> rr_success = ok, rr_message = message, rr_adapterUsed = used, rr_noAdapter = none \<rparr>"

text \<open>The result, and the calls of an adapter's own rollback (its name, the plan).\<close>

definition rollback ::
  "registry \<Rightarrow> string \<Rightarrow> string option \<Rightarrow> jsval \<Rightarrow> rollback_result \<times> (string \<times> string) list" where
  "rollback rg planId adapterUsed identity =
     (case adapterUsed of
        None \<Rightarrow> (rolled False ''Cannot roll back: no adapter was recorded for this plan.'' None True, [])
      | Some name \<Rightarrow>
          if name = [] then
            (rolled False ''Cannot roll back: no adapter was recorded for this plan.'' None True, [])
          else (case registry_get rg name of
            None \<Rightarrow> (rolled False ''Cannot roll back: the adapter is no longer registered.''
              (Some name) True, [])
          | Some entry \<Rightarrow>
              (case snapshotRollbackActionIdentity identity of
                 None \<Rightarrow> (rolled False ''rollback_action_identity_invalid'' (Some name) False, [])
               | Some (i, t) \<Rightarrow>
                   if t = ''archive_email''
                   then (rolled False ''rollback_action_reserved'' (Some name) False, [])
                   else
                     ((case ad_rollback (ae_adapter entry) planId of
                         Some True \<Rightarrow> rolled True
                           ''The recorded adapter confirmed rollback completion.'' (Some name) False
                       | Some False \<Rightarrow> rolled False
                           ''The recorded adapter could not confirm rollback completion.'' (Some name) False
                       | None \<Rightarrow> rolled False
                           ''The recorded adapter rollback outcome is unavailable.'' (Some name) False),
                      [(name, planId)]))))"

end
