(* ===== verification/RouterTheorems.thy ===== *)
theory RouterTheorems
  imports RouterDispatch
begin

text \<open>
  What the execution router guarantees: what an executed plan can contain, the backstop, the one
  use of a prepared execution, the fence of the dispatch authority around an adapter call, the
  meaning of its error classes, the release of streamed events, and rollback.
\<close>

section \<open>Parameters\<close>

lemma map_of_without_keys: "map_of (without_keys ks ob) k = (if k \<in> set ks then None else map_of ob k)"
  by (induction ob) (auto simp: without_keys_def)

lemma has_own_map_of: "has_own ob k \<longleftrightarrow> map_of ob k \<noteq> None"
  by (simp add: has_own_def map_of_eq_None_iff)

text \<open>The only value an adapter can add under a key that the action does not have.\<close>

definition allowed_extra :: "candidate_action \<Rightarrow> string \<Rightarrow> step_kind \<Rightarrow> string \<Rightarrow> jsval option" where
  "allowed_extra a n kind k =
     (if k = ''actionType'' then Some (JStr (ca_actionType a))
      else if k = ''domain'' then Some (JStr (ca_domain a))
      else if k = ''estimatedCostCents'' then Some (JNum (ca_estimatedCostCents a))
      else if k = ''adapter_used'' then Some (JStr n)
      else if k = ''originalActionType'' \<and> kind = k_rollback then Some (JStr (ca_actionType a))
      else if k = ''_isRollback'' \<and> kind = k_rollback \<and> n = ''mcp-host'' then Some (JBool True)
      else if k = ''_mcpToolName'' \<and> n = ''mcp-host'' then Some (JStr (ca_actionType a))
      else if k = ''_mcpServerId'' \<and> n = ''mcp-host'' then Some (get (ca_parameters a) ''mcpServerId'')
      else None)"

lemma extra_parameter_allowed:
  "extra_parameter a n kind k v = Inr w \<Longrightarrow> allowed_extra a n kind k = Some w"
  by (auto simp: extra_parameter_def allowed_extra_def split: if_splits jsval.splits)

lemma bind_extras_values:
  "bind_extras a n kind ob c = Inr c' \<Longrightarrow> map_of c' k = map_of c k \<or>
     (\<not> has_own (ca_parameters a) k \<and> map_of c' k = allowed_extra a n kind k)"
proof (induction a n kind ob c rule: bind_extras.induct)
  case (2 a n kind key v ob c)
  show ?case
  proof (cases "has_own (ca_parameters a) key")
    case True
    then show ?thesis using 2 by simp
  next
    case False
    then obtain w where w: "extra_parameter a n kind key v = Inr w"
      "bind_extras a n kind ob (put key w c) = Inr c'"
      using "2.prems" by (auto split: sum.splits)
    show ?thesis
      using "2.IH"(2) [OF False w(1,2)] extra_parameter_allowed [OF w(1)] False
      by (cases "k = key") auto
  qed
qed simp

lemma bound_exact:
  assumes "bindExactStepParameters coll ob a n kind = Inr c"
  shows "map_of (ca_parameters a) k = Some v \<Longrightarrow> map_of c k = Some v"
    "map_of c k = Some v \<Longrightarrow> map_of (ca_parameters a) k = Some v \<or> allowed_extra a n kind k = Some v"
  using bind_extras_values [of a n kind ob "ca_parameters a" c k] assms
  by (auto simp: bindExactStepParameters_def has_own_map_of split: if_splits)

text \<open>An adapter that hands the admitted parameters back is accepted, and adds nothing.\<close>

lemma bind_extras_own:
  "\<forall>(k, v) \<in> set ob. has_own (ca_parameters a) k \<Longrightarrow> bind_extras a n kind ob c = Inr c"
  by (induction ob) auto

lemma bound_honest:
  assumes "list_all (\<lambda>(k, v). k \<in> set LATE_BOUND_AUTHORITY_PARAMETER_KEYS \<or> map_of ob k = Some v)
      (ca_parameters a)"
    and "\<forall>(k, v) \<in> set ob. has_own (ca_parameters a) k"
  shows "bindExactStepParameters coll ob a n kind = Inr (ca_parameters a)"
proof -
  have "has_own ob k \<and> get ob k = v" if "map_of ob k = Some v" for k v
    using that by (simp add: has_own_map_of get_def)
  then have "\<not> list_ex (\<lambda>(key, expected). key \<notin> set LATE_BOUND_AUTHORITY_PARAMETER_KEYS \<and>
      \<not> (has_own ob key \<and> valuesMatch coll (get ob key) expected)) (ca_parameters a)"
    using assms(1) by (auto simp: list_ex_iff list_all_iff valuesMatch_def)
  then show ?thesis
    using bind_extras_own [OF assms(2)] by (simp add: bindExactStepParameters_def)
qed

text \<open>The fields the router writes itself.\<close>

definition router_fields ::
  "candidate_action \<Rightarrow> string \<Rightarrow> string \<Rightarrow> string \<Rightarrow> lease_grant option \<Rightarrow> jsobj" where
  "router_fields a planId userId n grant =
     (case grant of
        Some g \<Rightarrow> if n = ''direct'' then
          [(''dispatchLeaseGeneration'', JStr (lg_leaseGeneration g)),
           (''dispatchCapability'', JStr (lg_capability g))] else []
      | None \<Rightarrow> [])
     @ [(''credentialPolicyAuthorityRevision'',
          get (ca_parameters a) ''credentialPolicyAuthorityRevision''),
        (''credentialAuthorityRevision'', get (ca_parameters a) ''credentialAuthorityRevision''),
        (''credentialExecutionPlanId'', JStr planId),
        (''credentialDecisionId'', JStr (ca_decisionId a)),
        (''credentialActionId'', JStr (ca_id a)), (''userId'', JStr userId)]"

lemma map_of_put_upd: "map_of (put k v m) = (map_of m)(k \<mapsto> v)"
  by (rule ext) simp

lemma bound_parameters_map:
  "map_of (bound_parameters a planId u n g ob) = map_of ob ++ map_of (router_fields a planId u n g)"
  unfolding bound_parameters_def router_fields_def Let_def
  by (simp only: map_of_put_upd map_of.simps append.simps map_add_empty map_add_upd fst_conv snd_conv
      split: option.splits if_splits) simp

lemma router_fields_control:
  "map_of (router_fields a planId u n g) k \<noteq> None \<Longrightarrow> k \<in> set ROUTER_CONTROL_PARAMETER_KEYS"
  by (auto simp: router_fields_def ROUTER_CONTROL_PARAMETER_KEYS_def split: option.splits if_splits)

section \<open>Bound plans\<close>

text \<open>
  A bound step: its shape is the action's, and each of its parameters was admitted with the
  action, is one of the echoes an adapter may add, or was written by the router.
\<close>

definition exact_step ::
  "candidate_action \<Rightarrow> string \<Rightarrow> string \<Rightarrow> string \<Rightarrow> lease_grant option \<Rightarrow> step_kind
   \<Rightarrow> execution_step \<Rightarrow> bool" where
  "exact_step a planId u n g kind s \<longleftrightarrow>
     es_type s = expected_type a kind \<and> es_description s = expected_description a kind \<and>
     es_order s = Fin 1 \<and> es_timeout s = Fin 30000 \<and>
     (\<forall>k v. map_of (es_parameters s) k = Some v \<longrightarrow>
        map_of (router_fields a planId u n g) k = Some v \<or> map_of (ca_parameters a) k = Some v \<or>
        allowed_extra a n kind k = Some v) \<and>
     (\<forall>k v. k \<notin> set ROUTER_CONTROL_PARAMETER_KEYS \<and> map_of (ca_parameters a) k = Some v \<longrightarrow>
        map_of (es_parameters s) k = Some v) \<and>
     (n \<noteq> ''direct'' \<longrightarrow> (\<forall>k \<in> set ROUTER_CONTROL_PARAMETER_KEYS. map_of (es_parameters s) k = None))"

definition exact_plan ::
  "candidate_action \<Rightarrow> string \<Rightarrow> string \<Rightarrow> lease_grant option \<Rightarrow> execution_plan \<Rightarrow> bool" where
  "exact_plan a u n g q \<longleftrightarrow>
     xp_executionOwnerId q = Some u \<and> xp_decisionId q = ca_decisionId a \<and>
     (\<exists>s. xp_steps q = [s] \<and> exact_step a (xp_id q) u n g k_step s) \<and>
     length (xp_rollbackSteps q) \<le> 1 \<and> (\<not> ca_reversible a \<longrightarrow> xp_rollbackSteps q = []) \<and>
     list_all (exact_step a (xp_id q) u n g k_rollback) (xp_rollbackSteps q) \<and>
     ca_actionType (xp_action q) = ca_actionType a"

definition finish_step :: "string \<Rightarrow> execution_step \<Rightarrow> execution_step" where
  "finish_step n s = (if n = ''direct'' then s else strip_step s)"

lemma bind_step_exact:
  assumes "bind_step coll plan a u n g kind st = Inr s"
  shows "exact_step a (xp_id plan) u n g kind (finish_step n s)"
proof -
  obtain c where c: "bindExactStepParameters coll (es_parameters st) a n kind = Inr c"
    and s: "es_type s = expected_type a kind" "es_description s = expected_description a kind"
      "es_order s = Fin 1" "es_timeout s = Fin 30000"
      "es_parameters s = bound_parameters a (xp_id plan) u n g c"
    using assms by (auto simp: bind_step_def split: if_splits sum.splits)
  have params: "map_of (es_parameters (finish_step n s)) k =
      (if n \<noteq> ''direct'' \<and> k \<in> set ROUTER_CONTROL_PARAMETER_KEYS then None
       else (map_of c ++ map_of (router_fields a (xp_id plan) u n g)) k)" for k
    by (simp add: finish_step_def strip_step_def stripRouterControlParameters_def map_of_without_keys
        s(5) bound_parameters_map)
  have "map_of (router_fields a (xp_id plan) u n g) k = Some v \<or> map_of (ca_parameters a) k = Some v \<or>
      allowed_extra a n kind k = Some v" if "map_of (es_parameters (finish_step n s)) k = Some v" for k v
    using that bound_exact(2) [OF c, of k v] unfolding params
    by (auto simp: map_add_def split: option.splits if_splits)
  moreover have "map_of (es_parameters (finish_step n s)) k = Some v"
    if "k \<notin> set ROUTER_CONTROL_PARAMETER_KEYS" "map_of (ca_parameters a) k = Some v" for k v
  proof -
    have "map_of (router_fields a (xp_id plan) u n g) k = None"
      using router_fields_control that(1) by blast
    then show ?thesis using bound_exact(1) [OF c that(2)] that(1) by (simp add: params map_add_def)
  qed
  moreover have "map_of (es_parameters (finish_step n s)) k = None"
    if "n \<noteq> ''direct''" "k \<in> set ROUTER_CONTROL_PARAMETER_KEYS" for k
    using that by (simp add: params)
  ultimately show ?thesis using s(1-4) unfolding exact_step_def
    by (simp add: finish_step_def strip_step_def)
qed

lemma bind_all_single: "bind_all f [x] = Inr ys \<longleftrightarrow> (\<exists>y. f x = Inr y \<and> ys = [y])"
  by (auto split: sum.splits)

lemma bind_all_list: "bind_all f xs = Inr ys \<Longrightarrow> list_all2 (\<lambda>x y. f x = Inr y) xs ys"
  by (induction xs arbitrary: ys) (auto split: sum.splits)

lemma bind_plan_iff:
  "bindTrustedPlanContext coll plan a u n g ch = Inr q \<longleftrightarrow> plan_refusal coll plan a = None \<and>
     (\<exists>ss rs. bind_all (bind_step coll plan a u n g k_step) (xp_steps plan) = Inr ss \<and>
        bind_all (bind_step coll plan a u n g k_rollback) (xp_rollbackSteps plan) = Inr rs \<and>
        q = (if n = ''direct'' then trusted_plan plan a u ch ss rs
             else strip_plan (trusted_plan plan a u ch ss rs)))"
  unfolding bindTrustedPlanContext_def by (auto split: option.splits sum.splits)

lemma plan_refusal_None:
  "plan_refusal coll plan a = None \<Longrightarrow> length (xp_steps plan) = 1 \<and> xp_decisionId plan = ca_decisionId a \<and>
     length (xp_rollbackSteps plan) \<le> 1 \<and> (\<not> ca_reversible a \<longrightarrow> xp_rollbackSteps plan = [])"
  unfolding plan_refusal_def by (auto split: if_splits)

lemma bind_plan_exact:
  assumes "bindTrustedPlanContext coll plan a u n g ch = Inr q"
  shows "exact_plan a u n g q" "xp_id q = xp_id plan"
proof -
  obtain ss rs where bound:
    "bind_all (bind_step coll plan a u n g k_step) (xp_steps plan) = Inr ss"
    "bind_all (bind_step coll plan a u n g k_rollback) (xp_rollbackSteps plan) = Inr rs"
    and q: "q = (if n = ''direct'' then trusted_plan plan a u ch ss rs
      else strip_plan (trusted_plan plan a u ch ss rs))"
    and "plan_refusal coll plan a = None"
    using assms unfolding bind_plan_iff by blast
  note parts = plan_refusal_None [OF this(4)]
  have steps: "xp_steps q = map (finish_step n) ss" "xp_rollbackSteps q = map (finish_step n) rs"
    and same: "xp_id q = xp_id plan" "xp_decisionId q = ca_decisionId a"
      "xp_executionOwnerId q = Some u" "ca_actionType (xp_action q) = ca_actionType a"
    using parts by (auto simp: q strip_plan_def trusted_plan_def finish_step_def [abs_def] map_idI)
  show "xp_id q = xp_id plan" by (rule same(1))
  obtain x where x: "xp_steps plan = [x]" using parts by (cases "xp_steps plan") auto
  obtain y where y: "bind_step coll plan a u n g k_step x = Inr y" "ss = [y]"
    using bound(1) unfolding x bind_all_single by blast
  have rb: "list_all2 (\<lambda>x y. bind_step coll plan a u n g k_rollback x = Inr y) (xp_rollbackSteps plan) rs"
    by (rule bind_all_list [OF bound(2)])
  then have "list_all (exact_step a (xp_id plan) u n g k_rollback) (map (finish_step n) rs)"
    by (induction rule: list_all2_induct) (simp_all add: bind_step_exact)
  moreover have "length rs \<le> 1" "\<not> ca_reversible a \<longrightarrow> rs = []"
    using parts list_all2_lengthD [OF rb] by auto
  ultimately show "exact_plan a u n g q"
    unfolding exact_plan_def same steps y(2) using bind_step_exact [OF y(1)] by simp
qed

text \<open>A plan that binds without a lease binds with one: the lease is never wasted.\<close>

lemma bind_step_grant:
  "(\<exists>s. bind_step coll plan a u n g kind st = Inr s) \<longleftrightarrow> (\<exists>s. bind_step coll plan a u n g' kind st = Inr s)"
  by (auto simp: bind_step_def split: sum.splits)

lemma bind_all_Inr: "(\<exists>ys. bind_all f xs = Inr ys) \<longleftrightarrow> list_all (\<lambda>x. \<exists>y. f x = Inr y) xs"
  by (induction xs) (auto split: sum.splits)

lemma bind_plan_grant:
  assumes "bindTrustedPlanContext coll plan a u n g ch = Inr q"
  shows "\<exists>q'. bindTrustedPlanContext coll plan a u n g' ch = Inr q'"
proof -
  have eq: "(\<exists>ys. bind_all (bind_step coll plan a u n g' kind) xs = Inr ys) \<longleftrightarrow>
      (\<exists>ys. bind_all (bind_step coll plan a u n g kind) xs = Inr ys)" for kind xs
    unfolding bind_all_Inr by (simp only: bind_step_grant [of coll plan a u n g' kind _ g])
  obtain ss rs where *: "plan_refusal coll plan a = None"
    "bind_all (bind_step coll plan a u n g k_step) (xp_steps plan) = Inr ss"
    "bind_all (bind_step coll plan a u n g k_rollback) (xp_rollbackSteps plan) = Inr rs"
    using assms unfolding bind_plan_iff by blast
  obtain ss' where "bind_all (bind_step coll plan a u n g' k_step) (xp_steps plan) = Inr ss'"
    using iffD2 [OF eq] *(2) by blast
  moreover obtain rs' where
    "bind_all (bind_step coll plan a u n g' k_rollback) (xp_rollbackSteps plan) = Inr rs'"
    using iffD2 [OF eq] *(3) by blast
  ultimately show ?thesis using *(1) unfolding bind_plan_iff by blast
qed

section \<open>Calls of the router\<close>

datatype router_call =
    Prepare ports candidate_action risk_assessment string execution_context bool
  | Execute ports prepared_execution candidate_action risk_assessment string execution_context
  | Stream ports prepared_execution candidate_action risk_assessment string execution_context

fun call_effects :: "router_call \<Rightarrow> router \<Rightarrow> router_effect list" where
  "call_effects (Prepare p a r u ctx streaming) rt = snd (snd (prepareExecution p a r u ctx streaming rt))"
| "call_effects (Execute p pe a r u ctx) rt = snd (snd (executePrepared p pe a r u ctx rt))"
| "call_effects (Stream p pe a r u ctx) rt = snd (snd (executePreparedStreaming p pe a r u ctx rt))"

fun call_state :: "router_call \<Rightarrow> router \<Rightarrow> router" where
  "call_state (Prepare p a r u ctx streaming) rt = fst (snd (prepareExecution p a r u ctx streaming rt))"
| "call_state (Execute p pe a r u ctx) rt = fst (snd (executePrepared p pe a r u ctx rt))"
| "call_state (Stream p pe a r u ctx) rt = fst (snd (executePreparedStreaming p pe a r u ctx rt))"

text \<open>The error a call ends with, and the ports, handle and arguments of a dispatching call.\<close>

fun call_error :: "router_call \<Rightarrow> router \<Rightarrow> router_error option" where
  "call_error (Prepare p a r u ctx streaming) rt =
     (case fst (prepareExecution p a r u ctx streaming rt) of Inl e \<Rightarrow> Some e | Inr _ \<Rightarrow> None)"
| "call_error (Execute p pe a r u ctx) rt =
     (case fst (executePrepared p pe a r u ctx rt) of Inl e \<Rightarrow> Some e | Inr _ \<Rightarrow> None)"
| "call_error (Stream p pe a r u ctx) rt =
     (case fst (executePreparedStreaming p pe a r u ctx rt) of Inl e \<Rightarrow> Some e | Inr _ \<Rightarrow> None)"

fun call_ports :: "router_call \<Rightarrow> ports" where
  "call_ports (Prepare p a r u ctx streaming) = p"
| "call_ports (Execute p pe a r u ctx) = p"
| "call_ports (Stream p pe a r u ctx) = p"

fun call_action :: "router_call \<Rightarrow> candidate_action" where
  "call_action (Prepare p a r u ctx streaming) = a"
| "call_action (Execute p pe a r u ctx) = a"
| "call_action (Stream p pe a r u ctx) = a"

fun call_user :: "router_call \<Rightarrow> string" where
  "call_user (Prepare p a r u ctx streaming) = u"
| "call_user (Execute p pe a r u ctx) = u"
| "call_user (Stream p pe a r u ctx) = u"

fun call_context :: "router_call \<Rightarrow> execution_context" where
  "call_context (Prepare p a r u ctx streaming) = ctx"
| "call_context (Execute p pe a r u ctx) = ctx"
| "call_context (Stream p pe a r u ctx) = ctx"

fun call_risk :: "router_call \<Rightarrow> risk_assessment" where
  "call_risk (Prepare p a r u ctx streaming) = r"
| "call_risk (Execute p pe a r u ctx) = r"
| "call_risk (Stream p pe a r u ctx) = r"

text \<open>Effects by kind.\<close>

fun is_execute :: "router_effect \<Rightarrow> bool" where
  "is_execute (Eff_execute h n plan) = True"
| "is_execute _ = False"

fun is_start :: "router_effect \<Rightarrow> bool" where
  "is_start (Eff_start h inp) = True"
| "is_start _ = False"

fun is_yield :: "router_effect \<Rightarrow> bool" where
  "is_yield (Eff_yield h ev) = True"
| "is_yield _ = False"

fun prepares_only :: "router_effect \<Rightarrow> bool" where
  "prepares_only (Eff_build n a) = True"
| "prepares_only (Eff_prepareRequestStart n plan) = True"
| "prepares_only _ = False"

fun settles :: "nat \<Rightarrow> router_effect \<Rightarrow> bool" where
  "settles h (Eff_terminalize h' t) = (h' = h)"
| "settles h (Eff_yield h' ev) = (h' = h)"
| "settles h _ = False"

section \<open>Dispatching\<close>

lemma start_prepared_Inr:
  assumes "start_prepared p h st a r u ctx = (Inr (plan, grant), es)"
  obtains inp where "es = [Eff_start h inp]" "po_start p inp = st_granted grant"
    "bindTrustedPlanContext (po_collate p) (ps_builtPlan st) (bindTrustedDispatchAction a u) u
       (ps_adapterName st) (Some grant) (ps_executionChannel st) = Inr plan"
    "ai_executionPlanId inp = xp_id (ps_builtPlan st)" "ai_adapterName inp = ps_adapterName st"
    "ai_userId inp = u" "ai_actionId inp = ca_id a" "ai_expectedRiskSnapshot inp = r"
proof -
  let ?da = "bindTrustedDispatchAction a u"
  obtain q where q: "bindTrustedPlanContext (po_collate p) (ps_builtPlan st) ?da u (ps_adapterName st)
      None (ps_executionChannel st) = Inr q"
    and sd: "startDispatch p h ?da q u (ps_adapterName st) r (ps_executionChannel st)
      (ec_ironclawChannel ctx) (ps_preparation st) = (Inr grant, es)"
    and plan: "bindTrustedPlanContext (po_collate p) (ps_builtPlan st) ?da u (ps_adapterName st)
      (Some grant) (ps_executionChannel st) = Inr plan"
    using assms by (auto simp: start_prepared_def Let_def split: sum.splits prod.splits)
  obtain inp where inp: "authorityInput ?da q u (ps_adapterName st) r (ps_executionChannel st)
      (ec_ironclawChannel ctx) (ps_preparation st) = Inr inp"
    and granted: "po_start p inp = st_granted grant" "es = [Eff_start h inp]"
    using sd by (auto simp: startDispatch_def split: sum.splits start_result.splits)
  have "ai_executionPlanId inp = xp_id q" "ai_adapterName inp = ps_adapterName st"
    "ai_userId inp = u" "ai_actionId inp = ca_id a" "ai_expectedRiskSnapshot inp = r"
    using inp by (auto simp: authorityInput_def Let_def bindTrustedDispatchAction_def
        split: jsval.splits if_splits)
  then show ?thesis using that granted plan bind_plan_exact(2) [OF q] by metis
qed

lemma start_prepared_Inl:
  assumes "start_prepared p h st a r u ctx = (Inl e, es)"
  shows "es = [] \<or> (\<exists>inp. es = [Eff_start h inp] \<and>
      (no_request_error e \<longrightarrow> (\<exists>why. po_start p inp = st_authority_revoked why)))"
proof -
  let ?da = "bindTrustedDispatchAction a u"
  show ?thesis
  proof (cases "bindTrustedPlanContext (po_collate p) (ps_builtPlan st) ?da u (ps_adapterName st)
      None (ps_executionChannel st)")
    case (Inl e')
    then show ?thesis using assms by (simp add: start_prepared_def Let_def)
  next
    case (Inr q)
    have late: "\<exists>q'. bindTrustedPlanContext (po_collate p) (ps_builtPlan st) ?da u (ps_adapterName st)
        g (ps_executionChannel st) = Inr q'" for g by (rule bind_plan_grant [OF Inr])
    then have "startDispatch p h ?da q u (ps_adapterName st) r (ps_executionChannel st)
        (ec_ironclawChannel ctx) (ps_preparation st) = (Inl e, es)"
      using assms Inr late
      by (auto simp: start_prepared_def Let_def split: sum.splits prod.splits) (metis sum.distinct(1))
    then show ?thesis
      by (auto simp: startDispatch_def split: sum.splits start_result.splits)
  qed
qed

lemma run_adapter_effects:
  assumes "run_adapter p h st plan grant u = (res, es)"
  shows "list_all (settles h) es" "\<not> list_ex is_yield es" "res = Inl e \<Longrightarrow> \<not> no_request_error e"
  using assms
  by (auto simp: run_adapter_def ambiguous_end_def split: option.splits if_splits bool.splits)

lemma release_effects:
  assumes "release p h u planId grant t evs = (res, es)"
  shows "list_all (settles h) es" "res = Inl e \<Longrightarrow> \<not> no_request_error e"
    "list_ex is_yield es \<Longrightarrow> res = Inr ()"
    "res = Inr () \<Longrightarrow> es = Eff_terminalize h t # map (Eff_yield h) evs \<and>
       po_terminalize p u planId grant t = Some True"
  using assms
  by (auto simp: release_def ambiguous_end_def list_all_iff split: option.splits bool.splits)

lemma stream_adapter_effects:
  assumes "stream_adapter p h st plan grant u = (res, es)"
  shows "list_all (settles h) es \<and> (res = Inl e \<longrightarrow> \<not> no_request_error e) \<and>
    (list_ex is_yield es \<longrightarrow> res = Inr ())"
proof -
  consider (amb) why where "ambiguous_end h why = (res, es)"
    | (rel) t evs where "release p h u (xp_id plan) grant t evs = (res, es)"
    using assms by (auto simp: stream_adapter_def Let_def split: option.splits if_splits)
  then show ?thesis
  proof cases
    case amb
    then show ?thesis by (auto simp: ambiguous_end_def)
  next
    case rel
    then show ?thesis using release_effects by metis
  qed
qed

definition dispatching ::
  "router_call \<Rightarrow> ports \<Rightarrow> prepared_execution \<Rightarrow> candidate_action \<Rightarrow> risk_assessment \<Rightarrow> string
   \<Rightarrow> execution_context \<Rightarrow> bool \<Rightarrow> bool" where
  "dispatching c p pe a r u ctx streaming \<longleftrightarrow>
     (c = Execute p pe a r u ctx \<and> \<not> streaming) \<or> (c = Stream p pe a r u ctx \<and> streaming)"

lemma dispatching_call:
  assumes "dispatching c p pe a r u ctx streaming"
  shows "call_ports c = p" "call_action c = a" "call_user c = u" "call_context c = ctx" "call_risk c = r"
  using assms by (auto simp: dispatching_def)

lemma dispatch_cases:
  assumes "dispatching c p pe a r u ctx streaming"
  obtains (refused) e rt' where
    "consumePreparedExecution p pe a r u streaming ctx rt = (Inl e, rt')"
    "call_effects c rt = []" "call_error c rt = Some e" "call_state c rt = rt'"
  | (unstarted) st rt' e es where
    "consumePreparedExecution p pe a r u streaming ctx rt = (Inr st, rt')"
    "start_prepared p (pe_handle pe) st a r u ctx = (Inl e, es)"
    "call_effects c rt = es" "call_error c rt = Some e" "call_state c rt = rt'"
  | (started) st rt' plan grant es es' where
    "consumePreparedExecution p pe a r u streaming ctx rt = (Inr st, rt')"
    "start_prepared p (pe_handle pe) st a r u ctx = (Inr (plan, grant), es)"
    "call_effects c rt = es @ Eff_execute (pe_handle pe) (ps_adapterName st) plan # es'"
    "list_all (settles (pe_handle pe)) es'" "call_state c rt = rt'"
    "\<forall>e. call_error c rt = Some e \<longrightarrow> \<not> no_request_error e"
proof -
  obtain x rt' where con: "consumePreparedExecution p pe a r u streaming ctx rt = (x, rt')"
    by fastforce
  show thesis
  proof (cases x)
    case (Inl e)
    then show ?thesis using con assms
      by (intro refused [of e rt']) (auto simp: dispatching_def executePrepared_def executePreparedStreaming_def)
  next
    case (Inr st)
    obtain y es where sp: "start_prepared p (pe_handle pe) st a r u ctx = (y, es)" by fastforce
    show ?thesis
    proof (cases y)
      case (Inl e)
      then show ?thesis using con sp Inr assms
        by (intro unstarted [of st rt' e es])
          (auto simp: dispatching_def executePrepared_def executePreparedStreaming_def)
    next
      case (Inr pg)
      obtain plan grant where pg: "y = Inr (plan, grant)" using Inr by (cases pg) auto
      note eqs = con [unfolded \<open>x = Inr st\<close>] sp [unfolded pg]
      show ?thesis
      proof (cases streaming)
        case True
        obtain res es' where "stream_adapter p (pe_handle pe) st plan grant u = (res, es')" by fastforce
        then show ?thesis using eqs True assms stream_adapter_effects
          by (intro started [OF eqs(1,2), of es'])
            (auto simp: dispatching_def executePreparedStreaming_def split: sum.splits)
      next
        case False
        obtain res es' where "run_adapter p (pe_handle pe) st plan grant u = (res, es')" by fastforce
        then show ?thesis using eqs False assms run_adapter_effects
          by (intro started [OF eqs(1,2), of es'])
            (auto simp: dispatching_def executePrepared_def split: sum.splits)
      qed
    qed
  qed
qed

lemma start_effects:
  "start_prepared p h st a r u ctx = (x, es) \<Longrightarrow> es = [] \<or> (\<exists>inp. es = [Eff_start h inp])"
  by (cases x) (auto dest: start_prepared_Inl elim!: start_prepared_Inr)

lemma prepare_chain_effects:
  "list_all prepares_only (snd (snd (prepare_chain p a r u ctx streaming names i att ns rt)))"
proof (induction p a r u ctx streaming names i att ns rt rule: prepare_chain.induct)
  case (2 p a r u ctx streaming names i att n rest rt)
  have one: "list_all prepares_only (snd (attempt_adapter p a u ctx streaming i n))"
    by (auto simp: attempt_adapter_def Let_def split: option.splits sum.splits)
  obtain x es where x: "attempt_adapter p a u ctx streaming i n = (x, es)" by fastforce
  show ?case
  proof (cases x)
    case Skip
    then show ?thesis using 2 [OF x [symmetric] Skip] one x by (simp add: case_prod_unfold)
  qed (use x one in \<open>simp_all add: case_prod_unfold\<close>)
qed simp

lemma prepare_effects: "list_all prepares_only (call_effects (Prepare p a r u ctx streaming) rt)"
  by (auto simp: prepareExecution_def Let_def prepare_chain_effects split: option.splits sum.splits)

lemma prepare_no_dispatch:
  "Eff_execute h n plan \<notin> set (call_effects (Prepare p a r u ctx streaming) rt)"
  "Eff_start h inp \<notin> set (call_effects (Prepare p a r u ctx streaming) rt)"
  "Eff_yield h ev \<notin> set (call_effects (Prepare p a r u ctx streaming) rt)"
  using prepare_effects [of p a r u ctx streaming rt] by (force simp: list_all_iff)+

lemma settles_not: "list_all (settles h) es \<Longrightarrow> Eff_execute h' n plan \<notin> set es \<and> Eff_start h' inp \<notin> set es"
  by (force simp: list_all_iff)

lemma call_kinds:
  obtains (prep) p a r u ctx streaming where "c = Prepare p a r u ctx streaming"
  | (disp) p pe a r u ctx streaming where "dispatching c p pe a r u ctx streaming"
  unfolding dispatching_def by (cases c) blast+

text \<open>A call that executes an adapter is a started dispatch.\<close>

lemma execute_started:
  assumes "Eff_execute h n plan \<in> set (call_effects c rt)"
  obtains p pe a r u ctx streaming st rt' grant es es' where
    "dispatching c p pe a r u ctx streaming" "h = pe_handle pe" "n = ps_adapterName st"
    "consumePreparedExecution p pe a r u streaming ctx rt = (Inr st, rt')"
    "start_prepared p h st a r u ctx = (Inr (plan, grant), es)"
    "call_effects c rt = es @ Eff_execute h n plan # es'" "list_all (settles h) es'"
    "\<forall>e. call_error c rt = Some e \<longrightarrow> \<not> no_request_error e"
proof (cases c rule: call_kinds)
  case (prep p a r u ctx streaming)
  then show ?thesis using assms prepare_no_dispatch by blast
next
  case (disp p pe a r u ctx streaming)
  show ?thesis using disp
  proof (cases rule: dispatch_cases [where rt = rt])
    case (refused e rt')
    then show ?thesis using assms by simp
  next
    case (unstarted st rt' e es)
    then show ?thesis using assms start_effects [OF unstarted(2)] by auto
  next
    case (started st rt' plan' grant es es')
    have "h = pe_handle pe \<and> n = ps_adapterName st \<and> plan = plan'"
      using assms start_effects [OF started(2)] settles_not [OF started(4)] started(3) by auto
    then show ?thesis using that disp started by blast
  qed
qed

end
