(* ===== verification/RouterProperties.thy ===== *)
theory RouterProperties
  imports RouterTheorems
begin

text \<open>
  The properties of the execution router over arbitrary calls, adapters and services: the
  contents of an executed plan, the backstop against unapproved actions, the fence of the
  dispatch authority, the error classes, the one use of a handle, preparation, streaming and
  rollback.
\<close>

section \<open>Executed plans\<close>

definition CREDENTIAL_KEYS :: "string list" where
  "CREDENTIAL_KEYS = [''accessToken'', ''access_token'', ''refreshToken'', ''refresh_token'', ''authorization'']"

definition ECHO_KEYS :: "string list" where
  "ECHO_KEYS = [''actionType'', ''domain'', ''estimatedCostCents'', ''adapter_used'',
     ''originalActionType'', ''_isRollback'', ''_mcpToolName'', ''_mcpServerId'']"

lemma allowed_extra_echo: "k \<notin> set ECHO_KEYS \<Longrightarrow> allowed_extra a n kind k = None"
  by (simp add: ECHO_KEYS_def allowed_extra_def)

lemma credential_keys:
  "list_all (\<lambda>k. k \<in> set DISPATCH_STRIPPED_KEYS \<and> k \<noteq> ''userId'' \<and>
     k \<notin> set ROUTER_CONTROL_PARAMETER_KEYS \<and> k \<notin> set ECHO_KEYS) CREDENTIAL_KEYS"
  by code_simp

lemma credential_free:
  assumes "exact_step (bindTrustedDispatchAction a u) planId u n g kind s" and "k \<in> set CREDENTIAL_KEYS"
  shows "map_of (es_parameters s) k = None"
proof -
  have k: "k \<in> set DISPATCH_STRIPPED_KEYS" "k \<noteq> ''userId''" "k \<notin> set ROUTER_CONTROL_PARAMETER_KEYS"
    "k \<notin> set ECHO_KEYS"
    using credential_keys assms(2) by (simp_all add: list_all_iff)
  have "map_of (ca_parameters (bindTrustedDispatchAction a u)) k = None"
    using k(1,2) by (simp add: bindTrustedDispatchAction_def map_of_without_keys)
  then show ?thesis
    using assms(1) k(3) allowed_extra_echo [OF k(4)]
      router_fields_control [of "bindTrustedDispatchAction a u" planId u n g k]
    unfolding exact_step_def by (metis not_Some_eq)
qed

text \<open>
  C4: whatever an adapter builds, the plan it is made to execute is the admitted action: one step
  of the action's type and description, whose parameters were admitted with the action, echo it,
  or were written by the router; at most one rollback step, and none for an irreversible action;
  the owner is the calling user, no parameter is a credential, and only the direct adapter sees
  the router's control parameters.
\<close>

theorem executed_plan_exact:
  assumes "Eff_execute h n plan \<in> set (call_effects c rt)"
  shows "(\<exists>g. exact_plan (bindTrustedDispatchAction (call_action c) (call_user c)) (call_user c) n g plan) \<and>
    list_all (\<lambda>s. list_all (\<lambda>k. map_of (es_parameters s) k = None) CREDENTIAL_KEYS)
      (xp_steps plan @ xp_rollbackSteps plan)"
proof -
  obtain p pe a r u ctx streaming st rt' grant es es' where
    d: "dispatching c p pe a r u ctx streaming" "n = ps_adapterName st"
    and sp: "start_prepared p h st a r u ctx = (Inr (plan, grant), es)"
    by (rule execute_started [OF assms])
  obtain inp where b: "bindTrustedPlanContext (po_collate p) (ps_builtPlan st)
      (bindTrustedDispatchAction a u) u (ps_adapterName st) (Some grant) (ps_executionChannel st) = Inr plan"
    by (rule start_prepared_Inr [OF sp])
  have exact: "exact_plan (bindTrustedDispatchAction a u) u n (Some grant) plan"
    using bind_plan_exact(1) [OF b] d(2) by simp
  then obtain s where "xp_steps plan = [s]"
    "exact_step (bindTrustedDispatchAction a u) (xp_id plan) u n (Some grant) k_step s"
    "list_all (exact_step (bindTrustedDispatchAction a u) (xp_id plan) u n (Some grant) k_rollback)
      (xp_rollbackSteps plan)"
    unfolding exact_plan_def by blast
  then have "list_all (\<lambda>s. list_all (\<lambda>k. map_of (es_parameters s) k = None) CREDENTIAL_KEYS)
      (xp_steps plan @ xp_rollbackSteps plan)"
    using credential_free by (simp add: list_all_iff) blast
  then show ?thesis using exact dispatching_call [OF d(1)] by blast
qed

lemma consumed:
  assumes "consumePreparedExecution p pe a r u streaming ctx rt = (Inr st, rt')"
  shows "map_of (rt_prepared rt) (pe_handle pe) = Some st" "rt' = drop_handle (pe_handle pe) rt"
    "same_prepared p st pe a r u streaming ctx" "assertValidExecutionInputs a r = None"
    "assertExecutionPermitted a ctx = None" "po_admit p 0 a u (Some (ps_adapterName st)) = adm_allowed"
  using assms
  by (auto simp: consumePreparedExecution_def assertAdmitted_def Let_def
      split: option.splits if_splits admission.splits)

lemma permitted_iff:
  "assertExecutionPermitted a ctx = None \<longleftrightarrow> ca_actionType a \<noteq> ''archive_email'' \<and>
     (gv_escalate (guard_of a) \<longrightarrow> ec_approved ctx)"
  by (auto simp: assertExecutionPermitted_def assertGenericExecutionActionAllowed_def
      classifyGmailArchiveGenericAction_def action_value_def)

text \<open>
  C3: the backstop: no call makes an adapter execute an archive action, an action whose assessment
  belongs to another action, or, without a human approval, an action that the injection guard
  escalates; and at that moment the admission guard allows this adapter.
\<close>

theorem execution_backstop:
  assumes "Eff_execute h n plan \<in> set (call_effects c rt)"
  shows "ca_actionType (call_action c) \<noteq> ''archive_email'' \<and>
    (gv_escalate (guard_of (call_action c)) \<longrightarrow> ec_approved (call_context c)) \<and>
    po_admit (call_ports c) 0 (call_action c) (call_user c) (Some n) = adm_allowed"
proof -
  obtain p pe a r u ctx streaming st rt' grant es es' where
    d: "dispatching c p pe a r u ctx streaming" "n = ps_adapterName st"
    and con: "consumePreparedExecution p pe a r u streaming ctx rt = (Inr st, rt')"
    by (rule execute_started [OF assms])
  show ?thesis
    using consumed(5,6) [OF con] d(2) unfolding permitted_iff dispatching_call [OF d(1)] by simp
qed

section \<open>The fence of the dispatch authority\<close>

text \<open>
  C22: an adapter is called only right after the dispatch authority granted a lease for exactly
  this user, action, plan, adapter and risk; and after the call the only effects are on that
  handle: a terminal state for the dispatch and the events released to the caller.
\<close>

theorem execution_fenced:
  assumes "Eff_execute h n plan \<in> set (call_effects c rt)"
  shows "\<exists>inp g rest. call_effects c rt = Eff_start h inp # Eff_execute h n plan # rest \<and>
    list_all (settles h) rest \<and> po_start (call_ports c) inp = st_granted g \<and>
    ai_executionPlanId inp = xp_id plan \<and> ai_adapterName inp = n \<and>
    ai_userId inp = call_user c \<and> ai_actionId inp = ca_id (call_action c) \<and>
    ai_expectedRiskSnapshot inp = call_risk c"
proof -
  obtain p pe a r u ctx streaming st rt' grant es es' where
    d: "dispatching c p pe a r u ctx streaming" "n = ps_adapterName st"
    and sp: "start_prepared p h st a r u ctx = (Inr (plan, grant), es)"
    and eff: "call_effects c rt = es @ Eff_execute h n plan # es'" "list_all (settles h) es'"
    by (rule execute_started [OF assms])
  obtain inp where i: "es = [Eff_start h inp]" "po_start p inp = st_granted grant"
    "bindTrustedPlanContext (po_collate p) (ps_builtPlan st) (bindTrustedDispatchAction a u) u
       (ps_adapterName st) (Some grant) (ps_executionChannel st) = Inr plan"
    "ai_executionPlanId inp = xp_id (ps_builtPlan st)" "ai_adapterName inp = ps_adapterName st"
    "ai_userId inp = u" "ai_actionId inp = ca_id a" "ai_expectedRiskSnapshot inp = r"
    by (rule start_prepared_Inr [OF sp])
  then show ?thesis
    using eff d(2) bind_plan_exact(2) [OF i(3)] unfolding dispatching_call [OF d(1)] by auto
qed

text \<open>
  C25: a call that ends with one of the errors that prove that no request was made never called an
  adapter, and if it asked the dispatch authority at all, that revoked the authority. So a lease
  that was granted never ends with such an error.
\<close>

theorem no_request_errors_sound:
  assumes "call_error c rt = Some e" and "no_request_error e"
  shows "\<not> list_ex is_execute (call_effects c rt) \<and>
    (\<forall>h inp. Eff_start h inp \<in> set (call_effects c rt) \<longrightarrow>
       (\<exists>why. po_start (call_ports c) inp = st_authority_revoked why))"
proof (cases c rule: call_kinds)
  case (prep p a r u ctx streaming)
  have "list_all prepares_only (call_effects c rt)" unfolding prep by (rule prepare_effects)
  moreover have "\<not> is_execute x" if "prepares_only x" for x using that by (cases x) simp_all
  ultimately have "\<not> list_ex is_execute (call_effects c rt)" by (auto simp: list_all_iff list_ex_iff)
  moreover have "Eff_start h inp \<notin> set (call_effects c rt)" for h inp
    unfolding prep by (rule prepare_no_dispatch)
  ultimately show ?thesis by blast
next
  case (disp p pe a r u ctx streaming)
  show ?thesis using disp
  proof (cases rule: dispatch_cases [where rt = rt])
    case (refused e' rt')
    then show ?thesis by simp
  next
    case (unstarted st rt' e' es)
    then show ?thesis
      using start_prepared_Inl [OF unstarted(2)] assms dispatching_call [OF disp] by auto
  next
    case (started st rt' plan grant es es')
    then show ?thesis using assms by blast
  qed
qed

section \<open>One use\<close>

text \<open>The handles on which the dispatch authority was asked, in order.\<close>

fun started_handles :: "router_effect list \<Rightarrow> nat list" where
  "started_handles [] = []"
| "started_handles (Eff_start h inp # es) = h # started_handles es"
| "started_handles (_ # es) = started_handles es"

lemma started_append [simp]: "started_handles (xs @ ys) = started_handles xs @ started_handles ys"
  by (induction xs rule: started_handles.induct) simp_all

lemma started_none: "(\<And>h inp. Eff_start h inp \<notin> set es) \<Longrightarrow> started_handles es = []"
  by (induction es rule: started_handles.induct) auto

definition router_step :: "router \<times> router_effect list \<Rightarrow> router_call \<Rightarrow> router \<times> router_effect list" where
  "router_step s c = (call_state c (fst s), snd s @ call_effects c (fst s))"

definition router_inv :: "router \<times> router_effect list \<Rightarrow> bool" where
  "router_inv s \<longleftrightarrow> distinct (started_handles (snd s)) \<and>
     (\<forall>h \<in> set (started_handles (snd s)). h < rt_nextHandle (fst s) \<and> h \<notin> fst ` set (rt_prepared (fst s))) \<and>
     (\<forall>h \<in> fst ` set (rt_prepared (fst s)). h < rt_nextHandle (fst s))"

lemma accept_state:
  "accept p a r u ctx streaming i names n rest plan rq entry rv rt = (res, rt') \<Longrightarrow>
   rt' = rt \<or> (\<exists>st. rt' = \<lparr> rt_prepared = (rt_nextHandle rt, st) # rt_prepared rt,
     rt_nextHandle = Suc (rt_nextHandle rt) \<rparr>)"
  by (auto simp: accept_def Let_def split: if_splits)

lemma prepare_chain_state:
  "prepare_chain p a r u ctx streaming names i att ns rt = (res, rt', es) \<Longrightarrow>
   rt' = rt \<or> (\<exists>st. rt' = \<lparr> rt_prepared = (rt_nextHandle rt, st) # rt_prepared rt,
     rt_nextHandle = Suc (rt_nextHandle rt) \<rparr>)"
  by (induction p a r u ctx streaming names i att ns rt arbitrary: res rt' es rule: prepare_chain.induct)
    (auto split: prod.splits attempt.splits dest: accept_state)

lemma prepare_state:
  "call_state (Prepare p a r u ctx streaming) rt = rt \<or>
   (\<exists>st. call_state (Prepare p a r u ctx streaming) rt =
     \<lparr> rt_prepared = (rt_nextHandle rt, st) # rt_prepared rt, rt_nextHandle = Suc (rt_nextHandle rt) \<rparr>)"
proof -
  obtain res rt' es where x: "prepareExecution p a r u ctx streaming rt = (res, rt', es)"
    using prod_cases3 by blast
  have "rt' = rt \<or> (\<exists>ns names. prepare_chain p a r u ctx streaming names 0 [] ns rt = (res, rt', es))"
    using x by (auto simp: prepareExecution_def Let_def split: option.splits sum.splits)
  then have "rt' = rt \<or> (\<exists>st. rt' = \<lparr> rt_prepared = (rt_nextHandle rt, st) # rt_prepared rt,
      rt_nextHandle = Suc (rt_nextHandle rt) \<rparr>)"
    using prepare_chain_state by blast
  then show ?thesis by (simp add: x)
qed

lemma consume_state: "snd (consumePreparedExecution p pe a r u streaming ctx rt) = drop_handle (pe_handle pe) rt"
  by (simp add: consumePreparedExecution_def Let_def)

lemma dispatch_starts:
  assumes "dispatching c p pe a r u ctx streaming"
  shows "call_state c rt = drop_handle (pe_handle pe) rt"
    "started_handles (call_effects c rt) = [] \<or>
      (started_handles (call_effects c rt) = [pe_handle pe] \<and>
       pe_handle pe \<in> fst ` set (rt_prepared rt))"
proof -
  have found: "pe_handle pe \<in> fst ` set (rt_prepared rt)"
    if "consumePreparedExecution p pe a r u streaming ctx rt = (Inr st, rt')" for st rt'
    using consumed(1) [OF that] by (metis domI dom_map_of_conv_image_fst)
  have none: "started_handles es = []" if "list_all (settles h) es" for h es
    using settles_not [OF that] by (intro started_none) blast
  show "call_state c rt = drop_handle (pe_handle pe) rt"
    using assms consume_state
    by (cases rule: dispatch_cases [where rt = rt]) (metis snd_conv)+
  show "started_handles (call_effects c rt) = [] \<or>
      (started_handles (call_effects c rt) = [pe_handle pe] \<and>
       pe_handle pe \<in> fst ` set (rt_prepared rt))"
    using assms
  proof (cases rule: dispatch_cases [where rt = rt])
    case (unstarted st rt' e es)
    then show ?thesis using start_effects [OF unstarted(2)] found by auto
  next
    case (started st rt' plan grant es es')
    then show ?thesis using start_effects [OF started(2)] found none by auto
  qed simp
qed

lemma router_inv_step: "router_inv s \<Longrightarrow> router_inv (router_step s c)"
proof (cases c rule: call_kinds)
  case (prep p a r u ctx streaming)
  assume inv: "router_inv s"
  have none: "started_handles (call_effects c (fst s)) = []"
    unfolding prep by (rule started_none) (rule prepare_no_dispatch)
  consider "call_state c (fst s) = fst s"
    | st where "call_state c (fst s) = \<lparr> rt_prepared = (rt_nextHandle (fst s), st) # rt_prepared (fst s),
        rt_nextHandle = Suc (rt_nextHandle (fst s)) \<rparr>"
    unfolding prep using prepare_state by blast
  then show ?thesis
  proof cases
    case 1
    then show ?thesis using inv by (simp add: router_inv_def router_step_def none)
  next
    case 2
    show ?thesis
      using inv unfolding router_inv_def router_step_def fst_conv snd_conv 2 started_append none
      by (simp add: less_Suc_eq) blast
  qed
next
  case (disp p pe a r u ctx streaming)
  assume inv: "router_inv s"
  have keys: "fst ` set (rt_prepared (drop_handle h rt)) = fst ` set (rt_prepared rt) - {h}"
    "rt_nextHandle (drop_handle h rt) = rt_nextHandle rt" for h rt
    by (auto simp: drop_handle_def)
  show ?thesis
    using inv dispatch_starts(2) [OF disp, of "fst s"]
    unfolding router_inv_def router_step_def dispatch_starts(1) [OF disp] fst_conv snd_conv keys
    by (auto simp: keys)
qed

interpretation router_machine: initialised_machine router_step router_inv "(new_router, [])"
proof unfold_locales
  show "router_inv s \<Longrightarrow> router_inv (router_step s e)" for s e by (rule router_inv_step)
  show "router_inv (new_router, [])" by (simp add: router_inv_def new_router_def)
qed

text \<open>
  C21: a prepared execution is used at most once: in any sequence of calls, with whatever
  arguments, forged or repeated handles included, the dispatch authority is asked at most once
  per handle, and only for handles that an earlier preparation issued. So no plan runs twice.
\<close>

theorem handles_used_once:
  "distinct (started_handles (snd (run router_step (new_router, []) calls))) \<and>
   list_all (\<lambda>h. h < rt_nextHandle (fst (run router_step (new_router, []) calls)))
     (started_handles (snd (run router_step (new_router, []) calls)))"
  using router_machine.reachable_inv [of calls] by (auto simp: router_inv_def list_all_iff)

section \<open>Preparation\<close>

text \<open>An adapter is passed over when it is not registered or a trusted built-in refused safely.\<close>

definition passed_over :: "ports \<Rightarrow> nat \<Rightarrow> string \<Rightarrow> bool" where
  "passed_over p i n \<longleftrightarrow> registry_get (po_registry p (2 * i)) n = None \<or>
     getRevision (po_registry p (2 * i)) n = None \<or> n \<in> set TRUSTED_PRE_REQUEST_ADAPTERS"

lemma attempt_skip: "attempt_adapter p a u ctx streaming i n = (Skip, es) \<Longrightarrow> passed_over p i n"
  by (auto simp: attempt_adapter_def passed_over_def build_failure_def Let_def
      split: option.splits sum.splits build_error.splits if_splits)

lemma accept_Inr:
  assumes "accept p a r u ctx streaming i names n rest plan rq entry rv rt = (Inr pe, rt')"
  shows "pe_adapterName pe = n" "pe_fallbacksAttempted pe = i" "pe_handle pe = rt_nextHandle rt"
    "ra_overallTier r \<le> ra_overallTier (pe_riskAssessment pe)"
  using assms modifier_raises by (auto simp: accept_def Let_def split: if_splits)

lemma prepare_chain_Inr:
  "prepare_chain p a r u ctx streaming names i att ns rt = (Inr pe, rt', es) \<Longrightarrow>
   i \<le> pe_fallbacksAttempted pe \<and> pe_fallbacksAttempted pe < i + length ns \<and>
   ns ! (pe_fallbacksAttempted pe - i) = pe_adapterName pe \<and>
   (\<forall>j < pe_fallbacksAttempted pe - i. passed_over p (i + j) (ns ! j)) \<and>
   pe_handle pe = rt_nextHandle rt \<and> ra_overallTier r \<le> ra_overallTier (pe_riskAssessment pe)"
proof (induction p a r u ctx streaming names i att ns rt arbitrary: es rule: prepare_chain.induct)
  case (2 p a r u ctx streaming names i att n rest rt)
  obtain x es1 where x: "attempt_adapter p a u ctx streaming i n = (x, es1)" by fastforce
  show ?case
  proof (cases x)
    case Skip
    then obtain es2 where "prepare_chain p a r u ctx streaming names (Suc i) (att @ [n]) rest rt = (Inr pe, rt', es2)"
      using "2.prems" x by (auto split: prod.splits)
    note IH = "2.IH" [OF x [symmetric] Skip this]
    have "passed_over p i n" using attempt_skip x Skip by blast
    then have "passed_over p (i + j) ((n # rest) ! j)" if "j < pe_fallbacksAttempted pe - i" for j
      using IH that by (cases j) (auto simp: add.commute)
    moreover have "(n # rest) ! (pe_fallbacksAttempted pe - i) = pe_adapterName pe"
      using IH by (auto simp: nth_Cons' Suc_diff_Suc)
    ultimately show ?thesis using IH by auto
  next
    case (Ready plan rq entry rv)
    then have "accept p a r u ctx streaming i names n rest plan rq entry rv rt = (Inr pe, rt')"
      using "2.prems" x by (auto split: prod.splits)
    then show ?thesis using accept_Inr by fastforce
  qed (use "2.prems" x in simp)
qed simp

text \<open>
  a preparation that succeeds took the first adapter, in the order of trust over the adapters
  that can handle the action, that was not passed over; only built-in adapters can be passed over
  for refusing. An action that names an MCP server is only ever given to the MCP host. The handle
  is fresh and the assessment to be admitted is no lower than the one the caller gave.
\<close>

theorem preparation_choice:
  assumes "prepareExecution p a r u ctx streaming rt = (Inr pe, rt', es)"
  shows "let rg = po_registry p 0;
      chain = sortByTrust rg (capable_names rg (requiresExactMcpRouting a = Inr True) (ca_actionType a)) in
    pe_fallbacksAttempted pe < length chain \<and> chain ! pe_fallbacksAttempted pe = pe_adapterName pe \<and>
    (\<forall>i < pe_fallbacksAttempted pe. passed_over p i (chain ! i)) \<and>
    canHandle rg (pe_adapterName pe) (ca_actionType a) \<and>
    (has_own (ca_parameters a) ''mcpServerId'' \<longrightarrow> pe_adapterName pe = ''mcp-host'') \<and>
    pe_handle pe = rt_nextHandle rt \<and> ra_overallTier r \<le> ra_overallTier (pe_riskAssessment pe)"
proof -
  define rg where "rg = po_registry p 0"
  obtain exact where exact: "requiresExactMcpRouting a = Inr exact"
    and chain: "prepare_chain p a r u ctx streaming (capable_names rg exact (ca_actionType a)) 0 []
      (sortByTrust rg (capable_names rg exact (ca_actionType a))) rt = (Inr pe, rt', es)"
    using assms by (auto simp: prepareExecution_def Let_def rg_def split: option.splits sum.splits)
  let ?names = "capable_names rg exact (ca_actionType a)"
  note res = prepare_chain_Inr [OF chain]
  have "pe_adapterName pe \<in> set (sortByTrust rg ?names)" using res by (metis diff_zero add_0 nth_mem)
  then have mem: "pe_adapterName pe \<in> set ?names" by (simp add: sortByTrust_def)
  then have "canHandle rg (pe_adapterName pe) (ca_actionType a)"
    by (auto simp: capable_names_def getCapableAdapters_def split: if_splits)
  moreover have "pe_adapterName pe = ''mcp-host''" if "has_own (ca_parameters a) ''mcpServerId''"
  proof -
    have "exact" using exact that by (auto simp: requiresExactMcpRouting_def Let_def split: if_splits)
    then show ?thesis using mem by (auto simp: capable_names_def split: if_splits)
  qed
  ultimately show ?thesis using res exact by (simp add: Let_def flip: rg_def)
qed

section \<open>Streaming\<close>

definition stream_inv :: "execution_plan \<Rightarrow> stream_state \<Rightarrow> bool" where
  "stream_inv plan ss \<longleftrightarrow> length (ss_bufferedEvents ss) \<le> MAX_BUFFERED_STREAM_EVENTS \<and>
     (\<forall>ev \<in> set (ss_bufferedEvents ss). \<not> is_terminal ev \<and> ee_planId ev = xp_id plan) \<and>
     (\<forall>ev. ss_terminalEvent ss = Some ev \<longrightarrow> is_terminal ev \<and> ee_planId ev = xp_id plan)"

lemma routed_event_keeps [simp]:
  "ee_planId (routed_event st plan s ev) = ee_planId ev"
  "is_terminal (routed_event st plan s ev) = is_terminal ev"
  by (simp_all add: routed_event_def is_terminal_def)

lemma stream_step_inv: "stream_step st plan ev ss = Some ss' \<Longrightarrow> stream_inv plan ss \<Longrightarrow> stream_inv plan ss'"
  by (auto simp: stream_step_def stream_inv_def Let_def split: option.splits if_splits)

lemma stream_loop_inv: "stream_loop st plan evs ss = Some ss' \<Longrightarrow> stream_inv plan ss \<Longrightarrow> stream_inv plan ss'"
  by (induction st plan evs ss rule: stream_loop.induct) (auto split: option.splits dest: stream_step_inv)

definition released :: "execution_plan \<Rightarrow> terminal_state \<Rightarrow> execution_event list \<Rightarrow> bool" where
  "released plan t evs \<longleftrightarrow> evs \<noteq> [] \<and> length evs \<le> Suc MAX_BUFFERED_STREAM_EVENTS \<and>
     list_all (\<lambda>ev. ee_planId ev = xp_id plan) evs \<and>
     list_all (\<lambda>ev. \<not> is_terminal ev) (butlast evs) \<and> is_terminal (last evs) \<and>
     t = (if ee_eventType (last evs) = plan_completed then ts_completed else ts_failed)"

lemma stream_adapter_yields:
  assumes "stream_adapter p h st plan grant u = (res, es)" "list_ex is_yield es"
  shows "\<exists>t evs. es = Eff_terminalize h t # map (Eff_yield h) evs \<and> res = Inr () \<and>
    po_terminalize p u (xp_id plan) grant t = Some True \<and> released plan t evs"
proof -
  have amb: "\<not> list_ex is_yield es" if "ambiguous_end h why = (res, es)" for why
    using that by (auto simp: ambiguous_end_def)
  have "\<exists>t evs. release p h u (xp_id plan) grant t evs = (res, es) \<and> released plan t evs"
  proof (cases "ad_executeStreaming (ps_adapter st)")
    case None
    then obtain result where "\<not> unbound plan result"
      "release p h u (xp_id plan) grant (terminal_of (xr_status result)) [single_event st plan result] = (res, es)"
      using assms amb by (auto simp: stream_adapter_def split: option.splits if_splits)
    moreover then have "released plan (terminal_of (xr_status result)) [single_event st plan result]"
      by (auto simp: released_def single_event_def is_terminal_def terminal_of_def unbound_def)
    ultimately show ?thesis by blast
  next
    case (Some stream)
    define evs where "evs = sm_events (stream plan (ps_preparation st))"
    obtain ss ev where ss: "stream_loop st plan evs stream_start = Some ss" "ss_terminalEvent ss = Some ev"
      and rel: "release p h u (xp_id plan) grant
        (if ee_eventType ev = plan_completed then ts_completed else ts_failed)
        (ss_bufferedEvents ss @ [ev]) = (res, es)"
      using assms amb Some by (auto simp: stream_adapter_def Let_def evs_def split: option.splits if_splits)
    have "stream_inv plan stream_start" by (simp add: stream_inv_def stream_start_def)
    then have "stream_inv plan ss" by (rule stream_loop_inv [OF ss(1)])
    then have "released plan (if ee_eventType ev = plan_completed then ts_completed else ts_failed)
        (ss_bufferedEvents ss @ [ev])"
      using ss(2) by (simp add: released_def stream_inv_def list_all_iff)
    then show ?thesis using rel by blast
  qed
  then show ?thesis using release_effects assms(2) by metis
qed

text \<open>
  C26: a caller sees events only of a call that ends without error, after the dispatch authority
  persisted its terminal state: at most 257 events of the executed plan, of which exactly the
  last is terminal and says what was persisted. Until then nothing an adapter emits is released.
\<close>

theorem events_after_settlement:
  assumes "list_ex is_yield (call_effects c rt)"
  shows "call_error c rt = None \<and> (\<exists>h inp n plan grant t evs.
    call_effects c rt = [Eff_start h inp, Eff_execute h n plan, Eff_terminalize h t] @ map (Eff_yield h) evs \<and>
    po_terminalize (call_ports c) (call_user c) (xp_id plan) grant t = Some True \<and> released plan t evs)"
proof (cases c rule: call_kinds)
  case (prep p a r u ctx streaming)
  have "\<not> is_yield x" if "prepares_only x" for x using that by (cases x) simp_all
  then show ?thesis using assms prepare_effects unfolding prep by (metis list_all_iff list_ex_iff)
next
  case (disp p pe a r u ctx streaming)
  show ?thesis using disp
  proof (cases rule: dispatch_cases [where rt = rt])
    case (refused e rt')
    then show ?thesis using assms by simp
  next
    case (unstarted st rt' e es)
    then show ?thesis using assms start_effects [OF unstarted(2)] by auto
  next
    case (started st rt' plan grant es es')
    obtain inp where es: "es = [Eff_start (pe_handle pe) inp]"
      by (rule start_prepared_Inr [OF started(2)])
    have y: "list_ex is_yield es'" using assms started(3) es by simp
    show ?thesis
    proof (cases streaming)
      case True
      then have c: "c = Stream p pe a r u ctx" using disp by (simp add: dispatching_def)
      obtain res where res: "stream_adapter p (pe_handle pe) st plan grant u = (res, es')"
        using started(1-3) es True
        by (auto simp: c executePreparedStreaming_def split: prod.splits)
      show ?thesis
        using stream_adapter_yields [OF res y] started(1-3) es res True
        by (auto simp: c executePreparedStreaming_def)
    next
      case False
      then have c: "c = Execute p pe a r u ctx" using disp by (simp add: dispatching_def)
      obtain res where "run_adapter p (pe_handle pe) st plan grant u = (res, es')"
        using started(1-3) es False
        by (auto simp: c executePrepared_def split: prod.splits)
      then show ?thesis using run_adapter_effects(2) y by blast
    qed
  qed
qed

section \<open>Rollback\<close>

text \<open>
  a rollback reports success exactly when the adapter recorded for the plan is still
  registered, the action's identity is complete and is no archive, and that adapter confirmed;
  and it never asks any other adapter, or any adapter for another plan.
\<close>

theorem rollback_exact:
  "(rr_success (fst (rollback rg planId used identity)) \<longleftrightarrow>
     (\<exists>n entry i t. used = Some n \<and> n \<noteq> [] \<and> registry_get rg n = Some entry \<and>
        snapshotRollbackActionIdentity identity = Some (i, t) \<and> t \<noteq> ''archive_email'' \<and>
        ad_rollback (ae_adapter entry) planId = Some True)) \<and>
   set (snd (rollback rg planId used identity)) \<subseteq> {(n, planId) |n. used = Some n}"
  by (auto simp: rollback_def rolled_def split: option.splits bool.splits if_splits)

end
