(* ===== verification/RouterExamples.thy ===== *)
theory RouterExamples
  imports RouterProperties PolicyTheorems
begin

text \<open>
  A concrete run of the execution router: an adapter that builds the admitted plan and completes
  it, prepared and executed once, and streamed once. The witnesses of the router's properties
  use it.
\<close>

definition sample_plan :: "candidate_action \<Rightarrow> execution_plan" where
  "sample_plan a =
     \<lparr> xp_id = ''own'', xp_decisionId = ca_decisionId a, xp_executionOwnerId = None,
       xp_executionChannel = None, xp_action = a,
       xp_steps = [\<lparr> es_id = ''s'', es_order = Fin 1, es_type = ca_actionType a,
         es_description = ca_description a, es_parameters = ca_parameters a, es_timeout = Fin 30000 \<rparr>],
       xp_rollbackSteps = [] \<rparr>"

definition sample_adapter :: adapter where
  "sample_adapter = \<lparr> ad_ref = 7, ad_buildPlan = (\<lambda>a _. Inr (sample_plan a)),
     ad_prepareRequestStart = None,
     ad_execute = (\<lambda>plan _. Some \<lparr> xr_planId = xp_id plan, xr_status = ex_completed,
       xr_error = None, xr_output = None \<rparr>),
     ad_executeStreaming = Some (\<lambda>plan _. \<lparr> sm_events =
       [\<lparr> ee_planId = xp_id plan, ee_stepId = Some ''step-1'', ee_eventType = step_completed, ee_payload = None \<rparr>,
        \<lparr> ee_planId = xp_id plan, ee_stepId = None, ee_eventType = plan_completed, ee_payload = None \<rparr>],
       sm_threw = False \<rparr>),
     ad_rollback = (\<lambda>_. Some True) \<rparr>"

definition sample_registry :: registry where
  "sample_registry = registry_step empty_registry
     (''direct'', sample_adapter, DIRECT_TRUST_PROFILE, None)"

definition sample_ports :: ports where
  "sample_ports = \<lparr> po_registry = (\<lambda>_. sample_registry), po_admit = (\<lambda>_ _ _ _. adm_allowed),
     po_planId = ''p'', po_start = (\<lambda>_. st_granted \<lparr> lg_capability = ''c'', lg_leaseGeneration = ''g'' \<rparr>),
     po_terminalize = (\<lambda>_ _ _ _. Some True), po_collate = (\<lambda>_ _. 0) \<rparr>"

definition human :: execution_context where
  "human = \<lparr> ec_approved = True, ec_ironclawChannel = None \<rparr>"

definition late_bound :: jsobj where
  "late_bound = [(''executionPlanId'', JStr ''p''), (''credentialAuthorityRevision'', JStr ''1''),
     (''credentialPolicyAuthorityRevision'', JStr ''1''), (''dispatchAuthorityId'', JStr ''1''),
     (''dispatchAuthorityUpdatedAt'', JStr ''1'')]"

definition sample_admitted :: candidate_action where
  "sample_admitted = label_action \<lparr> ca_parameters := late_bound \<rparr>"

definition prepared_router :: "bool \<Rightarrow> (router_error + prepared_execution) \<times> router \<times> router_effect list" where
  "prepared_router streaming =
     prepareExecution sample_ports label_action low_risk ''u'' human streaming new_router"

definition the_prepared :: "bool \<Rightarrow> prepared_execution" where
  "the_prepared streaming = projr (fst (prepared_router streaming))"

definition sample_execute :: router_call where
  "sample_execute = Execute sample_ports (the_prepared False) sample_admitted low_risk ''u'' human"

definition sample_stream :: router_call where
  "sample_stream = Stream sample_ports (the_prepared True) sample_admitted low_risk ''u'' human"

definition carried :: candidate_action where
  "carried = label_action \<lparr> ca_parameters := [(''executionPlanId'', JStr ''p''), (''userId'', JStr ''u'')] \<rparr>"

definition dispatched :: candidate_action where
  "dispatched = label_action \<lparr> ca_parameters := late_bound @ [(''userId'', JStr ''u'')] \<rparr>"

lemma sample_actions:
  "prepared_action sample_ports label_action ''u'' = carried"
  "bindTrustedDispatchAction sample_admitted ''u'' = dispatched"
  "withoutLateBoundAuthority carried = carried" "withoutLateBoundAuthority dispatched = carried"
  by (simp_all add: prepared_action_def bindTrustedDispatchAction_def withoutLateBoundAuthority_def
      without_keys_def sample_ports_def label_action_def carried_def dispatched_def Let_def
      sample_admitted_def late_bound_def DISPATCH_STRIPPED_KEYS_def
      LATE_BOUND_AUTHORITY_PARAMETER_KEYS_def)

lemma sample_permitted:
  "assertExecutionPermitted label_action human = None"
  "assertExecutionPermitted sample_admitted human = None"
  unfolding permitted_iff by (simp_all add: label_action_def sample_admitted_def human_def)

definition built :: execution_plan where
  "built = (sample_plan carried) \<lparr> xp_id := ''p'' \<rparr>"

lemma sample_refusal: "a \<in> {carried, dispatched} \<Longrightarrow> plan_refusal coll built a = None"
  using sample_actions(3,4)
  by (auto simp: plan_refusal_def built_def sample_plan_def valuesMatch_def)
    (simp_all add: carried_def dispatched_def late_bound_def label_action_def)

lemma sample_step:
  "a \<in> {carried, dispatched} \<Longrightarrow>
   bindExactStepParameters coll (ca_parameters carried) a n kind = Inr (ca_parameters a)"
  by (rule bound_honest)
    (auto simp: carried_def dispatched_def late_bound_def has_own_def LATE_BOUND_AUTHORITY_PARAMETER_KEYS_def)

lemma sample_bind:
  assumes "a \<in> {carried, dispatched}"
  obtains plan where "bindTrustedPlanContext coll built a ''u'' ''direct'' g ch = Inr plan"
    "xp_id plan = ''p''" "xp_rollbackSteps plan = []" "map es_id (xp_steps plan) = [''step-1'']"
proof -
  have shape: "ca_actionType carried = ca_actionType a" "ca_description carried = ca_description a"
    using assms by (auto simp: carried_def dispatched_def)
  have "\<exists>s. bind_step coll built a ''u'' ''direct'' g k_step
      \<lparr> es_id = ''s'', es_order = Fin 1, es_type = ca_actionType a, es_description = ca_description a,
        es_parameters = ca_parameters carried, es_timeout = Fin 30000 \<rparr> = Inr s \<and> es_id s = ''step-1''"
    using sample_step [OF assms] by (simp add: bind_step_def expected_type_def expected_description_def)
  then obtain s where "bind_all (bind_step coll built a ''u'' ''direct'' g k_step) (xp_steps built) = Inr [s]"
    "es_id s = ''step-1''"
    unfolding built_def sample_plan_def by (auto simp: shape)
  moreover have "bind_all (bind_step coll built a ''u'' ''direct'' g k_rollback) (xp_rollbackSteps built) = Inr []"
    by (simp add: built_def sample_plan_def)
  ultimately have "bindTrustedPlanContext coll built a ''u'' ''direct'' g ch =
      Inr (trusted_plan built a ''u'' ch [s] [])"
    unfolding bind_plan_iff using sample_refusal [OF assms] by auto
  then show ?thesis
    using that \<open>es_id s = ''step-1''\<close> by (simp add: trusted_plan_def built_def)
qed

lemma sample_lookup:
  "registry_get sample_registry ''direct'' =
     Some \<lparr> ae_adapter = sample_adapter, ae_trustProfile = DIRECT_TRUST_PROFILE \<rparr>"
  "getRevision sample_registry ''direct'' = Some 1"
  "capable_names sample_registry False ty = [''direct'']"
  by (simp_all add: sample_registry_def registry_step_def registry_register_def empty_registry_def
      registry_get_def getRevision_def capable_names_def getCapableAdapters_def canHandle_def)

lemma sample_ready:
  "\<exists>es. attempt_adapter sample_ports label_action ''u'' human streaming 0 ''direct'' =
     (Ready built None \<lparr> ae_adapter = sample_adapter, ae_trustProfile = DIRECT_TRUST_PROFILE \<rparr> 1, es)"
proof -
  obtain plan where "bindTrustedPlanContext (\<lambda>_ _. 0) built carried ''u'' ''direct'' None None = Inr plan"
    by (rule sample_bind [of carried]) auto
  then show ?thesis
    unfolding attempt_adapter_def Let_def sample_actions(1)
    by (simp add: sample_ports_def sample_lookup assertAdmitted_def sample_adapter_def human_def
        flip: built_def)
qed

lemma sample_preparation:
  obtains es pe where "prepared_router streaming = (Inr pe, \<lparr> rt_prepared =
      [(0, \<lparr> ps_adapterName = ''direct'', ps_registryRevision = 1, ps_adapter = sample_adapter,
        ps_builtPlan = built, ps_preparation = None, ps_action = carried, ps_userId = ''u'',
        ps_riskAssessment = low_risk, ps_streaming = streaming, ps_fallbacksAttempted = 0,
        ps_requestedExecutionChannel = None, ps_executionChannel = None \<rparr>)], rt_nextHandle = 1 \<rparr>, es)"
    "pe_handle pe = 0" "pe_adapterName pe = ''direct''" "pe_planId pe = ''p''"
    "pe_riskAssessment pe = low_risk" "pe_streaming pe = streaming" "pe_executionChannel pe = None"
proof -
  have ok: "assertValidExecutionInputs label_action low_risk = None"
    "requiresExactMcpRouting label_action = Inr False" "ca_reversible label_action"
    by (simp_all add: assertValidExecutionInputs_def requiresExactMcpRouting_def label_action_def
        low_risk_def has_own_def Let_def)
  obtain es where ready: "attempt_adapter sample_ports label_action ''u'' human streaming 0 ''direct'' =
     (Ready built None \<lparr> ae_adapter = sample_adapter, ae_trustProfile = DIRECT_TRUST_PROFILE \<rparr> 1, es)"
    using sample_ready by blast
  have "prepared_router streaming = (case accept sample_ports label_action low_risk ''u'' human streaming 0
      [''direct''] ''direct'' [] built None
      \<lparr> ae_adapter = sample_adapter, ae_trustProfile = DIRECT_TRUST_PROFILE \<rparr> 1 new_router of
      (res, rt') \<Rightarrow> (res, rt', es))"
    unfolding prepared_router_def prepareExecution_def ok sample_permitted
    by (simp add: Let_def sample_lookup sortByTrust_def ready
        assertAdmitted_def sample_ports_def [THEN arg_cong, of po_admit]
        sample_ports_def [THEN arg_cong, of po_registry])
  then show thesis
    by (intro that [of _ es])
      (auto simp: accept_def Let_def effective_channel_def applyAdapterRiskModifier_def ok
        new_router_def human_def sample_actions(1) sample_ports_def [THEN arg_cong, of po_planId])
qed

definition sample_state :: "bool \<Rightarrow> router" where
  "sample_state streaming = fst (snd (prepared_router streaming))"

lemma sample_started:
  obtains st plan grant inp where
    "consumePreparedExecution sample_ports (the_prepared streaming) sample_admitted low_risk ''u''
       streaming human (sample_state streaming) = (Inr st, drop_handle 0 (sample_state streaming))"
    "start_prepared sample_ports 0 st sample_admitted low_risk ''u'' human =
       (Inr (plan, grant), [Eff_start 0 inp])"
    "ps_adapter st = sample_adapter" "xp_id plan = ''p''" "map es_id (xp_steps plan) = [''step-1'']"
    "pe_handle (the_prepared streaming) = 0" "ps_adapterName st = ''direct''"
proof -
  let ?pe = "the_prepared streaming"
  define st where "st = \<lparr> ps_adapterName = ''direct'', ps_registryRevision = 1, ps_adapter = sample_adapter,
        ps_builtPlan = built, ps_preparation = None, ps_action = carried, ps_userId = ''u'',
        ps_riskAssessment = low_risk, ps_streaming = streaming, ps_fallbacksAttempted = 0,
        ps_requestedExecutionChannel = None, ps_executionChannel = None \<rparr>"
  have pe: "pe_handle ?pe = 0" "pe_adapterName ?pe = ''direct''" "pe_planId ?pe = ''p''"
    "pe_riskAssessment ?pe = low_risk" "pe_streaming ?pe = streaming" "pe_executionChannel ?pe = None"
    and state: "map_of (rt_prepared (sample_state streaming)) 0 = Some st"
    by (rule sample_preparation [of streaming], simp add: the_prepared_def sample_state_def st_def)+
  have ports: "po_admit sample_ports = (\<lambda>_ _ _ _. adm_allowed)"
    "po_registry sample_ports = (\<lambda>_. sample_registry)" "po_collate sample_ports = (\<lambda>_ _. 0)"
    "po_start sample_ports = (\<lambda>_. st_granted \<lparr> lg_capability = ''c'', lg_leaseGeneration = ''g'' \<rparr>)"
    by (simp_all add: sample_ports_def)
  have valid: "assertValidExecutionInputs sample_admitted low_risk = None"
    by (simp add: assertValidExecutionInputs_def sample_admitted_def label_action_def low_risk_def)
  have risk: "risk_match low_risk low_risk"
    by (simp add: risk_match_def low_risk_def)
  have "same_prepared sample_ports st ?pe sample_admitted low_risk ''u'' streaming human"
    unfolding same_prepared_def ports sample_actions
    by (simp add: st_def sample_lookup pe risk valuesMatch_def sample_actions(3))
      (simp add: built_def sample_admitted_def late_bound_def human_def)
  then have con: "consumePreparedExecution sample_ports ?pe sample_admitted low_risk ''u''
       streaming human (sample_state streaming) = (Inr st, drop_handle 0 (sample_state streaming))"
    by (simp add: consumePreparedExecution_def Let_def pe state assertAdmitted_def ports valid sample_permitted)
  let ?g = "\<lparr> lg_capability = ''c'', lg_leaseGeneration = ''g'' \<rparr>"
  obtain q where q: "bindTrustedPlanContext (\<lambda>_ _. 0) built dispatched ''u'' ''direct'' None None = Inr q"
    by (rule sample_bind [of dispatched]) auto
  obtain plan where plan: "bindTrustedPlanContext (\<lambda>_ _. 0) built dispatched ''u'' ''direct'' (Some ?g) None = Inr plan"
    "xp_id plan = ''p''" "map es_id (xp_steps plan) = [''step-1'']"
    by (rule sample_bind [of dispatched "\<lambda>_ _. 0" "Some ?g" None]) auto
  have "\<exists>inp. authorityInput dispatched q ''u'' ''direct'' low_risk None None None = Inr inp"
    by (simp add: authorityInput_def dispatched_def late_bound_def Let_def)
  then obtain inp where "authorityInput dispatched q ''u'' ''direct'' low_risk None None None = Inr inp"
    by blast
  then have "start_prepared sample_ports 0 st sample_admitted low_risk ''u'' human = (Inr (plan, ?g), [Eff_start 0 inp])"
    unfolding start_prepared_def Let_def sample_actions ports
    by (simp add: st_def q plan(1) startDispatch_def ports human_def)
  then show thesis using that con plan pe(1) by (simp add: st_def)
qed

lemma sample_execute_effects:
  obtains inp plan t where
    "call_effects sample_execute (sample_state False) = [Eff_start 0 inp, Eff_execute 0 ''direct'' plan, t]"
    "call_error sample_execute (sample_state False) = None"
proof -
  obtain st plan grant inp where s: "consumePreparedExecution sample_ports (the_prepared False) sample_admitted low_risk ''u''
       False human (sample_state False) = (Inr st, drop_handle 0 (sample_state False))"
    "start_prepared sample_ports 0 st sample_admitted low_risk ''u'' human =
       (Inr (plan, grant), [Eff_start 0 inp])"
    "ps_adapter st = sample_adapter" "xp_id plan = ''p''" "pe_handle (the_prepared False) = 0"
    "ps_adapterName st = ''direct''"
    by (rule sample_started)
  show thesis using that s
    by (simp add: sample_execute_def executePrepared_def run_adapter_def sample_adapter_def unbound_def
        sample_ports_def)
qed

section \<open>Witnesses\<close>

lemma sample_execute_in:
  "\<exists>plan. Eff_execute 0 ''direct'' plan \<in> set (call_effects sample_execute (sample_state False))"
  by (rule sample_execute_effects) (simp, blast)

theorem executed_plan_exact_witness:
  "\<exists>plan. Eff_execute 0 ''direct'' plan \<in> set (call_effects sample_execute (sample_state False)) \<and>
     xp_executionOwnerId plan = Some ''u'' \<and> length (xp_steps plan) = 1"
proof -
  obtain plan where p: "Eff_execute 0 ''direct'' plan \<in> set (call_effects sample_execute (sample_state False))"
    using sample_execute_in by blast
  show ?thesis
    using executed_plan_exact [OF p] p
    by (intro exI [of _ plan]) (auto simp: exact_plan_def sample_execute_def)
qed

theorem execution_backstop_witness: "ca_actionType sample_admitted \<noteq> ''archive_email''"
proof -
  obtain plan where p: "Eff_execute 0 ''direct'' plan \<in> set (call_effects sample_execute (sample_state False))"
    using sample_execute_in by blast
  show ?thesis using execution_backstop [OF p] by (simp add: sample_execute_def)
qed

theorem execution_fenced_witness:
  "\<exists>inp plan rest. call_effects sample_execute (sample_state False) =
     Eff_start 0 inp # Eff_execute 0 ''direct'' plan # rest \<and> ai_userId inp = ''u''"
proof -
  obtain plan where p: "Eff_execute 0 ''direct'' plan \<in> set (call_effects sample_execute (sample_state False))"
    using sample_execute_in by blast
  show ?thesis using execution_fenced [OF p] by (auto simp: sample_execute_def)
qed

text \<open>The same call on a router that never issued the handle.\<close>

theorem no_request_errors_sound_witness:
  "call_error sample_execute new_router \<noteq> None \<and> \<not> list_ex is_execute (call_effects sample_execute new_router)"
proof -
  have err: "call_error sample_execute new_router =
      Some (InvariantViolationError ''Prepared execution does not match'')"
    by (simp add: sample_execute_def executePrepared_def consumePreparedExecution_def new_router_def
        assertAdmitted_def sample_ports_def Let_def)
  show ?thesis using no_request_errors_sound [OF err] err by simp
qed

theorem preparation_choice_witness:
  "pe_adapterName (the_prepared False) = ''direct'' \<and> pe_handle (the_prepared False) = rt_nextHandle new_router"
proof -
  obtain es pe rt where pe: "prepared_router False = (Inr pe, rt, es)" "pe_adapterName pe = ''direct''"
    by (rule sample_preparation [of False]) blast
  show ?thesis
    using preparation_choice [OF pe(1) [unfolded prepared_router_def]] pe
    by (simp add: the_prepared_def Let_def)
qed

lemma sample_sizes:
  assumes "2000 \<le> limit" "sid \<in> {None, Some ''step-1''}" "ps_adapterName st = ''direct''"
    "ee_planId ev = ''p''" "ee_payload ev = None"
  shows "\<exists>n \<le> 1000. addStreamValueSize (event_value (routed_event st plan sid ev)) limit 0 0 = Some n"
  using assms
  by (auto simp: event_value_def routed_event_def routed_fields_def container_def sum_sizes_def
      entry_size_def shallow_def add_bytes_def text_bytes_def opt_str_def stripAdapterReservedOutput_def
      MAX_STREAM_VALUE_DEPTH_def MAX_STREAM_CONTAINER_ENTRIES_def event_type_str_def
      split: event_type.splits)

lemma sample_stream_yields: "list_ex is_yield (call_effects sample_stream (sample_state True))"
proof -
  obtain st plan grant inp where s: "consumePreparedExecution sample_ports (the_prepared True) sample_admitted low_risk ''u''
       True human (sample_state True) = (Inr st, drop_handle 0 (sample_state True))"
    "start_prepared sample_ports 0 st sample_admitted low_risk ''u'' human =
       (Inr (plan, grant), [Eff_start 0 inp])"
    "ps_adapter st = sample_adapter" "xp_id plan = ''p''" "map es_id (xp_steps plan) = [''step-1'']"
    "pe_handle (the_prepared True) = 0" "ps_adapterName st = ''direct''"
    by (rule sample_started)
  obtain x where x: "xp_steps plan = [x]" "es_id x = ''step-1''" using s(5) by auto
  let ?e1 = "\<lparr> ee_planId = ''p'', ee_stepId = Some ''step-1'', ee_eventType = step_completed, ee_payload = None \<rparr>"
  let ?e2 = "\<lparr> ee_planId = ''p'', ee_stepId = None, ee_eventType = plan_completed, ee_payload = None \<rparr>"
  obtain n where n: "n \<le> 1000" "addStreamValueSize (event_value (routed_event st plan (Some ''step-1'') ?e1))
      MAX_BUFFERED_STREAM_BYTES 0 0 = Some n"
    using sample_sizes [of MAX_BUFFERED_STREAM_BYTES "Some ''step-1''" st ?e1 plan] s(7)
    by (auto simp: MAX_BUFFERED_STREAM_BYTES_def)
  obtain m where m: "addStreamValueSize (event_value (routed_event st plan None ?e2))
      (MAX_BUFFERED_STREAM_BYTES - n) 0 0 = Some m"
    using sample_sizes [of "MAX_BUFFERED_STREAM_BYTES - n" None st ?e2 plan] s(7) n(1)
    by (auto simp: MAX_BUFFERED_STREAM_BYTES_def)
  have one: "stream_step st plan ?e1 stream_start = Some \<lparr> ss_terminalEvent = None, ss_activeStepId = None,
      ss_nextStepIndex = 1, ss_bufferedEvents = [routed_event st plan (Some ''step-1'') ?e1],
      ss_bufferedBytes = n \<rparr>"
    using n(2) by (simp add: stream_step_def stream_start_def stream_protocol_def s(4) x is_terminal_def
        MAX_BUFFERED_STREAM_EVENTS_def)
  have two: "stream_loop st plan [?e1, ?e2] stream_start = Some \<lparr> ss_terminalEvent = Some (routed_event st plan None ?e2),
      ss_activeStepId = None, ss_nextStepIndex = 1,
      ss_bufferedEvents = [routed_event st plan (Some ''step-1'') ?e1], ss_bufferedBytes = n + m \<rparr>"
    using one m by (simp add: stream_step_def [of _ _ ?e2] stream_protocol_def s(4) is_terminal_def)
  have "po_terminalize sample_ports = (\<lambda>_ _ _ _. Some True)" by (simp add: sample_ports_def)
  then have "\<exists>es. stream_adapter sample_ports 0 st plan grant ''u'' = (Inr (), es) \<and> list_ex is_yield es"
    using two by (simp add: stream_adapter_def s(3) sample_adapter_def s(4) release_def)
  then show ?thesis
    using s by (auto simp: sample_stream_def executePreparedStreaming_def)
qed

theorem events_after_settlement_witness:
  "call_error sample_stream (sample_state True) = None"
  using events_after_settlement [OF sample_stream_yields] by blast

end
