(* ===== verification/PreviewBoundary.thy ===== *)
theory PreviewBoundary
  imports Regex SharedTypes
begin

text \<open>
  The account boundary of the preview: \<open>packages/shared-types/src/google-preview-boundary.ts\<close>,
  which recognises account-backed integrations and actions by stable tokens, whatever separators
  and casing their names are written with. The lemmas show that the two normalisations depend on
  the words of a name only; \<open>words_of\<close> is the reference that they are compared with.
\<close>

section \<open>Vocabulary\<close>

definition GOOGLE_INTEGRATION_TOKENS :: "string list" where
  "GOOGLE_INTEGRATION_TOKENS = [''google'', ''gmail'', ''googlemail'', ''googlecalendar'', ''googledrive'',
     ''gdrive'', ''gcal'', ''youtube'', ''gcp'']"

definition GOOGLE_ACCOUNT_REGISTRY_IDS :: "string list" where
  "GOOGLE_ACCOUNT_REGISTRY_IDS = [''@modelcontextprotocol/server-google-drive'', ''google-drive-mcp'',
     ''gmail-mcp'', ''google-calendar-mcp'', ''youtube-mcp'', ''gcp-mcp'']"

definition MICROSOFT_INTEGRATION_TOKENS :: "string list" where
  "MICROSOFT_INTEGRATION_TOKENS = [''microsoft'', ''microsoft365'', ''m365'', ''ms365'', ''microsoftgraph'',
     ''msgraph'', ''office365'', ''o365'', ''outlook'', ''outlook365'', ''outlookcalendar'', ''outlookmail'',
     ''azure'', ''azuread'', ''entra'', ''entraid'', ''onedrive'', ''sharepoint'', ''exchange'',
     ''microsoftteams'', ''msteams'', ''teams'']"

definition MICROSOFT_ACCOUNT_REGISTRY_IDS :: "string list" where
  "MICROSOFT_ACCOUNT_REGISTRY_IDS = [''azure-mcp'', ''microsoft-365-mcp'', ''m365-mcp'', ''ms365-mcp'',
     ''microsoft-graph-mcp'', ''office365-mcp'', ''o365-mcp'', ''outlook-mcp'', ''outlook365-mcp'',
     ''azure-ad-mcp'', ''azuread-mcp'', ''entra-id-mcp'', ''entraid-mcp'', ''onedrive-mcp'',
     ''sharepoint-mcp'', ''exchange-mcp'', ''microsoft-teams-mcp'', ''ms-teams-mcp'', ''teams-mcp'']"

definition GOOGLE_ACCOUNT_ACTION_TYPES :: "string list" where
  "GOOGLE_ACCOUNT_ACTION_TYPES = [''archive_email'', ''label_email'', ''send_reply'', ''reply_email'',
     ''draft_email'', ''send_email'', ''delete_email'', ''delete_emails'', ''forward_email'', ''read_email'',
     ''read_emails'', ''search_email'', ''search_emails'', ''snooze_email'', ''unsubscribe_email'',
     ''create_filter'', ''move_to_folder'', ''accept_invite'', ''decline_invite'', ''decline_event'',
     ''propose_alternative'', ''tentative_accept'', ''respond_to_event'', ''create_event'', ''update_event'',
     ''delete_event'', ''schedule_meeting'', ''create_calendar_event'', ''update_calendar_event'',
     ''delete_calendar_event'', ''reschedule_event'', ''set_out_of_office'', ''block_focus_time'',
     ''schedule_focus_block'', ''find_meeting_time'', ''get_message'', ''fetch_email'', ''modify_message'',
     ''trash_message'', ''create_draft'', ''send_draft'', ''send_calendar_invite'']"

section \<open>Normal forms\<close>

text \<open>The separators of an identifier, and those of an action type, which include the colon.\<close>

definition id_separator :: "char \<Rightarrow> bool" where
  "id_separator c \<longleftrightarrow> c \<in> set ''._-/'' \<or> is_space c"

definition action_separator :: "char \<Rightarrow> bool" where
  "action_separator c \<longleftrightarrow> c \<in> set ''._-:/'' \<or> is_space c"

definition normalizeIntegrationToken :: "string \<Rightarrow> string" where
  "normalizeIntegrationToken v = filter (\<lambda>c. \<not> id_separator c) (to_lower (trim v))"

definition lower_or_digit :: "char \<Rightarrow> bool" where
  "lower_or_digit c = (let n = (of_char c :: nat) in (97 \<le> n \<and> n \<le> 122) \<or> (48 \<le> n \<and> n \<le> 57))"

definition upper_char :: "char \<Rightarrow> bool" where
  "upper_char c = (let n = (of_char c :: nat) in 65 \<le> n \<and> n \<le> 90)"

text \<open>\<open>replace(/([a-z0-9])([A-Z])/g, '$1_$2')\<close>\<close>

fun camel_split :: "string \<Rightarrow> string" where
  "camel_split (c # d # s) =
     (if lower_or_digit c \<and> upper_char d then c # CHR ''_'' # camel_split (d # s)
      else c # camel_split (d # s))"
| "camel_split s = s"

text \<open>\<open>replace(/[._\-:/\s]+/g, '_')\<close>\<close>

function (sequential) collapse :: "string \<Rightarrow> string" where
  "collapse [] = []"
| "collapse (c # s) = (if action_separator c then CHR ''_'' # collapse (dropWhile action_separator s)
     else c # collapse s)"
  by pat_completeness auto
termination by (relation "measure length") (auto simp: le_imp_less_Suc length_dropWhile_le)

text \<open>\<open>replace(/^_+|_+$/g, '')\<close>\<close>

definition strip_right :: "string \<Rightarrow> string" where
  "strip_right s = rev (dropWhile (\<lambda>c. c = CHR ''_'') (rev s))"

definition strip_underscores :: "string \<Rightarrow> string" where
  "strip_underscores s = strip_right (dropWhile (\<lambda>c. c = CHR ''_'') s)"

definition normalizeActionType :: "string \<Rightarrow> string" where
  "normalizeActionType v = strip_underscores (collapse (to_lower (camel_split (trim v))))"

section \<open>Recognition\<close>

definition actionContainsIntegrationToken :: "string \<Rightarrow> string list \<Rightarrow> bool" where
  "actionContainsIntegrationToken normalized tokens =
     (let segments = filter (\<lambda>w. w \<noteq> []) (split_on CHR ''_'' normalized) in
      list_ex (\<lambda>start. list_ex (\<lambda>len. start + len \<le> length segments \<and>
          concat (take len (drop start segments)) \<in> set tokens) [1, 2, 3])
        [0 ..< length segments])"

definition isGoogleIntegrationIdentifier :: "string \<Rightarrow> bool" where
  "isGoogleIntegrationIdentifier v =
     list_ex (\<lambda>w. normalizeIntegrationToken w \<in> set GOOGLE_INTEGRATION_TOKENS) (split_on CHR '':'' v)"

definition isMicrosoftIntegrationIdentifier :: "string \<Rightarrow> bool" where
  "isMicrosoftIntegrationIdentifier v =
     list_ex (\<lambda>w. normalizeIntegrationToken w \<in> set MICROSOFT_INTEGRATION_TOKENS) (split_on CHR '':'' v)"

definition isAccountBackedIntegrationIdentifier :: "string \<Rightarrow> bool" where
  "isAccountBackedIntegrationIdentifier v \<longleftrightarrow>
     isGoogleIntegrationIdentifier v \<or> isMicrosoftIntegrationIdentifier v"

text \<open>The patterns of \<open>isGoogleAccountActionType\<close>, in the order of the code.\<close>

definition words_rx :: "string list \<Rightarrow> rx" where
  "words_rx ws = alts (map lit ws)"

definition rx_identity_root :: rx where
  "rx_identity_root = seqs [Alt AtStart (lit ''_''),
     alts [lit ''user'', lit ''users'', lit ''me'', lit ''group'', lit ''groups''], Alt (lit ''_'') AtEnd]"

definition MAIL_NOUNS :: "string list" where
  "MAIL_NOUNS = [''email'', ''emails'', ''mail'', ''gmail'', ''google_email'', ''google_mail'', ''message'',
     ''messages'']"

definition rx_mail_verb_first :: rx where
  "rx_mail_verb_first = seqs [AtStart,
     words_rx [''read'', ''search'', ''list'', ''archive'', ''label'', ''send'', ''reply'', ''draft'', ''delete'',
       ''forward'', ''snooze'', ''unsubscribe'', ''move''], lit ''_'', words_rx MAIL_NOUNS, AtEnd]"

definition rx_event_write :: rx where
  "rx_event_write = seqs [AtStart,
     words_rx [''create'', ''update'', ''modify'', ''delete'', ''cancel'', ''move'', ''schedule'', ''reschedule'',
       ''respond_to''], lit ''_'', opt (Seq (opt (lit ''google_'')) (lit ''calendar_'')),
     words_rx [''event'', ''events'', ''invite'', ''meeting'', ''meetings''], AtEnd]"

definition EVENT_NOUNS :: "string list" where
  "EVENT_NOUNS = [''event'', ''events'', ''invite'', ''invites'', ''meeting'', ''meetings'']"

definition rx_event_read :: rx where
  "rx_event_read = seqs [AtStart, words_rx [''read'', ''get'', ''search'', ''list''], lit ''_'',
     opt (Seq (opt (lit ''google_'')) (lit ''calendar_'')), words_rx EVENT_NOUNS, AtEnd]"

definition rx_mail_noun_first :: rx where
  "rx_mail_noun_first = seqs [AtStart, words_rx MAIL_NOUNS, lit ''_'',
     words_rx [''read'', ''search'', ''list'', ''archive'', ''label'', ''send'', ''reply'', ''draft'', ''delete'',
       ''trash'', ''forward'', ''snooze'', ''unsubscribe'', ''move'', ''modify''], AtEnd]"

definition rx_event_noun_first :: rx where
  "rx_event_noun_first = seqs [AtStart, words_rx EVENT_NOUNS, lit ''_'',
     words_rx [''read'', ''get'', ''search'', ''list'', ''insert'', ''create'', ''update'', ''patch'', ''delete'',
       ''remove'', ''move'', ''cancel'', ''respond''], AtEnd]"

definition rx_account_prefix :: rx where
  "rx_account_prefix = seqs [AtStart,
     words_rx [''rsvp'', ''calendar'', ''email'', ''mail'', ''gmail'', ''gcal'', ''google_calendar'',
       ''google_mail''], lit ''_'']"

definition isGoogleAccountActionType :: "string \<Rightarrow> bool" where
  "isGoogleAccountActionType actionType =
     (let normalized = normalizeActionType actionType in
      if normalized \<in> set GOOGLE_ACCOUNT_ACTION_TYPES then True
      else if rx_test rx_identity_root normalized then True
      else if actionContainsIntegrationToken normalized GOOGLE_INTEGRATION_TOKENS then True
      else if rx_test rx_mail_verb_first normalized then True
      else if rx_test rx_event_write normalized then True
      else if rx_test rx_event_read normalized then True
      else if rx_test rx_mail_noun_first normalized then True
      else if rx_test rx_event_noun_first normalized then True
      else rx_test rx_account_prefix normalized)"

definition isAccountBackedActionType :: "string \<Rightarrow> bool" where
  "isAccountBackedActionType actionType =
     (if isGoogleAccountActionType actionType then True
      else actionContainsIntegrationToken (normalizeActionType actionType) MICROSOFT_INTEGRATION_TOKENS)"

text \<open>The parameters matter only by the key \<open>mcpToolName\<close>; a missing domain is None.\<close>

definition isAccountBackedEmailOrCalendarAction :: "string \<Rightarrow> string option \<Rightarrow> jsobj \<Rightarrow> bool" where
  "isAccountBackedEmailOrCalendarAction actionType dom_opt parameters =
     (if isAccountBackedActionType actionType then True
      else let given = (case dom_opt of Some d \<Rightarrow> d | None \<Rightarrow> []); d = normalizeIntegrationToken given in
        if d = ''email'' \<or> d = ''mail'' \<or> d = ''calendar'' \<or> isAccountBackedIntegrationIdentifier given
        then True
        else (case get parameters ''mcpToolName'' of
            JStr tool \<Rightarrow> isAccountBackedActionType tool | _ \<Rightarrow> False))"

definition isGoogleAccountRegistryIdentifierOnly :: "string \<Rightarrow> bool" where
  "isGoogleAccountRegistryIdentifierOnly registryId \<longleftrightarrow>
     to_lower (trim registryId) \<in> set GOOGLE_ACCOUNT_REGISTRY_IDS"

definition isMicrosoftAccountRegistryIdentifier :: "string \<Rightarrow> bool" where
  "isMicrosoftAccountRegistryIdentifier registryId \<longleftrightarrow>
     to_lower (trim registryId) \<in> set MICROSOFT_ACCOUNT_REGISTRY_IDS \<or>
     isMicrosoftIntegrationIdentifier registryId"

definition isAccountBackedRegistryIdentifier :: "string \<Rightarrow> bool" where
  "isAccountBackedRegistryIdentifier registryId \<longleftrightarrow>
     isGoogleAccountRegistryIdentifierOnly registryId \<or>
     isMicrosoftAccountRegistryIdentifier registryId \<or> isAccountBackedIntegrationIdentifier registryId"

record integration_input =
  ii_key :: "string option"
  ii_adapter :: "string option"
  ii_integration :: "string option"
  ii_skills :: "string list option"

definition isAccountBackedIntegration :: "integration_input \<Rightarrow> bool" where
  "isAccountBackedIntegration input \<longleftrightarrow>
     list_ex (\<lambda>value. case value of None \<Rightarrow> False
       | Some v \<Rightarrow> isAccountBackedIntegrationIdentifier v \<or> isAccountBackedRegistryIdentifier v)
       [ii_key input, ii_adapter input, ii_integration input] \<or>
     (case ii_skills input of None \<Rightarrow> False | Some skills \<Rightarrow> list_ex isAccountBackedActionType skills)"

section \<open>The guard of the worker's router\<close>

datatype google_connection_mode = gm_disabled | gm_experimental

text \<open>The answer of \<open>createWorkerExecutionAdmissionGuard\<close>: None allows, Some is the refusal.\<close>

definition worker_guard ::
    "google_connection_mode \<Rightarrow> candidate_action \<Rightarrow> string option \<Rightarrow> string option" where
  "worker_guard mode a adapterName =
     (if mode = gm_experimental then None
      else if (case adapterName of None \<Rightarrow> False | Some n \<Rightarrow> n \<noteq> [] \<and>
          isAccountBackedIntegration \<lparr> ii_key = None, ii_adapter = Some n, ii_integration = None,
            ii_skills = None \<rparr>)
      then Some ''The selected execution integration is unavailable in this preview.''
      else if isAccountBackedEmailOrCalendarAction (ca_actionType a) (Some (ca_domain a)) (ca_parameters a)
      then Some ''Account-backed email and calendar actions are unavailable in this preview.''
      else None)"

section \<open>Names by their words\<close>

text \<open>Reference: the runs of other characters between the separators of a name.\<close>

function (sequential) words_of :: "string \<Rightarrow> string list" where
  "words_of [] = []"
| "words_of (c # s) = (if action_separator c then words_of s
     else (c # takeWhile (\<lambda>d. \<not> action_separator d) s)
       # words_of (dropWhile (\<lambda>d. \<not> action_separator d) s))"
  by pat_completeness auto
termination by (relation "measure length") (auto simp: le_imp_less_Suc length_dropWhile_le)

lemma underscore_separates: "action_separator CHR ''_''"
  by (simp add: action_separator_def)

lemma word_not_sep: "\<not> action_separator c \<Longrightarrow> c \<noteq> CHR ''_''"
  using underscore_separates by blast

lemma words_of_snoc: "action_separator c \<Longrightarrow> words_of (s @ [c]) = words_of s"
proof (induction s rule: words_of.induct)
  case (2 d s)
  show ?case
  proof (cases "action_separator d")
    case True
    then show ?thesis using 2 by simp
  next
    case False
    then show ?thesis using 2
      by (cases "\<forall>x \<in> set s. \<not> action_separator x")
        (auto simp: takeWhile_tail dropWhile_append dropWhile_eq_Nil_conv [THEN iffD2] takeWhile_eq_all_conv [THEN iffD2])
  qed
qed simp

lemma words_of_Cons: "action_separator c \<Longrightarrow> words_of (c # s) = words_of s"
  by simp

lemma words_of_drop: "words_of (dropWhile is_space s) = words_of s"
  by (induction s) (simp_all add: action_separator_def)

lemma words_of_drop_right: "words_of (rev (dropWhile is_space (rev s))) = words_of s"
proof (induction s rule: rev_induct)
  case (snoc c s)
  then show ?case by (auto simp: words_of_snoc action_separator_def)
qed simp

lemma strip_right_words:
  "x \<noteq> [] \<Longrightarrow> CHR ''_'' \<notin> set x \<Longrightarrow> strip_right (x @ y) = x @ strip_right y"
  by (cases x rule: rev_cases) (auto simp: strip_right_def dropWhile_append)

lemma strip_right_Cons:
  "strip_right (CHR ''_'' # y) = (if strip_right y = [] then [] else CHR ''_'' # strip_right y)"
  by (auto simp: strip_right_def dropWhile_append)

lemma collapse_drop:
  "strip_underscores (collapse (dropWhile action_separator s)) = strip_underscores (collapse s)"
  by (cases s) (auto simp: strip_underscores_def)

lemma collapse_word:
  "(\<And>d. d \<in> set w \<Longrightarrow> \<not> action_separator d) \<Longrightarrow> collapse (w @ r) = w @ collapse r"
  by (induction w) simp_all

lemma collapse_head:
  "collapse (dropWhile action_separator s) = [] \<or> hd (collapse (dropWhile action_separator s)) \<noteq> CHR ''_''"
proof (cases "dropWhile action_separator s")
  case (Cons d t)
  then have "\<not> action_separator d" by (metis hd_dropWhile list.discI list.sel(1))
  then show ?thesis using Cons word_not_sep by simp
next
  case Nil
  then show ?thesis unfolding Nil by simp
qed

lemma words_of_nonempty: "w \<in> set (words_of s) \<Longrightarrow> w \<noteq> [] \<and> (\<forall>d \<in> set w. \<not> action_separator d)"
proof (induction s rule: words_of.induct)
  case (2 c s)
  consider "w \<in> set (words_of s)" "action_separator c"
    | "w \<in> set (words_of (dropWhile (\<lambda>d. \<not> action_separator d) s))" "\<not> action_separator c"
    | "w = c # takeWhile (\<lambda>d. \<not> action_separator d) s" "\<not> action_separator c"
    using 2(3) by (simp split: if_splits) blast
  then show ?case
  proof cases
    case 3
    then show ?thesis using set_takeWhileD by fastforce
  qed (use 2 in blast)+
qed simp

lemma join_nonempty: "ws \<noteq> [] \<Longrightarrow> [] \<notin> set ws \<Longrightarrow> join_with sep ws \<noteq> []"
  by (induction sep ws rule: join_with.induct) auto

lemma collapse_words: "strip_underscores (collapse s) = join_with ''_'' (words_of s)"
proof (induction s rule: words_of.induct)
  case 1
  then show ?case by (simp add: strip_underscores_def strip_right_def)
next
  case (2 c s)
  show ?case
  proof (cases "action_separator c")
    case True
    then show ?thesis using 2(1) collapse_drop by (simp add: strip_underscores_def)
  next
    case False
    define w where "w = c # takeWhile (\<lambda>d. \<not> action_separator d) s"
    define r where "r = dropWhile (\<lambda>d. \<not> action_separator d) s"
    have w: "\<not> action_separator d" if "d \<in> set w" for d
      using that False unfolding w_def by (auto dest: set_takeWhileD)
    have s: "c # s = w @ r" by (simp add: w_def r_def)
    have under: "CHR ''_'' \<notin> set w" using w underscore_separates by blast
    have cw: "collapse (w @ r) = w @ collapse r" by (rule collapse_word) (rule w)
    have "dropWhile (\<lambda>x. x = CHR ''_'') (w @ collapse r) = w @ collapse r"
      using under by (auto simp: w_def)
    then have "strip_underscores (collapse (c # s)) = strip_right (w @ collapse r)"
      unfolding s cw strip_underscores_def by simp
    also have "\<dots> = w @ strip_right (collapse r)"
      by (rule strip_right_words) (use under in \<open>simp_all add: w_def\<close>)
    finally have strip: "strip_underscores (collapse (c # s)) = w @ strip_right (collapse r)" .
    have IH: "strip_underscores (collapse r) = join_with ''_'' (words_of r)"
      unfolding r_def by (rule 2(2) [OF False])
    have words: "words_of (c # s) = w # words_of r" using False by (simp add: w_def r_def)
    show ?thesis
    proof (cases r)
      case Nil
      then show ?thesis unfolding strip words by (simp add: strip_right_def)
    next
      case (Cons d t)
      then have d: "action_separator d" unfolding r_def by (metis hd_dropWhile list.discI list.sel(1))
      define y where "y = collapse (dropWhile action_separator t)"
      have cr: "collapse r = CHR ''_'' # y" using Cons d by (simp add: y_def)
      have "dropWhile (\<lambda>c. c = CHR ''_'') y = y"
        using collapse_head [of t] by (cases y) (auto simp: y_def)
      then have "strip_right y = join_with ''_'' (words_of r)"
        using IH by (simp add: cr strip_underscores_def)
      then show ?thesis
        using words_of_nonempty [of _ r] join_nonempty [of "words_of r" "''_''"]
        unfolding strip words cr strip_right_Cons
        by (cases "words_of r") auto
    qed
  qed
qed

lemma separator_chars:
  assumes "action_separator c"
  shows "\<not> lower_or_digit c" "\<not> upper_char c" "lower_char c = c"
proof -
  have "(of_char c :: nat) \<in> {9, 10, 11, 12, 13, 32, 45, 46, 47, 58, 95, 160}"
    using assms by (auto simp: action_separator_def is_space_def)
  then show "\<not> lower_or_digit c" "\<not> upper_char c" "lower_char c = c"
    by (auto simp: lower_or_digit_def upper_char_def lower_char_def)
qed

lemma camel_sep_Cons: "action_separator c \<Longrightarrow> camel_split (c # s) = c # camel_split s"
  using separator_chars(1) by (cases s) simp_all

lemma camel_sep_snoc: "action_separator c \<Longrightarrow> camel_split (s @ [c]) = camel_split s @ [c]"
  using separator_chars(2) by (induction s rule: camel_split.induct) auto

definition name_words :: "string \<Rightarrow> string list" where
  "name_words v = words_of (to_lower (camel_split v))"

lemma space_separates: "is_space c \<Longrightarrow> action_separator c"
  by (simp add: action_separator_def)

lemma name_words_Cons: "is_space c \<Longrightarrow> name_words (c # s) = name_words s"
  using separator_chars(3) space_separates
  by (simp add: name_words_def camel_sep_Cons to_lower_def)

lemma name_words_snoc: "is_space c \<Longrightarrow> name_words (s @ [c]) = name_words s"
  using separator_chars(3) space_separates
  by (simp add: name_words_def camel_sep_snoc to_lower_def words_of_snoc)

lemma name_words_drop: "name_words (dropWhile is_space s) = name_words s"
  by (induction s) (simp_all add: name_words_Cons)

lemma name_words_trim: "name_words (trim s) = name_words s"
proof -
  have right: "name_words (rev (dropWhile is_space (rev s))) = name_words s" for s
    by (induction s rule: rev_induct) (simp_all add: name_words_snoc)
  show ?thesis unfolding trim_def right name_words_drop ..
qed

lemma normalize_words: "normalizeActionType v = join_with ''_'' (name_words v)"
  unfolding normalizeActionType_def collapse_words using name_words_trim by (simp add: name_words_def)

lemma words_of_word_append:
  "w \<noteq> [] \<Longrightarrow> \<forall>d \<in> set w. \<not> action_separator d \<Longrightarrow> action_separator c \<Longrightarrow>
   words_of (w @ c # s) = w # words_of s"
  by (cases w) (auto simp: takeWhile_append2 takeWhile_tail dropWhile_append2)

lemma words_of_word:
  "w \<noteq> [] \<Longrightarrow> \<forall>d \<in> set w. \<not> action_separator d \<Longrightarrow> words_of w = [w]"
  by (cases w) (auto simp: takeWhile_eq_all_conv [THEN iffD2] dropWhile_eq_Nil_conv [THEN iffD2])

lemma words_of_join:
  "\<forall>w \<in> set ws. w \<noteq> [] \<and> (\<forall>d \<in> set w. \<not> action_separator d) \<Longrightarrow>
   words_of (join_with ''_'' ws) = ws"
proof (induction "''_''" ws rule: join_with.induct)
  case (3 s t ss)
  then show ?case using underscore_separates by (simp add: words_of_word_append del: words_of.simps)
qed (simp_all add: words_of_word del: words_of.simps(2))

lemma words_of_chars: "w \<in> set (words_of s) \<Longrightarrow> set w \<subseteq> set s"
proof (induction s rule: words_of.induct)
  case (2 c s)
  consider "w \<in> set (words_of s)" "action_separator c"
    | "w \<in> set (words_of (dropWhile (\<lambda>d. \<not> action_separator d) s))" "\<not> action_separator c"
    | "w = c # takeWhile (\<lambda>d. \<not> action_separator d) s" "\<not> action_separator c"
    using 2(3) by (simp split: if_splits) blast
  then show ?case
  proof cases
    case 1
    then show ?thesis using 2(1) by auto
  next
    case 2
    then show ?thesis using "2.IH"(2) by (auto dest: set_dropWhileD)
  next
    case 3
    then show ?thesis by (auto dest: set_takeWhileD)
  qed
qed simp

lemma set_join: "set (join_with sep ws) \<subseteq> set sep \<union> \<Union> (set ` set ws)"
  by (induction sep ws rule: join_with.induct) auto

lemma camel_no_upper: "\<forall>c \<in> set s. \<not> upper_char c \<Longrightarrow> camel_split s = s"
  by (induction s rule: camel_split.induct) auto

lemma lower_no_upper: "\<not> upper_char c \<Longrightarrow> lower_char c = c"
  by (auto simp: lower_char_def upper_char_def Let_def)

lemma no_upper_lower: "\<not> upper_char (lower_char c)"
proof -
  have "(of_char (char_of (of_char c + 32 :: nat) :: char) :: nat) = of_char c + 32"
    if "(of_char c :: nat) \<le> 90"
    using that by (simp add: of_char_of)
  then show ?thesis by (auto simp: upper_char_def lower_char_def Let_def)
qed

lemma name_words_normal: "name_words (normalizeActionType v) = name_words v"
proof -
  have "\<not> upper_char c" if "c \<in> set (normalizeActionType v)" for c
  proof -
    have "c = CHR ''_'' \<or> c \<in> set (to_lower (camel_split v))"
      using that set_join words_of_chars unfolding normalize_words name_words_def by fastforce
    then show ?thesis using no_upper_lower by (auto simp: to_lower_def upper_char_def)
  qed
  then have "to_lower (camel_split (normalizeActionType v)) = normalizeActionType v"
    by (simp add: camel_no_upper to_lower_def lower_no_upper map_idI)
  then show ?thesis
    unfolding name_words_def [of "normalizeActionType v"] by (simp add: normalize_words)
      (rule words_of_join, use words_of_nonempty in \<open>auto simp: name_words_def\<close>)
qed

lemma no_empty_integration: "\<not> isAccountBackedIntegrationIdentifier []"
  by (simp add: isAccountBackedIntegrationIdentifier_def isGoogleIntegrationIdentifier_def
      isMicrosoftIntegrationIdentifier_def MICROSOFT_INTEGRATION_TOKENS_def GOOGLE_INTEGRATION_TOKENS_def
      normalizeIntegrationToken_def trim_def to_lower_def)

lemma label_email_normal: "normalizeActionType ''label_email'' = ''label_email''"
  by code_simp

text \<open>A name with every separator written as an underscore.\<close>

definition underscored :: "string \<Rightarrow> string" where
  "underscored s = map (\<lambda>c. if action_separator c then CHR ''_'' else c) s"

lemma words_of_underscored: "words_of (underscored s) = words_of s"
proof (induction s rule: words_of.induct)
  case (2 c s)
  have "takeWhile (\<lambda>d. \<not> action_separator d) (underscored s) = takeWhile (\<lambda>d. \<not> action_separator d) s" for s
    by (induction s) (simp_all add: underscored_def underscore_separates)
  moreover have "dropWhile (\<lambda>d. \<not> action_separator d) (underscored s)
      = underscored (dropWhile (\<lambda>d. \<not> action_separator d) s)" for s
    by (induction s) (simp_all add: underscored_def underscore_separates)
  ultimately show ?case
    using 2 by (cases "action_separator c") (simp_all add: underscored_def underscore_separates)
qed (simp add: underscored_def)

lemma name_words_underscored: "name_words (underscored v) = name_words v"
proof -
  have camel: "camel_split (underscored v) = underscored (camel_split v)" for v
    using separator_chars underscore_separates
    by (induction v rule: camel_split.induct) (auto simp: underscored_def)
  have lower: "to_lower (underscored v) = underscored (to_lower v)" for v
  proof -
    have "action_separator (lower_char c) \<Longrightarrow> \<not> action_separator c \<Longrightarrow> False" for c
    proof -
      assume a: "action_separator (lower_char c)" "\<not> action_separator c"
      then have "upper_char c" using lower_no_upper by metis
      then have "lower_or_digit (lower_char c)"
        by (auto simp: upper_char_def lower_char_def lower_or_digit_def Let_def of_char_of)
      then show False using separator_chars(1) a by blast
    qed
    then show ?thesis
      using separator_chars(3) underscore_separates by (auto simp: to_lower_def underscored_def)
  qed
  show ?thesis unfolding name_words_def camel lower words_of_underscored ..
qed

lemma action_type_words:
  "name_words a = name_words b \<Longrightarrow> isAccountBackedActionType a = isAccountBackedActionType b"
  by (simp add: isAccountBackedActionType_def isGoogleAccountActionType_def normalize_words)

lemma lower_char_cases: "lower_char c = c \<or> (upper_char c \<and> lower_or_digit (lower_char c))"
  using lower_no_upper by (auto simp: upper_char_def lower_char_def lower_or_digit_def Let_def of_char_of)

section \<open>Identifiers without their separators\<close>

definition bare :: "string \<Rightarrow> string" where
  "bare v = to_lower (filter (\<lambda>c. \<not> id_separator c) v)"

lemma id_separator_lower: "id_separator (lower_char c) = id_separator c"
proof -
  have id: "id_separator c = (action_separator c \<and> c \<noteq> CHR '':'')" for c
    by (auto simp: id_separator_def action_separator_def is_space_def)
  show ?thesis using separator_chars lower_char_cases [of c] unfolding id by metis
qed

lemma filter_trim: "filter (\<lambda>c. \<not> id_separator c) (trim v) = filter (\<lambda>c. \<not> id_separator c) v"
proof -
  have left: "filter (\<lambda>c. \<not> id_separator c) (dropWhile is_space s) = filter (\<lambda>c. \<not> id_separator c) s" for s
    by (induction s) (simp_all add: id_separator_def)
  have "filter (\<lambda>c. \<not> id_separator c) (rev (dropWhile is_space (rev s))) = filter (\<lambda>c. \<not> id_separator c) s" for s
    unfolding rev_filter [symmetric] left by simp
  then show ?thesis unfolding trim_def using left by simp
qed

lemma normalize_bare: "normalizeIntegrationToken v = bare v"
proof -
  have "filter (\<lambda>c. \<not> id_separator c) (to_lower s) = to_lower (filter (\<lambda>c. \<not> id_separator c) s)" for s
    by (simp add: to_lower_def filter_map comp_def id_separator_lower)
  then show ?thesis by (simp add: normalizeIntegrationToken_def bare_def filter_trim)
qed

lemma bare_idem: "bare (bare w) = bare w"
proof -
  have "lower_char (lower_char c) = lower_char c" for c
    using no_upper_lower lower_no_upper by blast
  then show ?thesis
    by (simp add: bare_def to_lower_def filter_map comp_def id_separator_lower)
qed

lemma split_bare: "split_on CHR '':'' (bare v) = map bare (split_on CHR '':'' v)"
proof (induction v)
  case (Cons c v)
  have colon: "lower_char c = CHR '':'' \<longleftrightarrow> c = CHR '':''" "\<not> id_separator CHR '':''"
    using lower_char_cases [of c] separator_chars [of "CHR '':''"]
    by (auto simp: action_separator_def id_separator_def is_space_def)
  show ?case
    using Cons colon split_on_nonempty
    by (cases "split_on CHR '':'' v") (auto simp: bare_def to_lower_def)
qed (simp add: bare_def to_lower_def)

lemma identifier_bare:
  "isAccountBackedIntegrationIdentifier (bare v) = isAccountBackedIntegrationIdentifier v"
  by (simp add: isAccountBackedIntegrationIdentifier_def isGoogleIntegrationIdentifier_def
      isMicrosoftIntegrationIdentifier_def split_bare normalize_bare list_ex_iff bare_idem)

section \<open>Spellings of a name\<close>

text \<open>
  A plain word: at least two characters, a lower-case letter first, then lower-case letters and digits.
  A name of several words is spelled in camel case, in Pascal case, or with separators.
\<close>

definition plain_word :: "string \<Rightarrow> bool" where
  "plain_word w \<longleftrightarrow> 2 \<le> length w \<and> list_all lower_or_digit w \<and> 97 \<le> (of_char (hd w) :: nat)"

definition capitalise :: "string \<Rightarrow> string" where
  "capitalise w = (case w of [] \<Rightarrow> [] | c # t \<Rightarrow> char_of (of_char c - 32 :: nat) # t)"

definition pascal_case :: "string list \<Rightarrow> string" where
  "pascal_case ws = concat (map capitalise ws)"

definition camel_case :: "string list \<Rightarrow> string" where
  "camel_case ws = (case ws of [] \<Rightarrow> [] | w # ws' \<Rightarrow> w @ pascal_case ws')"

lemma lower_or_digit_facts:
  assumes "lower_or_digit c"
  shows "\<not> upper_char c" "\<not> action_separator c" "lower_char c = c"
proof -
  show u: "\<not> upper_char c" using assms by (auto simp: lower_or_digit_def upper_char_def Let_def)
  show "\<not> action_separator c" using assms separator_chars(1) by blast
  show "lower_char c = c" using u by (rule lower_no_upper)
qed

lemma plain_word_facts:
  assumes "plain_word w"
  shows "w \<noteq> []" "\<forall>c \<in> set w. \<not> upper_char c \<and> \<not> action_separator c" "to_lower w = w"
  using assms lower_or_digit_facts by (auto simp: plain_word_def list_all_iff to_lower_def map_idI)

lemma capitalise_cases:
  assumes "plain_word w"
  obtains c t where "capitalise w = c # t" "upper_char c" "\<not> lower_or_digit c" "t \<noteq> []"
    "list_all lower_or_digit t" "to_lower (c # t) = w"
proof -
  obtain d t where w: "w = d # t" using plain_word_facts(1) [OF assms] by (cases w) auto
  have d: "97 \<le> (of_char d :: nat)" "(of_char d :: nat) \<le> 122" and t: "t \<noteq> []" "list_all lower_or_digit t"
    using assms by (auto simp: w plain_word_def lower_or_digit_def Let_def)
  let ?c = "char_of (of_char d - 32 :: nat) :: char"
  have c: "(of_char ?c :: nat) = of_char d - 32" using d by (simp add: of_char_of)
  have "upper_char ?c" "\<not> lower_or_digit ?c" using d c by (auto simp: upper_char_def lower_or_digit_def Let_def)
  moreover have "65 \<le> (of_char d - 32 :: nat)" "(of_char d - 32 :: nat) \<le> 90" using d by linarith+
  then have "lower_char ?c = d" using d c by (simp add: lower_char_def Let_def)
  moreover have "to_lower t = t" using t(2) lower_or_digit_facts by (simp add: to_lower_def list_all_iff map_idI)
  ultimately show thesis using that [of ?c t] t by (simp add: w capitalise_def to_lower_def)
qed

lemma camel_split_word:
  "list_all lower_or_digit w \<Longrightarrow> w \<noteq> [] \<Longrightarrow>
   camel_split (w @ s) = w @ (if s \<noteq> [] \<and> upper_char (hd s) then CHR ''_'' # camel_split s else camel_split s)"
proof (induction w)
  case (Cons c w)
  show ?case
  proof (cases w)
    case Nil
    then show ?thesis using Cons.prems by (cases s) auto
  next
    case (Cons d t)
    then have "\<not> upper_char d" using Cons.prems lower_or_digit_facts by simp
    then show ?thesis using Cons Cons.IH Cons.prems by simp
  qed
qed simp

lemma pascal_head: "list_all plain_word ws \<Longrightarrow> ws \<noteq> [] \<Longrightarrow> pascal_case ws \<noteq> [] \<and> upper_char (hd (pascal_case ws))"
  by (cases ws) (auto simp: pascal_case_def elim: capitalise_cases)

lemma camel_split_pascal:
  "list_all plain_word ws \<Longrightarrow> camel_split (pascal_case ws) = join_with ''_'' (map capitalise ws)"
proof (induction ws)
  case (Cons w ws)
  then obtain c t where w: "capitalise w = c # t" "\<not> lower_or_digit c" "t \<noteq> []" "list_all lower_or_digit t"
    by (auto elim: capitalise_cases)
  have p: "pascal_case (w # ws) = c # t @ pascal_case ws" by (simp add: pascal_case_def w)
  have first: "camel_split (c # t @ s) = c # camel_split (t @ s)" for s
    using w by (cases t) auto
  show ?case
    using Cons pascal_head [of ws] unfolding p first camel_split_word [OF w(4,3)]
    by (cases ws) (auto simp: w pascal_case_def)
qed (simp add: pascal_case_def)

lemma camel_split_camel:
  assumes "list_all plain_word (w # ws)"
  shows "camel_split (camel_case (w # ws)) = join_with ''_'' (w # map capitalise ws)"
proof -
  have w: "list_all lower_or_digit w" "w \<noteq> []" using assms by (auto simp: plain_word_def)
  show ?thesis
    using assms pascal_head [of ws] camel_split_pascal [of ws] camel_split_word [OF w, of "pascal_case ws"]
    by (cases ws) (simp_all add: camel_case_def pascal_case_def)
qed

lemma to_lower_join: "to_lower (join_with ''_'' ws) = join_with ''_'' (map to_lower ws)"
proof (induction "''_''" ws rule: join_with.induct)
  case (3 s t ss)
  have "lower_char CHR ''_'' = CHR ''_''" by (simp add: lower_char_def)
  then show ?case using 3 by (simp add: to_lower_def)
qed (simp_all add: to_lower_def)

lemma to_lower_capitalised: "list_all plain_word ws \<Longrightarrow> map to_lower (map capitalise ws) = ws"
  by (induction ws) (auto elim: capitalise_cases)

lemma words_of_separated:
  "\<forall>w \<in> set ws. w \<noteq> [] \<and> (\<forall>d \<in> set w. \<not> action_separator d) \<Longrightarrow> sep \<noteq> [] \<Longrightarrow> \<forall>c \<in> set sep. action_separator c \<Longrightarrow>
   words_of (join_with sep ws) = ws"
proof (induction sep ws rule: join_with.induct)
  case (3 sep s t ss)
  then obtain c sep' where sep: "sep = c # sep'" by (cases sep) auto
  have skip: "words_of (sep' @ r) = words_of r" for r
    using 3(4) unfolding sep by (induction sep') auto
  have "words_of (s @ c # sep' @ join_with sep (t # ss)) = s # words_of (sep' @ join_with sep (t # ss))"
    using 3 sep by (intro words_of_word_append) auto
  then show ?case using 3 skip by (simp add: sep)
qed (simp_all add: words_of_word del: words_of.simps(2))

lemma name_words_spelled:
  assumes "list_all plain_word ws" "sep \<noteq> []" "\<forall>c \<in> set sep. action_separator c"
  shows "name_words (camel_case ws) = ws" "name_words (pascal_case ws) = ws" "name_words (join_with sep ws) = ws"
proof -
  have ok: "\<forall>w \<in> set ws. w \<noteq> [] \<and> (\<forall>d \<in> set w. \<not> action_separator d)"
    using assms(1) plain_word_facts by (auto simp: list_all_iff)
  show "name_words (camel_case ws) = ws"
  proof (cases ws)
    case Nil
    then show ?thesis by (simp add: name_words_def camel_case_def to_lower_def)
  next
    case (Cons w ws')
    then have "map to_lower (w # map capitalise ws') = ws"
      using assms(1) to_lower_capitalised [of ws'] plain_word_facts(3) [of w] by simp
    then have "to_lower (camel_split (camel_case ws)) = join_with ''_'' ws"
      using camel_split_camel [of w ws'] assms(1) Cons to_lower_join by simp
    then show ?thesis using words_of_join [OF ok] by (simp add: name_words_def)
  qed
  show "name_words (pascal_case ws) = ws"
    using camel_split_pascal [OF assms(1)] to_lower_join to_lower_capitalised [OF assms(1)] words_of_join [OF ok]
    by (simp add: name_words_def)
  have chars: "c \<in> set sep \<or> (\<exists>w \<in> set ws. c \<in> set w)" if "c \<in> set (join_with sep ws)" for c
    using that set_join by fastforce
  then have up: "\<forall>c \<in> set (join_with sep ws). \<not> upper_char c"
    using assms(1,3) separator_chars(2) plain_word_facts(2) by (fastforce simp: list_all_iff)
  then have "to_lower (camel_split (join_with sep ws)) = join_with sep ws"
    by (simp add: camel_no_upper to_lower_def lower_no_upper map_idI)
  then show "name_words (join_with sep ws) = ws"
    using words_of_separated [OF ok assms(2,3)] by (simp add: name_words_def)
qed

text \<open>
  C30: no spelling escapes the account boundary. A name of plain words is recognised as an account
  action exactly when its underscored form is, however it is spelled: in camel case, in Pascal case,
  or with any separators between the words; any action type is recognised exactly when its normal form is
  and when the name with every separator replaced by an underscore is; and an integration is recognised
  exactly when its identifier in lower case without separators is.
\<close>

theorem boundary_spelling:
  assumes "list_all plain_word ws" "sep \<noteq> []" "\<forall>c \<in> set sep. action_separator c"
  shows "isAccountBackedActionType (camel_case ws) = isAccountBackedActionType (join_with ''_'' ws) \<and>
   isAccountBackedActionType (pascal_case ws) = isAccountBackedActionType (join_with ''_'' ws) \<and>
   isAccountBackedActionType (join_with sep ws) = isAccountBackedActionType (join_with ''_'' ws) \<and>
   isAccountBackedActionType (normalizeActionType a) = isAccountBackedActionType a \<and>
   isAccountBackedActionType (underscored a) = isAccountBackedActionType a \<and>
   isAccountBackedIntegrationIdentifier (to_lower (filter (\<lambda>c. \<not> id_separator c) v))
     = isAccountBackedIntegrationIdentifier v"
proof -
  have snake: "name_words (join_with ''_'' ws) = ws"
    using name_words_spelled(3) [OF assms(1), of "''_''"] underscore_separates by simp
  have same: "isAccountBackedActionType s = isAccountBackedActionType (join_with ''_'' ws)" if "name_words s = ws" for s
    using action_type_words [of s "join_with ''_'' ws"] that snake by simp
  note spelled = name_words_spelled [OF assms]
  show ?thesis
    using same [OF spelled(1)] same [OF spelled(2)] same [OF spelled(3)] action_type_words [OF name_words_normal]
      action_type_words [OF name_words_underscored] identifier_bare [unfolded bare_def]
    by blast
qed

theorem boundary_spelling_witness:
  "isAccountBackedActionType ''sendEmail'' \<and> isAccountBackedActionType ''SendEmail'' \<and>
   isAccountBackedActionType ''send-email''"
proof -
  have plain: "list_all plain_word [''send'', ''email'']"
    by (simp add: plain_word_def lower_or_digit_def)
  have sep: "''-'' \<noteq> []" "\<forall>c \<in> set ''-''. action_separator c" by (simp_all add: action_separator_def)
  have spelled: "camel_case [''send'', ''email''] = ''sendEmail''" "pascal_case [''send'', ''email''] = ''SendEmail''"
    "join_with ''-'' [''send'', ''email''] = ''send-email''" "join_with ''_'' [''send'', ''email''] = ''send_email''"
    by code_simp+
  have "isAccountBackedActionType ''send_email''" by code_simp
  then show ?thesis using boundary_spelling [OF plain sep] unfolding spelled by blast
qed

end
