(* ===== verification/AdapterDiscovery.thy ===== *)
theory AdapterDiscovery
  imports ExecutionRouter PreviewBoundary
begin

text \<open>
  Discovered adapter plugins: \<open>packages/execution-router/src/adapter-manifest.ts\<close> and the scan of
  \<open>adapter-discovery.ts\<close>, and the order of trust among built-in and discovered adapters. What
  the file system and the plugin's own module give is a parameter: the parsed manifest (none when
  it is missing or no JSON), whether the entry point exists and lies inside the plugin's
  directory, and the adapter its factory returns (none when there is no factory, when it throws or
  when the result lacks a method of the contract).
\<close>

section \<open>Manifests\<close>

record adapter_manifest =
  mf_name :: string
  mf_version :: string
  mf_entryPoint :: string
  mf_reversibilityGuarantee :: reversibility_guarantee
  mf_authModel :: auth_model
  mf_auditTrail :: bool
  mf_riskModifier :: int
  mf_skills :: "string list"
  mf_healthEndpoint :: "string option"
  mf_defaultConfig :: "jsobj option"

definition guarantee_of :: "jsval \<Rightarrow> reversibility_guarantee option" where
  "guarantee_of v =
     (if v = JStr ''full'' then Some rg_full else if v = JStr ''partial'' then Some rg_partial
      else if v = JStr ''none'' then Some rg_none else None)"

definition auth_of :: "jsval \<Rightarrow> auth_model option" where
  "auth_of v =
     (if v = JStr ''hmac'' then Some am_hmac else if v = JStr ''oauth'' then Some am_oauth
      else if v = JStr ''api_key'' then Some am_api_key else if v = JStr ''none'' then Some am_none
      else None)"

definition manifest_risk :: "jsval \<Rightarrow> int" where
  "manifest_risk v = (case v of
     JNum (Fin x) \<Rightarrow> max \<lfloor>x + 1 / 2\<rfloor> 2
   | _ \<Rightarrow> 2)"

definition nonempty_string :: "jsval \<Rightarrow> bool" where
  "nonempty_string v \<longleftrightarrow> is_string v \<and> v \<noteq> JStr []"

definition the_string :: "jsval \<Rightarrow> string" where
  "the_string v = (case v of JStr s \<Rightarrow> s | _ \<Rightarrow> [])"

definition is_object :: "jsval \<Rightarrow> bool" where
  "is_object v = (case v of JObj _ \<Rightarrow> True | JArr _ \<Rightarrow> True | _ \<Rightarrow> False)"

definition validateManifest :: "jsval \<Rightarrow> string + adapter_manifest" where
  "validateManifest v =
     (let field = prop_of v; tp = prop_of v ''trustProfile''; profile = prop_of tp in
      if \<not> is_object v then Inl ''Manifest must be a JSON object''
      else if \<not> nonempty_string (field ''name'') then Inl ''Manifest must have a non-empty name string''
      else if \<not> is_string (field ''version'') then Inl ''Manifest must have a version string''
      else if \<not> nonempty_string (field ''entryPoint'')
      then Inl ''Manifest must have a non-empty entryPoint string''
      else (case field ''skills'' of
        JArr skills \<Rightarrow>
          if \<not> is_object tp then Inl ''Manifest must have a trustProfile object''
          else (case guarantee_of (profile ''reversibilityGuarantee'') of
            None \<Rightarrow> Inl ''trustProfile.reversibilityGuarantee must be full|partial|none''
          | Some guarantee \<Rightarrow>
            (case auth_of (profile ''authModel'') of
              None \<Rightarrow> Inl ''trustProfile.authModel must be hmac|oauth|api_key|none''
            | Some auth \<Rightarrow> Inr
                \<lparr> mf_name = the_string (field ''name''), mf_version = the_string (field ''version''),
                  mf_entryPoint = the_string (field ''entryPoint''),
                  mf_reversibilityGuarantee = guarantee, mf_authModel = auth,
                  mf_auditTrail = (profile ''auditTrail'' = JBool True),
                  mf_riskModifier = manifest_risk (profile ''riskModifier''),
                  mf_skills = map the_string (filter is_string skills),
                  mf_healthEndpoint = (case field ''healthEndpoint'' of JStr s \<Rightarrow> Some s | _ \<Rightarrow> None),
                  mf_defaultConfig = (case field ''defaultConfig'' of JObj ob \<Rightarrow> Some ob | _ \<Rightarrow> None) \<rparr>))
      | _ \<Rightarrow> Inl ''Manifest must have a skills array''))"

section \<open>Discovery\<close>

definition RESERVED_ADAPTER_NAMES :: "string list" where
  "RESERVED_ADAPTER_NAMES = [''ironclaw'', ''direct'', ''openclaw'', ''mcp-host'']"

record plugin =
  pl_manifest :: "jsval option"
  pl_entryInside :: "string \<Rightarrow> bool"
  pl_factory :: "jsobj \<Rightarrow> adapter option"

definition profile_of :: "adapter_manifest \<Rightarrow> adapter_trust_profile" where
  "profile_of mf = \<lparr> at_name = mf_name mf, at_reversibilityGuarantee = mf_reversibilityGuarantee mf,
     at_authModel = mf_authModel mf, at_auditTrail = mf_auditTrail mf,
     at_riskModifier = mf_riskModifier mf \<rparr>"

text \<open>
  The body of the loop up to the contract check, and with the registration; a failure of any kind
  skips the plugin. The flag is the option \<open>allowAccountBackedIntegrations\<close>.
\<close>

definition load_plugin :: "bool option \<Rightarrow> plugin \<Rightarrow> (adapter_manifest \<times> adapter) option" where
  "load_plugin allow pl =
     (case pl_manifest pl of None \<Rightarrow> None | Some v \<Rightarrow>
     (case validateManifest v of Inl e \<Rightarrow> None | Inr mf \<Rightarrow>
       if mf_name mf \<in> set RESERVED_ADAPTER_NAMES then None
       else if allow = Some False \<and>
         (mf_authModel mf = am_oauth \<or>
          isAccountBackedIntegration \<lparr> ii_key = None, ii_adapter = Some (mf_name mf),
            ii_integration = None, ii_skills = Some (mf_skills mf) \<rparr>) then None
       else if \<not> pl_entryInside pl (mf_entryPoint mf) then None
       else map_option (Pair mf)
         (pl_factory pl (case mf_defaultConfig mf of Some ob \<Rightarrow> ob | None \<Rightarrow> []))))"

type_synonym discovered = "registry \<times> (adapter_manifest \<times> adapter) list"

definition discover_plugin :: "bool option \<Rightarrow> discovered \<Rightarrow> plugin \<Rightarrow> discovered" where
  "discover_plugin allow s pl =
     (case load_plugin allow pl of None \<Rightarrow> s | Some (mf, a) \<Rightarrow>
     (case registry_register (mf_name mf) a (profile_of mf) (Some (mf_skills mf)) (fst s) of
       None \<Rightarrow> s
     | Some rg \<Rightarrow> (rg, snd s @ [(mf, a)])))"

text \<open>The subdirectories in order; None is a directory that is missing or cannot be read.\<close>

definition discoverAdapters ::
    "bool option \<Rightarrow> plugin list option \<Rightarrow> registry \<Rightarrow> discovered" where
  "discoverAdapters allow dir rg =
     (case dir of None \<Rightarrow> (rg, []) | Some pls \<Rightarrow> run (discover_plugin allow) (rg, []) pls)"

lemma manifest_risk_least: "2 \<le> manifest_risk v"
  by (auto simp: manifest_risk_def split: jsval.splits number.splits)

lemma validated_risk: "validateManifest v = Inr mf \<Longrightarrow> 2 \<le> mf_riskModifier mf"
  using manifest_risk_least
  by (auto simp only: validateManifest_def Let_def adapter_manifest.select_convs sum.inject sum.distinct
      split: if_splits jsval.splits option.splits)

definition account_free :: "adapter_manifest \<Rightarrow> bool" where
  "account_free mf \<longleftrightarrow> mf_authModel mf \<noteq> am_oauth \<and>
     \<not> isAccountBackedIntegrationIdentifier (mf_name mf) \<and>
     \<not> list_ex isAccountBackedActionType (mf_skills mf)"

lemma loaded_plugin:
  assumes "load_plugin allow pl = Some (mf, a)"
  shows "mf_name mf \<notin> set RESERVED_ADAPTER_NAMES" "2 \<le> mf_riskModifier mf"
    "allow = Some False \<Longrightarrow> account_free mf"
  using assms validated_risk
  by (auto simp: load_plugin_def account_free_def isAccountBackedIntegration_def
      split: option.splits sum.splits if_splits)

lemma discover_cases:
  obtains "discover_plugin allow s pl = s"
  | mf a rg where "load_plugin allow pl = Some (mf, a)"
      "registry_register (mf_name mf) a (profile_of mf) (Some (mf_skills mf)) (fst s) = Some rg"
      "discover_plugin allow s pl = (rg, snd s @ [(mf, a)])"
proof (cases "load_plugin allow pl")
  case None
  then show ?thesis using that(1) by (simp add: discover_plugin_def)
next
  case (Some x)
  obtain mf a where x: "x = (mf, a)" by (cases x)
  show ?thesis
    using that Some
    by (cases "registry_register (mf_name mf) a (profile_of mf) (Some (mf_skills mf)) (fst s)")
      (simp_all add: discover_plugin_def x)
qed

text \<open>What a registry with plugins owes to the one without.\<close>

definition extends_safely :: "registry \<Rightarrow> registry \<Rightarrow> bool" where
  "extends_safely rg rg' \<longleftrightarrow>
     (\<forall>n \<in> set RESERVED_ADAPTER_NAMES. registry_get rg' n = registry_get rg n \<and>
        getRevision rg' n = getRevision rg n \<and> (\<forall>ty. canHandle rg' n ty = canHandle rg n ty)) \<and>
     (\<forall>n e. n \<notin> set RESERVED_ADAPTER_NAMES \<longrightarrow> registry_get rg' n = Some e \<longrightarrow>
        registry_get rg n = Some e \<or> 2 \<le> at_riskModifier (ae_trustProfile e))"

definition discovery_inv :: "bool option \<Rightarrow> registry \<Rightarrow> discovered \<Rightarrow> bool" where
  "discovery_inv allow rg s \<longleftrightarrow> extends_safely rg (fst s) \<and>
     (allow = Some False \<longrightarrow> list_all (\<lambda>(mf, a). account_free mf) (snd s)) \<and>
     (\<forall>n. registry_get (fst s) n \<noteq> registry_get rg n \<longrightarrow> n \<in> (\<lambda>(mf, a). mf_name mf) ` set (snd s))"

lemma extends_step:
  assumes ext: "extends_safely rg s" and pl: "load_plugin allow pl = Some (mf, a)"
    and reg: "registry_register (mf_name mf) a (profile_of mf) (Some (mf_skills mf)) s = Some t"
  shows "extends_safely rg t"
proof -
  note mf = loaded_plugin(1,2) [OF pl]
  have "registry_get rg n = Some e \<or> 2 \<le> at_riskModifier (ae_trustProfile e)"
    if "n \<notin> set RESERVED_ADAPTER_NAMES" "registry_get t n = Some e" for n e
    using that ext register_other [OF reg, of n] register_same(2) [OF reg] mf(2)
    by (cases "n = mf_name mf") (auto simp: extends_safely_def profile_of_def)
  moreover have "n \<noteq> mf_name mf" if "n \<in> set RESERVED_ADAPTER_NAMES" for n using that mf(1) by blast
  ultimately show ?thesis using ext register_other [OF reg] unfolding extends_safely_def by simp
qed

lemma discovery_step: "discovery_inv allow rg s \<Longrightarrow> discovery_inv allow rg (discover_plugin allow s pl)"
proof -
  assume inv: "discovery_inv allow rg s"
  show ?thesis
  proof (rule discover_cases [of allow s pl])
    fix mf a t
    assume pl: "load_plugin allow pl = Some (mf, a)"
      and reg: "registry_register (mf_name mf) a (profile_of mf) (Some (mf_skills mf)) (fst s) = Some t"
      and new: "discover_plugin allow s pl = (t, snd s @ [(mf, a)])"
    have "extends_safely rg t" using inv by (intro extends_step [OF _ pl reg]) (simp add: discovery_inv_def)
    moreover have "n = mf_name mf \<or> registry_get t n = registry_get (fst s) n" for n
      using register_other [OF reg] by blast
    ultimately show ?thesis
      using inv loaded_plugin(3) [OF pl] unfolding new discovery_inv_def fst_conv snd_conv
      by (auto simp: image_iff) metis+
  qed (use inv in simp)
qed

interpretation discovering: state_machine "discover_plugin allow" "discovery_inv allow rg"
  for allow rg
  by unfold_locales (rule discovery_step)

lemma discovery_result: "discovery_inv allow rg (discoverAdapters allow dir rg)"
proof -
  have "discovery_inv allow rg (rg, [])" by (simp add: discovery_inv_def extends_safely_def)
  then show ?thesis
    using discovering.run_inv by (auto simp: discoverAdapters_def split: option.split)
qed

lemma discover_extends: "extends_safely rg (fst (discoverAdapters allow dir rg))"
  using discovery_result by (simp add: discovery_inv_def)

section \<open>The order of trust\<close>

lemma builtin_index_iff: "builtin_index n = - 1 \<longleftrightarrow> n \<notin> set BUILTIN_TRUST_RANKING"
  by (simp add: builtin_index_def)

lemma trust_compare_iff:
  "trust_compare rg a b \<le> 0 \<longleftrightarrow>
     (if a \<in> set BUILTIN_TRUST_RANKING
      then b \<in> set BUILTIN_TRUST_RANKING \<longrightarrow> builtin_index a \<le> builtin_index b
      else b \<notin> set BUILTIN_TRUST_RANKING \<and> risk_modifier_of rg a \<le> risk_modifier_of rg b)"
  by (simp add: trust_compare_def Let_def builtin_index_iff)

lemma sortByTrust_sorted: "sorted_wrt (\<lambda>a b. trust_compare rg a b \<le> 0) (sortByTrust rg ns)"
  unfolding sortByTrust_def
  by (rule sort_by_sorted) (auto simp: trust_compare_iff split: if_splits)

lemma set_sortByTrust: "set (sortByTrust rg ns) = set ns"
  by (simp add: sortByTrust_def)

text \<open>
  plugins never take the place of a built-in adapter: whatever manifests and factories are
  found, the adapters, skills and revisions of the reserved names are untouched, every plugin
  adds at least two risk levels, and no plugin comes before a reserved adapter in the order of
  trust.
\<close>

theorem plugins_rank_last:
  assumes "\<forall>(n, e) \<in> set (rg_entries rg). n \<in> set RESERVED_ADAPTER_NAMES"
    and "\<forall>e. registry_get rg ''mcp-host'' = Some e \<longrightarrow> at_riskModifier (ae_trustProfile e) \<le> 1"
  shows "let rg' = fst (discoverAdapters allow dir rg); order = sortByTrust rg' (getCapableAdapters rg' ty) in
    (\<forall>n \<in> set RESERVED_ADAPTER_NAMES. registry_get rg' n = registry_get rg n \<and>
       canHandle rg' n ty = canHandle rg n ty) \<and>
    (\<forall>n \<in> set order. n \<notin> set RESERVED_ADAPTER_NAMES \<longrightarrow> 2 \<le> risk_modifier_of rg' n) \<and>
    (\<forall>i j. i < j \<and> j < length order \<and> order ! j \<in> set RESERVED_ADAPTER_NAMES \<longrightarrow>
       order ! i \<in> set RESERVED_ADAPTER_NAMES)"
proof -
  define rg' where "rg' = fst (discoverAdapters allow dir rg)"
  define order where "order = sortByTrust rg' (getCapableAdapters rg' ty)"
  have ext: "extends_safely rg rg'" unfolding rg'_def by (rule discover_extends)
  have plugin: "2 \<le> risk_modifier_of rg' n"
    if "n \<in> set order" "n \<notin> set RESERVED_ADAPTER_NAMES" for n
  proof -
    have "canHandle rg' n ty" using that(1) by (simp add: order_def set_sortByTrust getCapableAdapters_def)
    then obtain e where e: "registry_get rg' n = Some e" by (auto simp: canHandle_def split: option.splits)
    have "registry_get rg n = None"
      using assms(1) that(2) unfolding registry_get_def map_of_eq_None_iff by auto
    then show ?thesis using ext that(2) e by (auto simp: extends_safely_def risk_modifier_of_def)
  qed
  have "order ! i \<in> set RESERVED_ADAPTER_NAMES"
    if ij: "i < j" "j < length order" "order ! j \<in> set RESERVED_ADAPTER_NAMES" for i j
  proof (rule ccontr)
    assume not_reserved: "order ! i \<notin> set RESERVED_ADAPTER_NAMES"
    have le: "trust_compare rg' (order ! i) (order ! j) \<le> 0"
      using sorted_wrt_nth_less [OF sortByTrust_sorted ij(1)] ij(2) unfolding order_def by blast
    have in_order: "order ! i \<in> set order" "order ! j \<in> set order" using ij by auto
    have "order ! i \<notin> set BUILTIN_TRUST_RANKING"
      using not_reserved by (auto simp: RESERVED_ADAPTER_NAMES_def BUILTIN_TRUST_RANKING_def)
    then have j: "order ! j \<notin> set BUILTIN_TRUST_RANKING"
      "risk_modifier_of rg' (order ! i) \<le> risk_modifier_of rg' (order ! j)"
      using le by (auto simp: trust_compare_iff)
    then have mcp: "order ! j = ''mcp-host''"
      using ij(3) by (auto simp: RESERVED_ADAPTER_NAMES_def BUILTIN_TRUST_RANKING_def)
    have "canHandle rg' (order ! j) ty"
      using in_order(2) by (simp add: order_def set_sortByTrust getCapableAdapters_def)
    then obtain e where e: "registry_get rg' ''mcp-host'' = Some e"
      by (auto simp: mcp canHandle_def split: option.splits)
    then have "registry_get rg ''mcp-host'' = Some e"
      using ext by (simp add: extends_safely_def RESERVED_ADAPTER_NAMES_def)
    then have "risk_modifier_of rg' (order ! j) \<le> 1"
      using assms(2) e by (simp add: mcp risk_modifier_of_def)
    then show False using plugin [OF in_order(1) not_reserved] j(2) by simp
  qed
  then show ?thesis
    using ext plugin unfolding Let_def rg'_def [symmetric] order_def [symmetric] extends_safely_def by blast
qed

text \<open>A plugin that answers every request for the skill \<open>send_fax\<close>.\<close>

definition fax_manifest :: jsval where
  "fax_manifest = JObj [(''name'', JStr ''fax''), (''version'', JStr ''1.0.0''), (''entryPoint'', JStr ''index.js''),
     (''skills'', JArr [JStr ''send_fax'']),
     (''trustProfile'', JObj [(''reversibilityGuarantee'', JStr ''none''), (''authModel'', JStr ''none''),
        (''auditTrail'', JBool False), (''riskModifier'', JNum (Fin 0))])]"

definition fax_plugin :: "adapter \<Rightarrow> plugin" where
  "fax_plugin a = \<lparr> pl_manifest = Some fax_manifest, pl_entryInside = (\<lambda>_. True), pl_factory = (\<lambda>_. Some a) \<rparr>"

theorem plugins_rank_last_witness:
  "registry_get (fst (discoverAdapters None (Some [fax_plugin idle_adapter]) two_adapters)) ''direct''
     = registry_get two_adapters ''direct''"
  using plugins_rank_last [of two_adapters None "Some [fax_plugin idle_adapter]" "''send_email''"]
  by (simp add: two_adapters_def registry_step_def registry_register_def empty_registry_def
      registry_get_def RESERVED_ADAPTER_NAMES_def Let_def)

text \<open>
  with account-backed integrations off, discovery registers no adapter that could reach an
  account: every adapter the registry gains has no OAuth authority, no account integration's name
  and no account-backed skill.
\<close>

theorem discovery_account_free:
  assumes "registry_get (fst (discoverAdapters (Some False) dir rg)) n \<noteq> registry_get rg n"
  shows "\<exists>(mf, a) \<in> set (snd (discoverAdapters (Some False) dir rg)). mf_name mf = n \<and>
    mf_authModel mf \<noteq> am_oauth \<and> \<not> isAccountBackedIntegrationIdentifier n \<and>
    \<not> list_ex isAccountBackedActionType (mf_skills mf)"
  using discovery_result [of "Some False" rg dir] assms
  by (fastforce simp: discovery_inv_def account_free_def list_all_iff)

lemma fax_loaded: "\<exists>mf. load_plugin (Some False) (fax_plugin a) = Some (mf, a) \<and> mf_name mf = ''fax''"
proof -
  have v: "validateManifest fax_manifest = Inr \<lparr> mf_name = ''fax'', mf_version = ''1.0.0'',
      mf_entryPoint = ''index.js'', mf_reversibilityGuarantee = rg_none, mf_authModel = am_none,
      mf_auditTrail = False, mf_riskModifier = 2, mf_skills = [''send_fax''],
      mf_healthEndpoint = None, mf_defaultConfig = None \<rparr>"
    by code_simp
  have "\<not> isAccountBackedIntegration \<lparr> ii_key = None, ii_adapter = Some ''fax'', ii_integration = None,
      ii_skills = Some [''send_fax''] \<rparr>"
    by code_simp
  then show ?thesis
    by (simp add: load_plugin_def fax_plugin_def v RESERVED_ADAPTER_NAMES_def)
qed

theorem discovery_account_free_witness:
  "\<not> isAccountBackedIntegrationIdentifier ''fax'' \<and>
   registry_get (fst (discoverAdapters (Some False) (Some [fax_plugin idle_adapter]) empty_registry))
     ''fax'' \<noteq> None"
proof -
  obtain mf where mf: "load_plugin (Some False) (fax_plugin idle_adapter) = Some (mf, idle_adapter)"
    "mf_name mf = ''fax''" using fax_loaded by blast
  let ?found = "discoverAdapters (Some False) (Some [fax_plugin idle_adapter]) empty_registry"
  have new: "registry_get (fst ?found) ''fax'' \<noteq> None" and old: "registry_get empty_registry ''fax'' = None"
    by (simp_all add: discoverAdapters_def discover_plugin_def mf registry_register_def registry_get_def
        empty_registry_def)
  then show ?thesis using discovery_account_free [of _ empty_registry "''fax''"] by fastforce
qed

end
