(* ===== verification/CircuitBreaker.thy ===== *)
theory CircuitBreaker
  imports Complex_Main Prelude
begin

text \<open>
  The circuit breaker of \<open>packages/core/src/circuit-breaker.ts\<close>: its private fields as a record,
  one definition per method, \<open>withCircuitBreaker\<close>, and what holds of it over any sequence of
  calls. Times are what \<open>Date.now()\<close> returns, in milliseconds; timeouts and the multiplier are
  finite numbers.
\<close>

section \<open>The class\<close>

record breaker_config =
  cf_failureThreshold :: int
  cf_resetTimeoutMs :: rat
  cf_backoffMultiplier :: rat
  cf_maxResetTimeoutMs :: rat

definition DEFAULT_CONFIG :: breaker_config where
  "DEFAULT_CONFIG = \<lparr> cf_failureThreshold = 3, cf_resetTimeoutMs = 300000,
     cf_backoffMultiplier = 2, cf_maxResetTimeoutMs = 1200000 \<rparr>"

datatype circuit_state = closed_circuit | open_circuit | half_open

record breaker =
  br_config :: breaker_config
  br_consecutiveFailures :: int
  br_state :: circuit_state
  br_openedAt :: "int option"
  br_currentResetTimeout :: rat
  br_openCount :: nat
  br_halfOpenProbeInFlight :: bool
  br_name :: string

definition new_breaker :: "string \<Rightarrow> breaker_config \<Rightarrow> breaker" where
  "new_breaker name config = \<lparr> br_config = config, br_consecutiveFailures = 0, br_state = closed_circuit,
     br_openedAt = None, br_currentResetTimeout = cf_resetTimeoutMs config, br_openCount = 0,
     br_halfOpenProbeInFlight = False, br_name = name \<rparr>"

definition elapsed :: "int \<Rightarrow> breaker \<Rightarrow> int" where
  "elapsed now b = now - (case br_openedAt b of Some t \<Rightarrow> t | None \<Rightarrow> 0)"

definition timed_out :: "int \<Rightarrow> breaker \<Rightarrow> bool" where
  "timed_out now b \<longleftrightarrow> br_currentResetTimeout b \<le> of_int (elapsed now b)"

text \<open>The answer and the new state.\<close>

definition canExecute :: "int \<Rightarrow> breaker \<Rightarrow> bool \<times> breaker" where
  "canExecute now b =
     (case br_state b of
        closed_circuit \<Rightarrow> (True, b)
      | open_circuit \<Rightarrow>
          if timed_out now b
          then (True, b \<lparr> br_state := half_open, br_halfOpenProbeInFlight := True \<rparr>)
          else (False, b)
      | half_open \<Rightarrow>
          if br_halfOpenProbeInFlight b then (False, b)
          else (True, b \<lparr> br_halfOpenProbeInFlight := True \<rparr>))"

definition recordSuccess :: "breaker \<Rightarrow> breaker" where
  "recordSuccess b =
     (let b1 = b \<lparr> br_consecutiveFailures := 0, br_halfOpenProbeInFlight := False \<rparr> in
      if br_state b \<noteq> closed_circuit
      then b1 \<lparr> br_state := closed_circuit, br_openCount := 0,
             br_currentResetTimeout := cf_resetTimeoutMs (br_config b) \<rparr>
      else b1)"

definition open_breaker :: "int \<Rightarrow> breaker \<Rightarrow> breaker" where
  "open_breaker now b =
     (let b1 = b \<lparr> br_state := open_circuit, br_openedAt := Some now,
                   br_openCount := br_openCount b + 1 \<rparr> in
      if 1 < br_openCount b1
      then b1 \<lparr> br_currentResetTimeout :=
        min (br_currentResetTimeout b * cf_backoffMultiplier (br_config b))
          (cf_maxResetTimeoutMs (br_config b)) \<rparr>
      else b1)"

definition recordFailure :: "int \<Rightarrow> breaker \<Rightarrow> breaker" where
  "recordFailure now b =
     (let b1 = b \<lparr> br_consecutiveFailures := br_consecutiveFailures b + 1,
                   br_halfOpenProbeInFlight := False \<rparr> in
      if br_state b = half_open then open_breaker now b1
      else if cf_failureThreshold (br_config b) \<le> br_consecutiveFailures b1 then open_breaker now b1
      else b1)"

definition getState :: "int \<Rightarrow> breaker \<Rightarrow> circuit_state" where
  "getState now b =
     (if br_state b = open_circuit \<and> timed_out now b then half_open else br_state b)"

definition forceOpen :: "int \<Rightarrow> breaker \<Rightarrow> breaker" where
  "forceOpen now b =
     (let b1 = b \<lparr> br_halfOpenProbeInFlight := False,
          br_consecutiveFailures := max (br_consecutiveFailures b) (cf_failureThreshold (br_config b)) \<rparr> in
      if getState now b1 \<noteq> open_circuit then open_breaker now b1 else b1)"

definition getTimeUntilRetryMs :: "int \<Rightarrow> breaker \<Rightarrow> rat" where
  "getTimeUntilRetryMs now b =
     (case br_openedAt b of
        None \<Rightarrow> 0
      | Some t \<Rightarrow> if br_state b \<noteq> open_circuit \<or> t = 0 then 0
          else max 0 (br_currentResetTimeout b - of_int (now - t)))"

definition reset_breaker :: "breaker \<Rightarrow> breaker" where
  "reset_breaker b = b \<lparr> br_consecutiveFailures := 0, br_state := closed_circuit, br_openedAt := None,
     br_openCount := 0, br_halfOpenProbeInFlight := False,
     br_currentResetTimeout := cf_resetTimeoutMs (br_config b) \<rparr>"

text \<open>
  The wrapper: the guarded function, started at the first time, ends at the second with a value or
  an error; an open circuit refuses it, with the time to wait.
\<close>

datatype 'e guarded_error = CircuitOpenError string rat | Thrown 'e

definition withCircuitBreaker ::
  "int \<Rightarrow> int \<Rightarrow> 'e + 'a \<Rightarrow> breaker \<Rightarrow> ('e guarded_error + 'a) \<times> breaker \<times> bool" where
  "withCircuitBreaker now later fn b =
     (case canExecute now b of
        (False, b1) \<Rightarrow> (Inl (CircuitOpenError (br_name b) (getTimeUntilRetryMs now b1)), b1, False)
      | (True, b1) \<Rightarrow>
          (case fn of
             Inr x \<Rightarrow> (Inr x, recordSuccess b1, True)
           | Inl e \<Rightarrow> (Inl (Thrown e), recordFailure later b1, True)))"

section \<open>Runs\<close>

datatype breaker_event =
    CanExecute int | RecordSuccess | RecordFailure int | ForceOpen int | ResetBreaker

fun breaker_step :: "breaker \<Rightarrow> breaker_event \<Rightarrow> breaker" where
  "breaker_step b (CanExecute now) = snd (canExecute now b)"
| "breaker_step b RecordSuccess = recordSuccess b"
| "breaker_step b (RecordFailure now) = recordFailure now b"
| "breaker_step b (ForceOpen now) = forceOpen now b"
| "breaker_step b ResetBreaker = reset_breaker b"

definition config_ok :: "breaker_config \<Rightarrow> bool" where
  "config_ok c \<longleftrightarrow> 1 \<le> cf_failureThreshold c \<and> 0 \<le> cf_resetTimeoutMs c \<and>
     1 \<le> cf_backoffMultiplier c \<and> cf_resetTimeoutMs c \<le> cf_maxResetTimeoutMs c"

text \<open>The timeout after n openings since the circuit was last closed.\<close>

definition backoff :: "breaker_config \<Rightarrow> nat \<Rightarrow> rat" where
  "backoff c n = min (cf_resetTimeoutMs c * cf_backoffMultiplier c ^ (n - 1)) (cf_maxResetTimeoutMs c)"

definition breaker_inv :: "breaker_config \<Rightarrow> breaker \<Rightarrow> bool" where
  "breaker_inv c b \<longleftrightarrow> br_config b = c \<and> config_ok c \<and> 0 \<le> br_consecutiveFailures b \<and>
     (br_state b = closed_circuit \<longleftrightarrow> br_openCount b = 0) \<and>
     (br_state b = closed_circuit \<longrightarrow> br_consecutiveFailures b < cf_failureThreshold c) \<and>
     (br_state b \<noteq> closed_circuit \<longrightarrow> br_openedAt b \<noteq> None) \<and>
     (br_state b \<noteq> half_open \<longrightarrow> \<not> br_halfOpenProbeInFlight b) \<and>
     br_currentResetTimeout b = backoff c (br_openCount b)"

lemma backoff_first: "config_ok c \<Longrightarrow> backoff c 0 = cf_resetTimeoutMs c \<and> backoff c (Suc 0) = cf_resetTimeoutMs c"
  by (simp add: backoff_def config_ok_def)

lemma backoff_next:
  assumes "config_ok c" "0 < n"
  shows "min (backoff c n * cf_backoffMultiplier c) (cf_maxResetTimeoutMs c) = backoff c (Suc n)"
proof -
  let ?x = "cf_resetTimeoutMs c * cf_backoffMultiplier c ^ (n - 1)" and ?m = "cf_backoffMultiplier c"
    and ?M = "cf_maxResetTimeoutMs c"
  have m: "1 \<le> ?m" "0 \<le> ?M" using assms(1) by (auto simp: config_ok_def)
  then have "?M \<le> ?M * ?m" by (simp add: mult_le_cancel_left1)
  then have "min (min ?x ?M * ?m) ?M = min (?x * ?m) ?M"
    using m by (simp add: min_mult_distrib_right min.assoc min.absorb2)
  moreover have "?x * ?m = cf_resetTimeoutMs c * ?m ^ n"
    using assms(2) by (cases n) (simp_all add: mult.assoc mult.commute)
  ultimately show ?thesis by (simp only: backoff_def diff_Suc_1)
qed

lemma open_inv:
  assumes "br_config b = c" "config_ok c" "0 \<le> br_consecutiveFailures b"
    "br_currentResetTimeout b = backoff c (br_openCount b)" "\<not> br_halfOpenProbeInFlight b"
  shows "breaker_inv c (open_breaker now b)"
proof (cases "br_openCount b")
  case 0
  then show ?thesis using assms backoff_first [OF assms(2)]
    by (simp add: breaker_inv_def open_breaker_def Let_def)
next
  case (Suc n)
  then show ?thesis using assms backoff_next [OF assms(2), of "Suc n"]
    by (simp add: breaker_inv_def open_breaker_def Let_def)
qed

lemma breaker_inv_step: "breaker_inv c b \<Longrightarrow> breaker_inv c (breaker_step b e)"
proof (induction b e rule: breaker_step.induct)
  case (1 b now)
  then show ?case by (auto simp: canExecute_def breaker_inv_def split: circuit_state.splits)
next
  case (2 b)
  then show ?case using backoff_first by (auto simp: recordSuccess_def breaker_inv_def Let_def config_ok_def)
next
  case (3 b now)
  let ?b1 = "b \<lparr> br_consecutiveFailures := br_consecutiveFailures b + 1, br_halfOpenProbeInFlight := False \<rparr>"
  have o: "breaker_inv c (open_breaker now ?b1)"
    by (rule open_inv) (use 3 in \<open>simp_all add: breaker_inv_def\<close>)
  show ?case
  proof (cases "br_state b = half_open \<or> cf_failureThreshold (br_config b) \<le> br_consecutiveFailures ?b1")
    case True
    then show ?thesis using o by (auto simp: recordFailure_def Let_def)
  next
    case False
    then show ?thesis using 3 by (auto simp: recordFailure_def Let_def breaker_inv_def)
  qed
next
  case (4 b now)
  let ?b1 = "b \<lparr> br_halfOpenProbeInFlight := False,
     br_consecutiveFailures := max (br_consecutiveFailures b) (cf_failureThreshold (br_config b)) \<rparr>"
  have o: "breaker_inv c (open_breaker now ?b1)"
    by (rule open_inv) (use 4 in \<open>auto simp: breaker_inv_def le_max_iff_disj\<close>)
  show ?case
  proof (cases "getState now ?b1 = open_circuit")
    case True
    then have "br_state b = open_circuit" by (auto simp: getState_def split: if_splits)
    then show ?thesis using 4 True by (auto simp: forceOpen_def Let_def breaker_inv_def le_max_iff_disj)
  next
    case False
    then show ?thesis using o by (simp add: forceOpen_def Let_def)
  qed
next
  case (5 b)
  then show ?case using backoff_first by (auto simp: reset_breaker_def breaker_inv_def config_ok_def)
qed

lemma breaker_inv_init: "config_ok c \<Longrightarrow> breaker_inv c (new_breaker name c)"
  using backoff_first by (simp add: breaker_inv_def new_breaker_def config_ok_def)

interpretation breaker_runs: state_machine breaker_step "breaker_inv c" for c
  by unfold_locales (rule breaker_inv_step)

section \<open>Properties\<close>

text \<open>
  over any sequence of calls at any times, the breaker is closed only with fewer consecutive
  failures than the threshold, has an opening time whenever it is not closed, has a probe in
  flight only when half open, and its timeout is exactly the capped exponential backoff of the
  number of openings since it was last closed.
\<close>

theorem breaker_reachable:
  assumes "config_ok c"
  shows "let b = run breaker_step (new_breaker name c) es in
    (br_state b = closed_circuit \<longrightarrow> br_consecutiveFailures b < cf_failureThreshold c) \<and>
    (br_state b \<noteq> closed_circuit \<longrightarrow> br_openedAt b \<noteq> None) \<and>
    (br_halfOpenProbeInFlight b \<longrightarrow> br_state b = half_open) \<and>
    br_currentResetTimeout b = backoff c (br_openCount b) \<and>
    cf_resetTimeoutMs c \<le> br_currentResetTimeout b \<and>
    br_currentResetTimeout b \<le> cf_maxResetTimeoutMs c"
proof -
  let ?b = "run breaker_step (new_breaker name c) es"
  have inv: "breaker_inv c ?b"
    by (rule breaker_runs.run_inv [OF breaker_inv_init [OF assms]])
  have pow: "1 \<le> cf_backoffMultiplier c ^ n" for n
    using assms by (simp add: config_ok_def one_le_power)
  have "cf_resetTimeoutMs c * 1 \<le> cf_resetTimeoutMs c * cf_backoffMultiplier c ^ n" for n
    using assms pow by (intro mult_left_mono) (simp_all add: config_ok_def)
  then have "cf_resetTimeoutMs c \<le> backoff c n \<and> backoff c n \<le> cf_maxResetTimeoutMs c" for n
    using assms by (simp add: backoff_def config_ok_def)
  then show ?thesis using inv by (auto simp: breaker_inv_def Let_def)
qed

text \<open>
  While the circuit is open every request is refused until the timeout has passed; then exactly
  one is let through, and all further ones are refused until a result is recorded.
\<close>

fun answers :: "breaker \<Rightarrow> int list \<Rightarrow> bool list" where
  "answers b [] = []"
| "answers b (now # ts) = fst (canExecute now b) # answers (snd (canExecute now b)) ts"

lemma probing_refuses:
  "br_state b = half_open \<Longrightarrow> br_halfOpenProbeInFlight b \<Longrightarrow> answers b ts = replicate (length ts) False"
  by (induction ts) (simp_all add: canExecute_def)

lemma open_refuses:
  "br_state b = open_circuit \<Longrightarrow> list_all (\<lambda>t. \<not> timed_out t b) ts \<Longrightarrow>
   answers b (ts @ us) = replicate (length ts) False @ answers b us"
  by (induction ts) (simp_all add: canExecute_def)

text \<open>
  fail fast and a single probe: whatever the circuit did before, if it is open, the requests
  before the timeout are refused, the first one after it is let through, and every later one is
  refused as long as no result is recorded.
\<close>

theorem single_probe:
  assumes "br_state b = open_circuit" and "list_all (\<lambda>t. \<not> timed_out t b) early" and "timed_out now b"
  shows "answers b (early @ now # later) =
    replicate (length early) False @ True # replicate (length later) False"
proof -
  have "answers b (now # later) = True # replicate (length later) False"
    using assms probing_refuses by (simp add: canExecute_def)
  then show ?thesis using open_refuses [OF assms(1,2), of "now # later"] by simp
qed

text \<open>
  a circuit that fails permanently recovers: from any reachable state, once the time is past
  every timeout and no probe is in flight, a request is let through, and its success closes the
  circuit with all counters reset; its failure opens it again.
\<close>

theorem breaker_recovers:
  assumes "config_ok c" and "b = run breaker_step (new_breaker name c) es"
    and "\<not> br_halfOpenProbeInFlight b"
    and "(case br_openedAt b of Some t \<Rightarrow> t | None \<Rightarrow> 0) + \<lceil>cf_maxResetTimeoutMs c\<rceil> \<le> now"
  shows "fst (canExecute now b) \<and>
    br_state (recordSuccess (snd (canExecute now b))) = closed_circuit \<and>
    br_currentResetTimeout (recordSuccess (snd (canExecute now b))) = cf_resetTimeoutMs c \<and>
    (br_state b \<noteq> closed_circuit \<longrightarrow> br_state (recordFailure later (snd (canExecute now b))) = open_circuit)"
proof -
  have inv: "breaker_inv c b"
    unfolding assms(2) by (rule breaker_runs.run_inv [OF breaker_inv_init [OF assms(1)]])
  have "backoff c n \<le> cf_maxResetTimeoutMs c" for n by (simp add: backoff_def)
  then have "br_currentResetTimeout b \<le> of_int (elapsed now b)"
    using inv assms(4) unfolding breaker_inv_def elapsed_def
    by (metis (no_types, lifting) add.commute ceiling_le_iff le_diff_eq order_trans)
  then have t: "timed_out now b" by (simp add: timed_out_def)
  have first: "cf_resetTimeoutMs c = backoff c 0" using backoff_first [OF assms(1)] by simp
  show ?thesis
    using inv t assms(3) first
    by (cases "br_state b")
      (auto simp: canExecute_def recordSuccess_def recordFailure_def open_breaker_def breaker_inv_def Let_def)
qed

section \<open>Concrete instances\<close>

lemma default_ok: "config_ok DEFAULT_CONFIG"
  by (simp add: config_ok_def DEFAULT_CONFIG_def)

theorem breaker_reachable_witness:
  "br_currentResetTimeout (run breaker_step (new_breaker [] DEFAULT_CONFIG) []) \<le> 1200000"
  using breaker_reachable [OF default_ok, of "[]" "[]"] by (simp add: Let_def DEFAULT_CONFIG_def)

definition tripped :: breaker where
  "tripped = run breaker_step (new_breaker [] DEFAULT_CONFIG)
     [RecordFailure 10, RecordFailure 20, RecordFailure 30]"

lemma tripped_open: "br_state tripped = open_circuit" "br_openedAt tripped = Some 30"
  "br_currentResetTimeout tripped = 300000" "\<not> br_halfOpenProbeInFlight tripped"
  by (simp_all add: tripped_def recordFailure_def open_breaker_def new_breaker_def DEFAULT_CONFIG_def Let_def)

theorem single_probe_witness:
  "answers tripped [40, 300029, 300030, 300031] = [False, False, True, False]"
  using single_probe [of tripped "[40, 300029]" 300030 "[300031]"]
  by (simp add: tripped_open timed_out_def elapsed_def)

theorem breaker_recovers_witness:
  "fst (canExecute 1200030 tripped) \<and> br_state (recordSuccess (snd (canExecute 1200030 tripped))) = closed_circuit"
  using breaker_recovers [OF default_ok tripped_def tripped_open(4), of 1200030 0]
  by (simp add: tripped_open DEFAULT_CONFIG_def)

end
