(* ===== verification/Retry.thy ===== *)
theory Retry
  imports JsValue
begin

text \<open>
  Retrying with exponential backoff, \<open>packages/core/src/retry.ts\<close>. The guarded function is the
  list of what its successive calls end with, as a function of the attempt; \<open>Math.random()\<close> is a
  function of the attempt with values from 0 up to 1; \<open>Date\<close>'s parser is a parameter. The sleeps
  of a run are recorded. Delays are finite numbers.
\<close>

section \<open>Errors\<close>

datatype thrown =
    HttpError int string "rat option"
  | ErrorObject string string
  | NonError string

definition error_message :: "thrown \<Rightarrow> string" where
  "error_message e = (case e of HttpError s m r \<Rightarrow> m | ErrorObject n m \<Rightarrow> m | NonError s \<Rightarrow> s)"

definition error_name :: "thrown \<Rightarrow> string" where
  "error_name e = (case e of HttpError s m r \<Rightarrow> ''RetryableHttpError'' | ErrorObject n m \<Rightarrow> n
     | NonError s \<Rightarrow> [])"

definition isNetworkError :: "thrown \<Rightarrow> bool" where
  "isNetworkError e =
     (case e of NonError s \<Rightarrow> False
      | _ \<Rightarrow> (let msg = to_lower (error_message e) in
          list_ex (str_includes msg)
            [''fetch failed'', ''network'', ''econnrefused'', ''econnreset'', ''etimedout'', ''dns'']
          \<or> error_name e = ''AbortError''
          \<or> (error_name e = ''TypeError'' \<and>
             list_ex (str_includes msg) [''fetch'', ''request'', ''url''])))"

definition as_error :: "thrown \<Rightarrow> thrown" where
  "as_error e = (case e of NonError s \<Rightarrow> ErrorObject ''Error'' s | _ \<Rightarrow> e)"

section \<open>Delays\<close>

record retry_config =
  rc_maxRetries :: int
  rc_baseDelayMs :: rat
  rc_maxDelayMs :: rat
  rc_retryableStatuses :: "int list"

definition DEFAULT_RETRY_CONFIG :: retry_config where
  "DEFAULT_RETRY_CONFIG = \<lparr> rc_maxRetries = 3, rc_baseDelayMs = 1000, rc_maxDelayMs = 30000,
     rc_retryableStatuses = [429, 500, 502, 503] \<rparr>"

text \<open>\<open>parseInt(s, 10)\<close>: white space, a sign, the longest run of digits.\<close>

definition parse_int :: "string \<Rightarrow> int option" where
  "parse_int s =
     (let t = dropWhile is_space s;
          (sign, u) = (case t of [] \<Rightarrow> (1, []) | c # v \<Rightarrow>
             if c = CHR ''-'' then (- 1, v) else if c = CHR ''+'' then (1, v) else (1, c # v));
          ds = takeWhile (is_digit 10) u in
      if ds = [] then None else Some (sign * int (digits_val 10 0 ds)))"

definition parseRetryAfter :: "(string \<Rightarrow> rat option) \<Rightarrow> rat \<Rightarrow> string option \<Rightarrow> rat option" where
  "parseRetryAfter date_time now headerValue =
     (case headerValue of None \<Rightarrow> None
      | Some s \<Rightarrow>
          if s = [] then None
          else (case (case parse_int s of Some n \<Rightarrow> (if 0 \<le> n then Some n else None) | None \<Rightarrow> None) of
              Some n \<Rightarrow> Some (of_int n * 1000)
            | None \<Rightarrow> (case date_time s of
                Some t \<Rightarrow> Some (if 0 < t - now then t - now else 0)
              | None \<Rightarrow> None)))"

definition calculateDelay :: "rat \<Rightarrow> nat \<Rightarrow> retry_config \<Rightarrow> rat option \<Rightarrow> rat" where
  "calculateDelay random attempt cfg retryAfterMs =
     (let backoff = min (rc_baseDelayMs cfg * 2 ^ attempt + random * rc_baseDelayMs cfg * (1 / 2))
            (rc_maxDelayMs cfg) in
      case retryAfterMs of
        Some ms \<Rightarrow> if 0 < ms then min ms (rc_maxDelayMs cfg) else backoff
      | None \<Rightarrow> backoff)"

section \<open>The loop\<close>

definition retry_delay :: "(nat \<Rightarrow> rat) \<Rightarrow> retry_config \<Rightarrow> nat \<Rightarrow> thrown \<Rightarrow> rat option" where
  "retry_delay random cfg attempt e =
     (case e of
        HttpError s m retryAfterMs \<Rightarrow> Some (calculateDelay (random attempt) attempt cfg retryAfterMs)
      | _ \<Rightarrow> if isNetworkError e then Some (calculateDelay (random attempt) attempt cfg None) else None)"

function retry_loop ::
  "(nat \<Rightarrow> thrown + 'a) \<Rightarrow> (nat \<Rightarrow> rat) \<Rightarrow> retry_config \<Rightarrow> nat \<Rightarrow> (thrown + 'a) \<times> rat list" where
  "retry_loop fn random cfg attempt =
     (if int attempt \<le> rc_maxRetries cfg then
        (case fn attempt of
           Inr x \<Rightarrow> (Inr x, [])
         | Inl e \<Rightarrow>
             if rc_maxRetries cfg \<le> int attempt then (Inl (as_error e), [])
             else (case retry_delay random cfg attempt e of
                 None \<Rightarrow> (Inl e, [])
               | Some d \<Rightarrow> (case retry_loop fn random cfg (Suc attempt) of
                   (res, sleeps) \<Rightarrow> (res, d # sleeps))))
      else (Inl (ErrorObject ''Error'' ''withRetry: all attempts exhausted''), []))"
  by auto
termination
  by (relation "measure (\<lambda>(fn, random, cfg, attempt). nat (rc_maxRetries cfg + 1 - int attempt))") auto

declare retry_loop.simps [simp del]

definition withRetry ::
  "(nat \<Rightarrow> thrown + 'a) \<Rightarrow> (nat \<Rightarrow> rat) \<Rightarrow> retry_config \<Rightarrow> (thrown + 'a) \<times> rat list" where
  "withRetry fn random cfg = retry_loop fn random cfg 0"

text \<open>The check of a response, given its status and its header.\<close>

definition fetchWithRetry ::
  "(string \<Rightarrow> rat option) \<Rightarrow> rat \<Rightarrow> string \<Rightarrow> int list \<Rightarrow> int \<Rightarrow> string option \<Rightarrow> thrown + int" where
  "fetchWithRetry date_time now url retryableStatuses status header =
     (if \<not> (200 \<le> status \<and> status < 300) \<and> status \<in> set retryableStatuses
      then Inl (HttpError status (''HTTP '' @ int_str status @ '' from '' @ url)
        (parseRetryAfter date_time now header))
      else Inr status)"

section \<open>Properties\<close>

definition delays_ok :: "(nat \<Rightarrow> rat) \<Rightarrow> retry_config \<Rightarrow> bool" where
  "delays_ok random cfg \<longleftrightarrow> 0 \<le> rc_baseDelayMs cfg \<and> 0 \<le> rc_maxDelayMs cfg \<and>
     (\<forall>k. 0 \<le> random k \<and> random k < 1)"

lemma calculateDelay_bounds:
  assumes "0 \<le> rc_baseDelayMs cfg" "0 \<le> rc_maxDelayMs cfg" "0 \<le> x"
  shows "0 \<le> calculateDelay x k cfg ra" "calculateDelay x k cfg ra \<le> rc_maxDelayMs cfg"
proof -
  have "0 \<le> rc_baseDelayMs cfg * 2 ^ k + x * rc_baseDelayMs cfg * (1 / 2)"
    using assms by (intro add_nonneg_nonneg mult_nonneg_nonneg) simp_all
  then show "0 \<le> calculateDelay x k cfg ra" "calculateDelay x k cfg ra \<le> rc_maxDelayMs cfg"
    using assms(2) by (auto simp: calculateDelay_def Let_def split: option.splits)
qed

lemma delay_bounds:
  assumes "delays_ok random cfg" "retry_delay random cfg k e = Some d"
  shows "0 \<le> d \<and> d \<le> rc_maxDelayMs cfg"
proof -
  obtain ra where "d = calculateDelay (random k) k cfg ra"
    using assms(2) by (auto simp: retry_delay_def split: thrown.splits if_splits)
  then show ?thesis using calculateDelay_bounds assms(1) by (simp add: delays_ok_def)
qed

lemma retry_loop_sleeps:
  "delays_ok random cfg \<Longrightarrow>
   int (length (snd (retry_loop fn random cfg k))) \<le> max 0 (rc_maxRetries cfg - int k) \<and>
   list_all (\<lambda>d. 0 \<le> d \<and> d \<le> rc_maxDelayMs cfg) (snd (retry_loop fn random cfg k))"
proof (induction fn random cfg k rule: retry_loop.induct)
  case (1 fn random cfg k)
  show ?case
  proof (cases "\<exists>e d. int k < rc_maxRetries cfg \<and> fn k = Inl e \<and> retry_delay random cfg k e = Some d")
    case True
    then obtain e d where ed: "int k < rc_maxRetries cfg" "fn k = Inl e" "retry_delay random cfg k e = Some d"
      by blast
    then show ?thesis
      using "1.IH" [of e d] "1.prems" delay_bounds [OF "1.prems" ed(3)]
      by (simp add: retry_loop.simps [of fn random cfg k] case_prod_unfold)
  next
    case False
    then have "snd (retry_loop fn random cfg k) = []"
      by (auto simp: retry_loop.simps [of fn random cfg k] split: sum.splits option.splits)
    then show ?thesis by simp
  qed
qed

text \<open>
  retrying always ends: at most maxRetries sleeps are made, each between zero and the
  configured maximum, whatever the server's Retry-After says, so the time spent waiting is at
  most their product.
\<close>

theorem retry_terminates:
  assumes "delays_ok random cfg" and "0 \<le> rc_maxRetries cfg"
  shows "int (length (snd (withRetry fn random cfg))) \<le> rc_maxRetries cfg \<and>
    list_all (\<lambda>d. 0 \<le> d \<and> d \<le> rc_maxDelayMs cfg) (snd (withRetry fn random cfg)) \<and>
    sum_list (snd (withRetry fn random cfg)) \<le> of_int (rc_maxRetries cfg) * rc_maxDelayMs cfg"
proof -
  let ?ds = "snd (withRetry fn random cfg)"
  have b: "int (length ?ds) \<le> rc_maxRetries cfg" "list_all (\<lambda>d. 0 \<le> d \<and> d \<le> rc_maxDelayMs cfg) ?ds"
    using retry_loop_sleeps [OF assms(1), of fn 0] assms(2) by (simp_all add: withRetry_def)
  have "sum_list ds \<le> of_nat (length ds) * M" if "list_all (\<lambda>d. 0 \<le> d \<and> d \<le> M) ds" for ds and M :: rat
    using that by (induction ds) (simp_all add: distrib_right)
  then have "sum_list ?ds \<le> of_nat (length ?ds) * rc_maxDelayMs cfg" using b(2) .
  also have "\<dots> \<le> of_int (rc_maxRetries cfg) * rc_maxDelayMs cfg"
  proof (rule mult_right_mono)
    show "of_nat (length ?ds) \<le> (of_int (rc_maxRetries cfg) :: rat)"
      using b(1) by (metis of_int_le_iff of_int_of_nat_eq)
    show "0 \<le> rc_maxDelayMs cfg" using assms(1) by (simp add: delays_ok_def)
  qed
  finally show ?thesis using b by simp
qed

lemma first_or_later:
  "(\<exists>n \<ge> k. P n \<and> (\<forall>j. k \<le> j \<and> j < n \<longrightarrow> Q j)) \<longleftrightarrow>
   P k \<or> (Q k \<and> (\<exists>n \<ge> Suc k. P n \<and> (\<forall>j. Suc k \<le> j \<and> j < n \<longrightarrow> Q j)))"
  (is "?l \<longleftrightarrow> ?r")
proof
  assume ?l
  then obtain n where n: "k \<le> n" "P n" "\<forall>j. k \<le> j \<and> j < n \<longrightarrow> Q j" by blast
  show ?r
  proof (cases "n = k")
    case False
    then have "Suc k \<le> n" using n(1) by simp
    then show ?thesis using n by (metis Suc_leD le_refl Suc_le_lessD)
  qed (use n in simp)
next
  assume ?r
  then show ?l
  proof
    assume "Q k \<and> (\<exists>n \<ge> Suc k. P n \<and> (\<forall>j. Suc k \<le> j \<and> j < n \<longrightarrow> Q j))"
    then obtain n where n: "Q k" "Suc k \<le> n" "P n" "\<forall>j. Suc k \<le> j \<and> j < n \<longrightarrow> Q j" by blast
    then have "Q j" if "k \<le> j \<and> j < n" for j using that by (cases "j = k") auto
    then show ?l using n by (intro exI [of _ n]) auto
  qed auto
qed

definition retried :: "(nat \<Rightarrow> thrown + 'a) \<Rightarrow> (nat \<Rightarrow> rat) \<Rightarrow> retry_config \<Rightarrow> nat \<Rightarrow> bool" where
  "retried fn random cfg j \<longleftrightarrow> (\<exists>e d. fn j = Inl e \<and> retry_delay random cfg j e = Some d)"

lemma retry_loop_Inr:
  "fst (retry_loop fn random cfg k) = Inr x \<longleftrightarrow>
   (\<exists>n \<ge> k. (int n \<le> rc_maxRetries cfg \<and> fn n = Inr x) \<and> (\<forall>j. k \<le> j \<and> j < n \<longrightarrow> retried fn random cfg j))"
proof (induction fn random cfg k rule: retry_loop.induct)
  case (1 fn random cfg k)
  let ?rhs = "\<lambda>k. \<exists>n \<ge> k. (int n \<le> rc_maxRetries cfg \<and> fn n = Inr x) \<and>
    (\<forall>j. k \<le> j \<and> j < n \<longrightarrow> retried fn random cfg j)"
  note unfold = first_or_later [of k "\<lambda>n. int n \<le> rc_maxRetries cfg \<and> fn n = Inr x" "retried fn random cfg"]
  have past: "\<not> ?rhs j" if "rc_maxRetries cfg < int j" for j using that by auto
  consider (stop) "rc_maxRetries cfg < int k"
    | (good) y where "int k \<le> rc_maxRetries cfg" "fn k = Inr y"
    | (last) e where "int k = rc_maxRetries cfg" "fn k = Inl e"
    | (fatal) e where "int k < rc_maxRetries cfg" "fn k = Inl e" "retry_delay random cfg k e = None"
    | (again) e d where "int k < rc_maxRetries cfg" "fn k = Inl e" "retry_delay random cfg k e = Some d"
    by (metis linorder_less_linear not_le sum.exhaust option.exhaust)
  then show ?case
  proof cases
    case stop
    then show ?thesis using past by (simp add: retry_loop.simps [of fn random cfg k])
  next
    case good
    then show ?thesis unfolding unfold
      by (simp add: retry_loop.simps [of fn random cfg k] retried_def)
  next
    case last
    then show ?thesis unfolding unfold using past [of "Suc k"]
      by (simp add: retry_loop.simps [of fn random cfg k])
  next
    case fatal
    then show ?thesis unfolding unfold
      by (simp add: retry_loop.simps [of fn random cfg k] retried_def)
  next
    case again
    then have "fst (retry_loop fn random cfg k) = fst (retry_loop fn random cfg (Suc k))"
      by (simp add: retry_loop.simps [of fn random cfg k] case_prod_unfold)
    moreover have "retried fn random cfg k" using again by (simp add: retried_def)
    ultimately show ?thesis unfolding unfold using "1.IH" [of e d] again by simp
  qed
qed

text \<open>
  a value is returned exactly when some attempt within the limit produced it and every attempt
  before failed with an error worth retrying (a retryable HTTP error or a network error); the
  value is that attempt's, so nothing runs again after a success or after a fatal error.
\<close>

theorem retry_succeeds_iff:
  "fst (withRetry fn random cfg) = Inr x \<longleftrightarrow>
   (\<exists>n. int n \<le> rc_maxRetries cfg \<and> fn n = Inr x \<and>
     (\<forall>j < n. \<exists>e d. fn j = Inl e \<and> retry_delay random cfg j e = Some d))"
  unfolding withRetry_def retry_loop_Inr retried_def by simp

theorem retry_terminates_witness:
  "int (length (snd (withRetry (\<lambda>k. Inl (HttpError 429 [] (Some 90000)) :: thrown + nat)
     (\<lambda>_. 0) DEFAULT_RETRY_CONFIG))) \<le> 3"
  using retry_terminates [of "\<lambda>_. 0" DEFAULT_RETRY_CONFIG "\<lambda>k. Inl (HttpError 429 [] (Some 90000)) :: thrown + nat"]
  by (simp add: delays_ok_def DEFAULT_RETRY_CONFIG_def)

theorem retry_succeeds_iff_witness:
  "fst (withRetry (\<lambda>k. if k = 0 then Inl (HttpError 503 [] None) else Inr (7::nat)) (\<lambda>_. 0)
     DEFAULT_RETRY_CONFIG) = Inr 7"
  unfolding retry_succeeds_iff
  by (rule exI [of _ 1]) (simp add: retry_delay_def DEFAULT_RETRY_CONFIG_def)

end
