(* ===== verification/Calendar.thy ===== *)
theory Calendar
  imports JsValue
begin

text \<open>
  The calendar arithmetic of \<open>Date\<close> in UTC that the program uses, after the language standard:
  days are counted from 1970-01-01, times are milliseconds since then. The year of a day is the
  largest year that starts on or before it; \<open>make_day\<close> is the day of a year, month and date
  that need not be in range, as \<open>Date.UTC\<close> takes them. \<open>day_roundtrip\<close> is the fact that the
  components re-enter as the same day.
\<close>

section \<open>Days and years\<close>

definition day_from_year :: "int \<Rightarrow> int" where
  "day_from_year y = 365 * (y - 1970) + (y - 1969) div 4 - (y - 1901) div 100 + (y - 1601) div 400"

definition leap_year :: "int \<Rightarrow> bool" where
  "leap_year y \<longleftrightarrow> y mod 4 = 0 \<and> (y mod 100 \<noteq> 0 \<or> y mod 400 = 0)"

text \<open>Days of earlier months in the year; months count from 0.\<close>

definition month_start :: "bool \<Rightarrow> int \<Rightarrow> int" where
  "month_start leap m =
     [0, 31, 59, 90, 120, 151, 181, 212, 243, 273, 304, 334] ! nat m + (if leap \<and> 2 \<le> m then 1 else 0)"

definition year_from_day :: "int \<Rightarrow> int" where
  "year_from_day n = (let e = 1970 + (400 * n) div 146097 in
     if day_from_year (e + 1) \<le> n then e + 1 else if day_from_year e \<le> n then e else e - 1)"

definition month_from_day :: "int \<Rightarrow> int" where
  "month_from_day n = (let y = year_from_day n; d = n - day_from_year y in
     int (length (filter (\<lambda>m. month_start (leap_year y) m \<le> d) [1, 2, 3, 4, 5, 6, 7, 8, 9, 10, 11])))"

definition date_from_day :: "int \<Rightarrow> int" where
  "date_from_day n = (let y = year_from_day n in
     n - day_from_year y - month_start (leap_year y) (month_from_day n) + 1)"

definition week_day :: "int \<Rightarrow> int" where
  "week_day n = (n + 4) mod 7"

definition make_day :: "int \<Rightarrow> int \<Rightarrow> int \<Rightarrow> int" where
  "make_day y mo d = (let ym = y + mo div 12 in
     day_from_year ym + month_start (leap_year ym) (mo mod 12) + d - 1)"

text \<open>The year of a day is the largest that has started.\<close>

lemma day_from_year_bounds:
  "146097 * (y - 1970) - 507 < 400 * day_from_year y"
  "400 * day_from_year y < 146097 * (y - 1970) + 600"
proof -
  define a where "a = (y - 1969) div 4"
  define b where "b = (y - 1901) div 100"
  define c where "c = (y - 1601) div 400"
  have floor: "k * (x div k) \<le> x" "x < k * (x div k) + k" if "0 < k" for x k :: int
    using that pos_mod_bound [of k x] pos_mod_sign [of k x] mult_div_mod_eq [of k x] by linarith+
  have "4 * a \<le> y - 1969" "y - 1969 < 4 * a + 4" "100 * b \<le> y - 1901" "y - 1901 < 100 * b + 100"
    "400 * c \<le> y - 1601" "y - 1601 < 400 * c + 400"
    unfolding a_def b_def c_def by (rule floor; simp)+
  moreover have "400 * day_from_year y = 146000 * (y - 1970) + 400 * a - 400 * b + 400 * c"
    by (simp add: day_from_year_def a_def b_def c_def)
  ultimately have "146097 * (y - 1970) - 507 < 400 * day_from_year y \<and>
      400 * day_from_year y < 146097 * (y - 1970) + 600"
    by (simp add: algebra_simps)
  then show "146097 * (y - 1970) - 507 < 400 * day_from_year y"
    "400 * day_from_year y < 146097 * (y - 1970) + 600"
    by blast+
qed

lemma year_from_day_bounds:
  "day_from_year (year_from_day n) \<le> n" "n < day_from_year (year_from_day n + 1)"
proof -
  define q where "q = (400 * n) div 146097"
  have q: "146097 * q \<le> 400 * n" "400 * n < 146097 * q + 146097"
    using pos_mod_bound [of 146097 "400 * n"] pos_mod_sign [of 146097 "400 * n"]
      mult_div_mod_eq [of 146097 "400 * n"] unfolding q_def by linarith+
  have lo: "day_from_year (1969 + q) \<le> n"
    using day_from_year_bounds(2) [of "1969 + q"] q by (simp add: algebra_simps)
  have hi: "n < day_from_year (1972 + q)"
    using day_from_year_bounds(1) [of "1972 + q"] q by (simp add: algebra_simps)
  show "day_from_year (year_from_day n) \<le> n"
    using lo unfolding year_from_day_def Let_def q_def [symmetric] by (simp add: algebra_simps)
  show "n < day_from_year (year_from_day n + 1)"
    using hi unfolding year_from_day_def Let_def q_def [symmetric] by (simp add: algebra_simps)
qed

lemma month_from_day_range: "0 \<le> month_from_day n" "month_from_day n < 12"
proof -
  have "length (filter P xs) \<le> length xs" for P and xs :: "int list" by simp
  from this [of _ "[1, 2, 3, 4, 5, 6, 7, 8, 9, 10, 11]"]
  have "length (filter P [1, 2, 3, 4, 5, 6, 7, 8, 9, 10, 11 :: int]) \<le> 11" for P by simp
  then show "0 \<le> month_from_day n" "month_from_day n < 12"
    unfolding month_from_day_def Let_def by (simp_all add: less_Suc_eq_le [of _ 11, simplified] of_nat_less_iff
      del: filter.simps)
qed

lemma day_roundtrip:
  "make_day (year_from_day n) (month_from_day n) (date_from_day n + i) = n + i"
  using month_from_day_range [of n] by (simp add: make_day_def date_from_day_def Let_def)

lemma week_day_add: "week_day (n + i) = (week_day n + i) mod 7"
  by (simp add: week_day_def mod_simps algebra_simps)

lemma week_day_range: "0 \<le> week_day n" "week_day n < 7"
  by (simp_all add: week_day_def)

section \<open>Times\<close>

abbreviation day_ms :: int where "day_ms \<equiv> 86400000"
abbreviation hour_ms :: int where "hour_ms \<equiv> 3600000"

definition day_of :: "int \<Rightarrow> int" where
  "day_of t = t div day_ms"

text \<open>
  \<open>Date.UTC\<close>, within the range of a date: a year of one or two digits belongs to the 20th century.
\<close>

definition utc_full_year :: "int \<Rightarrow> int" where
  "utc_full_year y = (if 0 \<le> y \<and> y \<le> 99 then 1900 + y else y)"

definition date_utc :: "int \<Rightarrow> int \<Rightarrow> int \<Rightarrow> int \<Rightarrow> int \<Rightarrow> int \<Rightarrow> int" where
  "date_utc y mo d h mi s =
     make_day (utc_full_year y) mo d * day_ms + h * hour_ms + mi * 60000 + s * 1000"

text \<open>The components of a time: \<open>getUTCFullYear\<close>, \<open>getUTCMonth\<close>, \<open>getUTCDate\<close>, hour, minute, second.\<close>

definition utc_fields :: "int \<Rightarrow> int \<times> int \<times> int \<times> int \<times> int \<times> int" where
  "utc_fields t = (let n = day_of t; r = t mod day_ms in
     (year_from_day n, month_from_day n, date_from_day n,
      r div hour_ms, r mod hour_ms div 60000, r mod 60000 div 1000))"

lemma year_after_epoch: "0 \<le> n \<Longrightarrow> 1970 \<le> year_from_day n"
proof (rule ccontr)
  assume n: "0 \<le> n" and "\<not> 1970 \<le> year_from_day n"
  then have "146097 * (year_from_day n + 1 - 1970) + 600 \<le> 600" by simp
  then have "400 * day_from_year (year_from_day n + 1) < 600"
    using day_from_year_bounds(2) [of "year_from_day n + 1"] by linarith
  then have "n < 2" using year_from_day_bounds(2) [of n] by linarith
  with n have "n = 0 \<or> n = 1" by linarith
  then have "year_from_day n = 1970" by (auto simp: year_from_day_def day_from_year_def Let_def)
  with \<open>\<not> 1970 \<le> year_from_day n\<close> show False by simp
qed

lemma date_utc_day:
  "0 \<le> n \<Longrightarrow> date_utc (year_from_day n) (month_from_day n) (date_from_day n + i) h mi s =
     (n + i) * day_ms + h * hour_ms + mi * 60000 + s * 1000"
  using year_after_epoch [of n] by (simp add: date_utc_def utc_full_year_def day_roundtrip)

lemmas calendar_defs = date_utc_def utc_full_year_def make_day_def day_from_year_def month_start_def
  leap_year_def utc_fields_def day_of_def year_from_day_def month_from_day_def date_from_day_def
  week_day_def Let_def

text \<open>A time read to the second and put together again loses its milliseconds.\<close>

lemma time_of_day_parts:
  fixes r :: int
  shows "r div hour_ms * hour_ms + r mod hour_ms div 60000 * 60000 + r mod 60000 div 1000 * 1000 = r - r mod 1000"
proof -
  have a: "r div hour_ms * hour_ms + r mod hour_ms = r" by (rule div_mult_mod_eq)
  have b: "r mod hour_ms div 60000 * 60000 + r mod hour_ms mod 60000 = r mod hour_ms"
    by (rule div_mult_mod_eq)
  have c: "r mod hour_ms mod 60000 = r mod 60000" by (rule mod_mod_cancel) simp
  have d: "r mod 60000 div 1000 * 1000 + r mod 60000 mod 1000 = r mod 60000" by (rule div_mult_mod_eq)
  have e: "r mod 60000 mod 1000 = r mod 1000" by (rule mod_mod_cancel) simp
  from a b c d e show ?thesis by linarith
qed

lemma utc_fields_roundtrip:
  assumes "0 \<le> t" and "utc_fields t = (y, mo, d, h, mi, s)"
  shows "date_utc y mo d h mi s = t - t mod 1000"
proof -
  have n: "0 \<le> day_of t" using assms(1) by (simp add: day_of_def pos_imp_zdiv_nonneg_iff)
  have "date_utc y mo d h mi s = day_of t * day_ms +
      (t mod day_ms div hour_ms * hour_ms + t mod day_ms mod hour_ms div 60000 * 60000
       + t mod day_ms mod 60000 div 1000 * 1000)"
    using assms(2) date_utc_day [OF n, of 0 h mi s] by (auto simp: utc_fields_def Let_def)
  also have "\<dots> = day_of t * day_ms + (t mod day_ms - t mod day_ms mod 1000)"
    by (simp only: time_of_day_parts)
  also have "\<dots> = t - t mod 1000"
    using div_mult_mod_eq [of t day_ms] mod_mod_cancel [of 1000 day_ms t] by (simp add: day_of_def)
  finally show ?thesis .
qed

section \<open>The date part of an ISO string\<close>

text \<open>
  \<open>toISOString().slice(0, 10)\<close>: the date, of a year of four digits; an earlier or later year has a
  sign and six digits. Two times after the epoch have the same date string exactly when they
  lie on the same day.
\<close>

definition pad_digits :: "nat \<Rightarrow> int \<Rightarrow> string" where
  "pad_digits w n = (let ds = digits_of n in replicate (w - length ds) CHR ''0'' @ ds)"

definition iso_date :: "int \<Rightarrow> string" where
  "iso_date t = (case utc_fields t of (y, mo, d, _) \<Rightarrow>
     let month_day = CHR ''-'' # pad_digits 2 (mo + 1) @ CHR ''-'' # pad_digits 2 d in
     if 0 \<le> y \<and> y \<le> 9999 then pad_digits 4 y @ month_day
     else take 10 ((if y < 0 then CHR ''-'' else CHR ''+'') # pad_digits 6 \<bar>y\<bar> @ month_day))"

lemma digits_val_append: "digits_val b acc (xs @ ys) = digits_val b (digits_val b acc xs) ys"
  by (induction xs arbitrary: acc) simp_all

lemma digit_char: "0 \<le> n \<Longrightarrow> n < 10 \<Longrightarrow> digit_val (char_of (48 + nat n)) = Some (nat n)"
  by (simp add: digit_val_def Let_def)

lemma digits_of_chars: "0 \<le> n \<Longrightarrow> c \<in> set (digits_of n) \<Longrightarrow> is_digit 10 c"
proof (induction n rule: digits_of.induct)
  case (1 n)
  have last: "is_digit 10 (char_of (48 + nat (n mod 10)))"
    by (simp add: is_digit_def digit_char)
  show ?case
  proof (cases "n < 10")
    case True
    then have "n mod 10 = n" using "1.prems"(1) by simp
    then show ?thesis using "1.prems"(2) True last by (simp add: digits_of.simps [of n])
  next
    case False
    then have "0 \<le> n div 10" by simp
    then show ?thesis
      using "1.IH" [OF False] "1.prems"(2) False last by (subst (asm) digits_of.simps) auto
  qed
qed

lemma digits_of_val: "0 \<le> n \<Longrightarrow> digits_val 10 0 (digits_of n) = nat n"
proof (induction n rule: digits_of.induct)
  case (1 n)
  show ?case
  proof (cases "n < 10")
    case True
    then show ?thesis using 1 by (simp add: digits_of.simps [of n] digit_char)
  next
    case False
    have "digits_val 10 0 (digits_of n) = digits_val 10 0 (digits_of (n div 10)) * 10 + nat (n mod 10)"
      using False by (subst digits_of.simps) (simp add: digits_val_append digit_char)
    also have "\<dots> = nat (n div 10) * 10 + nat (n mod 10)" using "1.IH" [OF False] False by simp
    also have "\<dots> = nat n"
    proof -
      have "int (nat (n div 10) * 10 + nat (n mod 10)) = n div 10 * 10 + n mod 10" using False by simp
      also have "\<dots> = n" by (rule div_mult_mod_eq)
      finally show ?thesis using "1.prems" by (simp only: int_eq_iff)
    qed
    finally show ?thesis .
  qed
qed

lemma digits_val_zeros: "digits_val 10 0 (replicate k CHR ''0'' @ ds) = digits_val 10 0 ds"
  by (induction k) (simp_all add: digit_val_def)

lemma pad_val: "0 \<le> n \<Longrightarrow> digits_val 10 0 (pad_digits w n) = nat n"
  by (simp add: pad_digits_def Let_def digits_val_zeros digits_of_val)

lemma pad_no_dash: "0 \<le> n \<Longrightarrow> CHR ''-'' \<notin> set (pad_digits w n)"
proof
  assume n: "0 \<le> n" and "CHR ''-'' \<in> set (pad_digits w n)"
  then have "CHR ''-'' \<in> set (digits_of n)" by (auto simp: pad_digits_def Let_def)
  from digits_of_chars [OF n this] show False by (simp add: is_digit_def digit_val_def)
qed

lemma year_before_10000: "n < 2932897 \<Longrightarrow> year_from_day n \<le> 9999"
proof -
  assume "n < 2932897"
  then have "146097 * (year_from_day n - 1970) - 507 < 400 * 2932896"
    using day_from_year_bounds(1) [of "year_from_day n"] year_from_day_bounds(1) [of n] by linarith
  then have "146097 * (year_from_day n - 1970) < 146097 * 8030" by linarith
  then show ?thesis by simp
qed

lemma month_start_le:
  "month_start leap (int (length (filter (\<lambda>m. month_start leap m \<le> d) [1, 2, 3, 4, 5, 6, 7, 8, 9, 10, 11]))) \<le> d"
  if "0 \<le> d" for d :: int
  using that by (cases leap) (simp_all add: month_start_def)

lemma date_positive: "1 \<le> date_from_day n"
  using month_start_le [of "n - day_from_year (year_from_day n)" "leap_year (year_from_day n)"]
    year_from_day_bounds(1) [of n]
  by (simp add: date_from_day_def month_from_day_def Let_def)

lemma append_marked_eq:
  "d \<notin> set a \<Longrightarrow> d \<notin> set a' \<Longrightarrow> a @ d # b = a' @ d # b' \<longleftrightarrow> a = a' \<and> b = b'"
proof (induction a arbitrary: a')
  case Nil
  then show ?case by (cases a') auto
next
  case (Cons c a)
  then show ?case by (cases a') auto
qed

lemma iso_date_eq:
  assumes t: "0 \<le> t" "t < 253402300800000" and u: "0 \<le> u" "u < 253402300800000"
  shows "iso_date t = iso_date u \<longleftrightarrow> day_of t = day_of u"
proof
  assume eq: "iso_date t = iso_date u"
  have years: "0 \<le> year_from_day (day_of v)" "year_from_day (day_of v) \<le> 9999"
    if "0 \<le> v" "v < 253402300800000" for v
  proof -
    have "0 \<le> day_of v" using that by (simp add: day_of_def pos_imp_zdiv_nonneg_iff)
    moreover have "day_of v < 2932897" using that unfolding day_of_def by (simp add: div_less_iff_less_mult)
    ultimately show "0 \<le> year_from_day (day_of v)" "year_from_day (day_of v) \<le> 9999"
      using year_after_epoch [of "day_of v"] year_before_10000 [of "day_of v"] by simp_all
  qed
  note yt = years [OF t] and yu = years [OF u]
  note nonneg = month_from_day_range(1) date_positive
  have d: "0 \<le> date_from_day n" for n using date_positive [of n] by simp
  have m: "0 \<le> month_from_day n + 1" for n using month_from_day_range(1) [of n] by simp
  have "pad_digits 4 (year_from_day (day_of t)) = pad_digits 4 (year_from_day (day_of u)) \<and>
      pad_digits 2 (month_from_day (day_of t) + 1) = pad_digits 2 (month_from_day (day_of u) + 1) \<and>
      pad_digits 2 (date_from_day (day_of t)) = pad_digits 2 (date_from_day (day_of u))"
    using eq yt yu by (simp add: iso_date_def utc_fields_def Let_def append_marked_eq pad_no_dash m d)
  then have "nat (year_from_day (day_of t)) = nat (year_from_day (day_of u))"
    "nat (month_from_day (day_of t) + 1) = nat (month_from_day (day_of u) + 1)"
    "nat (date_from_day (day_of t)) = nat (date_from_day (day_of u))"
    using pad_val yt(1) yu(1) m d by metis+
  then have "year_from_day (day_of t) = year_from_day (day_of u)"
    "month_from_day (day_of t) = month_from_day (day_of u)" "date_from_day (day_of t) = date_from_day (day_of u)"
    using yt(1) yu(1) m [of "day_of t"] m [of "day_of u"] d [of "day_of t"] d [of "day_of u"] by linarith+
  then show "day_of t = day_of u"
    using day_roundtrip [of "day_of t" 0] day_roundtrip [of "day_of u" 0] by simp
qed (simp add: iso_date_def utc_fields_def Let_def)

end
