(* ===== verification/RoutineSchedule.thy ===== *)
theory RoutineSchedule
  imports Calendar
begin

text \<open>
  The schedule and the filter of the routines a user writes in plain language
  (\<open>packages/routines/src/schedule.ts\<close> and \<open>match.ts\<close>): the next firing time of an hourly, daily or
  weekly watch in the user's time zone, and which signals a watch sees. The time zone database
  is a parameter: a zone name is unknown (\<open>Intl.DateTimeFormat\<close> throws) or gives the wall clock
  of every instant. For a zone with a fixed offset the schedule is proved exact; for a zone that
  jumps over midnight a counterexample shows that the next firing can lie in the past.
\<close>

section \<open>Routines\<close>

datatype routine_cadence = hourly | daily | weekly

datatype routine_action = digest | notify

record routine_filter =
  rf_sources :: "string list option"
  rf_fromContains :: "string list option"
  rf_keywords :: "string list option"
  rf_domains :: "string list option"

record routine_spec =
  rs_name :: string
  rs_cadence :: routine_cadence
  rs_hourOfDay :: "int option"
  rs_dayOfWeek :: "number option"
  rs_filter :: routine_filter
  rs_action :: routine_action

section \<open>Wall clocks\<close>

text \<open>
  The wall clock of an instant as \<open>formatToParts\<close> gives it: year, month from 1, day, hour, minute,
  second.
\<close>

type_synonym clock = "int \<times> int \<times> int \<times> int \<times> int \<times> int"
type_synonym zones = "string \<Rightarrow> (int \<Rightarrow> clock) option"

definition safeTz :: "zones \<Rightarrow> string \<Rightarrow> string" where
  "safeTz zones tz = (if zones tz = None then ''UTC'' else tz)"

definition tzOffsetMs :: "(int \<Rightarrow> clock) \<Rightarrow> int \<Rightarrow> int" where
  "tzOffsetMs wall t = (case wall t of (y, mo, d, h, mi, s) \<Rightarrow> date_utc y (mo - 1) d h mi s - t)"

definition zonedWallClockToUtc :: "(int \<Rightarrow> clock) \<Rightarrow> int \<Rightarrow> int \<Rightarrow> int \<Rightarrow> int \<Rightarrow> int \<Rightarrow> int" where
  "zonedWallClockToUtc wall y mo d h mi =
     (let guessUtc = date_utc y mo d h mi 0;
          off1 = tzOffsetMs wall guessUtc;
          off2 = tzOffsetMs wall (guessUtc - off1)
      in guessUtc - off2)"

definition zonedParts :: "(int \<Rightarrow> clock) \<Rightarrow> int \<Rightarrow> int \<times> int \<times> int \<times> int" where
  "zonedParts wall t =
     (let n = day_of (t + tzOffsetMs wall t) in
      (year_from_day n, month_from_day n, date_from_day n, week_day n))"

section \<open>The next run\<close>

text \<open>\<open>((Math.trunc(rawDow) % 7) + 7) % 7\<close>; the remainder of an infinity is NaN.\<close>

definition targetDow :: "number \<Rightarrow> int option" where
  "targetDow raw = (case math_trunc raw of Fin a \<Rightarrow> Some (\<lfloor>a\<rfloor> mod 7) | _ \<Rightarrow> None)"

datatype schedule_error = InvalidFrom | UnknownZone

definition next_daily :: "(int \<Rightarrow> clock) \<Rightarrow> int \<Rightarrow> int \<Rightarrow> int" where
  "next_daily wall hour t =
     (case zonedParts wall t of (y, mo, d, _) \<Rightarrow>
       let candidate = zonedWallClockToUtc wall y mo d hour 0 in
       if candidate \<le> t then zonedWallClockToUtc wall y mo (d + 1) hour 0 else candidate)"

definition eight_days :: "int list" where
  "eight_days = [0, 1, 2, 3, 4, 5, 6, 7]"

definition next_weekly :: "(int \<Rightarrow> clock) \<Rightarrow> int \<Rightarrow> number option \<Rightarrow> int \<Rightarrow> int" where
  "next_weekly wall hour dow t =
     (case zonedParts wall t of (y, mo, d, today) \<Rightarrow>
       let target = targetDow (case dow of Some x \<Rightarrow> x | None \<Rightarrow> Fin (of_int today));
           day = (\<lambda>i. zonedWallClockToUtc wall y mo (d + i) hour 0)
       in (case find (\<lambda>i. Some (snd (snd (snd (zonedParts wall (day i))))) = target \<and> t < day i)
                  eight_days of
             Some i \<Rightarrow> day i
           | None \<Rightarrow> day 7))"

text \<open>An invalid date is \<open>None\<close>.\<close>

definition computeNextRun ::
  "zones \<Rightarrow> routine_spec \<Rightarrow> int option \<Rightarrow> string \<Rightarrow> schedule_error + int" where
  "computeNextRun zones spec from_date tzInput =
     (case from_date of
        None \<Rightarrow> Inl InvalidFrom
      | Some t \<Rightarrow>
          if rs_cadence spec = hourly then Inr (t + hour_ms)
          else (case zones (safeTz zones tzInput) of
              None \<Rightarrow> Inl UnknownZone
            | Some wall \<Rightarrow>
                let hour = (case rs_hourOfDay spec of Some h \<Rightarrow> h | None \<Rightarrow> 8) in
                if rs_cadence spec = daily then Inr (next_daily wall hour t)
                else Inr (next_weekly wall hour (rs_dayOfWeek spec) t)))"

section \<open>Zones with a fixed offset\<close>

text \<open>The wall clock that is ahead of UTC by a number of milliseconds.\<close>

definition clock_at :: "int \<Rightarrow> clock" where
  "clock_at t = (case utc_fields t of (y, mo, d, h, mi, s) \<Rightarrow> (y, mo + 1, d, h, mi, s))"

definition fixed_zone :: "int \<Rightarrow> int \<Rightarrow> clock" where
  "fixed_zone off t = clock_at (t + off)"

lemma clock_at_utc:
  assumes "0 \<le> t"
  shows "(case clock_at t of (y, mo, d, h, mi, s) \<Rightarrow> date_utc y (mo - 1) d h mi s) = t - t mod 1000"
proof -
  obtain y mo d h mi s where f: "utc_fields t = (y, mo, d, h, mi, s)" by (metis prod_cases6)
  show ?thesis using utc_fields_roundtrip [OF assms f] by (simp add: clock_at_def f)
qed

lemma fixed_offset:
  assumes "0 \<le> t + off" "1000 dvd off"
  shows "tzOffsetMs (fixed_zone off) t = off - t mod 1000"
proof -
  have "(t + off) mod 1000 = t mod 1000" using assms(2) by (auto elim!: dvdE)
  then show ?thesis
    using clock_at_utc [OF assms(1)] by (auto simp: tzOffsetMs_def fixed_zone_def split: prod.splits)
qed

lemma day_of_second: "day_of (t - t mod 1000) = day_of t"
proof -
  have r: "t mod day_ms mod 1000 = t mod 1000" by (rule mod_mod_cancel) simp
  have "t - t mod 1000 = t div day_ms * day_ms + (t mod day_ms - t mod day_ms mod 1000)"
    using div_mult_mod_eq [of t day_ms] unfolding r by simp
  moreover have "0 \<le> t mod day_ms - t mod day_ms mod 1000" "t mod day_ms - t mod day_ms mod 1000 < day_ms"
    using pos_mod_bound [of day_ms t] pos_mod_sign [of 1000 "t mod day_ms"]
      zmod_le_nonneg_dividend [of "t mod day_ms" 1000] pos_mod_sign [of day_ms t]
    by linarith+
  ultimately show ?thesis unfolding day_of_def by (simp add: div_pos_pos_trivial)
qed

lemma fixed_parts:
  assumes "0 \<le> t + off" "1000 dvd off" and n: "n = day_of (t + off)"
  shows "zonedParts (fixed_zone off) t = (year_from_day n, month_from_day n, date_from_day n, week_day n)"
proof -
  have "(t + off) mod 1000 = t mod 1000" using assms(2) by (auto elim!: dvdE)
  then have "day_of (t + (off - t mod 1000)) = n"
    using day_of_second [of "t + off"] by (simp add: n algebra_simps)
  then show ?thesis by (simp add: zonedParts_def fixed_offset assms(1,2) Let_def)
qed

lemma fixed_wall_clock:
  assumes n: "0 \<le> n" and off: "1000 dvd off" and g: "g = (n + i) * day_ms + h * hour_ms"
    and pos: "0 \<le> g" "0 \<le> g + off"
  shows "zonedWallClockToUtc (fixed_zone off) (year_from_day n) (month_from_day n) (date_from_day n + i) h 0
     = g - off"
proof -
  have g': "date_utc (year_from_day n) (month_from_day n) (date_from_day n + i) h 0 0 = g"
    by (simp add: date_utc_day [OF n] g)
  have dvd: "1000 dvd g" unfolding g by (intro dvd_add dvd_mult) simp_all
  have first: "tzOffsetMs (fixed_zone off) g = off"
    using dvd by (simp add: fixed_offset [OF pos(2) off])
  have "1000 dvd g - off" using dvd off by (rule dvd_diff)
  then have second: "tzOffsetMs (fixed_zone off) (g - off) = off"
    using fixed_offset [of "g - off" off] pos(1) off by simp
  show ?thesis unfolding zonedWallClockToUtc_def Let_def g' first second ..
qed

text \<open>The instant of a whole hour of a local day, and how a day and its instants determine each other.\<close>

definition at_local :: "int \<Rightarrow> int \<Rightarrow> int \<Rightarrow> int" where
  "at_local off hour k = k * day_ms + hour * hour_ms - off"

lemma quotient_parts: "0 \<le> x \<Longrightarrow> x < d \<Longrightarrow> (k * d + x) div d = k \<and> (k * d + x) mod d = x"
  for k d x :: int
  by (simp add: div_pos_pos_trivial mod_pos_pos_trivial)

lemma at_local_day:
  assumes "0 \<le> hour" "hour < 24"
  shows "day_of (at_local off hour k + off) = k" "(at_local off hour k + off) mod day_ms = hour * hour_ms"
proof -
  have "0 \<le> hour * hour_ms" "hour * hour_ms < day_ms" using assms by linarith+
  from quotient_parts [OF this, of k]
  show "day_of (at_local off hour k + off) = k" "(at_local off hour k + off) mod day_ms = hour * hour_ms"
    by (simp_all add: at_local_def day_of_def)
qed

lemma at_local_unique:
  assumes "(u + off) mod day_ms = hour * hour_ms"
  shows "u = at_local off hour (day_of (u + off))"
  using div_mult_mod_eq [of "u + off" day_ms] unfolding assms at_local_def day_of_def by linarith

lemma at_local_mono: "i \<le> j \<Longrightarrow> at_local off hour i \<le> at_local off hour j"
  using mult_right_mono [of i j day_ms] by (simp add: at_local_def)

text \<open>
  The situation of the schedule's theorems: an offset of whole seconds and less than a day, an hour
  of the day, and a time after the first two days of the epoch, on local day \<open>n\<close>.
\<close>

definition local_now :: "int \<Rightarrow> int \<Rightarrow> int \<Rightarrow> int \<Rightarrow> bool" where
  "local_now off hour t n \<longleftrightarrow> 1000 dvd off \<and> - day_ms < off \<and> off < day_ms \<and>
     0 \<le> hour \<and> hour < 24 \<and> 2 * day_ms \<le> t \<and> n = day_of (t + off)"

lemma local_nowD:
  assumes "local_now off hour t n"
  shows "1000 dvd off" "- day_ms < off" "off < day_ms" "0 \<le> hour" "hour < 24" "2 * day_ms \<le> t"
    "n = day_of (t + off)"
  using assms by (simp_all add: local_now_def)

lemma now_bounds:
  assumes now: "local_now off hour t n"
  shows "n * day_ms \<le> t + off" "t + off < n * day_ms + day_ms" "1 \<le> n"
proof -
  show a: "n * day_ms \<le> t + off" "t + off < n * day_ms + day_ms"
    unfolding local_nowD(7) [OF now] day_of_def
    using pos_mod_bound [of day_ms "t + off"] pos_mod_sign [of day_ms "t + off"]
      div_mult_mod_eq [of "t + off" day_ms] by linarith+
  have "day_ms < n * day_ms + day_ms" using a(2) local_nowD(2,6) [OF now] by linarith
  then show "1 \<le> n" by linarith
qed

lemma parts_now:
  assumes now: "local_now off hour t n"
  shows "zonedParts (fixed_zone off) t = (year_from_day n, month_from_day n, date_from_day n, week_day n)"
  using local_nowD [OF now] by (intro fixed_parts) simp_all

lemma positive_day: "local_now off hour t n \<Longrightarrow> 0 \<le> i \<Longrightarrow> day_ms \<le> (n + i) * day_ms"
  using mult_right_mono [of 1 "n + i" day_ms] now_bounds(3) by force

lemma wall_candidate:
  assumes now: "local_now off hour t n" and i: "0 \<le> i"
  shows "zonedWallClockToUtc (fixed_zone off) (year_from_day n) (month_from_day n) (date_from_day n + i) hour 0
     = at_local off hour (n + i)"
  unfolding at_local_def
proof (rule fixed_wall_clock [OF _ local_nowD(1) [OF now] refl])
  show "0 \<le> n" using now_bounds(3) [OF now] by simp
  show "0 \<le> (n + i) * day_ms + hour * hour_ms" "0 \<le> (n + i) * day_ms + hour * hour_ms + off"
    using local_nowD(2,4) [OF now] positive_day [OF now i] by linarith+
qed

lemma candidate_parts:
  assumes now: "local_now off hour t n" and i: "0 \<le> i"
  shows "snd (snd (snd (zonedParts (fixed_zone off) (at_local off hour (n + i))))) = week_day (n + i)"
proof -
  note hour = local_nowD(4,5) [OF now]
  have "0 \<le> at_local off hour (n + i) + off"
    using hour(1) positive_day [OF now i] unfolding at_local_def by linarith
  from fixed_parts [OF this local_nowD(1) [OF now] at_local_day(1) [OF hour, symmetric]]
  show ?thesis by (simp only: snd_conv)
qed

text \<open>Every later instant at that hour is that of some day from today on; tomorrow's is later.\<close>

lemma later_candidate:
  assumes now: "local_now off hour t n" and "t < u" "(u + off) mod day_ms = hour * hour_ms"
  shows "\<exists>j. 0 \<le> j \<and> u = at_local off hour (n + j) \<and> day_of (u + off) = n + j"
proof -
  define k where "k = day_of (u + off)"
  have u: "u = at_local off hour k" unfolding k_def by (rule at_local_unique [OF assms(3)])
  have "n * day_ms < k * day_ms + day_ms"
    using assms(2) local_nowD(5) [OF now] now_bounds(1) [OF now] unfolding u at_local_def by linarith
  then have "0 \<le> k - n" by linarith
  moreover have k: "n + (k - n) = k" by simp
  have "u = at_local off hour (n + (k - n))" "day_of (u + off) = n + (k - n)"
    unfolding k by (rule u, rule k_def [symmetric])
  ultimately show ?thesis by blast
qed

lemma tomorrow_later:
  assumes now: "local_now off hour t n" and "1 \<le> i"
  shows "t < at_local off hour (n + i)"
  using now_bounds(2) [OF now] local_nowD(4) [OF now] mult_right_mono [of "n + 1" "n + i" day_ms] assms(2)
  unfolding at_local_def distrib_right by linarith

lemma next_daily_eq:
  assumes now: "local_now off hour t n"
  shows "next_daily (fixed_zone off) hour t =
     (if at_local off hour n \<le> t then at_local off hour (n + 1) else at_local off hour n)"
  using wall_candidate [OF now, of 0] wall_candidate [OF now, of 1]
  by (simp add: next_daily_def parts_now [OF now] Let_def)

definition hits :: "int \<Rightarrow> int \<Rightarrow> int \<Rightarrow> int \<Rightarrow> int option \<Rightarrow> int \<Rightarrow> bool" where
  "hits off hour t n target i \<longleftrightarrow> Some (week_day (n + i)) = target \<and> t < at_local off hour (n + i)"

lemma next_weekly_eq:
  assumes now: "local_now off hour t n"
    and target: "target = targetDow (case dow of Some x \<Rightarrow> x | None \<Rightarrow> Fin (of_int (week_day n)))"
  shows "next_weekly (fixed_zone off) hour dow t =
     (case find (hits off hour t n target) eight_days of
        Some i \<Rightarrow> at_local off hour (n + i) | None \<Rightarrow> at_local off hour (n + 7))"
proof -
  have same: "zonedWallClockToUtc (fixed_zone off) (year_from_day n) (month_from_day n)
      (date_from_day n + i) hour 0 = at_local off hour (n + i)" if "i \<in> set eight_days" for i
    using that by (intro wall_candidate [OF now]) (auto simp: eight_days_def)
  have found: "find (\<lambda>i. Some (snd (snd (snd (zonedParts (fixed_zone off) (zonedWallClockToUtc (fixed_zone off)
        (year_from_day n) (month_from_day n) (date_from_day n + i) hour 0))))) = target \<and>
      t < zonedWallClockToUtc (fixed_zone off) (year_from_day n) (month_from_day n) (date_from_day n + i) hour 0)
      eight_days = find (hits off hour t n target) eight_days"
  proof (rule find_cong_set)
    fix i assume i: "i \<in> set eight_days"
    then have "0 \<le> i" by (auto simp: eight_days_def)
    then show "(Some (snd (snd (snd (zonedParts (fixed_zone off) (zonedWallClockToUtc (fixed_zone off)
        (year_from_day n) (month_from_day n) (date_from_day n + i) hour 0))))) = target \<and>
      t < zonedWallClockToUtc (fixed_zone off) (year_from_day n) (month_from_day n) (date_from_day n + i) hour 0)
      = hits off hour t n target i"
      by (simp only: same [OF i] candidate_parts [OF now] hits_def)
  qed
  have seven: "7 \<in> set eight_days" by (simp add: eight_days_def)
  show ?thesis
    unfolding next_weekly_def parts_now [OF now] prod.case Let_def target [symmetric] found
    using same seven by (auto split: option.splits dest: find_Some_in)
qed

lemma weekly_hit:
  assumes now: "local_now off hour t n" and "0 \<le> w" "w < 7"
  shows "\<exists>i \<in> set eight_days. hits off hour t n (Some w) i"
proof -
  define i where "i = (w - week_day n - 1) mod 7 + 1"
  have range: "1 \<le> i" "i \<le> 7" unfolding i_def using pos_mod_bound [of 7 "w - week_day n - 1"]
      pos_mod_sign [of 7 "w - week_day n - 1"] by linarith+
  have "week_day (n + i) = (week_day n + ((w - week_day n - 1) mod 7 + 1)) mod 7"
    unfolding week_day_add i_def ..
  also have "\<dots> = (week_day n + ((w - week_day n - 1) + 1)) mod 7" by (metis mod_add_left_eq mod_add_right_eq)
  also have "\<dots> = w mod 7" by simp
  finally have "week_day (n + i) = w" using assms(2,3) by simp
  moreover have "i = 1 \<or> i = 2 \<or> i = 3 \<or> i = 4 \<or> i = 5 \<or> i = 6 \<or> i = 7" using range by linarith
  then have "i \<in> set eight_days" by (auto simp: eight_days_def)
  ultimately show ?thesis using tomorrow_later [OF now range(1)] unfolding hits_def by blast
qed

text \<open>The first hit of an ascending list of days, against any day that hits.\<close>

lemma eight_days_nth: "k < 8 \<Longrightarrow> eight_days ! k = int k"
  by (auto simp: eight_days_def less_Suc_eq numeral_eq_Suc)

lemma first_hit:
  assumes "\<exists>i \<in> set eight_days. P i"
  shows "\<exists>i. find P eight_days = Some i \<and> 0 \<le> i \<and> P i \<and> (\<forall>j. 0 \<le> j \<and> P j \<longrightarrow> i \<le> j)"
proof -
  obtain i where i: "find P eight_days = Some i"
    using assms by (cases "find P eight_days") (auto simp: find_None_all)
  moreover have "length eight_days = 8" by (simp add: eight_days_def)
  ultimately obtain k where k: "k < 8" "i = eight_days ! k" "P i" "\<forall>m < k. \<not> P (eight_days ! m)"
    by (auto simp: find_Some_iff)
  have "i \<le> j" if "0 \<le> j" "P j" for j
  proof (rule ccontr)
    assume "\<not> i \<le> j"
    then have "nat j < k" "nat j < 8" using k(1,2) eight_days_nth [OF k(1)] that(1) by auto
    then show False using k(4) that eight_days_nth [of "nat j"] by auto
  qed
  then show ?thesis using i k(3) eight_days_nth [OF k(1)] k(2) by auto
qed

section \<open>The schedule is exact in a zone with a fixed offset\<close>

definition fires_at :: "int \<Rightarrow> int \<Rightarrow> int option \<Rightarrow> int \<Rightarrow> bool" where
  "fires_at off hour dow u \<longleftrightarrow> (u + off) mod day_ms = hour * hour_ms \<and>
     (case dow of None \<Rightarrow> True | Some w \<Rightarrow> week_day (day_of (u + off)) = w)"

lemma daily_least:
  assumes now: "local_now off hour t n" and r: "r = next_daily (fixed_zone off) hour t"
  shows "t < r \<and> fires_at off hour None r \<and> (\<forall>u. t < u \<and> fires_at off hour None u \<longrightarrow> r \<le> u)"
proof -
  have "r \<le> u" if u: "t < u" "(u + off) mod day_ms = hour * hour_ms" for u
  proof -
    obtain j where j: "0 \<le> j" "u = at_local off hour (n + j)" using later_candidate [OF now u] by blast
    then show ?thesis
      using u(1) at_local_mono [of n "n + j" off hour] at_local_mono [of "n + 1" "n + j" off hour]
      by (cases "j = 0") (auto simp: r next_daily_eq [OF now])
  qed
  moreover have "t < r" using tomorrow_later [OF now, of 1] by (auto simp: r next_daily_eq [OF now])
  moreover have "(r + off) mod day_ms = hour * hour_ms"
    by (simp add: r next_daily_eq [OF now] at_local_day [OF local_nowD(4,5) [OF now]])
  ultimately show ?thesis by (auto simp: fires_at_def)
qed

lemma targetDow_range: "targetDow x = Some w \<Longrightarrow> 0 \<le> w \<and> w < 7"
  by (auto simp: targetDow_def split: number.splits)

lemma weekly_least:
  assumes now: "local_now off hour t n"
    and w: "targetDow (case dow of Some x \<Rightarrow> x | None \<Rightarrow> Fin (of_int (week_day n))) = Some w"
    and r: "r = next_weekly (fixed_zone off) hour dow t"
  shows "t < r \<and> fires_at off hour (Some w) r \<and> (\<forall>u. t < u \<and> fires_at off hour (Some w) u \<longrightarrow> r \<le> u)"
proof -
  have range: "0 \<le> w" "w < 7" using targetDow_range [OF w] by auto
  obtain i where i: "find (hits off hour t n (Some w)) eight_days = Some i" "0 \<le> i"
      "hits off hour t n (Some w) i" "\<And>j. 0 \<le> j \<Longrightarrow> hits off hour t n (Some w) j \<Longrightarrow> i \<le> j"
    using first_hit [OF weekly_hit [OF now range]] by blast
  have r': "r = at_local off hour (n + i)"
    unfolding r next_weekly_eq [OF now w [symmetric]] i(1) by simp
  have "r \<le> u" if u: "t < u" "(u + off) mod day_ms = hour * hour_ms" "week_day (day_of (u + off)) = w" for u
  proof -
    obtain j where j: "0 \<le> j" "u = at_local off hour (n + j)" "day_of (u + off) = n + j"
      using later_candidate [OF now u(1,2)] by blast
    then have "hits off hour t n (Some w) j" using u(1,3) by (simp add: hits_def)
    from i(4) [OF j(1) this] show ?thesis unfolding r' j(2) by (intro at_local_mono) simp
  qed
  then show ?thesis
    using i(3) at_local_day [OF local_nowD(4,5) [OF now]] unfolding r' fires_at_def hits_def by auto
qed

text \<open>C18: In a time zone with a fixed offset the next firing of a daily or weekly watch is the first
  instant after now at which the local clock shows the watch's hour, on the watch's day if it is
  weekly; it is never now or in the past.\<close>

theorem next_run_exact:
  assumes zone: "zones (safeTz zones tz) = Some (fixed_zone off)"
    and now: "local_now off (case rs_hourOfDay spec of Some h \<Rightarrow> h | None \<Rightarrow> 8) t n"
    and cadence: "rs_cadence spec \<noteq> hourly"
    and day: "dow = (if rs_cadence spec = daily then None
      else targetDow (case rs_dayOfWeek spec of Some x \<Rightarrow> x | None \<Rightarrow> Fin (of_int (week_day n))))"
    and valid: "rs_cadence spec = daily \<or> dow \<noteq> None"
  shows "\<exists>r. computeNextRun zones spec (Some t) tz = Inr r \<and> t < r \<and>
     fires_at off (case rs_hourOfDay spec of Some h \<Rightarrow> h | None \<Rightarrow> 8) dow r \<and>
     (\<forall>u. t < u \<and> fires_at off (case rs_hourOfDay spec of Some h \<Rightarrow> h | None \<Rightarrow> 8) dow u \<longrightarrow> r \<le> u)"
proof (cases "rs_cadence spec = daily")
  case True
  then have "dow = None" using day by simp
  then show ?thesis
    using daily_least [OF now refl] True by (simp add: computeNextRun_def zone Let_def)
next
  case False
  then obtain w where w: "dow = Some w" using valid by auto
  then have "targetDow (case rs_dayOfWeek spec of Some x \<Rightarrow> x | None \<Rightarrow> Fin (of_int (week_day n))) = Some w"
    using day False by simp
  from weekly_least [OF now this refl] show ?thesis
    using cadence False by (simp add: computeNextRun_def zone Let_def w)
qed

text \<open>A weekly watch for Fridays at 17 hours in a zone seven hours behind UTC, asked on a Saturday.\<close>

definition friday_watch :: routine_spec where
  "friday_watch = \<lparr> rs_name = ''Friday email digest'', rs_cadence = weekly, rs_hourOfDay = Some 17,
     rs_dayOfWeek = Some (Fin 5), rs_filter = \<lparr> rf_sources = Some [''gmail''], rf_fromContains = None,
       rf_keywords = None, rf_domains = None \<rparr>, rs_action = digest \<rparr>"

definition one_zone :: "string \<Rightarrow> (int \<Rightarrow> clock) \<Rightarrow> zones" where
  "one_zone name wall = (\<lambda>tz. if tz = name then Some wall else if tz = ''UTC'' then Some (fixed_zone 0) else None)"

theorem next_run_exact_witness:
  "\<exists>r. computeNextRun (one_zone ''Etc/GMT+7'' (fixed_zone (- 25200000))) friday_watch
        (Some 1763200000000) ''Etc/GMT+7'' = Inr r \<and> 1763200000000 < r \<and>
     fires_at (- 25200000) 17 (Some 5) r \<and>
     (\<forall>u. 1763200000000 < u \<and> fires_at (- 25200000) 17 (Some 5) u \<longrightarrow> r \<le> u)"
proof -
  have now: "local_now (- 25200000) (case rs_hourOfDay friday_watch of Some h \<Rightarrow> h | None \<Rightarrow> 8)
      1763200000000 20407"
    by (simp add: local_now_def friday_watch_def day_of_def)
  have zone: "one_zone ''Etc/GMT+7'' (fixed_zone (- 25200000))
      (safeTz (one_zone ''Etc/GMT+7'' (fixed_zone (- 25200000))) ''Etc/GMT+7'') = Some (fixed_zone (- 25200000))"
    by (simp add: one_zone_def safeTz_def)
  have day: "Some 5 = (if rs_cadence friday_watch = daily then None
      else targetDow (case rs_dayOfWeek friday_watch of Some x \<Rightarrow> x | None \<Rightarrow> Fin (of_int (week_day 20407))))"
    by (simp add: friday_watch_def targetDow_def)
  have "rs_cadence friday_watch \<noteq> hourly" by (simp add: friday_watch_def)
  from next_run_exact [of "one_zone ''Etc/GMT+7'' (fixed_zone (- 25200000))" "''Etc/GMT+7''" "- 25200000" friday_watch 1763200000000 20407 "Some 5",
      OF zone now this day]
  show ?thesis by (simp add: friday_watch_def)
qed

section \<open>A zone that jumps over midnight\<close>

text \<open>
  The wall clock whose offset changes at an instant, as in the spring of a zone with daylight
  saving time. In some zones the clock jumps from 00:00 to 01:00.
\<close>

definition jumping_zone :: "int \<Rightarrow> int \<Rightarrow> int \<Rightarrow> int \<Rightarrow> clock" where
  "jumping_zone change before_off after_off t = clock_at (t + (if t < change then before_off else after_off))"

definition midnight_watch :: routine_spec where
  "midnight_watch = friday_watch \<lparr> rs_cadence := daily, rs_hourOfDay := Some 0, rs_dayOfWeek := None \<rparr>"

text \<open>The next firing can lie in the past: for a daily watch at midnight, asked half an hour before
  a spring change at midnight (the zone of Havana, 9 March 2025), it is half an hour before now.\<close>

theorem next_run_in_the_past:
  "computeNextRun (one_zone ''America/Havana'' (jumping_zone 1741496400000 (- 18000000) (- 14400000)))
     midnight_watch (Some 1741494600000) ''America/Havana'' = Inr (1741494600000 - 1800000)"
proof -
  let ?wall = "jumping_zone 1741496400000 (- 18000000) (- 14400000)"
  have clock: "tzOffsetMs ?wall u = (case clock_at v of (y, mo, d, h, mi, s) \<Rightarrow> date_utc y (mo - 1) d h mi s) - u"
    if "v = u + (if u < 1741496400000 then - 18000000 else - 14400000)" for u v
    by (simp add: tzOffsetMs_def jumping_zone_def that split: prod.splits)
  have whole: "tzOffsetMs ?wall u = v - v mod 1000 - u"
    if "v = u + (if u < 1741496400000 then - 18000000 else - 14400000)" "0 \<le> v" for u v
    unfolding clock [OF that(1)] clock_at_utc [OF that(2)] ..
  have now: "tzOffsetMs ?wall 1741494600000 = - 18000000"
    by (subst whole [of 1741476600000]) simp_all
  have parts: "zonedParts ?wall 1741494600000 = (2025, 2, 8, 6)"
  proof -
    have "day_of (1741494600000 + - 18000000) = 20155" by (simp add: day_of_def)
    moreover have y: "year_from_day 20155 = 2025" by (simp add: year_from_day_def day_from_year_def)
    moreover have m: "month_from_day 20155 = 2"
      by (simp add: month_from_day_def y day_from_year_def month_start_def leap_year_def)
    moreover have "date_from_day 20155 = 8"
      by (simp add: date_from_day_def y m day_from_year_def month_start_def leap_year_def)
    ultimately show ?thesis by (simp add: zonedParts_def now week_day_def)
  qed
  have today: "date_utc 2025 2 8 0 0 0 = 1741392000000" by (simp add: calendar_defs)
  have tomorrow: "date_utc 2025 2 9 0 0 0 = 1741478400000" by (simp add: calendar_defs)
  have offs: "tzOffsetMs ?wall 1741392000000 = - 18000000" "tzOffsetMs ?wall 1741410000000 = - 18000000"
    "tzOffsetMs ?wall 1741478400000 = - 18000000" "tzOffsetMs ?wall 1741496400000 = - 14400000"
    by (subst whole [OF refl]; simp)+
  have "zonedWallClockToUtc ?wall 2025 2 8 0 0 = 1741410000000"
    "zonedWallClockToUtc ?wall 2025 2 9 0 0 = 1741492800000"
    by (simp_all add: zonedWallClockToUtc_def today tomorrow offs Let_def)
  then have "next_daily ?wall 0 1741494600000 = 1741492800000"
    by (simp add: next_daily_def parts Let_def)
  then show ?thesis
    by (simp add: computeNextRun_def safeTz_def one_zone_def midnight_watch_def friday_watch_def)
qed

section \<open>The filter\<close>

text \<open>
  A signal as the scheduler sees it. A list field of the filter that is absent or empty asks for
  nothing; a domain stands for its related terms.
\<close>

record matchable_signal =
  ms_source :: string
  ms_from :: string
  ms_text :: string

text \<open>The lookup also finds the two members of \<open>Object.prototype\<close> with names in lower case; what
  \<open>includes\<close> makes of them is a text with a capital.\<close>

definition DOMAIN_TERMS :: "string \<Rightarrow> string list option" where
  "DOMAIN_TERMS d =
     (if d = ''security''
      then Some [''security'', ''phishing'', ''suspicious'', ''breach'', ''compromis'', ''fraud'']
      else if d = ''scheduling''
      then Some [''scheduling'', ''conflict'', ''double-book'', ''double book'', ''reschedul'']
      else if d = ''constructor'' then Some [''function Object() { [native code] }'']
      else if d = ''__proto__'' then Some [''[object Object]'']
      else None)"

definition domain_terms :: "string \<Rightarrow> string list" where
  "domain_terms raw = (case DOMAIN_TERMS (to_lower raw) of Some ts \<Rightarrow> ts | None \<Rightarrow> [to_lower raw])"

definition asks :: "string list option \<Rightarrow> bool" where
  "asks field \<longleftrightarrow> (case field of None \<Rightarrow> False | Some xs \<Rightarrow> xs \<noteq> [])"

definition matchesFilter :: "matchable_signal \<Rightarrow> routine_filter \<Rightarrow> bool" where
  "matchesFilter sig f =
     (let source = to_lower (ms_source sig); sender = to_lower (ms_from sig); body = to_lower (ms_text sig) in
      if asks (rf_sources f) \<and> \<not> list_ex (\<lambda>s. to_lower s = source) (the (rf_sources f)) then False
      else if asks (rf_fromContains f)
        \<and> \<not> list_ex (\<lambda>s. str_includes sender (to_lower s)) (the (rf_fromContains f)) then False
      else if asks (rf_keywords f)
        \<and> \<not> list_ex (\<lambda>k. str_includes body (to_lower k)) (the (rf_keywords f)) then False
      else if asks (rf_domains f)
        \<and> \<not> list_ex (str_includes body) (concat (map domain_terms (the (rf_domains f)))) then False
      else True)"

text \<open>Adding a further entry to a field in use never loses a signal; using an unused field never gains one.\<close>

definition wider :: "string list option \<Rightarrow> string list option \<Rightarrow> bool" where
  "wider g f \<longleftrightarrow> (asks g \<longrightarrow> asks f \<and> set (the f) \<subseteq> set (the g))"

lemma wider_ex: "wider g f \<Longrightarrow> asks g \<Longrightarrow> list_ex P (the f) \<Longrightarrow> list_ex P (the g)"
  by (auto simp: wider_def list_ex_iff)

lemma wider_asks: "wider g f \<Longrightarrow> asks g \<Longrightarrow> asks f"
  by (simp add: wider_def)

text \<open>The filter is monotone: relaxing any of its fields, by more alternatives or by giving the
  field up, keeps every signal it matched.\<close>

theorem wider_filter_matches:
  assumes "matchesFilter sig f"
    and "wider (rf_sources g) (rf_sources f)" "wider (rf_fromContains g) (rf_fromContains f)"
      "wider (rf_keywords g) (rf_keywords f)" "wider (rf_domains g) (rf_domains f)"
  shows "matchesFilter sig g"
proof -
  have domains: "list_ex P (concat (map domain_terms (the (rf_domains g))))"
    if "asks (rf_domains g)" "list_ex P (concat (map domain_terms (the (rf_domains f))))" for P
    using that assms(5) by (fastforce simp: wider_def list_ex_iff)
  show ?thesis
    using assms(1) wider_asks [OF assms(2)] wider_asks [OF assms(3)] wider_asks [OF assms(4)]
      wider_asks [OF assms(5)] wider_ex [OF assms(2)] wider_ex [OF assms(3)] wider_ex [OF assms(4)] domains
    by (auto simp: matchesFilter_def Let_def split: if_splits)
qed

theorem wider_filter_matches_witness:
  "matchesFilter \<lparr> ms_source = ''Gmail'', ms_from = ''Ann <ann@acme.com>'', ms_text = ''Fraud alert'' \<rparr>
     \<lparr> rf_sources = Some [''gmail'', ''outlook''], rf_fromContains = None, rf_keywords = None,
       rf_domains = Some [''Security''] \<rparr>"
  by (rule wider_filter_matches [of _ "\<lparr> rf_sources = Some [''gmail''], rf_fromContains = Some [''@acme''],
      rf_keywords = None, rf_domains = Some [''Security''] \<rparr>"]; code_simp)

end
