(* ===== verification/IdleGovernor.thy ===== *)
theory IdleGovernor
  imports Calendar
begin

text \<open>
  The resource governor of the idle miner (\<open>packages/idle-miner/src/governor.ts\<close>) and the detector
  that its host drives (\<open>EventDrivenIdleDetector\<close> of \<open>idle-detector.ts\<close>): the private fields as
  records, one definition per method. Clock readings are milliseconds since the epoch; options
  are numbers, NaN included. The quotient of the rolling CPU percentage is taken exactly.
\<close>

section \<open>Options and the constructor\<close>

definition IO_BUDGET_HARD_CEILING_BYTES :: rat where
  "IO_BUDGET_HARD_CEILING_BYTES = 5368709120"

record governor_options =
  go_cpuPercentCap :: number
  go_cpuWindowMs :: number
  go_yieldOnInputMs :: number
  go_batteryPctCap :: number
  go_thermalPauseStates :: "string list"
  go_ioBudgetBytesPerDay :: number
  go_ioBudgetBytesHardCeiling :: number
  go_memoryRssCapBytes :: number

definition GOVERNOR_DEFAULTS :: governor_options where
  "GOVERNOR_DEFAULTS = \<lparr> go_cpuPercentCap = Fin 2, go_cpuWindowMs = Fin 60000, go_yieldOnInputMs = Fin 200,
     go_batteryPctCap = Fin 20, go_thermalPauseStates = [''serious'', ''critical''],
     go_ioBudgetBytesPerDay = Fin 1073741824,
     go_ioBudgetBytesHardCeiling = Fin IO_BUDGET_HARD_CEILING_BYTES,
     go_memoryRssCapBytes = Fin 67108864 \<rparr>"

record cpu_sample =
  cs_timestampMs :: int
  cs_elapsedMs :: int
  cs_usageMs :: rat

record governor =
  gv_opts :: governor_options
  gv_lastInputMs :: number
  gv_thermalState :: string
  gv_batteryPct :: number
  gv_batteryCharging :: bool
  gv_bytesScannedToday :: number
  gv_rssBytes :: number
  gv_rolledOverDate :: string
  gv_cpuSamples :: "cpu_sample list"
  gv_lastCpuSampleMs :: int

datatype governor_error = BudgetAboveCeiling number | CeilingAboveConstant

text \<open>The caller's options, already merged over the defaults.\<close>

definition new_governor :: "governor_options \<Rightarrow> int \<Rightarrow> governor_error + governor" where
  "new_governor merged now =
     (if num_lt (Fin IO_BUDGET_HARD_CEILING_BYTES) (go_ioBudgetBytesPerDay merged)
      then Inl (BudgetAboveCeiling (go_ioBudgetBytesPerDay merged))
      else if num_lt (Fin IO_BUDGET_HARD_CEILING_BYTES) (go_ioBudgetBytesHardCeiling merged)
      then Inl CeilingAboveConstant
      else Inr \<lparr> gv_opts = merged, gv_lastInputMs = NegInf, gv_thermalState = ''nominal'',
        gv_batteryPct = Fin 100, gv_batteryCharging = True, gv_bytesScannedToday = Fin 0,
        gv_rssBytes = Fin 0, gv_rolledOverDate = iso_date now, gv_cpuSamples = [],
        gv_lastCpuSampleMs = 0 \<rparr>)"

section \<open>Methods\<close>

definition rolloverIfNeeded :: "int \<Rightarrow> governor \<Rightarrow> governor" where
  "rolloverIfNeeded now g =
     (if iso_date now \<noteq> gv_rolledOverDate g
      then g \<lparr> gv_bytesScannedToday := Fin 0, gv_rolledOverDate := iso_date now \<rparr> else g)"

definition reportInputEvent :: "int \<Rightarrow> governor \<Rightarrow> governor" where
  "reportInputEvent now g = g \<lparr> gv_lastInputMs := Fin (of_int now) \<rparr>"

definition reportThermalState :: "string \<Rightarrow> governor \<Rightarrow> governor" where
  "reportThermalState st g = g \<lparr> gv_thermalState := st \<rparr>"

definition reportBatteryState :: "number \<Rightarrow> bool \<Rightarrow> governor \<Rightarrow> governor" where
  "reportBatteryState pct charging g = g \<lparr> gv_batteryPct := pct, gv_batteryCharging := charging \<rparr>"

definition reportBytesRead :: "int \<Rightarrow> number \<Rightarrow> governor \<Rightarrow> governor" where
  "reportBytesRead now n g = (let g1 = rolloverIfNeeded now g in
     g1 \<lparr> gv_bytesScannedToday := num_add (gv_bytesScannedToday g1) n \<rparr>)"

definition reportRssBytes :: "number \<Rightarrow> governor \<Rightarrow> governor" where
  "reportRssBytes n g = g \<lparr> gv_rssBytes := n \<rparr>"

definition recordCpuSample :: "int \<Rightarrow> rat \<Rightarrow> governor \<Rightarrow> governor" where
  "recordCpuSample now usage g =
     (let gap = now - gv_lastCpuSampleMs g in
      if gv_lastCpuSampleMs g = 0 \<or> gap < 100 then g \<lparr> gv_lastCpuSampleMs := now \<rparr>
      else let sample = \<lparr> cs_timestampMs = now, cs_elapsedMs = gap, cs_usageMs = usage \<rparr>;
               cutoff = num_sub (Fin (of_int now)) (go_cpuWindowMs (gv_opts g))
           in g \<lparr> gv_lastCpuSampleMs := now,
                gv_cpuSamples := filter (\<lambda>s. num_le cutoff (Fin (of_int (cs_timestampMs s))))
                  (gv_cpuSamples g @ [sample]) \<rparr>)"

definition rollingCpuPct :: "governor \<Rightarrow> rat" where
  "rollingCpuPct g =
     (let samples = gv_cpuSamples g;
          totalElapsed = sum_list (map cs_elapsedMs samples);
          totalUsage = sum_list (map cs_usageMs samples)
      in if samples = [] then 0 else if totalElapsed = 0 then 0
         else totalUsage / of_int totalElapsed * 100)"

definition recent_input :: "int \<Rightarrow> governor \<Rightarrow> bool" where
  "recent_input now g =
     num_le (num_sub (Fin (of_int now)) (gv_lastInputMs g)) (go_yieldOnInputMs (gv_opts g))"

definition cpu_over_cap :: "governor \<Rightarrow> bool" where
  "cpu_over_cap g = num_lt (go_cpuPercentCap (gv_opts g)) (Fin (rollingCpuPct g))"

definition thermal_pause :: "governor \<Rightarrow> bool" where
  "thermal_pause g = (gv_thermalState g \<in> set (go_thermalPauseStates (gv_opts g)))"

definition battery_low :: "governor \<Rightarrow> bool" where
  "battery_low g = (\<not> gv_batteryCharging g \<and> num_lt (gv_batteryPct g) (go_batteryPctCap (gv_opts g)))"

definition io_spent :: "governor \<Rightarrow> bool" where
  "io_spent g = num_le (go_ioBudgetBytesPerDay (gv_opts g)) (gv_bytesScannedToday g)"

definition memory_over_cap :: "governor \<Rightarrow> bool" where
  "memory_over_cap g = num_lt (go_memoryRssCapBytes (gv_opts g)) (gv_rssBytes g)"

text \<open>\<open>shouldYield\<close> with the clock and the CPU reading of its call.\<close>

definition shouldYield :: "int \<Rightarrow> rat \<Rightarrow> governor \<Rightarrow> bool \<times> governor" where
  "shouldYield now usage g =
     (let g2 = recordCpuSample now usage (rolloverIfNeeded now g) in
      (if recent_input now g2 then True
       else if cpu_over_cap g2 then True
       else if thermal_pause g2 then True
       else if battery_low g2 then True
       else if io_spent g2 then True
       else if memory_over_cap g2 then True
       else False, g2))"

datatype pause_reason = cpu | thermal | battery | io_budget | memory | user_input

record governor_state =
  gs_paused :: bool
  gs_pauseReason :: "pause_reason option"
  gs_cpuPctRolling :: rat
  gs_bytesScannedToday :: number
  gs_rolledOverDate :: string

definition governor_report :: "int \<Rightarrow> governor \<Rightarrow> governor_state \<times> governor" where
  "governor_report now g =
     (let g1 = rolloverIfNeeded now g;
          reason = (if recent_input now g1 then Some user_input
            else if cpu_over_cap g1 then Some cpu
            else if thermal_pause g1 then Some thermal
            else if battery_low g1 then Some battery
            else if io_spent g1 then Some io_budget
            else if memory_over_cap g1 then Some memory
            else None)
      in (\<lparr> gs_paused = (reason \<noteq> None), gs_pauseReason = reason, gs_cpuPctRolling = rollingCpuPct g1,
            gs_bytesScannedToday = gv_bytesScannedToday g1, gs_rolledOverDate = gv_rolledOverDate g1 \<rparr>, g1))"

section \<open>Asking to yield and reporting a pause\<close>

lemma rollover_date [simp]: "gv_rolledOverDate (rolloverIfNeeded now g) = iso_date now"
  by (simp add: rolloverIfNeeded_def)

lemma rollover_opts [simp]: "gv_opts (rolloverIfNeeded now g) = gv_opts g"
  by (simp add: rolloverIfNeeded_def)

lemma rollover_same [simp]: "gv_rolledOverDate g = iso_date now \<Longrightarrow> rolloverIfNeeded now g = g"
  by (simp add: rolloverIfNeeded_def)

lemma cpu_sample_keeps [simp]:
  "gv_rolledOverDate (recordCpuSample now u g) = gv_rolledOverDate g"
  "gv_bytesScannedToday (recordCpuSample now u g) = gv_bytesScannedToday g"
  "gv_opts (recordCpuSample now u g) = gv_opts g"
  by (simp_all add: recordCpuSample_def Let_def)

lemma yield_state: "snd (shouldYield now u g) = recordCpuSample now u (rolloverIfNeeded now g)"
  by (simp add: shouldYield_def Let_def)

text \<open>A call that asks the miner to yield and a status report right after it agree: the miner is
  told to yield exactly when the report says paused, and the report then names a reason.\<close>

theorem yield_reports_pause:
  "fst (shouldYield now u g) = gs_paused (fst (governor_report now (snd (shouldYield now u g)))) \<and>
   gs_paused (fst (governor_report now g)) = (gs_pauseReason (fst (governor_report now g)) \<noteq> None)"
  unfolding yield_state by (simp add: shouldYield_def governor_report_def Let_def)

section \<open>The daily read budget\<close>

datatype governor_event =
    InputSeen int
  | ThermalChanged string
  | BatteryChanged number bool
  | BytesRead int number
  | RssMeasured number
  | Polled int rat
  | Queried int

fun governor_step :: "governor \<Rightarrow> governor_event \<Rightarrow> governor" where
  "governor_step g (InputSeen t) = reportInputEvent t g"
| "governor_step g (ThermalChanged st) = reportThermalState st g"
| "governor_step g (BatteryChanged p c) = reportBatteryState p c g"
| "governor_step g (BytesRead t n) = reportBytesRead t n g"
| "governor_step g (RssMeasured n) = reportRssBytes n g"
| "governor_step g (Polled t u) = snd (shouldYield t u g)"
| "governor_step g (Queried t) = snd (governor_report t g)"

fun event_time :: "governor_event \<Rightarrow> int option" where
  "event_time (InputSeen t) = Some t"
| "event_time (BytesRead t n) = Some t"
| "event_time (Polled t u) = Some t"
| "event_time (Queried t) = Some t"
| "event_time _ = None"

definition event_times :: "governor_event list \<Rightarrow> int list" where
  "event_times es = List.map_filter event_time es"

text \<open>What was read on a day, in the order of the reports.\<close>

fun reads_on :: "int \<Rightarrow> governor_event list \<Rightarrow> number list" where
  "reads_on d [] = []"
| "reads_on d (BytesRead t n # es) = (if day_of t = d then n # reads_on d es else reads_on d es)"
| "reads_on d (_ # es) = reads_on d es"

definition bytes_read_on :: "int \<Rightarrow> governor_event list \<Rightarrow> number" where
  "bytes_read_on d es = foldl num_add (Fin 0) (reads_on d es)"

text \<open>The times of a run: in order, and within the years that have four digits.\<close>

definition clock_runs :: "int list \<Rightarrow> bool" where
  "clock_runs ts \<longleftrightarrow> sorted ts \<and> (\<forall>t \<in> set ts. 0 \<le> t \<and> t < 253402300800000)"

text \<open>
  The fields agree with the past: \<open>l\<close> is the time of the last roll-over, no later read is on an
  earlier day, and the counter is what was read on the day of \<open>l\<close>.
\<close>

definition counts :: "governor_event list \<Rightarrow> int \<Rightarrow> governor \<Rightarrow> bool" where
  "counts es l g \<longleftrightarrow> gv_rolledOverDate g = iso_date l \<and> gv_bytesScannedToday g = bytes_read_on (day_of l) es \<and>
     (\<forall>d. day_of l < d \<longrightarrow> reads_on d es = [])"

lemma reads_on_append: "reads_on d (xs @ ys) = reads_on d xs @ reads_on d ys"
  by (induction d xs rule: reads_on.induct) simp_all

lemma bytes_read_append: "bytes_read_on d (es @ [e]) = foldl num_add (bytes_read_on d es) (reads_on d [e])"
  by (simp add: bytes_read_on_def reads_on_append)

lemma day_of_mono: "s \<le> t \<Longrightarrow> day_of s \<le> day_of t"
  by (simp add: day_of_def zdiv_mono1)

lemma rollover_counts:
  assumes "counts es l g" "clock_runs [l, t]"
  shows "counts es t (rolloverIfNeeded t g)"
proof -
  have same: "iso_date t = iso_date l \<longleftrightarrow> day_of t = day_of l"
    using assms(2) by (intro iso_date_eq) (simp_all add: clock_runs_def)
  have le: "day_of l \<le> day_of t" using assms(2) by (simp add: clock_runs_def day_of_mono)
  show ?thesis
  proof (cases "day_of t = day_of l")
    case True
    then show ?thesis using assms(1) same by (simp add: counts_def rolloverIfNeeded_def)
  next
    case False
    then have "day_of l < day_of t" using le by simp
    then show ?thesis
      using assms(1) same by (auto simp: counts_def rolloverIfNeeded_def bytes_read_on_def)
  qed
qed

lemma counts_other:
  assumes "counts es l g" "\<And>d. reads_on d [e] = []"
    "gv_rolledOverDate g' = gv_rolledOverDate g" "gv_bytesScannedToday g' = gv_bytesScannedToday g"
  shows "counts (es @ [e]) l g'"
  using assms by (simp add: counts_def bytes_read_append reads_on_append)

lemma step_counts:
  assumes c: "counts es l g"
    and t: "clock_runs (l # (case event_time e of None \<Rightarrow> [] | Some t \<Rightarrow> [t]))"
  shows "\<exists>m. counts (es @ [e]) m (governor_step g e) \<and> (m = l \<or> event_time e = Some m)"
proof (cases e)
  case (InputSeen u)
  then have "counts (es @ [e]) l (governor_step g e)"
    by (intro counts_other [OF c]) (simp_all add: reportInputEvent_def)
  then show ?thesis by blast
next
  case (ThermalChanged u)
  then show ?thesis using counts_other [OF c] by (auto simp: reportThermalState_def)
next
  case (BatteryChanged p q)
  then show ?thesis using counts_other [OF c] by (auto simp: reportBatteryState_def)
next
  case (RssMeasured n)
  then show ?thesis using counts_other [OF c] by (auto simp: reportRssBytes_def)
next
  case (BytesRead u n)
  then have "counts es u (rolloverIfNeeded u g)" using rollover_counts [OF c] t by simp
  then have "counts (es @ [BytesRead u n]) u (reportBytesRead u n g)"
    by (simp add: counts_def reportBytesRead_def Let_def bytes_read_append reads_on_append)
  then show ?thesis using BytesRead by auto
next
  case (Polled u x)
  then have "counts es u (rolloverIfNeeded u g)" using rollover_counts [OF c] t by simp
  then have "counts (es @ [e]) u (governor_step g e)"
    by (rule counts_other) (simp_all add: Polled yield_state)
  then show ?thesis using Polled by auto
next
  case (Queried u)
  then have "counts es u (rolloverIfNeeded u g)" using rollover_counts [OF c] t by simp
  then have "counts (es @ [e]) u (governor_step g e)"
    by (rule counts_other) (simp_all add: Queried governor_report_def Let_def)
  then show ?thesis using Queried by auto
qed

lemma clock_runs_split:
  assumes "clock_runs (l # event_times (e # es) @ [now])"
  shows "clock_runs (l # (case event_time e of None \<Rightarrow> [] | Some t \<Rightarrow> [t]))"
    "m = l \<or> event_time e = Some m \<Longrightarrow> clock_runs (m # event_times es @ [now])"
  using assms by (auto simp: clock_runs_def event_times_def map_filter_simps split: option.splits)

lemma run_counts:
  assumes "counts past l g" "clock_runs (l # event_times es @ [now])"
  shows "\<exists>m. counts (past @ es) m (run governor_step g es) \<and> clock_runs [m, now]"
  using assms
proof (induction es arbitrary: past l g)
  case Nil
  then show ?case by (auto simp: event_times_def map_filter_simps)
next
  case (Cons e es)
  obtain m where m: "counts (past @ [e]) m (governor_step g e)" "m = l \<or> event_time e = Some m"
    using step_counts [OF Cons.prems(1) clock_runs_split(1) [OF Cons.prems(2)]] by blast
  from Cons.IH [OF m(1) clock_runs_split(2) [OF Cons.prems(2) m(2)]] show ?case by simp
qed

lemma new_governor_counts: "new_governor opts t = Inr g \<Longrightarrow> counts [] t g \<and> gv_opts g = opts"
  by (auto simp: new_governor_def counts_def bytes_read_on_def split: if_splits)

lemma step_opts [simp]: "gv_opts (governor_step g e) = gv_opts g"
  by (cases e) (simp_all add: reportInputEvent_def reportThermalState_def reportBatteryState_def
    reportBytesRead_def reportRssBytes_def yield_state governor_report_def Let_def)

interpretation governor_options: state_machine governor_step "\<lambda>g. gv_opts g = opts" for opts
  by unfold_locales simp

lemma yield_if_spent:
  "num_le (go_ioBudgetBytesPerDay (gv_opts g)) (gv_bytesScannedToday (rolloverIfNeeded now g)) \<Longrightarrow>
   fst (shouldYield now u g)"
  by (simp add: shouldYield_def Let_def io_spent_def)

text \<open>C19: The read budget is enforced per UTC day and its ceiling cannot be raised: whatever happened
  before, once the reports of the current day add up to the configured budget the miner is told
  to yield; and no accepted configuration other than NaN lets it read on past five gigabytes.\<close>

theorem io_budget_enforced:
  assumes new: "new_governor opts t0 = Inr g0"
    and clock: "clock_runs (t0 # event_times es @ [now])"
    and spent: "num_le (go_ioBudgetBytesPerDay opts) (bytes_read_on (day_of now) es)
      \<or> go_ioBudgetBytesPerDay opts \<noteq> NaN \<and> num_le (Fin 5368709120) (bytes_read_on (day_of now) es)"
  shows "fst (shouldYield now u (run governor_step g0 es))"
proof -
  have ok: "counts [] t0 g0" "gv_opts g0 = opts" using new_governor_counts [OF new] by simp_all
  obtain m where m: "counts es m (run governor_step g0 es)" "clock_runs [m, now]"
    using run_counts [OF ok(1) clock] by auto
  have bytes: "gv_bytesScannedToday (rolloverIfNeeded now (run governor_step g0 es)) =
      bytes_read_on (day_of now) es"
    using rollover_counts [OF m] by (simp add: counts_def)
  have opts: "gv_opts (run governor_step g0 es) = opts"
    using governor_options.run_inv [of g0 opts es] ok(2) by simp
  have "num_le (go_ioBudgetBytesPerDay opts) (Fin 5368709120)" if "go_ioBudgetBytesPerDay opts \<noteq> NaN"
    using new that num_le_not_lt [of "go_ioBudgetBytesPerDay opts" "Fin 5368709120"]
    by (simp add: new_governor_def IO_BUDGET_HARD_CEILING_BYTES_def split: if_splits)
  then have "num_le (go_ioBudgetBytesPerDay opts) (bytes_read_on (day_of now) es)"
    using spent num_le_trans by blast
  then show ?thesis by (intro yield_if_spent) (simp add: bytes opts)
qed

definition sample_governor :: governor where
  "sample_governor = \<lparr> gv_opts = GOVERNOR_DEFAULTS \<lparr> go_ioBudgetBytesPerDay := Fin 1000 \<rparr>, gv_lastInputMs = NegInf,
     gv_thermalState = ''nominal'', gv_batteryPct = Fin 100, gv_batteryCharging = True,
     gv_bytesScannedToday = Fin 0, gv_rssBytes = Fin 0, gv_rolledOverDate = iso_date 1000000,
     gv_cpuSamples = [], gv_lastCpuSampleMs = 0 \<rparr>"

theorem io_budget_enforced_witness:
  "fst (shouldYield 90000000 0 (run governor_step sample_governor
     [BytesRead 2000000 (Fin 900), BytesRead 87000000 (Fin 600), Polled 88000000 5, BytesRead 89000000 (Fin 400)]))"
  by (rule io_budget_enforced [of "GOVERNOR_DEFAULTS \<lparr> go_ioBudgetBytesPerDay := Fin 1000 \<rparr>" 1000000])
    (simp_all add: new_governor_def sample_governor_def GOVERNOR_DEFAULTS_def IO_BUDGET_HARD_CEILING_BYTES_def
      clock_runs_def event_times_def map_filter_simps bytes_read_on_def day_of_def)

text \<open>A budget that is not a number is accepted and never spent.\<close>

lemma nan_budget_unlimited:
  "new_governor (GOVERNOR_DEFAULTS \<lparr> go_ioBudgetBytesPerDay := NaN \<rparr>) t
     = Inr (sample_governor \<lparr> gv_opts := GOVERNOR_DEFAULTS \<lparr> go_ioBudgetBytesPerDay := NaN \<rparr>,
         gv_rolledOverDate := iso_date t \<rparr>) \<and>
   (go_ioBudgetBytesPerDay (gv_opts g) = NaN \<longrightarrow> \<not> io_spent g)"
  by (simp add: new_governor_def GOVERNOR_DEFAULTS_def sample_governor_def IO_BUDGET_HARD_CEILING_BYTES_def
      io_spent_def)

section \<open>A cumulative CPU counter\<close>

text \<open>
  The default CPU reading is \<open>process.cpuUsage()\<close>, the time used since the process started, and
  every sample records it as the time used since the sample before. \<open>polls\<close> are the answers to a
  sequence of calls.
\<close>

fun polls :: "governor \<Rightarrow> (int \<times> rat) list \<Rightarrow> bool list" where
  "polls g [] = []"
| "polls g ((t, u) # ps) = fst (shouldYield t u g) # polls (snd (shouldYield t u g)) ps"

fun polled_every :: "int \<Rightarrow> int \<Rightarrow> (int \<times> rat) list \<Rightarrow> bool" where
  "polled_every gap t [] = True"
| "polled_every gap t ((t', u) # ps) = (100 \<le> t' - t \<and> t' - t \<le> gap \<and> polled_every gap t' ps)"

text \<open>Every sample alone is over the cap, then so are all together.\<close>

definition over_cap :: "rat \<Rightarrow> cpu_sample \<Rightarrow> bool" where
  "over_cap cap s \<longleftrightarrow> 0 < cs_elapsedMs s \<and> cap * of_int (cs_elapsedMs s) < 100 * cs_usageMs s"

lemma over_cap_sums:
  assumes "list_all (over_cap cap) ss" "ss \<noteq> []"
  shows "0 < sum_list (map cs_elapsedMs ss) \<and>
    cap * of_int (sum_list (map cs_elapsedMs ss)) < 100 * sum_list (map cs_usageMs ss)"
  using assms
proof (induction ss)
  case (Cons s ss)
  show ?case
  proof (cases "ss = []")
    case False
    then show ?thesis using Cons by (simp add: over_cap_def algebra_simps)
  qed (use Cons in \<open>simp add: over_cap_def\<close>)
qed simp

lemma over_cap_pct:
  assumes "list_all (over_cap cap) (gv_cpuSamples g)" "gv_cpuSamples g \<noteq> []"
  shows "cap < rollingCpuPct g"
proof -
  let ?e = "of_int (sum_list (map cs_elapsedMs (gv_cpuSamples g))) :: rat"
  have e: "0 < ?e" "cap * ?e < 100 * sum_list (map cs_usageMs (gv_cpuSamples g))"
    using over_cap_sums [OF assms] by (simp_all only: of_int_0_less_iff)
  then show ?thesis
    using assms(2) by (simp add: rollingCpuPct_def Let_def pos_less_divide_eq)
qed

lemma poll_over_cap:
  assumes g: "list_all (over_cap cap) (gv_cpuSamples g)" "gv_lastCpuSampleMs g = l" "l \<noteq> 0"
      "go_cpuPercentCap (gv_opts g) = Fin cap" "go_cpuWindowMs (gv_opts g) = Fin w" "0 \<le> w"
    and poll: "100 \<le> t - l" "cap * of_int (t - l) < 100 * u" and pos: "0 < t"
  shows "fst (shouldYield t u g)"
    "list_all (over_cap cap) (gv_cpuSamples (snd (shouldYield t u g)))"
    "gv_lastCpuSampleMs (snd (shouldYield t u g)) = t" "gv_opts (snd (shouldYield t u g)) = gv_opts g"
proof -
  let ?g = "snd (shouldYield t u g)"
  have roll: "gv_cpuSamples (rolloverIfNeeded t g) = gv_cpuSamples g"
    "gv_lastCpuSampleMs (rolloverIfNeeded t g) = l"
    using g(2) by (simp_all add: rolloverIfNeeded_def)
  have samples: "gv_cpuSamples ?g = filter (\<lambda>s. of_int t - w \<le> of_int (cs_timestampMs s))
      (gv_cpuSamples g @ [\<lparr> cs_timestampMs = t, cs_elapsedMs = t - l, cs_usageMs = u \<rparr>])"
    unfolding yield_state using g poll by (simp add: recordCpuSample_def roll Let_def)
  then show all: "list_all (over_cap cap) (gv_cpuSamples ?g)"
    using g(1) poll by (auto simp: list_all_iff over_cap_def)
  show "gv_lastCpuSampleMs ?g = t" unfolding yield_state by (simp add: recordCpuSample_def Let_def)
  show opts: "gv_opts ?g = gv_opts g" by (simp add: yield_state)
  have "gv_cpuSamples ?g \<noteq> []" using samples g(6) by simp
  from over_cap_pct [OF all this] have "cpu_over_cap ?g" by (simp add: cpu_over_cap_def opts g(4))
  then show "fst (shouldYield t u g)" unfolding yield_state by (simp add: shouldYield_def Let_def)
qed

lemma polls_over_cap:
  assumes "list_all (over_cap cap) (gv_cpuSamples g)" "gv_lastCpuSampleMs g = l" "0 < l"
      "go_cpuPercentCap (gv_opts g) = Fin cap" "go_cpuWindowMs (gv_opts g) = Fin w" "0 \<le> w" "0 \<le> cap"
    and "polled_every gap l ps" "list_all (\<lambda>(t, u). cap * of_int gap < 100 * u) ps"
  shows "list_all id (polls g ps)"
  using assms
proof (induction ps arbitrary: g l)
  case (Cons p ps)
  obtain t u where p: "p = (t, u)" by force
  have "cap * of_int (t - l) \<le> cap * of_int gap"
    using Cons.prems(7,8) by (intro mult_left_mono) (simp_all add: p)
  then have u: "cap * of_int (t - l) < 100 * u" using Cons.prems(9) by (simp add: p)
  have t: "100 \<le> t - l" "0 < t" using Cons.prems(3,8) by (simp_all add: p)
  have l: "l \<noteq> 0" using Cons.prems(3) by simp
  note poll = poll_over_cap [OF Cons.prems(1,2) l Cons.prems(4-6) t(1) u t(2)]
  show ?case
    using Cons.IH [of "snd (shouldYield t u g)" t] poll Cons.prems(4-9) t(2) by (simp add: p)
qed simp

text \<open>With the default CPU reading a pause never ends: once the process has used enough CPU time
  since its start, 2 percent of the longest gap between two calls, every call after the first tells
  the miner to yield, whatever the process does in between.\<close>

theorem cpu_pause_never_ends:
  assumes g: "gv_cpuSamples g = []" "gv_opts g = GOVERNOR_DEFAULTS" "gv_lastCpuSampleMs g = l" "0 < l"
    and ps: "polled_every gap l ps" "list_all (\<lambda>(t, u). 2 * of_int gap < 100 * u) ps"
  shows "list_all id (polls g ps)"
  using g ps by (intro polls_over_cap [of 2 g l 60000 gap]) (simp_all add: GOVERNOR_DEFAULTS_def)

text \<open>A process that has used half a second of CPU time, polled every 200 ms and doing nothing.\<close>

definition started_governor :: governor where
  "started_governor = sample_governor \<lparr> gv_opts := GOVERNOR_DEFAULTS, gv_lastCpuSampleMs := 1763200000000 \<rparr>"

theorem cpu_pause_never_ends_witness:
  "list_all id (polls started_governor [(1763200000200, 500), (1763200000400, 500), (1763200000600, 500)])"
  by (rule cpu_pause_never_ends [of _ 1763200000000 200])
    (simp_all add: started_governor_def sample_governor_def)

section \<open>The detector driven by the host\<close>

datatype edge = WentIdle | BecameActive

record idle_detector =
  dt_started :: bool
  dt_idle :: bool

datatype detector_call = StartCalls | StopCalls | SetIdle | SetActive

text \<open>The new state and the edge whose handlers are run.\<close>

fun detector_step :: "idle_detector \<Rightarrow> detector_call \<Rightarrow> idle_detector \<times> edge list" where
  "detector_step d StartCalls = (d \<lparr> dt_started := True \<rparr>, [])"
| "detector_step d StopCalls = (d \<lparr> dt_started := False \<rparr>, [])"
| "detector_step d SetIdle =
     (if \<not> dt_started d \<or> dt_idle d then (d, []) else (d \<lparr> dt_idle := True \<rparr>, [WentIdle]))"
| "detector_step d SetActive =
     (if \<not> dt_started d \<or> \<not> dt_idle d then (d, []) else (d \<lparr> dt_idle := False \<rparr>, [BecameActive]))"

fun edges :: "idle_detector \<Rightarrow> detector_call list \<Rightarrow> edge list" where
  "edges d [] = []"
| "edges d (c # cs) = snd (detector_step d c) @ edges (fst (detector_step d c)) cs"

fun alternating :: "edge \<Rightarrow> edge list \<Rightarrow> bool" where
  "alternating e [] = True"
| "alternating e (x # xs) = (x = e \<and> alternating (if e = WentIdle then BecameActive else WentIdle) xs)"

text \<open>Whatever the host signals, started or not, the handlers see clean edges: idle and active
  alternate, the first edge is idle, and no edge is seen twice.\<close>

lemma edges_alternate: "alternating (if dt_idle d then BecameActive else WentIdle) (edges d cs)"
proof (induction cs arbitrary: d)
  case (Cons c cs)
  have ih: "alternating (if b then BecameActive else WentIdle) (edges d' cs)" if "dt_idle d' = b" for b d'
    using Cons.IH [of d'] that by simp
  have idle: "alternating BecameActive (edges d' cs)" if "dt_idle d'" for d' using ih [of d' True] that by simp
  have active: "alternating WentIdle (edges d' cs)" if "\<not> dt_idle d'" for d' using ih [of d' False] that by simp
  show ?case by (cases c) (simp_all add: idle active)
qed simp

end
