(* ===== verification/RegexExec.thy ===== *)
theory RegexExec
  imports Regex
begin

text \<open>
  \<open>RegExp.prototype.exec\<close> for an expression with one capturing group, given as the part before the
  group, the group, and the part after it: the text of the group in the match that backtracking
  finds first. What a captured text can look like follows from the relational semantics of the
  group alone.
\<close>

definition between :: "pos \<Rightarrow> pos \<Rightarrow> string" where
  "between q q' = take (length (snd q) - length (snd q')) (snd q)"

definition captures :: "rx \<Rightarrow> rx \<Rightarrow> rx \<Rightarrow> pos \<Rightarrow> string list" where
  "captures a g b q = concat (map (\<lambda>q1. concat (map (\<lambda>q2. if prio b q2 \<noteq> [] then [between q1 q2] else [])
     (prio g q1))) (prio a q))"

fun exec_from :: "rx \<Rightarrow> rx \<Rightarrow> rx \<Rightarrow> char option \<Rightarrow> string \<Rightarrow> string option" where
  "exec_from a g b p [] = head (captures a g b (p, []))"
| "exec_from a g b p (c # s) =
     (case captures a g b (p, c # s) of x # _ \<Rightarrow> Some x | [] \<Rightarrow> exec_from a g b (Some c) s)"

definition rx_exec :: "rx \<Rightarrow> rx \<Rightarrow> rx \<Rightarrow> string \<Rightarrow> string option" where
  "rx_exec a g b s = exec_from a g b None s"

definition many1 :: "(char \<Rightarrow> bool) \<Rightarrow> rx" where
  "many1 P = Seq (Chr P) (Star (Chr P))"

lemma captures_matches:
  assumes "x \<in> set (captures a g b q)"
  shows "\<exists>q1 q2. matches a q q1 \<and> matches g q1 q2 \<and> x = between q1 q2"
proof -
  from assms obtain q1 q2 where "q1 \<in> set (prio a q)" "q2 \<in> set (prio g q1)" "x = between q1 q2"
    unfolding captures_def by (auto simp del: split_paired_Ex split: if_splits)
  then show ?thesis unfolding prio_iff by blast
qed

lemma exec_matches:
  assumes "rx_exec a g b s = Some x"
  shows "\<exists>q1 q2. matches g q1 q2 \<and> x = between q1 q2"
proof -
  have "exec_from a g b p s = Some x \<Longrightarrow> \<exists>q1 q2. matches g q1 q2 \<and> x = between q1 q2" for p
  proof (induction s arbitrary: p)
    case Nil
    then have "x \<in> set (captures a g b (p, []))" by (cases "captures a g b (p, [])") auto
    from captures_matches [OF this] show ?case by blast
  next
    case (Cons c s)
    show ?case
    proof (cases "captures a g b (p, c # s)")
      case Nil
      then show ?thesis using Cons by simp
    next
      case (Cons y ys)
      then have "x \<in> set (captures a g b (p, c # s))" using Cons.prems by simp
      from captures_matches [OF this] show ?thesis by blast
    qed
  qed
  then show ?thesis using assms by (simp add: rx_exec_def)
qed

lemma star_chars:
  assumes "matches s q q'" "s = Star (Chr P)"
  shows "\<exists>x. snd q = x @ snd q' \<and> list_all P x"
  using assms
proof (induction rule: matches.induct)
  case (m_star_step a q q' q'')
  from m_star_step.prems m_star_step.hyps(1) obtain c where "snd q = c # snd q'" "P c"
    by (auto elim: matches_Chr)
  moreover from m_star_step obtain x where "snd q' = x @ snd q''" "list_all P x" by auto
  ultimately show ?case by (intro exI [of _ "c # x"]) simp
qed auto

lemma many1_chars:
  assumes "matches (many1 P) q q'"
  shows "between q q' \<noteq> [] \<and> list_all P (between q q')"
proof -
  obtain q1 where "matches (Chr P) q q1" and star: "matches (Star (Chr P)) q1 q'"
    using assms unfolding many1_def by (rule matches_Seq)
  then obtain c where c: "snd q = c # snd q1" "P c" by (auto elim: matches_Chr)
  moreover obtain x where x: "snd q1 = x @ snd q'" "list_all P x"
    using star_chars [OF star refl] by blast
  ultimately have "between q q' = c # x" by (simp add: between_def)
  then show ?thesis using c x by simp
qed

text \<open>A group that repeats a character class captures a word over that class.\<close>

lemma exec_many1: "rx_exec a (many1 P) b s = Some x \<Longrightarrow> x \<noteq> [] \<and> list_all P x"
proof -
  assume "rx_exec a (many1 P) b s = Some x"
  then obtain q1 q2 where m: "matches (many1 P) q1 q2" and x: "x = between q1 q2"
    by (blast dest: exec_matches)
  from many1_chars [OF m] show ?thesis unfolding x .
qed

text \<open>\<open>endsWith\<close>, and \<open>replace\<close> of one character by another.\<close>

definition ends_with :: "string \<Rightarrow> string \<Rightarrow> bool" where
  "ends_with s t = starts_with (rev s) (rev t)"

lemma ends_with_append: "ends_with s t \<longleftrightarrow> (\<exists>u. s = u @ t)"
proof -
  have "ends_with s t \<longleftrightarrow> (\<exists>u. rev s = rev t @ u)" by (simp add: ends_with_def starts_with_append)
  also have "\<dots> \<longleftrightarrow> (\<exists>u. s = u @ t)" by (metis rev_append rev_rev_ident)
  finally show ?thesis .
qed

definition replace_char :: "char \<Rightarrow> char \<Rightarrow> string \<Rightarrow> string" where
  "replace_char c d s = map (\<lambda>x. if x = c then d else x) s"

end
