(* ===== verification/MinerFiles.thy ===== *)
theory MinerFiles
  imports RegexExec
begin

text \<open>
  What the idle miner may look at and what it keeps of it: the hard denylist
  (\<open>packages/idle-miner/src/denylist.ts\<close>) and the extractors of structured fields
  (\<open>extractor.ts\<close>). Paths are those of a POSIX file system. The content of files, the resolution of
  links and \<open>JSON.parse\<close> are parameters.
\<close>

section \<open>Paths\<close>

text \<open>\<open>path.normalize\<close>, \<open>path.join\<close> of two parts and \<open>path.basename\<close>.\<close>

fun normalize_segments :: "bool \<Rightarrow> string list \<Rightarrow> string list \<Rightarrow> string list" where
  "normalize_segments absolute acc [] = rev acc"
| "normalize_segments absolute acc (w # ws) =
     (if w = [] \<or> w = ''.'' then normalize_segments absolute acc ws
      else if w = ''..'' then
        (case acc of
           [] \<Rightarrow> normalize_segments absolute (if absolute then [] else [w]) ws
         | v # vs \<Rightarrow> if v = ''..'' then normalize_segments absolute (w # acc) ws
                    else normalize_segments absolute vs ws)
      else normalize_segments absolute (w # acc) ws)"

definition path_normalize :: "string \<Rightarrow> string" where
  "path_normalize p =
     (if p = [] then ''.''
      else let absolute = (hd p = CHR ''/''); trailing = (last p = CHR ''/'');
               body = join_with ''/'' (normalize_segments absolute [] (split_on (CHR ''/'') p));
               body' = (if body = [] \<and> \<not> absolute then ''.'' else body);
               body'' = (if body' \<noteq> [] \<and> trailing then body' @ ''/'' else body')
           in if absolute then CHR ''/'' # body'' else body'')"

definition path_join :: "string \<Rightarrow> string \<Rightarrow> string" where
  "path_join a b =
     (let joined = join_with ''/'' (filter (\<lambda>x. x \<noteq> []) [a, b]) in
      if joined = [] then ''.'' else path_normalize joined)"

definition basename :: "string \<Rightarrow> string" where
  "basename p = (case filter (\<lambda>w. w \<noteq> []) (rev (split_on (CHR ''/'') p)) of [] \<Rightarrow> [] | w # _ \<Rightarrow> w)"

section \<open>The denylist\<close>

definition FS_DENYLIST_PATHS :: "string list" where
  "FS_DENYLIST_PATHS =
     [''~/.ssh'', ''~/.aws'', ''~/.gnupg'', ''~/.kube'', ''~/Library/Keychains'', ''~/Library/Cookies'',
      ''~/Library/Application Support/Google/Chrome/Default/Cookies'',
      ''~/Library/Application Support/Firefox/Profiles'',
      ''~/Library/Application Support/1Password'',
      ''~/Library/Application Support/Bitwarden'', ''~/.password-store'']"

definition suffix_rx :: "string \<Rightarrow> rx" where
  "suffix_rx s = Seq (lit_i s) AtEnd"

definition component_rx :: "string \<Rightarrow> rx" where
  "component_rx s = seqs [Alt AtStart (lit ''/''), lit s, Alt (lit ''.'') AtEnd]"

definition FS_DENYLIST_PATTERNS :: "rx list" where
  "FS_DENYLIST_PATTERNS =
     [suffix_rx ''.pem'', suffix_rx ''.key'', component_rx ''id_rsa'', component_rx ''id_ed25519'',
      component_rx ''id_ecdsa'', component_rx ''credentials'', component_rx ''.env'',
      suffix_rx ''.kdbx'', suffix_rx ''.gpg'', suffix_rx ''.asc'']"

definition expandPath :: "string \<Rightarrow> string \<Rightarrow> string" where
  "expandPath p homedir =
     (if starts_with p ''~/'' then path_join homedir (drop 2 p) else if p = ''~'' then homedir else p)"

definition pathMatchesDenyDir :: "string \<Rightarrow> string \<Rightarrow> bool" where
  "pathMatchesDenyDir homedir target =
     list_ex (\<lambda>denied. target = denied \<or> starts_with target (denied @ ''/'')
         \<or> starts_with target (denied @ [CHR 92]))
       (map (\<lambda>p. expandPath p homedir) FS_DENYLIST_PATHS)"

definition pathMatchesDenyPattern :: "string \<Rightarrow> bool" where
  "pathMatchesDenyPattern target =
     list_ex (\<lambda>r. rx_test r (replace_char (CHR 92) (CHR ''/'') target)) FS_DENYLIST_PATTERNS"

definition isDenied :: "(string \<Rightarrow> string option) \<Rightarrow> string \<Rightarrow> string \<Rightarrow> bool" where
  "isDenied realpath homedir absPath =
     (if pathMatchesDenyDir homedir absPath \<or> pathMatchesDenyPattern absPath then True
      else case realpath absPath of
          None \<Rightarrow> False
        | Some resolved \<Rightarrow>
            if resolved \<noteq> absPath
            then if pathMatchesDenyDir homedir resolved \<or> pathMatchesDenyPattern resolved then True else False
            else False)"

text \<open>What lies below a denied directory is denied, and a link to something denied is denied.\<close>

lemma below_denied_dir:
  assumes "pathMatchesDenyDir homedir d"
  shows "pathMatchesDenyDir homedir (d @ ''/'' @ rest)"
proof -
  obtain denied where d: "denied \<in> set (map (\<lambda>p. expandPath p homedir) FS_DENYLIST_PATHS)"
    and "d = denied \<or> starts_with d (denied @ ''/'') \<or> starts_with d (denied @ [CHR 92])"
    using assms by (auto simp: pathMatchesDenyDir_def list_ex_iff)
  then have "starts_with (d @ ''/'' @ rest) (denied @ ''/'') \<or> starts_with (d @ ''/'' @ rest) (denied @ [CHR 92])"
    by (auto simp: starts_with_append)
  with d show ?thesis unfolding pathMatchesDenyDir_def list_ex_iff by blast
qed

lemma link_to_denied:
  "realpath p = Some q \<Longrightarrow> pathMatchesDenyDir homedir q \<or> pathMatchesDenyPattern q \<Longrightarrow> isDenied realpath homedir p"
  by (auto simp: isDenied_def)

section \<open>Extractors\<close>

text \<open>
  Reading a file gives its bytes, or its text, or throws (\<open>None\<close>). An extractor has a test on the
  path and an extraction from what it reads.
\<close>

record file_access =
  fa_bytes :: "string \<Rightarrow> string option"
  fa_text :: "string \<Rightarrow> string option"
  fa_json :: "string \<Rightarrow> jsval option"

record extractor =
  ex_match :: "string \<Rightarrow> bool"
  ex_extract :: "file_access \<Rightarrow> string \<Rightarrow> jsobj"

definition MIME_MAGIC :: "(string \<times> string) list" where
  "MIME_MAGIC =
     [([CHR 0x89, CHR 0x50, CHR 0x4e, CHR 0x47], ''image/png''),
      ([CHR 0xff, CHR 0xd8, CHR 0xff], ''image/jpeg''),
      ([CHR 0x47, CHR 0x49, CHR 0x46], ''image/gif''),
      ([CHR 0x25, CHR 0x50, CHR 0x44, CHR 0x46], ''application/pdf''),
      ([CHR 0x50, CHR 0x4b, CHR 0x03, CHR 0x04], ''application/zip'')]"

definition sniffMimeType :: "file_access \<Rightarrow> string \<Rightarrow> string option" where
  "sniffMimeType fs p =
     (case fa_bytes fs p of
        None \<Rightarrow> None
      | Some bytes \<Rightarrow>
          (case find (\<lambda>(magic, _). take (length magic) (take 512 bytes) = magic) MIME_MAGIC of
             Some (_, mime) \<Rightarrow> Some mime
           | None \<Rightarrow>
               let lower = to_lower p in
               if ends_with lower ''.json'' then Some ''application/json''
               else if ends_with lower ''.toml'' then Some ''application/toml''
               else if ends_with lower ''.ts'' \<or> ends_with lower ''.js'' then Some ''text/javascript''
               else if ends_with lower ''.md'' then Some ''text/markdown''
               else if ends_with lower ''.txt'' then Some ''text/plain''
               else if ends_with lower ''.py'' then Some ''text/x-python''
               else if ends_with lower ''.go'' then Some ''text/x-go''
               else if ends_with lower ''.rs'' then Some ''text/x-rust''
               else None))"

definition strings :: "string list \<Rightarrow> jsval" where
  "strings xs = JArr (map JStr xs)"

definition optional_field :: "string \<Rightarrow> string option \<Rightarrow> jsobj" where
  "optional_field k v = (case v of None \<Rightarrow> [] | Some s \<Rightarrow> [(k, JStr s)])"

text \<open>The lines of a text, trimmed, as every extractor of a line format reads them.\<close>

definition lines_of :: "string \<Rightarrow> string list" where
  "lines_of raw = map trim (split_on (CHR 10) raw)"

definition dep_keys :: "jsval \<Rightarrow> string list" where
  "dep_keys v = (case v of JObj ob \<Rightarrow> map fst ob | _ \<Rightarrow> [])"

definition packageJsonExtractor :: extractor where
  "packageJsonExtractor = \<lparr> ex_match = (\<lambda>p. basename p = ''package.json''),
     ex_extract = (\<lambda>fs p. case fa_text fs p of
         None \<Rightarrow> []
       | Some raw \<Rightarrow> (case fa_json fs raw of
           None \<Rightarrow> []
         | Some parsed \<Rightarrow>
             if parsed = JNull \<or> parsed = JUndefined then []
             else optional_field ''name'' (case prop_of parsed ''name'' of JStr s \<Rightarrow> Some s | _ \<Rightarrow> None)
               @ [(''dependencies'', strings (dep_keys (prop_of parsed ''dependencies''))),
                  (''devDependencies'', strings (dep_keys (prop_of parsed ''devDependencies'')))])) \<rparr>"

text \<open>\<open>/url\s*=\s*(.+)/\<close> and its like: the rest of the line after a key.\<close>

definition key_value :: "string \<Rightarrow> string \<Rightarrow> string option" where
  "key_value key s =
     rx_exec (seqs [lit key, spaces, lit ''='', spaces])
       (many1 (\<lambda>c. (of_char c :: nat) \<noteq> 10 \<and> (of_char c :: nat) \<noteq> 13)) Empty s"

fun git_origin :: "bool \<Rightarrow> string option \<Rightarrow> string list \<Rightarrow> string option" where
  "git_origin inside origin [] = origin"
| "git_origin inside origin (l # ls) =
     (if l = ''[remote '' @ [CHR 34] @ ''origin'' @ [CHR 34] @ '']'' then git_origin True origin ls
      else let inside' = (if starts_with l ''['' \<and> inside then False else inside);
               origin' = (if inside' \<and> starts_with l ''url''
                 then (case key_value ''url'' l of Some v \<Rightarrow> Some (trim v) | None \<Rightarrow> origin) else origin)
           in git_origin inside' origin' ls)"

definition gitConfigExtractor :: extractor where
  "gitConfigExtractor = \<lparr>
     ex_match = (\<lambda>p. ends_with p ''/.git/config'' \<or> ends_with p ([CHR 92] @ ''.git'' @ [CHR 92] @ ''config'')),
     ex_extract = (\<lambda>fs p. case fa_text fs p of
         None \<Rightarrow> []
       | Some raw \<Rightarrow> optional_field ''remoteOrigin'' (git_origin False None (lines_of raw))) \<rparr>"

fun git_user :: "bool \<Rightarrow> string option \<Rightarrow> string option \<Rightarrow> string list \<Rightarrow> string option \<times> string option" where
  "git_user inside email name [] = (email, name)"
| "git_user inside email name (l # ls) =
     (if l = ''[user]'' then git_user True email name ls
      else let inside' = (if starts_with l ''['' \<and> inside then False else inside) in
        if inside'
        then git_user inside'
          (case key_value ''email'' l of Some v \<Rightarrow> Some (trim v) | None \<Rightarrow> email)
          (case key_value ''name'' l of Some v \<Rightarrow> Some (trim v) | None \<Rightarrow> name) ls
        else git_user inside' email name ls)"

definition globalGitConfigExtractor :: extractor where
  "globalGitConfigExtractor = \<lparr> ex_match = (\<lambda>p. basename p = ''.gitconfig''),
     ex_extract = (\<lambda>fs p. case fa_text fs p of
         None \<Rightarrow> []
       | Some raw \<Rightarrow> (case git_user False None None (lines_of raw) of
           (email, name) \<Rightarrow> optional_field ''userEmail'' email @ optional_field ''userName'' name)) \<rparr>"

definition quoted_name :: "string \<Rightarrow> string option" where
  "quoted_name l =
     rx_exec (seqs [AtStart, lit ''name'', spaces, lit ''='', spaces, lit [CHR 34]])
       (many1 (\<lambda>c. c \<noteq> CHR 34)) (lit [CHR 34]) l"

definition package_char :: "char \<Rightarrow> bool" where
  "package_char c \<longleftrightarrow> is_word c \<or> c = CHR ''.'' \<or> c = CHR ''-''"

definition first_some :: "'a option \<Rightarrow> 'a option \<Rightarrow> 'a option" where
  "first_some x y = (case x of Some _ \<Rightarrow> x | None \<Rightarrow> y)"

definition drop_quote :: "string \<Rightarrow> string" where
  "drop_quote l = (case l of c # t \<Rightarrow> if c = CHR 34 then t else l | [] \<Rightarrow> [])"

fun pyproject :: "bool \<Rightarrow> string option \<Rightarrow> string list \<Rightarrow> string option \<times> string list" where
  "pyproject inside name [] = (name, [])"
| "pyproject inside name (l # ls) =
     (let name' = first_some name (quoted_name l) in
      if l = ''dependencies = ['' then pyproject True name' ls
      else if inside then
        if l = '']'' then pyproject False name' ls
        else (case rx_exec (Seq AtStart (opt (lit [CHR 34]))) (many1 package_char) Empty (drop_quote l) of
                Some d \<Rightarrow> (case pyproject inside name' ls of (n, ds) \<Rightarrow> (n, d # ds))
              | None \<Rightarrow> pyproject inside name' ls)
      else pyproject inside name' ls)"

definition pyprojectTomlExtractor :: extractor where
  "pyprojectTomlExtractor = \<lparr> ex_match = (\<lambda>p. basename p = ''pyproject.toml''),
     ex_extract = (\<lambda>fs p. case fa_text fs p of
         None \<Rightarrow> []
       | Some raw \<Rightarrow> (case pyproject False None (lines_of raw) of
           (name, deps) \<Rightarrow> optional_field ''projectName'' name @ [(''dependencies'', strings deps)])) \<rparr>"

definition requirement :: "string \<Rightarrow> string option" where
  "requirement l =
     (if l = [] \<or> starts_with l ''#'' \<or> starts_with l ''-'' then None
      else rx_exec AtStart (many1 package_char) Empty l)"

definition requirementsTxtExtractor :: extractor where
  "requirementsTxtExtractor = \<lparr> ex_match = (\<lambda>p. basename p = ''requirements.txt''),
     ex_extract = (\<lambda>fs p. case fa_text fs p of
         None \<Rightarrow> []
       | Some raw \<Rightarrow> [(''dependencies'', strings (List.map_filter requirement (lines_of raw)))]) \<rparr>"

definition cargo_char :: "char \<Rightarrow> bool" where
  "cargo_char c \<longleftrightarrow> is_word c \<or> c = CHR ''-''"

fun cargo :: "bool \<Rightarrow> string option \<Rightarrow> string list \<Rightarrow> string option \<times> string list" where
  "cargo inside name [] = (name, [])"
| "cargo inside name (l # ls) =
     (let name' = first_some name (quoted_name l) in
      if l = ''[dependencies]'' \<or> l = ''[dev-dependencies]'' \<or> l = ''[build-dependencies]''
      then cargo True name' ls
      else let inside' = (if starts_with l ''['' \<and> inside then False else inside) in
        if inside' \<and> l \<noteq> [] \<and> \<not> starts_with l ''#''
        then (case rx_exec AtStart (many1 cargo_char) (Seq spaces (lit ''='')) l of
                Some d \<Rightarrow> (case cargo inside' name' ls of (n, ds) \<Rightarrow> (n, d # ds))
              | None \<Rightarrow> cargo inside' name' ls)
        else cargo inside' name' ls)"

definition cargoTomlExtractor :: extractor where
  "cargoTomlExtractor = \<lparr> ex_match = (\<lambda>p. basename p = ''Cargo.toml''),
     ex_extract = (\<lambda>fs p. case fa_text fs p of
         None \<Rightarrow> []
       | Some raw \<Rightarrow> (case cargo False None (lines_of raw) of
           (name, deps) \<Rightarrow> optional_field ''packageName'' name @ [(''dependencies'', strings deps)])) \<rparr>"

definition non_space :: "char \<Rightarrow> bool" where
  "non_space c \<longleftrightarrow> \<not> is_space c"

fun go_mod :: "bool \<Rightarrow> string option \<Rightarrow> string list \<Rightarrow> string option \<times> string list" where
  "go_mod inside name [] = (name, [])"
| "go_mod inside name (l # ls) =
     (let name' = first_some name (rx_exec (seqs [AtStart, lit ''module'', spaces1]) (many1 non_space) Empty l);
          keep = (\<lambda>r rest. case r of Some d \<Rightarrow> (fst rest, d # snd rest) | None \<Rightarrow> rest)
      in if starts_with l ''require ('' then go_mod True name' ls
         else if inside then
           if l = '')'' then go_mod False name' ls
           else keep (rx_exec AtStart (many1 non_space) (Chr is_space) l) (go_mod inside name' ls)
         else if starts_with l ''require '' \<and> \<not> str_includes l ''(''
         then keep (rx_exec (seqs [AtStart, lit ''require'', spaces1]) (many1 non_space) Empty l)
                (go_mod inside name' ls)
         else go_mod inside name' ls)"

definition goModExtractor :: extractor where
  "goModExtractor = \<lparr> ex_match = (\<lambda>p. basename p = ''go.mod''),
     ex_extract = (\<lambda>fs p. case fa_text fs p of
         None \<Rightarrow> []
       | Some raw \<Rightarrow> (case go_mod False None (lines_of raw) of
           (name, deps) \<Rightarrow> optional_field ''moduleName'' name @ [(''requires'', strings deps)])) \<rparr>"

definition readmeSkipExtractor :: extractor where
  "readmeSkipExtractor = \<lparr> ex_match = (\<lambda>p. let b = to_lower (basename p) in
       b = ''readme.md'' \<or> b = ''readme.txt'' \<or> b = ''readme.rst''),
     ex_extract = (\<lambda>_ _. []) \<rparr>"

definition DEFAULT_EXTRACTORS :: "extractor list" where
  "DEFAULT_EXTRACTORS = [packageJsonExtractor, gitConfigExtractor, globalGitConfigExtractor,
     pyprojectTomlExtractor, requirementsTxtExtractor, cargoTomlExtractor, goModExtractor, readmeSkipExtractor]"

definition isReadmeFile :: "string \<Rightarrow> bool" where
  "isReadmeFile p = ex_match readmeSkipExtractor p"

record extracted_file =
  ef_absPath :: string
  ef_relPath :: string
  ef_rootId :: string
  ef_sizeBytes :: number
  ef_mtimeMs :: number
  ef_mimeType :: "string option"
  ef_structuredFields :: "jsobj option"
  ef_skippedReason :: "string option"

definition extractFile ::
  "file_access \<Rightarrow> string \<Rightarrow> string \<Rightarrow> string \<Rightarrow> number \<Rightarrow> number \<Rightarrow> extractor list \<Rightarrow> extracted_file" where
  "extractFile fs absPath relPath rootId sizeBytes mtimeMs extractors =
     (let base = \<lparr> ef_absPath = absPath, ef_relPath = relPath, ef_rootId = rootId, ef_sizeBytes = sizeBytes,
            ef_mtimeMs = mtimeMs, ef_mimeType = None, ef_structuredFields = None, ef_skippedReason = None \<rparr>
      in if isReadmeFile absPath then base \<lparr> ef_skippedReason := Some ''natural_language_no_extract'' \<rparr>
         else (case find (\<lambda>x. ex_match x absPath) extractors of
             Some x \<Rightarrow> base \<lparr> ef_mimeType := sniffMimeType fs absPath,
                 ef_structuredFields := Some (ex_extract x fs absPath) \<rparr>
           | None \<Rightarrow> base \<lparr> ef_mimeType := sniffMimeType fs absPath \<rparr>))"

section \<open>What can be extracted\<close>

text \<open>
  A field is a single string under one of seven keys, or a list of strings under one of three;
  \<open>words\<close> are strings without white space.
\<close>

definition word :: "string \<Rightarrow> bool" where
  "word w \<longleftrightarrow> w \<noteq> [] \<and> list_all non_space w"

definition field_ok :: "bool \<Rightarrow> string \<times> jsval \<Rightarrow> bool" where
  "field_ok free f \<longleftrightarrow>
     fst f \<in> {''name'', ''remoteOrigin'', ''userEmail'', ''userName'', ''projectName'', ''packageName'', ''moduleName''}
       \<and> is_string (snd f)
   \<or> fst f \<in> {''dependencies'', ''devDependencies'', ''requires''}
       \<and> (\<exists>xs. snd f = strings xs \<and> (free \<or> list_all word xs))"

lemma optional_field_ok:
  "k \<in> {''name'', ''remoteOrigin'', ''userEmail'', ''userName'', ''projectName'', ''packageName'', ''moduleName''} \<Longrightarrow>
   list_all (field_ok free) (optional_field k v)"
  by (auto simp: optional_field_def field_ok_def is_string_def split: option.splits)

lemma word_char_no_space: "is_word c \<Longrightarrow> non_space c"
  by (auto simp: is_word_def non_space_def is_space_def Let_def)

lemma package_char_no_space: "package_char c \<Longrightarrow> non_space c"
proof -
  have "non_space (CHR ''.'')" "non_space (CHR ''-'')" by (simp_all add: non_space_def is_space_def)
  then show "package_char c \<Longrightarrow> non_space c" by (auto simp: package_char_def word_char_no_space)
qed

lemma cargo_char_no_space: "cargo_char c \<Longrightarrow> non_space c"
  using package_char_no_space by (auto simp: cargo_char_def package_char_def)

lemma captured_word:
  assumes "rx_exec a (many1 P) b s = Some x" "\<And>c. P c \<Longrightarrow> non_space c"
  shows "word x"
  using exec_many1 [OF assms(1)] assms(2) by (auto simp: word_def elim: list.pred_mono_strong)

lemma pyproject_words: "list_all word (snd (pyproject inside name ls))"
  by (induction inside name ls rule: pyproject.induct)
    (auto simp: Let_def captured_word package_char_no_space split: option.splits prod.splits)

lemma cargo_words: "list_all word (snd (cargo inside name ls))"
  by (induction inside name ls rule: cargo.induct)
    (auto simp: Let_def captured_word cargo_char_no_space split: option.splits prod.splits)

lemma go_words: "list_all word (snd (go_mod inside name ls))"
  by (induction inside name ls rule: go_mod.induct)
    (auto simp: Let_def captured_word split: option.splits)

lemma requirement_word: "requirement l = Some w \<Longrightarrow> word w"
  by (auto simp: requirement_def captured_word package_char_no_space split: if_splits)

lemma requirements_words: "list_all word (List.map_filter requirement ls)"
  by (auto simp: List.map_filter_def list_all_iff requirement_word)

lemma dependencies_ok:
  "free \<or> list_all word xs \<Longrightarrow> k \<in> {''dependencies'', ''devDependencies'', ''requires''} \<Longrightarrow> field_ok free (k, strings xs)"
  unfolding field_ok_def fst_conv snd_conv by (rule disjI2, rule conjI, assumption, rule exI [of _ xs], rule conjI, rule refl)

lemma extract_ok:
  assumes "x \<in> set DEFAULT_EXTRACTORS"
  shows "list_all (field_ok (x = packageJsonExtractor)) (ex_extract x fs p)"
proof -
  note ok = optional_field_ok dependencies_ok
  have json: "list_all (field_ok True) (ex_extract packageJsonExtractor fs p)"
  proof -
    have "field_ok True (''dependencies'', strings xs)" "field_ok True (''devDependencies'', strings xs)" for xs
      by (rule dependencies_ok; simp)+
    then show ?thesis by (simp add: packageJsonExtractor_def ok split: option.split)
  qed
  have git: "list_all (field_ok free) (ex_extract gitConfigExtractor fs p)"
      "list_all (field_ok free) (ex_extract globalGitConfigExtractor fs p)" for free
    by (simp_all add: gitConfigExtractor_def globalGitConfigExtractor_def ok split_beta split: option.split)
  have "list_all (field_ok free) (ex_extract pyprojectTomlExtractor fs p)" for free
    by (simp add: pyprojectTomlExtractor_def ok split_beta pyproject_words del: pyproject.simps split: option.split)
  moreover have "list_all (field_ok free) (ex_extract requirementsTxtExtractor fs p)" for free
    by (simp add: requirementsTxtExtractor_def ok requirements_words split: option.split)
  moreover have "list_all (field_ok free) (ex_extract cargoTomlExtractor fs p)" for free
    by (simp add: cargoTomlExtractor_def ok split_beta cargo_words del: cargo.simps split: option.split)
  moreover have "list_all (field_ok free) (ex_extract goModExtractor fs p)" for free
    by (simp add: goModExtractor_def ok split_beta go_words del: go_mod.simps split: option.split)
  moreover note git
  moreover have "list_all (field_ok free) (ex_extract readmeSkipExtractor fs p)" for free
    by (simp add: readmeSkipExtractor_def)
  ultimately have others: "\<forall>x \<in> set (tl DEFAULT_EXTRACTORS). list_all (field_ok free) (ex_extract x fs p)" for free
    by (simp add: DEFAULT_EXTRACTORS_def)
  consider "x = packageJsonExtractor" | "x \<in> set (tl DEFAULT_EXTRACTORS)"
    using assms by (auto simp: DEFAULT_EXTRACTORS_def)
  then show ?thesis
  proof cases
    case 2
    then show ?thesis using others by blast
  qed (simp add: json)
qed

text \<open>Nothing but typed metadata leaves a file: the extracted fields are strings and lists of
  strings under ten known keys, the entries of every list except the dependency names of a
  package.json are words without white space, and what is kept of a README does not depend on its
  content at all.\<close>

theorem extracted_fields_typed:
  "(case ef_structuredFields (extractFile fs p rel rt bytes mtime DEFAULT_EXTRACTORS) of
      None \<Rightarrow> True
    | Some found \<Rightarrow> \<not> isReadmeFile p \<and> list_all (field_ok (basename p = ''package.json'')) found) \<and>
   (isReadmeFile p \<longrightarrow> extractFile fs p rel rt bytes mtime DEFAULT_EXTRACTORS
       = extractFile fs' p rel rt bytes mtime DEFAULT_EXTRACTORS)"
proof -
  have "list_all (field_ok (basename p = ''package.json'')) (ex_extract x fs p)"
    if "find (\<lambda>x. ex_match x p) DEFAULT_EXTRACTORS = Some x" for x
  proof -
    have x: "x \<in> set DEFAULT_EXTRACTORS" "ex_match x p" using find_Some_in [OF that] by simp_all
    have weaken: "field_ok (basename p = ''package.json'') f" if "field_ok (x = packageJsonExtractor) f" for f
      using that x(2) by (auto simp: field_ok_def packageJsonExtractor_def)
    from extract_ok [OF x(1), of fs p] weaken show ?thesis by (auto simp: list_all_iff)
  qed
  then show ?thesis by (auto simp: extractFile_def Let_def split: option.splits)
qed

definition sample_files :: file_access where
  "sample_files = \<lparr> fa_bytes = (\<lambda>_. Some ''numpy''),
     fa_text = (\<lambda>_. Some (''# tools'' @ [CHR 10] @ ''numpy>=1.0'' @ [CHR 10] @ ''-r other'')), fa_json = (\<lambda>_. None) \<rparr>"

theorem extracted_fields_typed_witness:
  "isReadmeFile ''/home/ann/README.md'' \<and>
   extractFile sample_files ''/home/ann/README.md'' ''README.md'' ''r1'' (Fin 5) (Fin 7) DEFAULT_EXTRACTORS =
   extractFile \<lparr> fa_bytes = (\<lambda>_. None), fa_text = (\<lambda>_. None), fa_json = (\<lambda>_. None) \<rparr>
     ''/home/ann/README.md'' ''README.md'' ''r1'' (Fin 5) (Fin 7) DEFAULT_EXTRACTORS"
proof -
  have readme: "isReadmeFile ''/home/ann/README.md''" by code_simp
  then show ?thesis using extracted_fields_typed [where fs = sample_files and p = "''/home/ann/README.md''"] by blast
qed

end
