(* ===== verification/MinerScan.thy ===== *)
theory MinerScan
  imports MinerFiles
begin

text \<open>
  The scan of the idle miner (\<open>packages/idle-miner/src/miner.ts\<close>). The file system, the governor's
  answers and the stop signal are given by an environment: \<open>me_yields k\<close> is the answer of the k-th
  question to the governor, \<open>me_runs k\<close> the value of the field \<open>running\<close> at its k-th test. The
  file index and the cursors are the state, the effects are a log. Waiting for the governor may
  never end; then the scan has no result. The repositories and the emitter do not fail, as those
  that the package ships.
\<close>

section \<open>Environment and state\<close>

record file_stat =
  st_isDirectory :: bool
  st_isFile :: bool
  st_size :: number
  st_mtimeMs :: number

record scan_root_config =
  sr_id :: string
  sr_rootPath :: string
  sr_enabled :: bool

record miner_env =
  me_readdir :: "string \<Rightarrow> string list option"
  me_stat :: "string \<Rightarrow> file_stat option"
  me_realpath :: "string \<Rightarrow> string option"
  me_relative :: "string \<Rightarrow> string \<Rightarrow> string"
  me_files :: file_access
  me_sha256 :: "string \<Rightarrow> string option"
  me_homedir :: string
  me_userId :: string
  me_extractors :: "extractor list"
  me_yields :: "nat \<Rightarrow> bool"
  me_runs :: "nat \<Rightarrow> bool"
  me_id :: "nat \<Rightarrow> string"

record index_entry =
  ix_mtimeMs :: number
  ix_sizeBytes :: number
  ix_contentHash :: "string option"

record raw_signal =
  sg_id :: string
  sg_userId :: string
  sg_rootId :: string
  sg_absPath :: string
  sg_relPath :: string
  sg_sizeBytes :: number
  sg_mtimeMs :: number
  sg_mimeType :: "string option"
  sg_contentHash :: "string option"
  sg_structuredFields :: "jsobj option"
  sg_skippedReason :: "string option"

datatype miner_event =
    GoAhead nat
  | CursorSaved string string
  | Listed string
  | Extracted string
  | BytesReported number
  | HashRead string
  | Upserted string string index_entry
  | Emitted raw_signal

record scan_state =
  sc_asks :: nat
  sc_checks :: nat
  sc_emits :: nat
  sc_index :: "string \<times> string \<Rightarrow> index_entry option"
  sc_cursors :: "string \<Rightarrow> string option"
  sc_log :: "miner_event list"

definition note_event :: "miner_event \<Rightarrow> scan_state \<Rightarrow> scan_state" where
  "note_event e st = st \<lparr> sc_log := sc_log st @ [e] \<rparr>"

text \<open>A test of \<open>running\<close> counts; so does a question to the governor.\<close>

definition checked :: "scan_state \<Rightarrow> scan_state" where
  "checked st = st \<lparr> sc_checks := Suc (sc_checks st) \<rparr>"

definition saveCursor :: "string \<Rightarrow> string \<Rightarrow> scan_state \<Rightarrow> scan_state" where
  "saveCursor rootId lastDir st =
     note_event (CursorSaved rootId lastDir) (st \<lparr> sc_cursors := (sc_cursors st)(rootId \<mapsto> lastDir) \<rparr>)"

text \<open>Asking until the governor lets the miner go on: the number of the next question.\<close>

partial_function (option) wait_go :: "(nat \<Rightarrow> bool) \<Rightarrow> nat \<Rightarrow> nat option" where
  "wait_go yields k = (if yields k then wait_go yields (Suc k) else Some (Suc k))"

definition yieldIfNeeded :: "miner_env \<Rightarrow> scan_state \<Rightarrow> scan_state option" where
  "yieldIfNeeded env st =
     (case wait_go (me_yields env) (sc_asks st) of
        None \<Rightarrow> None
      | Some k \<Rightarrow> Some (note_event (GoAhead (k - 1)) (st \<lparr> sc_asks := k \<rparr>)))"

section \<open>Files\<close>

definition MAX_FILE_BYTES :: rat where "MAX_FILE_BYTES = 4194304"
definition CONTENT_HASH_MAX_BYTES :: rat where "CONTENT_HASH_MAX_BYTES = 262144"

definition computeContentHash :: "miner_env \<Rightarrow> string \<Rightarrow> number \<Rightarrow> string option" where
  "computeContentHash env p sizeBytes =
     (if num_lt (Fin CONTENT_HASH_MAX_BYTES) sizeBytes then None else me_sha256 env p)"

definition file_unchanged :: "index_entry option \<Rightarrow> file_stat \<Rightarrow> bool" where
  "file_unchanged indexed s = (case indexed of None \<Rightarrow> False
     | Some i \<Rightarrow> num_eq (ix_mtimeMs i) (st_mtimeMs s) \<and> num_eq (ix_sizeBytes i) (st_size s))"

text \<open>The read that the hash of a file makes.\<close>

definition hash_reads :: "extracted_file \<Rightarrow> string \<Rightarrow> number \<Rightarrow> miner_event list" where
  "hash_reads extracted absPath sizeBytes =
     (if ef_skippedReason extracted = None \<and> \<not> num_lt (Fin CONTENT_HASH_MAX_BYTES) sizeBytes
      then [HashRead absPath] else [])"

text \<open>The last part of the loop body: extract, report, hash, index, emit.\<close>

definition mine_file ::
  "miner_env \<Rightarrow> scan_root_config \<Rightarrow> string \<Rightarrow> string \<Rightarrow> file_stat \<Rightarrow> scan_state \<Rightarrow> scan_state" where
  "mine_file env rt absPath relPath s st =
     (let extracted = extractFile (me_files env) absPath relPath (sr_id rt) (st_size s) (st_mtimeMs s)
            (me_extractors env);
          contentHash = (if ef_skippedReason extracted = None
            then computeContentHash env absPath (st_size s) else None);
          entry = \<lparr> ix_mtimeMs = st_mtimeMs s, ix_sizeBytes = st_size s, ix_contentHash = contentHash \<rparr>;
          signal = \<lparr> sg_id = me_id env (sc_emits st), sg_userId = me_userId env, sg_rootId = sr_id rt,
            sg_absPath = absPath, sg_relPath = relPath, sg_sizeBytes = st_size s,
            sg_mtimeMs = st_mtimeMs s, sg_mimeType = ef_mimeType extracted,
            sg_contentHash = contentHash, sg_structuredFields = ef_structuredFields extracted,
            sg_skippedReason = ef_skippedReason extracted \<rparr>;
          st1 = note_event (BytesReported (st_size s)) (note_event (Extracted absPath) st);
          st2 = fold note_event (hash_reads extracted absPath (st_size s)) st1;
          st3 = note_event (Upserted (sr_id rt) relPath entry)
            (st2 \<lparr> sc_index := (sc_index st2)((sr_id rt, relPath) \<mapsto> entry) \<rparr>)
      in note_event (Emitted signal) (st3 \<lparr> sc_emits := Suc (sc_emits st3) \<rparr>))"

text \<open>
  The body of the loop over the entries of a directory: whether the loop goes on, the queue, the
  state. A stop leaves the whole scan of the root.
\<close>

definition scan_entry ::
  "miner_env \<Rightarrow> scan_root_config \<Rightarrow> string \<Rightarrow> string \<Rightarrow> string list \<Rightarrow> scan_state
     \<Rightarrow> (bool \<times> string list \<times> scan_state) option" where
  "scan_entry env rt d e queue st =
     (if \<not> me_runs env (sc_checks st) then Some (False, queue, checked st)
      else let st1 = checked st; p = path_join d e in
        if isDenied (me_realpath env) (me_homedir env) p then Some (True, queue, st1)
        else (case me_stat env p of
            None \<Rightarrow> Some (True, queue, st1)
          | Some s \<Rightarrow>
              if st_isDirectory s then Some (True, queue @ [p], st1)
              else if \<not> st_isFile s then Some (True, queue, st1)
              else if num_lt (Fin MAX_FILE_BYTES) (st_size s) then Some (True, queue, st1)
              else let relPath = me_relative env (sr_rootPath rt) p in
                if file_unchanged (sc_index st1 (sr_id rt, relPath)) s then Some (True, queue, st1)
                else (case yieldIfNeeded env st1 of
                    None \<Rightarrow> None
                  | Some st2 \<Rightarrow>
                      if \<not> me_runs env (sc_checks st2) then Some (False, queue, checked st2)
                      else Some (True, queue, mine_file env rt p relPath s (checked st2)))))"

fun scan_entries ::
  "miner_env \<Rightarrow> scan_root_config \<Rightarrow> string \<Rightarrow> string list \<Rightarrow> string list \<Rightarrow> scan_state
     \<Rightarrow> (bool \<times> string list \<times> scan_state) option" where
  "scan_entries env rt d [] queue st = Some (True, queue, st)"
| "scan_entries env rt d (e # es) queue st =
     (case scan_entry env rt d e queue st of
        None \<Rightarrow> None
      | Some (False, queue', st') \<Rightarrow> Some (False, queue', st')
      | Some (True, queue', st') \<Rightarrow> scan_entries env rt d es queue' st')"

section \<open>Directories, roots, batches\<close>

definition before_listing :: "miner_env \<Rightarrow> scan_root_config \<Rightarrow> string \<Rightarrow> scan_state \<Rightarrow> scan_state option" where
  "before_listing env rt d st =
     (if me_yields env (sc_asks st)
      then (case wait_go (me_yields env) (Suc (sc_asks st)) of
              None \<Rightarrow> None
            | Some k \<Rightarrow> Some ((saveCursor (sr_id rt) d st) \<lparr> sc_asks := k \<rparr>))
      else Some (st \<lparr> sc_asks := Suc (sc_asks st) \<rparr>))"

text \<open>
  The queue of directories, with fuel for the number of directories taken from it, and the flag
  \<open>resumeReached\<close> as the code updates it.
\<close>

fun scan_dirs ::
  "nat \<Rightarrow> miner_env \<Rightarrow> scan_root_config \<Rightarrow> string option \<Rightarrow> bool \<Rightarrow> string list \<Rightarrow> scan_state
     \<Rightarrow> scan_state option" where
  "scan_dirs fuel env rt cursor resumeReached [] st = Some st"
| "scan_dirs 0 env rt cursor resumeReached (d # queue) st = None"
| "scan_dirs (Suc fuel) env rt cursor resumeReached (d # queue) st =
     (if \<not> me_runs env (sc_checks st) then Some (checked st)
      else let resumeReached' = (if \<not> resumeReached then Some d = cursor else True) in
        (case before_listing env rt d (checked st) of
           None \<Rightarrow> None
         | Some st1 \<Rightarrow>
             (case me_readdir env d of
                None \<Rightarrow> scan_dirs fuel env rt cursor resumeReached' queue st1
              | Some entries \<Rightarrow>
                  (case scan_entries env rt d entries queue (note_event (Listed d) st1) of
                     None \<Rightarrow> None
                   | Some (False, _, st2) \<Rightarrow> Some st2
                   | Some (True, queue', st2) \<Rightarrow>
                       scan_dirs fuel env rt cursor resumeReached' queue' (saveCursor (sr_id rt) d st2)))))"

definition scanRoot :: "nat \<Rightarrow> miner_env \<Rightarrow> scan_root_config \<Rightarrow> scan_state \<Rightarrow> scan_state option" where
  "scanRoot fuel env rt st =
     (let cursor = sc_cursors st (sr_id rt) in
      scan_dirs fuel env rt cursor (cursor = None) [sr_rootPath rt] st)"

fun scanBatch :: "nat \<Rightarrow> miner_env \<Rightarrow> scan_root_config list \<Rightarrow> scan_state \<Rightarrow> scan_state option" where
  "scanBatch fuel env [] st = Some st"
| "scanBatch fuel env (rt # rts) st =
     (if \<not> sr_enabled rt then scanBatch fuel env rts st
      else (case scanRoot fuel env rt st of None \<Rightarrow> None | Some st1 \<Rightarrow> scanBatch fuel env rts st1))"

section \<open>The cursor\<close>

text \<open>
  The flag that the cursor sets is never read: a scan goes over everything from the root, whatever
  cursor was saved.
\<close>

lemma cursor_irrelevant: "scan_dirs fuel env rt c b queue st = scan_dirs fuel env rt None True queue st"
proof (induction fuel arbitrary: c b queue st)
  case 0
  then show ?case by (cases queue) simp_all
next
  case (Suc fuel)
  define F where "F = scan_dirs fuel env rt None True"
  have ih: "scan_dirs fuel env rt c b q s = F q s" for c b q s
    unfolding F_def by (rule Suc.IH)
  show ?case by (cases queue) (simp_all add: Let_def ih split: option.split bool.split prod.split)
qed

lemma scanRoot_from_start: "scanRoot fuel env rt st = scan_dirs fuel env rt None True [sr_rootPath rt] st"
  unfolding scanRoot_def Let_def by (rule cursor_irrelevant)

section \<open>Safety of the log\<close>

definition denied :: "miner_env \<Rightarrow> string \<Rightarrow> bool" where
  "denied env p = isDenied (me_realpath env) (me_homedir env) p"

text \<open>A file that a scan may read, and a directory that it enters.\<close>

definition minable_file :: "miner_env \<Rightarrow> string \<Rightarrow> bool" where
  "minable_file env p \<longleftrightarrow> \<not> denied env p \<and> (\<exists>s. me_stat env p = Some s \<and> \<not> st_isDirectory s \<and> st_isFile s
     \<and> \<not> num_lt (Fin MAX_FILE_BYTES) (st_size s))"

definition entered :: "miner_env \<Rightarrow> string \<Rightarrow> bool" where
  "entered env p \<longleftrightarrow> \<not> denied env p \<and> (\<exists>s. me_stat env p = Some s \<and> st_isDirectory s)"

fun event_ok :: "miner_env \<Rightarrow> string set \<Rightarrow> miner_event \<Rightarrow> bool" where
  "event_ok env roots (GoAhead k) = (\<not> me_yields env k)"
| "event_ok env roots (Listed d) = (d \<in> roots \<or> entered env d)"
| "event_ok env roots (Extracted p) = minable_file env p"
| "event_ok env roots (HashRead p) = (minable_file env p \<and> \<not> isReadmeFile p \<and>
     (\<exists>s. me_stat env p = Some s \<and> \<not> num_lt (Fin CONTENT_HASH_MAX_BYTES) (st_size s)))"
| "event_ok env roots (BytesReported n) = (\<exists>p s. minable_file env p \<and> me_stat env p = Some s \<and> n = st_size s)"
| "event_ok env roots (Upserted i rel entry) = (\<exists>p s. minable_file env p \<and> me_stat env p = Some s \<and>
     (\<exists>r \<in> roots. rel = me_relative env r p) \<and>
     ix_mtimeMs entry = st_mtimeMs s \<and> ix_sizeBytes entry = st_size s)"
| "event_ok env roots (Emitted sg) = (minable_file env (sg_absPath sg) \<and> (sg_structuredFields sg =
     ef_structuredFields (extractFile (me_files env) (sg_absPath sg) (sg_relPath sg) (sg_rootId sg)
       (sg_sizeBytes sg) (sg_mtimeMs sg) (me_extractors env))))"
| "event_ok env roots (CursorSaved i d) = True"

text \<open>
  The order of the log: a go-ahead of the governor is used up by one file, and what follows it
  (the extraction, the report, the read for the hash, the entry of the index, the signal) is of that
  file. The permit is what the log allows next: nothing, a file of the miner's choice, or one file.
\<close>

datatype permit = Forbidden | Any_file | One_file string

fun governed :: "miner_env \<Rightarrow> permit \<Rightarrow> miner_event list \<Rightarrow> bool" where
  "governed env pm [] = True"
| "governed env pm (GoAhead k # es) = governed env Any_file es"
| "governed env pm (Extracted p # es) = (pm = Any_file \<and> governed env (One_file p) es)"
| "governed env pm (BytesReported n # es) =
     ((\<exists>p s. pm = One_file p \<and> me_stat env p = Some s \<and> n = st_size s) \<and> governed env pm es)"
| "governed env pm (HashRead p # es) = (pm = One_file p \<and> governed env pm es)"
| "governed env pm (Upserted i rel entry # es) =
     ((\<exists>p r. pm = One_file p \<and> rel = me_relative env r p) \<and> governed env pm es)"
| "governed env pm (Emitted sg # es) = (pm = One_file (sg_absPath sg) \<and> governed env Forbidden es)"
| "governed env pm (Listed d # es) = governed env Forbidden es"
| "governed env pm (CursorSaved i d # es) = governed env Forbidden es"

lemma governed_more: "governed env Forbidden es \<Longrightarrow> governed env pm es"
  by (cases es; cases "hd es") auto

lemma governed_append: "governed env pm xs \<Longrightarrow> governed env Forbidden ys \<Longrightarrow> governed env pm (xs @ ys)"
  by (induction env pm xs rule: governed.induct) (auto intro: governed_more)

definition log_ok :: "miner_env \<Rightarrow> string set \<Rightarrow> miner_event list \<Rightarrow> bool" where
  "log_ok env roots es \<longleftrightarrow> list_all (event_ok env roots) es \<and> governed env Forbidden es"

definition adds :: "miner_env \<Rightarrow> string set \<Rightarrow> scan_state \<Rightarrow> scan_state \<Rightarrow> bool" where
  "adds env roots st st' \<longleftrightarrow> (\<exists>es. sc_log st' = sc_log st @ es \<and> log_ok env roots es)"

lemma addsI: "sc_log st' = sc_log st @ es \<Longrightarrow> log_ok env roots es \<Longrightarrow> adds env roots st st'"
  by (auto simp: adds_def)

lemma adds_same: "sc_log st' = sc_log st \<Longrightarrow> adds env roots st st'"
  by (simp add: adds_def log_ok_def)

lemma adds_trans: "adds env roots st st' \<Longrightarrow> adds env roots st' st'' \<Longrightarrow> adds env roots st st''"
  by (auto simp: adds_def log_ok_def intro!: governed_append)

lemma checked_log [simp]: "sc_log (checked st) = sc_log st" "sc_index (checked st) = sc_index st"
  "sc_asks (checked st) = sc_asks st"
  by (simp_all add: checked_def)

lemma noted:
  "sc_log (note_event e st) = sc_log st @ [e]" "sc_index (note_event e st) = sc_index st"
  "sc_log (fold note_event es st) = sc_log st @ es" "sc_index (fold note_event es st) = sc_index st"
proof -
  show one: "sc_log (note_event e st) = sc_log st @ [e]" "sc_index (note_event e st) = sc_index st" for e st
    by (simp_all add: note_event_def)
  show "sc_log (fold note_event es st) = sc_log st @ es" "sc_index (fold note_event es st) = sc_index st"
    by (induction es arbitrary: st) (simp_all add: one)
qed

lemma wait_goD:
  assumes "wait_go yields k = Some m"
  shows "k < m \<and> \<not> yields (m - 1)"
  using _ assms
proof (rule wait_go.raw_induct)
  fix f and ys :: "nat \<Rightarrow> bool" and i j
  assume "\<And>ys i j. f ys i = Some j \<Longrightarrow> i < j \<and> \<not> ys (j - 1)"
    and "(if ys i then f ys (Suc i) else Some (Suc i)) = Some j"
  then show "i < j \<and> \<not> ys (j - 1)" by (auto split: if_splits dest: Suc_lessD)
qed

lemma yieldIfNeededD:
  assumes "yieldIfNeeded env st = Some st'"
  obtains k where "st' = note_event (GoAhead k) (st \<lparr> sc_asks := Suc k \<rparr>)" "\<not> me_yields env k"
proof -
  from assms obtain m where m: "wait_go (me_yields env) (sc_asks st) = Some m"
      "st' = note_event (GoAhead (m - 1)) (st \<lparr> sc_asks := m \<rparr>)"
    by (auto simp: yieldIfNeeded_def split: option.splits)
  then show ?thesis using that [of "m - 1"] wait_goD [OF m(1)] by simp
qed

text \<open>A go-ahead followed by the mining of a permitted file is a good piece of log.\<close>

lemma mine_file_adds:
  assumes "minable_file env p" "\<not> me_yields env k" "me_stat env p = Some s" "sr_rootPath rt \<in> roots"
    and rel: "relPath = me_relative env (sr_rootPath rt) p"
  shows "adds env roots st (mine_file env rt p relPath s (checked (note_event (GoAhead k) (st \<lparr> sc_asks := Suc k \<rparr>))))"
proof -
  define ex where "ex = extractFile (me_files env) p relPath (sr_id rt) (st_size s) (st_mtimeMs s) (me_extractors env)"
  obtain en sg where log: "sc_log (mine_file env rt p relPath s
        (checked (note_event (GoAhead k) (st \<lparr> sc_asks := Suc k \<rparr>)))) =
      sc_log st @ GoAhead k # Extracted p # BytesReported (st_size s) # hash_reads ex p (st_size s) @
        [Upserted (sr_id rt) relPath en, Emitted sg]"
    and en: "ix_mtimeMs en = st_mtimeMs s" "ix_sizeBytes en = st_size s"
    and sg: "sg_absPath sg = p" "sg_structuredFields sg = ef_structuredFields (extractFile (me_files env) p
        (sg_relPath sg) (sg_rootId sg) (sg_sizeBytes sg) (sg_mtimeMs sg) (me_extractors env))"
    by (simp add: mine_file_def noted Let_def flip: ex_def)
  have readme: "\<not> isReadmeFile p" if "ef_skippedReason ex = None"
    using that by (auto simp: ex_def extractFile_def Let_def split: if_splits option.splits)
  have "log_ok env roots (GoAhead k # Extracted p # BytesReported (st_size s) # hash_reads ex p (st_size s) @
        [Upserted (sr_id rt) relPath en, Emitted sg])"
    using assms sg en readme by (auto simp: log_ok_def hash_reads_def)
  then show ?thesis using log by (intro addsI)
qed

text \<open>The cases of the loop body.\<close>

lemma scan_entry_cases:
  assumes "scan_entry env rt d e queue st = Some (b, queue', st')"
  obtains (stop) "\<not> b" "queue' = queue" "adds env roots st st'"
      "\<exists>k. \<not> me_runs env k" "sc_index st' = sc_index st"
  | (skip) "b" "queue' = queue" "st' = checked st" "\<not> entered env (path_join d e)"
      "minable_file env (path_join d e) \<Longrightarrow> \<exists>s. me_stat env (path_join d e) = Some s \<and>
         file_unchanged (sc_index st (sr_id rt, me_relative env (sr_rootPath rt) (path_join d e))) s"
  | (descend) "b" "queue' = queue @ [path_join d e]" "st' = checked st" "entered env (path_join d e)"
  | (mine) k s where "b" "queue' = queue" "me_stat env (path_join d e) = Some s" "\<not> me_yields env k"
      "minable_file env (path_join d e)"
      "\<not> file_unchanged (sc_index st (sr_id rt, me_relative env (sr_rootPath rt) (path_join d e))) s"
      "st' = mine_file env rt (path_join d e) (me_relative env (sr_rootPath rt) (path_join d e)) s
         (checked (note_event (GoAhead k) (checked st \<lparr> sc_asks := Suc k \<rparr>)))"
proof -
  let ?p = "path_join d e"
  have same: "adds env roots st (checked st)" by (rule adds_same) simp
  show ?thesis
  proof (cases "me_runs env (sc_checks st)")
    case False
    then have "\<exists>k. \<not> me_runs env k" by blast
    then show ?thesis using False assms stop same by (auto simp: scan_entry_def)
  next
    case run: True
    show ?thesis
    proof (cases "\<not> denied env ?p \<and> (\<exists>s. me_stat env ?p = Some s \<and> \<not> st_isDirectory s \<and> st_isFile s \<and>
        \<not> num_lt (Fin MAX_FILE_BYTES) (st_size s) \<and>
        \<not> file_unchanged (sc_index st (sr_id rt, me_relative env (sr_rootPath rt) ?p)) s)")
      case True
      then obtain s where s: "me_stat env ?p = Some s" "\<not> st_isDirectory s" "st_isFile s"
          "\<not> num_lt (Fin MAX_FILE_BYTES) (st_size s)"
          "\<not> file_unchanged (sc_index st (sr_id rt, me_relative env (sr_rootPath rt) ?p)) s"
        and allowed: "\<not> isDenied (me_realpath env) (me_homedir env) ?p"
        by (auto simp: denied_def)
      then have ok: "minable_file env ?p" by (auto simp: minable_file_def denied_def)
      from assms s allowed run obtain st2 where y: "yieldIfNeeded env (checked st) = Some st2"
          and res: "(if \<not> me_runs env (sc_checks st2) then Some (False, queue, checked st2)
            else Some (True, queue, mine_file env rt ?p (me_relative env (sr_rootPath rt) ?p) s (checked st2)))
            = Some (b, queue', st')"
        by (auto simp: scan_entry_def Let_def split: option.splits)
      from y obtain k where k: "st2 = note_event (GoAhead k) (checked st \<lparr> sc_asks := Suc k \<rparr>)" "\<not> me_yields env k"
        by (rule yieldIfNeededD)
      show ?thesis
      proof (cases "me_runs env (sc_checks st2)")
        case True
        then show ?thesis using mine [of s k] res k s ok by simp
      next
        case False
        have "adds env roots st (checked st2)"
          using k by (intro addsI [of _ _ "[GoAhead k]"]) (simp_all add: note_event_def log_ok_def)
        moreover have "sc_index (checked st2) = sc_index st" using k(1) by (simp add: note_event_def)
        moreover have "\<exists>k. \<not> me_runs env k" using False by blast
        ultimately show ?thesis using stop False res by auto
      qed
    next
      case False
      show ?thesis
      proof (cases "entered env ?p")
        case True
        then show ?thesis using assms run descend by (auto simp: scan_entry_def entered_def denied_def Let_def)
      next
        case not_entered: False
        then have "b \<and> queue' = queue \<and> st' = checked st"
          using assms run False
          by (auto simp: scan_entry_def entered_def denied_def Let_def split: option.splits if_splits)
        moreover have "\<exists>s. me_stat env ?p = Some s \<and>
            file_unchanged (sc_index st (sr_id rt, me_relative env (sr_rootPath rt) ?p)) s" if "minable_file env ?p"
          using that False by (auto simp: minable_file_def)
        ultimately show ?thesis using skip not_entered by blast
      qed
    qed
  qed
qed

lemma scan_entry_safe:
  assumes "scan_entry env rt d e queue st = Some (b, queue', st')"
    and "list_all (\<lambda>q. q \<in> roots \<or> entered env q) queue" and root: "sr_rootPath rt \<in> roots"
  shows "adds env roots st st' \<and> list_all (\<lambda>q. q \<in> roots \<or> entered env q) queue'"
  using assms(1)
proof (cases rule: scan_entry_cases [where roots = roots])
  case (mine k s)
  have "adds env roots st (checked st)" by (rule adds_same) simp
  then show ?thesis
    using mine_file_adds [OF mine(5,4,3) root refl, of "checked st"] adds_trans assms(2) mine(2,7) by blast
qed (use assms(2) adds_same [of "checked st" st] in auto)

lemma scan_entries_safe:
  assumes "scan_entries env rt d es queue st = Some (b, queue', st')"
    and "list_all (\<lambda>q. q \<in> roots \<or> entered env q) queue" and root: "sr_rootPath rt \<in> roots"
  shows "adds env roots st st' \<and> list_all (\<lambda>q. q \<in> roots \<or> entered env q) queue'"
  using assms(1,2)
proof (induction es arbitrary: queue st)
  case Nil
  then show ?case by (simp add: adds_same)
next
  case (Cons e es)
  from Cons.prems(1) obtain b1 q1 st1 where one: "scan_entry env rt d e queue st = Some (b1, q1, st1)"
      and rest: "\<not> b1 \<and> (b, queue', st') = (b1, q1, st1) \<or> b1 \<and> scan_entries env rt d es q1 st1 = Some (b, queue', st')"
    by (auto split: option.splits bool.splits)
  from scan_entry_safe [OF one Cons.prems(2) root]
  have "adds env roots st st1" "list_all (\<lambda>q. q \<in> roots \<or> entered env q) q1" by auto
  then show ?case using rest Cons.IH [of q1 st1] adds_trans by blast
qed

lemma saveCursor_adds: "adds env roots st (saveCursor i d st)"
  by (rule addsI [of _ _ "[CursorSaved i d]"]) (simp_all add: saveCursor_def note_event_def log_ok_def)

lemma saveCursor_index [simp]: "sc_index (saveCursor i d st) = sc_index st"
  by (simp add: saveCursor_def note_event_def)

lemma before_listing_safe:
  assumes "before_listing env rt d st = Some st'"
  shows "adds env roots st st' \<and> sc_index st' = sc_index st"
proof -
  obtain k where k: "st' = saveCursor (sr_id rt) d st \<lparr> sc_asks := k \<rparr> \<or> st' = st \<lparr> sc_asks := k \<rparr>"
    using assms by (auto simp: before_listing_def split: if_splits option.splits)
  have "adds env roots st (saveCursor (sr_id rt) d st \<lparr> sc_asks := k \<rparr>)"
    by (rule adds_trans [OF saveCursor_adds adds_same]) simp
  moreover have "adds env roots st (st \<lparr> sc_asks := k \<rparr>)" by (rule adds_same) simp
  ultimately show ?thesis using k by auto
qed

lemma listed_adds: "d \<in> roots \<or> entered env d \<Longrightarrow> adds env roots st (note_event (Listed d) st)"
  by (rule addsI [of _ _ "[Listed d]"]) (simp_all add: note_event_def log_ok_def)

text \<open>The cases of one round of the loop over directories.\<close>

lemma scan_dirs_cases:
  assumes "scan_dirs (Suc fuel) env rt c b (d # queue) st = Some st'"
  obtains (stop) "\<not> me_runs env (sc_checks st)" "st' = checked st"
  | (unreadable) st1 b1 where "before_listing env rt d (checked st) = Some st1" "me_readdir env d = None"
      "scan_dirs fuel env rt c b1 queue st1 = Some st'"
  | (left_early) st1 es queue' where "before_listing env rt d (checked st) = Some st1" "me_readdir env d = Some es"
      "scan_entries env rt d es queue (note_event (Listed d) st1) = Some (False, queue', st')"
  | (listed) st1 es queue' st2 b1 where "before_listing env rt d (checked st) = Some st1"
      "me_readdir env d = Some es"
      "scan_entries env rt d es queue (note_event (Listed d) st1) = Some (True, queue', st2)"
      "scan_dirs fuel env rt c b1 queue' (saveCursor (sr_id rt) d st2) = Some st'"
  using assms by (auto simp: Let_def split: if_splits option.splits bool.splits)

lemma scan_dirs_safe:
  assumes "scan_dirs fuel env rt c b queue st = Some st'"
    and "list_all (\<lambda>q. q \<in> roots \<or> entered env q) queue" and root: "sr_rootPath rt \<in> roots"
  shows "adds env roots st st'"
  using assms(1,2)
proof (induction fuel arbitrary: b queue st)
  case 0
  then show ?case by (cases queue) (simp_all add: adds_same)
next
  case (Suc fuel)
  show ?case
  proof (cases queue)
    case Nil
    then show ?thesis using Suc.prems by (simp add: adds_same)
  next
    case (Cons d q)
    have d: "d \<in> roots \<or> entered env d" and q: "list_all (\<lambda>q. q \<in> roots \<or> entered env q) q"
      using Suc.prems(2) Cons by simp_all
    have start: "adds env roots st (note_event (Listed d) st1) \<and> adds env roots st st1"
      if "before_listing env rt d (checked st) = Some st1" for st1
      using adds_trans [OF adds_same [of "checked st" st env roots]] before_listing_safe [OF that]
        listed_adds [OF d] adds_trans by (metis checked_log(1))
    from Suc.prems(1) [unfolded Cons] show ?thesis
    proof (cases rule: scan_dirs_cases)
      case stop
      then show ?thesis by (simp add: adds_same)
    next
      case (unreadable st1 b1)
      then show ?thesis using Suc.IH [OF _ q] start adds_trans by blast
    next
      case (left_early st1 es queue')
      then show ?thesis using scan_entries_safe [OF _ q root] start adds_trans by blast
    next
      case (listed st1 es queue' st2 b1)
      then show ?thesis
        using scan_entries_safe [OF listed(3) q root] Suc.IH [OF listed(4)] saveCursor_adds start adds_trans by metis
    qed
  qed
qed

lemma scanBatch_safe:
  assumes "scanBatch fuel env rts st = Some st'" "set (map sr_rootPath rts) \<subseteq> roots"
  shows "adds env roots st st'"
  using assms
proof (induction rts arbitrary: st)
  case Nil
  then show ?case by (simp add: adds_same)
next
  case (Cons rt rts)
  show ?case
  proof (cases "sr_enabled rt")
    case True
    then obtain st1 where one: "scanRoot fuel env rt st = Some st1" and rest: "scanBatch fuel env rts st1 = Some st'"
      using Cons.prems(1) by (auto split: option.splits)
    have "list_all (\<lambda>q. q \<in> roots \<or> entered env q) [sr_rootPath rt]" using Cons.prems(2) by simp
    from scan_dirs_safe [OF one [unfolded scanRoot_from_start] this] have "adds env roots st st1" using Cons.prems(2) by simp
    then show ?thesis using Cons.IH [OF rest] Cons.prems(2) adds_trans by auto
  qed (use Cons in simp)
qed

text \<open>C16: A batch only reads what it may: every directory it lists is a configured root or not on the
  denylist, directly or through a link; every file that it extracts, reads for a hash, indexes or
  signals is not denied, regular and of at most 4 MB (256 KB and no readme for the hash); a go-ahead of
  the governor comes before each file and is used up by it, and what is reported to the governor,
  indexed and signalled after it is of that same file; and the signalled fields are exactly what the
  extractors give.\<close>

theorem batch_respects_denylist:
  assumes "scanBatch fuel env rts st = Some st'" "sc_log st = []"
  shows "list_all (event_ok env (set (map sr_rootPath rts))) (sc_log st') \<and>
    governed env Forbidden (sc_log st')"
  using scanBatch_safe [OF assms(1) order.refl] assms(2) by (auto simp: adds_def log_ok_def)

section \<open>Scans end\<close>

text \<open>
  Two things are needed: the governor does not pause forever, and the tree of directories that are
  entered is finite, which \<open>weight\<close> measures (links may make it infinite).
\<close>

definition lets_go :: "miner_env \<Rightarrow> bool" where
  "lets_go env \<longleftrightarrow> (\<forall>k. \<exists>j \<ge> k. \<not> me_yields env j)"

definition subdirs :: "miner_env \<Rightarrow> string \<Rightarrow> string list \<Rightarrow> string list" where
  "subdirs env d es = filter (entered env) (map (path_join d) es)"

definition finite_tree :: "miner_env \<Rightarrow> (string \<Rightarrow> nat) \<Rightarrow> bool" where
  "finite_tree env weight \<longleftrightarrow> (\<forall>d es. me_readdir env d = Some es \<longrightarrow>
     sum_list (map (\<lambda>p. Suc (weight p)) (subdirs env d es)) \<le> weight d)"

lemma wait_go_ends: "\<not> yields j \<Longrightarrow> k \<le> j \<Longrightarrow> \<exists>m. wait_go yields k = Some m"
proof (induction "j - k" arbitrary: k)
  case 0
  then show ?case by (subst wait_go.simps) simp
next
  case (Suc n)
  then have "n = j - Suc k" "Suc k \<le> j" by simp_all
  then show ?case using Suc by (subst wait_go.simps) simp
qed

lemma wait_ends: "lets_go env \<Longrightarrow> \<exists>m. wait_go (me_yields env) k = Some m"
  unfolding lets_go_def using wait_go_ends by blast

lemma yieldIfNeeded_ends: "lets_go env \<Longrightarrow> \<exists>st'. yieldIfNeeded env st = Some st'"
  using wait_ends [of env "sc_asks st"] by (auto simp: yieldIfNeeded_def)

lemma before_listing_ends: "lets_go env \<Longrightarrow> \<exists>st'. before_listing env rt d st = Some st'"
  using wait_ends [of env "Suc (sc_asks st)"] by (auto simp: before_listing_def)

lemma scan_entry_ends:
  assumes "lets_go env"
  shows "\<exists>r. scan_entry env rt d e queue st = Some r"
proof -
  obtain st2 where "yieldIfNeeded env (checked st) = Some st2" using yieldIfNeeded_ends [OF assms] by blast
  then show ?thesis by (auto simp: scan_entry_def Let_def split: option.splits)
qed

lemma scan_entry_queue:
  assumes "scan_entry env rt d e queue st = Some (True, queue', st')"
  shows "queue' = queue @ subdirs env d [e]"
  using assms by (cases rule: scan_entry_cases [where roots = "{}"])
    (auto simp: subdirs_def entered_def minable_file_def)

lemma scan_entries_queue:
  "scan_entries env rt d es queue st = Some (True, queue', st') \<Longrightarrow> queue' = queue @ subdirs env d es"
proof (induction es arbitrary: queue st)
  case Nil
  then show ?case by (simp add: subdirs_def)
next
  case (Cons e es)
  then obtain q1 st1 where one: "scan_entry env rt d e queue st = Some (True, q1, st1)"
      and rest: "scan_entries env rt d es q1 st1 = Some (True, queue', st')"
    by (auto split: option.splits bool.splits)
  then show ?case using Cons.IH [OF rest] scan_entry_queue [OF one] by (simp add: subdirs_def)
qed

lemma scan_entries_ends: "lets_go env \<Longrightarrow> \<exists>r. scan_entries env rt d es queue st = Some r"
proof (induction es arbitrary: queue st)
  case (Cons e es)
  obtain b q1 st1 where "scan_entry env rt d e queue st = Some (b, q1, st1)"
    using scan_entry_ends [OF Cons.prems, of rt d e queue st] by auto
  then show ?case using Cons.IH [OF Cons.prems, of q1 st1] by (cases b) auto
next
  case Nil
  show ?case by (rule exI) (rule scan_entries.simps(1))
qed

lemma scan_dirs_ends:
  assumes "lets_go env" "finite_tree env weight" "sum_list (map (\<lambda>p. Suc (weight p)) queue) \<le> fuel"
  shows "\<exists>st'. scan_dirs fuel env rt c b queue st = Some st'"
  using assms(3)
proof (induction fuel arbitrary: b queue st)
  case 0
  then show ?case by (cases queue) simp_all
next
  case (Suc fuel)
  show ?case
  proof (cases queue)
    case (Cons d q)
    obtain st1 where st1: "before_listing env rt d (checked st) = Some st1"
      using before_listing_ends [OF assms(1)] by blast
    show ?thesis
    proof (cases "me_readdir env d")
      case None
      then show ?thesis using Suc.IH [of q] Suc.prems Cons st1 by (simp add: Let_def)
    next
      case (Some es)
      obtain b1 q1 st2 where entries: "scan_entries env rt d es q (note_event (Listed d) st1) = Some (b1, q1, st2)"
        using scan_entries_ends [OF assms(1), of rt d es q "note_event (Listed d) st1"] by auto
      show ?thesis
      proof (cases b1)
        case True
        then have q1: "q1 = q @ subdirs env d es" using scan_entries_queue entries by simp
        have "sum_list (map (\<lambda>p. Suc (weight p)) (subdirs env d es)) \<le> weight d"
          using assms(2) Some by (simp add: finite_tree_def)
        then have "sum_list (map (\<lambda>p. Suc (weight p)) q1) \<le> fuel" using Suc.prems Cons by (simp add: q1)
        then show ?thesis using Suc.IH [of q1] Cons st1 Some entries True by (simp add: Let_def)
      next
        case False
        then show ?thesis using Cons st1 Some entries by (simp add: Let_def)
      qed
    qed
  qed simp
qed

lemma scanRoot_ends:
  "lets_go env \<Longrightarrow> finite_tree env weight \<Longrightarrow> weight (sr_rootPath rt) < fuel \<Longrightarrow>
   \<exists>st'. scanRoot fuel env rt st = Some st'"
  unfolding scanRoot_from_start by (intro scan_dirs_ends [of env weight]) simp_all

lemma scanBatch_ends:
  assumes "lets_go env" "finite_tree env weight" "\<And>rt. rt \<in> set rts \<Longrightarrow> weight (sr_rootPath rt) < fuel"
  shows "\<exists>st'. scanBatch fuel env rts st = Some st'"
  using assms(3)
proof (induction rts arbitrary: st)
  case (Cons rt rts)
  have "\<exists>st1. scanRoot fuel env rt st = Some st1"
    using Cons.prems [of rt] by (intro scanRoot_ends [OF assms(1,2)]) simp
  then show ?case using Cons.IH Cons.prems by auto
qed simp

section \<open>An example\<close>

text \<open>A root with one small file, a governor that yields to the user twice.\<close>

definition sample_env :: miner_env where
  "sample_env = \<lparr> me_readdir = (\<lambda>p. if p = ''/r'' then Some [''n''] else None),
     me_stat = (\<lambda>p. if p = ''/r/n''
       then Some \<lparr> st_isDirectory = False, st_isFile = True, st_size = Fin 10, st_mtimeMs = Fin 5 \<rparr> else None),
     me_realpath = Some, me_relative = (\<lambda>r p. drop (length r + 1) p), me_files = sample_files,
     me_sha256 = (\<lambda>_. None), me_homedir = ''/h'', me_userId = ''u'', me_extractors = DEFAULT_EXTRACTORS,
     me_yields = (\<lambda>k. k < 2), me_runs = (\<lambda>_. True), me_id = (\<lambda>_. ''s'') \<rparr>"

definition sample_root :: scan_root_config where
  "sample_root = \<lparr> sr_id = ''1'', sr_rootPath = ''/r'', sr_enabled = True \<rparr>"

definition empty_scan :: scan_state where
  "empty_scan = \<lparr> sc_asks = 0, sc_checks = 0, sc_emits = 0, sc_index = (\<lambda>_. None), sc_cursors = (\<lambda>_. None),
     sc_log = [] \<rparr>"

lemma sample_lets_go: "lets_go sample_env"
proof -
  have "\<exists>j \<ge> k. \<not> j < 2" for k :: nat by (intro exI [of _ "k + 2"]) simp
  then show ?thesis by (simp add: lets_go_def sample_env_def)
qed

lemma sample_join: "path_join ''/r'' ''n'' = ''/r/n''"
  by code_simp

lemma sample_no_subdirs: "me_readdir sample_env d = Some es \<Longrightarrow> subdirs sample_env d es = []"
  by (auto simp: sample_env_def subdirs_def entered_def sample_join split: if_splits)

lemma sample_finite: "finite_tree sample_env (\<lambda>_. 0)"
  by (simp add: finite_tree_def sample_no_subdirs)

text \<open>C17: A batch ends: if the governor keeps letting the miner go on after some time and the
  directories form a finite tree, fuel for the size of the tree is enough for the batch to have a
  result, stopped or not.\<close>

theorem batch_ends:
  assumes "lets_go env" "finite_tree env weight" "\<And>rt. rt \<in> set rts \<Longrightarrow> weight (sr_rootPath rt) < fuel"
  shows "\<exists>st'. scanBatch fuel env rts st = Some st'"
  using assms by (rule scanBatch_ends)

theorem batch_ends_witness: "\<exists>st'. scanBatch 1 sample_env [sample_root] empty_scan = Some st'"
  by (rule batch_ends [OF sample_lets_go sample_finite]) simp

section \<open>A second scan\<close>

text \<open>The files that a scan from a directory comes across.\<close>

inductive below :: "miner_env \<Rightarrow> string \<Rightarrow> string \<Rightarrow> bool" for env where
  here: "me_readdir env d = Some es \<Longrightarrow> e \<in> set es \<Longrightarrow> p = path_join d e \<Longrightarrow> minable_file env p \<Longrightarrow> below env d p"
| deeper: "me_readdir env d = Some es \<Longrightarrow> d' \<in> set (subdirs env d es) \<Longrightarrow> below env d' p \<Longrightarrow> below env d p"

inductive_cases belowE: "below env d p"

definition indexed :: "miner_env \<Rightarrow> scan_root_config \<Rightarrow> scan_state \<Rightarrow> string \<Rightarrow> bool" where
  "indexed env rt st p \<longleftrightarrow> (\<exists>s. me_stat env p = Some s \<and>
     file_unchanged (sc_index st (sr_id rt, me_relative env (sr_rootPath rt) p)) s)"

text \<open>
  What the argument needs of the world: no stop, sizes and times that are numbers, and different
  relative paths for the different files below the root.
\<close>

definition steady :: "miner_env \<Rightarrow> scan_root_config \<Rightarrow> bool" where
  "steady env rt \<longleftrightarrow> (\<forall>k. me_runs env k) \<and>
     (\<forall>p s. me_stat env p = Some s \<longrightarrow> st_mtimeMs s \<noteq> NaN \<and> st_size s \<noteq> NaN) \<and>
     inj_on (me_relative env (sr_rootPath rt)) {p. below env (sr_rootPath rt) p}"

lemma indexed_checked [simp]: "indexed env rt (checked st) p = indexed env rt st p"
  by (simp add: indexed_def)

lemma indexed_same: "sc_index st' = sc_index st \<Longrightarrow> indexed env rt st' p = indexed env rt st p"
  by (simp add: indexed_def)

lemma mine_file_index:
  "\<exists>entry. sc_index (mine_file env rt p r s st) = (sc_index st)((sr_id rt, r) \<mapsto> entry) \<and>
     ix_mtimeMs entry = st_mtimeMs s \<and> ix_sizeBytes entry = st_size s"
proof -
  define h where "h = (if ef_skippedReason (extractFile (me_files env) p r (sr_id rt) (st_size s) (st_mtimeMs s)
    (me_extractors env)) = None then computeContentHash env p (st_size s) else None)"
  have "sc_index (mine_file env rt p r s st) = (sc_index st)((sr_id rt, r) \<mapsto>
      \<lparr> ix_mtimeMs = st_mtimeMs s, ix_sizeBytes = st_size s, ix_contentHash = h \<rparr>)"
    by (simp add: mine_file_def noted Let_def h_def)
  then show ?thesis by auto
qed

lemma mine_file_indexed:
  assumes "steady env rt" "me_stat env p = Some s" "below env (sr_rootPath rt) p"
  shows "indexed env rt (mine_file env rt p (me_relative env (sr_rootPath rt) p) s st) p"
    "below env (sr_rootPath rt) q \<Longrightarrow> indexed env rt st q \<Longrightarrow>
       indexed env rt (mine_file env rt p (me_relative env (sr_rootPath rt) p) s st) q"
proof -
  let ?st = "mine_file env rt p (me_relative env (sr_rootPath rt) p) s st"
  obtain entry where entry: "sc_index ?st = (sc_index st)((sr_id rt, me_relative env (sr_rootPath rt) p) \<mapsto> entry)"
      "ix_mtimeMs entry = st_mtimeMs s" "ix_sizeBytes entry = st_size s"
    using mine_file_index by blast
  show p: "indexed env rt ?st p"
    using assms(1,2) entry by (auto simp: indexed_def file_unchanged_def steady_def num_eq_def)
  show "indexed env rt ?st q" if q: "below env (sr_rootPath rt) q" "indexed env rt st q"
  proof (cases "me_relative env (sr_rootPath rt) q = me_relative env (sr_rootPath rt) p")
    case True
    then have "q = p" using assms(1,3) q(1) by (simp add: steady_def inj_on_def)
    then show ?thesis using p by simp
  next
    case False
    then show ?thesis using q(2) entry(1) by (simp add: indexed_def)
  qed
qed

lemma scan_entry_indexes:
  assumes "steady env rt" "scan_entry env rt d e queue st = Some (b, queue', st')"
    and "minable_file env (path_join d e) \<Longrightarrow> below env (sr_rootPath rt) (path_join d e)"
  shows "b" "minable_file env (path_join d e) \<Longrightarrow> indexed env rt st' (path_join d e)"
    "below env (sr_rootPath rt) q \<Longrightarrow> indexed env rt st q \<Longrightarrow> indexed env rt st' q"
proof -
  have "b \<and> (minable_file env (path_join d e) \<longrightarrow> indexed env rt st' (path_join d e)) \<and>
      (below env (sr_rootPath rt) q \<and> indexed env rt st q \<longrightarrow> indexed env rt st' q)"
    using assms(2)
  proof (cases rule: scan_entry_cases [where roots = "{}"])
    case stop
    then show ?thesis using assms(1) by (simp add: steady_def)
  next
    case skip
    then show ?thesis by (auto simp: indexed_def)
  next
    case descend
    then show ?thesis by (auto simp: entered_def minable_file_def)
  next
    case (mine k s)
    let ?st0 = "checked (note_event (GoAhead k) (checked st \<lparr> sc_asks := Suc k \<rparr>))"
    have "sc_index ?st0 = sc_index st" by (simp add: note_event_def)
    then have same: "indexed env rt ?st0 q = indexed env rt st q" by (rule indexed_same)
    show ?thesis
      using mine(1,7) mine_file_indexed [OF assms(1) mine(3) assms(3) [OF mine(5)]] same by simp
  qed
  then show "b" "minable_file env (path_join d e) \<Longrightarrow> indexed env rt st' (path_join d e)"
    "below env (sr_rootPath rt) q \<Longrightarrow> indexed env rt st q \<Longrightarrow> indexed env rt st' q"
    by blast+
qed

lemma scan_entries_index:
  assumes "steady env rt" "scan_entries env rt d es queue st = Some (b, queue', st')"
    and "\<And>e. e \<in> set es \<Longrightarrow> minable_file env (path_join d e) \<Longrightarrow> below env (sr_rootPath rt) (path_join d e)"
  shows "b \<and> (\<forall>e \<in> set es. minable_file env (path_join d e) \<longrightarrow> indexed env rt st' (path_join d e)) \<and>
    (\<forall>q. below env (sr_rootPath rt) q \<and> indexed env rt st q \<longrightarrow> indexed env rt st' q)"
  using assms(2,3)
proof (induction es arbitrary: queue st)
  case (Cons e es)
  from Cons.prems(1) obtain b1 q1 st1 where one: "scan_entry env rt d e queue st = Some (b1, q1, st1)"
      and rest: "\<not> b1 \<and> (b, queue', st') = (b1, q1, st1) \<or> b1 \<and> scan_entries env rt d es q1 st1 = Some (b, queue', st')"
    by (auto split: option.splits bool.splits)
  have e: "minable_file env (path_join d e) \<Longrightarrow> below env (sr_rootPath rt) (path_join d e)"
    using Cons.prems(2) by simp
  note one' = scan_entry_indexes [OF assms(1) one e]
  have rest': "scan_entries env rt d es q1 st1 = Some (b, queue', st')" using rest one'(1) by simp
  from Cons.IH [OF rest'] Cons.prems(2)
  have ih: "b \<and> (\<forall>e \<in> set es. minable_file env (path_join d e) \<longrightarrow> indexed env rt st' (path_join d e)) \<and>
      (\<forall>q. below env (sr_rootPath rt) q \<and> indexed env rt st1 q \<longrightarrow> indexed env rt st' q)"
    by simp
  then show ?case using one'(2,3) e by auto
qed simp

text \<open>After a complete scan, every file below the scanned directories is indexed as it is.\<close>

lemma scan_dirs_index:
  assumes "steady env rt" "scan_dirs fuel env rt c b queue st = Some st'"
    and "\<And>d p. d \<in> set queue \<Longrightarrow> below env d p \<Longrightarrow> below env (sr_rootPath rt) p"
  shows "(\<forall>d \<in> set queue. \<forall>p. below env d p \<longrightarrow> indexed env rt st' p) \<and>
    (\<forall>q. below env (sr_rootPath rt) q \<and> indexed env rt st q \<longrightarrow> indexed env rt st' q)"
  using assms(2,3)
proof (induction fuel arbitrary: b queue st)
  case 0
  then show ?case by (cases queue) simp_all
next
  case (Suc fuel)
  show ?case
  proof (cases queue)
    case Nil
    then show ?thesis using Suc.prems by simp
  next
    case (Cons d q)
    have q: "d' \<in> set q \<Longrightarrow> below env d' p \<Longrightarrow> below env (sr_rootPath rt) p" for d' p
      by (rule Suc.prems(2) [of d']) (simp_all add: Cons)
    have d: "below env d p \<Longrightarrow> below env (sr_rootPath rt) p" for p
      by (rule Suc.prems(2) [of d]) (simp_all add: Cons)
    from Suc.prems(1) [unfolded Cons] show ?thesis
    proof (cases rule: scan_dirs_cases)
      case stop
      then show ?thesis using assms(1) by (simp add: steady_def)
    next
      case (unreadable st1 b1)
      have "indexed env rt st1 p = indexed env rt st p" for p
        using before_listing_safe [OF unreadable(1)] by (intro indexed_same) simp
      moreover have "\<not> below env d p" for p using unreadable(2) by (auto elim: belowE)
      moreover have "(\<forall>d \<in> set q. \<forall>p. below env d p \<longrightarrow> indexed env rt st' p) \<and>
          (\<forall>q. below env (sr_rootPath rt) q \<and> indexed env rt st1 q \<longrightarrow> indexed env rt st' q)"
        by (rule Suc.IH [OF unreadable(3)]) (rule q)
      ultimately show ?thesis unfolding Cons by (metis set_ConsD)
    next
      case (left_early st1 es queue')
      have "below env (sr_rootPath rt) (path_join d e)" if "e \<in> set es" "minable_file env (path_join d e)" for e
        using d below.here [OF left_early(2) that(1) refl that(2)] .
      from scan_entries_index [OF assms(1) left_early(3) this] show ?thesis by simp
    next
      case (listed st1 es queue' st2 b1)
      have entry: "below env (sr_rootPath rt) (path_join d e)"
        if "e \<in> set es" "minable_file env (path_join d e)" for e
        using d below.here [OF listed(2) that(1) refl that(2)] .
      note entries = scan_entries_index [OF assms(1) listed(3) entry]
      have queue': "queue' = q @ subdirs env d es" by (rule scan_entries_queue [OF listed(3)])
      have queued: "below env (sr_rootPath rt) p" if "d' \<in> set queue'" "below env d' p" for d' p
        using that q d below.deeper [OF listed(2)] by (auto simp: queue')
      have rest: "(\<forall>d \<in> set queue'. \<forall>p. below env d p \<longrightarrow> indexed env rt st' p) \<and>
          (\<forall>q. below env (sr_rootPath rt) q \<and> indexed env rt (saveCursor (sr_id rt) d st2) q
             \<longrightarrow> indexed env rt st' q)"
        by (rule Suc.IH [OF listed(4)]) (rule queued)
      have start: "indexed env rt (note_event (Listed d) st1) p = indexed env rt st p" for p
        using before_listing_safe [OF listed(1)] by (intro indexed_same) (simp add: note_event_def)
      have keep: "indexed env rt (saveCursor (sr_id rt) d st2) p = indexed env rt st2 p" for p
        by (rule indexed_same) simp
      have later: "indexed env rt st' p" if "below env (sr_rootPath rt) p" "indexed env rt st2 p" for p
        using rest that by (simp add: keep)
      have "indexed env rt st' p" if "below env d p" for p
        using that
      proof (cases rule: below.cases)
        case (here es' e)
        then have "e \<in> set es" using listed(2) by simp
        then show ?thesis using entries here later [OF entry] by auto
      next
        case (deeper es' d')
        then have "d' \<in> set queue'" using listed(2) by (simp add: queue')
        then show ?thesis using rest deeper(3) by blast
      qed
      moreover have "indexed env rt st' p" if "d' \<in> set q" "below env d' p" for d' p
        using rest that unfolding queue' set_append by blast
      moreover have "indexed env rt st' p" if "below env (sr_rootPath rt) p" "indexed env rt st p" for p
        using later entries that start by simp
      ultimately show ?thesis using Cons by auto
    qed
  qed
qed

text \<open>When everything is indexed, a scan lists directories and saves cursors, and does nothing else.\<close>

fun quiet :: "miner_event \<Rightarrow> bool" where
  "quiet (Listed d) = True"
| "quiet (CursorSaved i d) = True"
| "quiet _ = False"

definition adds_quietly :: "scan_state \<Rightarrow> scan_state \<Rightarrow> bool" where
  "adds_quietly st st' \<longleftrightarrow> sc_index st' = sc_index st \<and> (\<exists>es. sc_log st' = sc_log st @ es \<and> list_all quiet es)"

lemma adds_quietly_trans: "adds_quietly st st1 \<Longrightarrow> adds_quietly st1 st2 \<Longrightarrow> adds_quietly st st2"
  by (auto simp: adds_quietly_def)

lemma adds_quietly_same: "sc_index st' = sc_index st \<Longrightarrow> sc_log st' = sc_log st \<Longrightarrow> adds_quietly st st'"
  by (simp add: adds_quietly_def)

lemma before_listing_quiet: "before_listing env rt d (checked st) = Some st' \<Longrightarrow> adds_quietly st st'"
  by (auto simp: before_listing_def adds_quietly_def saveCursor_def note_event_def split: if_splits option.splits)

lemma scan_entry_quiet:
  assumes "steady env rt" "scan_entry env rt d e queue st = Some (b, queue', st')"
    and "minable_file env (path_join d e) \<Longrightarrow> indexed env rt st (path_join d e)"
  shows "b \<and> adds_quietly st st'"
  using assms(2)
proof (cases rule: scan_entry_cases [where roots = "{}"])
  case stop
  then show ?thesis using assms(1) by (simp add: steady_def)
next
  case (mine k s)
  then show ?thesis using assms(3) by (simp add: indexed_def)
qed (simp_all add: adds_quietly_same)

lemma scan_entries_quiet:
  assumes "steady env rt" "scan_entries env rt d es queue st = Some (b, queue', st')"
    and "\<And>e. e \<in> set es \<Longrightarrow> minable_file env (path_join d e) \<Longrightarrow> indexed env rt st (path_join d e)"
  shows "b \<and> adds_quietly st st'"
  using assms(2,3)
proof (induction es arbitrary: queue st)
  case Nil
  then show ?case by (simp add: adds_quietly_same)
next
  case (Cons e es)
  from Cons.prems(1) obtain b1 q1 st1 where one: "scan_entry env rt d e queue st = Some (b1, q1, st1)"
      and rest: "\<not> b1 \<and> (b, queue', st') = (b1, q1, st1) \<or> b1 \<and> scan_entries env rt d es q1 st1 = Some (b, queue', st')"
    by (auto split: option.splits bool.splits)
  have quiet: "b1 \<and> adds_quietly st st1" using Cons.prems(2) by (intro scan_entry_quiet [OF assms(1) one]) simp
  then have "indexed env rt st1 p = indexed env rt st p" for p
    by (intro indexed_same) (simp add: adds_quietly_def)
  then show ?case using Cons.IH [of q1 st1] rest quiet Cons.prems(2) adds_quietly_trans by auto
qed

lemma scan_dirs_quiet:
  assumes "steady env rt" "scan_dirs fuel env rt c b queue st = Some st'"
    and "\<And>d p. d \<in> set queue \<Longrightarrow> below env d p \<Longrightarrow> indexed env rt st p"
  shows "adds_quietly st st'"
  using assms(2,3)
proof (induction fuel arbitrary: b queue st)
  case 0
  then show ?case by (cases queue) (simp_all add: adds_quietly_same)
next
  case (Suc fuel)
  show ?case
  proof (cases queue)
    case Nil
    then show ?thesis using Suc.prems by (simp add: adds_quietly_same)
  next
    case (Cons d q)
    have same: "indexed env rt st1 p = indexed env rt st p" if "adds_quietly st st1" for st1 p
      using that by (intro indexed_same) (simp add: adds_quietly_def)
    have noted: "adds_quietly st (note_event (Listed d) st1)" if "adds_quietly st st1" for st1
      using that by (auto simp: adds_quietly_def note_event_def)
    have entry: "indexed env rt st (path_join d e)"
      if "me_readdir env d = Some es" "e \<in> set es" "minable_file env (path_join d e)" for es e
      using Suc.prems(2) [of d] Cons below.here [OF that(1,2) refl that(3)] by simp
    from Suc.prems(1) [unfolded Cons] show ?thesis
    proof (cases rule: scan_dirs_cases)
      case stop
      then show ?thesis by (simp add: adds_quietly_same)
    next
      case (unreadable st1 b1)
      note s1 = before_listing_quiet [OF unreadable(1)]
      have "adds_quietly st1 st'"
      proof (rule Suc.IH [OF unreadable(3)])
        fix d' p assume "d' \<in> set q" "below env d' p"
        then show "indexed env rt st1 p" using Suc.prems(2) [of d' p] Cons same [OF s1] by simp
      qed
      then show ?thesis using s1 adds_quietly_trans by blast
    next
      case (left_early st1 es queue')
      note s1 = noted [OF before_listing_quiet [OF left_early(1)]]
      show ?thesis
        using scan_entries_quiet [OF assms(1) left_early(3)] entry [OF left_early(2)] same [OF s1] by simp
    next
      case (listed st1 es queue' st2 b1)
      note s1 = noted [OF before_listing_quiet [OF listed(1)]]
      have "adds_quietly (note_event (Listed d) st1) st2"
        using scan_entries_quiet [OF assms(1) listed(3)] entry [OF listed(2)] same [OF s1] by simp
      then have "adds_quietly st st2" using s1 adds_quietly_trans by blast
      then have s2: "adds_quietly st (saveCursor (sr_id rt) d st2)"
        by (auto simp: adds_quietly_def saveCursor_def note_event_def)
      have "adds_quietly (saveCursor (sr_id rt) d st2) st'"
      proof (rule Suc.IH [OF listed(4)])
        fix d' p assume d': "d' \<in> set queue'" "below env d' p"
        have "queue' = q @ subdirs env d es" by (rule scan_entries_queue [OF listed(3)])
        then have "below env d p \<or> d' \<in> set q" using d' below.deeper [OF listed(2)] by auto
        then show "indexed env rt (saveCursor (sr_id rt) d st2) p"
          using Suc.prems(2) Cons d'(2) same [OF s2] by auto
      qed
      then show ?thesis using s2 adds_quietly_trans by blast
    qed
  qed
qed

text \<open>Scanning twice is scanning once: after a complete scan of a root, a second scan of the same
  files extracts, indexes and reports nothing, whatever the governor answers.\<close>

theorem rescan_is_quiet:
  assumes "steady env rt" "scanRoot fuel env rt st = Some st1" "scanRoot fuel' env rt st1 = Some st2"
  shows "sc_index st2 = sc_index st1 \<and> (\<exists>es. sc_log st2 = sc_log st1 @ es \<and> list_all quiet es)"
proof -
  have "indexed env rt st1 p" if "below env (sr_rootPath rt) p" for p
    using scan_dirs_index [OF assms(1) assms(2) [unfolded scanRoot_from_start]] that by simp
  then have "adds_quietly st1 st2"
    using scan_dirs_quiet [OF assms(1) assms(3) [unfolded scanRoot_from_start]] by simp
  then show ?thesis by (simp add: adds_quietly_def)
qed

lemma sample_below:
  assumes "below sample_env ''/r'' p"
  shows "p = ''/r/n''"
  using assms
proof (cases rule: below.cases)
  case (here es e)
  then show ?thesis by (auto simp: sample_env_def sample_join)
next
  case (deeper es d')
  then show ?thesis using sample_no_subdirs by simp
qed

lemma sample_steady: "steady sample_env sample_root"
proof -
  have "inj_on f {p. below sample_env ''/r'' p}" for f :: "string \<Rightarrow> string"
    by (rule inj_onI) (auto dest: sample_below)
  then show ?thesis by (simp add: steady_def sample_root_def) (simp add: sample_env_def)
qed

theorem rescan_is_quiet_witness:
  "\<exists>st1 st2. scanRoot 1 sample_env sample_root empty_scan = Some st1 \<and> scanRoot 1 sample_env sample_root st1 = Some st2
     \<and> sc_index st2 = sc_index st1 \<and> (\<exists>es. sc_log st2 = sc_log st1 @ es \<and> list_all quiet es)"
proof -
  obtain st1 where st1: "scanRoot 1 sample_env sample_root empty_scan = Some st1"
    using scanRoot_ends [OF sample_lets_go sample_finite] by fastforce
  obtain st2 where st2: "scanRoot 1 sample_env sample_root st1 = Some st2"
    using scanRoot_ends [OF sample_lets_go sample_finite] by fastforce
  show ?thesis using st1 st2 rescan_is_quiet [OF sample_steady st1 st2] by blast
qed

theorem batch_respects_denylist_witness:
  "\<exists>st'. scanBatch 1 sample_env [sample_root] empty_scan = Some st' \<and>
     list_all (event_ok sample_env {''/r''}) (sc_log st') \<and> governed sample_env Forbidden (sc_log st')"
proof -
  obtain st' where st': "scanBatch 1 sample_env [sample_root] empty_scan = Some st'"
    using scanBatch_ends [OF sample_lets_go sample_finite, of "[sample_root]" 1 empty_scan] by auto
  moreover have "sc_log empty_scan = []" by (simp add: empty_scan_def)
  ultimately show ?thesis using batch_respects_denylist [OF st'] by (simp add: sample_root_def)
qed

end
