(* ===== verification/ProviderUrls.thy ===== *)
theory ProviderUrls
  imports RegexExec
begin

text \<open>
  The endpoints that prompts and credentials may be sent to: the canonical form of a provider's
  base URL (\<open>packages/shared-types/src/reasoning-mode.ts\<close>), its validation, the check of resolved
  addresses and the fetch with pinned addresses (\<open>packages/llm-client/src/url-validation.ts\<close>). The
  parser of URLs, \<open>node:net\<close>, \<open>ipaddr.js\<close>, DNS and the transport are parameters. A result is the
  value or the error that the code throws.
\<close>

section \<open>URLs and addresses\<close>

record url =
  url_protocol :: string
  url_username :: string
  url_password :: string
  url_hostname :: string
  url_host :: string
  url_pathname :: string
  url_search :: string
  url_hash :: string

record url_lib =
  ul_parse :: "string \<Rightarrow> url option"
  ul_set_hostname :: "string \<Rightarrow> url \<Rightarrow> url"
  ul_set_pathname :: "string \<Rightarrow> url \<Rightarrow> url"
  ul_origin :: "url \<Rightarrow> string"
  ul_href :: "url \<Rightarrow> string"

text \<open>What \<open>ipaddr.js\<close> says of an address, and the version that \<open>isIP\<close> gives (0 for a name).\<close>

record ip_info =
  ip_is_v6 :: bool
  ip_in_global_v6 :: bool
  ip_range :: string

record ip_lib =
  il_isIP :: "string \<Rightarrow> nat"
  il_parse :: "string \<Rightarrow> ip_info option"

datatype url_error =
    InvalidBaseUrl
  | UnsupportedProtocol
  | MetadataEndpoint
  | PrivateEndpoint
  | HttpsRequired
  | DnsFailed
  | DnsEmpty
  | DnsNotLoopback
  | DnsPrivate
  | FetchAborted
  | RedirectRefused
  | FetchFailed

section \<open>Canonical base URLs\<close>

definition strip_slashes :: "string \<Rightarrow> string" where
  "strip_slashes s = rev (dropWhile (\<lambda>c. c = CHR ''/'') (rev s))"

text \<open>\<open>None\<close> stands for the error, the inner option for \<open>undefined\<close>.\<close>

definition canonicalizeProviderBaseUrl :: "url_lib \<Rightarrow> string option \<Rightarrow> string option option" where
  "canonicalizeProviderBaseUrl ul base =
     (case base of None \<Rightarrow> Some None
      | Some b \<Rightarrow>
          if b = [] then Some None
          else (case ul_parse ul b of
              None \<Rightarrow> None
            | Some parsed \<Rightarrow>
                if (url_protocol parsed \<noteq> ''http:'' \<and> url_protocol parsed \<noteq> ''https:'')
                  \<or> url_username parsed \<noteq> [] \<or> url_password parsed \<noteq> [] then None
                else let p1 = (if ends_with (url_hostname parsed) ''.''
                       then ul_set_hostname ul (butlast (url_hostname parsed)) parsed else parsed)
                  in if url_search p1 \<noteq> [] \<or> url_hash p1 \<noteq> [] then None
                     else let path = strip_slashes (url_pathname p1);
                              p2 = ul_set_pathname ul (if path = [] then ''/'' else path) p1
                          in Some (Some (if url_pathname p2 = ''/'' then ul_origin ul p2 else ul_href ul p2))))"

definition providerCredentialEndpointAuthority :: "url_lib \<Rightarrow> string \<Rightarrow> string option \<Rightarrow> string option" where
  "providerCredentialEndpointAuthority ul provider base =
     (if base = None \<or> base = Some []
      then Some (if provider = ''ollama'' then ''http://127.0.0.1:11434'' else ''provider-default:'' @ provider)
      else (case canonicalizeProviderBaseUrl ul base of
          Some (Some c) \<Rightarrow> map_option (ul_origin ul) (ul_parse ul c)
        | _ \<Rightarrow> None))"

definition hasSameProviderCredentialEndpoint ::
  "url_lib \<Rightarrow> string \<Rightarrow> string option \<Rightarrow> string option \<Rightarrow> bool" where
  "hasSameProviderCredentialEndpoint ul provider previous nxt =
     (case (providerCredentialEndpointAuthority ul provider previous,
            providerCredentialEndpointAuthority ul provider nxt) of
        (Some a, Some b) \<Rightarrow> a = b
      | _ \<Rightarrow> False)"

section \<open>Host names\<close>

definition strip_brackets :: "string \<Rightarrow> string" where
  "strip_brackets s =
     (let s1 = (case s of c # t \<Rightarrow> if c = CHR ''['' then t else s | [] \<Rightarrow> []) in
      if s1 \<noteq> [] \<and> last s1 = CHR '']'' then butlast s1 else s1)"

definition normalizeHostname :: "string \<Rightarrow> string" where
  "normalizeHostname raw =
     (let h = strip_brackets (to_lower raw);
          h1 = (if ends_with h ''.'' then butlast h else h)
      in takeWhile (\<lambda>c. c \<noteq> CHR ''%'') h1)"

definition loopback_names :: "string list" where
  "loopback_names = [''localhost'', ''127.0.0.1'', ''::1'']"

definition isLoopbackHostname :: "string \<Rightarrow> bool" where
  "isLoopbackHostname hostname = (normalizeHostname hostname \<in> set loopback_names)"

definition isPrivateHost :: "ip_lib \<Rightarrow> string \<Rightarrow> bool" where
  "isPrivateHost il hostname =
     (if hostname = ''localhost'' then True
      else if il_isIP il hostname = 0 then False
      else (case il_parse il hostname of
          None \<Rightarrow> True
        | Some address \<Rightarrow>
            if ip_is_v6 address \<and> \<not> ip_in_global_v6 address then True
            else ip_range address \<noteq> ''unicast''))"

section \<open>Validation\<close>

definition validateBaseUrl :: "url_lib \<Rightarrow> ip_lib \<Rightarrow> string \<Rightarrow> string \<Rightarrow> url_error + unit" where
  "validateBaseUrl ul il baseUrl provider =
     (case ul_parse ul baseUrl of
        None \<Rightarrow> Inl InvalidBaseUrl
      | Some parsed0 \<Rightarrow>
          if url_protocol parsed0 \<noteq> ''http:'' \<and> url_protocol parsed0 \<noteq> ''https:'' then Inl UnsupportedProtocol
          else (case canonicalizeProviderBaseUrl ul (Some baseUrl) of
              None \<Rightarrow> Inl InvalidBaseUrl
            | Some None \<Rightarrow> Inl InvalidBaseUrl
            | Some (Some canonical) \<Rightarrow>
                (case ul_parse ul canonical of
                   None \<Rightarrow> Inl InvalidBaseUrl
                 | Some parsed \<Rightarrow>
                     let hostname = normalizeHostname (url_hostname parsed);
                         isLoopback = (hostname \<in> set loopback_names)
                     in if hostname = ''169.254.169.254'' \<or> hostname = ''metadata.google.internal''
                        then Inl MetadataEndpoint
                        else if provider = ''ollama'' \<and> \<not> isLoopback \<and> isPrivateHost il hostname
                        then Inl PrivateEndpoint
                        else if provider \<noteq> ''ollama'' \<and> isPrivateHost il hostname then Inl PrivateEndpoint
                        else if url_protocol parsed \<noteq> ''https:'' \<and> \<not> (provider = ''ollama'' \<and> isLoopback)
                        then Inl HttpsRequired
                        else Inr ())))"

definition assertResolvedAddressAllowed ::
  "ip_lib \<Rightarrow> string \<Rightarrow> string \<Rightarrow> string \<Rightarrow> url_error + unit" where
  "assertResolvedAddressAllowed il address hostname provider =
     (if provider = ''ollama'' \<and> isLoopbackHostname hostname
      then if address = ''127.0.0.1'' \<or> address = ''::1'' then Inr () else Inl DnsNotLoopback
      else if \<not> isPrivateHost il address then Inr () else Inl DnsPrivate)"

type_synonym resolved = "string \<times> nat"

fun all_allowed :: "ip_lib \<Rightarrow> string \<Rightarrow> string \<Rightarrow> resolved list \<Rightarrow> url_error + unit" where
  "all_allowed il hostname provider [] = Inr ()"
| "all_allowed il hostname provider ((address, _) # rest) =
     (case assertResolvedAddressAllowed il address hostname provider of
        Inl e \<Rightarrow> Inl e
      | Inr _ \<Rightarrow> all_allowed il hostname provider rest)"

definition validateBaseUrlWithDns ::
  "url_lib \<Rightarrow> ip_lib \<Rightarrow> (string \<Rightarrow> resolved list option) \<Rightarrow> string \<Rightarrow> string \<Rightarrow> url_error + unit" where
  "validateBaseUrlWithDns ul il dns baseUrl provider =
     (case validateBaseUrl ul il baseUrl provider of
        Inl e \<Rightarrow> Inl e
      | Inr _ \<Rightarrow>
          (case ul_parse ul baseUrl of
             None \<Rightarrow> Inl InvalidBaseUrl
           | Some parsed \<Rightarrow>
               let hostname = normalizeHostname (url_hostname parsed) in
               if il_isIP il hostname \<noteq> 0 then Inr ()
               else (case dns hostname of
                   None \<Rightarrow> Inl DnsFailed
                 | Some [] \<Rightarrow> Inl DnsEmpty
                 | Some results \<Rightarrow> all_allowed il hostname provider results)))"

section \<open>The fetch\<close>

text \<open>The resolver of the connection: the addresses of a family that it may use.\<close>

definition pinnedLookup :: "resolved list \<Rightarrow> nat \<Rightarrow> bool \<Rightarrow> resolved list option" where
  "pinnedLookup addresses family all_of =
     (let eligible = (if family = 4 \<or> family = 6 then filter (\<lambda>(_, f). f = family) addresses else addresses) in
      if eligible = [] then None else if all_of then Some eligible else Some [hd eligible])"

datatype dns_answer = Resolved "resolved list" | LookupFailed | LookupAborted

text \<open>
  The transport is given the pinned addresses and answers with the status of a response, or
  fails. The result comes with the addresses that the transport was given, if it was called.
\<close>

definition fetchCustomProviderUrl ::
  "url_lib \<Rightarrow> ip_lib \<Rightarrow> (string \<Rightarrow> dns_answer) \<Rightarrow> (resolved list \<Rightarrow> nat option) \<Rightarrow> string \<Rightarrow> string
     \<Rightarrow> (url_error + nat) \<times> resolved list option" where
  "fetchCustomProviderUrl ul il dns transport target provider =
     (case validateBaseUrl ul il target provider of
        Inl e \<Rightarrow> (Inl e, None)
      | Inr _ \<Rightarrow>
          (case ul_parse ul target of
             None \<Rightarrow> (Inl InvalidBaseUrl, None)
           | Some parsed \<Rightarrow>
               let hostname = normalizeHostname (url_hostname parsed);
                   family = il_isIP il hostname;
                   lookup = (if family \<noteq> 0 then Resolved [(hostname, family)] else dns hostname)
               in (case lookup of
                     LookupAborted \<Rightarrow> (Inl FetchAborted, None)
                   | LookupFailed \<Rightarrow> (Inl DnsFailed, None)
                   | Resolved addresses \<Rightarrow>
                       if addresses = [] then (Inl DnsEmpty, None)
                       else (case all_allowed il hostname provider addresses of
                           Inl e \<Rightarrow> (Inl e, None)
                         | Inr _ \<Rightarrow>
                             (case transport addresses of
                                None \<Rightarrow> (Inl FetchFailed, Some addresses)
                              | Some status \<Rightarrow>
                                  if 300 \<le> status \<and> status < 400 then (Inl RedirectRefused, Some addresses)
                                  else (Inr status, Some addresses))))))"

section \<open>No connection into the private network\<close>

text \<open>An address that may be connected to: a public one, or for Ollama the loopback address.\<close>

definition address_ok :: "ip_lib \<Rightarrow> string \<Rightarrow> string \<Rightarrow> bool" where
  "address_ok il provider address \<longleftrightarrow> \<not> isPrivateHost il address
     \<or> provider = ''ollama'' \<and> (address = ''127.0.0.1'' \<or> address = ''::1'')"

lemma assert_ok:
  assumes "assertResolvedAddressAllowed il address hostname provider = Inr u"
  shows "address_ok il provider address"
    "provider = ''ollama'' \<Longrightarrow> isLoopbackHostname hostname \<Longrightarrow> address = ''127.0.0.1'' \<or> address = ''::1''"
  using assms unfolding assertResolvedAddressAllowed_def address_ok_def by (simp_all split: if_split_asm)

lemma all_allowedD:
  "all_allowed il hostname provider rs = Inr u \<Longrightarrow> (a, f) \<in> set rs \<Longrightarrow>
   assertResolvedAddressAllowed il a hostname provider = Inr ()"
  by (induction il hostname provider rs rule: all_allowed.induct) (auto split: sum.splits)

lemma pinned_subset: "pinnedLookup addresses family b = Some rs \<Longrightarrow> set rs \<subseteq> set addresses"
proof -
  assume "pinnedLookup addresses family b = Some rs"
  then have "rs \<noteq> [] \<and> (\<exists>es. set es \<subseteq> set addresses \<and> es \<noteq> [] \<and> (rs = es \<or> rs = [hd es]))"
    by (auto simp: pinnedLookup_def Let_def split: if_splits)
      (metis filter_is_subset filter_empty_conv)+
  then show ?thesis by (auto dest: hd_in_set)
qed

lemma fetch_connects:
  assumes "snd (fetchCustomProviderUrl ul il dns transport target provider) = Some addresses"
  shows "\<exists>parsed. validateBaseUrl ul il target provider = Inr () \<and> ul_parse ul target = Some parsed \<and>
    all_allowed il (normalizeHostname (url_hostname parsed)) provider addresses = Inr ()"
  using assms unfolding fetchCustomProviderUrl_def Let_def
  by (auto split: sum.splits option.splits dns_answer.splits if_splits)

text \<open>C15: No request to a configured endpoint reaches the private network: whatever DNS answers, every
  address that the connection can be opened to is public, or it is the loopback address and the
  provider is the local Ollama; and a redirect is never followed.\<close>

theorem connections_are_public:
  assumes "fetchCustomProviderUrl ul il dns transport target provider = (r, Some addresses)"
    and "pinnedLookup addresses family all_of = Some chosen" "(a, f) \<in> set chosen"
  shows "address_ok il provider a \<and> (case r of Inr status \<Rightarrow> \<not> (300 \<le> status \<and> status < 400) | Inl _ \<Rightarrow> True)"
proof -
  have sent: "snd (fetchCustomProviderUrl ul il dns transport target provider) = Some addresses"
    using assms(1) by simp
  obtain parsed :: url where ok: "all_allowed il (normalizeHostname (url_hostname parsed)) provider addresses = Inr ()"
    using fetch_connects [OF sent] by blast
  have "(a, f) \<in> set addresses" using pinned_subset [OF assms(2)] assms(3) by blast
  then have "address_ok il provider a" by (rule assert_ok(1) [OF all_allowedD [OF ok]])
  moreover have "case r of Inr status \<Rightarrow> \<not> (300 \<le> status \<and> status < 400) | Inl _ \<Rightarrow> True"
    using assms(1) unfolding fetchCustomProviderUrl_def Let_def
    by (auto split: sum.splits option.splits dns_answer.splits if_splits)
  ultimately show ?thesis ..
qed

text \<open>
  What the code relies on in the URL parser: the canonical form has the scheme and the host of the
  given URL.
\<close>

definition canonical_keeps :: "url_lib \<Rightarrow> bool" where
  "canonical_keeps ul \<longleftrightarrow> (\<forall>b c p q. canonicalizeProviderBaseUrl ul (Some b) = Some (Some c) \<longrightarrow>
     ul_parse ul b = Some p \<longrightarrow> ul_parse ul c = Some q \<longrightarrow>
     url_protocol q = url_protocol p \<and> normalizeHostname (url_hostname q) = normalizeHostname (url_hostname p))"

lemma validated_scheme:
  assumes "validateBaseUrl ul il b provider = Inr ()" "canonical_keeps ul" "ul_parse ul b = Some p"
  shows "url_protocol p = ''https:'' \<or> provider = ''ollama'' \<and> normalizeHostname (url_hostname p) \<in> set loopback_names"
proof -
  obtain c q where c: "canonicalizeProviderBaseUrl ul (Some b) = Some (Some c)" "ul_parse ul c = Some q"
      "url_protocol q = ''https:'' \<or> provider = ''ollama'' \<and> normalizeHostname (url_hostname q) \<in> set loopback_names"
    using assms(1) unfolding validateBaseUrl_def Let_def
    by (auto split: option.split_asm if_split_asm)
  then show ?thesis using assms(2,3) unfolding canonical_keeps_def by metis
qed

lemma loopback_again: "h \<in> set loopback_names \<Longrightarrow> isLoopbackHostname h"
proof -
  have "list_all isLoopbackHostname loopback_names" by code_simp
  then show "h \<in> set loopback_names \<Longrightarrow> isLoopbackHostname h" by (simp add: list_all_iff)
qed

text \<open>Plaintext never leaves the device: a request over HTTP only goes to the local Ollama, and then
  every address that the connection can be opened to is the loopback address, even when a hosts
  file or DNS gives localhost another one.\<close>

theorem plaintext_stays_local:
  assumes "fetchCustomProviderUrl ul il dns transport target provider = (r, Some addresses)"
    and "canonical_keeps ul" and "ul_parse ul target = Some p" "url_protocol p \<noteq> ''https:''"
  shows "provider = ''ollama'' \<and> list_all (\<lambda>(a, f). a = ''127.0.0.1'' \<or> a = ''::1'') addresses"
proof -
  have "snd (fetchCustomProviderUrl ul il dns transport target provider) = Some addresses" using assms(1) by simp
  then have v: "validateBaseUrl ul il target provider = Inr ()"
    and ok: "all_allowed il (normalizeHostname (url_hostname p)) provider addresses = Inr ()"
    using fetch_connects assms(3) by fastforce+
  have local: "provider = ''ollama''" "isLoopbackHostname (normalizeHostname (url_hostname p))"
    using validated_scheme [OF v assms(2,3)] assms(4) loopback_again by blast+
  have "a = ''127.0.0.1'' \<or> a = ''::1''" if "(a, f) \<in> set addresses" for a f
    by (rule assert_ok(2) [OF all_allowedD [OF ok that] local])
  then show ?thesis using local(1) by (auto simp: list_all_iff)
qed

section \<open>A concrete library\<close>

text \<open>A library that knows one local and one public endpoint.\<close>

definition small_url :: "string \<Rightarrow> string \<Rightarrow> url" where
  "small_url protocol host = \<lparr> url_protocol = protocol, url_username = [], url_password = [], url_hostname = host,
     url_host = host, url_pathname = ''/'', url_search = [], url_hash = [] \<rparr>"

definition small_lib :: url_lib where
  "small_lib = \<lparr> ul_parse = (\<lambda>s. if s = ''http://localhost'' then Some (small_url ''http:'' ''localhost'')
       else if s = ''https://api.acme.com'' then Some (small_url ''https:'' ''api.acme.com'') else None),
     ul_set_hostname = (\<lambda>h u. u \<lparr> url_hostname := h \<rparr>), ul_set_pathname = (\<lambda>p u. u \<lparr> url_pathname := p \<rparr>),
     ul_origin = (\<lambda>u. url_protocol u @ ''//'' @ url_host u),
     ul_href = (\<lambda>u. url_protocol u @ ''//'' @ url_host u @ url_pathname u) \<rparr>"

definition small_ip :: ip_lib where
  "small_ip = \<lparr> il_isIP = (\<lambda>s. if s = ''10.0.0.1'' \<or> s = ''93.184.216.34'' \<or> s = ''127.0.0.1'' then 4 else 0),
     il_parse = (\<lambda>s. Some \<lparr> ip_is_v6 = False, ip_in_global_v6 = False,
       ip_range = (if s = ''93.184.216.34'' then ''unicast'' else ''private'') \<rparr>) \<rparr>"

lemma small_canonical:
  "canonicalizeProviderBaseUrl small_lib (Some ''http://localhost'') = Some (Some ''http://localhost'')"
  "canonicalizeProviderBaseUrl small_lib (Some ''https://api.acme.com'') = Some (Some ''https://api.acme.com'')"
  by code_simp+

lemma small_keeps: "canonical_keeps small_lib"
  unfolding canonical_keeps_def
proof (intro allI impI)
  fix b c p q
  assume c: "canonicalizeProviderBaseUrl small_lib (Some b) = Some (Some c)" "ul_parse small_lib b = Some p"
    "ul_parse small_lib c = Some q"
  from c(2) have "b = ''http://localhost'' \<or> b = ''https://api.acme.com''"
    by (simp add: small_lib_def split: if_split_asm)
  then have "c = b" using c(1) small_canonical by (elim disjE) simp_all
  then show "url_protocol q = url_protocol p \<and>
      normalizeHostname (url_hostname q) = normalizeHostname (url_hostname p)"
    using c(2,3) by simp
qed

theorem connections_are_public_witness:
  "address_ok small_ip ''openai'' ''93.184.216.34'' \<and>
     (case (Inr 200 :: url_error + nat) of Inr status \<Rightarrow> \<not> (300 \<le> status \<and> status < 400) | Inl _ \<Rightarrow> True)"
  by (rule connections_are_public [of small_lib small_ip "\<lambda>_. Resolved [(''93.184.216.34'', 4)]"
      "\<lambda>_. Some 200" "''https://api.acme.com''" "''openai''" "Inr 200" "[(''93.184.216.34'', 4)]" 0 False
      "[(''93.184.216.34'', 4)]" _ 4]; code_simp)

theorem plaintext_stays_local_witness:
  "''ollama'' = ''ollama'' \<and> list_all (\<lambda>(a, f). a = ''127.0.0.1'' \<or> a = ''::1'') [(''127.0.0.1'', 4 :: nat)]"
proof (rule plaintext_stays_local [OF _ small_keeps, where p = "small_url ''http:'' ''localhost''"])
  show "fetchCustomProviderUrl small_lib small_ip (\<lambda>_. Resolved [(''127.0.0.1'', 4)]) (\<lambda>_. Some 200)
      ''http://localhost'' ''ollama'' = (Inr 200, Some [(''127.0.0.1'', 4)])"
    by code_simp
qed (simp_all add: small_lib_def small_url_def)

end
