(* ===== verification/ProviderModes.thy ===== *)
theory ProviderModes
  imports ProviderUrls
begin

text \<open>
  The reasoning modes (\<open>packages/shared-types/src/reasoning-mode.ts\<close>) and the policy that admits
  providers to a mode and derives what may be said of their privacy
  (\<open>packages/llm-client/src/provider-privacy.ts\<close>). A raw mode and raw providers are any JavaScript
  values; \<open>Date.parse\<close> and the parser of URLs are parameters.
\<close>

section \<open>Providers and modes\<close>

datatype ai_provider = anthropic | openai | google | ollama | embedded | trustedrouter | nearai

definition provider_name :: "ai_provider \<Rightarrow> string" where
  "provider_name p = (case p of anthropic \<Rightarrow> ''anthropic'' | openai \<Rightarrow> ''openai'' | google \<Rightarrow> ''google''
     | ollama \<Rightarrow> ''ollama'' | embedded \<Rightarrow> ''embedded'' | trustedrouter \<Rightarrow> ''trustedrouter'' | nearai \<Rightarrow> ''nearai'')"

definition PROVIDER_NAMES :: "ai_provider list" where
  "PROVIDER_NAMES = [anthropic, openai, google, ollama, embedded, trustedrouter, nearai]"

definition provider_of :: "jsval \<Rightarrow> ai_provider option" where
  "provider_of v = (case v of JStr s \<Rightarrow> find (\<lambda>p. provider_name p = s) PROVIDER_NAMES | _ \<Rightarrow> None)"

record provider_entry =
  pv_name :: ai_provider
  pv_apiKey :: string
  pv_model :: string
  pv_baseUrl :: "string option"

datatype reasoning_mode = on_device | verified_private_cloud | bring_your_own_provider

definition REASONING_MODES :: "(string \<times> reasoning_mode) list" where
  "REASONING_MODES = [(''on_device'', on_device), (''verified_private_cloud'', verified_private_cloud),
     (''bring_your_own_provider'', bring_your_own_provider)]"

definition parseReasoningMode :: "jsval \<Rightarrow> reasoning_mode option" where
  "parseReasoningMode v = (case v of JStr s \<Rightarrow> map_of REASONING_MODES s | _ \<Rightarrow> None)"

section \<open>Capabilities\<close>

datatype execution_location = loc_on_device | loc_remote_service
datatype network_scope = scope_none | scope_loopback | scope_external
datatype confidentiality = device_local | provider_standard | operator_declared | attested_tee
datatype attestation_policy = attestation_not_applicable | attestation_required
datatype retention_class =
  process_only | local_runtime | operator_unknown | provider_terms | provider_declared
datatype modality = text_modality | audio_input | audio_output | vision
datatype unknown_price_reason = not_reported | stale | unbounded

record price_quote =
  pq_inputNanoUsdPerMillionTokens :: number
  pq_outputNanoUsdPerMillionTokens :: number
  pq_checkedAt :: string
  pq_expiresAt :: "string option"

datatype pricing =
    ZeroPrice
  | FixedPrice price_quote
  | DynamicPrice price_quote
  | UnknownPrice unknown_price_reason

record retention =
  rt_classification :: retention_class
  rt_summary :: string
  rt_policyUrl :: "string option"

record capabilities =
  cp_executionLocation :: execution_location
  cp_networkScope :: network_scope
  cp_confidentiality :: confidentiality
  cp_attestationPolicy :: attestation_policy
  cp_retention :: retention
  cp_modalities :: "modality list"
  cp_pricing :: pricing

datatype policy_code =
    unknown_mode | no_providers | invalid_provider | cross_mode_provider | non_loopback_local_endpoint
  | ollama_cloud_model | ollama_local_source_unverified | ollama_structured_output_invalid
  | verification_adapter_required

type_synonym policy_error = "policy_code \<times> ai_provider option"

definition RETENTION_POLICIES :: "ai_provider \<Rightarrow> string option" where
  "RETENTION_POLICIES p = (case p of
       anthropic \<Rightarrow> Some ''https://www.anthropic.com/legal/commercial-terms''
     | openai \<Rightarrow> Some ''https://openai.com/policies/business-terms/''
     | google \<Rightarrow> Some ''https://ai.google.dev/gemini-api/terms''
     | ollama \<Rightarrow> None | embedded \<Rightarrow> None
     | trustedrouter \<Rightarrow> Some ''https://trustedrouter.com/privacy''
     | nearai \<Rightarrow> Some ''https://near.ai/privacy-policy'')"

text \<open>The function is only called for the embedded model and Ollama.\<close>

definition localCapabilities :: "ai_provider \<Rightarrow> capabilities" where
  "localCapabilities p = \<lparr> cp_executionLocation = loc_on_device,
     cp_networkScope = (if p = embedded then scope_none else scope_loopback),
     cp_confidentiality = device_local, cp_attestationPolicy = attestation_not_applicable,
     cp_retention = \<lparr> rt_classification = (if p = embedded then local_runtime else operator_unknown),
       rt_summary = (if p = embedded
         then ''Prompt processing uses a model subprocess on this device; no remote-provider retention policy applies.''
         else ''Prompt processing is sent over loopback with Ollama local-model resolution enforced; logging and retention depend on the local operator configuration.''),
       rt_policyUrl = None \<rparr>,
     cp_modalities = [text_modality], cp_pricing = ZeroPrice \<rparr>"

section \<open>Ollama\<close>

definition last_index :: "char \<Rightarrow> string \<Rightarrow> int" where
  "last_index c s = int (length s) - 1 - int (length (takeWhile (\<lambda>d. d \<noteq> c) (rev s)))"

definition isLoopbackOllama :: "url_lib \<Rightarrow> provider_entry \<Rightarrow> bool" where
  "isLoopbackOllama ul p =
     (if pv_name p \<noteq> ollama then False
      else (case pv_baseUrl p of
          None \<Rightarrow> True
        | Some b \<Rightarrow>
            if b = [] then True
            else (case ul_parse ul b of
                None \<Rightarrow> False
              | Some u \<Rightarrow> (url_protocol u = ''http:'' \<or> url_protocol u = ''https:'')
                  \<and> url_username u = [] \<and> url_password u = [] \<and> isLoopbackHostname (url_hostname u))))"

text \<open>The tag of a model reference: what follows a colon after the last slash.\<close>

definition model_tag :: "string \<Rightarrow> string option" where
  "model_tag normalized =
     (let lastSlash = last_index CHR ''/'' normalized; lastColon = last_index CHR '':'' normalized in
      if lastColon \<le> lastSlash then None
      else Some (to_lower (trim (drop (nat (lastColon + 1)) normalized))))"

definition isExplicitOllamaCloudModel :: "string \<Rightarrow> bool" where
  "isExplicitOllamaCloudModel model =
     (case model_tag (trim model) of None \<Rightarrow> False
      | Some tag \<Rightarrow> tag = ''cloud'' \<or> ends_with tag ''-cloud'')"

definition ollamaLocalModelReference :: "string \<Rightarrow> policy_error + string" where
  "ollamaLocalModelReference model =
     (let normalized = trim model in
      if isExplicitOllamaCloudModel normalized then Inl (ollama_cloud_model, Some ollama)
      else if model_tag normalized = Some ''local''
      then Inr (take (nat (last_index CHR '':'' normalized)) normalized @ '':local'')
      else Inr (normalized @ '':local''))"

section \<open>What may be said of a provider\<close>

definition unknown_price :: pricing where "unknown_price = UnknownPrice not_reported"

definition providerPrivacyCapabilities :: "url_lib \<Rightarrow> provider_entry \<Rightarrow> reasoning_mode option \<Rightarrow> capabilities" where
  "providerPrivacyCapabilities ul p mode =
     (if pv_name p = embedded then localCapabilities embedded
      else if pv_name p = trustedrouter then
        \<lparr> cp_executionLocation = loc_remote_service, cp_networkScope = scope_external,
          cp_confidentiality = attested_tee, cp_attestationPolicy = attestation_required,
          cp_retention = \<lparr> rt_classification = provider_declared,
            rt_summary = ''SkyTwin verifies the attested gateway session and exact-byte receipt; the selected upstream route must independently report a TEE-verified confidential tier.'',
            rt_policyUrl = RETENTION_POLICIES trustedrouter \<rparr>,
          cp_modalities = [text_modality], cp_pricing = unknown_price \<rparr>
      else if pv_name p = nearai then
        \<lparr> cp_executionLocation = loc_remote_service, cp_networkScope = scope_external,
          cp_confidentiality = provider_standard, cp_attestationPolicy = attestation_not_applicable,
          cp_retention = \<lparr> rt_classification = provider_declared,
            rt_summary = ''Unavailable: current base-CVM evidence does not pin the dynamically selected model and proxy workload, so SkyTwin does not send prompts through this adapter.'',
            rt_policyUrl = RETENTION_POLICIES nearai \<rparr>,
          cp_modalities = [text_modality], cp_pricing = unknown_price \<rparr>
      else if mode = Some on_device \<and> isLoopbackOllama ul p \<and> \<not> isExplicitOllamaCloudModel (pv_model p)
      then localCapabilities ollama
      else let userDirected = (pv_name p = ollama \<or> pv_baseUrl p \<noteq> None \<and> pv_baseUrl p \<noteq> Some []) in
        \<lparr> cp_executionLocation = loc_remote_service, cp_networkScope = scope_external,
          cp_confidentiality = (if userDirected then operator_declared else provider_standard),
          cp_attestationPolicy = attestation_not_applicable,
          cp_retention = \<lparr> rt_classification = (if userDirected then provider_declared else provider_terms),
            rt_summary = (if userDirected
              then ''Prompt and response handling follows the operator of the configured remote endpoint.''
              else ''Prompt and response handling follows the selected provider terms.''),
            rt_policyUrl = (if userDirected then None else RETENTION_POLICIES (pv_name p)) \<rparr>,
          cp_modalities = [text_modality], cp_pricing = unknown_price \<rparr>)"

definition quote_valid :: "(string \<Rightarrow> int option) \<Rightarrow> price_quote \<Rightarrow> bool" where
  "quote_valid date_parse q \<longleftrightarrow>
     is_safe_integer (pq_inputNanoUsdPerMillionTokens q) \<and> \<not> num_lt (pq_inputNanoUsdPerMillionTokens q) (Fin 0) \<and>
     is_safe_integer (pq_outputNanoUsdPerMillionTokens q) \<and> \<not> num_lt (pq_outputNanoUsdPerMillionTokens q) (Fin 0) \<and>
     date_parse (pq_checkedAt q) \<noteq> None"

definition isPricingUsableForUnattended :: "(string \<Rightarrow> int option) \<Rightarrow> pricing \<Rightarrow> int \<Rightarrow> bool" where
  "isPricingUsableForUnattended date_parse p nowMs =
     (let later = (\<lambda>t. case date_parse t of None \<Rightarrow> False | Some e \<Rightarrow> nowMs < e) in
      case p of
        ZeroPrice \<Rightarrow> True
      | UnknownPrice _ \<Rightarrow> False
      | FixedPrice q \<Rightarrow> if \<not> quote_valid date_parse q then False
          else (case pq_expiresAt q of None \<Rightarrow> True | Some t \<Rightarrow> later t)
      | DynamicPrice q \<Rightarrow> if \<not> quote_valid date_parse q then False
          else (case pq_expiresAt q of None \<Rightarrow> False | Some t \<Rightarrow> later t))"

section \<open>Admission to a mode\<close>

definition ALLOWED_KEYS :: "string list" where
  "ALLOWED_KEYS = [''name'', ''apiKey'', ''model'', ''baseUrl'']"

definition snapshotProvider :: "jsobj \<Rightarrow> policy_error + provider_entry" where
  "snapshotProvider raw =
     (case (list_all (\<lambda>k. k \<in> set ALLOWED_KEYS) (map fst raw), provider_of (get raw ''name''),
            get raw ''apiKey'', get raw ''model'', get raw ''baseUrl'') of
        (True, Some n, JStr key, JStr model, JUndefined) \<Rightarrow>
          Inr \<lparr> pv_name = n, pv_apiKey = key, pv_model = model, pv_baseUrl = None \<rparr>
      | (True, Some n, JStr key, JStr model, JStr b) \<Rightarrow>
          Inr \<lparr> pv_name = n, pv_apiKey = key, pv_model = model, pv_baseUrl = Some b \<rparr>
      | (_, n, _, _, _) \<Rightarrow> Inl (invalid_provider, n))"

fun snapshotProviders :: "jsobj list \<Rightarrow> policy_error + provider_entry list" where
  "snapshotProviders [] = Inr []"
| "snapshotProviders (raw # raws) =
     (case snapshotProvider raw of
        Inl e \<Rightarrow> Inl e
      | Inr p \<Rightarrow> (case snapshotProviders raws of Inl e \<Rightarrow> Inl e | Inr ps \<Rightarrow> Inr (p # ps)))"

definition assertLocalProvider :: "url_lib \<Rightarrow> provider_entry \<Rightarrow> policy_error option" where
  "assertLocalProvider ul p =
     (if pv_name p \<noteq> embedded \<and> pv_name p \<noteq> ollama then Some (cross_mode_provider, Some (pv_name p))
      else if pv_name p = ollama \<and> \<not> isLoopbackOllama ul p
      then Some (non_loopback_local_endpoint, Some (pv_name p))
      else if pv_name p = ollama \<and> isExplicitOllamaCloudModel (pv_model p)
      then Some (ollama_cloud_model, Some (pv_name p))
      else None)"

definition assertConfiguredProvider :: "provider_entry \<Rightarrow> policy_error option" where
  "assertConfiguredProvider p =
     (if pv_name p = embedded \<or> pv_name p = trustedrouter \<or> pv_name p = nearai
      then Some (cross_mode_provider, Some (pv_name p)) else None)"

definition assertVerifiedProvider :: "provider_entry \<Rightarrow> policy_error option" where
  "assertVerifiedProvider p =
     (if pv_name p = nearai then Some (verification_adapter_required, Some (pv_name p))
      else if pv_name p \<noteq> trustedrouter then Some (verification_adapter_required, Some (pv_name p))
      else if pv_baseUrl p \<noteq> None then Some (verification_adapter_required, Some (pv_name p))
      else if trim (pv_model p) = [] then Some (invalid_provider, Some (pv_name p))
      else if pv_model p \<noteq> ''trustedrouter/confidential'' then Some (invalid_provider, Some (pv_name p))
      else None)"

fun first_refusal :: "(provider_entry \<Rightarrow> policy_error option) \<Rightarrow> provider_entry list \<Rightarrow> policy_error option" where
  "first_refusal f [] = None"
| "first_refusal f (p # ps) = (case f p of Some e \<Rightarrow> Some e | None \<Rightarrow> first_refusal f ps)"

definition assertion_of :: "url_lib \<Rightarrow> reasoning_mode \<Rightarrow> provider_entry \<Rightarrow> policy_error option" where
  "assertion_of ul mode = (case mode of verified_private_cloud \<Rightarrow> assertVerifiedProvider
     | on_device \<Rightarrow> assertLocalProvider ul | bring_your_own_provider \<Rightarrow> assertConfiguredProvider)"

definition providersForReasoningMode ::
  "url_lib \<Rightarrow> jsval \<Rightarrow> jsobj list \<Rightarrow> policy_error + reasoning_mode \<times> provider_entry list" where
  "providersForReasoningMode ul rawMode providers =
     (case parseReasoningMode rawMode of
        None \<Rightarrow> Inl (unknown_mode, None)
      | Some mode \<Rightarrow>
          (case snapshotProviders providers of
             Inl e \<Rightarrow> Inl e
           | Inr ps \<Rightarrow>
               if ps = [] then Inl (no_providers, None)
               else (case first_refusal (assertion_of ul mode) ps of
                   Some e \<Rightarrow> Inl e
                 | None \<Rightarrow> Inr (mode, ps))))"

section \<open>The boundary of a mode\<close>

lemma first_refusal_None: "first_refusal f ps = None \<longleftrightarrow> (\<forall>p \<in> set ps. f p = None)"
  by (induction ps) (auto split: option.splits)

lemma snapshotProviders_length: "snapshotProviders raws = Inr ps \<Longrightarrow> length ps = length raws"
  by (induction raws arbitrary: ps) (auto split: sum.splits)

lemma admittedD:
  assumes "providersForReasoningMode ul rawMode raws = Inr (mode, ps)"
  shows "parseReasoningMode rawMode = Some mode" "snapshotProviders raws = Inr ps" "ps \<noteq> []"
    "p \<in> set ps \<Longrightarrow> assertion_of ul mode p = None"
  using assms unfolding providersForReasoningMode_def
  by (auto simp: first_refusal_None split: option.splits sum.splits if_splits)

text \<open>What holds of a provider that a mode admits.\<close>

definition admissible :: "url_lib \<Rightarrow> reasoning_mode \<Rightarrow> provider_entry \<Rightarrow> bool" where
  "admissible ul mode p = (case mode of
       on_device \<Rightarrow> pv_name p = embedded \<or>
         pv_name p = ollama \<and> isLoopbackOllama ul p \<and> \<not> isExplicitOllamaCloudModel (pv_model p)
     | verified_private_cloud \<Rightarrow> pv_name p = trustedrouter \<and> pv_baseUrl p = None
         \<and> pv_model p = ''trustedrouter/confidential''
     | bring_your_own_provider \<Rightarrow> pv_name p \<notin> {embedded, trustedrouter, nearai})"

lemma admissible_iff: "assertion_of ul mode p = None \<longleftrightarrow> admissible ul mode p"
proof -
  have "trim ''trustedrouter/confidential'' \<noteq> []" by code_simp
  then show ?thesis
    by (cases mode) (auto simp: assertion_of_def admissible_def assertVerifiedProvider_def
        assertLocalProvider_def assertConfiguredProvider_def)
qed

text \<open>The facts of an admitted provider agree with the mode.\<close>

lemma admissible_capabilities:
  assumes "admissible ul mode p"
  defines "c \<equiv> providerPrivacyCapabilities ul p (Some mode)"
  shows "cp_executionLocation c = (if mode = on_device then loc_on_device else loc_remote_service)"
    "cp_networkScope c = scope_external \<longleftrightarrow> mode \<noteq> on_device"
    "cp_confidentiality c = device_local \<longleftrightarrow> mode = on_device"
    "cp_confidentiality c = attested_tee \<longleftrightarrow> mode = verified_private_cloud"
    "cp_attestationPolicy c = attestation_required \<longleftrightarrow> mode = verified_private_cloud"
    "cp_pricing c = (if mode = on_device then ZeroPrice else unknown_price)"
  using assms(1)
  unfolding c_def providerPrivacyCapabilities_def localCapabilities_def Let_def if_distrib [of cp_executionLocation]
    if_distrib [of cp_networkScope] if_distrib [of cp_confidentiality] if_distrib [of cp_attestationPolicy]
    if_distrib [of cp_pricing] capabilities.select_convs
  by (cases mode; auto simp: admissible_def)+

subsection \<open>The local model reference\<close>

lemma trim_fixed: "s = [] \<or> \<not> is_space (hd s) \<and> \<not> is_space (last s) \<Longrightarrow> trim s = s"
proof -
  have drop: "s = [] \<or> \<not> is_space (hd s) \<Longrightarrow> dropWhile is_space s = s" for s by (cases s) simp_all
  assume "s = [] \<or> \<not> is_space (hd s) \<and> \<not> is_space (last s)"
  then show ?thesis by (auto simp: trim_def drop hd_rev)
qed

lemma trim_ends: "trim s = [] \<or> \<not> is_space (hd (trim s)) \<and> \<not> is_space (last (trim s))"
proof (cases "trim s = []")
  case False
  define t where "t = dropWhile is_space s"
  have t: "t \<noteq> []" using False by (cases t) (simp_all add: trim_def flip: t_def)
  have d: "dropWhile is_space (rev t) \<noteq> []" using False by (simp only: trim_def t_def rev_is_Nil_conv simp_thms)
  have "\<not> is_space (last (trim s))"
    using hd_dropWhile [OF d] d by (simp add: trim_def t_def last_rev)
  moreover have "\<exists>w. t = trim s @ w"
    by (metis rev_append rev_rev_ident takeWhile_dropWhile_id trim_def t_def)
  then have "hd (trim s) = hd t" using False by auto
  moreover have "\<not> is_space (hd t)" using t hd_dropWhile unfolding t_def by blast
  ultimately show ?thesis by simp
qed simp

lemma trim_idem: "trim (trim s) = trim s"
  by (rule trim_fixed) (rule trim_ends)

lemma last_index_append: "c \<in> set t \<Longrightarrow> last_index c (s @ t) = int (length s) + last_index c t"
proof -
  assume "c \<in> set t"
  then have "takeWhile (\<lambda>d. d \<noteq> c) (rev t @ rev s) = takeWhile (\<lambda>d. d \<noteq> c) (rev t)"
    by (intro takeWhile_append1 [where x = c]) simp_all
  then show ?thesis by (simp add: last_index_def)
qed

lemma last_index_less: "last_index c s < int (length s)"
  by (simp add: last_index_def)

lemma last_index_absent: "c \<notin> set t \<Longrightarrow> last_index c (s @ t) = last_index c s"
proof -
  assume "c \<notin> set t"
  then have "takeWhile (\<lambda>d. d \<noteq> c) (rev t @ rev s) = rev t @ takeWhile (\<lambda>d. d \<noteq> c) (rev s)"
    by (intro takeWhile_append2) auto
  then show ?thesis by (simp add: last_index_def)
qed

text \<open>The selector that the reference ends with is read back as the tag.\<close>

lemma local_tag: "model_tag (x @ '':local'') = Some ''local''"
proof -
  have colon: "last_index CHR '':'' (x @ '':local'') = int (length x)"
  proof -
    have "last_index CHR '':'' '':local'' = 0" by code_simp
    then show ?thesis by (simp add: last_index_append)
  qed
  have "last_index CHR ''/'' (x @ '':local'') = last_index CHR ''/'' x" by (intro last_index_absent) simp
  then have "last_index CHR ''/'' (x @ '':local'') < int (length x)" using last_index_less by simp
  moreover have "to_lower (trim ''local'') = ''local''" by code_simp
  moreover have "drop (nat (int (length x) + 1)) (x @ '':local'') = ''local''" by (simp add: nat_add_distrib)
  ultimately show ?thesis by (simp only: model_tag_def colon Let_def if_not_P not_le)
qed

lemma local_not_cloud: "\<not> ends_with ''local'' ''-cloud'' \<and> ''local'' \<noteq> ''cloud''"
  by code_simp

lemma local_reference_shape:
  assumes "ollamaLocalModelReference m = Inr r"
  shows "\<exists>x. r = x @ '':local'' \<and> (x = [] \<or> \<not> is_space (hd x))"
proof -
  let ?n = "trim m" and ?i = "nat (last_index CHR '':'' (trim m))"
  have "r = take ?i ?n @ '':local'' \<or> r = ?n @ '':local''"
    using assms by (auto simp: ollamaLocalModelReference_def Let_def split: if_splits)
  moreover have "take ?i ?n = [] \<or> \<not> is_space (hd (take ?i ?n))"
    using trim_ends [of m] by (metis hd_take take_eq_Nil zero_less_iff_neq_zero)
  ultimately show ?thesis using trim_ends [of m] by blast
qed

text \<open>The reference that is sent to Ollama in the local mode always carries the local source selector,
  never names a cloud model, and is stable: qualifying it again changes nothing.\<close>

theorem local_reference_stable:
  assumes "ollamaLocalModelReference model = Inr r"
  shows "ends_with r '':local'' \<and> \<not> isExplicitOllamaCloudModel r \<and> ollamaLocalModelReference r = Inr r"
proof -
  obtain x where r: "r = x @ '':local''" "x = [] \<or> \<not> is_space (hd x)"
    using local_reference_shape [OF assms] by blast
  have "\<not> is_space (hd r) \<and> \<not> is_space (last r)" using r by (cases x) (simp_all add: is_space_def)
  then have t: "trim r = r" by (intro trim_fixed) simp
  have tag: "model_tag r = Some ''local''" unfolding r by (rule local_tag)
  have cloud: "\<not> isExplicitOllamaCloudModel r"
    using local_not_cloud by (simp add: isExplicitOllamaCloudModel_def t tag)
  have "last_index CHR '':'' '':local'' = 0" by code_simp
  then have "take (nat (last_index CHR '':'' r)) r = x" unfolding r(1) by (simp add: last_index_append)
  then have "ollamaLocalModelReference r = Inr r"
    using cloud by (simp add: ollamaLocalModelReference_def Let_def t tag) (simp add: r(1))
  with cloud show ?thesis by (auto simp: r(1) ends_with_append)
qed

theorem local_reference_stable_witness:
  "ends_with ''library/gemma3:local'' '':local'' \<and> \<not> isExplicitOllamaCloudModel ''library/gemma3:local''
     \<and> ollamaLocalModelReference ''library/gemma3:local'' = Inr ''library/gemma3:local''"
  by (rule local_reference_stable [of "'' library/gemma3:LOCAL ''"]; code_simp)

text \<open>Admission never changes where a prompt may go: every configured provider is kept, in the on-device
  mode each runs on this device over loopback or without a network at zero price and an Ollama model
  gets a local reference, in the other modes each is disclosed as external with an unknown price,
  and only the pinned confidential route is ever called attested.\<close>

theorem admitted_within_mode:
  assumes "providersForReasoningMode ul rawMode raws = Inr (mode, ps)" "p \<in> set ps"
  defines "c \<equiv> providerPrivacyCapabilities ul p (Some mode)"
  shows "length ps = length raws \<and>
    (if mode = on_device
     then cp_executionLocation c = loc_on_device \<and> cp_networkScope c \<noteq> scope_external \<and> cp_pricing c = ZeroPrice
       \<and> (pv_name p = ollama \<longrightarrow> isLoopbackOllama ul p \<and> (\<exists>r. ollamaLocalModelReference (pv_model p) = Inr r))
     else cp_executionLocation c = loc_remote_service \<and> cp_networkScope c = scope_external
       \<and> cp_pricing c = unknown_price) \<and>
    (cp_confidentiality c = attested_tee \<longleftrightarrow> mode = verified_private_cloud) \<and>
    (mode = verified_private_cloud \<longrightarrow> pv_name p = trustedrouter \<and> pv_baseUrl p = None)"
proof -
  have a: "admissible ul mode p" using admittedD(4) [OF assms(1,2)] by (simp add: admissible_iff)
  have "ollamaLocalModelReference (pv_model p) \<noteq> Inl e"
    if "mode = on_device" "pv_name p = ollama" for e
    using a that trim_idem [of "pv_model p"]
    by (auto simp: admissible_def ollamaLocalModelReference_def isExplicitOllamaCloudModel_def Let_def)
  then have r: "mode = on_device \<Longrightarrow> pv_name p = ollama \<Longrightarrow> \<exists>r. ollamaLocalModelReference (pv_model p) = Inr r"
    by (metis sum.exhaust)
  show ?thesis
    using admissible_capabilities [OF a] a r snapshotProviders_length [OF admittedD(2) [OF assms(1)]]
    unfolding c_def by (cases mode) (auto simp: admissible_def)
qed

definition raw_ollama :: jsobj where
  "raw_ollama = [(''name'', JStr ''ollama''), (''apiKey'', JStr []), (''model'', JStr ''gemma3''),
     (''baseUrl'', JStr ''http://localhost'')]"

definition small_ollama :: provider_entry where
  "small_ollama = \<lparr> pv_name = ollama, pv_apiKey = [], pv_model = ''gemma3'', pv_baseUrl = Some ''http://localhost'' \<rparr>"

lemma small_admitted:
  "providersForReasoningMode small_lib (JStr ''on_device'') [raw_ollama] = Inr (on_device, [small_ollama])"
  by code_simp

theorem admitted_within_mode_witness:
  "cp_networkScope (providerPrivacyCapabilities small_lib small_ollama (Some on_device)) = scope_loopback
     \<and> ollamaLocalModelReference (pv_model small_ollama) = Inr ''gemma3:local''
     \<and> length [small_ollama] = length [raw_ollama]"
proof -
  have "length [small_ollama] = length [raw_ollama]"
    using admitted_within_mode [OF small_admitted, of small_ollama] by simp
  moreover have "cp_networkScope (providerPrivacyCapabilities small_lib small_ollama (Some on_device)) = scope_loopback"
    "ollamaLocalModelReference (pv_model small_ollama) = Inr ''gemma3:local''"
    by code_simp+
  ultimately show ?thesis by blast
qed

end
