(* ===== verification/PromptRedaction.thy ===== *)
theory PromptRedaction
  imports RegexExec
begin

text \<open>
  The redaction of addresses in prompts (\<open>packages/llm-client/src/redact.ts\<close>). Its expression
  bounds every repetition; the bounded greedy repetition is written with the alternatives of
  theory \<open>Regex\<close>. No text that has the shape of an address is left, and redacting again changes nothing.
\<close>

section \<open>Bounded repetition\<close>

fun up_to :: "nat \<Rightarrow> rx \<Rightarrow> rx" where
  "up_to 0 r = Empty"
| "up_to (Suc n) r = opt (Seq r (up_to n r))"

definition rx_repeat :: "nat \<Rightarrow> nat \<Rightarrow> rx \<Rightarrow> rx" where
  "rx_repeat lo hi r = foldr Seq (replicate lo r) (up_to (hi - lo) r)"

text \<open>A position after a word.\<close>

definition after :: "string \<Rightarrow> pos \<Rightarrow> pos \<Rightarrow> bool" where
  "after x q q' \<longleftrightarrow> snd q = x @ snd q' \<and> fst q' = last_char (fst q) x"

lemma after_Nil: "after [] q q' \<longleftrightarrow> q' = q"
  by (cases q; cases q') (auto simp: after_def)

lemma after_Cons: "after (c # x) q q' \<longleftrightarrow> (\<exists>q1. snd q = c # snd q1 \<and> fst q1 = Some c \<and> after x q1 q')"
  by (auto simp: after_def)

lemma matches_Chr_iff: "matches (Chr P) q q' \<longleftrightarrow> (\<exists>c. P c \<and> snd q = c # snd q' \<and> fst q' = Some c)"
  by (cases q; cases q') (auto intro: m_chr elim: matches_Chr)

lemma matches_Seq_iff: "matches (Seq a b) q q' \<longleftrightarrow> (\<exists>q1. matches a q q1 \<and> matches b q1 q')"
  by (blast intro: m_seq elim: matches_Seq)

lemma matches_Empty_iff: "matches Empty q q' \<longleftrightarrow> q' = q"
  by (auto intro: m_empty elim: matches_Empty)

lemma matches_opt_iff: "matches (opt r) q q' \<longleftrightarrow> matches r q q' \<or> q' = q"
  by (auto simp: opt_def intro: m_left m_right m_empty elim: matches_Alt matches_Empty)

lemma ex_list: "(\<exists>x. R x) \<longleftrightarrow> R [] \<or> (\<exists>c x. R (c # x))"
  by (metis neq_Nil_conv)

lemma matches_step:
  "(\<exists>q1. matches (Chr P) q q1 \<and> (\<exists>x. after x q1 q' \<and> R x)) \<longleftrightarrow>
   (\<exists>c x. after (c # x) q q' \<and> P c \<and> R x)"
  unfolding matches_Chr_iff after_Cons by blast

lemma matches_up_to:
  "matches (up_to n (Chr P)) q q' \<longleftrightarrow> (\<exists>x. after x q q' \<and> list_all P x \<and> length x \<le> n)"
proof (induction n arbitrary: q)
  case 0
  then show ?case by (simp add: matches_Empty_iff after_Nil)
next
  case (Suc n)
  have "matches (up_to (Suc n) (Chr P)) q q' \<longleftrightarrow>
    q' = q \<or> (\<exists>c x. after (c # x) q q' \<and> P c \<and> list_all P x \<and> length x \<le> n)"
    unfolding up_to.simps matches_opt_iff matches_Seq_iff Suc.IH matches_step by blast
  also have "\<dots> \<longleftrightarrow> (\<exists>x. after x q q' \<and> list_all P x \<and> length x \<le> Suc n)"
    unfolding ex_list [of "\<lambda>x. after x q q' \<and> list_all P x \<and> length x \<le> Suc n"] by (simp add: after_Nil)
  finally show ?case .
qed

lemma matches_repeat:
  "lo \<le> hi \<Longrightarrow> matches (rx_repeat lo hi (Chr P)) q q' \<longleftrightarrow>
     (\<exists>x. after x q q' \<and> list_all P x \<and> lo \<le> length x \<and> length x \<le> hi)"
  unfolding rx_repeat_def
proof (induction lo arbitrary: q hi)
  case 0
  then show ?case by (simp add: matches_up_to)
next
  case (Suc lo)
  then obtain h where hi: "hi = Suc h" "lo \<le> h" by (cases hi) auto
  have "matches (foldr Seq (replicate (Suc lo) (Chr P)) (up_to (hi - Suc lo) (Chr P))) q q' \<longleftrightarrow>
    (\<exists>c x. after (c # x) q q' \<and> P c \<and> list_all P x \<and> lo \<le> length x \<and> length x \<le> h)"
    unfolding replicate_Suc foldr_Cons comp_def matches_Seq_iff hi(1) diff_Suc_Suc Suc.IH [OF hi(2)] matches_step ..
  also have "\<dots> \<longleftrightarrow> (\<exists>x. after x q q' \<and> list_all P x \<and> Suc lo \<le> length x \<and> length x \<le> hi)"
    unfolding ex_list [of "\<lambda>x. after x q q' \<and> list_all P x \<and> Suc lo \<le> length x \<and> length x \<le> hi"]
    by (simp add: hi(1))
  finally show ?case .
qed

section \<open>The expression\<close>

definition local_char :: "char \<Rightarrow> bool" where
  "local_char c \<longleftrightarrow> is_word c \<or> c = CHR ''.'' \<or> c = CHR ''%'' \<or> c = CHR ''+'' \<or> c = CHR ''-''"

definition domain_char :: "char \<Rightarrow> bool" where
  "domain_char c \<longleftrightarrow> is_word c \<and> c \<noteq> CHR ''_'' \<or> c = CHR ''.'' \<or> c = CHR ''-''"

definition letter_char :: "char \<Rightarrow> bool" where
  "letter_char c \<longleftrightarrow> (let n = (of_char (lower_char c) :: nat) in 97 \<le> n \<and> n \<le> 122)"

definition EMAIL_RE :: rx where
  "EMAIL_RE = Seq (rx_repeat 1 64 (Chr local_char)) (Seq (Chr (\<lambda>c. c = CHR ''@''))
     (Seq (rx_repeat 1 255 (Chr domain_char)) (Seq (Chr (\<lambda>c. c = CHR ''.''))
     (rx_repeat 2 24 (Chr letter_char)))))"

definition placeholder :: string where "placeholder = ''[redacted:email]''"

definition redactPromptPii :: "string \<Rightarrow> string" where
  "redactPromptPii s = (if s = [] then s else replace_all EMAIL_RE (\<lambda>_. placeholder) s)"

text \<open>The shape of an address.\<close>

definition is_address :: "string \<Rightarrow> bool" where
  "is_address w \<longleftrightarrow> (\<exists>l d t. w = l @ CHR ''@'' # d @ CHR ''.'' # t
     \<and> list_all local_char l \<and> 1 \<le> length l \<and> length l \<le> 64
     \<and> list_all domain_char d \<and> 1 \<le> length d \<and> length d \<le> 255
     \<and> list_all letter_char t \<and> 2 \<le> length t \<and> length t \<le> 24)"

lemma matches_EMAIL: "(\<exists>q'. matches EMAIL_RE (p, s) q') \<longleftrightarrow> (\<exists>w v. s = w @ v \<and> is_address w)"
proof
  assume "\<exists>q'. matches EMAIL_RE (p, s) q'"
  then obtain q1 q2 q3 q4 q5 where m: "matches (rx_repeat 1 64 (Chr local_char)) (p, s) q1"
      "matches (Chr (\<lambda>c. c = CHR ''@'')) q1 q2" "matches (rx_repeat 1 255 (Chr domain_char)) q2 q3"
      "matches (Chr (\<lambda>c. c = CHR ''.'')) q3 q4" "matches (rx_repeat 2 24 (Chr letter_char)) q4 q5"
    unfolding EMAIL_RE_def matches_Seq_iff by blast
  from m(1) obtain l where l: "s = l @ snd q1" "list_all local_char l" "1 \<le> length l" "length l \<le> 64"
    by (auto simp: matches_repeat after_def)
  from m(2) have a: "snd q1 = CHR ''@'' # snd q2" by (auto simp: matches_Chr_iff)
  from m(3) obtain d where d: "snd q2 = d @ snd q3" "list_all domain_char d" "1 \<le> length d" "length d \<le> 255"
    by (auto simp: matches_repeat after_def)
  from m(4) have e: "snd q3 = CHR ''.'' # snd q4" by (auto simp: matches_Chr_iff)
  from m(5) obtain t where t: "snd q4 = t @ snd q5" "list_all letter_char t" "2 \<le> length t" "length t \<le> 24"
    by (auto simp: matches_repeat after_def)
  have "s = (l @ CHR ''@'' # d @ CHR ''.'' # t) @ snd q5" by (simp add: l(1) a d(1) e t(1))
  moreover have "is_address (l @ CHR ''@'' # d @ CHR ''.'' # t)" unfolding is_address_def using l d t by blast
  ultimately show "\<exists>w v. s = w @ v \<and> is_address w" by blast
next
  assume "\<exists>w v. s = w @ v \<and> is_address w"
  then obtain l d t v where s: "s = l @ CHR ''@'' # d @ CHR ''.'' # t @ v"
    and b: "list_all local_char l" "1 \<le> length l" "length l \<le> 64" "list_all domain_char d" "1 \<le> length d"
      "length d \<le> 255" "list_all letter_char t" "2 \<le> length t" "length t \<le> 24"
    unfolding is_address_def by auto
  let ?q1 = "(last_char p l, CHR ''@'' # d @ CHR ''.'' # t @ v)" and ?q2 = "(Some CHR ''@'', d @ CHR ''.'' # t @ v)"
    and ?q3 = "(last_char (Some CHR ''@'') d, CHR ''.'' # t @ v)" and ?q4 = "(Some CHR ''.'', t @ v)"
    and ?q5 = "(last_char (Some CHR ''.'') t, v)"
  have "after l (p, s) ?q1" "after d ?q2 ?q3" "after t ?q4 ?q5" by (simp_all add: after_def s)
  then have "matches (rx_repeat 1 64 (Chr local_char)) (p, s) ?q1" "matches (rx_repeat 1 255 (Chr domain_char)) ?q2 ?q3"
    "matches (rx_repeat 2 24 (Chr letter_char)) ?q4 ?q5"
    using b by (subst matches_repeat, simp, blast)+
  moreover have "matches (Chr (\<lambda>c. c = CHR ''@'')) ?q1 ?q2" "matches (Chr (\<lambda>c. c = CHR ''.'')) ?q3 ?q4"
    by (simp_all add: matches_Chr_iff)
  ultimately have "matches EMAIL_RE (p, s) ?q5" unfolding EMAIL_RE_def matches_Seq_iff by blast
  then show "\<exists>q'. matches EMAIL_RE (p, s) q'" ..
qed

section \<open>Nothing is left\<close>

lemma address_chars: "is_address w \<Longrightarrow> w \<noteq> [] \<and> CHR ''['' \<notin> set w \<and> CHR '']'' \<notin> set w"
proof -
  have p: "local_char c \<or> domain_char c \<or> letter_char c \<or> c \<in> {CHR ''@'', CHR ''.''} \<Longrightarrow> c \<noteq> CHR ''['' \<and> c \<noteq> CHR '']''" for c
    by (auto simp: local_char_def domain_char_def letter_char_def is_word_def lower_char_def)
  assume "is_address w"
  then show ?thesis unfolding is_address_def list_all_iff using p by fastforce
qed

lemma no_prio_no_address: "prio EMAIL_RE (p, s) = [] \<longleftrightarrow> \<not> (\<exists>w v. s = w @ v \<and> is_address w)"
  unfolding no_match_prio using ends_nonempty_iff [of EMAIL_RE "(p, s)"] matches_EMAIL [of p s] by blast

lemma redaction_step:
  assumes "prio EMAIL_RE (p, s) = q # qs"
  shows "rx_replace EMAIL_RE (\<lambda>_. placeholder) p s = placeholder @ rx_replace EMAIL_RE (\<lambda>_. placeholder) (fst q) (snd q)"
    "length (snd q) < length s"
proof -
  have "matches EMAIL_RE (p, s) q" using assms prio_iff [of q EMAIL_RE "(p, s)"] by simp
  then obtain q1 r where q1: "matches (rx_repeat 1 64 (Chr local_char)) (p, s) q1" and r: "matches r q1 q"
    unfolding EMAIL_RE_def by (rule matches_Seq)
  have rest: "length (snd q) \<le> length (snd q1)" using matches_progress [OF r] by auto
  from q1 show *: "length (snd q) < length s" using rest by (auto simp: matches_repeat after_def)
  show "rx_replace EMAIL_RE (\<lambda>_. placeholder) p s = placeholder @ rx_replace EMAIL_RE (\<lambda>_. placeholder) (fst q) (snd q)"
    by (subst rx_replace.simps) (simp add: assms *)
qed

lemma skip_step:
  assumes "prio EMAIL_RE (p, c # t) = []"
  shows "rx_replace EMAIL_RE (\<lambda>_. placeholder) p (c # t) = c # rx_replace EMAIL_RE (\<lambda>_. placeholder) (Some c) t"
  by (subst rx_replace.simps) (simp add: assms)

text \<open>An unmarked beginning of the redacted text is a beginning of the text.\<close>

lemma unmarked_prefix:
  "rx_replace EMAIL_RE (\<lambda>_. placeholder) p s = w @ v \<Longrightarrow> CHR ''['' \<notin> set w \<Longrightarrow> \<exists>v'. s = w @ v'"
proof (induction s arbitrary: p w rule: length_induct)
  case (1 s)
  show ?case
  proof (cases w)
    case w: (Cons c w')
    show ?thesis
    proof (cases "prio EMAIL_RE (p, s)")
      case Nil
      show ?thesis
      proof (cases s)
        case Nil
        then show ?thesis using 1(2) w \<open>prio EMAIL_RE (p, s) = []\<close> by (simp add: rx_replace.simps [of _ _ p])
      next
        case (Cons d t)
        then have "d # rx_replace EMAIL_RE (\<lambda>_. placeholder) (Some d) t = c # w' @ v"
          using 1(2) w skip_step [of p d t] Nil by simp
        then have "c = d" "rx_replace EMAIL_RE (\<lambda>_. placeholder) (Some d) t = w' @ v" by auto
        then show ?thesis using 1(1,3) w Cons by simp
      qed
    next
      case (Cons q qs)
      from redaction_step(1) [OF this] 1(2) w have "c = CHR ''[''" by (simp add: placeholder_def)
      then show ?thesis using 1(3) w by simp
    qed
  qed simp
qed

lemma placeholder_suffix:
  assumes "placeholder = a @ b" "b \<noteq> []"
  shows "CHR '']'' \<in> set b \<and> CHR ''@'' \<notin> set b"
proof -
  have "last placeholder = last b" using assms by (metis last_appendR)
  moreover have "last placeholder = CHR '']''" "CHR ''@'' \<notin> set placeholder" by (simp_all add: placeholder_def)
  ultimately show ?thesis using assms(2) by (metis UnI2 assms(1) last_in_set set_append)
qed

text \<open>No address begins within a placeholder.\<close>

lemma no_address_across:
  assumes "b @ t = w @ v" "is_address w" "CHR ''@'' \<notin> set b" "CHR '']'' \<in> set b"
  shows False
proof (cases "length b \<le> length w")
  case True
  then have "set b \<subseteq> set w" using assms(1) by (metis append_eq_append_conv_if set_take_subset)
  then show ?thesis using assms(2,4) address_chars by blast
next
  case False
  then have "set w \<subseteq> set b" using assms(1) by (metis append_eq_append_conv_if linorder_linear set_take_subset)
  then show ?thesis using assms(2,3) by (auto simp: is_address_def)
qed

lemma redacted_clean:
  "rx_replace EMAIL_RE (\<lambda>_. placeholder) p s = u @ w @ v \<Longrightarrow> \<not> is_address w"
proof (induction s arbitrary: p u rule: length_induct)
  case (1 s)
  show ?case
  proof (cases "prio EMAIL_RE (p, s)")
    case Nil
    show ?thesis
    proof (cases s)
      case Nil
      then show ?thesis
        using 1(2) \<open>prio EMAIL_RE (p, s) = []\<close> address_chars by (auto simp: rx_replace.simps [of _ _ p])
    next
      case s: (Cons c t)
      show ?thesis
      proof (cases u)
        case Nil
        then have "\<exists>v'. s = w @ v'" if "is_address w"
          using unmarked_prefix [of p s w v] 1(2) address_chars [OF that] by simp
        then show ?thesis using \<open>prio EMAIL_RE (p, s) = []\<close> no_prio_no_address by blast
      next
        case (Cons d u')
        then have "rx_replace EMAIL_RE (\<lambda>_. placeholder) (Some c) t = u' @ w @ v"
          using 1(2) skip_step [of p c t] \<open>prio EMAIL_RE (p, s) = []\<close> unfolding s by auto
        then show ?thesis using 1(1) [rule_format, of t "Some c" u'] s by simp
      qed
    qed
  next
    case (Cons q qs)
    note step = redaction_step [OF this]
    let ?t = "rx_replace EMAIL_RE (\<lambda>_. placeholder) (fst q) (snd q)"
    have eq: "placeholder @ ?t = u @ w @ v" using step(1) 1(2) by simp
    show ?thesis
    proof (cases "length placeholder \<le> length u")
      case True
      then have "?t = drop (length placeholder) u @ w @ v" using eq by (metis append_eq_append_conv_if)
      then show ?thesis using 1(1) step(2) by blast
    next
      case False
      then have "placeholder = u @ drop (length u) placeholder" "drop (length u) placeholder @ ?t = w @ v"
        using eq by (metis append_eq_append_conv_if append_take_drop_id linorder_linear)+
      then show ?thesis using placeholder_suffix no_address_across False by (metis drop_eq_Nil)
    qed
  qed
qed

text \<open>C14: Redaction is complete, idempotent and changes nothing else: whatever the text, no part of the
  redacted text has the shape of an address, redacting again changes nothing, and a text is
  changed exactly when it contains an address.\<close>

theorem redaction_complete:
  "\<not> (\<exists>u w v. redactPromptPii s = u @ w @ v \<and> is_address w) \<and>
   redactPromptPii (redactPromptPii s) = redactPromptPii s \<and>
   (redactPromptPii s = s \<longleftrightarrow> \<not> (\<exists>u w v. s = u @ w @ v \<and> is_address w))"
proof -
  have clean: "\<not> is_address w" if "redactPromptPii s = u @ w @ v" for u w v
    using that redacted_clean address_chars [of "[]"] by (auto simp: redactPromptPii_def replace_all_def split: if_splits)
  have fixed: "redactPromptPii s = s" if "\<not> (\<exists>u w v. s = u @ w @ v \<and> is_address w)" for s
  proof -
    have "\<not> rx_test EMAIL_RE s" unfolding rx_test_iff matches_EMAIL using that by blast
    then show ?thesis by (simp add: redactPromptPii_def replace_all_none)
  qed
  have "redactPromptPii (redactPromptPii s) = redactPromptPii s" by (rule fixed) (use clean in blast)
  moreover have "redactPromptPii s = s \<longleftrightarrow> \<not> (\<exists>u w v. s = u @ w @ v \<and> is_address w)"
    using fixed [of s] clean by metis
  ultimately show ?thesis using clean by blast
qed

lemma address_sample: "is_address ''bo@ex.org''"
proof -
  have "list_all local_char ''bo'' \<and> list_all domain_char ''ex'' \<and> list_all letter_char ''org''" by code_simp
  then show ?thesis
    unfolding is_address_def by (intro exI [of _ "''bo''"] exI [of _ "''ex''"] exI [of _ "''org''"]) simp
qed

end
