(* ===== verification/LlmClient.thy ===== *)
theory LlmClient
  imports ProviderModes PromptRedaction CircuitBreaker
begin

text \<open>
  The client of the language models (\<open>packages/llm-client/src/llm-client.ts\<close>): a chain of providers
  that were admitted to one reasoning mode, a circuit breaker per user and provider, the walk of
  \<open>generate\<close> and \<open>generateStream\<close> along the chain, and the trace of an inference. What an adapter
  returns, when the consumer of a stream leaves, what the recorder of traces does and every
  reading of the clock come from an environment. Identifiers and time stamps of traces are left out.
\<close>

section \<open>Prompts and outputs\<close>

datatype chat_role = system_role | user_role | assistant_role

record chat_message =
  cm_role :: chat_role
  cm_content :: string

datatype prompt = TextPrompt string | ChatPrompt "chat_message list"

datatype invocation_kind = interactive | unattended

record generate_options =
  op_temperature :: "number option"
  op_maxTokens :: "number option"
  op_systemPrompt :: "string option"
  op_timeoutMs :: "number option"
  op_invocationKind :: "invocation_kind option"
  op_jsonSchema :: "string option"
  op_disableReasoning :: "bool option"
  op_requireExactRuntimeIdentity :: "bool option"

record call_options =
  co_options :: generate_options
  co_baseUrl :: "string option"
  co_reasoningMode :: reasoning_mode

record signature =
  si_algorithm :: string
  si_keyId :: string
  si_publicKeyPem :: string
  si_signatureBase64 :: string

record verification =
  vf_outcome :: string
  vf_attestationPolicyVersion :: string
  vf_verifierVersion :: string
  vf_evidence :: string
  vf_measurementIdentity :: string
  vf_responseSignature :: signature
  vf_verifiedAt :: string
  vf_freshUntil :: string

record verified_output =
  vo_content :: string
  vo_requestBytes :: string
  vo_responseBytes :: string
  vo_endpointIdentity :: string
  vo_providerRequestId :: string
  vo_resolvedModel :: string
  vo_verification :: verification

record runtime_identity =
  ri_provider :: string
  ri_serverVersion :: string
  ri_modelDigestSha256 :: string

record exact_output =
  xo_content :: string
  xo_resolvedModel :: string
  xo_runtimeIdentity :: runtime_identity

datatype provider_output =
    PlainOutput string
  | VerifiedOutput verified_output
  | ExactOutput exact_output

fun output_content :: "provider_output \<Rightarrow> string" where
  "output_content (PlainOutput s) = s"
| "output_content (VerifiedOutput v) = vo_content v"
| "output_content (ExactOutput x) = xo_content x"

definition verification_complete :: "(string \<Rightarrow> int option) \<Rightarrow> verification \<Rightarrow> bool" where
  "verification_complete date_parse v \<longleftrightarrow> vf_outcome v = ''verified'' \<and>
     vf_attestationPolicyVersion v \<noteq> [] \<and> vf_verifierVersion v \<noteq> [] \<and> vf_evidence v \<noteq> [] \<and>
     vf_measurementIdentity v \<noteq> [] \<and>
     (case (date_parse (vf_verifiedAt v), date_parse (vf_freshUntil v)) of
        (Some a, Some b) \<Rightarrow> a \<le> b | _ \<Rightarrow> False) \<and>
     si_algorithm (vf_responseSignature v) = ''Ed25519'' \<and> si_keyId (vf_responseSignature v) \<noteq> [] \<and>
     si_publicKeyPem (vf_responseSignature v) \<noteq> [] \<and> si_signatureBase64 (vf_responseSignature v) \<noteq> []"

text \<open>\<open>Some\<close> the output when its evidence is complete.\<close>

definition verified_part :: "(string \<Rightarrow> int option) \<Rightarrow> provider_output \<Rightarrow> verified_output option" where
  "verified_part date_parse out =
     (case out of
        VerifiedOutput v \<Rightarrow>
          if vo_requestBytes v \<noteq> [] \<and> vo_responseBytes v \<noteq> [] \<and> vo_endpointIdentity v \<noteq> [] \<and>
            vo_providerRequestId v \<noteq> [] \<and> vo_resolvedModel v \<noteq> [] \<and>
            verification_complete date_parse (vo_verification v)
          then Some v else None
      | _ \<Rightarrow> None)"

definition hex_char :: "char \<Rightarrow> bool" where
  "hex_char c \<longleftrightarrow> (let n = (of_char c :: nat) in 97 \<le> n \<and> n \<le> 102 \<or> 48 \<le> n \<and> n \<le> 57)"

definition exact_part :: "provider_output \<Rightarrow> exact_output option" where
  "exact_part out =
     (case out of
        ExactOutput x \<Rightarrow>
          if xo_resolvedModel x \<noteq> [] \<and> ri_provider (xo_runtimeIdentity x) = ''ollama'' \<and>
            ri_serverVersion (xo_runtimeIdentity x) \<noteq> [] \<and>
            length (ri_serverVersion (xo_runtimeIdentity x)) \<le> 256 \<and>
            length (ri_modelDigestSha256 (xo_runtimeIdentity x)) = 64 \<and>
            list_all hex_char (ri_modelDigestSha256 (xo_runtimeIdentity x))
          then Some x else None
      | _ \<Rightarrow> None)"

section \<open>The boundary before a call\<close>

definition providerNeedsRedaction :: "url_lib \<Rightarrow> provider_entry \<Rightarrow> reasoning_mode \<Rightarrow> bool" where
  "providerNeedsRedaction ul p mode =
     (let c = providerPrivacyCapabilities ul p (Some mode) in
      cp_executionLocation c \<noteq> loc_on_device \<or> cp_networkScope c = scope_external
      \<or> cp_confidentiality c \<noteq> device_local)"

definition providerGenerateOptions ::
  "url_lib \<Rightarrow> provider_entry \<Rightarrow> call_options \<Rightarrow> reasoning_mode \<Rightarrow> call_options" where
  "providerGenerateOptions ul p opts mode =
     (if \<not> providerNeedsRedaction ul p mode \<or> op_systemPrompt (co_options opts) = None then opts
      else opts \<lparr> co_options := (co_options opts) \<lparr> op_systemPrompt :=
        map_option redactPromptPii (op_systemPrompt (co_options opts)) \<rparr> \<rparr>)"

definition redact_message :: "chat_message \<Rightarrow> chat_message" where
  "redact_message m = m \<lparr> cm_content :=
     (if cm_role m = system_role then redactPromptPii (cm_content m) else cm_content m) \<rparr>"

definition providerGeneratePrompt :: "url_lib \<Rightarrow> provider_entry \<Rightarrow> prompt \<Rightarrow> reasoning_mode \<Rightarrow> prompt" where
  "providerGeneratePrompt ul p pr mode =
     (case pr of
        TextPrompt s \<Rightarrow> pr
      | ChatPrompt ms \<Rightarrow> if \<not> providerNeedsRedaction ul p mode then pr else ChatPrompt (map redact_message ms))"

definition DEFAULT_ENDPOINTS :: "ai_provider \<Rightarrow> string" where
  "DEFAULT_ENDPOINTS p = (case p of
       anthropic \<Rightarrow> ''https://api.anthropic.com''
     | openai \<Rightarrow> ''https://api.openai.com''
     | google \<Rightarrow> ''https://generativelanguage.googleapis.com''
     | ollama \<Rightarrow> ''http://127.0.0.1:11434''
     | embedded \<Rightarrow> ''local://embedded''
     | trustedrouter \<Rightarrow> ''https://api.trustedrouter.com/v1''
     | nearai \<Rightarrow> ''https://dsv4-flash.completions.near.ai/v1'')"

definition endpointIdentity :: "url_lib \<Rightarrow> provider_entry \<Rightarrow> string" where
  "endpointIdentity ul p =
     (let raw = (case pv_baseUrl p of Some b \<Rightarrow> b | None \<Rightarrow> DEFAULT_ENDPOINTS (pv_name p)) in
      case ul_parse ul raw of
        None \<Rightarrow> raw
      | Some u \<Rightarrow> url_protocol u @ ''//'' @ url_host u @
          (if ends_with (url_pathname u) ''/'' then butlast (url_pathname u) else url_pathname u))"

section \<open>The client and its environment\<close>

record llm_client =
  lc_chain :: "provider_entry list"
  lc_owner :: string
  lc_mode :: reasoning_mode

definition forReasoningMode ::
  "url_lib \<Rightarrow> jsval \<Rightarrow> jsobj list \<Rightarrow> string option \<Rightarrow> policy_error + llm_client" where
  "forReasoningMode ul mode providers userId =
     (case providersForReasoningMode ul mode providers of
        Inl e \<Rightarrow> Inl e
      | Inr (m, ps) \<Rightarrow> Inr \<lparr> lc_chain = ps,
          lc_owner = (case userId of Some u \<Rightarrow> u | None \<Rightarrow> ''shared''), lc_mode = m \<rparr>)"

datatype path_outcome = succeeded | failed | circuit_open | price_unavailable

type_synonym execution_path = "(ai_provider \<times> path_outcome) list"

datatype verification_status = status_not_applicable | required_missing | status_verified | status_failed

record execution_metadata =
  em_reasoningMode :: reasoning_mode
  em_provider :: ai_provider
  em_model :: string
  em_providerRequestId :: "string option"
  em_capabilities :: capabilities
  em_verificationStatus :: verification_status
  em_executionPath :: execution_path
  em_costPricing :: pricing

datatype trace_status = trace_on_device | trace_conventional | trace_verified

text \<open>The request of a trace: the logical input, or the bytes that crossed the verified boundary.\<close>

datatype trace_request = LogicalInput prompt generate_options | WireBytes string

record trace =
  tr_status :: trace_status
  tr_execution :: execution_metadata
  tr_endpointIdentity :: string
  tr_request :: trace_request
  tr_response :: string
  tr_zeroCost :: bool
  tr_verifierVersion :: string
  tr_verification :: "verification option"

datatype call_failure = PolicyFailure policy_code | OtherFailure

datatype call_result = Output provider_output | Failed call_failure

record llm_call =
  cl_provider :: provider_entry
  cl_prompt :: prompt
  cl_options :: call_options

text \<open>The readings of the clock in one round of the loop.\<close>

datatype clock_use = at_entry | at_price | at_breaker | at_start | at_failure | at_end

record llm_env =
  le_url :: url_lib
  le_date :: "string \<Rightarrow> int option"
  le_begin :: int
  le_clock :: "nat \<Rightarrow> clock_use \<Rightarrow> int"
  le_call :: "nat \<Rightarrow> provider_entry \<Rightarrow> prompt \<Rightarrow> call_options \<Rightarrow> call_result"
  le_stream :: "nat \<Rightarrow> provider_entry \<Rightarrow> prompt \<Rightarrow> call_options \<Rightarrow> string list \<times> call_failure option"
  le_onTrace :: "trace \<Rightarrow> call_failure option"
  le_takes :: "nat option"

record llm_state =
  lm_breakers :: "string \<Rightarrow> breaker option"
  lm_calls :: "llm_call list"
  lm_traces :: "trace list"

text \<open>
  The breakers live in a map of the module; a breaker that is not there yet is made when it is asked
  for, which nothing can tell from making it when the client is constructed.
\<close>

definition breaker_key :: "string \<Rightarrow> ai_provider \<Rightarrow> string" where
  "breaker_key userId p = userId @ '':'' @ provider_name p"

definition llm_breaker_config :: breaker_config where
  "llm_breaker_config = DEFAULT_CONFIG \<lparr> cf_failureThreshold := 3, cf_resetTimeoutMs := 60000 \<rparr>"

definition getCircuitBreaker :: "string \<Rightarrow> ai_provider \<Rightarrow> llm_state \<Rightarrow> breaker" where
  "getCircuitBreaker userId p st =
     (case lm_breakers st (breaker_key userId p) of
        Some b \<Rightarrow> b
      | None \<Rightarrow> new_breaker (''llm:'' @ breaker_key userId p) llm_breaker_config)"

definition set_breaker :: "string \<Rightarrow> ai_provider \<Rightarrow> breaker \<Rightarrow> llm_state \<Rightarrow> llm_state" where
  "set_breaker userId p b st = st \<lparr> lm_breakers := (lm_breakers st)(breaker_key userId p \<mapsto> b) \<rparr>"

definition executionMetadata ::
  "llm_env \<Rightarrow> llm_client \<Rightarrow> provider_entry \<Rightarrow> execution_path \<Rightarrow> provider_output \<Rightarrow> execution_metadata" where
  "executionMetadata env cl p path out =
     (let c = providerPrivacyCapabilities (le_url env) p (Some (lc_mode cl));
          verified = verified_part (le_date env) out
      in \<lparr> em_reasoningMode = lc_mode cl, em_provider = pv_name p,
        em_model = (case verified of Some v \<Rightarrow> vo_resolvedModel v
          | None \<Rightarrow> (case exact_part out of Some x \<Rightarrow> xo_resolvedModel x | None \<Rightarrow> pv_model p)),
        em_providerRequestId = map_option vo_providerRequestId verified,
        em_capabilities = c,
        em_verificationStatus = (if verified \<noteq> None then status_verified
          else if cp_attestationPolicy c = attestation_required then required_missing
          else status_not_applicable),
        em_executionPath = path, em_costPricing = cp_pricing c \<rparr>)"

definition canRunUnattended :: "llm_env \<Rightarrow> llm_client \<Rightarrow> provider_entry \<Rightarrow> int \<Rightarrow> bool" where
  "canRunUnattended env cl p nowMs =
     isPricingUsableForUnattended (le_date env)
       (cp_pricing (providerPrivacyCapabilities (le_url env) p (Some (lc_mode cl)))) nowMs"

text \<open>The status of a trace follows from the observed facts; facts that do not fit the mode are refused.\<close>

definition trace_status_of ::
  "execution_metadata \<Rightarrow> verified_output option \<Rightarrow> trace_status option" where
  "trace_status_of ex verified =
     (let c = em_capabilities ex in
      if em_reasoningMode ex = on_device \<and> cp_executionLocation c = loc_on_device
        \<and> (cp_networkScope c = scope_none \<or> cp_networkScope c = scope_loopback)
        \<and> cp_confidentiality c = device_local then Some trace_on_device
      else if em_reasoningMode ex = bring_your_own_provider \<and> cp_executionLocation c = loc_remote_service
        \<and> cp_networkScope c = scope_external then Some trace_conventional
      else if em_reasoningMode ex = verified_private_cloud \<and> cp_executionLocation c = loc_remote_service
        \<and> cp_networkScope c = scope_external \<and> cp_confidentiality c = attested_tee
        \<and> cp_attestationPolicy c = attestation_required \<and> em_verificationStatus ex = status_verified
        \<and> verified \<noteq> None then Some trace_verified
      else None)"

definition recordSuccessfulInference ::
  "llm_env \<Rightarrow> provider_entry \<Rightarrow> prompt \<Rightarrow> generate_options \<Rightarrow> provider_output \<Rightarrow> execution_metadata
     \<Rightarrow> llm_state \<Rightarrow> call_failure option \<times> llm_state" where
  "recordSuccessfulInference env p pr opts out ex st =
     (let verified = verified_part (le_date env) out in
      case trace_status_of ex verified of
        None \<Rightarrow> (Some (PolicyFailure cross_mode_provider), st)
      | Some status \<Rightarrow>
          let tr = \<lparr> tr_status = status, tr_execution = ex,
                tr_endpointIdentity = (case verified of Some v \<Rightarrow> vo_endpointIdentity v
                  | None \<Rightarrow> endpointIdentity (le_url env) p),
                tr_request = (case verified of Some v \<Rightarrow> WireBytes (vo_requestBytes v)
                  | None \<Rightarrow> LogicalInput pr opts),
                tr_response = (case verified of Some v \<Rightarrow> vo_responseBytes v | None \<Rightarrow> output_content out),
                tr_zeroCost = (cp_pricing (em_capabilities ex) = ZeroPrice),
                tr_verifierVersion = (case verified of Some v \<Rightarrow> vf_verifierVersion (vo_verification v)
                  | None \<Rightarrow> ''skytwin-llm-boundary-v1''),
                tr_verification = map_option vo_verification verified \<rparr>
          in (le_onTrace env tr, st \<lparr> lm_traces := lm_traces st @ [tr] \<rparr>))"

section \<open>Generate\<close>

record llm_response =
  lr_content :: string
  lr_provider :: ai_provider
  lr_model :: string
  lr_latencyMs :: int
  lr_execution :: execution_metadata
  lr_runtimeIdentity :: "runtime_identity option"

definition gate_label :: "provider_entry \<Rightarrow> path_outcome \<Rightarrow> string" where
  "gate_label p oc = provider_name (pv_name p) @
     (case oc of price_unavailable \<Rightarrow> ''(price-unavailable)'' | circuit_open \<Rightarrow> ''(circuit-open)'' | _ \<Rightarrow> [])"

text \<open>
  The part of a round before the call, the same for both walks: the price gate, then the breaker.
  The result is the reason to pass over the provider, or nothing, and the new state.
\<close>

definition entry_gate ::
  "llm_env \<Rightarrow> llm_client \<Rightarrow> generate_options \<Rightarrow> nat \<Rightarrow> provider_entry \<Rightarrow> llm_state
     \<Rightarrow> path_outcome option \<times> llm_state" where
  "entry_gate env cl opts i p st =
     (if op_invocationKind opts \<noteq> Some interactive \<and> \<not> canRunUnattended env cl p (le_clock env i at_price)
      then (Some price_unavailable, st)
      else (case canExecute (le_clock env i at_breaker) (getCircuitBreaker (lc_owner cl) (pv_name p) st) of
          (False, b) \<Rightarrow> (Some circuit_open, set_breaker (lc_owner cl) (pv_name p) b st)
        | (True, b) \<Rightarrow> (None, set_breaker (lc_owner cl) (pv_name p) b st)))"

definition call_provider ::
  "llm_env \<Rightarrow> nat \<Rightarrow> provider_entry \<Rightarrow> prompt \<Rightarrow> call_options \<Rightarrow> llm_state \<Rightarrow> call_result \<times> llm_state" where
  "call_provider env i p pr opts st =
     (le_call env i p pr opts,
      st \<lparr> lm_calls := lm_calls st @ [\<lparr> cl_provider = p, cl_prompt = pr, cl_options = opts \<rparr>] \<rparr>)"

text \<open>The end of a call: success or failure is reported to the breaker, a policy error is not.\<close>

definition breaker_success :: "llm_client \<Rightarrow> provider_entry \<Rightarrow> llm_state \<Rightarrow> llm_state" where
  "breaker_success cl p st =
     set_breaker (lc_owner cl) (pv_name p) (recordSuccess (getCircuitBreaker (lc_owner cl) (pv_name p) st)) st"

definition breaker_failure :: "llm_env \<Rightarrow> llm_client \<Rightarrow> nat \<Rightarrow> provider_entry \<Rightarrow> call_failure \<Rightarrow> llm_state \<Rightarrow> llm_state" where
  "breaker_failure env cl i p f st =
     (case f of
        PolicyFailure _ \<Rightarrow> st
      | OtherFailure \<Rightarrow> set_breaker (lc_owner cl) (pv_name p)
          (recordFailure (le_clock env i at_failure) (getCircuitBreaker (lc_owner cl) (pv_name p) st)) st)"

definition call_options_for ::
  "llm_env \<Rightarrow> llm_client \<Rightarrow> provider_entry \<Rightarrow> generate_options \<Rightarrow> number option \<Rightarrow> call_options" where
  "call_options_for env cl p opts remaining =
     providerGenerateOptions (le_url env) p
       \<lparr> co_options = (case remaining of None \<Rightarrow> opts
           | Some r \<Rightarrow> opts \<lparr> op_timeoutMs := Some (math_max (Fin 1) r) \<rparr>),
         co_baseUrl = pv_baseUrl p, co_reasoningMode = lc_mode cl \<rparr> (lc_mode cl)"

text \<open>One call of the loop body's \<open>try\<close>: the response, or the failure that was caught.\<close>

definition try_generate ::
  "llm_env \<Rightarrow> llm_client \<Rightarrow> prompt \<Rightarrow> generate_options \<Rightarrow> number option \<Rightarrow> nat \<Rightarrow> provider_entry
     \<Rightarrow> execution_path \<Rightarrow> llm_state \<Rightarrow> (call_failure + llm_response) \<times> llm_state" where
  "try_generate env cl pr opts remaining i p path st =
     (case call_provider env i p (providerGeneratePrompt (le_url env) p pr (lc_mode cl))
             (call_options_for env cl p opts remaining) st of
        (Failed f, st1) \<Rightarrow> (Inl f, breaker_failure env cl i p f st1)
      | (Output out, st1) \<Rightarrow>
          let ex = executionMetadata env cl p (path @ [(pv_name p, succeeded)]) out in
          (case recordSuccessfulInference env p pr opts out ex st1 of
             (Some f, st2) \<Rightarrow> (Inl f, breaker_failure env cl i p f st2)
           | (None, st2) \<Rightarrow>
               (Inr \<lparr> lr_content = output_content out, lr_provider = pv_name p, lr_model = em_model ex,
                  lr_latencyMs = le_clock env i at_end - le_clock env i at_start, lr_execution = ex,
                  lr_runtimeIdentity = map_option xo_runtimeIdentity (exact_part out) \<rparr>,
                breaker_success cl p st2)))"

definition deadline_passed :: "number option \<Rightarrow> bool" where
  "deadline_passed remaining = (case remaining of None \<Rightarrow> False | Some r \<Rightarrow> num_le r (Fin 0))"

fun walk ::
  "llm_env \<Rightarrow> llm_client \<Rightarrow> prompt \<Rightarrow> generate_options \<Rightarrow> number option \<Rightarrow> nat \<Rightarrow> provider_entry list
     \<Rightarrow> string list \<Rightarrow> execution_path \<Rightarrow> llm_state \<Rightarrow> (string list + llm_response) \<times> llm_state" where
  "walk env cl pr opts deadline i [] attempted path st = (Inl attempted, st)"
| "walk env cl pr opts deadline i (p # ps) attempted path st =
     (let remaining = map_option (\<lambda>d. num_sub d (Fin (of_int (le_clock env i at_entry)))) deadline in
      if deadline_passed remaining then (Inl attempted, st)
      else (case entry_gate env cl opts i p st of
          (Some oc, st1) \<Rightarrow>
            walk env cl pr opts deadline (Suc i) ps (attempted @ [gate_label p oc]) (path @ [(pv_name p, oc)]) st1
        | (None, st1) \<Rightarrow>
            (case try_generate env cl pr opts remaining i p path st1 of
               (Inr r, st2) \<Rightarrow> (Inr r, st2)
             | (Inl _, st2) \<Rightarrow>
                 walk env cl pr opts deadline (Suc i) ps (attempted @ [gate_label p failed])
                   (path @ [(pv_name p, failed)]) st2)))"

definition invocation_deadline :: "llm_env \<Rightarrow> generate_options \<Rightarrow> number option" where
  "invocation_deadline env opts =
     map_option (\<lambda>t. num_add (Fin (of_int (le_begin env))) (math_max (Fin 1) (math_trunc t))) (op_timeoutMs opts)"

definition llm_generate ::
  "llm_env \<Rightarrow> llm_client \<Rightarrow> prompt \<Rightarrow> generate_options \<Rightarrow> llm_state \<Rightarrow> (string list + llm_response) \<times> llm_state" where
  "llm_generate env cl pr opts st =
     walk env cl pr opts (invocation_deadline env opts) 0 (lc_chain cl) [] [] st"

section \<open>Streams\<close>

datatype stream_event = Chunk string | Done llm_response

datatype stream_end =
    StreamComplete
  | StreamLeft
  | StreamBroken call_failure
  | StreamAllFailed "string list"

text \<open>Only Anthropic streams natively; the other adapters yield their whole answer as one chunk.\<close>

definition provider_stream ::
  "llm_env \<Rightarrow> nat \<Rightarrow> provider_entry \<Rightarrow> prompt \<Rightarrow> call_options \<Rightarrow> string list \<times> call_failure option" where
  "provider_stream env i p pr opts =
     (if pv_name p = anthropic then le_stream env i p pr opts
      else (case le_call env i p pr opts of
          Failed f \<Rightarrow> ([], Some f)
        | Output out \<Rightarrow> (if output_content out = [] then [] else [output_content out], None)))"

text \<open>The consumer takes a number of events and then leaves, or takes them all.\<close>

definition leaves_within :: "llm_env \<Rightarrow> nat \<Rightarrow> bool" where
  "leaves_within env n = (case le_takes env of None \<Rightarrow> False | Some k \<Rightarrow> k \<le> n)"

definition taken :: "llm_env \<Rightarrow> stream_event list \<Rightarrow> stream_event list" where
  "taken env es = (case le_takes env of None \<Rightarrow> es | Some k \<Rightarrow> take k es)"

text \<open>
  The \<open>try\<close> of a stream's loop body. What is left of it: the events, and how it ended; an
  end of \<open>None\<close> is a failure before the first chunk, on which the loop goes on.
\<close>

definition finish_stream ::
  "llm_env \<Rightarrow> llm_client \<Rightarrow> prompt \<Rightarrow> generate_options \<Rightarrow> nat \<Rightarrow> provider_entry \<Rightarrow> execution_path
     \<Rightarrow> provider_output \<Rightarrow> bool \<Rightarrow> string list \<Rightarrow> llm_state
     \<Rightarrow> stream_event list \<times> stream_end option \<times> llm_state" where
  "finish_stream env cl pr opts i p path out buffered chunks st =
     (let ex = executionMetadata env cl p (path @ [(pv_name p, succeeded)]) out in
      case recordSuccessfulInference env p pr opts out ex st of
        (Some f, st1) \<Rightarrow>
          if \<not> buffered \<and> chunks \<noteq> []
          then (map Chunk chunks, Some (StreamBroken f), breaker_failure env cl i p f st1)
          else ([], None, breaker_failure env cl i p f st1)
      | (None, st1) \<Rightarrow>
          let es = map Chunk chunks @ [Done \<lparr> lr_content = concat chunks, lr_provider = pv_name p,
                lr_model = em_model ex, lr_latencyMs = le_clock env i at_end - le_clock env i at_start,
                lr_execution = ex, lr_runtimeIdentity = None \<rparr>]
          in (taken env es, Some (if leaves_within env (length es) then StreamLeft else StreamComplete),
              breaker_success cl p st1))"

definition try_stream ::
  "llm_env \<Rightarrow> llm_client \<Rightarrow> prompt \<Rightarrow> generate_options \<Rightarrow> nat \<Rightarrow> provider_entry \<Rightarrow> execution_path \<Rightarrow> llm_state
     \<Rightarrow> stream_event list \<times> stream_end option \<times> llm_state" where
  "try_stream env cl pr opts i p path st =
     (let pr' = providerGeneratePrompt (le_url env) p pr (lc_mode cl);
          opts' = call_options_for env cl p opts None;
          (called, st1) = call_provider env i p pr' opts' st
      in if pv_name p = trustedrouter \<or> pv_name p = nearai then
           (case called of
              Failed f \<Rightarrow> ([], None, breaker_failure env cl i p f st1)
            | Output out \<Rightarrow>
                if verified_part (le_date env) out = None
                then ([], None, breaker_failure env cl i p (PolicyFailure verification_adapter_required) st1)
                else finish_stream env cl pr opts i p path out True
                       (if output_content out = [] then [] else [output_content out]) st1)
         else (let (raw, failure) = provider_stream env i p pr' opts'; chunks = filter (\<lambda>c. c \<noteq> []) raw in
           if chunks \<noteq> [] \<and> leaves_within env (length chunks)
           then (taken env (map Chunk chunks), Some StreamLeft, st1)
           else (case failure of
               Some f \<Rightarrow>
                 if chunks \<noteq> [] then (map Chunk chunks, Some (StreamBroken f), breaker_failure env cl i p f st1)
                 else ([], None, breaker_failure env cl i p f st1)
             | None \<Rightarrow> finish_stream env cl pr opts i p path (PlainOutput (concat chunks)) False chunks st1)))"

fun walk_stream ::
  "llm_env \<Rightarrow> llm_client \<Rightarrow> prompt \<Rightarrow> generate_options \<Rightarrow> nat \<Rightarrow> provider_entry list
     \<Rightarrow> string list \<Rightarrow> execution_path \<Rightarrow> llm_state \<Rightarrow> stream_event list \<times> stream_end \<times> llm_state" where
  "walk_stream env cl pr opts i [] attempted path st = ([], StreamAllFailed attempted, st)"
| "walk_stream env cl pr opts i (p # ps) attempted path st =
     (case entry_gate env cl opts i p st of
        (Some oc, st1) \<Rightarrow>
          walk_stream env cl pr opts (Suc i) ps (attempted @ [gate_label p oc]) (path @ [(pv_name p, oc)]) st1
      | (None, st1) \<Rightarrow>
          (case try_stream env cl pr opts i p path st1 of
             (es, Some e, st2) \<Rightarrow> (es, e, st2)
           | (_, None, st2) \<Rightarrow>
               walk_stream env cl pr opts (Suc i) ps (attempted @ [gate_label p failed])
                 (path @ [(pv_name p, failed)]) st2))"

text \<open>A consumer that takes no event never starts the generator.\<close>

definition generateStream ::
  "llm_env \<Rightarrow> llm_client \<Rightarrow> prompt \<Rightarrow> generate_options \<Rightarrow> llm_state \<Rightarrow> stream_event list \<times> stream_end \<times> llm_state" where
  "generateStream env cl pr opts st =
     (if le_takes env = Some 0 then ([], StreamLeft, st)
      else walk_stream env cl pr opts 0 (lc_chain cl) [] [] st)"

section \<open>Probes and views\<close>

datatype test_error = TestPolicy policy_error | TestFailed call_failure

definition test_options :: generate_options where
  "test_options = \<lparr> op_temperature = Some (Fin 0), op_maxTokens = Some (Fin 10), op_systemPrompt = None,
     op_timeoutMs = None, op_invocationKind = None, op_jsonSchema = None, op_disableReasoning = None,
     op_requireExactRuntimeIdentity = None \<rparr>"

definition testProviderForReasoningMode ::
  "llm_env \<Rightarrow> jsval \<Rightarrow> jsobj \<Rightarrow> test_error + int \<times> string" where
  "testProviderForReasoningMode env mode raw =
     (case providersForReasoningMode (le_url env) mode [raw] of
        Inl e \<Rightarrow> Inl (TestPolicy e)
      | Inr (m, ps) \<Rightarrow>
          let p = hd ps;
              opts = \<lparr> co_options = test_options, co_baseUrl = pv_baseUrl p, co_reasoningMode = m \<rparr>
          in (case le_call env 0 p (TextPrompt ''Respond with exactly: OK'') opts of
                Failed f \<Rightarrow> Inl (TestFailed f)
              | Output out \<Rightarrow>
                  if m = verified_private_cloud \<and> verified_part (le_date env) out = None
                  then Inl (TestPolicy (verification_adapter_required, Some (pv_name p)))
                  else Inr (le_clock env 0 at_end - le_clock env 0 at_start,
                    case verified_part (le_date env) out of Some v \<Rightarrow> vo_resolvedModel v | None \<Rightarrow> pv_model p)))"

definition hasProviders :: "llm_client \<Rightarrow> bool" where
  "hasProviders cl = (0 < length (lc_chain cl))"

definition getProviderPricingSnapshot :: "url_lib \<Rightarrow> llm_client \<Rightarrow> (ai_provider \<times> pricing) list" where
  "getProviderPricingSnapshot ul cl =
     map (\<lambda>p. (pv_name p, cp_pricing (providerPrivacyCapabilities ul p (Some (lc_mode cl))))) (lc_chain cl)"

end
