(* ===== verification/LlmTheorems.thy ===== *)
theory LlmTheorems
  imports LlmClient "HOL-Library.Sublist"
begin

text \<open>
  What holds of the language model client over any chain, any state of the breakers and any behaviour
  of the adapters: where prompts go and what is taken out of them, that unattended calls stay on
  the device, the deadline, which provider answers, that the confidential mode only returns
  verified output, the protocol of a stream, and how a policy error during the probe of a breaker
  shuts a provider out for good.
\<close>

section \<open>The calls of a walk\<close>

definition call_for ::
  "llm_env \<Rightarrow> llm_client \<Rightarrow> prompt \<Rightarrow> generate_options \<Rightarrow> provider_entry \<Rightarrow> number option \<Rightarrow> llm_call" where
  "call_for env cl pr opts p remaining =
     \<lparr> cl_provider = p, cl_prompt = providerGeneratePrompt (le_url env) p pr (lc_mode cl),
       cl_options = call_options_for env cl p opts remaining \<rparr>"

definition may_run :: "llm_env \<Rightarrow> llm_client \<Rightarrow> generate_options \<Rightarrow> provider_entry \<Rightarrow> bool" where
  "may_run env cl opts p \<longleftrightarrow> op_invocationKind opts = Some interactive \<or> (\<exists>t. canRunUnattended env cl p t)"

text \<open>A call that the walk may make, with what is left of the budget.\<close>

definition call_ok ::
  "llm_env \<Rightarrow> llm_client \<Rightarrow> prompt \<Rightarrow> generate_options \<Rightarrow> number option \<Rightarrow> llm_call \<Rightarrow> bool" where
  "call_ok env cl pr opts deadline c \<longleftrightarrow> (\<exists>i p. let remaining =
       map_option (\<lambda>d. num_sub d (Fin (of_int (le_clock env i at_entry)))) deadline in
     c = call_for env cl pr opts p remaining \<and> may_run env cl opts p \<and> \<not> deadline_passed remaining)"

lemma set_breaker_same [simp]:
  "lm_calls (set_breaker u p b st) = lm_calls st" "lm_traces (set_breaker u p b st) = lm_traces st"
  by (simp_all add: set_breaker_def)

lemma breaker_ends_same [simp]:
  "lm_calls (breaker_success cl p st) = lm_calls st" "lm_traces (breaker_success cl p st) = lm_traces st"
  "lm_calls (breaker_failure env cl i p f st) = lm_calls st" "lm_traces (breaker_failure env cl i p f st) = lm_traces st"
  by (simp_all add: breaker_success_def breaker_failure_def split: call_failure.split)

lemma entry_gate_same [simp]:
  "lm_calls (snd (entry_gate env cl opts i p st)) = lm_calls st"
  "lm_traces (snd (entry_gate env cl opts i p st)) = lm_traces st"
  by (simp_all add: entry_gate_def split: prod.split bool.split)

lemma entry_gate_calls:
  assumes "entry_gate env cl opts i p st = (oc, st')"
  shows "lm_calls st' = lm_calls st" "lm_traces st' = lm_traces st"
  using entry_gate_same [of env cl opts i p st] assms by simp_all

lemma entry_gate_open: "entry_gate env cl opts i p st = (None, st') \<Longrightarrow> may_run env cl opts p"
  by (auto simp: entry_gate_def may_run_def split: if_splits prod.splits bool.splits)

lemma entry_gate_oc: "entry_gate env cl opts i p st = (Some oc, st') \<Longrightarrow> oc = price_unavailable \<or> oc = circuit_open"
  by (auto simp: entry_gate_def split: if_splits prod.splits bool.splits)

lemma record_calls [simp]: "lm_calls (snd (recordSuccessfulInference env p pr opts out ex st)) = lm_calls st"
  by (simp add: recordSuccessfulInference_def Let_def split: option.split)

lemma record_callsD: "recordSuccessfulInference env p pr opts out ex st = (f, st') \<Longrightarrow> lm_calls st' = lm_calls st"
  using record_calls [of env p pr opts out ex st] by simp

lemma try_generate_calls:
  "lm_calls (snd (try_generate env cl pr opts remaining i p path st)) = lm_calls st @ [call_for env cl pr opts p remaining]"
  by (auto simp: try_generate_def call_provider_def call_for_def Let_def
      split: call_result.split prod.split option.split dest!: record_callsD)

lemma try_generateD:
  "try_generate env cl pr opts remaining i p path st = (r, st') \<Longrightarrow>
   lm_calls st' = lm_calls st @ [call_for env cl pr opts p remaining]"
  using try_generate_calls [of env cl pr opts remaining i p path st] by simp

lemma walk_calls:
  "\<exists>cs. lm_calls (snd (walk env cl pr opts deadline i ps attempted path st)) = lm_calls st @ cs
     \<and> list_all (call_ok env cl pr opts deadline) cs \<and> subseq (map cl_provider cs) ps"
proof (induction ps arbitrary: i attempted path st)
  case (Cons p ps)
  define remaining where "remaining = map_option (\<lambda>d. num_sub d (Fin (of_int (le_clock env i at_entry)))) deadline"
  note step = walk.simps(2) [of env cl pr opts deadline i p ps attempted path st, folded remaining_def, unfolded Let_def]
  show ?case
  proof (cases "deadline_passed remaining")
    case True
    then show ?thesis by (intro exI [of _ "[]"]) (simp add: step list_emb_Cons del: walk.simps(2))
  next
    case False
    obtain oc st1 where g: "entry_gate env cl opts i p st = (oc, st1)" by fastforce
    show ?thesis
    proof (cases oc)
      case (Some r)
      obtain cs where "lm_calls (snd (walk env cl pr opts deadline (Suc i) ps (attempted @ [gate_label p r])
          (path @ [(pv_name p, r)]) st1)) = lm_calls st1 @ cs"
        "list_all (call_ok env cl pr opts deadline) cs" "subseq (map cl_provider cs) ps"
        using Cons.IH by blast
      then show ?thesis
        using False g Some entry_gate_calls [OF g] by (intro exI [of _ cs]) (simp add: step list_emb_Cons del: walk.simps(2))
    next
      case None
      obtain r st2 where t: "try_generate env cl pr opts remaining i p path st1 = (r, st2)" by fastforce
      have ok: "call_ok env cl pr opts deadline (call_for env cl pr opts p remaining)"
        using False entry_gate_open g None unfolding call_ok_def remaining_def Let_def by blast
      have calls: "lm_calls st2 = lm_calls st @ [call_for env cl pr opts p remaining]"
        using try_generateD [OF t] entry_gate_calls [OF g] by simp
      have name: "cl_provider (call_for env cl pr opts p remaining) = p" by (simp add: call_for_def)
      show ?thesis
      proof (cases r)
        case (Inr x)
        then show ?thesis using False g None t calls ok name
          by (intro exI [of _ "[call_for env cl pr opts p remaining]"]) (simp add: step list_emb_Cons del: walk.simps(2))
      next
        case (Inl f)
        obtain cs where "lm_calls (snd (walk env cl pr opts deadline (Suc i) ps (attempted @ [gate_label p failed])
            (path @ [(pv_name p, failed)]) st2)) = lm_calls st2 @ cs"
          "list_all (call_ok env cl pr opts deadline) cs" "subseq (map cl_provider cs) ps"
          using Cons.IH by blast
        then show ?thesis using False g None t Inl calls ok name
          by (intro exI [of _ "call_for env cl pr opts p remaining # cs"]) (simp add: step list_emb_Cons del: walk.simps(2))
      qed
    qed
  qed
qed simp

lemma generate_calls:
  "\<exists>cs. lm_calls (snd (llm_generate env cl pr opts st)) = lm_calls st @ cs
     \<and> list_all (call_ok env cl pr opts (invocation_deadline env opts)) cs
     \<and> subseq (map cl_provider cs) (lc_chain cl)"
  unfolding llm_generate_def by (rule walk_calls)

lemma finish_stream_calls:
  "lm_calls (snd (snd (finish_stream env cl pr opts i p path out buffered chunks st))) = lm_calls st"
  by (auto simp: finish_stream_def Let_def split: prod.split option.split dest!: record_callsD)

lemma try_stream_calls:
  "lm_calls (snd (snd (try_stream env cl pr opts i p path st))) = lm_calls st @ [call_for env cl pr opts p None]"
  by (auto simp: try_stream_def call_provider_def call_for_def Let_def finish_stream_calls
      split: call_result.split prod.split option.split)

lemma walk_stream_calls:
  "\<exists>cs. lm_calls (snd (snd (walk_stream env cl pr opts i ps attempted path st))) = lm_calls st @ cs
     \<and> list_all (call_ok env cl pr opts None) cs \<and> subseq (map cl_provider cs) ps"
proof (induction ps arbitrary: i attempted path st)
  case (Cons p ps)
  obtain oc st1 where g: "entry_gate env cl opts i p st = (oc, st1)" by fastforce
  show ?case
  proof (cases oc)
    case (Some r)
    obtain cs where "lm_calls (snd (snd (walk_stream env cl pr opts (Suc i) ps (attempted @ [gate_label p r])
        (path @ [(pv_name p, r)]) st1))) = lm_calls st1 @ cs"
      "list_all (call_ok env cl pr opts None) cs" "subseq (map cl_provider cs) ps"
      using Cons.IH by blast
    then show ?thesis using g Some entry_gate_calls [OF g] by (intro exI [of _ cs]) (simp add: list_emb_Cons)
  next
    case None
    obtain es e st2 where t: "try_stream env cl pr opts i p path st1 = (es, e, st2)" by (metis prod_cases3)
    have ok: "call_ok env cl pr opts None (call_for env cl pr opts p None)"
      using entry_gate_open g None unfolding call_ok_def deadline_passed_def by auto
    have calls: "lm_calls st2 = lm_calls st @ [call_for env cl pr opts p None]"
      using try_stream_calls [of env cl pr opts i p path st1] entry_gate_calls [OF g] by (simp add: t)
    have name: "cl_provider (call_for env cl pr opts p None) = p" by (simp add: call_for_def)
    show ?thesis
    proof (cases e)
      case (Some x)
      then show ?thesis using g None t calls ok name by (intro exI [of _ "[call_for env cl pr opts p None]"]) simp
    next
      case e: None
      obtain cs where "lm_calls (snd (snd (walk_stream env cl pr opts (Suc i) ps (attempted @ [gate_label p failed])
          (path @ [(pv_name p, failed)]) st2))) = lm_calls st2 @ cs"
        "list_all (call_ok env cl pr opts None) cs" "subseq (map cl_provider cs) ps"
        using Cons.IH by blast
      then show ?thesis using g None t e calls ok name
        by (intro exI [of _ "call_for env cl pr opts p None # cs"]) simp
    qed
  qed
qed simp

lemma stream_calls:
  "\<exists>cs. lm_calls (snd (snd (generateStream env cl pr opts st))) = lm_calls st @ cs
     \<and> list_all (call_ok env cl pr opts None) cs \<and> subseq (map cl_provider cs) (lc_chain cl)"
  using walk_stream_calls [of env cl pr opts 0 "lc_chain cl" "[]" "[]" st]
  by (auto simp: generateStream_def)

section \<open>Where prompts go\<close>

definition no_address :: "string \<Rightarrow> bool" where
  "no_address t \<longleftrightarrow> \<not> (\<exists>u w v. t = u @ w @ v \<and> is_address w)"

definition system_texts :: "llm_call \<Rightarrow> string list" where
  "system_texts c =
     (case op_systemPrompt (co_options (cl_options c)) of None \<Rightarrow> [] | Some t \<Rightarrow> [t]) @
     (case cl_prompt c of TextPrompt _ \<Rightarrow> []
      | ChatPrompt ms \<Rightarrow> map cm_content (filter (\<lambda>m. cm_role m = system_role) ms))"

lemma redacted_no_address: "no_address (redactPromptPii t)"
  using redacted_clean address_chars [of "[]"]
  by (auto simp: no_address_def redactPromptPii_def replace_all_def split: if_splits)

lemma needs_redaction: "admissible ul mode p \<Longrightarrow> providerNeedsRedaction ul p mode \<longleftrightarrow> mode \<noteq> on_device"
  using admissible_capabilities [of ul mode p] by (auto simp: providerNeedsRedaction_def Let_def)

lemma client_admits:
  assumes "forReasoningMode ul mode raws userId = Inr cl" "p \<in> set (lc_chain cl)"
  shows "admissible ul (lc_mode cl) p"
proof -
  from assms(1) have "providersForReasoningMode ul mode raws = Inr (lc_mode cl, lc_chain cl)"
    by (auto simp: forReasoningMode_def split: sum.splits)
  from admittedD(4) [OF this assms(2)] show ?thesis by (simp add: admissible_iff)
qed

text \<open>The calls of both walks: of a provider of the chain, and as the gates let them.\<close>

definition calls_made :: "llm_env \<Rightarrow> llm_client \<Rightarrow> prompt \<Rightarrow> generate_options \<Rightarrow> llm_state \<Rightarrow> llm_call list" where
  "calls_made env cl pr opts st = lm_calls (snd (llm_generate env cl pr opts st)) @
     lm_calls (snd (snd (generateStream env cl pr opts st)))"

lemma subseq_set: "subseq xs ys \<Longrightarrow> x \<in> set xs \<Longrightarrow> x \<in> set ys"
  by (erule (1) list_emb_set) auto

lemma calls_madeD:
  assumes "lm_calls st = []" "c \<in> set (calls_made env cl pr opts st)"
  shows "\<exists>p remaining. p \<in> set (lc_chain cl) \<and> c = call_for env cl pr opts p remaining \<and> may_run env cl opts p"
proof -
  obtain cs where cs: "lm_calls (snd (llm_generate env cl pr opts st)) = cs"
      "list_all (call_ok env cl pr opts (invocation_deadline env opts)) cs" "subseq (map cl_provider cs) (lc_chain cl)"
    using generate_calls [of env cl pr opts st] assms(1) by auto
  obtain ds where ds: "lm_calls (snd (snd (generateStream env cl pr opts st))) = ds"
      "list_all (call_ok env cl pr opts None) ds" "subseq (map cl_provider ds) (lc_chain cl)"
    using stream_calls [of env cl pr opts st] assms(1) by auto
  have "c \<in> set cs \<union> set ds" using assms(2) cs(1) ds(1) by (simp add: calls_made_def)
  then have "cl_provider c \<in> set (map cl_provider cs) \<union> set (map cl_provider ds)"
    "\<exists>dl. call_ok env cl pr opts dl c"
    using cs(2) ds(2) by (auto simp: list_all_iff)
  then have "\<exists>dl. call_ok env cl pr opts dl c" "cl_provider c \<in> set (lc_chain cl)"
    using subseq_set [OF cs(3)] subseq_set [OF ds(3)] by blast+
  then show ?thesis unfolding call_ok_def Let_def by (auto simp: call_for_def)
qed

text \<open>C11: Where prompts go: every call of generate and generateStream is to a provider that the mode admits. In
  the on-device mode it is the embedded model or a local model of the loopback Ollama, and gets the
  prompt as it is; in the other modes no system text that leaves the device has an address in it.\<close>

theorem prompts_in_bounds:
  assumes "forReasoningMode (le_url env) mode raws userId = Inr cl" "lm_calls st = []"
    and "c \<in> set (calls_made env cl pr opts st)"
  shows "admissible (le_url env) (lc_mode cl) (cl_provider c) \<and>
    (if lc_mode cl = on_device
     then cl_prompt c = pr \<and> op_systemPrompt (co_options (cl_options c)) = op_systemPrompt opts
     else list_all no_address (system_texts c))"
proof -
  obtain p remaining where p: "p \<in> set (lc_chain cl)" and c: "c = call_for env cl pr opts p remaining"
    using calls_madeD [OF assms(2,3)] by blast
  have a: "admissible (le_url env) (lc_mode cl) p" by (rule client_admits [OF assms(1) p])
  have prompt: "cl_prompt c = providerGeneratePrompt (le_url env) p pr (lc_mode cl)"
    and options: "cl_options c = call_options_for env cl p opts remaining" and name: "cl_provider c = p"
    by (simp_all add: c call_for_def)
  show ?thesis
  proof (cases "lc_mode cl = on_device")
    case True
    then show ?thesis using a needs_redaction [OF a]
      by (simp add: prompt options name providerGeneratePrompt_def call_options_for_def providerGenerateOptions_def
          split: prompt.split option.split)
  next
    case False
    have "list_all no_address (map cm_content (filter (\<lambda>m. cm_role m = system_role) (map redact_message ms)))" for ms
      by (auto simp: list_all_iff redact_message_def redacted_no_address)
    moreover have "op_systemPrompt (co_options (cl_options c)) = map_option redactPromptPii (op_systemPrompt opts)"
      using False needs_redaction [OF a]
      by (cases remaining) (auto simp: options call_options_for_def providerGenerateOptions_def)
    ultimately show ?thesis using False a needs_redaction [OF a]
      by (auto simp: prompt name system_texts_def providerGeneratePrompt_def redacted_no_address
          split: prompt.split option.split)
  qed
qed

text \<open>C12: Unattended calls never leave the device and never spend: a call that no user asked for interactively is
  only ever made in the on-device mode, where every provider has zero price.\<close>

theorem unattended_on_device:
  assumes "forReasoningMode (le_url env) mode raws userId = Inr cl" "lm_calls st = []"
    and "op_invocationKind opts \<noteq> Some interactive" "c \<in> set (calls_made env cl pr opts st)"
  shows "lc_mode cl = on_device \<and>
    cp_pricing (providerPrivacyCapabilities (le_url env) (cl_provider c) (Some (lc_mode cl))) = ZeroPrice"
proof -
  obtain p remaining where p: "p \<in> set (lc_chain cl)" and c: "c = call_for env cl pr opts p remaining"
    and run: "may_run env cl opts p"
    using calls_madeD [OF assms(2,4)] by blast
  note price = admissible_capabilities(6) [OF client_admits [OF assms(1) p]]
  have "lc_mode cl = on_device"
    using run assms(3) price
    by (auto simp: may_run_def canRunUnattended_def isPricingUsableForUnattended_def unknown_price_def split: if_splits)
  then show ?thesis using price by (simp add: c call_for_def)
qed

section \<open>The budget\<close>

lemma math_trunc_int: "\<exists>k. math_trunc (Fin t) = Fin (of_int k)"
  by auto

text \<open>A timeout is a budget of the whole invocation: every provider is called at most once, in the order of
  the chain, and a call is made before the deadline with exactly the time that is left until then.\<close>

theorem timeout_is_shared:
  assumes "lm_calls st = []" "op_timeoutMs opts = Some (Fin t)"
    and "cs = lm_calls (snd (llm_generate env cl pr opts st))" "c \<in> set cs"
  shows "subseq (map cl_provider cs) (lc_chain cl) \<and>
    (\<exists>i r. op_timeoutMs (co_options (cl_options c)) = Some (Fin (of_int r)) \<and> 1 \<le> r \<and>
       math_trunc (math_max (Fin 1) (Fin t)) = Fin (of_int (le_clock env i at_entry + r - le_begin env)))"
proof -
  define T where "T = (if 0 \<le> t then \<lfloor>t\<rfloor> else \<lceil>t\<rceil>)"
  define D where "D = le_begin env + max 1 T"
  have T: "math_trunc (Fin t) = Fin (of_int T)" by (simp add: T_def)
  have whole: "math_trunc (math_max (Fin 1) (Fin t)) = Fin (of_int (D - le_begin env))"
  proof (cases "1 \<le> t")
    case True
    then have "1 \<le> \<lfloor>t\<rfloor>" by (simp add: le_floor_iff)
    then show ?thesis using True by (simp add: T_def D_def max_def)
  next
    case False
    then have "T \<le> 0" by (auto simp: T_def floor_le_iff ceiling_le_iff not_le)
    then show ?thesis using False by (simp add: D_def max_def)
  qed
  have "invocation_deadline env opts = Some (Fin (of_int D))"
    using assms(2) T by (simp add: invocation_deadline_def max_def D_def)
  then have sub: "subseq (map cl_provider cs) (lc_chain cl)" and "call_ok env cl pr opts (Some (Fin (of_int D))) c"
    using generate_calls [of env cl pr opts st] assms(1,3,4) by (auto simp: list_all_iff)
  then obtain i p where c: "c = call_for env cl pr opts p (Some (num_sub (Fin (of_int D)) (Fin (of_int (le_clock env i at_entry)))))"
    and left: "\<not> deadline_passed (Some (num_sub (Fin (of_int D)) (Fin (of_int (le_clock env i at_entry)))))"
    unfolding call_ok_def Let_def option.map by blast
  let ?r = "D - le_clock env i at_entry"
  have num: "num_sub (Fin (of_int D)) (Fin (of_int (le_clock env i at_entry))) = Fin (of_int ?r)" by simp
  have r: "1 \<le> ?r" using left by (simp add: num deadline_passed_def del: of_int_diff num_sub_Fin)
  have "op_timeoutMs (co_options (cl_options c)) = Some (math_max (Fin 1) (Fin (of_int ?r)))"
    by (simp add: c num call_for_def call_options_for_def providerGenerateOptions_def del: of_int_diff num_sub_Fin math_max_Fin)
  also have "math_max (Fin 1) (Fin (of_int ?r)) = Fin (of_int ?r)"
    using r by (simp add: max_def del: of_int_diff)
  finally have "op_timeoutMs (co_options (cl_options c)) = Some (Fin (of_int ?r))" .
  moreover have "le_clock env i at_entry + ?r = D" by simp
  ultimately show ?thesis using sub r whole by metis
qed

section \<open>Which provider answers\<close>

lemma record_ok:
  assumes "recordSuccessfulInference env p pr opts out ex st = (None, st')"
  shows "\<exists>tr. lm_traces st' = lm_traces st @ [tr] \<and> tr_execution tr = ex \<and> le_onTrace env tr = None \<and>
    trace_status_of ex (verified_part (le_date env) out) = Some (tr_status tr) \<and>
    tr_verification tr = map_option vo_verification (verified_part (le_date env) out)"
  using assms by (auto simp: recordSuccessfulInference_def Let_def split: option.splits)

lemma record_verified:
  assumes "recordSuccessfulInference env p pr opts out ex st = (None, st')" "verified_part (le_date env) out = Some v"
  shows "\<exists>tr. lm_traces st' = lm_traces st @ [tr] \<and> tr_execution tr = ex \<and> le_onTrace env tr = None \<and>
    trace_status_of ex (Some v) = Some (tr_status tr) \<and> tr_verification tr = Some (vo_verification v) \<and>
    tr_request tr = WireBytes (vo_requestBytes v) \<and> tr_response tr = vo_responseBytes v \<and>
    tr_endpointIdentity tr = vo_endpointIdentity v"
  using assms by (auto simp: recordSuccessfulInference_def Let_def split: option.splits)

text \<open>An answer of a provider: its output is accepted and recorded before it is returned.\<close>

definition answered ::
  "llm_env \<Rightarrow> llm_client \<Rightarrow> prompt \<Rightarrow> generate_options \<Rightarrow> execution_path \<Rightarrow> provider_entry \<Rightarrow> provider_output
     \<Rightarrow> llm_response \<Rightarrow> trace \<Rightarrow> bool" where
  "answered env cl pr opts path p out r tr \<longleftrightarrow>
     lr_content r = output_content out \<and> lr_provider r = pv_name p \<and>
     lr_execution r = executionMetadata env cl p (path @ [(pv_name p, succeeded)]) out \<and>
     lr_model r = em_model (lr_execution r) \<and> tr_execution tr = lr_execution r \<and> le_onTrace env tr = None \<and>
     trace_status_of (lr_execution r) (verified_part (le_date env) out) = Some (tr_status tr) \<and>
     tr_verification tr = map_option vo_verification (verified_part (le_date env) out)"

lemma try_generate_answer:
  assumes "try_generate env cl pr opts remaining i p path st = (Inr r, st')"
  shows "\<exists>out tr. le_call env i p (cl_prompt (call_for env cl pr opts p remaining))
      (cl_options (call_for env cl pr opts p remaining)) = Output out \<and>
    answered env cl pr opts path p out r tr \<and> lm_traces st' = lm_traces st @ [tr]"
proof -
  obtain out st2 where out: "le_call env i p (cl_prompt (call_for env cl pr opts p remaining))
      (cl_options (call_for env cl pr opts p remaining)) = Output out"
    and rec: "recordSuccessfulInference env p pr opts out (executionMetadata env cl p (path @ [(pv_name p, succeeded)]) out)
      (st \<lparr> lm_calls := lm_calls st @ [call_for env cl pr opts p remaining] \<rparr>) = (None, st2)"
    and r: "st' = breaker_success cl p st2" "lr_content r = output_content out" "lr_provider r = pv_name p"
      "lr_execution r = executionMetadata env cl p (path @ [(pv_name p, succeeded)]) out"
      "lr_model r = em_model (lr_execution r)"
    using assms
    by (auto simp: try_generate_def call_provider_def call_for_def Let_def split: call_result.splits prod.splits option.splits)
  from record_ok [OF rec] obtain tr where "lm_traces st2 = lm_traces st @ [tr]"
      "tr_execution tr = lr_execution r" "le_onTrace env tr = None"
      "trace_status_of (lr_execution r) (verified_part (le_date env) out) = Some (tr_status tr)"
      "tr_verification tr = map_option vo_verification (verified_part (le_date env) out)"
    by (auto simp: r(4))
  then show ?thesis using out r by (auto simp: answered_def)
qed

text \<open>What the walk passes over before the answer.\<close>

lemma walk_answer:
  "walk env cl pr opts deadline i ps attempted path st = (Inr r, st') \<Longrightarrow>
   \<exists>n ocs remaining out tr. n < length ps \<and> length ocs = n \<and> succeeded \<notin> set ocs \<and>
     le_call env (i + n) (ps ! n) (cl_prompt (call_for env cl pr opts (ps ! n) remaining))
       (cl_options (call_for env cl pr opts (ps ! n) remaining)) = Output out \<and>
     answered env cl pr opts (path @ zip (map pv_name (take n ps)) ocs) (ps ! n) out r tr \<and>
     tr \<in> set (lm_traces st')"
proof (induction ps arbitrary: i attempted path st)
  case (Cons p ps)
  define remaining where "remaining = map_option (\<lambda>d. num_sub d (Fin (of_int (le_clock env i at_entry)))) deadline"
  note step = walk.simps(2) [of env cl pr opts deadline i p ps attempted path st, folded remaining_def, unfolded Let_def]
  have further: ?case if oc: "oc \<noteq> succeeded"
    and walk: "walk env cl pr opts deadline (Suc i) ps att (path @ [(pv_name p, oc)]) st1 = (Inr r, st')" for oc att st1
  proof -
    obtain n ocs remaining out tr where ih: "n < length ps" "length ocs = n" "succeeded \<notin> set ocs"
      "le_call env (Suc i + n) (ps ! n) (cl_prompt (call_for env cl pr opts (ps ! n) remaining))
         (cl_options (call_for env cl pr opts (ps ! n) remaining)) = Output out"
      "answered env cl pr opts ((path @ [(pv_name p, oc)]) @ zip (map pv_name (take n ps)) ocs) (ps ! n) out r tr"
      "tr \<in> set (lm_traces st')"
      using Cons.IH [OF walk] by blast
    then show ?thesis using oc
      by (intro exI [of _ "Suc n"] exI [of _ "oc # ocs"] exI [of _ remaining] exI [of _ out] exI [of _ tr]) simp
  qed
  show ?case
  proof (cases "deadline_passed remaining")
    case True
    then show ?thesis using Cons.prems by (simp add: step del: walk.simps(2))
  next
    case False
    obtain oc st1 where g: "entry_gate env cl opts i p st = (oc, st1)" by fastforce
    show ?thesis
    proof (cases oc)
      case (Some x)
      then have "x \<noteq> succeeded" using entry_gate_oc g by fastforce
      then show ?thesis using further Cons.prems False g Some by (simp add: step del: walk.simps(2))
    next
      case None
      obtain x st2 where t: "try_generate env cl pr opts remaining i p path st1 = (x, st2)" by fastforce
      show ?thesis
      proof (cases x)
        case (Inl f)
        then show ?thesis using further [of failed] Cons.prems False g None t by (simp add: step del: walk.simps(2))
      next
        case (Inr r')
        then have r: "try_generate env cl pr opts remaining i p path st1 = (Inr r, st')"
          using Cons.prems False g None t by (simp add: step del: walk.simps(2))
        from try_generate_answer [OF this] obtain out tr where
          "le_call env i p (cl_prompt (call_for env cl pr opts p remaining))
             (cl_options (call_for env cl pr opts p remaining)) = Output out"
          "answered env cl pr opts path p out r tr" "tr \<in> set (lm_traces st')" by auto
        then show ?thesis
          by (intro exI [of _ 0] exI [of _ "[]"] exI [of _ remaining] exI [of _ out] exI [of _ tr]) simp
      qed
    qed
  qed
qed simp

text \<open>The answer of generate is that of the first provider in the order of the chain that was not passed over
  (its price, its breaker) and did not fail; the execution path says so, and the answer was
  recorded before it was returned.\<close>

theorem first_answer_wins:
  assumes "llm_generate env cl pr opts st = (Inr r, st')"
  shows "\<exists>n ocs remaining out tr. n < length (lc_chain cl) \<and>
    em_executionPath (lr_execution r) =
      zip (map pv_name (take n (lc_chain cl))) ocs @ [(pv_name (lc_chain cl ! n), succeeded)] \<and>
    length ocs = n \<and> succeeded \<notin> set ocs \<and>
    (let c = call_for env cl pr opts (lc_chain cl ! n) remaining in
      le_call env n (lc_chain cl ! n) (cl_prompt c) (cl_options c) = Output out) \<and>
    lr_content r = output_content out \<and> tr \<in> set (lm_traces st') \<and> tr_execution tr = lr_execution r \<and>
    le_onTrace env tr = None"
proof -
  obtain n ocs remaining out tr where "n < length (lc_chain cl)" "length ocs = n" "succeeded \<notin> set ocs"
    "le_call env (0 + n) (lc_chain cl ! n) (cl_prompt (call_for env cl pr opts (lc_chain cl ! n) remaining))
       (cl_options (call_for env cl pr opts (lc_chain cl ! n) remaining)) = Output out"
    "answered env cl pr opts ([] @ zip (map pv_name (take n (lc_chain cl))) ocs) (lc_chain cl ! n) out r tr"
    "tr \<in> set (lm_traces st')"
    using walk_answer [OF assms [unfolded llm_generate_def]] by blast
  then show ?thesis
    by (intro exI [of _ n] exI [of _ ocs] exI [of _ remaining] exI [of _ out] exI [of _ tr])
      (simp add: answered_def executionMetadata_def Let_def)
qed

section \<open>Confidential answers\<close>

text \<open>What the status of a trace says of the answer.\<close>

lemma answered_verified:
  assumes "answered env cl pr opts path p out r tr" "lc_mode cl = verified_private_cloud"
  shows "tr_status tr = trace_verified \<and> em_verificationStatus (lr_execution r) = status_verified \<and>
    (\<exists>v. out = VerifiedOutput v \<and> verification_complete (le_date env) (vo_verification v) \<and>
       tr_verification tr = Some (vo_verification v))"
proof -
  have mode: "em_reasoningMode (lr_execution r) = verified_private_cloud"
    using assms by (simp add: answered_def executionMetadata_def Let_def)
  then have t: "tr_status tr = trace_verified" "em_verificationStatus (lr_execution r) = status_verified"
      "verified_part (le_date env) out \<noteq> None"
    using assms(1) by (auto simp: answered_def trace_status_of_def Let_def split: if_split_asm)
  then obtain v where "verified_part (le_date env) out = Some v" by blast
  moreover then have "out = VerifiedOutput v" "verification_complete (le_date env) (vo_verification v)"
    by (auto simp: verified_part_def split: provider_output.splits if_splits)
  ultimately show ?thesis using t assms(1) by (simp add: answered_def)
qed

text \<open>In the verified private cloud generate never returns an output without complete evidence: the answer
  is marked verified, and the trace that was recorded carries the verification of exactly that
  output.\<close>

theorem confidential_answers_verified:
  assumes "llm_generate env cl pr opts st = (Inr r, st')" "lc_mode cl = verified_private_cloud"
  shows "em_verificationStatus (lr_execution r) = status_verified \<and>
    (\<exists>tr (v :: verified_output). tr \<in> set (lm_traces st') \<and> tr_status tr = trace_verified \<and> tr_execution tr = lr_execution r \<and>
       tr_verification tr = Some (vo_verification v) \<and> verification_complete (le_date env) (vo_verification v) \<and>
       lr_content r = vo_content v)"
proof -
  obtain n ocs remaining out tr where
    a: "answered env cl pr opts ([] @ zip (map pv_name (take n (lc_chain cl))) ocs) (lc_chain cl ! n) out r tr"
    and tr: "tr \<in> set (lm_traces st')"
    using walk_answer [OF assms(1) [unfolded llm_generate_def]] by blast
  obtain v where v: "out = VerifiedOutput v" "verification_complete (le_date env) (vo_verification v)"
      "tr_verification tr = Some (vo_verification v)" "tr_status tr = trace_verified"
      "em_verificationStatus (lr_execution r) = status_verified"
    using answered_verified [OF a assms(2)] by blast
  moreover have "lr_content r = vo_content v" "tr_execution tr = lr_execution r"
    using a by (simp_all add: answered_def v(1))
  ultimately show ?thesis using tr by blast
qed

section \<open>Streams\<close>

text \<open>What the events of a stream look like, by the way it ended.\<close>

definition stream_shape :: "llm_env \<Rightarrow> stream_event list \<Rightarrow> stream_end \<Rightarrow> bool" where
  "stream_shape env es e = (case e of
       StreamAllFailed _ \<Rightarrow> es = []
     | StreamBroken _ \<Rightarrow> \<exists>cs. es = map Chunk cs \<and> cs \<noteq> [] \<and> [] \<notin> set cs
     | StreamComplete \<Rightarrow> \<exists>cs r. es = map Chunk cs @ [Done r] \<and> lr_content r = concat cs \<and> [] \<notin> set cs
     | StreamLeft \<Rightarrow> (\<exists>k cs r. le_takes env = Some k \<and> es = take k (map Chunk cs @ [Done r]) \<and>
         length es = k \<and> lr_content r = concat cs \<and> [] \<notin> set cs))"

lemma taken_complete: "\<not> leaves_within env (length es) \<Longrightarrow> taken env es = es"
  by (auto simp: leaves_within_def taken_def split: option.splits)

lemma taken_left: "leaves_within env (length es) \<Longrightarrow> \<exists>k. le_takes env = Some k \<and> taken env es = take k es \<and> k \<le> length es"
  by (auto simp: leaves_within_def taken_def split: option.splits)

lemma finish_stream_shape:
  assumes "finish_stream env cl pr opts i p path out buffered chunks st = (es, e, st')" "[] \<notin> set chunks"
  shows "case e of None \<Rightarrow> es = [] | Some x \<Rightarrow> stream_shape env es x"
proof -
  let ?ex = "executionMetadata env cl p (path @ [(pv_name p, succeeded)]) out"
  let ?done = "\<lparr> lr_content = concat chunks, lr_provider = pv_name p, lr_model = em_model ?ex,
    lr_latencyMs = le_clock env i at_end - le_clock env i at_start, lr_execution = ?ex, lr_runtimeIdentity = None \<rparr>"
  obtain f st1 where rec: "recordSuccessfulInference env p pr opts out ?ex st = (f, st1)" by fastforce
  show ?thesis
  proof (cases f)
    case (Some x)
    then show ?thesis using assms rec by (auto simp: finish_stream_def stream_shape_def Let_def split: if_splits)
  next
    case None
    then have es: "es = taken env (map Chunk chunks @ [Done ?done])"
      and e: "e = Some (if leaves_within env (length (map Chunk chunks @ [Done ?done])) then StreamLeft else StreamComplete)"
      using assms(1) rec by (simp_all add: finish_stream_def Let_def)
    show ?thesis
    proof (cases "leaves_within env (length (map Chunk chunks @ [Done ?done]))")
      case True
      then obtain k where k: "le_takes env = Some k" "es = take k (map Chunk chunks @ [Done ?done])"
          "k \<le> length (map Chunk chunks @ [Done ?done])"
        using taken_left es by blast
      moreover have "length es = k" using k by simp
      ultimately have "stream_shape env es StreamLeft"
        using assms(2) unfolding stream_shape_def stream_end.case
        by (intro exI [of _ k] exI [of _ chunks] exI [of _ ?done]) simp
      then show ?thesis using e True by (simp only: option.case if_True)
    next
      case False
      then have "es = map Chunk chunks @ [Done ?done]" using taken_complete es by blast
      then have "stream_shape env es StreamComplete"
        using assms(2) unfolding stream_shape_def stream_end.case
        by (intro exI [of _ chunks] exI [of _ ?done]) simp
      then show ?thesis using e False by (simp only: option.case if_False)
    qed
  qed
qed

lemma try_stream_shape:
  assumes "try_stream env cl pr opts i p path st = (es, e, st')"
  shows "case e of None \<Rightarrow> es = [] | Some x \<Rightarrow> stream_shape env es x"
proof -
  let ?c = "call_for env cl pr opts p None"
  let ?st = "st \<lparr> lm_calls := lm_calls st @ [?c] \<rparr>"
  define called where "called = le_call env i p (cl_prompt ?c) (cl_options ?c)"
  obtain raw failure where stream: "provider_stream env i p (cl_prompt ?c) (cl_options ?c) = (raw, failure)" by fastforce
  define chunks where "chunks = filter (\<lambda>c. c \<noteq> []) raw"
  have nonempty: "[] \<notin> set chunks" by (simp add: chunks_def)
  have sent: "providerGeneratePrompt (le_url env) p pr (lc_mode cl) = cl_prompt ?c"
      "call_options_for env cl p opts None = cl_options ?c"
    and eta: "\<lparr> cl_provider = p, cl_prompt = cl_prompt ?c, cl_options = cl_options ?c \<rparr> = ?c"
    by (simp_all add: call_for_def)
  have step: "try_stream env cl pr opts i p path st =
    (if pv_name p = trustedrouter \<or> pv_name p = nearai then
       (case called of
          Failed f \<Rightarrow> ([], None, breaker_failure env cl i p f ?st)
        | Output out \<Rightarrow>
            if verified_part (le_date env) out = None
            then ([], None, breaker_failure env cl i p (PolicyFailure verification_adapter_required) ?st)
            else finish_stream env cl pr opts i p path out True
                   (if output_content out = [] then [] else [output_content out]) ?st)
     else if chunks \<noteq> [] \<and> leaves_within env (length chunks)
       then (taken env (map Chunk chunks), Some StreamLeft, ?st)
       else (case failure of
           Some f \<Rightarrow>
             if chunks \<noteq> [] then (map Chunk chunks, Some (StreamBroken f), breaker_failure env cl i p f ?st)
             else ([], None, breaker_failure env cl i p f ?st)
         | None \<Rightarrow> finish_stream env cl pr opts i p path (PlainOutput (concat chunks)) False chunks ?st))"
    by (simp only: try_stream_def call_provider_def Let_def sent stream prod.case eta flip: chunks_def called_def)
  have left: "stream_shape env (taken env (map Chunk chunks)) StreamLeft" if leaves: "leaves_within env (length chunks)"
  proof -
    obtain k where k: "le_takes env = Some k" "taken env (map Chunk chunks) = take k (map Chunk chunks)" "k \<le> length chunks"
      using taken_left [of env "map Chunk chunks"] leaves by auto
    obtain r :: llm_response where "lr_content r = concat chunks" by (meson llm_response.select_convs(1))
    then show ?thesis using k nonempty unfolding stream_shape_def stream_end.case
      by (intro exI [of _ k] exI [of _ chunks] exI [of _ r]) simp
  qed
  show ?thesis
    using assms left nonempty unfolding step
    by (auto simp: stream_shape_def [of _ _ "StreamBroken _"] split: if_splits call_result.splits option.splits
        dest!: finish_stream_shape)
qed

lemma walk_stream_shape:
  "walk_stream env cl pr opts i ps attempted path st = (es, e, st') \<Longrightarrow> stream_shape env es e"
proof (induction ps arbitrary: i attempted path st)
  case (Cons p ps)
  obtain oc st1 where g: "entry_gate env cl opts i p st = (oc, st1)" by fastforce
  obtain es' e' st2 where t: "try_stream env cl pr opts i p path st1 = (es', e', st2)" by (metis prod_cases3)
  show ?case
    using Cons.prems Cons.IH try_stream_shape [OF t] by (auto simp: g t split: option.splits)
qed (auto simp: stream_shape_def)

text \<open>The protocol of a stream: a complete stream is the non-empty chunks of one answer followed by exactly one
  final event with their concatenation; a stream that breaks has given at least one chunk and no
  final event; a failure of all providers has given nothing; a consumer that leaves has got a
  prefix of a complete stream.\<close>

theorem stream_protocol_kept:
  assumes "generateStream env cl pr opts st = (es, e, st')" "le_takes env \<noteq> Some 0"
  shows "case e of
       StreamAllFailed _ \<Rightarrow> es = []
     | StreamBroken _ \<Rightarrow> \<exists>cs. es = map Chunk cs \<and> cs \<noteq> [] \<and> [] \<notin> set cs
     | StreamComplete \<Rightarrow> \<exists>cs r. es = map Chunk cs @ [Done r] \<and> lr_content r = concat cs \<and> [] \<notin> set cs
     | StreamLeft \<Rightarrow> \<exists>k cs r. le_takes env = Some k \<and> es = take k (map Chunk cs @ [Done r]) \<and>
         length es = k \<and> lr_content r = concat cs \<and> [] \<notin> set cs"
  using walk_stream_shape [of env cl pr opts 0 "lc_chain cl" "[]" "[]" st es e st'] assms
  by (simp add: generateStream_def stream_shape_def)

text \<open>What complete evidence is, written out.\<close>

definition complete_evidence :: "(string \<Rightarrow> int option) \<Rightarrow> verified_output \<Rightarrow> bool" where
  "complete_evidence date_parse v \<longleftrightarrow>
     [] \<notin> {vo_requestBytes v, vo_responseBytes v, vo_endpointIdentity v, vo_providerRequestId v, vo_resolvedModel v} \<and>
     (let w = vo_verification v; sig = vf_responseSignature w in
       vf_outcome w = ''verified'' \<and>
       [] \<notin> {vf_attestationPolicyVersion w, vf_verifierVersion w, vf_evidence w, vf_measurementIdentity w} \<and>
       (\<exists>verified fresh. date_parse (vf_verifiedAt w) = Some verified \<and> date_parse (vf_freshUntil w) = Some fresh \<and>
          verified \<le> fresh) \<and>
       si_algorithm sig = ''Ed25519'' \<and> [] \<notin> {si_keyId sig, si_publicKeyPem sig, si_signatureBase64 sig})"

lemma verified_part_evidence:
  assumes "verified_part date_parse out = Some v"
  shows "out = VerifiedOutput v \<and> complete_evidence date_parse v"
  using assms by (auto simp: verified_part_def verification_complete_def complete_evidence_def Let_def
      split: provider_output.splits if_splits option.splits prod.splits)

text \<open>
  The events of a stream are those of one verified answer, recorded before they are yielded: the last
  trace is of that answer and holds its evidence.
\<close>

definition attested_events ::
  "llm_env \<Rightarrow> llm_client \<Rightarrow> prompt \<Rightarrow> generate_options \<Rightarrow> nat \<Rightarrow> provider_entry \<Rightarrow> stream_event list \<Rightarrow> llm_state
     \<Rightarrow> llm_state \<Rightarrow> bool" where
  "attested_events env cl pr opts i p es st st' \<longleftrightarrow> (\<exists>v tr r.
     le_call env i p (cl_prompt (call_for env cl pr opts p None)) (cl_options (call_for env cl pr opts p None))
       = Output (VerifiedOutput v) \<and>
     complete_evidence (le_date env) v \<and>
     lm_traces st' = lm_traces st @ [tr] \<and> le_onTrace env tr = None \<and> tr_status tr = trace_verified \<and>
     tr_verification tr = Some (vo_verification v) \<and> tr_request tr = WireBytes (vo_requestBytes v) \<and>
     tr_response tr = vo_responseBytes v \<and> tr_endpointIdentity tr = vo_endpointIdentity v \<and>
     lr_content r = vo_content v \<and> lr_execution r = tr_execution tr \<and>
     prefix es ((if vo_content v = [] then [] else [Chunk (vo_content v)]) @ [Done r]))"

lemma taken_prefix: "prefix (taken env es) es"
  by (simp add: taken_def take_is_prefix split: option.splits)

lemma finish_stream_buffered:
  assumes "finish_stream env cl pr opts i p path out True (if output_content out = [] then [] else [output_content out]) st
      = (es, e, st')"
    and "lc_mode cl = verified_private_cloud" "verified_part (le_date env) out \<noteq> None"
    and "le_call env i p (cl_prompt (call_for env cl pr opts p None)) (cl_options (call_for env cl pr opts p None))
      = Output out"
  shows "(es = [] \<and> e = None) \<or> (attested_events env cl pr opts i p es st st' \<and> (\<forall>f. e \<noteq> Some (StreamBroken f)))"
proof -
  let ?ex = "executionMetadata env cl p (path @ [(pv_name p, succeeded)]) out"
  let ?chunks = "if output_content out = [] then [] else [output_content out]"
  let ?r = "\<lparr> lr_content = concat ?chunks, lr_provider = pv_name p, lr_model = em_model ?ex,
    lr_latencyMs = le_clock env i at_end - le_clock env i at_start, lr_execution = ?ex, lr_runtimeIdentity = None \<rparr>"
  obtain v where v: "verified_part (le_date env) out = Some v" using assms(3) by blast
  note out = verified_part_evidence [OF v]
  have mode: "em_reasoningMode ?ex = verified_private_cloud"
    using assms(2) by (simp add: executionMetadata_def Let_def)
  obtain f st1 where rec: "recordSuccessfulInference env p pr opts out ?ex st = (f, st1)" by fastforce
  show ?thesis
  proof (cases f)
    case (Some x)
    then show ?thesis using assms(1) rec by (simp add: finish_stream_def Let_def)
  next
    case None
    obtain tr where tr: "lm_traces st1 = lm_traces st @ [tr]" "tr_execution tr = ?ex" "le_onTrace env tr = None"
        "trace_status_of ?ex (Some v) = Some (tr_status tr)" "tr_verification tr = Some (vo_verification v)"
        "tr_request tr = WireBytes (vo_requestBytes v)" "tr_response tr = vo_responseBytes v"
        "tr_endpointIdentity tr = vo_endpointIdentity v"
      using record_verified [OF rec [unfolded None] v] by blast
    have "tr_status tr = trace_verified"
      using tr(4) mode by (auto simp: trace_status_of_def Let_def split: if_split_asm)
    moreover have "es = taken env (map Chunk ?chunks @ [Done ?r])"
      and e: "e = Some (if leaves_within env (length (map Chunk ?chunks @ [Done ?r])) then StreamLeft else StreamComplete)"
      and "st' = breaker_success cl p st1"
      using assms(1) rec None by (simp_all add: finish_stream_def Let_def)
    ultimately have "attested_events env cl pr opts i p es st st'"
      unfolding attested_events_def using tr out assms(4) taken_prefix [of env "map Chunk ?chunks @ [Done ?r]"]
      by (intro exI [of _ v] exI [of _ tr] exI [of _ ?r]) (simp add: breaker_success_def set_breaker_def split: if_splits)
    then show ?thesis using e by simp
  qed
qed

lemma try_stream_buffered:
  assumes "try_stream env cl pr opts i p path st = (es, e, st')" "pv_name p = trustedrouter"
    "lc_mode cl = verified_private_cloud"
  shows "(es = [] \<and> e = None) \<or> (attested_events env cl pr opts i p es st st' \<and> (\<forall>f. e \<noteq> Some (StreamBroken f)))"
proof -
  let ?c = "call_for env cl pr opts p None"
  let ?st = "st \<lparr> lm_calls := lm_calls st @ [?c] \<rparr>"
  have step: "try_stream env cl pr opts i p path st =
    (case le_call env i p (cl_prompt ?c) (cl_options ?c) of
        Failed f \<Rightarrow> ([], None, breaker_failure env cl i p f ?st)
      | Output out \<Rightarrow>
          if verified_part (le_date env) out = None
          then ([], None, breaker_failure env cl i p (PolicyFailure verification_adapter_required) ?st)
          else finish_stream env cl pr opts i p path out True
                 (if output_content out = [] then [] else [output_content out]) ?st)"
    using assms(2) unfolding try_stream_def call_provider_def Let_def call_for_def by simp
  show ?thesis
  proof (cases "le_call env i p (cl_prompt ?c) (cl_options ?c)")
    case (Output out)
    show ?thesis
    proof (cases "verified_part (le_date env) out = None")
      case True
      then show ?thesis using assms(1) by (simp add: step Output)
    next
      case False
      then have "finish_stream env cl pr opts i p path out True
          (if output_content out = [] then [] else [output_content out]) ?st = (es, e, st')"
        using assms(1) unfolding step Output by (simp only: call_result.case if_False)
      from finish_stream_buffered [OF this assms(3) False Output] show ?thesis
        by (simp add: attested_events_def)
    qed
  qed (use assms(1) in \<open>simp add: step\<close>)
qed

lemma walk_stream_buffered:
  "walk_stream env cl pr opts i ps attempted path st = (es, e, st') \<Longrightarrow>
   list_all (\<lambda>p. pv_name p = trustedrouter) ps \<Longrightarrow> lc_mode cl = verified_private_cloud \<Longrightarrow> es \<noteq> [] \<Longrightarrow>
   (\<exists>j p st1. p \<in> set ps \<and> attested_events env cl pr opts j p es st1 st') \<and> (\<forall>f. e \<noteq> StreamBroken f)"
proof (induction ps arbitrary: i attempted path st)
  case (Cons p ps)
  obtain oc st1 where g: "entry_gate env cl opts i p st = (oc, st1)" by fastforce
  obtain es' e' st2 where t: "try_stream env cl pr opts i p path st1 = (es', e', st2)" by (metis prod_cases3)
  have p: "pv_name p = trustedrouter" "list_all (\<lambda>p. pv_name p = trustedrouter) ps" using Cons.prems(2) by simp_all
  show ?case
  proof (cases "oc = None \<and> e' \<noteq> None")
    case True
    then have same: "es = es'" "e' = Some e" "st' = st2" using Cons.prems(1) by (auto simp: g t)
    then show ?thesis using try_stream_buffered [OF t p(1) Cons.prems(3)] by auto
  next
    case False
    then obtain attempted' path' st3 where "walk_stream env cl pr opts (Suc i) ps attempted' path' st3 = (es, e, st')"
      using Cons.prems(1) by (cases oc; cases e') (auto simp: g t)
    from Cons.IH [OF this p(2) Cons.prems(3,4)] show ?thesis by auto
  qed
qed simp

text \<open>C13: a token that the consumer of a stream of the verified private cloud gets is from an answer whose
  evidence is complete, and that was recorded first: the stream is a prefix of that one answer and
  its final event, the last trace holds the bytes, the endpoint and the verification of the same answer
  and was accepted by the listener, and such a stream neither breaks in the middle nor ends as a failure.\<close>

theorem no_token_before_verification:
  assumes "forReasoningMode ul mode raws userId = Inr cl" "lc_mode cl = verified_private_cloud"
    and "generateStream env cl pr opts st = (es, e, st')" "es \<noteq> []"
  shows "\<exists>i p v tr r earlier. p \<in> set (lc_chain cl) \<and> pv_name p = trustedrouter \<and>
    le_call env i p (cl_prompt (call_for env cl pr opts p None)) (cl_options (call_for env cl pr opts p None))
      = Output (VerifiedOutput v) \<and>
    complete_evidence (le_date env) v \<and>
    prefix es ((if vo_content v = [] then [] else [Chunk (vo_content v)]) @ [Done r]) \<and>
    lr_content r = vo_content v \<and> lr_execution r = tr_execution tr \<and>
    lm_traces st' = earlier @ [tr] \<and> le_onTrace env tr = None \<and> tr_status tr = trace_verified \<and>
    tr_verification tr = Some (vo_verification v) \<and> tr_request tr = WireBytes (vo_requestBytes v) \<and>
    tr_response tr = vo_responseBytes v \<and> tr_endpointIdentity tr = vo_endpointIdentity v \<and>
    (case e of StreamBroken _ \<Rightarrow> False | StreamAllFailed _ \<Rightarrow> False | _ \<Rightarrow> True)"
proof -
  have chain: "list_all (\<lambda>p. pv_name p = trustedrouter) (lc_chain cl)"
    using client_admits [OF assms(1)] assms(2) by (auto simp: list_all_iff admissible_def)
  have w: "walk_stream env cl pr opts 0 (lc_chain cl) [] [] st = (es, e, st')"
    using assms(3,4) by (auto simp: generateStream_def split: if_splits)
  obtain j p st1 where p: "p \<in> set (lc_chain cl)" "attested_events env cl pr opts j p es st1 st'"
    and "\<forall>f. e \<noteq> StreamBroken f"
    using walk_stream_buffered [OF w chain assms(2,4)] by blast
  moreover have "\<forall>a. e \<noteq> StreamAllFailed a" using walk_stream_shape [OF w] assms(4) by (auto simp: stream_shape_def)
  ultimately have e: "case e of StreamBroken _ \<Rightarrow> False | StreamAllFailed _ \<Rightarrow> False | _ \<Rightarrow> True" by (cases e) auto
  have "pv_name p = trustedrouter" using chain p(1) by (simp add: list_all_iff)
  then show ?thesis using p e unfolding attested_events_def by blast
qed

section \<open>A policy error during a probe\<close>

definition shut_out :: "string \<Rightarrow> ai_provider \<Rightarrow> llm_state \<Rightarrow> bool" where
  "shut_out userId p st \<longleftrightarrow> (let b = getCircuitBreaker userId p st in
     br_state b = half_open \<and> br_halfOpenProbeInFlight b)"

lemma get_set_breaker [simp]: "getCircuitBreaker u p (set_breaker u p b st) = b"
  by (simp add: getCircuitBreaker_def set_breaker_def)

lemma shut_out_gate:
  assumes "shut_out (lc_owner cl) (pv_name p) st"
  shows "\<exists>oc. fst (entry_gate env cl opts i p st) = Some oc \<and>
    shut_out (lc_owner cl) (pv_name p) (snd (entry_gate env cl opts i p st))"
  using assms by (auto simp: entry_gate_def shut_out_def Let_def canExecute_def)

lemma shut_out_generate:
  assumes "lc_chain cl = [p]" "shut_out (lc_owner cl) (pv_name p) st"
  shows "lm_calls (snd (llm_generate env cl pr opts st)) = lm_calls st \<and>
    shut_out (lc_owner cl) (pv_name p) (snd (llm_generate env cl pr opts st))"
proof -
  obtain oc st1 where g: "entry_gate env cl opts 0 p st = (Some oc, st1)" "shut_out (lc_owner cl) (pv_name p) st1"
    using shut_out_gate [OF assms(2), of env opts 0] by (metis prod.collapse)
  then show ?thesis using assms entry_gate_calls [OF g(1)] by (simp add: llm_generate_def Let_def)
qed

text \<open>A sequence of later invocations of one client.\<close>

fun generates :: "llm_client \<Rightarrow> (llm_env \<times> prompt \<times> generate_options) list \<Rightarrow> llm_state \<Rightarrow> llm_state" where
  "generates cl [] st = st"
| "generates cl ((env, pr, opts) # invs) st = generates cl invs (snd (llm_generate env cl pr opts st))"

lemma shut_out_forever:
  "lc_chain cl = [p] \<Longrightarrow> shut_out (lc_owner cl) (pv_name p) st \<Longrightarrow> lm_calls (generates cl invs st) = lm_calls st"
  by (induction cl invs st rule: generates.induct) (simp_all add: shut_out_generate)

text \<open>A policy error during the probe of an open breaker shuts the provider out for good: the client reports
  neither success nor failure, the probe stays in flight, and no later invocation, whenever it
  comes, ever calls the provider again.\<close>

theorem policy_error_shuts_out:
  assumes "lc_chain cl = [p]" "op_invocationKind opts = Some interactive" "op_timeoutMs opts = None"
    and "br_state (getCircuitBreaker (lc_owner cl) (pv_name p) st) = open_circuit"
      "timed_out (le_clock env 0 at_breaker) (getCircuitBreaker (lc_owner cl) (pv_name p) st)"
    and "le_call env 0 p (providerGeneratePrompt (le_url env) p pr (lc_mode cl)) (call_options_for env cl p opts None) =
      Failed (PolicyFailure code)"
  shows "length (lm_calls (snd (llm_generate env cl pr opts st))) = Suc (length (lm_calls st)) \<and>
    lm_calls (generates cl later (snd (llm_generate env cl pr opts st))) = lm_calls (snd (llm_generate env cl pr opts st))"
proof -
  let ?b = "getCircuitBreaker (lc_owner cl) (pv_name p) st"
  let ?b' = "?b \<lparr> br_state := half_open, br_halfOpenProbeInFlight := True \<rparr>"
  let ?st1 = "set_breaker (lc_owner cl) (pv_name p) ?b' st"
  let ?st2 = "?st1 \<lparr> lm_calls := lm_calls st @ [call_for env cl pr opts p None] \<rparr>"
  have gate: "entry_gate env cl opts 0 p st = (None, ?st1)"
    using assms(2,4,5) by (simp add: entry_gate_def canExecute_def)
  have called: "try_generate env cl pr opts None 0 p [] ?st1 = (Inl (PolicyFailure code), ?st2)"
    using assms(6) by (simp add: try_generate_def call_provider_def call_for_def breaker_failure_def set_breaker_def)
  have st2: "snd (llm_generate env cl pr opts st) = ?st2"
    using assms(1,3) gate called
    by (simp add: llm_generate_def invocation_deadline_def Let_def deadline_passed_def)
  have "shut_out (lc_owner cl) (pv_name p) ?st2"
    by (simp add: shut_out_def getCircuitBreaker_def set_breaker_def)
  from shut_out_forever [OF assms(1) this] show ?thesis by (simp add: st2)
qed

end
