(* ===== verification/LlmExamples.thy ===== *)
theory LlmExamples
  imports LlmTheorems
begin

text \<open>Concrete clients at which the hypotheses of the properties of theory \<open>LlmTheorems\<close> hold.\<close>

definition small_env :: llm_env where
  "small_env = \<lparr> le_url = small_lib, le_date = (\<lambda>s. if s = ''2026-01-01'' then Some 0 else None),
     le_begin = 1000, le_clock = (\<lambda>i u. 1400 + int i),
     le_call = (\<lambda>i p pr opts. Output (PlainOutput ''fine'')), le_stream = (\<lambda>i p pr opts. ([], None)),
     le_onTrace = (\<lambda>tr. None), le_takes = None \<rparr>"

definition empty_llm_state :: llm_state where
  "empty_llm_state = \<lparr> lm_breakers = (\<lambda>_. None), lm_calls = [], lm_traces = [] \<rparr>"

definition asked_options :: generate_options where
  "asked_options = \<lparr> op_temperature = None, op_maxTokens = None, op_systemPrompt = None,
     op_timeoutMs = Some (Fin 2000), op_invocationKind = Some interactive, op_jsonSchema = None,
     op_disableReasoning = None, op_requireExactRuntimeIdentity = None \<rparr>"

definition raw_openai :: jsobj where
  "raw_openai = [(''name'', JStr ''openai''), (''apiKey'', JStr ''k''), (''model'', JStr ''gpt-4o'')]"

definition small_openai :: provider_entry where
  "small_openai = \<lparr> pv_name = openai, pv_apiKey = ''k'', pv_model = ''gpt-4o'', pv_baseUrl = None \<rparr>"

definition cloud_client :: llm_client where
  "cloud_client = \<lparr> lc_chain = [small_openai], lc_owner = ''ann'', lc_mode = bring_your_own_provider \<rparr>"

definition local_client :: llm_client where
  "local_client = \<lparr> lc_chain = [small_ollama], lc_owner = ''ann'', lc_mode = on_device \<rparr>"

lemma cloud_admitted:
  "forReasoningMode (le_url small_env) (JStr ''bring_your_own_provider'') [raw_openai] (Some ''ann'') = Inr cloud_client"
  by code_simp

lemma local_admitted:
  "forReasoningMode (le_url small_env) (JStr ''on_device'') [raw_ollama] (Some ''ann'') = Inr local_client"
  by code_simp

lemma empty_calls: "lm_calls empty_llm_state = []"
  by (simp add: empty_llm_state_def)

definition cloud_call :: llm_call where
  "cloud_call = call_for small_env cloud_client (TextPrompt ''hello'') asked_options small_openai (Some (Fin 1600))"

lemma cloud_call_made:
  "lm_calls (snd (llm_generate small_env cloud_client (TextPrompt ''hello'') asked_options empty_llm_state)) = [cloud_call]"
  by code_simp

theorem prompts_in_bounds_witness:
  "admissible small_lib bring_your_own_provider small_openai \<and> list_all no_address (system_texts cloud_call)"
proof -
  have "cloud_call \<in> set (calls_made small_env cloud_client (TextPrompt ''hello'') asked_options empty_llm_state)"
    by (simp add: calls_made_def cloud_call_made)
  from prompts_in_bounds [OF cloud_admitted empty_calls this] show ?thesis
    by (simp add: cloud_client_def cloud_call_def call_for_def small_env_def)
qed

theorem unattended_on_device_witness:
  "cp_pricing (providerPrivacyCapabilities small_lib small_ollama (Some on_device)) = ZeroPrice"
proof -
  let ?opts = "asked_options \<lparr> op_invocationKind := None, op_timeoutMs := None \<rparr>"
  let ?c = "call_for small_env local_client (TextPrompt ''hello'') ?opts small_ollama None"
  have "lm_calls (snd (llm_generate small_env local_client (TextPrompt ''hello'') ?opts empty_llm_state)) = [?c]"
    by code_simp
  then have "?c \<in> set (calls_made small_env local_client (TextPrompt ''hello'') ?opts empty_llm_state)"
    by (simp add: calls_made_def)
  from unattended_on_device [OF local_admitted empty_calls _ this] show ?thesis
    by (simp add: local_client_def call_for_def small_env_def)
qed

theorem timeout_is_shared_witness:
  "\<exists>i r. op_timeoutMs (co_options (cl_options cloud_call)) = Some (Fin (of_int r)) \<and> 1 \<le> r \<and>
     math_trunc (math_max (Fin 1) (Fin 2000)) = Fin (of_int (le_clock small_env i at_entry + r - 1000))"
proof -
  have "op_timeoutMs asked_options = Some (Fin 2000)" by (simp add: asked_options_def)
  from timeout_is_shared [OF empty_calls this cloud_call_made [symmetric], of cloud_call] show ?thesis
    by (simp add: small_env_def)
qed

lemma answer_of:
  assumes "\<not> isl (fst x)"
  shows "x = (Inr (projr (fst x)), snd x)"
  using assms by (simp add: prod_eq_iff)

theorem first_answer_wins_witness:
  "\<exists>r. fst (llm_generate small_env cloud_client (TextPrompt ''hello'') asked_options empty_llm_state) = Inr r \<and>
     em_executionPath (lr_execution r) = [(openai, succeeded)] \<and> lr_content r = ''fine''"
proof -
  let ?x = "llm_generate small_env cloud_client (TextPrompt ''hello'') asked_options empty_llm_state"
  have "\<not> isl (fst ?x)" by code_simp
  then have x: "?x = (Inr (projr (fst ?x)), snd ?x)" by (rule answer_of)
  have "em_executionPath (lr_execution (projr (fst ?x))) = [(openai, succeeded)] \<and> lr_content (projr (fst ?x)) = ''fine''"
    using first_answer_wins [OF x] by (auto simp: cloud_client_def small_openai_def small_env_def Let_def)
  then show ?thesis using x by (metis fst_conv)
qed

text \<open>The confidential route with complete evidence.\<close>

definition small_verified :: verified_output where
  "small_verified = \<lparr> vo_content = ''fine'', vo_requestBytes = ''q'', vo_responseBytes = ''a'',
     vo_endpointIdentity = ''e'', vo_providerRequestId = ''1'', vo_resolvedModel = ''m'',
     vo_verification = \<lparr> vf_outcome = ''verified'', vf_attestationPolicyVersion = ''1'', vf_verifierVersion = ''1'',
       vf_evidence = ''x'', vf_measurementIdentity = ''y'',
       vf_responseSignature = \<lparr> si_algorithm = ''Ed25519'', si_keyId = ''k'', si_publicKeyPem = ''p'', si_signatureBase64 = ''s'' \<rparr>,
       vf_verifiedAt = ''2026-01-01'', vf_freshUntil = ''2026-01-01'' \<rparr> \<rparr>"

definition confidential_env :: llm_env where
  "confidential_env = small_env \<lparr> le_call := (\<lambda>i p pr opts. Output (VerifiedOutput small_verified)) \<rparr>"

definition raw_confidential :: jsobj where
  "raw_confidential = [(''name'', JStr ''trustedrouter''), (''apiKey'', JStr ''k''),
     (''model'', JStr ''trustedrouter/confidential'')]"

definition confidential_client :: llm_client where
  "confidential_client = \<lparr> lc_chain = [\<lparr> pv_name = trustedrouter, pv_apiKey = ''k'',
     pv_model = ''trustedrouter/confidential'', pv_baseUrl = None \<rparr>], lc_owner = ''ann'', lc_mode = verified_private_cloud \<rparr>"

lemma confidential_admitted:
  "forReasoningMode small_lib (JStr ''verified_private_cloud'') [raw_confidential] (Some ''ann'') = Inr confidential_client"
  by code_simp

lemma confidential_mode: "lc_mode confidential_client = verified_private_cloud"
  by (simp add: confidential_client_def)

theorem confidential_answers_verified_witness:
  "\<exists>r. fst (llm_generate confidential_env confidential_client (TextPrompt ''hello'') asked_options empty_llm_state) = Inr r \<and>
     em_verificationStatus (lr_execution r) = status_verified"
proof -
  let ?x = "llm_generate confidential_env confidential_client (TextPrompt ''hello'') asked_options empty_llm_state"
  have "\<not> isl (fst ?x)" by code_simp
  then have x: "?x = (Inr (projr (fst ?x)), snd ?x)" by (rule answer_of)
  from confidential_answers_verified [OF this confidential_mode] show ?thesis using x by (metis fst_conv)
qed

theorem stream_protocol_kept_witness:
  "\<exists>cs r. fst (generateStream small_env local_client (TextPrompt ''hello'') asked_options empty_llm_state) =
     map Chunk cs @ [Done r] \<and> lr_content r = concat cs \<and> [] \<notin> set cs"
proof -
  let ?x = "generateStream small_env local_client (TextPrompt ''hello'') asked_options empty_llm_state"
  have e: "fst (snd ?x) = StreamComplete" by code_simp
  have x: "?x = (fst ?x, fst (snd ?x), snd (snd ?x))" by simp
  have "le_takes small_env \<noteq> Some 0" by (simp add: small_env_def)
  from stream_protocol_kept [OF x this] show ?thesis unfolding e stream_end.case .
qed

theorem no_token_before_verification_witness:
  "\<exists>tr earlier v. lm_traces (snd (snd (generateStream confidential_env confidential_client (TextPrompt ''hello'')
      asked_options empty_llm_state))) = earlier @ [tr] \<and>
     tr_status tr = trace_verified \<and> tr_verification tr = Some (vo_verification v) \<and>
     complete_evidence (le_date confidential_env) v"
proof -
  let ?x = "generateStream confidential_env confidential_client (TextPrompt ''hello'') asked_options empty_llm_state"
  have "length (fst ?x) = 2" by code_simp
  then have e: "fst ?x \<noteq> []" by auto
  have x: "?x = (fst ?x, fst (snd ?x), snd (snd ?x))" by simp
  from no_token_before_verification [OF confidential_admitted confidential_mode x e] show ?thesis by blast
qed

text \<open>An Ollama that was down three times and then answers its probe with a policy error.\<close>

definition tripped :: breaker where
  "tripped = (new_breaker ''llm:ann:ollama'' llm_breaker_config)
     \<lparr> br_consecutiveFailures := 3, br_state := open_circuit, br_openedAt := Some 0, br_openCount := 1 \<rparr>"

definition probing_env :: llm_env where
  "probing_env = small_env \<lparr> le_clock := (\<lambda>i u. 60000),
     le_call := (\<lambda>i p pr opts. Failed (PolicyFailure ollama_local_source_unverified)) \<rparr>"

theorem policy_error_shuts_out_witness:
  "let opts = asked_options \<lparr> op_timeoutMs := None \<rparr>;
       st = empty_llm_state \<lparr> lm_breakers := [''ann:ollama'' \<mapsto> tripped] \<rparr>;
       st' = snd (llm_generate probing_env local_client (TextPrompt ''hello'') opts st)
   in length (lm_calls st') = 1 \<and>
      lm_calls (generates local_client [(small_env, TextPrompt ''hello'', opts), (small_env, TextPrompt ''again'', opts)] st')
        = lm_calls st'"
proof -
  let ?opts = "asked_options \<lparr> op_timeoutMs := None \<rparr>"
  let ?st = "empty_llm_state \<lparr> lm_breakers := [''ann:ollama'' \<mapsto> tripped] \<rparr>"
  have b: "getCircuitBreaker (lc_owner local_client) (pv_name small_ollama) ?st = tripped"
    by (simp add: getCircuitBreaker_def breaker_key_def provider_name_def local_client_def small_ollama_def)
  have "br_state (getCircuitBreaker (lc_owner local_client) (pv_name small_ollama) ?st) = open_circuit"
    "timed_out (le_clock probing_env 0 at_breaker) (getCircuitBreaker (lc_owner local_client) (pv_name small_ollama) ?st)"
    unfolding b by (simp add: tripped_def, code_simp)
  moreover have "lc_chain local_client = [small_ollama]" "op_invocationKind ?opts = Some interactive" "op_timeoutMs ?opts = None"
    by (simp_all add: local_client_def asked_options_def)
  moreover have "le_call probing_env 0 small_ollama pr os = Failed (PolicyFailure ollama_local_source_unverified)" for pr os
    by (simp add: probing_env_def)
  ultimately show ?thesis
    using policy_error_shuts_out [of local_client small_ollama ?opts ?st probing_env "TextPrompt ''hello''"
        ollama_local_source_unverified "[(small_env, TextPrompt ''hello'', ?opts), (small_env, TextPrompt ''again'', ?opts)]"]
    unfolding Let_def by (simp add: empty_llm_state_def)
qed

end
