(* ===== verification/OllamaAdapter.thy ===== *)
theory OllamaAdapter
  imports LlmExamples
begin

text \<open>
  The Ollama adapter (\<open>packages/llm-client/src/providers/ollama.ts\<close>): the check of the runtime before a prompt is
  sent in the on-device mode, the exact identity of the served model, and the chat request, each
  over the pinned fetch of theory \<open>ProviderUrls\<close>. The network is a parameter that gives, for the k-th
  request and the addresses it may connect to, the status and the JSON body. Every request that
  reached the transport is in the log. The server can put any JSON value in the place of the
  content; what is not a text is an output of its own.
\<close>

section \<open>Requests\<close>

record ollama_net =
  on_url :: url_lib
  on_ip :: ip_lib
  on_dns :: "nat \<Rightarrow> string \<Rightarrow> dns_answer"
  on_reply :: "nat \<Rightarrow> resolved list \<Rightarrow> (nat \<times> jsval option) option"
  on_json :: "string \<Rightarrow> jsval option"

datatype request_body = NoBody | ChatBody string "chat_message list" "jsval option" "bool" "number" "number"

record ollama_request =
  rq_url :: string
  rq_body :: request_body
  rq_addresses :: "resolved list"

text \<open>The requests so far: how many were tried, and those that reached the transport.\<close>

record ollama_log =
  ol_tried :: nat
  ol_sent :: "ollama_request list"

definition DEFAULT_OLLAMA_URL :: string where
  "DEFAULT_OLLAMA_URL = ''http://127.0.0.1:11434''"

text \<open>One request; \<open>None\<close> when the fetch throws, otherwise the status and the body.\<close>

definition ollama_fetch ::
  "ollama_net \<Rightarrow> string \<Rightarrow> request_body \<Rightarrow> ollama_log \<Rightarrow> (nat \<times> jsval option) option \<times> ollama_log" where
  "ollama_fetch net target body lg =
     (let k = ol_tried lg;
          (result, pinned) = fetchCustomProviderUrl (on_url net) (on_ip net) (on_dns net k)
            (\<lambda>a. map_option fst (on_reply net k a)) target ''ollama'';
          sent = (case pinned of None \<Rightarrow> [] | Some a \<Rightarrow> [\<lparr> rq_url = target, rq_body = body, rq_addresses = a \<rparr>])
      in ((case (result, pinned) of
             (Inr status, Some a) \<Rightarrow> Some (status, case on_reply net k a of Some (_, v) \<Rightarrow> v | None \<Rightarrow> None)
           | _ \<Rightarrow> None),
          lg \<lparr> ol_tried := Suc k, ol_sent := ol_sent lg @ sent \<rparr>))"

definition response_ok :: "nat \<Rightarrow> bool" where
  "response_ok status \<longleftrightarrow> 200 \<le> status \<and> status < 300"

section \<open>The runtime and the model\<close>

definition structuredOutputFormat :: "ollama_net \<Rightarrow> string option \<Rightarrow> policy_code + jsval option" where
  "structuredOutputFormat net jsonSchema =
     (case jsonSchema of
        None \<Rightarrow> Inr None
      | Some s \<Rightarrow> (case on_json net s of
          Some (JObj ob) \<Rightarrow> Inr (Some (JObj ob))
        | _ \<Rightarrow> Inl ollama_structured_output_invalid))"

definition MIN_LOCAL_SOURCE_VERSION :: "nat list" where
  "MIN_LOCAL_SOURCE_VERSION = [0, 18, 0]"

text \<open>The three numbers of \<open>/^(\d+)\.(\d+)\.(\d+)(?:$|[-+])/\<close>.\<close>

definition digits :: "string \<Rightarrow> (nat \<times> string) option" where
  "digits s = (let ds = takeWhile (is_digit 10) s in
     if ds = [] then None else Some (digits_val 10 0 ds, dropWhile (is_digit 10) s))"

definition after_dot :: "string \<Rightarrow> string option" where
  "after_dot s = (case s of c # t \<Rightarrow> if c = CHR ''.'' then Some t else None | [] \<Rightarrow> None)"

definition version_numbers :: "string \<Rightarrow> nat list option" where
  "version_numbers s =
     (case digits s of None \<Rightarrow> None
      | Some (a, s1) \<Rightarrow> (case Option.bind (after_dot s1) digits of None \<Rightarrow> None
        | Some (b, s2) \<Rightarrow> (case Option.bind (after_dot s2) digits of None \<Rightarrow> None
          | Some (c, s3) \<Rightarrow>
              if s3 = [] \<or> hd s3 = CHR ''-'' \<or> hd s3 = CHR ''+'' then Some [a, b, c] else None)))"

fun version_at_least :: "nat list \<Rightarrow> nat list \<Rightarrow> bool" where
  "version_at_least (x # xs) (y # ys) = (if y < x then True else if x < y then False else version_at_least xs ys)"
| "version_at_least _ _ = True"

definition supportsLocalSourceSelector :: "jsval \<Rightarrow> bool" where
  "supportsLocalSourceSelector version =
     (case version of
        JStr s \<Rightarrow> (case version_numbers (trim s) of
            None \<Rightarrow> False | Some actual \<Rightarrow> version_at_least actual MIN_LOCAL_SOURCE_VERSION)
      | _ \<Rightarrow> False)"

text \<open>Reading a property of \<open>null\<close> throws.\<close>

definition read_prop :: "jsval \<Rightarrow> string \<Rightarrow> jsval option" where
  "read_prop v k = (if v = JNull \<or> v = JUndefined then None else Some (prop_of v k))"

definition assertLocalSourceSelectorSupported ::
  "ollama_net \<Rightarrow> string \<Rightarrow> ollama_log \<Rightarrow> (policy_code + string) \<times> ollama_log" where
  "assertLocalSourceSelectorSupported net baseUrl lg =
     (case ollama_fetch net (baseUrl @ ''/api/version'') NoBody lg of
        (Some (status, Some body), lg1) \<Rightarrow>
          (if \<not> response_ok status then Inl ollama_local_source_unverified
           else (case read_prop body ''version'' of
               Some (JStr v) \<Rightarrow> if supportsLocalSourceSelector (JStr v) then Inr (trim v)
                 else Inl ollama_local_source_unverified
             | _ \<Rightarrow> Inl ollama_local_source_unverified), lg1)
      | (_, lg1) \<Rightarrow> (Inl ollama_local_source_unverified, lg1))"

definition canonicalModelReference :: "string \<Rightarrow> string" where
  "canonicalModelReference value =
     (let normalized = to_lower (trim value) in
      if last_index CHR ''/'' normalized < last_index CHR '':'' normalized then normalized
      else normalized @ '':latest'')"

definition sha256_hex :: "jsval \<Rightarrow> bool" where
  "sha256_hex v = (case v of JStr s \<Rightarrow> length s = 64 \<and> list_all hex_char s | _ \<Rightarrow> False)"

definition blank :: "jsval \<Rightarrow> bool" where
  "blank v = (case v of JStr s \<Rightarrow> trim s = [] | _ \<Rightarrow> True)"

text \<open>The digests of the entries that name the model; a malformed entry throws.\<close>

fun matching_digests :: "string \<Rightarrow> jsval list \<Rightarrow> string list option" where
  "matching_digests requested [] = Some []"
| "matching_digests requested (candidate # rest) =
     (case candidate of
        JObj r \<Rightarrow>
          if blank (get r ''name'') \<or> blank (get r ''model'') \<or> \<not> sha256_hex (get r ''digest'') then None
          else (case (get r ''name'', get r ''model'', get r ''digest'', matching_digests requested rest) of
              (JStr n, JStr m, JStr d, Some ds) \<Rightarrow>
                if requested = canonicalModelReference n \<or> requested = canonicalModelReference m
                then Some (d # ds) else Some ds
            | _ \<Rightarrow> None)
      | _ \<Rightarrow> None)"

definition resolveExactLocalModel ::
  "ollama_net \<Rightarrow> string \<Rightarrow> string \<Rightarrow> string \<Rightarrow> ollama_log \<Rightarrow> (policy_code + string) \<times> ollama_log" where
  "resolveExactLocalModel net baseUrl configuredModel endpoint lg =
     (case ollama_fetch net (baseUrl @ ''/api/'' @ endpoint) NoBody lg of
        (Some (status, Some body), lg1) \<Rightarrow>
          (if \<not> response_ok status then Inl ollama_local_source_unverified
           else (case read_prop body ''models'' of
               Some (JArr models) \<Rightarrow>
                 (case matching_digests (canonicalModelReference configuredModel) models of
                    Some [d] \<Rightarrow> Inr d
                  | _ \<Rightarrow> Inl ollama_local_source_unverified)
             | _ \<Rightarrow> Inl ollama_local_source_unverified), lg1)
      | (_, lg1) \<Rightarrow> (Inl ollama_local_source_unverified, lg1))"

section \<open>Generate\<close>

definition toMessages :: "prompt \<Rightarrow> chat_message list" where
  "toMessages pr = (case pr of TextPrompt s \<Rightarrow> [\<lparr> cm_role = user_role, cm_content = s \<rparr>] | ChatPrompt ms \<Rightarrow> ms)"

definition ollama_messages :: "prompt \<Rightarrow> generate_options \<Rightarrow> chat_message list" where
  "ollama_messages pr opts =
     (let inputMessages = toMessages pr in
      (case op_systemPrompt opts of
         Some s \<Rightarrow> if s \<noteq> [] \<and> \<not> list_ex (\<lambda>m. cm_role m = system_role) inputMessages
           then [\<lparr> cm_role = system_role, cm_content = s \<rparr>] else []
       | None \<Rightarrow> []) @ inputMessages)"

datatype ollama_result =
    OllamaText string
  | OllamaExact exact_output
  | OllamaForeign jsval
  | OllamaFailed call_failure

text \<open>The checks before the prompt is sent: the server's version and the digest of the model.\<close>

definition before_prompt ::
  "ollama_net \<Rightarrow> string \<Rightarrow> string \<Rightarrow> call_options \<Rightarrow> ollama_log
     \<Rightarrow> (policy_code + string option \<times> string option) \<times> ollama_log" where
  "before_prompt net baseUrl model opts lg =
     (if co_reasoningMode opts \<noteq> on_device then (Inr (None, None), lg)
      else (case assertLocalSourceSelectorSupported net baseUrl lg of
          (Inl e, lg1) \<Rightarrow> (Inl e, lg1)
        | (Inr version, lg1) \<Rightarrow>
            if op_requireExactRuntimeIdentity (co_options opts) \<noteq> Some True then (Inr (Some version, None), lg1)
            else (case resolveExactLocalModel net baseUrl model ''tags'' lg1 of
                (Inl e, lg2) \<Rightarrow> (Inl e, lg2)
              | (Inr digest, lg2) \<Rightarrow> (Inr (Some version, Some digest), lg2))))"

definition remote_reported :: "jsval \<Rightarrow> bool" where
  "remote_reported data \<longleftrightarrow> \<not> blank (prop_of data ''remote_host'') \<or> \<not> blank (prop_of data ''remote_model'')"

definition reply_content :: "jsval \<Rightarrow> jsval" where
  "reply_content data = (case prop_of (prop_of data ''message'') ''content'' of
     JUndefined \<Rightarrow> JStr [] | JNull \<Rightarrow> JStr [] | v \<Rightarrow> v)"

text \<open>The identity of the served model: what the reply says, then what the server says afterwards.\<close>

definition exact_identity ::
  "ollama_net \<Rightarrow> string \<Rightarrow> string \<Rightarrow> string \<Rightarrow> string option \<times> string option \<Rightarrow> jsval \<Rightarrow> jsval \<Rightarrow> ollama_log
     \<Rightarrow> ollama_result \<times> ollama_log" where
  "exact_identity net baseUrl model requestModel seen data content lg =
     (let refuse = (\<lambda>lg. (OllamaFailed (PolicyFailure ollama_local_source_unverified), lg)) in
      case (seen, prop_of data ''model'', prop_of data ''digest'', prop_of data ''provider_version'') of
        ((Some version, Some digest), JStr m, JStr d, JStr pv) \<Rightarrow>
          if trim m = [] \<or> \<not> sha256_hex (JStr d) \<or> trim pv = [] then refuse lg
          else if canonicalModelReference (trim m) \<noteq> canonicalModelReference requestModel
            \<or> d \<noteq> digest \<or> trim pv \<noteq> version then refuse lg
          else (case resolveExactLocalModel net baseUrl model ''ps'' lg of
              (Inl e, lg1) \<Rightarrow> (OllamaFailed (PolicyFailure e), lg1)
            | (Inr running, lg1) \<Rightarrow>
                (case assertLocalSourceSelectorSupported net baseUrl lg1 of
                   (Inl e, lg2) \<Rightarrow> (OllamaFailed (PolicyFailure e), lg2)
                 | (Inr versionAfter, lg2) \<Rightarrow>
                     (case resolveExactLocalModel net baseUrl model ''tags'' lg2 of
                        (Inl e, lg3) \<Rightarrow> (OllamaFailed (PolicyFailure e), lg3)
                      | (Inr digestAfter, lg3) \<Rightarrow>
                          if versionAfter \<noteq> version \<or> running \<noteq> digest \<or> digestAfter \<noteq> digest then refuse lg3
                          else (case content of
                              JStr s \<Rightarrow> (OllamaExact \<lparr> xo_content = s, xo_resolvedModel = trim model,
                                xo_runtimeIdentity = \<lparr> ri_provider = ''ollama'', ri_serverVersion = trim pv,
                                  ri_modelDigestSha256 = d \<rparr> \<rparr>, lg3)
                            | v \<Rightarrow> (OllamaForeign v, lg3)))))
      | _ \<Rightarrow> refuse lg)"

definition ollama_generate ::
  "ollama_net \<Rightarrow> string \<Rightarrow> prompt \<Rightarrow> call_options \<Rightarrow> ollama_log \<Rightarrow> ollama_result \<times> ollama_log" where
  "ollama_generate net model pr opts lg =
     (case canonicalizeProviderBaseUrl (on_url net) (co_baseUrl opts) of
        None \<Rightarrow> (OllamaFailed OtherFailure, lg)
      | Some canonical \<Rightarrow>
          let baseUrl = (case canonical of Some b \<Rightarrow> b | None \<Rightarrow> DEFAULT_OLLAMA_URL) in
          (case (if co_reasoningMode opts = on_device then ollamaLocalModelReference model else Inr model) of
             Inl (code, _) \<Rightarrow> (OllamaFailed (PolicyFailure code), lg)
           | Inr requestModel \<Rightarrow>
               (case before_prompt net baseUrl model opts lg of
                  (Inl e, lg1) \<Rightarrow> (OllamaFailed (PolicyFailure e), lg1)
                | (Inr seen, lg1) \<Rightarrow>
                    (case structuredOutputFormat net (op_jsonSchema (co_options opts)) of
                       Inl e \<Rightarrow> (OllamaFailed (PolicyFailure e), lg1)
                     | Inr format \<Rightarrow>
                         let body = ChatBody requestModel (ollama_messages pr (co_options opts)) format
                               (op_disableReasoning (co_options opts) = Some True)
                               (case op_temperature (co_options opts) of Some t \<Rightarrow> t | None \<Rightarrow> Fin (3 / 10))
                               (case op_maxTokens (co_options opts) of Some n \<Rightarrow> n | None \<Rightarrow> Fin 1024)
                         in (case ollama_fetch net (baseUrl @ ''/api/chat'') body lg1 of
                               (Some (status, Some data), lg2) \<Rightarrow>
                                 if \<not> response_ok status \<or> data = JNull then (OllamaFailed OtherFailure, lg2)
                                 else if co_reasoningMode opts = on_device \<and> remote_reported data
                                 then (OllamaFailed (PolicyFailure ollama_cloud_model), lg2)
                                 else if co_reasoningMode opts \<noteq> on_device
                                   \<or> op_requireExactRuntimeIdentity (co_options opts) \<noteq> Some True
                                 then (case reply_content data of
                                     JStr s \<Rightarrow> (OllamaText s, lg2) | v \<Rightarrow> (OllamaForeign v, lg2))
                                 else exact_identity net baseUrl model requestModel seen data (reply_content data) lg2
                             | (_, lg2) \<Rightarrow> (OllamaFailed OtherFailure, lg2))))))"

section \<open>Nothing leaves the device\<close>

definition loopback_address :: "resolved \<Rightarrow> bool" where
  "loopback_address r \<longleftrightarrow> fst r = ''127.0.0.1'' \<or> fst r = ''::1''"

text \<open>
  A request of the local mode: it can only connect to the loopback address, and if it carries the
  prompt, the model is selected from the local ones.
\<close>

definition local_request :: "ollama_request \<Rightarrow> bool" where
  "local_request rq \<longleftrightarrow> list_all loopback_address (rq_addresses rq) \<and>
     (case rq_body rq of NoBody \<Rightarrow> True | ChatBody m _ _ _ _ _ \<Rightarrow> ends_with m '':local'')"

definition grows :: "ollama_log \<Rightarrow> ollama_log \<Rightarrow> bool" where
  "grows lg lg' \<longleftrightarrow> (\<exists>rqs. ol_sent lg' = ol_sent lg @ rqs \<and> list_all local_request rqs)"

lemma grows_refl: "grows lg lg"
  by (simp add: grows_def)

lemma grows_trans: "grows lg lg1 \<Longrightarrow> grows lg1 lg2 \<Longrightarrow> grows lg lg2"
  unfolding grows_def by (metis append.assoc list_all_append)

text \<open>
  What the code relies on in the URL parser: a path appended to the canonical form of an endpoint with
  a loopback host, or to the default endpoint, does not change the host. (Nothing is assumed of other
  hosts: the canonical form removes one trailing dot, so a host with two of them does change.)
\<close>

definition requests_keep_host :: "url_lib \<Rightarrow> bool" where
  "requests_keep_host ul \<longleftrightarrow>
     (\<forall>b c path p q. canonicalizeProviderBaseUrl ul (Some b) = Some (Some c) \<longrightarrow> starts_with path ''/api/'' \<longrightarrow>
        ul_parse ul b = Some p \<longrightarrow> isLoopbackHostname (url_hostname p) \<longrightarrow> ul_parse ul (c @ path) = Some q \<longrightarrow>
        normalizeHostname (url_hostname q) = normalizeHostname (url_hostname p)) \<and>
     (\<forall>path q. starts_with path ''/api/'' \<longrightarrow> ul_parse ul (DEFAULT_OLLAMA_URL @ path) = Some q \<longrightarrow>
        normalizeHostname (url_hostname q) = ''127.0.0.1'')"

text \<open>A base URL whose requests go to a loopback host.\<close>

definition loopback_base :: "url_lib \<Rightarrow> string \<Rightarrow> bool" where
  "loopback_base ul base \<longleftrightarrow> (\<forall>path q. starts_with path ''/api/'' \<longrightarrow> ul_parse ul (base @ path) = Some q \<longrightarrow>
     normalizeHostname (url_hostname q) \<in> set loopback_names)"

lemma fetch_grows:
  assumes base: "loopback_base (on_url net) base" and path: "starts_with path ''/api/''"
    and body: "case body of NoBody \<Rightarrow> True | ChatBody m _ _ _ _ _ \<Rightarrow> ends_with m '':local''"
    and fetch: "ollama_fetch net (base @ path) body lg = (res, lg')"
  shows "grows lg lg'"
proof -
  obtain result pinned where r: "fetchCustomProviderUrl (on_url net) (on_ip net) (on_dns net (ol_tried lg))
      (\<lambda>a. map_option fst (on_reply net (ol_tried lg) a)) (base @ path) ''ollama'' = (result, pinned)" by fastforce
  then have lg': "ol_sent lg' = ol_sent lg @ (case pinned of None \<Rightarrow> []
      | Some a \<Rightarrow> [\<lparr> rq_url = base @ path, rq_body = body, rq_addresses = a \<rparr>])"
    using fetch by (auto simp: ollama_fetch_def Let_def)
  have "list_all loopback_address a" if "pinned = Some a" for a
  proof -
    have sent: "snd (fetchCustomProviderUrl (on_url net) (on_ip net) (on_dns net (ol_tried lg))
      (\<lambda>a. map_option fst (on_reply net (ol_tried lg) a)) (base @ path) ''ollama'') = Some a"
      using r that by simp
    obtain u :: url where u: "ul_parse (on_url net) (base @ path) = Some u"
      "all_allowed (on_ip net) (normalizeHostname (url_hostname u)) ''ollama'' a = Inr ()"
      using fetch_connects [OF sent] by blast
    have host: "isLoopbackHostname (normalizeHostname (url_hostname u))"
      by (rule loopback_again) (use base path u(1) in \<open>simp add: loopback_base_def\<close>)
    have "x = ''127.0.0.1'' \<or> x = ''::1''" if "(x, f) \<in> set a" for x f
      by (rule assert_ok(2) [OF all_allowedD [OF u(2) that] refl host])
    then show ?thesis unfolding list_all_iff loopback_address_def by (metis prod.collapse)
  qed
  then show ?thesis using body unfolding grows_def lg' by (cases pinned) (simp_all add: local_request_def)
qed

lemma version_grows:
  "loopback_base (on_url net) base \<Longrightarrow> assertLocalSourceSelectorSupported net base lg = (r, lg') \<Longrightarrow> grows lg lg'"
  unfolding assertLocalSourceSelectorSupported_def
  by (cases "ollama_fetch net (base @ ''/api/version'') NoBody lg")
    (auto dest!: fetch_grows [rotated 3] split: option.splits if_splits)

lemma resolve_grows:
  "loopback_base (on_url net) base \<Longrightarrow> resolveExactLocalModel net base m endpoint lg = (r, lg') \<Longrightarrow> grows lg lg'"
  unfolding resolveExactLocalModel_def
  by (cases "ollama_fetch net (base @ ''/api/'' @ endpoint) NoBody lg")
    (auto dest!: fetch_grows [rotated 3] split: option.splits if_splits)

lemma before_prompt_grows:
  assumes "loopback_base (on_url net) base" "before_prompt net base m opts lg = (r, lg')"
  shows "grows lg lg'"
proof -
  obtain version lg1 where 1: "assertLocalSourceSelectorSupported net base lg = (version, lg1)" by fastforce
  obtain digest lg2 where 2: "resolveExactLocalModel net base m ''tags'' lg1 = (digest, lg2)" by fastforce
  note g1 = version_grows [OF assms(1) 1]
  note g2 = grows_trans [OF g1 resolve_grows [OF assms(1) 2]]
  have "lg' = lg \<or> lg' = lg1 \<or> lg' = lg2"
    using assms(2) 1 2 by (auto simp: before_prompt_def split: sum.splits if_splits)
  then show ?thesis using g1 g2 grows_refl by blast
qed

lemma exact_identity_grows:
  assumes "loopback_base (on_url net) base"
    and "exact_identity net base model requestModel seen data content lg = (r, lg')"
  shows "grows lg lg'"
proof -
  obtain running lg1 where 1: "resolveExactLocalModel net base model ''ps'' lg = (running, lg1)" by fastforce
  obtain version lg2 where 2: "assertLocalSourceSelectorSupported net base lg1 = (version, lg2)" by fastforce
  obtain digest lg3 where 3: "resolveExactLocalModel net base model ''tags'' lg2 = (digest, lg3)" by fastforce
  note g1 = resolve_grows [OF assms(1) 1]
  note g2 = grows_trans [OF g1 version_grows [OF assms(1) 2]]
  note g3 = grows_trans [OF g2 resolve_grows [OF assms(1) 3]]
  have "lg' = lg \<or> lg' = lg1 \<or> lg' = lg2 \<or> lg' = lg3"
    using assms(2) 1 2 3
    by (auto simp: exact_identity_def Let_def split: prod.splits option.splits jsval.splits sum.splits if_splits)
  then show ?thesis using g1 g2 g3 grows_refl by blast
qed

lemma canonical_loopback:
  assumes "isLoopbackOllama ul p" "requests_keep_host ul"
    and "canonicalizeProviderBaseUrl ul (pv_baseUrl p) = Some canonical"
  shows "loopback_base ul (case canonical of Some b \<Rightarrow> b | None \<Rightarrow> DEFAULT_OLLAMA_URL)"
proof (cases canonical)
  case None
  then show ?thesis using assms(2) by (auto simp: loopback_base_def requests_keep_host_def loopback_names_def)
next
  case (Some c)
  then obtain b where b: "pv_baseUrl p = Some b" "b \<noteq> []"
    using assms(3) by (auto simp: canonicalizeProviderBaseUrl_def split: option.splits if_splits)
  with assms(1) obtain u where u: "ul_parse ul b = Some u" "isLoopbackHostname (url_hostname u)"
    by (auto simp: isLoopbackOllama_def split: option.splits if_splits)
  have "normalizeHostname (url_hostname q) = normalizeHostname (url_hostname u)"
    if "starts_with path ''/api/''" "ul_parse ul (c @ path) = Some q" for path q
    using assms(2,3) that u b(1) Some unfolding requests_keep_host_def by metis
  then show ?thesis using u(2) Some by (auto simp: loopback_base_def isLoopbackHostname_def)
qed

lemma generate_grows:
  assumes base: "\<And>canonical. canonicalizeProviderBaseUrl (on_url net) (co_baseUrl opts) = Some canonical \<Longrightarrow>
      loopback_base (on_url net) (case canonical of Some b \<Rightarrow> b | None \<Rightarrow> DEFAULT_OLLAMA_URL)"
    and mode: "co_reasoningMode opts = on_device"
    and run: "ollama_generate net model pr opts lg = (r, lg')"
  shows "grows lg lg'"
proof (cases "canonicalizeProviderBaseUrl (on_url net) (co_baseUrl opts)")
  case None
  then show ?thesis using run by (simp add: ollama_generate_def grows_refl)
next
  case (Some canonical)
  define baseUrl where "baseUrl = (case canonical of Some b \<Rightarrow> b | None \<Rightarrow> DEFAULT_OLLAMA_URL)"
  have lb: "loopback_base (on_url net) baseUrl" using base [OF Some] by (simp add: baseUrl_def)
  show ?thesis
  proof (cases "ollamaLocalModelReference model")
    case (Inl e)
    then show ?thesis using run Some mode by (cases e) (simp add: ollama_generate_def Let_def grows_refl)
  next
    case (Inr requestModel)
    obtain pre lg1 where 1: "before_prompt net baseUrl model opts lg = (pre, lg1)" by fastforce
    note g1 = before_prompt_grows [OF lb 1]
    obtain body where body: "body = ChatBody requestModel (ollama_messages pr (co_options opts))
        (case structuredOutputFormat net (op_jsonSchema (co_options opts)) of Inr f \<Rightarrow> f | Inl _ \<Rightarrow> None)
        (op_disableReasoning (co_options opts) = Some True)
        (case op_temperature (co_options opts) of Some t \<Rightarrow> t | None \<Rightarrow> Fin (3 / 10))
        (case op_maxTokens (co_options opts) of Some n \<Rightarrow> n | None \<Rightarrow> Fin 1024)" by blast
    obtain reply lg2 where 2: "ollama_fetch net (baseUrl @ ''/api/chat'') body lg1 = (reply, lg2)" by fastforce
    obtain x where "requestModel = x @ '':local''" using local_reference_shape [OF Inr] by blast
    then have g2: "grows lg lg2"
      by (intro grows_trans [OF g1 fetch_grows [OF lb _ _ 2]]) (auto simp: body ends_with_append)
    have "lg' = lg1 \<or> lg' = lg2 \<or>
        (\<exists>seen data content. exact_identity net baseUrl model requestModel seen data content lg2 = (r, lg'))"
      using run Some mode Inr 1 2
      by (auto simp: ollama_generate_def Let_def baseUrl_def body
          split: sum.splits option.splits prod.splits if_splits jsval.splits)
    then show ?thesis using g1 g2 exact_identity_grows [OF lb] grows_trans by blast
  qed
qed

text \<open>C10: On-device reasoning stays on the device, down to the connections: every request that the Ollama adapter
  makes for a call of an on-device client, the check of the version, the identity checks and the
  prompt alike, can only be connected to a loopback address, whatever DNS or the server answers,
  and the prompt goes to a model selected from the local ones.\<close>

theorem on_device_never_leaves:
  assumes "forReasoningMode (le_url env) mode raws userId = Inr cl" "lc_mode cl = on_device" "lm_calls st = []"
    and "c \<in> set (calls_made env cl pr opts st)" "pv_name (cl_provider c) = ollama"
    and "on_url net = le_url env" "requests_keep_host (le_url env)"
    and "rq \<in> set (ol_sent (snd (ollama_generate net (pv_model (cl_provider c)) (cl_prompt c) (cl_options c)
      \<lparr> ol_tried = 0, ol_sent = [] \<rparr>)))"
  shows "list_all (\<lambda>r. fst r = ''127.0.0.1'' \<or> fst r = ''::1'') (rq_addresses rq) \<and>
    (case rq_body rq of NoBody \<Rightarrow> True | ChatBody m _ _ _ _ _ \<Rightarrow> ends_with m '':local'')"
proof -
  obtain p remaining where p: "p \<in> set (lc_chain cl)" and c: "c = call_for env cl pr opts p remaining"
    using calls_madeD [OF assms(3,4)] by blast
  have name: "cl_provider c = p" and options: "cl_options c = call_options_for env cl p opts remaining"
    by (simp_all add: c call_for_def)
  have loopback: "isLoopbackOllama (le_url env) p"
    using client_admits [OF assms(1) p] assms(2,5) by (simp add: admissible_def name)
  have "co_baseUrl (cl_options c) = pv_baseUrl p" "co_reasoningMode (cl_options c) = on_device"
    by (simp_all add: options call_options_for_def providerGenerateOptions_def assms(2))
  then have "grows \<lparr> ol_tried = 0, ol_sent = [] \<rparr> (snd (ollama_generate net (pv_model (cl_provider c)) (cl_prompt c)
      (cl_options c) \<lparr> ol_tried = 0, ol_sent = [] \<rparr>))"
    using canonical_loopback [OF loopback assms(7)] assms(6)
    by (intro generate_grows [OF _ _ prod.collapse [symmetric]]) simp_all
  then have "local_request rq" using assms(8) by (auto simp: grows_def list_all_iff)
  then show ?thesis by (simp add: local_request_def loopback_address_def [abs_def])
qed

section \<open>A local server\<close>

definition localhost_url :: "string \<Rightarrow> url" where
  "localhost_url path = (small_url ''http:'' ''localhost'') \<lparr> url_pathname := path \<rparr>"

definition local_lib :: url_lib where
  "local_lib = \<lparr> ul_parse = (\<lambda>s. if starts_with s ''http://localhost''
       then Some (localhost_url (if drop 16 s = [] then ''/'' else drop 16 s)) else None),
     ul_set_hostname = (\<lambda>h u. u \<lparr> url_hostname := h \<rparr>), ul_set_pathname = (\<lambda>p u. u \<lparr> url_pathname := p \<rparr>),
     ul_origin = (\<lambda>u. url_protocol u @ ''//'' @ url_host u),
     ul_href = (\<lambda>u. url_protocol u @ ''//'' @ url_host u @ url_pathname u) \<rparr>"

lemma local_keeps_host: "requests_keep_host local_lib"
proof -
  have host: "url_hostname u = ''localhost''" if "ul_parse local_lib s = Some u" for s u
    using that by (auto simp: local_lib_def localhost_url_def small_url_def split: if_split_asm)
  have "ul_parse local_lib (DEFAULT_OLLAMA_URL @ path) = None" for path
    by (simp add: local_lib_def DEFAULT_OLLAMA_URL_def)
  then show ?thesis using host unfolding requests_keep_host_def by (metis option.distinct(1))
qed

definition ollama_env :: llm_env where
  "ollama_env = small_env \<lparr> le_url := local_lib \<rparr>"

definition server_reply :: jsval where
  "server_reply = JObj [(''version'', JStr ''0.18.2''), (''message'', JObj [(''content'', JStr ''fine'')])]"

definition ollama_server :: ollama_net where
  "ollama_server = \<lparr> on_url = local_lib, on_ip = small_ip, on_dns = (\<lambda>k h. Resolved [(''127.0.0.1'', 4)]),
     on_reply = (\<lambda>k a. Some (200, Some server_reply)), on_json = (\<lambda>s. None) \<rparr>"

definition ollama_call :: llm_call where
  "ollama_call = call_for ollama_env local_client (TextPrompt ''hello'') asked_options small_ollama (Some (Fin 1600))"

definition ollama_run :: "ollama_result \<times> ollama_log" where
  "ollama_run = ollama_generate ollama_server (pv_model (cl_provider ollama_call)) (cl_prompt ollama_call)
     (cl_options ollama_call) \<lparr> ol_tried = 0, ol_sent = [] \<rparr>"

lemma server_connects:
  "fetchCustomProviderUrl local_lib small_ip (\<lambda>h. Resolved [(''127.0.0.1'', 4)]) (\<lambda>a. Some 200)
     ''http://localhost/api/version'' ''ollama'' = (Inr 200, Some [(''127.0.0.1'', 4)])"
  "fetchCustomProviderUrl local_lib small_ip (\<lambda>h. Resolved [(''127.0.0.1'', 4)]) (\<lambda>a. Some 200)
     ''http://localhost/api/chat'' ''ollama'' = (Inr 200, Some [(''127.0.0.1'', 4)])"
  by code_simp+

lemma server_answers:
  assumes "t = ''http://localhost/api/version'' \<or> t = ''http://localhost/api/chat''"
  shows "ollama_fetch ollama_server t body lg = (Some (200, Some server_reply),
    lg \<lparr> ol_tried := Suc (ol_tried lg), ol_sent := ol_sent lg @
      [\<lparr> rq_url = t, rq_body = body, rq_addresses = [(''127.0.0.1'', 4)] \<rparr>] \<rparr>)"
  using assms server_connects by (auto simp: ollama_fetch_def ollama_server_def Let_def)

lemma server_version: "supportsLocalSourceSelector (JStr ''0.18.2'')"
  by code_simp

lemma server_local: "ollamaLocalModelReference ''gemma3'' = Inr ''gemma3:local''"
  "canonicalizeProviderBaseUrl local_lib (Some ''http://localhost'') = Some (Some ''http://localhost'')"
  "remote_reported server_reply = False" "reply_content server_reply = JStr ''fine''"
  by code_simp+

lemma call_facts:
  "pv_model (cl_provider ollama_call) = ''gemma3''" "co_baseUrl (cl_options ollama_call) = Some ''http://localhost''"
  "co_reasoningMode (cl_options ollama_call) = on_device"
  "op_jsonSchema (co_options (cl_options ollama_call)) = None"
  "op_requireExactRuntimeIdentity (co_options (cl_options ollama_call)) = None"
  by code_simp+

lemma version_step:
  "assertLocalSourceSelectorSupported ollama_server ''http://localhost'' lg = (Inr (trim ''0.18.2''),
    lg \<lparr> ol_tried := Suc (ol_tried lg), ol_sent := ol_sent lg @
      [\<lparr> rq_url = ''http://localhost/api/version'', rq_body = NoBody, rq_addresses = [(''127.0.0.1'', 4)] \<rparr>] \<rparr>)"
proof -
  have "''http://localhost'' @ ''/api/version'' = ''http://localhost/api/version''" by simp
  then show ?thesis
    using server_version unfolding assertLocalSourceSelectorSupported_def
    by (simp only: server_answers [OF disjI1 [OF refl]])
      (simp add: response_ok_def read_prop_def prop_of_def server_reply_def get_def)
qed

lemma ollama_run_sent:
  "fst ollama_run = OllamaText ''fine''"
  "map rq_url (ol_sent (snd ollama_run)) = [''http://localhost/api/version'', ''http://localhost/api/chat'']"
  "rq_url (last (ol_sent (snd ollama_run))) = ''http://localhost/api/chat''"
proof -
  have url: "''http://localhost'' @ ''/api/chat'' = ''http://localhost/api/chat''" by simp
  have lib: "on_url ollama_server = local_lib" by (simp add: ollama_server_def)
  have ok: "(\<not> response_ok 200 \<or> server_reply = JNull) = False" by (simp add: server_reply_def response_ok_def)
  obtain body where run: "ollama_run = (OllamaText ''fine'', \<lparr> ol_tried = 2, ol_sent =
      [\<lparr> rq_url = ''http://localhost/api/version'', rq_body = NoBody, rq_addresses = [(''127.0.0.1'', 4)] \<rparr>,
       \<lparr> rq_url = ''http://localhost/api/chat'', rq_body = body, rq_addresses = [(''127.0.0.1'', 4)] \<rparr>] \<rparr>)"
  proof (rule that)
    show "ollama_run = (OllamaText ''fine'', \<lparr> ol_tried = 2, ol_sent =
      [\<lparr> rq_url = ''http://localhost/api/version'', rq_body = NoBody, rq_addresses = [(''127.0.0.1'', 4)] \<rparr>,
       \<lparr> rq_url = ''http://localhost/api/chat'', rq_body = ChatBody ''gemma3:local''
         (ollama_messages (cl_prompt ollama_call) (co_options (cl_options ollama_call))) None
         (op_disableReasoning (co_options (cl_options ollama_call)) = Some True)
         (case op_temperature (co_options (cl_options ollama_call)) of Some t \<Rightarrow> t | None \<Rightarrow> Fin (3 / 10))
         (case op_maxTokens (co_options (cl_options ollama_call)) of Some n \<Rightarrow> n | None \<Rightarrow> Fin 1024),
         rq_addresses = [(''127.0.0.1'', 4)] \<rparr>] \<rparr>)"
      unfolding ollama_run_def ollama_generate_def
      apply (simp only: call_facts lib server_local option.case Let_def refl if_True simp_thms sum.case prod.case)
      apply (simp only: before_prompt_def call_facts simp_thms if_False if_True version_step sum.case prod.case
          structuredOutputFormat_def option.case option.distinct)
      apply (simp only: sum.case prod.case url server_answers [OF disjI2 [OF refl]] option.case ok if_False
          server_local jsval.case)
      apply (simp only: ollama_log.simps append_Nil append_Cons numeral_2_eq_2)
      done
  qed
  show "fst ollama_run = OllamaText ''fine''"
    "map rq_url (ol_sent (snd ollama_run)) = [''http://localhost/api/version'', ''http://localhost/api/chat'']"
    "rq_url (last (ol_sent (snd ollama_run))) = ''http://localhost/api/chat''"
    by (simp_all only: run fst_conv snd_conv ollama_log.simps list.map ollama_request.simps last.simps list.distinct
        if_True if_False refl)
qed

theorem on_device_never_leaves_witness:
  "rq_url (last (ol_sent (snd ollama_run))) = ''http://localhost/api/chat'' \<and>
   list_all (\<lambda>r. fst r = ''127.0.0.1'' \<or> fst r = ''::1'') (rq_addresses (last (ol_sent (snd ollama_run))))"
proof -
  have admitted: "forReasoningMode (le_url ollama_env) (JStr ''on_device'') [raw_ollama] (Some ''ann'') = Inr local_client"
    by code_simp
  have "lm_calls (snd (llm_generate ollama_env local_client (TextPrompt ''hello'') asked_options empty_llm_state)) = [ollama_call]"
    by code_simp
  then have made: "ollama_call \<in> set (calls_made ollama_env local_client (TextPrompt ''hello'') asked_options empty_llm_state)"
    by (simp add: calls_made_def)
  have sent: "ol_sent (snd ollama_run) \<noteq> []" using ollama_run_sent(2) by auto
  have lib: "on_url ollama_server = le_url ollama_env" "requests_keep_host (le_url ollama_env)"
    using local_keeps_host by (simp_all add: ollama_server_def ollama_env_def)
  have mode: "lc_mode local_client = on_device" by (simp add: local_client_def)
  have name: "pv_name (cl_provider ollama_call) = ollama"
    by (simp add: ollama_call_def call_for_def small_ollama_def)
  have "list_all (\<lambda>r. fst r = ''127.0.0.1'' \<or> fst r = ''::1'') (rq_addresses (last (ol_sent (snd ollama_run))))"
    using on_device_never_leaves [OF admitted mode empty_calls made name lib] last_in_set [OF sent]
    unfolding ollama_run_def by blast
  then show ?thesis using ollama_run_sent(3) by blast
qed

end
