(* ===== verification/TwinData.thy ===== *)
theory TwinData
  imports SharedTypes Float64
begin

text \<open>
  The data of the twin (packages/shared-types/src/twin.ts and patterns.ts, in full): evidence,
  inferences, preferences, patterns and the profile. The records of SharedTypes hold the fields that
  the decision pipeline reads; here they are extended by the others. The theory also has
  \<open>JSON.stringify\<close>, which the twin compares values with, the grouping of a list by a key in a Map,
  and the rule by which two observed values count as the same.
\<close>

section \<open>JSON.stringify\<close>

definition hex_digit :: "nat \<Rightarrow> char" where
  "hex_digit n = char_of (if n < 10 then 48 + n else 87 + n)"

definition json_escape :: "char \<Rightarrow> string" where
  "json_escape c =
     (if c = CHR 0x22 \<or> c = CHR 0x5C then [CHR 0x5C, c]
      else if c = CHR 0x08 then [CHR 0x5C, CHR ''b'']
      else if c = CHR 0x0C then [CHR 0x5C, CHR ''f'']
      else if c = CHR 0x0A then [CHR 0x5C, CHR ''n'']
      else if c = CHR 0x0D then [CHR 0x5C, CHR ''r'']
      else if c = CHR 0x09 then [CHR 0x5C, CHR ''t'']
      else if (of_char c :: nat) < 32
      then CHR 0x5C # ''u00'' @ [hex_digit (of_char c div 16), hex_digit (of_char c mod 16)]
      else [c])"

definition json_quote :: "string \<Rightarrow> string" where
  "json_quote s = CHR 0x22 # concat (map json_escape s) @ [CHR 0x22]"

text \<open>
  The text of a value inside an array, where undefined prints as null; a property whose value is
  undefined is left out. At the top undefined has no text.
\<close>

lemma size_property: "(k, v) \<in> set ob \<Longrightarrow> size v < Suc (size_list (size_prod (\<lambda>x. 0) size) ob)"
  by (induction ob) auto

lemma size_element: "v \<in> set vs \<Longrightarrow> size v < Suc (size_list size vs)"
  by (induction vs) auto

function json_text :: "jsval \<Rightarrow> string" where
  "json_text JUndefined = ''null''"
| "json_text JNull = ''null''"
| "json_text (JBool b) = (if b then ''true'' else ''false'')"
| "json_text (JNum n) = (if is_finite n then num_str n else ''null'')"
| "json_text (JStr s) = json_quote s"
| "json_text (JArr vs) = ''['' @ join_with '','' (map json_text vs) @ '']''"
| "json_text (JObj ob) = ''{'' @ join_with '',''
     (map (\<lambda>(k, v). json_quote k @ '':'' @ json_text v) (filter (\<lambda>(k, v). v \<noteq> JUndefined) ob)) @ ''}''"
  by pat_completeness auto
termination
  by (relation "measure size") (auto dest: size_property size_element)

definition stringify :: "jsval \<Rightarrow> string option" where
  "stringify v = (if v = JUndefined then None else Some (json_text v))"

section \<open>Grouping in a Map\<close>

text \<open>
  \<open>const group = m.get(k) ?? []; group.push(x); m.set(k, group)\<close> for every element: the groups in
  the order of their first element, each in the order of the list.
\<close>

definition push_to :: "'k \<Rightarrow> 'a \<Rightarrow> ('k \<times> 'a list) list \<Rightarrow> ('k \<times> 'a list) list" where
  "push_to k x m = put k ((case map_of m k of None \<Rightarrow> [] | Some g \<Rightarrow> g) @ [x]) m"

definition group_by :: "('a \<Rightarrow> 'k) \<Rightarrow> 'a list \<Rightarrow> ('k \<times> 'a list) list" where
  "group_by f xs = fold (\<lambda>x m. push_to (f x) x m) xs []"

lemma group_by_fold:
  "map_of (fold (\<lambda>x m. push_to (f x) x m) xs m) k =
     (case filter (\<lambda>x. f x = k) xs of [] \<Rightarrow> map_of m k
      | ys \<Rightarrow> Some ((case map_of m k of None \<Rightarrow> [] | Some g \<Rightarrow> g) @ ys))"
  by (induction xs arbitrary: m) (auto simp: push_to_def split: list.splits option.splits)

lemma map_of_group_by:
  "map_of (group_by f xs) k =
     (if k \<in> f ` set xs then Some (filter (\<lambda>x. f x = k) xs) else None)"
proof (cases "filter (\<lambda>x. f x = k) xs")
  case Nil
  then have "k \<notin> f ` set xs" by (auto simp: filter_empty_conv)
  then show ?thesis using Nil by (simp add: group_by_def group_by_fold)
next
  case (Cons y ys)
  then have "y \<in> set (filter (\<lambda>x. f x = k) xs)" by simp
  then have "k \<in> f ` set xs" by auto
  then show ?thesis using Cons by (simp add: group_by_def group_by_fold)
qed

lemma distinct_groups: "distinct (map fst (group_by f xs))"
proof -
  have "distinct (map fst m) \<Longrightarrow> distinct (map fst (fold (\<lambda>x m. push_to (f x) x m) xs m))" for m
    by (induction xs arbitrary: m) (simp_all add: push_to_def distinct_put)
  then show ?thesis by (simp add: group_by_def)
qed

lemma group_by_iff:
  "(k, g) \<in> set (group_by f xs) \<longleftrightarrow> k \<in> f ` set xs \<and> g = filter (\<lambda>x. f x = k) xs"
  unfolding map_of_eq_Some_iff [OF distinct_groups, symmetric] map_of_group_by by auto

lemma group_nonempty: "(k, g) \<in> set (group_by f xs) \<Longrightarrow> g \<noteq> []"
proof -
  assume "(k, g) \<in> set (group_by f xs)"
  then obtain x where "x \<in> set xs" "f x = k" "g = filter (\<lambda>x. f x = k) xs" by (auto simp: group_by_iff)
  then have "x \<in> set g" by simp
  then show "g \<noteq> []" by auto
qed

lemma keys_group_by: "fst ` set (group_by f xs) = f ` set xs"
proof (rule set_eqI)
  fix k
  have "k \<in> fst ` set (group_by f xs) \<longleftrightarrow> (\<exists>g. (k, g) \<in> set (group_by f xs))" by force
  then show "k \<in> fst ` set (group_by f xs) \<longleftrightarrow> k \<in> f ` set xs" by (simp add: group_by_iff)
qed

section \<open>Maps built from lists by a key\<close>

text \<open>
  \<open>for (const x of xs) m.set(key(x), x)\<close>, and the maps in which every entry stands under the key of
  its value.
\<close>

definition index_by :: "('v \<Rightarrow> 'k) \<Rightarrow> 'v list \<Rightarrow> ('k \<times> 'v) list" where
  "index_by f xs = fold (\<lambda>x. put (f x) x) xs []"

definition keyed :: "('v \<Rightarrow> 'k) \<Rightarrow> ('k \<times> 'v) list \<Rightarrow> bool" where
  "keyed f m \<longleftrightarrow> distinct (map fst m) \<and> (\<forall>(k, x) \<in> set m. f x = k)"

lemma set_put: "set (put k x m) \<subseteq> insert (k, x) (set m)"
  by (induction k x m rule: put.induct) auto

lemma keyed_put: "keyed f m \<Longrightarrow> f x = k \<Longrightarrow> keyed f (put k x m)"
  using distinct_put [of m k x] set_put [of k x m] unfolding keyed_def by fast

lemma keyed_at: "keyed f m \<Longrightarrow> map_of m k = Some x \<Longrightarrow> f x = k"
  by (auto simp: keyed_def dest: map_of_SomeD)

lemma keyed_keys: "keyed f m \<Longrightarrow> map f (map snd m) = map fst m"
  by (auto simp: keyed_def)

lemma keyed_distinct: "keyed f m \<Longrightarrow> distinct (map f (map snd m))"
  by (simp only: keyed_keys) (simp add: keyed_def)

lemma keyed_value: "keyed f m \<Longrightarrow> x \<in> snd ` set m \<longleftrightarrow> map_of m (f x) = Some x"
proof -
  assume m: "keyed f m"
  then have "x \<in> snd ` set m \<longleftrightarrow> (f x, x) \<in> set m" by (force simp: keyed_def)
  then show ?thesis using m by (simp add: keyed_def)
qed

lemma keyed_index: "keyed f (index_by f xs)"
proof -
  have "keyed f m \<Longrightarrow> keyed f (fold (\<lambda>x. put (f x) x) xs m)" for m
    by (induction xs arbitrary: m) (simp_all add: keyed_put)
  then show ?thesis unfolding index_by_def by (simp add: keyed_def [of f "[]"])
qed

lemma index_kept: "k \<notin> f ` set xs \<Longrightarrow> map_of (fold (\<lambda>x. put (f x) x) xs m) k = map_of m k"
  by (induction xs arbitrary: m) auto

lemma not_indexed: "k \<notin> f ` set xs \<Longrightarrow> map_of (index_by f xs) k = None"
  by (simp add: index_by_def index_kept)

lemma put_fresh: "k \<notin> fst ` set m \<Longrightarrow> put k x m = m @ [(k, x)]"
  by (induction k x m rule: put.induct) auto

lemma put_same: "map_of m k = Some x \<Longrightarrow> put k x m = m"
  by (induction k x m rule: put.induct) (auto split: if_splits)

lemma index_again:
  assumes "keyed f m"
  shows "index_by f (map snd m) = m"
proof -
  have "fold (\<lambda>x. put (f x) x) (map snd m) m0 = m0 @ m" if "keyed f (m0 @ m)" for m0
    using that
  proof (induction m arbitrary: m0)
    case (Cons e m)
    obtain k x where e: "e = (k, x)" by fastforce
    have "put (f x) x m0 = m0 @ [e]" using Cons.prems by (auto simp: keyed_def e intro!: put_fresh)
    then show ?case using Cons.IH [of "m0 @ [e]"] Cons.prems by (simp add: e)
  qed simp
  from this [of "[]"] assms show ?thesis by (simp add: index_by_def)
qed

section \<open>Keys made of two or three parts\<close>

text \<open>
  \<open>`${a}:${b}`\<close>: such a key determines its parts when the first one has no colon.
\<close>

definition pair_key :: "string \<Rightarrow> string \<Rightarrow> string" where
  "pair_key a b = a @ '':'' @ b"

lemma pair_key_inject:
  assumes "CHR '':'' \<notin> set a" "CHR '':'' \<notin> set a'"
  shows "pair_key a b = pair_key a' b' \<longleftrightarrow> a = a' \<and> b = b'"
  using assms unfolding pair_key_def
proof (induction a arbitrary: a')
  case Nil
  then show ?case by (cases a') auto
next
  case (Cons c a)
  then show ?case by (cases a') auto
qed

section \<open>Records\<close>

record twin_evidence =
  ev_id :: string
  ev_userId :: string
  ev_source :: string
  ev_type :: string
  ev_data :: jsobj
  ev_domain :: string
  ev_timestamp :: int

record stored_inference = inference +
  inf_supporting :: "string list"
  inf_contradicting :: "string list"
  inf_reasoning :: string
  inf_createdAt :: int
  inf_updatedAt :: int

datatype preference_source = ps_explicit | ps_inferred | ps_default | ps_corrected

record stored_preference = preference +
  pf_source :: preference_source
  pf_evidenceIds :: "string list"
  pf_createdAt :: int
  pf_updatedAt :: int

record stored_profile =
  sp_id :: string
  sp_userId :: string
  sp_version :: int
  sp_preferences :: "stored_preference list"
  sp_inferences :: "stored_inference list"
  sp_createdAt :: int
  sp_updatedAt :: int

datatype undo_severity = sev_minor | sev_moderate | sev_severe

datatype feedback_type = fb_approve | fb_reject | fb_correct | fb_ignore | fb_undo

record feedback_event =
  fe_id :: string
  fe_type :: feedback_type
  fe_correctedAction :: "string option"
  fe_correctedValue :: jsval
  fe_reason :: "string option"
  fe_undoSeverity :: "undo_severity option"

section \<open>Observed values that count as the same\<close>

text \<open>
  Objects and arrays are compared by their JSON text, numbers by a relative distance of a fifth.
  The subtraction and the division round to doubles.
\<close>

definition within_fifth :: "rat \<Rightarrow> rat \<Rightarrow> bool" where
  "within_fifth a b = (f64 (f64 \<bar>a - b\<bar> / max (max \<bar>a\<bar> \<bar>b\<bar>) 1) < f64 (1 / 5))"

definition is_object :: "jsval \<Rightarrow> bool" where
  "is_object v = (case v of JArr _ \<Rightarrow> True | JObj _ \<Rightarrow> True | _ \<Rightarrow> False)"

definition valuesAreConsistent :: "jsval \<Rightarrow> jsval \<Rightarrow> bool" where
  "valuesAreConsistent a b =
     (if strict_eq a b then True
      else if is_object a \<and> is_object b then stringify a = stringify b
      else (case (a, b) of
          (JNum (Fin x), JNum (Fin y)) \<Rightarrow> within_fifth x y
        | _ \<Rightarrow> False))"

lemma strict_eq_sym: "strict_eq a b = strict_eq b a"
  by (induction a b rule: strict_eq.induct) (auto simp: num_eq_def)

lemma within_fifth_sym: "within_fifth a b = within_fifth b a"
  by (simp add: within_fifth_def abs_minus_commute max.commute)

lemma consistent_sym: "valuesAreConsistent a b = valuesAreConsistent b a"
  unfolding valuesAreConsistent_def
  using strict_eq_sym [of a b] within_fifth_sym
  by (auto split: jsval.splits number.splits)

lemma consistent_refl: "a \<noteq> JNum NaN \<Longrightarrow> valuesAreConsistent a a"
  by (cases a) (auto simp: valuesAreConsistent_def is_object_def num_eq_def)

end
