(* ===== verification/TwinInference.thy ===== *)
theory TwinInference
  imports TwinData "HOL-Library.Sublist"
begin

text \<open>
  The inference engine of the twin (packages/twin-model/src/inference-engine.ts): what the evidence
  of a batch makes of the inferences about a user, the confidence it gives them, the contradictions
  among preferences, and what feedback does to the inferences. Feedback is applied in place, to
  objects that the caller's profile shares; so that function works on a store of objects.

  The clock is read once per operation. The random part of identifiers is a parameter, numbered by
  the size of the map of inferences at the creation.
\<close>

section \<open>Levels of confidence\<close>

definition CONFIDENCE_LEVELS :: "confidence_level list" where
  "CONFIDENCE_LEVELS = [C_SPECULATIVE, C_LOW, C_MODERATE, C_HIGH, C_CONFIRMED]"

definition level_index :: "'a \<Rightarrow> 'a list \<Rightarrow> nat" where
  "level_index x xs = length (takeWhile (\<lambda>y. y \<noteq> x) xs)"

definition increaseConfidence :: "confidence_level \<Rightarrow> confidence_level" where
  "increaseConfidence c =
     CONFIDENCE_LEVELS ! min (level_index c CONFIDENCE_LEVELS + 1) (length CONFIDENCE_LEVELS - 1)"

definition decreaseConfidence :: "confidence_level \<Rightarrow> confidence_level" where
  "decreaseConfidence c = CONFIDENCE_LEVELS ! (level_index c CONFIDENCE_LEVELS - 1)"

lemma increase_index [simp]:
  "confidence_index (increaseConfidence c) = min 4 (confidence_index c + 1)"
  by (cases c) (simp_all add: increaseConfidence_def level_index_def CONFIDENCE_LEVELS_def)

lemma decrease_index [simp]:
  "confidence_index (decreaseConfidence c) = max 0 (confidence_index c - 1)"
  by (cases c) (simp_all add: decreaseConfidence_def level_index_def CONFIDENCE_LEVELS_def)

lemma confidence_range: "0 \<le> confidence_index c \<and> confidence_index c \<le> 4"
  by (cases c) simp_all

lemma increases_index:
  "confidence_index ((increaseConfidence ^^ n) c) = min 4 (confidence_index c + int n)"
  using confidence_range [of c] by (induction n) auto

lemma decreases_index:
  "confidence_index ((decreaseConfidence ^^ n) c) = max 0 (confidence_index c - int n)"
  using confidence_range [of c] by (induction n) auto

section \<open>Signals of the evidence\<close>

record twin_signal =
  sg_key :: string
  sg_value :: jsval

text \<open>
  The signals of one item are added to those of the items before it; the whole data object is a
  signal only while nothing has been found in the group at all.
\<close>

definition add_signals :: "twin_evidence \<Rightarrow> twin_signal list \<Rightarrow> twin_signal list" where
  "add_signals ev s0 =
     (let d = ev_data ev;
        s1 = (if get d ''action'' \<noteq> JUndefined
          then s0 @ [\<lparr> sg_key = ''preferred_action_'' @ ev_type ev, sg_value = get d ''action'' \<rparr>] else s0);
        s2 = (if get d ''preference_key'' \<noteq> JUndefined \<and> get d ''preference_value'' \<noteq> JUndefined
          then s1 @ [\<lparr> sg_key = to_str (get d ''preference_key''), sg_value = get d ''preference_value'' \<rparr>]
          else s1);
        s3 = (if get d ''behavior'' \<noteq> JUndefined
          then s2 @ [\<lparr> sg_key = ''behavior_'' @ ev_type ev, sg_value = get d ''behavior'' \<rparr>] else s2) in
      if s3 = [] then s3 @ [\<lparr> sg_key = ''observation_'' @ ev_type ev, sg_value = JObj d \<rparr>] else s3)"

definition extractSignals :: "twin_evidence list \<Rightarrow> twin_signal list" where
  "extractSignals evs = fold add_signals evs []"

section \<open>Confidence of a batch\<close>

fun pairs_of :: "'a list \<Rightarrow> ('a \<times> 'a) list" where
  "pairs_of [] = []"
| "pairs_of (x # xs) = map (Pair x) xs @ pairs_of xs"

definition observed_value :: "twin_evidence \<Rightarrow> jsval" where
  "observed_value ev =
     nullish_or (nullish_or (get (ev_data ev) ''action'') (get (ev_data ev) ''preference_value''))
       (JObj (ev_data ev))"

text \<open>The share of consistent pairs among the pairs of values of the same type, a double.\<close>

definition measureConsistency :: "twin_evidence list \<Rightarrow> rat" where
  "measureConsistency evs =
     (if length evs \<le> 1 then 1
      else let prs = concat (map (\<lambda>(_, g). pairs_of (map observed_value g)) (group_by ev_type evs));
          good = filter (\<lambda>(a, b). valuesAreConsistent a b) prs in
        if length prs = 0 then 1 else f64 (of_nat (length good) / of_nat (length prs)))"

definition is_confirmation :: "twin_evidence \<Rightarrow> bool" where
  "is_confirmation e \<longleftrightarrow> ev_type e = ''explicit_preference'' \<or> ev_type e = ''user_correction''"

definition calculateConfidence :: "twin_evidence list \<Rightarrow> confidence_level" where
  "calculateConfidence evs =
     (if length evs = 0 then C_SPECULATIVE
      else if list_ex is_confirmation evs then C_CONFIRMED
      else let c = measureConsistency evs in
        if 5 \<le> length evs \<and> f64 (4 / 5) \<le> c then C_HIGH
        else if 3 \<le> length evs \<and> f64 (3 / 5) \<le> c then C_MODERATE
        else if 2 \<le> length evs \<and> f64 (2 / 5) \<le> c then C_LOW
        else C_SPECULATIVE)"

section \<open>Analysis of a batch\<close>

record inference_env =
  ie_now :: int
  ie_newId :: "nat \<Rightarrow> string"

definition quoted :: "string \<Rightarrow> string" where
  "quoted s = CHR 0x22 # s @ [CHR 0x22]"

definition mergeInference ::
  "inference_env \<Rightarrow> stored_inference \<Rightarrow> twin_signal \<Rightarrow> twin_evidence list \<Rightarrow> stored_inference" where
  "mergeInference env old sg evs =
     (let ids = map ev_id evs; n = digits_of (int (length evs)) in
      if valuesAreConsistent (inf_value old) (sg_value sg)
      then old \<lparr> inf_confidence := increaseConfidence (inf_confidence old),
          inf_supporting := inf_supporting old @ ids,
          inf_reasoning := inf_reasoning old @ '' Reinforced by '' @ n @ '' additional evidence item(s).'',
          inf_updatedAt := ie_now env \<rparr>
      else old \<lparr> inf_confidence := decreaseConfidence (inf_confidence old),
          inf_contradicting := inf_contradicting old @ ids,
          inf_reasoning := inf_reasoning old @ '' Contradicted by '' @ n
            @ '' evidence item(s); confidence decreased.'',
          inf_updatedAt := ie_now env \<rparr>)"

definition new_inference ::
  "inference_env \<Rightarrow> string \<Rightarrow> twin_evidence list \<Rightarrow> nat \<Rightarrow> twin_signal \<Rightarrow> stored_inference" where
  "new_inference env domain evs i sg =
     \<lparr> inf_id = ie_newId env i, inf_domain = domain, inf_key = sg_key sg, inf_value = sg_value sg,
       inf_confidence = calculateConfidence evs, inf_supporting = map ev_id evs, inf_contradicting = [],
       inf_reasoning = ''Inferred from '' @ digits_of (int (length evs)) @ '' evidence item(s) in domain ''
         @ quoted domain @ ''.'',
       inf_createdAt = ie_now env, inf_updatedAt = ie_now env \<rparr>"

type_synonym inference_map = "(string \<times> stored_inference) list"

definition inference_key :: "stored_inference \<Rightarrow> string" where
  "inference_key i = pair_key (inf_domain i) (inf_key i)"

definition apply_signal ::
  "inference_env \<Rightarrow> string \<Rightarrow> twin_evidence list \<Rightarrow> twin_signal \<Rightarrow> inference_map \<Rightarrow> inference_map" where
  "apply_signal env domain evs sg m =
     (let k = pair_key domain (sg_key sg) in
      case map_of m k of
        Some old \<Rightarrow> put k (mergeInference env old sg evs) m
      | None \<Rightarrow> put k (new_inference env domain evs (length m) sg) m)"

definition process_domain ::
  "inference_env \<Rightarrow> string \<times> twin_evidence list \<Rightarrow> inference_map \<Rightarrow> inference_map" where
  "process_domain env = (\<lambda>(domain, evs). fold (apply_signal env domain evs) (extractSignals evs))"

definition analyzeEvidence ::
  "inference_env \<Rightarrow> stored_inference list \<Rightarrow> twin_evidence list \<Rightarrow> stored_inference list" where
  "analyzeEvidence env existing newEvidence =
     map snd (fold (process_domain env) (group_by ev_domain newEvidence) (index_by inference_key existing))"

section \<open>Contradictions\<close>

record contradiction =
  cd_preferenceA :: stored_preference
  cd_preferenceB :: stored_preference
  cd_domain :: string
  cd_description :: string

definition contradiction_of :: "stored_preference \<Rightarrow> stored_preference \<Rightarrow> contradiction" where
  "contradiction_of a b =
     \<lparr> cd_preferenceA = a, cd_preferenceB = b, cd_domain = pf_domain a,
       cd_description = ''Conflicting values for '' @ quoted (pf_key a) @ '' in domain ''
         @ quoted (pf_domain a) @ '': '' @ quoted (to_str (pf_value a)) @ '' (''
         @ confidence_str (pf_confidence a) @ '') vs '' @ quoted (to_str (pf_value b)) @ '' (''
         @ confidence_str (pf_confidence b) @ '').'' \<rparr>"

definition preference_key :: "stored_preference \<Rightarrow> string" where
  "preference_key p = pair_key (pf_domain p) (pf_key p)"

definition conflicting :: "stored_preference \<times> stored_preference \<Rightarrow> bool" where
  "conflicting = (\<lambda>(a, b). \<not> valuesAreConsistent (pf_value a) (pf_value b))"

definition detectContradictions :: "stored_preference list \<Rightarrow> bool \<times> contradiction list" where
  "detectContradictions prefs =
     (let cs = concat (map (\<lambda>(_, g). if length g < 2 then []
          else map (\<lambda>(a, b). contradiction_of a b) (filter conflicting (pairs_of g)))
        (group_by preference_key prefs)) in
      (0 < length cs, cs))"

section \<open>Feedback\<close>

text \<open>
  The inferences of a profile as objects: a list of references into a store. The copy of the list
  that the code makes holds the same references.
\<close>

type_synonym inference_store = "nat \<Rightarrow> stored_inference"

definition adjust_at ::
  "inference_env \<Rightarrow> (confidence_level \<Rightarrow> confidence_level) \<Rightarrow> nat \<Rightarrow> inference_store \<Rightarrow> inference_store" where
  "adjust_at env f r h =
     (if 0 < length (inf_supporting (h r))
      then h(r := (h r) \<lparr> inf_confidence := f (inf_confidence (h r)), inf_updatedAt := ie_now env \<rparr>)
      else h)"

definition correction_inference :: "inference_env \<Rightarrow> nat \<Rightarrow> feedback_event \<Rightarrow> string \<Rightarrow> stored_inference" where
  "correction_inference env i fb what =
     \<lparr> inf_id = ie_newId env i, inf_domain = ''correction'', inf_key = what,
       inf_value = fe_correctedValue fb, inf_confidence = C_CONFIRMED, inf_supporting = [fe_id fb],
       inf_contradicting = [],
       inf_reasoning = ''User explicitly corrected this preference. Reason: ''
         @ (case fe_reason fb of None \<Rightarrow> ''none given'' | Some r \<Rightarrow> r) @ ''.'',
       inf_createdAt = ie_now env, inf_updatedAt = ie_now env \<rparr>"

text \<open>\<open>fresh\<close> is the reference of the object that a correction allocates.\<close>

definition updateInferencesFromFeedback ::
  "inference_env \<Rightarrow> nat \<Rightarrow> nat list \<Rightarrow> feedback_event \<Rightarrow> inference_store \<Rightarrow> nat list \<times> inference_store" where
  "updateInferencesFromFeedback env fresh refs fb h =
     (case fe_type fb of
        fb_approve \<Rightarrow> (refs, fold (adjust_at env increaseConfidence) refs h)
      | fb_reject \<Rightarrow> (refs, fold (adjust_at env decreaseConfidence) refs h)
      | fb_correct \<Rightarrow>
          (case fe_correctedAction fb of
             Some what \<Rightarrow>
               if what \<noteq> [] \<and> fe_correctedValue fb \<noteq> JUndefined
               then (refs @ [fresh], h(fresh := correction_inference env (length refs) fb what))
               else (refs, h)
           | None \<Rightarrow> (refs, h))
      | fb_undo \<Rightarrow> (refs, fold (adjust_at env decreaseConfidence) refs h)
      | fb_ignore \<Rightarrow> (refs, h))"

section \<open>What a batch does to one inference\<close>

text \<open>The signals of the batch that concern one inference, and its reaction to one of them.\<close>

definition relevant :: "string \<Rightarrow> string \<Rightarrow> twin_evidence list \<Rightarrow> twin_signal list" where
  "relevant d k evs = filter (\<lambda>s. sg_key s = k) (extractSignals (filter (\<lambda>e. ev_domain e = d) evs))"

definition reaction :: "jsval \<Rightarrow> twin_signal \<Rightarrow> confidence_level \<Rightarrow> confidence_level" where
  "reaction v sg = (if valuesAreConsistent v (sg_value sg) then increaseConfidence else decreaseConfidence)"

abbreviation merges ::
  "inference_env \<Rightarrow> twin_evidence list \<Rightarrow> twin_signal list \<Rightarrow> stored_inference \<Rightarrow> stored_inference" where
  "merges env evs \<equiv> fold (\<lambda>sg i. mergeInference env i sg evs)"

lemma merge_fields [simp]:
  "inf_id (mergeInference env i sg evs) = inf_id i"
  "inf_domain (mergeInference env i sg evs) = inf_domain i"
  "inf_key (mergeInference env i sg evs) = inf_key i"
  "inf_value (mergeInference env i sg evs) = inf_value i"
  "inf_createdAt (mergeInference env i sg evs) = inf_createdAt i"
  "inf_confidence (mergeInference env i sg evs) = reaction (inf_value i) sg (inf_confidence i)"
  by (simp_all add: mergeInference_def reaction_def Let_def)

lemma merges_fields [simp]:
  "inf_id (merges env evs sgs i) = inf_id i"
  "inf_domain (merges env evs sgs i) = inf_domain i"
  "inf_key (merges env evs sgs i) = inf_key i"
  "inf_value (merges env evs sgs i) = inf_value i"
  "inf_createdAt (merges env evs sgs i) = inf_createdAt i"
  "inf_confidence (merges env evs sgs i) = fold (reaction (inf_value i)) sgs (inf_confidence i)"
  by (induction sgs arbitrary: i) simp_all

lemma apply_signal_at:
  "map_of (apply_signal env d evs sg m) k =
     (if k = pair_key d (sg_key sg)
      then Some (case map_of m k of Some old \<Rightarrow> mergeInference env old sg evs
         | None \<Rightarrow> new_inference env d evs (length m) sg)
      else map_of m k)"
  by (simp add: apply_signal_def Let_def split: option.splits)

lemma signals_at:
  assumes "map_of m k = Some old"
  shows "map_of (fold (apply_signal env d evs) sgs m) k =
    Some (merges env evs (filter (\<lambda>s. pair_key d (sg_key s) = k) sgs) old)"
  using assms by (induction sgs arbitrary: m old) (auto simp: apply_signal_at)

lemma other_signals:
  assumes "\<forall>s \<in> set sgs. pair_key d (sg_key s) \<noteq> k"
  shows "map_of (fold (apply_signal env d evs) sgs m) k = map_of m k"
  using assms by (induction sgs arbitrary: m) (auto simp: apply_signal_at)

lemma pair_key_same [simp]: "pair_key d a = pair_key d b \<longleftrightarrow> a = b"
  by (simp add: pair_key_def)

lemma groups_elsewhere:
  assumes "CHR '':'' \<notin> set d" "\<forall>(d', g) \<in> set gs. CHR '':'' \<notin> set d' \<and> d' \<noteq> d"
  shows "map_of (fold (process_domain env) gs m) (pair_key d k) = map_of m (pair_key d k)"
  using assms by (induction gs arbitrary: m) (auto simp: process_domain_def other_signals pair_key_inject)

text \<open>The batch acts on a key through the group of its domain alone.\<close>

lemma split_group:
  assumes "d \<in> f ` set xs"
  obtains before_d after_d where
    "group_by f xs = before_d @ (d, filter (\<lambda>x. f x = d) xs) # after_d"
    "\<forall>(d', g) \<in> set before_d \<union> set after_d. d' \<in> f ` set xs \<and> d' \<noteq> d"
proof -
  have "(d, filter (\<lambda>x. f x = d) xs) \<in> set (group_by f xs)" using assms by (simp add: group_by_iff)
  then obtain us vs where s: "group_by f xs = us @ (d, filter (\<lambda>x. f x = d) xs) # vs"
    by (meson split_list)
  have "d' \<noteq> d" if "(d', g) \<in> set us \<union> set vs" for d' g
    using distinct_groups [of f xs] that unfolding s by (force simp: image_iff)
  moreover have "d' \<in> f ` set xs" if "(d', g) \<in> set us \<union> set vs" for d' g
    using that group_by_iff [of d' g f xs] unfolding s by auto
  ultimately show ?thesis using that [OF s] by blast
qed

abbreviation of_domain :: "string \<Rightarrow> twin_evidence list \<Rightarrow> twin_evidence list" where
  "of_domain d \<equiv> filter (\<lambda>e. ev_domain e = d)"

definition plain_domains :: "twin_evidence list \<Rightarrow> bool" where
  "plain_domains evs = list_all (\<lambda>e. CHR '':'' \<notin> set (ev_domain e)) evs"

lemma batch_at:
  assumes d: "CHR '':'' \<notin> set d" and evs: "plain_domains evs" and here: "d \<in> ev_domain ` set evs"
  obtains m' where "map_of m' (pair_key d k) = map_of m (pair_key d k)"
    and "map_of (fold (process_domain env) (group_by ev_domain evs) m) (pair_key d k) =
      map_of (fold (apply_signal env d (of_domain d evs)) (extractSignals (of_domain d evs)) m') (pair_key d k)"
proof -
  obtain us vs where s: "group_by ev_domain evs = us @ (d, of_domain d evs) # vs"
      "\<forall>(d', g) \<in> set us \<union> set vs. d' \<in> ev_domain ` set evs \<and> d' \<noteq> d"
    by (rule split_group [OF here])
  have others: "\<forall>(d', g) \<in> set us. CHR '':'' \<notin> set d' \<and> d' \<noteq> d"
      "\<forall>(d', g) \<in> set vs. CHR '':'' \<notin> set d' \<and> d' \<noteq> d"
    using s(2) evs by (force simp: plain_domains_def list_all_iff)+
  show ?thesis
    by (rule that [of "fold (process_domain env) us m"])
      (simp_all add: s(1) groups_elsewhere [OF d others(1)] groups_elsewhere [OF d others(2)]
        process_domain_def [of env, THEN fun_cong, of "(d, of_domain d evs)"])
qed

lemma batch_elsewhere:
  assumes "CHR '':'' \<notin> set d" "plain_domains evs" "d \<notin> ev_domain ` set evs"
  shows "map_of (fold (process_domain env) (group_by ev_domain evs) m) (pair_key d k) =
    map_of m (pair_key d k)"
  using assms by (intro groups_elsewhere) (auto simp: group_by_iff plain_domains_def list_all_iff)

section \<open>The map of inferences\<close>

lemma keyed_apply: "keyed inference_key m \<Longrightarrow> keyed inference_key (apply_signal env d evs sg m)"
  by (auto simp: apply_signal_def Let_def new_inference_def inference_key_def
      dest: keyed_at intro!: keyed_put split: option.splits)

lemma keyed_batch: "keyed inference_key m \<Longrightarrow> keyed inference_key (fold (process_domain env) gs m)"
proof (induction gs arbitrary: m)
  case (Cons g gs)
  have "keyed inference_key (fold (apply_signal env d evs) sgs m)" if "keyed inference_key m"
    for d evs sgs and m :: inference_map
    using that by (induction sgs arbitrary: m) (simp_all add: keyed_apply)
  then show ?case using Cons by (cases g) (simp add: process_domain_def)
qed simp

lemma analysed_keyed:
  "keyed inference_key (fold (process_domain env) (group_by ev_domain evs) (index_by inference_key infs))"
  by (rule keyed_batch [OF keyed_index])

lemma analysed_iff:
  "j \<in> set (analyzeEvidence env infs evs) \<longleftrightarrow>
   map_of (fold (process_domain env) (group_by ev_domain evs) (index_by inference_key infs)) (inference_key j)
     = Some j"
  using keyed_value [OF analysed_keyed [of env evs infs]] by (simp add: analyzeEvidence_def)

lemma analysed_distinct: "distinct (map inference_key (analyzeEvidence env infs evs))"
  unfolding analyzeEvidence_def by (rule keyed_distinct [OF analysed_keyed])

section \<open>What the twin learns from a batch\<close>

lemma same_key_signals:
  "filter (\<lambda>s. pair_key d (sg_key s) = pair_key d k) (extractSignals (of_domain d evs)) = relevant d k evs"
  by (simp add: relevant_def)

lemma relevant_none: "d \<notin> ev_domain ` set evs \<Longrightarrow> relevant d k evs = []"
proof -
  assume "d \<notin> ev_domain ` set evs"
  then have "of_domain d evs = []" by (auto simp: filter_empty_conv)
  then show ?thesis by (simp add: relevant_def extractSignals_def)
qed

lemma indexed_last:
  assumes "inference_key i \<notin> inference_key ` set vs"
  shows "map_of (index_by inference_key (us @ i # vs)) (inference_key i) = Some i"
  using assms by (simp add: index_by_def index_kept)

lemma existing_at:
  assumes "inference_key i \<notin> inference_key ` set vs" "CHR '':'' \<notin> set (inf_domain i)" "plain_domains evs"
  shows "map_of (fold (process_domain env) (group_by ev_domain evs)
      (index_by inference_key (us @ i # vs))) (inference_key i)
    = Some (merges env (of_domain (inf_domain i) evs) (relevant (inf_domain i) (inf_key i) evs) i)"
proof (cases "inf_domain i \<in> ev_domain ` set evs")
  case True
  let ?m = "index_by inference_key (us @ i # vs)" and ?d = "inf_domain i" and ?k = "inf_key i"
  obtain m' where m': "map_of m' (pair_key ?d ?k) = map_of ?m (pair_key ?d ?k)"
    "map_of (fold (process_domain env) (group_by ev_domain evs) ?m) (pair_key ?d ?k) =
      map_of (fold (apply_signal env ?d (of_domain ?d evs)) (extractSignals (of_domain ?d evs)) m')
        (pair_key ?d ?k)"
    by (rule batch_at [OF assms(2,3) True])
  have "map_of m' (pair_key ?d ?k) = Some i"
    using m'(1) indexed_last [OF assms(1)] by (simp add: inference_key_def)
  from signals_at [OF this] m'(2) show ?thesis
    by (simp only: inference_key_def same_key_signals)
next
  case False
  then show ?thesis
    using batch_elsewhere [OF assms(2,3) False] indexed_last [OF assms(1)] relevant_none [OF False]
    by (simp add: inference_key_def)
qed

lemma only_one: "distinct (map f xs) \<Longrightarrow> j \<in> set xs \<Longrightarrow> filter (\<lambda>x. f x = f j) xs = [j]"
proof (induction xs)
  case (Cons x xs)
  show ?case
  proof (cases "f x = f j")
    case True
    then have "f j \<notin> f ` set xs" using Cons.prems(1) by simp
    then have "j \<notin> set xs" "filter (\<lambda>x. f x = f j) xs = []"
      by (auto simp: filter_empty_conv image_iff)
    then show ?thesis using Cons.prems(2) True by simp
  next
    case False
    then show ?thesis using Cons by auto
  qed
qed simp

text \<open>
  What a batch of evidence does to the last inference of a domain and key: earlier ones of the same
  domain and key are gone after the batch.
\<close>

lemma batch_moves:
  assumes "inference_key i \<notin> inference_key ` set vs" "CHR '':'' \<notin> set (inf_domain i)" "plain_domains evs"
  shows "\<exists>j. filter (\<lambda>x. inference_key x = inference_key i) (analyzeEvidence env (us @ i # vs) evs) = [j] \<and>
    inf_id j = inf_id i \<and> inf_domain j = inf_domain i \<and> inf_key j = inf_key i \<and>
    inf_value j = inf_value i \<and> inf_createdAt j = inf_createdAt i \<and>
    inf_confidence j =
      fold (reaction (inf_value i)) (relevant (inf_domain i) (inf_key i) evs) (inf_confidence i)"
proof -
  let ?j = "merges env (of_domain (inf_domain i) evs) (relevant (inf_domain i) (inf_key i) evs) i"
  have key: "inference_key ?j = inference_key i" by (simp add: inference_key_def)
  then have "?j \<in> set (analyzeEvidence env (us @ i # vs) evs)"
    using existing_at [OF assms, of env us] by (simp add: analysed_iff)
  from only_one [OF analysed_distinct this] show ?thesis unfolding key by (intro exI [of _ ?j]) simp
qed

lemma confidence_follows:
  assumes "distinct (map inference_key infs)" "i \<in> set infs" "CHR '':'' \<notin> set (inf_domain i)"
    and "plain_domains evs"
  shows "\<exists>j \<in> set (analyzeEvidence env infs evs).
    inf_id j = inf_id i \<and> inf_domain j = inf_domain i \<and> inf_key j = inf_key i \<and>
    inf_value j = inf_value i \<and> inf_createdAt j = inf_createdAt i \<and>
    inf_confidence j =
      fold (reaction (inf_value i)) (relevant (inf_domain i) (inf_key i) evs) (inf_confidence i)"
proof -
  obtain us vs where infs: "infs = us @ i # vs" using assms(2) by (meson split_list)
  then have "inference_key i \<notin> inference_key ` set vs" using assms(1) by auto
  from batch_moves [OF this assms(3,4), of env us] obtain j where
    j: "filter (\<lambda>x. inference_key x = inference_key i) (analyzeEvidence env infs evs) = [j]"
    "inf_id j = inf_id i \<and> inf_domain j = inf_domain i \<and> inf_key j = inf_key i \<and>
     inf_value j = inf_value i \<and> inf_createdAt j = inf_createdAt i \<and> inf_confidence j =
       fold (reaction (inf_value i)) (relevant (inf_domain i) (inf_key i) evs) (inf_confidence i)"
    unfolding infs by blast
  have "j \<in> set (filter (\<lambda>x. inference_key x = inference_key i) (analyzeEvidence env infs evs))"
    unfolding j(1) by simp
  then show ?thesis using j(2) by auto
qed

text \<open>
  C35: what a batch of evidence does to the inferences that exist, when no domain of the batch and not
  the domain of the inference has a colon in it (the key that the code builds is domain, colon, key). Of
  several inferences of the same domain and key only the last one survives the batch, alone. It keeps
  its identity, its value and its date; its confidence moves by one level up for every signal of its
  domain and key in the batch that agrees with its value, and one level down for every one that does
  not, in their order. So the value of the surviving inference is not revised, whatever the batch says.
\<close>

theorem confidence_follows_signals:
  assumes "infs = us @ i # vs" "\<forall>x \<in> set vs. inference_key x \<noteq> inference_key i"
    and "CHR '':'' \<notin> set (inf_domain i)" "plain_domains evs"
  shows "\<exists>j. filter (\<lambda>x. inference_key x = inference_key i) (analyzeEvidence env infs evs) = [j] \<and>
    inf_id j = inf_id i \<and> inf_domain j = inf_domain i \<and> inf_key j = inf_key i \<and>
    inf_value j = inf_value i \<and> inf_createdAt j = inf_createdAt i \<and>
    inf_confidence j =
      fold (reaction (inf_value i)) (relevant (inf_domain i) (inf_key i) evs) (inf_confidence i)"
proof -
  have "inference_key i \<notin> inference_key ` set vs" using assms(2) by (metis imageE)
  from batch_moves [OF this assms(3,4)] show ?thesis unfolding assms(1) .
qed

lemma agreeing_index:
  assumes "\<forall>s \<in> set sgs. valuesAreConsistent v (sg_value s)"
  shows "fold (reaction v) sgs c = (increaseConfidence ^^ length sgs) c"
  using assms
proof (induction sgs arbitrary: c)
  case (Cons s sgs)
  have "reaction v s = increaseConfidence" using Cons.prems by (simp add: reaction_def)
  then have "fold (reaction v) (s # sgs) c = (increaseConfidence ^^ length sgs) (increaseConfidence c)"
    using Cons by simp
  then show ?case by (simp add: funpow_swap1)
qed simp

lemma fresh_signals_at:
  assumes "map_of m k = None" "filter (\<lambda>s. pair_key d (sg_key s) = k) sgs = sg # rest"
  shows "\<exists>n. map_of (fold (apply_signal env d evs) sgs m) k =
    Some (merges env evs rest (new_inference env d evs n sg))"
  using assms
proof (induction sgs arbitrary: m)
  case (Cons s sgs)
  show ?case
  proof (cases "pair_key d (sg_key s) = k")
    case True
    then have "map_of (apply_signal env d evs s m) k = Some (new_inference env d evs (length m) s)"
      using Cons.prems(1) by (simp add: apply_signal_at)
    from signals_at [OF this, of env d evs sgs] True Cons.prems(2) show ?thesis by auto
  next
    case False
    then show ?thesis using Cons by (simp add: apply_signal_at)
  qed
qed simp

text \<open>
  an observation that is new to the twin. The first signal of a key in a batch makes the
  inference, with the confidence of the whole evidence of the domain in the batch; every further
  signal of the same batch then moves that confidence by a level as if it were later evidence.
\<close>

theorem new_inference_confidence:
  assumes "pair_key d k \<notin> inference_key ` set infs" "relevant d k evs = sg # rest"
    and "CHR '':'' \<notin> set d" "plain_domains evs"
  shows "\<exists>j \<in> set (analyzeEvidence env infs evs).
    inf_domain j = d \<and> inf_key j = k \<and> inf_value j = sg_value sg \<and>
    inf_confidence j = fold (reaction (sg_value sg)) rest (calculateConfidence (of_domain d evs))"
proof -
  have here: "d \<in> ev_domain ` set evs" using assms(2) relevant_none [of d evs k] by auto
  obtain m' where m': "map_of m' (pair_key d k) = map_of (index_by inference_key infs) (pair_key d k)"
    "map_of (fold (process_domain env) (group_by ev_domain evs) (index_by inference_key infs)) (pair_key d k) =
      map_of (fold (apply_signal env d (of_domain d evs)) (extractSignals (of_domain d evs)) m')
        (pair_key d k)"
    by (rule batch_at [OF assms(3,4) here])
  have none: "map_of m' (pair_key d k) = None" using m'(1) not_indexed [OF assms(1)] by simp
  have sig: "filter (\<lambda>s. pair_key d (sg_key s) = pair_key d k) (extractSignals (of_domain d evs)) = sg # rest"
    unfolding same_key_signals by (rule assms(2))
  obtain n where n: "map_of (fold (process_domain env) (group_by ev_domain evs) (index_by inference_key infs))
      (pair_key d k) = Some (merges env (of_domain d evs) rest (new_inference env d (of_domain d evs) n sg))"
    using fresh_signals_at [OF none sig, of env "of_domain d evs"] m'(2) by auto
  let ?j = "merges env (of_domain d evs) rest (new_inference env d (of_domain d evs) n sg)"
  have "sg_key sg = k" using assms(2) by (auto simp: relevant_def filter_eq_Cons_iff)
  then have f: "inf_domain ?j = d" "inf_key ?j = k" by (simp_all add: new_inference_def)
  then have "?j \<in> set (analyzeEvidence env infs evs)" using n by (simp add: analysed_iff inference_key_def)
  then show ?thesis using f by (intro bexI [of _ ?j]) (simp_all add: new_inference_def)
qed

section \<open>Any number of batches\<close>

definition learn ::
  "inference_env list \<Rightarrow> twin_evidence list list \<Rightarrow> stored_inference list \<Rightarrow> stored_inference list" where
  "learn envs batches infs = fold (\<lambda>(env, evs) infs. analyzeEvidence env infs evs) (zip envs batches) infs"

text \<open>The observable identity of an inference, which no evidence changes.\<close>

definition same_inference :: "stored_inference \<Rightarrow> stored_inference \<Rightarrow> bool" where
  "same_inference i j \<longleftrightarrow> inf_id j = inf_id i \<and> inf_domain j = inf_domain i \<and> inf_key j = inf_key i \<and>
     inf_value j = inf_value i \<and> inf_createdAt j = inf_createdAt i"

lemma learn_keeps:
  assumes "distinct (map inference_key infs)" "i \<in> set infs" "CHR '':'' \<notin> set (inf_domain i)"
    and "list_all plain_domains batches"
  shows "distinct (map inference_key (learn envs batches infs)) \<and>
    (\<exists>j \<in> set (learn envs batches infs). same_inference i j)"
  using assms
proof (induction batches arbitrary: envs infs i)
  case (Cons evs batches)
  show ?case
  proof (cases envs)
    case (Cons env rest)
    obtain j where j: "j \<in> set (analyzeEvidence env infs evs)" "same_inference i j"
      using confidence_follows [OF Cons.prems(1-3), of evs env] Cons.prems(4)
      by (auto simp: same_inference_def)
    have "CHR '':'' \<notin> set (inf_domain j)" using j(2) Cons.prems(3) by (simp add: same_inference_def)
    from Cons.IH [OF analysed_distinct j(1) this, of rest] Cons.prems(4) j(2) show ?thesis
      by (auto simp: Cons learn_def same_inference_def)
  qed (use Cons.prems in \<open>auto simp: learn_def same_inference_def\<close>)
qed (auto simp: learn_def same_inference_def)

section \<open>The contradictions that are reported\<close>

lemma subseq_pair_Cons:
  "subseq [a, b] (x # xs) \<longleftrightarrow> (a = x \<and> b \<in> set xs) \<or> subseq [a, b] xs"
  using subseq_Cons' [of a "[b]" xs] by (auto simp: subseq_singleton_left subseq_Cons2_iff)

lemma pairs_of_iff: "(a, b) \<in> set (pairs_of xs) \<longleftrightarrow> subseq [a, b] xs"
  by (induction xs) (auto simp: subseq_pair_Cons simp del: subseq_Cons2_iff)

lemma subseq_pair_filter: "subseq [a, b] (filter P xs) \<longleftrightarrow> subseq [a, b] xs \<and> P a \<and> P b"
proof (induction xs)
  case (Cons x xs)
  have "subseq [a, b] xs \<Longrightarrow> b \<in> set xs" for xs
    using subseq_Cons' [of a "[b]" xs] by (simp add: subseq_singleton_left)
  then show ?case using Cons by (auto simp: subseq_pair_Cons simp del: subseq_Cons2_iff)
qed simp

definition contradicts :: "stored_preference \<Rightarrow> stored_preference \<Rightarrow> bool" where
  "contradicts a b \<longleftrightarrow> preference_key a = preference_key b \<and> \<not> valuesAreConsistent (pf_value a) (pf_value b)"

lemma small_groups: "length g < 2 \<Longrightarrow> pairs_of g = []"
  by (cases g; cases "tl g") auto

text \<open>
  the contradictions are reported exactly: a pair of preferences is reported when the first stands
  before the second in the list, both have the same domain and key, and their values do not agree; and
  the flag says whether there is such a pair.
\<close>

theorem contradictions_exact:
  "(c \<in> set (snd (detectContradictions prefs)) \<longleftrightarrow>
      (\<exists>a b. subseq [a, b] prefs \<and> contradicts a b \<and> c = contradiction_of a b)) \<and>
   (fst (detectContradictions prefs) \<longleftrightarrow> (\<exists>a b. subseq [a, b] prefs \<and> contradicts a b))"
proof -
  let ?cs = "concat (map (\<lambda>(_, g). map (\<lambda>(a, b). contradiction_of a b)
      (filter conflicting (pairs_of g))) (group_by preference_key prefs))"
  have eq: "detectContradictions prefs = (0 < length ?cs, ?cs)"
  proof -
    have "(\<lambda>(_ :: string, g). if length g < 2 then []
        else map (\<lambda>(a, b). contradiction_of a b) (filter conflicting (pairs_of g))) =
      (\<lambda>(_, g). map (\<lambda>(a, b). contradiction_of a b) (filter conflicting (pairs_of g)))"
      by (auto simp: fun_eq_iff small_groups)
    then show ?thesis by (simp only: detectContradictions_def Let_def)
  qed
  have mem: "x \<in> set ?cs \<longleftrightarrow> (\<exists>a b. subseq [a, b] prefs \<and> contradicts a b \<and> x = contradiction_of a b)" for x
  proof
    assume "x \<in> set ?cs"
    then obtain k a b where x: "x = contradiction_of a b" "conflicting (a, b)"
      "(a, b) \<in> set (pairs_of (filter (\<lambda>p. preference_key p = k) prefs))"
      by (auto simp: group_by_iff)
    then have "subseq [a, b] prefs" "contradicts a b"
      unfolding pairs_of_iff subseq_pair_filter by (simp_all add: contradicts_def conflicting_def)
    then show "\<exists>a b. subseq [a, b] prefs \<and> contradicts a b \<and> x = contradiction_of a b"
      using x(1) by blast
  next
    assume "\<exists>a b. subseq [a, b] prefs \<and> contradicts a b \<and> x = contradiction_of a b"
    then obtain a b where x: "subseq [a, b] prefs" "contradicts a b" "x = contradiction_of a b" by blast
    let ?g = "filter (\<lambda>p. preference_key p = preference_key b) prefs"
    have "b \<in> set prefs" using x(1) subseq_Cons' [of a "[b]" prefs] by (simp add: subseq_singleton_left)
    then have "(preference_key b, ?g) \<in> set (group_by preference_key prefs)" by (simp add: group_by_iff)
    moreover have "(a, b) \<in> set (filter conflicting (pairs_of ?g))"
      using x(1,2) by (auto simp: pairs_of_iff subseq_pair_filter contradicts_def conflicting_def)
    ultimately show "x \<in> set ?cs" using x(3) by force
  qed
  have "0 < length ?cs \<longleftrightarrow> (\<exists>x. x \<in> set ?cs)" by (cases ?cs) auto
  then show ?thesis unfolding eq fst_conv snd_conv using mem by blast
qed

section \<open>Feedback on the store\<close>

lemma adjust_at_apply:
  "adjust_at env f r h x = (if x = r \<and> inf_supporting (h x) \<noteq> []
     then (h x) \<lparr> inf_confidence := f (inf_confidence (h x)), inf_updatedAt := ie_now env \<rparr> else h x)"
  by (auto simp: adjust_at_def)

lemma adjust_fields [simp]:
  "inf_id (fold (adjust_at env f) refs h x) = inf_id (h x)"
  "inf_domain (fold (adjust_at env f) refs h x) = inf_domain (h x)"
  "inf_key (fold (adjust_at env f) refs h x) = inf_key (h x)"
  "inf_value (fold (adjust_at env f) refs h x) = inf_value (h x)"
  "inf_supporting (fold (adjust_at env f) refs h x) = inf_supporting (h x)"
  by (induction refs arbitrary: h) (simp_all add: adjust_at_apply)

lemma adjust_once:
  assumes "distinct refs"
  shows "inf_confidence (fold (adjust_at env f) refs h x) =
    (if x \<in> set refs \<and> inf_supporting (h x) \<noteq> [] then f (inf_confidence (h x)) else inf_confidence (h x))"
  using assms by (induction refs arbitrary: h) (auto simp: adjust_at_apply)

end
