(* ===== verification/TwinAnalyzers.thy ===== *)
theory TwinAnalyzers
  imports TwinInference
begin

text \<open>
  The analyzers of the twin (packages/twin-model/src/analyzers): habits from repeated actions
  (pattern-detector.ts), traits that show in several domains (cross-domain-analyzer.ts) and the hours
  and days of activity (temporal-analyzer.ts). The clock, the random part of identifiers (numbered by
  the size of the map of patterns) and the local time zone are parameters. Patterns that exist are
  updated in place by the code; nothing else refers to them, so here they are replaced in the map.
\<close>

section \<open>Habits\<close>

datatype pattern_type = pt_habit | pt_temporal | pt_contextual | pt_cross_domain

record stored_pattern = behavioral_pattern +
  bp_id :: string
  bp_userId :: string
  bp_type :: pattern_type
  bp_description :: string
  bp_source :: "string option"
  bp_senderPattern :: jsval
  bp_confidence :: confidence_level
  bp_firstObservedAt :: int
  bp_lastObservedAt :: int
  bp_metadata :: jsobj

definition frequencyToConfidence :: "int \<Rightarrow> confidence_level" where
  "frequencyToConfidence n =
     (if 20 \<le> n then C_CONFIRMED else if 10 \<le> n then C_HIGH else if 5 \<le> n then C_MODERATE
      else if 3 \<le> n then C_LOW else C_SPECULATIVE)"

definition triple_key :: "string \<Rightarrow> string \<Rightarrow> string \<Rightarrow> string" where
  "triple_key d s a = pair_key d (pair_key s a)"

definition printed :: "string option \<Rightarrow> string" where
  "printed x = (case x of None \<Rightarrow> ''undefined'' | Some s \<Rightarrow> s)"

definition pattern_key :: "stored_pattern \<Rightarrow> string" where
  "pattern_key p = triple_key (printed (bp_triggerDomain p)) (printed (bp_source p)) (bp_observedAction p)"

definition habit_action :: "twin_evidence \<Rightarrow> string" where
  "habit_action ev = to_str
     (nullish_or (nullish_or (get (ev_data ev) ''action'') (get (ev_data ev) ''behavior''))
       (JStr (ev_type ev)))"

definition habit_key :: "twin_evidence \<Rightarrow> string" where
  "habit_key ev = triple_key (ev_domain ev) (ev_source ev) (habit_action ev)"

text \<open>A Set of values, in the order of insertion.\<close>

definition set_add :: "jsval \<Rightarrow> jsval list \<Rightarrow> jsval list" where
  "set_add v vs = (if list_ex (same_value_zero v) vs then vs else vs @ [v])"

definition sender_pattern :: "twin_evidence list \<Rightarrow> jsval" where
  "sender_pattern g =
     (let senders = filter truthy (map (\<lambda>e. get (ev_data e) ''from'') g) in
      if length (fold set_add senders []) = 1 then hd senders else JUndefined)"

record pattern_env =
  pe_newId :: "nat \<Rightarrow> string"

definition update_pattern :: "twin_evidence list \<Rightarrow> stored_pattern \<Rightarrow> stored_pattern" where
  "update_pattern g p =
     (let n = max (bp_frequency p) (int (length g));
        p1 = p \<lparr> bp_frequency := n, bp_lastObservedAt := Max (set (map ev_timestamp g)),
          bp_confidence := frequencyToConfidence n \<rparr> in
      if truthy (sender_pattern g) then p1 \<lparr> bp_senderPattern := sender_pattern g \<rparr> else p1)"

definition create_pattern :: "pattern_env \<Rightarrow> nat \<Rightarrow> string \<Rightarrow> twin_evidence list \<Rightarrow> stored_pattern" where
  "create_pattern env i key g =
     (let parts = split_on CHR '':'' key; domain = parts ! 0; source = parts ! 1; action = parts ! 2 in
      \<lparr> bp_observedAction = action, bp_triggerDomain = Some domain, bp_frequency = int (length g),
        bp_id = pe_newId env i, bp_userId = ev_userId (hd g),
        bp_type = (if truthy (sender_pattern g) then pt_contextual else pt_habit),
        bp_description = ''User consistently performs '' @ quoted action @ '' for '' @ source
          @ '' signals in '' @ domain,
        bp_source = Some source, bp_senderPattern = sender_pattern g,
        bp_confidence = frequencyToConfidence (int (length g)),
        bp_firstObservedAt = Min (set (map ev_timestamp g)),
        bp_lastObservedAt = Max (set (map ev_timestamp g)),
        bp_metadata = [(''sampleEvidenceIds'', JArr (map (\<lambda>e. JStr (ev_id e)) (take 5 g)))] \<rparr>)"

type_synonym pattern_map = "(string \<times> stored_pattern) list"

definition detect_group ::
  "pattern_env \<Rightarrow> string \<times> twin_evidence list \<Rightarrow> pattern_map \<Rightarrow> pattern_map" where
  "detect_group env = (\<lambda>(key, g) m.
     if length g < 3 then m
     else (case map_of m key of
         Some old \<Rightarrow> put key (update_pattern g old) m
       | None \<Rightarrow> put key (create_pattern env (length m) key g) m))"

definition detectHabits ::
  "pattern_env \<Rightarrow> twin_evidence list \<Rightarrow> stored_pattern list \<Rightarrow> stored_pattern list" where
  "detectHabits env evidence existing =
     map snd (fold (detect_group env) (group_by habit_key evidence) (index_by pattern_key existing))"

section \<open>Traits\<close>

text \<open>A Set of domains and a count: what one rule finds.\<close>

type_synonym finding = "string list \<times> int"

definition add_domain :: "string \<Rightarrow> int \<Rightarrow> finding \<Rightarrow> finding" where
  "add_domain d n = (\<lambda>(ds, c). (if d \<in> set ds then ds else ds @ [d], c + n))"

definition any_in :: "string \<Rightarrow> string list \<Rightarrow> bool" where
  "any_in s ws \<longleftrightarrow> list_ex (\<lambda>w. str_includes s w) ws"

definition known_domain :: "stored_pattern \<Rightarrow> string" where
  "known_domain p = (case bp_triggerDomain p of None \<Rightarrow> ''unknown'' | Some d \<Rightarrow> d)"

definition inference_text :: "stored_inference \<Rightarrow> string" where
  "inference_text i = to_lower (to_str (inf_value i))"

definition each_inference ::
  "(stored_inference \<Rightarrow> bool) \<Rightarrow> stored_inference list \<Rightarrow> finding \<Rightarrow> finding" where
  "each_inference P infs = fold (\<lambda>i f. if P i then add_domain (inf_domain i) 1 f else f) infs"

definition each_pattern :: "(stored_pattern \<Rightarrow> bool) \<Rightarrow> stored_pattern list \<Rightarrow> finding \<Rightarrow> finding" where
  "each_pattern P ps = fold (\<lambda>p f. if P p then add_domain (known_domain p) (bp_frequency p) f else f) ps"

definition cautious_spender :: "stored_inference list \<Rightarrow> stored_pattern list \<Rightarrow> finding" where
  "cautious_spender infs ps =
     each_pattern (\<lambda>p. any_in (bp_observedAction p) [''cancel'', ''reject''] \<and>
         bp_triggerDomain p \<in> {Some ''subscriptions'', Some ''shopping'', Some ''travel''}) ps
       (each_inference (\<lambda>i. any_in (inference_text i) [''reject'', ''escalat'', ''deny''] \<and>
         any_in (inf_key i) [''cost'', ''spend'', ''financial'']) infs ([], 0))"

definition quick_responder :: "stored_inference list \<Rightarrow> stored_pattern list \<Rightarrow> finding" where
  "quick_responder infs ps =
     each_inference (\<lambda>i. any_in (inference_text i) [''immediate'', ''quick'', ''fast'']) infs
       (each_pattern (\<lambda>p. (bp_type p = pt_temporal \<or> bp_type p = pt_habit) \<and>
         get (bp_metadata p) ''avgResponseMs'' \<noteq> JUndefined \<and>
         js_less (get (bp_metadata p) ''avgResponseMs'') (JNum (Fin 300000))) ps ([], 0))"

definition privacy_conscious :: "stored_inference list \<Rightarrow> stored_pattern list \<Rightarrow> finding" where
  "privacy_conscious infs ps =
     each_pattern (\<lambda>p. any_in (bp_observedAction p) [''reject'', ''deny''] \<and>
         any_in (to_lower (bp_description p)) [''privacy'', ''sharing'']) ps
       (each_inference (\<lambda>i. any_in (to_lower (inf_key i)) [''privacy'', ''sharing'', ''data''] \<and>
         any_in (inference_text i) [''reject'', ''deny'', ''escalat'']) infs ([], 0))"

definition routine_driven :: "stored_inference list \<Rightarrow> stored_pattern list \<Rightarrow> finding" where
  "routine_driven infs ps =
     each_pattern (\<lambda>p. bp_type p = pt_habit \<and> 10 \<le> bp_frequency p \<and>
       (bp_confidence p = C_HIGH \<or> bp_confidence p = C_CONFIRMED)) ps ([], 0)"

definition delegation_averse :: "stored_inference list \<Rightarrow> stored_pattern list \<Rightarrow> finding" where
  "delegation_averse infs ps =
     each_inference (\<lambda>i. any_in (inference_text i) [''manual'', ''review'', ''approval'']) infs ([], 0)"

record stored_trait = cross_domain_trait +
  ct_id :: string
  ct_confidence :: confidence_level
  ct_supportingDomains :: "string list"
  ct_evidenceCount :: int
  ct_description :: string

definition TRAIT_DEFINITIONS ::
  "(string \<times> string \<times> (stored_inference list \<Rightarrow> stored_pattern list \<Rightarrow> finding)) list" where
  "TRAIT_DEFINITIONS =
     [(''cautious_spender'', ''Consistently rejects or escalates financial actions across domains'',
        cautious_spender),
      (''quick_responder'', ''Responds to urgent items quickly across domains'', quick_responder),
      (''privacy_conscious'', ''Escalates or rejects actions with privacy implications'', privacy_conscious),
      (''routine_driven'', ''Strong temporal patterns with high consistency'', routine_driven),
      (''delegation_averse'', ''Rarely auto-executes even when trust tier allows'', delegation_averse)]"

definition domainCountToConfidence :: "nat \<Rightarrow> confidence_level" where
  "domainCountToConfidence n = (if 4 \<le> n then C_HIGH else if 3 \<le> n then C_MODERATE else C_LOW)"

definition detectTraits :: "int \<Rightarrow> stored_inference list \<Rightarrow> stored_pattern list \<Rightarrow> stored_trait list" where
  "detectTraits now infs ps = concat (map (\<lambda>(name, description, detect).
     let (ds, n) = detect infs ps in
     if 2 \<le> length ds
     then [\<lparr> ct_traitName = name, ct_id = ''trait_'' @ name @ ''_'' @ int_str now,
         ct_confidence = domainCountToConfidence (length ds), ct_supportingDomains = ds,
         ct_evidenceCount = n, ct_description = description \<rparr>]
     else []) TRAIT_DEFINITIONS)"

section \<open>Hours and days\<close>

record temporal_profile =
  tm_userId :: string
  tm_start :: nat
  tm_end :: nat
  tm_peakResponseTimes :: "(string \<times> rat) list"
  tm_weekdayPatterns :: "(nat \<times> jsval list) list"

record local_time =
  lt_hour :: "int \<Rightarrow> nat"
  lt_day :: "int \<Rightarrow> nat"

definition emptyProfile :: "string \<Rightarrow> temporal_profile" where
  "emptyProfile u = \<lparr> tm_userId = u, tm_start = 8, tm_end = 22, tm_peakResponseTimes = [],
     tm_weekdayPatterns = [] \<rparr>"

definition hour_count :: "local_time \<Rightarrow> twin_evidence list \<Rightarrow> nat \<Rightarrow> nat" where
  "hour_count lt evs h = length (filter (\<lambda>e. lt_hour lt (ev_timestamp e) = h) evs)"

definition busy_hour :: "local_time \<Rightarrow> twin_evidence list \<Rightarrow> nat \<Rightarrow> bool" where
  "busy_hour lt evs h \<longleftrightarrow>
     f64 (f64 (of_nat (length evs) / 24) * (1 / 2)) < of_nat (hour_count lt evs h)"

definition first_of :: "nat \<Rightarrow> (nat \<Rightarrow> bool) \<Rightarrow> nat list \<Rightarrow> nat" where
  "first_of d P hs = (case find P hs of None \<Rightarrow> d | Some h \<Rightarrow> h)"

text \<open>The numbers of the response times, as their type says; other values are not modelled.\<close>

definition response_time :: "twin_evidence \<Rightarrow> rat option" where
  "response_time ev = (case get (ev_data ev) ''responseTimeMs'' of JNum (Fin x) \<Rightarrow> Some x | _ \<Rightarrow> None)"

definition median_time :: "twin_evidence list \<Rightarrow> rat" where
  "median_time g = (let ts = sort (map (\<lambda>e. the (response_time e)) g) in ts ! (length ts div 2))"

definition day_action :: "twin_evidence \<Rightarrow> jsval" where
  "day_action ev = nullish_or (get (ev_data ev) ''action'') (JStr (ev_type ev))"

definition top_actions :: "twin_evidence list \<Rightarrow> jsval list" where
  "top_actions g = map fst (take 3 (sort_key (\<lambda>(_, xs). - int (length xs)) (group_by id (map day_action g))))"

definition analyzeTemporalPatterns :: "local_time \<Rightarrow> twin_evidence list \<Rightarrow> temporal_profile" where
  "analyzeTemporalPatterns lt evs =
     (if length evs = 0 then emptyProfile []
      else \<lparr> tm_userId = ev_userId (hd evs),
        tm_start = first_of 0 (busy_hour lt evs) [0..<24],
        tm_end = first_of 23 (busy_hour lt evs) (rev [0..<24]),
        tm_peakResponseTimes = map (\<lambda>(d, g). (d, median_time g))
          (group_by ev_domain (filter (\<lambda>e. response_time e \<noteq> None) evs)),
        tm_weekdayPatterns = map (\<lambda>(d, g). (d, top_actions g))
          (group_by (\<lambda>e. lt_day lt (ev_timestamp e)) evs) \<rparr>)"

definition isActiveHour :: "local_time \<Rightarrow> temporal_profile \<Rightarrow> int \<Rightarrow> bool" where
  "isActiveHour lt p t =
     (let hour = lt_hour lt t in
      if tm_start p \<le> tm_end p then tm_start p \<le> hour \<and> hour \<le> tm_end p
      else tm_start p \<le> hour \<or> hour \<le> tm_end p)"

section \<open>The detector settles\<close>

definition plain_habits :: "twin_evidence list \<Rightarrow> bool" where
  "plain_habits evs = list_all (\<lambda>e. CHR '':'' \<notin> set (ev_domain e) \<and> CHR '':'' \<notin> set (ev_source e) \<and>
     CHR '':'' \<notin> set (habit_action e)) evs"

lemma split_plain: "c \<notin> set s \<Longrightarrow> split_on c s = [s]"
  by (induction c s rule: split_on.induct) (auto split: list.splits)

lemma split_first: "c \<notin> set s \<Longrightarrow> split_on c (s @ c # t) = s # split_on c t"
  by (induction s) (auto split: list.splits)

lemma split_triple:
  assumes "CHR '':'' \<notin> set d" "CHR '':'' \<notin> set s" "CHR '':'' \<notin> set a"
  shows "split_on CHR '':'' (triple_key d s a) = [d, s, a]"
  using assms by (simp add: triple_key_def pair_key_def split_first split_plain)

lemma update_pattern_key: "pattern_key (update_pattern g p) = pattern_key p"
  by (simp add: update_pattern_def pattern_key_def Let_def)

lemma update_twice [simp]: "update_pattern g (update_pattern g p) = update_pattern g p"
  by (simp add: update_pattern_def Let_def)

lemma update_created [simp]:
  "update_pattern g (create_pattern env i key g) = create_pattern env i key g"
  by (simp add: update_pattern_def create_pattern_def Let_def)

lemma created_key:
  assumes "CHR '':'' \<notin> set d" "CHR '':'' \<notin> set s" "CHR '':'' \<notin> set a" "key = triple_key d s a"
  shows "pattern_key (create_pattern env i key g) = key"
  using split_triple [OF assms(1-3)]
  by (simp add: create_pattern_def pattern_key_def printed_def Let_def assms(4))

definition plain_key :: "string \<Rightarrow> bool" where
  "plain_key k \<longleftrightarrow> (\<exists>d s a. k = triple_key d s a \<and> CHR '':'' \<notin> set d \<and> CHR '':'' \<notin> set s \<and> CHR '':'' \<notin> set a)"

lemma plain_groups:
  assumes "plain_habits evs" "(k, g) \<in> set (group_by habit_key evs)"
  shows "plain_key k"
  using assms by (fastforce simp: group_by_iff plain_habits_def list_all_iff plain_key_def habit_key_def)

lemma keyed_detect:
  assumes "plain_key k" "keyed pattern_key m"
  shows "keyed pattern_key (detect_group env (k, g) m)"
  using assms created_key
  by (auto simp: detect_group_def plain_key_def update_pattern_key dest: keyed_at
      intro!: keyed_put split: option.splits)

lemma keyed_detects:
  assumes "\<forall>(k, g) \<in> set gs. plain_key k" "keyed pattern_key m"
  shows "keyed pattern_key (fold (detect_group env) gs m)"
  using assms by (induction gs arbitrary: m) (auto simp: keyed_detect)

lemma detect_at:
  "map_of (detect_group env (k, g) m) k' =
     (if k' = k \<and> 3 \<le> length g
      then Some (case map_of m k of Some p \<Rightarrow> update_pattern g p | None \<Rightarrow> create_pattern env (length m) k g)
      else map_of m k')"
  by (simp add: detect_group_def split: option.splits)

lemma detect_elsewhere:
  "k \<notin> fst ` set gs \<Longrightarrow> map_of (fold (detect_group env) gs m) k = map_of m k"
  by (induction gs arbitrary: m) (auto simp: detect_at)

text \<open>A group has left its mark on the map: running it again changes nothing.\<close>

definition settled :: "string \<times> twin_evidence list \<Rightarrow> pattern_map \<Rightarrow> bool" where
  "settled = (\<lambda>(k, g) m. length g < 3 \<or> (\<exists>p. map_of m k = Some p \<and> update_pattern g p = p))"

lemma settled_again: "settled e m \<Longrightarrow> detect_group env e m = m"
  by (auto simp: settled_def detect_group_def put_same split: prod.splits)

lemma settled_all:
  assumes "distinct (map fst gs)" "e \<in> set gs"
  shows "settled e (fold (detect_group env) gs m)"
  using assms
proof (induction gs arbitrary: m)
  case (Cons x gs)
  show ?case
  proof (cases "e = x")
    case True
    obtain k g where x: "x = (k, g)" by fastforce
    then have "map_of (fold (detect_group env) gs (detect_group env x m)) k = map_of (detect_group env x m) k"
      using Cons.prems(1) by (intro detect_elsewhere) auto
    then show ?thesis
      by (auto simp: True x settled_def detect_at split: option.splits)
  qed (use Cons in auto)
qed simp

lemma settled_fold: "\<forall>e \<in> set gs. settled e m \<Longrightarrow> fold (detect_group env) gs m = m"
  by (induction gs) (auto simp: settled_again)

text \<open>
  C37: on evidence whose domains, sources and actions have no colon the detector of habits settles: when
  it runs again on the same evidence, with the patterns it has just found, it finds the same patterns.
  (With a colon in the action it does not: lemma colon_action_duplicates of theory TwinExamples.)
\<close>

theorem habits_settle:
  assumes "plain_habits evs"
  shows "detectHabits env' evs (detectHabits env evs ps) = detectHabits env evs ps"
proof -
  let ?gs = "group_by habit_key evs"
  let ?m = "fold (detect_group env) ?gs (index_by pattern_key ps)"
  have "keyed pattern_key ?m"
    using plain_groups [OF assms] by (intro keyed_detects keyed_index) auto
  then have "index_by pattern_key (map snd ?m) = ?m" by (rule index_again)
  moreover have "fold (detect_group env') ?gs ?m = ?m"
    by (rule settled_fold) (simp add: settled_all distinct_groups)
  ultimately show ?thesis by (simp add: detectHabits_def)
qed

section \<open>Traits need two domains\<close>

definition drawn_from :: "string set \<Rightarrow> finding \<Rightarrow> bool" where
  "drawn_from D = (\<lambda>(ds, c). distinct ds \<and> set ds \<subseteq> D)"

lemma drawn_add: "drawn_from D f \<Longrightarrow> d \<in> D \<Longrightarrow> drawn_from D (add_domain d n f)"
  by (cases f) (auto simp: drawn_from_def add_domain_def)

lemma drawn_inferences:
  "drawn_from D f \<Longrightarrow> inf_domain ` set infs \<subseteq> D \<Longrightarrow> drawn_from D (each_inference P infs f)"
  unfolding each_inference_def by (induction infs arbitrary: f) (auto simp: drawn_add)

lemma drawn_patterns:
  "drawn_from D f \<Longrightarrow> known_domain ` set ps \<subseteq> D \<Longrightarrow> drawn_from D (each_pattern P ps f)"
  unfolding each_pattern_def by (induction ps arbitrary: f) (auto simp: drawn_add)

lemma drawn_start: "drawn_from D ([], 0)"
  by (simp add: drawn_from_def)

lemmas trait_defs = cautious_spender_def quick_responder_def privacy_conscious_def routine_driven_def
  delegation_averse_def

lemma drawn_traits:
  assumes "(name, text_of, detect) \<in> set TRAIT_DEFINITIONS"
  shows "drawn_from (inf_domain ` set infs \<union> known_domain ` set ps) (detect infs ps)"
  using assms unfolding TRAIT_DEFINITIONS_def
  by (auto simp: trait_defs intro!: drawn_inferences drawn_patterns drawn_start)

text \<open>
  a trait is never drawn from one part of the user's life: every trait that is reported names at
  least two different domains, each the domain of an inference or of a pattern, and its confidence is
  low, moderate or high by their number, never confirmed.
\<close>

theorem traits_span_domains:
  "\<forall>t \<in> set (detectTraits now infs ps).
     2 \<le> card (set (ct_supportingDomains t)) \<and>
     set (ct_supportingDomains t) \<subseteq> inf_domain ` set infs \<union> known_domain ` set ps \<and>
     ct_confidence t = domainCountToConfidence (card (set (ct_supportingDomains t))) \<and>
     ct_confidence t \<noteq> C_CONFIRMED"
proof
  fix t assume "t \<in> set (detectTraits now infs ps)"
  then obtain name why detect where d: "(name, why, detect) \<in> set TRAIT_DEFINITIONS"
    "2 \<le> length (fst (detect infs ps))" "ct_supportingDomains t = fst (detect infs ps)"
    "ct_confidence t = domainCountToConfidence (length (fst (detect infs ps)))"
    by (auto simp: detectTraits_def Let_def case_prod_unfold split: if_splits)
  have "distinct (fst (detect infs ps))"
    "set (fst (detect infs ps)) \<subseteq> inf_domain ` set infs \<union> known_domain ` set ps"
    using drawn_traits [OF d(1), of infs ps] by (simp_all add: drawn_from_def case_prod_unfold)
  then show "2 \<le> card (set (ct_supportingDomains t)) \<and>
     set (ct_supportingDomains t) \<subseteq> inf_domain ` set infs \<union> known_domain ` set ps \<and>
     ct_confidence t = domainCountToConfidence (card (set (ct_supportingDomains t))) \<and>
     ct_confidence t \<noteq> C_CONFIRMED"
    using d by (simp add: distinct_card domainCountToConfidence_def)
qed

section \<open>Active hours\<close>

lemma hour_total:
  assumes "\<forall>e \<in> set evs. lt_hour lt (ev_timestamp e) < n"
  shows "(\<Sum>h < n. hour_count lt evs h) = length evs"
  using assms
proof (induction evs)
  case (Cons e evs)
  have "(\<Sum>h < n. hour_count lt (e # evs) h) =
      (\<Sum>h < n. (if lt_hour lt (ev_timestamp e) = h then 1 else 0) + hour_count lt evs h)"
    by (rule sum.cong) (simp_all add: hour_count_def)
  also have "\<dots> = 1 + length evs" using Cons by (simp add: sum.distrib)
  finally show ?case by simp
qed (simp add: hour_count_def)

lemma some_hour_busy:
  assumes "evs \<noteq> []" "\<forall>e \<in> set evs. lt_hour lt (ev_timestamp e) < 24"
  shows "\<exists>h < 24. busy_hour lt evs h"
proof (rule ccontr)
  assume none: "\<not> (\<exists>h < 24. busy_hour lt evs h)"
  let ?x = "of_nat (length evs) / 24 :: rat"
  have x: "0 < ?x" using assms(1) by simp
  have "of_nat (hour_count lt evs h) < ?x" if "h < 24" for h
    using none that f64_half_bound [OF x] unfolding busy_hour_def by (meson not_less le_less_trans)
  then have "(\<Sum>h < 24. of_nat (hour_count lt evs h)) < (\<Sum>h < (24::nat). ?x)"
    by (intro sum_strict_mono) (auto simp: lessThan_empty_iff)
  moreover have "(\<Sum>h < 24. of_nat (hour_count lt evs h) :: rat) = of_nat (length evs)"
    using hour_total [OF assms(2)] by (metis of_nat_sum)
  ultimately show False by simp
qed

lemma first_found: "find P hs = Some h \<Longrightarrow> first_of d P hs = h"
  by (simp add: first_of_def)

lemma first_busy:
  assumes "\<exists>h < n. P h"
  shows "P (first_of d P [0..<n]) \<and> first_of d P [0..<n] < n \<and> (\<forall>h. P h \<longrightarrow> first_of d P [0..<n] \<le> h)"
proof -
  obtain h where h: "find P [0..<n] = Some h"
    using assms by (cases "find P [0..<n]") (auto simp: find_None_iff)
  then obtain i where i: "i < n" "P ([0..<n] ! i)" "h = [0..<n] ! i" "\<forall>j < i. \<not> P ([0..<n] ! j)"
    by (auto simp: find_Some_iff)
  then have "\<forall>k. P k \<longrightarrow> h \<le> k" by (auto simp: not_le [symmetric])
  then show ?thesis using i by (simp add: first_found [OF h])
qed

lemma last_busy:
  assumes "\<exists>h < n. P h"
  shows "P (first_of d P (rev [0..<n])) \<and> first_of d P (rev [0..<n]) < n \<and>
    (\<forall>h < n. P h \<longrightarrow> h \<le> first_of d P (rev [0..<n]))"
proof -
  obtain h where h: "find P (rev [0..<n]) = Some h"
    using assms by (cases "find P (rev [0..<n])") (auto simp: find_None_iff)
  then obtain i where i: "i < n" "P (rev [0..<n] ! i)" "h = rev [0..<n] ! i" "\<forall>j < i. \<not> P (rev [0..<n] ! j)"
    by (auto simp: find_Some_iff)
  then have hi: "h = n - Suc i" by (simp add: rev_nth)
  have "k \<le> h" if "k < n" "P k" for k
  proof (rule ccontr)
    assume "\<not> k \<le> h"
    then have "n - Suc k < i" using hi i(1) that(1) by linarith
    moreover have "rev [0..<n] ! (n - Suc k) = k" using that(1) by (simp add: rev_nth)
    ultimately show False using i(4) that(2) by metis
  qed
  then show ?thesis using i hi by (simp add: first_found [OF h])
qed

text \<open>
  the active hours of a profile that was built from evidence start and end at busy hours of a day
  (hours with more than half of the average), in this order, and every busy hour is active. So the
  branch for a range that wraps around midnight is never taken for such a profile: a user who is busy
  around midnight is active all day.
\<close>

theorem active_hours_cover:
  assumes "evs \<noteq> []" "\<forall>e \<in> set evs. lt_hour lt (ev_timestamp e) < 24"
  shows "let p = analyzeTemporalPatterns lt evs in
    tm_start p \<le> tm_end p \<and> tm_end p < 24 \<and> busy_hour lt evs (tm_start p) \<and> busy_hour lt evs (tm_end p) \<and>
    (\<forall>t. lt_hour lt t < 24 \<and> busy_hour lt evs (lt_hour lt t) \<longrightarrow> isActiveHour lt p t)"
proof -
  note busy = some_hour_busy [OF assms]
  note s = first_busy [OF busy, of 0] and e = last_busy [OF busy, of 23]
  have f: "tm_start (analyzeTemporalPatterns lt evs) = first_of 0 (busy_hour lt evs) [0..<24]"
    "tm_end (analyzeTemporalPatterns lt evs) = first_of 23 (busy_hour lt evs) (rev [0..<24])"
    using assms(1) by (simp_all add: analyzeTemporalPatterns_def)
  have le: "first_of 0 (busy_hour lt evs) [0..<24] \<le> first_of 23 (busy_hour lt evs) (rev [0..<24])"
    using s e by blast
  show ?thesis unfolding Let_def isActiveHour_def f using s e le by auto
qed

end
