(* ===== verification/TwinService.thy ===== *)
theory TwinService
  imports TwinAnalyzers
begin

text \<open>
  The service that owns a user's twin (packages/twin-model/src/twin-service.ts), the recorder of
  changes (preference-evolution.ts) and the handler of the twin page that removes or corrects insights
  (apps/api/src/routes/twin.ts). An operation takes what the repositories answer and returns the
  profile and the calls it makes on the repositories, in their order. The object that a repository
  answers to a write is a parameter too. The cache of temporal profiles is the state of the service.
\<close>

section \<open>Ports and effects\<close>

datatype attribution = by_feedback | by_evidence | by_explicit | by_inference

record preference_change =
  pc_preferenceId :: string
  pc_userId :: string
  pc_previousValue :: jsval
  pc_newValue :: jsval
  pc_previousConfidence :: "confidence_level option"
  pc_newConfidence :: confidence_level
  pc_attributionType :: attribution
  pc_attributionId :: "string option"

datatype twin_effect =
    Profile_created stored_profile
  | Profile_updated stored_profile
  | Evidence_added twin_evidence
  | Feedback_added feedback_event
  | Preference_upserted string stored_preference
  | Inference_upserted string stored_inference
  | Pattern_upserted string stored_pattern
  | Trait_upserted string stored_trait
  | Change_recorded preference_change

record pattern_repository =
  pr_getPatterns :: "string \<Rightarrow> stored_pattern list"
  pr_getTraits :: "string \<Rightarrow> stored_trait list"

record twin_ports =
  tr_getProfile :: "string \<Rightarrow> stored_profile option"
  tr_createProfile :: "stored_profile \<Rightarrow> stored_profile"
  tr_updateProfile :: "stored_profile \<Rightarrow> stored_profile"
  tr_getEvidence :: "string \<Rightarrow> nat \<Rightarrow> twin_evidence list"
  tr_getPreferencesByDomain :: "string \<Rightarrow> string \<Rightarrow> stored_preference list"
  tr_getInferences :: "string \<Rightarrow> stored_inference list"
  tr_patterns :: "pattern_repository option"
  tr_history :: bool
  tw_env :: inference_env
  tw_uuid :: string
  tw_newPreferenceId :: "nat \<Rightarrow> string"
  tw_patternEnv :: pattern_env
  tw_localTime :: local_time

abbreviation tw_now :: "twin_ports \<Rightarrow> int" where
  "tw_now p \<equiv> ie_now (tw_env p)"

section \<open>Recording changes (preference-evolution.ts)\<close>

definition recordChange ::
  "twin_ports \<Rightarrow> string \<Rightarrow> stored_preference option \<Rightarrow> stored_preference \<Rightarrow> attribution \<Rightarrow> string option
     \<Rightarrow> twin_effect list" where
  "recordChange p u prev new how ref =
     (if \<not> tr_history p then []
      else [Change_recorded \<lparr> pc_preferenceId = pf_id new, pc_userId = u,
        pc_previousValue = (case prev of None \<Rightarrow> JNull | Some q \<Rightarrow> nullish_or (pf_value q) JNull),
        pc_newValue = pf_value new, pc_previousConfidence = map_option pf_confidence prev,
        pc_newConfidence = pf_confidence new, pc_attributionType = how, pc_attributionId = ref \<rparr>])"

section \<open>Profiles\<close>

definition default_profile :: "twin_ports \<Rightarrow> string \<Rightarrow> stored_profile" where
  "default_profile p u =
     \<lparr> sp_id = tw_uuid p, sp_userId = u, sp_version = 1, sp_preferences = [], sp_inferences = [],
       sp_createdAt = tw_now p, sp_updatedAt = tw_now p \<rparr>"

definition getOrCreateProfile :: "twin_ports \<Rightarrow> string \<Rightarrow> stored_profile \<times> twin_effect list" where
  "getOrCreateProfile p u =
     (case tr_getProfile p u of
        Some prof \<Rightarrow> (prof, [])
      | None \<Rightarrow> (tr_createProfile p (default_profile p u), [Profile_created (default_profile p u)]))"

text \<open>The write that ends every operation: the next version of the profile.\<close>

definition next_version :: "twin_ports \<Rightarrow> stored_profile \<Rightarrow> stored_profile" where
  "next_version p prof = prof \<lparr> sp_version := sp_version prof + 1, sp_updatedAt := tw_now p \<rparr>"

definition save :: "twin_ports \<Rightarrow> stored_profile \<Rightarrow> twin_effect list \<Rightarrow> stored_profile \<times> twin_effect list" where
  "save p prof fx =
     (tr_updateProfile p (next_version p prof), fx @ [Profile_updated (next_version p prof)])"

definition find_index :: "('a \<Rightarrow> bool) \<Rightarrow> 'a list \<Rightarrow> nat option" where
  "find_index P xs = find (\<lambda>i. P (xs ! i)) [0..<length xs]"

text \<open>\<open>[...new Set(xs)]\<close>\<close>

definition unique :: "'a list \<Rightarrow> 'a list" where
  "unique xs = rev (remdups (rev xs))"

abbreviation same_slot :: "stored_preference \<Rightarrow> stored_preference \<Rightarrow> bool" where
  "same_slot q r \<equiv> pf_domain q = pf_domain r \<and> pf_key q = pf_key r"

definition put_preference ::
  "twin_ports \<Rightarrow> stored_preference \<Rightarrow> stored_preference list \<Rightarrow> stored_preference list" where
  "put_preference p pref prefs =
     (case find_index (\<lambda>q. same_slot q pref) prefs of
        Some i \<Rightarrow> prefs[i := pref \<lparr> pf_id := pf_id (prefs ! i),
          pf_evidenceIds := unique (pf_evidenceIds (prefs ! i) @ pf_evidenceIds pref),
          pf_updatedAt := tw_now p \<rparr>]
      | None \<Rightarrow> prefs @ [pref \<lparr> pf_id := (if pf_id pref \<noteq> [] then pf_id pref else tw_newPreferenceId p 0),
          pf_createdAt := tw_now p, pf_updatedAt := tw_now p \<rparr>])"

definition updatePreference ::
  "twin_ports \<Rightarrow> string \<Rightarrow> stored_preference \<Rightarrow> stored_profile \<times> twin_effect list" where
  "updatePreference p u pref =
     (let (prof, fx) = getOrCreateProfile p u;
        previous = map_option (\<lambda>i. sp_preferences prof ! i)
          (find_index (\<lambda>q. same_slot q pref) (sp_preferences prof)) in
      save p (prof \<lparr> sp_preferences := put_preference p pref (sp_preferences prof) \<rparr>)
        (fx @ [Preference_upserted u pref] @ recordChange p u previous pref by_explicit None))"

definition updateProfileInferences ::
  "twin_ports \<Rightarrow> string \<Rightarrow> stored_inference list \<Rightarrow> stored_profile \<times> twin_effect list" where
  "updateProfileInferences p u infs =
     (let (prof, fx) = getOrCreateProfile p u in save p (prof \<lparr> sp_inferences := infs \<rparr>) fx)"

definition replaceProfileInsights ::
  "twin_ports \<Rightarrow> string \<Rightarrow> stored_preference list \<Rightarrow> stored_inference list
     \<Rightarrow> stored_profile \<times> twin_effect list" where
  "replaceProfileInsights p u prefs infs =
     (let (prof, fx) = getOrCreateProfile p u in
      save p (prof \<lparr> sp_preferences := prefs, sp_inferences := infs \<rparr>) fx)"

section \<open>Insights that the user removes or corrects (apps/api/src/routes/twin.ts)\<close>

text \<open>
  The handler of DELETE /:userId/insights, the only caller of \<open>replaceProfileInsights\<close>. It reads the
  profile, and the service reads it again before it writes: the ports of the two reads are two
  arguments, because another request may write in between. The identifier it makes is a port.
\<close>

record insight_body =
  ib_domain :: string
  ib_key :: string
  ib_newValue :: "string option"

datatype insight_refusal = missing_userId | missing_fields | field_too_long

definition corrected_preference :: "twin_ports \<Rightarrow> insight_body \<Rightarrow> string \<Rightarrow> stored_preference" where
  "corrected_preference p b v =
     \<lparr> pf_id = tw_newPreferenceId p 0, pf_domain = ib_domain b, pf_key = ib_key b,
       pf_value = JStr (trim v), pf_confidence = C_CONFIRMED, pf_source = ps_corrected,
       pf_evidenceIds = [], pf_createdAt = tw_now p, pf_updatedAt = tw_now p \<rparr>"

definition insight_refused :: "string \<Rightarrow> insight_body \<Rightarrow> insight_refusal option" where
  "insight_refused u b =
     (if u = [] then Some missing_userId
      else if ib_domain b = [] \<or> ib_key b = [] then Some missing_fields
      else if 64 < length (ib_domain b) \<or> 128 < length (ib_key b) \<or>
        (case ib_newValue b of Some v \<Rightarrow> 10000 < length v | None \<Rightarrow> False) then Some field_too_long
      else None)"

definition edited_insights ::
  "twin_ports \<Rightarrow> insight_body \<Rightarrow> stored_profile \<Rightarrow> stored_preference list \<times> stored_inference list" where
  "edited_insights p b prof =
     (let infs = filter (\<lambda>i. \<not> (inf_domain i = ib_domain b \<and> inf_key i = ib_key b)) (sp_inferences prof);
        prefs = filter (\<lambda>q. \<not> (pf_domain q = ib_domain b \<and> pf_key q = ib_key b)) (sp_preferences prof) in
      case ib_newValue b of
        Some v \<Rightarrow> if trim v \<noteq> [] then (prefs @ [corrected_preference p b v], infs) else (prefs, infs)
      | None \<Rightarrow> (prefs, infs))"

definition deleteInsights ::
  "twin_ports \<Rightarrow> twin_ports \<Rightarrow> string \<Rightarrow> insight_body
     \<Rightarrow> insight_refusal + stored_profile \<times> twin_effect list" where
  "deleteInsights p p' u b =
     (case insight_refused u b of
        Some why \<Rightarrow> Inl why
      | None \<Rightarrow>
          (let (prof, fx) = getOrCreateProfile p u; (prefs, infs) = edited_insights p b prof in
           Inr (apsnd ((@) fx) (replaceProfileInsights p' u prefs infs))))"

section \<open>Evidence\<close>

type_synonym temporal_cache = "string \<Rightarrow> temporal_profile option"

definition addEvidence ::
  "twin_ports \<Rightarrow> string \<Rightarrow> twin_evidence \<Rightarrow> temporal_cache
     \<Rightarrow> (stored_profile \<times> twin_effect list) \<times> temporal_cache" where
  "addEvidence p u ev cache =
     (let (prof, fx) = getOrCreateProfile p u; fx0 = Evidence_added ev # fx in
      case tr_patterns p of
        Some repo \<Rightarrow>
          let evs = tr_getEvidence p u 100;
            infs = analyzeEvidence (tw_env p) (sp_inferences prof) evs;
            ps = detectHabits (tw_patternEnv p) evs (pr_getPatterns repo u);
            tm = analyzeTemporalPatterns (tw_localTime p) evs;
            traits = detectTraits (tw_now p) infs ps in
          (save p (prof \<lparr> sp_inferences := infs \<rparr>)
             (fx0 @ map (Pattern_upserted u) ps @ map (Trait_upserted u) traits
               @ map (Inference_upserted u) infs), cache(u := Some tm))
      | None \<Rightarrow>
          let infs = analyzeEvidence (tw_env p) (sp_inferences prof) [ev] in
          (save p (prof \<lparr> sp_inferences := infs \<rparr>) (fx0 @ map (Inference_upserted u) infs), cache))"

definition promoted :: "twin_ports \<Rightarrow> nat \<Rightarrow> stored_inference \<Rightarrow> stored_preference" where
  "promoted p i j =
     \<lparr> pf_id = tw_newPreferenceId p i, pf_domain = inf_domain j, pf_key = inf_key j,
       pf_value = inf_value j, pf_confidence = inf_confidence j, pf_source = ps_inferred,
       pf_evidenceIds = inf_supporting j, pf_createdAt = tw_now p, pf_updatedAt = tw_now p \<rparr>"

definition promote ::
  "twin_ports \<Rightarrow> nat \<times> stored_inference \<Rightarrow> stored_preference list \<Rightarrow> stored_preference list" where
  "promote p = (\<lambda>(i, j) prefs.
     if inf_confidence j \<noteq> C_HIGH \<and> inf_confidence j \<noteq> C_CONFIRMED then prefs
     else (case find_index (\<lambda>q. same_slot q (promoted p i j)) prefs of
         Some k \<Rightarrow>
           if confidence_index (pf_confidence (prefs ! k)) < confidence_index (inf_confidence j)
           then prefs[k := (promoted p i j) \<lparr> pf_id := pf_id (prefs ! k) \<rparr>] else prefs
       | None \<Rightarrow> prefs @ [promoted p i j]))"

definition promoteInferences ::
  "twin_ports \<Rightarrow> stored_preference list \<Rightarrow> stored_inference list \<Rightarrow> stored_preference list" where
  "promoteInferences p prefs infs = fold (promote p) (enumerate 0 infs) prefs"

definition inferPreferences ::
  "twin_ports \<Rightarrow> string \<Rightarrow> twin_evidence list \<Rightarrow> stored_profile \<times> twin_effect list" where
  "inferPreferences p u signals =
     (let (prof, fx) = getOrCreateProfile p u;
        infs = analyzeEvidence (tw_env p) (sp_inferences prof) signals;
        prefs = promoteInferences p (sp_preferences prof) infs in
      save p (prof \<lparr> sp_inferences := infs, sp_preferences := prefs \<rparr>)
        (fx @ map Evidence_added signals @ map (Inference_upserted u) infs
          @ map (Preference_upserted u) prefs))"

section \<open>Queries\<close>

function split_spaces :: "string \<Rightarrow> string list" where
  "split_spaces s =
     (let w = takeWhile (\<lambda>c. \<not> is_space c) s; rest = dropWhile (\<lambda>c. \<not> is_space c) s in
      if rest = [] then [w] else w # split_spaces (dropWhile is_space rest))"
  by auto
termination
proof (relation "measure length")
  fix s w rest :: string
  assume "rest = dropWhile (\<lambda>c. \<not> is_space c) s" "rest \<noteq> []"
  then have "is_space (hd rest)" using hd_dropWhile [of "\<lambda>c. \<not> is_space c" s] by simp
  then obtain c cs where "rest = c # cs" "is_space c" using \<open>rest \<noteq> []\<close> by (cases rest) auto
  then have "length (dropWhile is_space rest) \<le> length cs" by (simp add: length_dropWhile_le)
  moreover have "length rest \<le> length s"
    using \<open>rest = dropWhile (\<lambda>c. \<not> is_space c) s\<close> by (simp add: length_dropWhile_le)
  ultimately show "(dropWhile is_space rest, s) \<in> measure length" using \<open>rest = c # cs\<close> by simp
qed simp

declare split_spaces.simps [simp del]

definition relevant_to :: "string \<Rightarrow> string \<Rightarrow> stored_preference \<Rightarrow> bool" where
  "relevant_to domain situation q =
     (if pf_domain q = domain then True
      else list_ex (str_includes (to_lower (pf_key q) @ '' '' @ to_lower (to_str (pf_value q))))
        (split_spaces (to_lower situation)))"

definition getRelevantPreferences ::
  "twin_ports \<Rightarrow> string \<Rightarrow> string \<Rightarrow> string \<Rightarrow> stored_preference list" where
  "getRelevantPreferences p u domain situation =
     filter (relevant_to domain situation)
       (tr_getPreferencesByDomain p u domain @ tr_getPreferencesByDomain p u ''general'')"

definition getConfidenceFor :: "twin_ports \<Rightarrow> string \<Rightarrow> string \<Rightarrow> string \<Rightarrow> confidence_level" where
  "getConfidenceFor p u domain key =
     (case find (\<lambda>q. pf_key q = key) (tr_getPreferencesByDomain p u domain) of
        Some q \<Rightarrow> pf_confidence q
      | None \<Rightarrow>
          (case find (\<lambda>i. inf_domain i = domain \<and> inf_key i = key) (tr_getInferences p u) of
             Some i \<Rightarrow> inf_confidence i
           | None \<Rightarrow> C_SPECULATIVE))"

definition getPatterns :: "twin_ports \<Rightarrow> string \<Rightarrow> stored_pattern list" where
  "getPatterns p u = (case tr_patterns p of None \<Rightarrow> [] | Some repo \<Rightarrow> pr_getPatterns repo u)"

definition getTraits :: "twin_ports \<Rightarrow> string \<Rightarrow> stored_trait list" where
  "getTraits p u = (case tr_patterns p of None \<Rightarrow> [] | Some repo \<Rightarrow> pr_getTraits repo u)"

definition getTemporalProfile ::
  "twin_ports \<Rightarrow> string \<Rightarrow> temporal_cache \<Rightarrow> temporal_profile \<times> temporal_cache" where
  "getTemporalProfile p u cache =
     (case cache u of
        Some tm \<Rightarrow> (tm, cache)
      | None \<Rightarrow>
          let evs = tr_getEvidence p u 100 in
          if length evs = 0 then (emptyProfile u, cache)
          else let tm = analyzeTemporalPatterns (tw_localTime p) evs in (tm, cache(u := Some tm)))"

record twin_export =
  tx_userId :: string
  tx_exportedAt :: int
  tx_profile :: stored_profile
  tx_patterns :: "stored_pattern list"
  tx_traits :: "stored_trait list"
  tx_temporalProfile :: temporal_profile

definition export_of ::
  "twin_ports \<Rightarrow> string \<Rightarrow> stored_profile \<Rightarrow> temporal_cache \<Rightarrow> twin_export \<times> temporal_cache" where
  "export_of p u prof cache =
     (let (tm, cache') = getTemporalProfile p u cache in
      (\<lparr> tx_userId = u, tx_exportedAt = tw_now p, tx_profile = prof, tx_patterns = getPatterns p u,
         tx_traits = getTraits p u, tx_temporalProfile = tm \<rparr>, cache'))"

definition exportTwin ::
  "twin_ports \<Rightarrow> string \<Rightarrow> temporal_cache \<Rightarrow> (twin_export \<times> temporal_cache) \<times> twin_effect list" where
  "exportTwin p u cache =
     (let (prof, fx) = getOrCreateProfile p u in (export_of p u prof cache, fx))"

definition exportTwinIfExists ::
  "twin_ports \<Rightarrow> string \<Rightarrow> temporal_cache \<Rightarrow> twin_export option \<times> temporal_cache" where
  "exportTwinIfExists p u cache =
     (case tr_getProfile p u of
        None \<Rightarrow> (None, cache)
      | Some prof \<Rightarrow> apfst Some (export_of p u prof cache))"

section \<open>Feedback\<close>

text \<open>
  The inferences of a stored profile are objects of their own, numbered here by their position. The
  list that the feedback works on holds the objects of the profile, so that the comparison of an
  updated inference with its original reads one and the same object.
\<close>

definition as_preference :: "stored_inference \<Rightarrow> stored_preference" where
  "as_preference i =
     \<lparr> pf_id = inf_id i, pf_domain = inf_domain i, pf_key = inf_key i, pf_value = inf_value i,
       pf_confidence = inf_confidence i, pf_source = ps_inferred, pf_evidenceIds = inf_supporting i,
       pf_createdAt = inf_createdAt i, pf_updatedAt = inf_updatedAt i \<rparr>"

definition changes_of ::
  "twin_ports \<Rightarrow> string \<Rightarrow> feedback_event \<Rightarrow> nat list \<Rightarrow> inference_store \<Rightarrow> nat \<Rightarrow> twin_effect list" where
  "changes_of p u fb originals h r =
     (case find (\<lambda>x. inf_domain (h x) = inf_domain (h r) \<and> inf_key (h x) = inf_key (h r)) originals of
        Some x \<Rightarrow>
          if inf_confidence (h x) \<noteq> inf_confidence (h r) \<or>
             stringify (inf_value (h x)) \<noteq> stringify (inf_value (h r))
          then recordChange p u (Some (as_preference (h x))) (as_preference (h r)) by_feedback (Some (fe_id fb))
          else []
      | None \<Rightarrow> [])"

definition apply_feedback ::
  "inference_env \<Rightarrow> feedback_event \<Rightarrow> nat \<Rightarrow> inference_store \<Rightarrow> nat list \<times> inference_store" where
  "apply_feedback env fb n h0 =
     (let (r1, h1) = updateInferencesFromFeedback env n [0..<n] fb h0 in
      case (fe_type fb, fe_undoSeverity fb) of
        (fb_undo, Some sev) \<Rightarrow>
          let (r2, h2) = updateInferencesFromFeedback env n r1 fb h1 in
          (r2, if sev = sev_severe then fold (adjust_at env decreaseConfidence) r2 h2 else h2)
      | _ \<Rightarrow> (r1, h1))"

definition processFeedback ::
  "twin_ports \<Rightarrow> string \<Rightarrow> feedback_event \<Rightarrow> stored_profile \<times> twin_effect list" where
  "processFeedback p u fb =
     (let (prof, fx) = getOrCreateProfile p u; n = length (sp_inferences prof);
        (refs, h) = apply_feedback (tw_env p) fb n (\<lambda>r. sp_inferences prof ! r) in
      save p (prof \<lparr> sp_inferences := map h refs \<rparr>)
        (Feedback_added fb # fx @ map (\<lambda>r. Inference_upserted u (h r)) refs
          @ concat (map (changes_of p u fb [0..<n] h) refs)))"

end
