(* ===== verification/TwinTheorems.thy ===== *)
theory TwinTheorems
  imports TwinService
begin

text \<open>
  What the twin service guarantees: one version of the profile for every operation, one preference for
  every domain and key however requests overlap, what the promotion of inferences may overwrite, the
  exact effect of feedback on the confidence of inferences against a specification without shared
  objects, and when feedback is recorded in the history of preferences.
\<close>

section \<open>One version per operation\<close>

definition is_update :: "twin_effect \<Rightarrow> bool" where
  "is_update e = (case e of Profile_updated _ \<Rightarrow> True | _ \<Rightarrow> False)"

lemma is_update_simps [simp]:
  "is_update (Profile_updated x)" "\<not> is_update (Profile_created x)" "\<not> is_update (Evidence_added ev)"
  "\<not> is_update (Feedback_added fb)" "\<not> is_update (Preference_upserted u q)"
  "\<not> is_update (Inference_upserted u i)" "\<not> is_update (Pattern_upserted u pt)"
  "\<not> is_update (Trait_upserted u t)" "\<not> is_update (Change_recorded c)"
  by (simp_all add: is_update_def)

text \<open>The profile that an operation starts from.\<close>

definition current :: "twin_ports \<Rightarrow> string \<Rightarrow> stored_profile" where
  "current p u = fst (getOrCreateProfile p u)"

definition writes_version :: "twin_ports \<Rightarrow> string \<Rightarrow> stored_profile \<times> twin_effect list \<Rightarrow> bool" where
  "writes_version p u r \<longleftrightarrow> (\<exists>fx next. snd r = fx @ [Profile_updated next] \<and> \<not> list_ex is_update fx \<and>
     fst r = tr_updateProfile p next \<and> sp_version next = sp_version (current p u) + 1 \<and>
     sp_userId next = sp_userId (current p u) \<and> sp_id next = sp_id (current p u))"

lemma save_writes:
  assumes "\<not> list_ex is_update fx" "sp_version prof = sp_version (current p u)"
    "sp_userId prof = sp_userId (current p u)" "sp_id prof = sp_id (current p u)"
  shows "writes_version p u (save p prof fx)"
  using assms by (auto simp: writes_version_def save_def next_version_def)

lemma create_quiet: "\<not> list_ex is_update (snd (getOrCreateProfile p u))"
  by (simp add: getOrCreateProfile_def split: option.splits)

lemma record_quiet: "\<not> list_ex is_update (recordChange p u prev new how ref)"
  by (simp add: recordChange_def)

lemma map_quiet: "(\<And>x. \<not> is_update (f x)) \<Longrightarrow> \<not> list_ex is_update (map f xs)"
  by (simp add: list_ex_iff)

lemma changes_quiet: "\<not> list_ex is_update (concat (map (changes_of p u fb os h) refs))"
  by (induction refs) (auto simp: changes_of_def record_quiet split: option.splits)

datatype twin_call =
    Set_preference stored_preference
  | Set_inferences "stored_inference list"
  | Add_evidence twin_evidence temporal_cache
  | Infer_preferences "twin_evidence list"
  | Process_feedback feedback_event

fun perform :: "twin_ports \<Rightarrow> string \<Rightarrow> twin_call \<Rightarrow> stored_profile \<times> twin_effect list" where
  "perform p u (Set_preference q) = updatePreference p u q"
| "perform p u (Set_inferences infs) = updateProfileInferences p u infs"
| "perform p u (Add_evidence ev cache) = fst (addEvidence p u ev cache)"
| "perform p u (Infer_preferences evs) = inferPreferences p u evs"
| "perform p u (Process_feedback fb) = processFeedback p u fb"

lemmas operation_defs = updatePreference_def updateProfileInferences_def replaceProfileInsights_def
  addEvidence_def inferPreferences_def processFeedback_def

lemmas quiet = create_quiet record_quiet changes_quiet map_quiet

lemma replacement_writes: "writes_version p u (replaceProfileInsights p u prefs infs)"
  by (auto simp: operation_defs Let_def case_prod_unfold current_def quiet intro!: save_writes)

text \<open>
  every operation that changes a twin ends with exactly one write of the profile, and this write is
  the next version of the profile it started from, for the same user: no operation skips a version or
  writes twice.
\<close>

theorem one_version_per_operation: "writes_version p u (perform p u c)"
proof (cases c)
  case (Set_preference q)
  then show ?thesis
    by (auto simp: operation_defs Let_def case_prod_unfold current_def quiet intro!: save_writes)
next
  case (Add_evidence ev cache)
  then show ?thesis
    by (auto simp: operation_defs Let_def case_prod_unfold current_def quiet intro!: save_writes
        split: option.splits)
next
  case (Process_feedback fb)
  then show ?thesis
    by (auto simp: operation_defs Let_def case_prod_unfold current_def quiet intro!: save_writes)
qed (auto simp: operation_defs Let_def case_prod_unfold current_def quiet intro!: save_writes)

section \<open>One preference per domain and key\<close>

definition slot :: "stored_preference \<Rightarrow> string \<times> string" where
  "slot q = (pf_domain q, pf_key q)"

lemma same_slot_iff: "same_slot q r \<longleftrightarrow> slot q = slot r"
  by (simp add: slot_def)

lemma find_index_Some:
  assumes "find_index P xs = Some i"
  shows "i < length xs" "P (xs ! i)" "\<forall>j < i. \<not> P (xs ! j)"
proof -
  obtain j where j: "j < length [0..<length xs]" "P (xs ! ([0..<length xs] ! j))" "i = [0..<length xs] ! j"
    "\<forall>k < j. \<not> P (xs ! ([0..<length xs] ! k))"
    using assms unfolding find_index_def find_Some_iff by auto
  then show "i < length xs" "P (xs ! i)" "\<forall>j < i. \<not> P (xs ! j)" by auto
qed

lemma find_index_None: "find_index P xs = None \<longleftrightarrow> (\<forall>x \<in> set xs. \<not> P x)"
  unfolding find_index_def find_None_iff by (auto simp: all_set_conv_all_nth)

lemma slots_updated: "i < length prefs \<Longrightarrow> slot q = slot (prefs ! i) \<Longrightarrow> map slot (prefs[i := q]) = map slot prefs"
  by (simp add: map_update list_update_same_conv)

lemma slots_put:
  assumes "distinct (map slot prefs)"
  shows "distinct (map slot (put_preference p q prefs))"
proof (cases "find_index (\<lambda>r. same_slot r q) prefs")
  case None
  then have "slot q \<notin> slot ` set prefs" by (auto simp: find_index_None slot_def)
  then show ?thesis using assms None by (simp add: put_preference_def slot_def image_iff)
next
  case (Some i)
  note i = find_index_Some [OF Some]
  show ?thesis
    using assms Some i(1,2) by (simp add: put_preference_def slots_updated slot_def)
qed

lemma slots_promote:
  assumes "distinct (map slot prefs)"
  shows "distinct (map slot (promote p e prefs))"
proof -
  obtain i j where e: "e = (i, j)" by fastforce
  show ?thesis
  proof (cases "find_index (\<lambda>q. same_slot q (promoted p i j)) prefs")
    case None
    then have "slot (promoted p i j) \<notin> slot ` set prefs" by (auto simp: find_index_None slot_def)
    then show ?thesis using assms None by (simp add: promote_def e)
  next
    case (Some k)
    note k = find_index_Some [OF Some]
    have "slot ((promoted p i j) \<lparr> pf_id := pf_id (prefs ! k) \<rparr>) = slot (prefs ! k)"
      using k(2) by (simp add: slot_def)
    then show ?thesis using assms Some k(1) by (simp add: promote_def e slots_updated)
  qed
qed

lemma slots_promoted:
  "distinct (map slot prefs) \<Longrightarrow> distinct (map slot (promoteInferences p prefs infs))"
proof -
  have "distinct (map slot prefs) \<Longrightarrow> distinct (map slot (fold (promote p) es prefs))" for es prefs
    by (induction es arbitrary: prefs) (simp_all add: slots_promote)
  then show "distinct (map slot prefs) \<Longrightarrow> distinct (map slot (promoteInferences p prefs infs))"
    by (simp add: promoteInferences_def)
qed

lemma slots_kept: "distinct (map slot (filter P prefs))" if "distinct (map slot prefs)"
  using that by (rule distinct_map_filter)

lemma slots_edited:
  assumes "distinct (map slot (sp_preferences prof))"
  shows "distinct (map slot (fst (edited_insights p b prof)))"
proof -
  let ?kept = "filter (\<lambda>q. \<not> (pf_domain q = ib_domain b \<and> pf_key q = ib_key b)) (sp_preferences prof)"
  have "slot (corrected_preference p b v) \<notin> set (map slot ?kept)" for v
    by (auto simp: slot_def corrected_preference_def)
  then show ?thesis using slots_kept [OF assms]
    by (auto simp: edited_insights_def Let_def split: option.splits)
qed

text \<open>
  A repository that keeps what it is given: the store holds the last profile written for a user. The
  history has the store after every write, the last one first; a request that is in flight reads the
  profile in any of them and writes its result later, so requests may overlap in any way. The empty
  store is the one before the first write. (When the profile that a request wants to make exists by then,
  the repository answers the existing one, which is a later read.) A visit is a request that only makes
  the profile of a user that has none.
\<close>

type_synonym twin_store = "string \<Rightarrow> stored_profile option"

type_synonym twin_history = "twin_store list"

definition faithful :: "twin_ports \<Rightarrow> twin_store \<Rightarrow> twin_ports" where
  "faithful p st = p \<lparr> tr_getProfile := st, tr_createProfile := id, tr_updateProfile := id \<rparr>"

definition seen :: "twin_history \<Rightarrow> nat \<Rightarrow> twin_store" where
  "seen h n = (if n < length h then h ! n else (\<lambda>_. None))"

definition write_profile :: "twin_history \<Rightarrow> string \<Rightarrow> stored_profile \<Rightarrow> twin_history" where
  "write_profile h u prof = (seen h 0)(u := Some prof) # h"

datatype twin_event =
    Visit twin_ports string
  | Operation twin_ports string twin_call nat
  | Delete_insights twin_ports twin_ports string insight_body nat nat

fun twin_step :: "twin_history \<Rightarrow> twin_event \<Rightarrow> twin_history" where
  "twin_step h (Visit p u) = write_profile h u (fst (getOrCreateProfile (faithful p (seen h 0)) u))"
| "twin_step h (Operation p u c n) = write_profile h u (fst (perform (faithful p (seen h n)) u c))"
| "twin_step h (Delete_insights p p' u b n m) =
     (case deleteInsights (faithful p (seen h n)) (faithful p' (seen h m)) u b of
        Inl why \<Rightarrow> h
      | Inr (prof, fx) \<Rightarrow> write_profile h u prof)"

definition slots_unique :: "twin_store \<Rightarrow> bool" where
  "slots_unique st \<longleftrightarrow> (\<forall>u prof. st u = Some prof \<longrightarrow> distinct (map slot (sp_preferences prof)))"

lemma seen_unique: "list_all slots_unique h \<Longrightarrow> slots_unique (seen h n)"
  by (auto simp: seen_def list_all_length slots_unique_def)

lemma write_unique:
  "list_all slots_unique h \<Longrightarrow> distinct (map slot (sp_preferences prof)) \<Longrightarrow>
   list_all slots_unique (write_profile h u prof)"
  using seen_unique [of h 0] by (auto simp: write_profile_def slots_unique_def)

lemma current_faithful:
  "slots_unique st \<Longrightarrow> distinct (map slot (sp_preferences (fst (getOrCreateProfile (faithful p st) u))))"
  by (auto simp: getOrCreateProfile_def faithful_def slots_unique_def default_profile_def split: option.splits)

lemma save_faithful [simp]: "fst (save (faithful p st) prof fx) = next_version (faithful p st) prof"
  by (simp add: save_def faithful_def)

lemma next_version_preferences [simp]: "sp_preferences (next_version p prof) = sp_preferences prof"
  by (simp add: next_version_def)

lemma operation_preferences:
  "sp_preferences (fst (perform (faithful p st) u c)) =
    (let prefs = sp_preferences (fst (getOrCreateProfile (faithful p st) u)) in
     case c of
       Set_preference q \<Rightarrow> put_preference (faithful p st) q prefs
     | Infer_preferences evs \<Rightarrow> promoteInferences (faithful p st) prefs
         (analyzeEvidence (tw_env (faithful p st)) (sp_inferences (fst (getOrCreateProfile (faithful p st) u))) evs)
     | _ \<Rightarrow> prefs)"
  by (cases c) (simp_all add: operation_defs Let_def case_prod_unfold split: option.splits)

lemma slots_operation:
  "slots_unique st \<Longrightarrow> distinct (map slot (sp_preferences (fst (perform (faithful p st) u c))))"
  unfolding operation_preferences Let_def
  using current_faithful [of st p u] by (cases c) (simp_all add: slots_put slots_promoted)

lemma slots_deleted:
  assumes "slots_unique st" "deleteInsights (faithful p st) (faithful p' st') u b = Inr (prof, fx)"
  shows "distinct (map slot (sp_preferences prof))"
  using slots_edited [OF current_faithful [OF assms(1), of p u], of "faithful p st" b] assms(2)
  by (auto simp: deleteInsights_def replaceProfileInsights_def case_prod_unfold Let_def apsnd_def map_prod_def
      split: option.splits)

interpretation twin: initialised_machine twin_step "list_all slots_unique" "[]"
proof unfold_locales
  fix h e
  assume h: "list_all slots_unique h"
  show "list_all slots_unique (twin_step h e)"
  proof (cases e)
    case (Visit p u)
    then show ?thesis using h by (simp add: write_unique current_faithful seen_unique)
  next
    case (Operation p u c n)
    then show ?thesis using h by (simp add: write_unique slots_operation seen_unique)
  next
    case (Delete_insights p p' u b n m)
    then show ?thesis using h slots_deleted [OF seen_unique [OF h]]
      by (auto intro!: write_unique split: sum.splits)
  qed
qed simp

text \<open>
  C36: after any sequence of operations of the service and of removals and corrections of insights on
  the twin page, by any users, overlapping in any way, from an empty repository, no profile holds two
  preferences for the same domain and key: an update replaces, a promotion replaces or keeps, and a
  correction drops the old preference before it adds the new one.
\<close>

theorem one_preference_per_key:
  assumes "seen (run twin_step [] es) 0 u = Some prof"
  shows "distinct (map (\<lambda>q. (pf_domain q, pf_key q)) (sp_preferences prof))"
  using seen_unique [OF twin.reachable_inv [of es], of 0] assms
  by (simp add: slots_unique_def slot_def [abs_def])

section \<open>Promotion\<close>

text \<open>A preference after promotion: kept, or replaced in its place by a more confident inference.\<close>

definition follows :: "stored_preference \<Rightarrow> stored_preference \<Rightarrow> bool" where
  "follows q r \<longleftrightarrow> r = q \<or> (slot r = slot q \<and> pf_id r = pf_id q \<and> pf_source r = ps_inferred \<and>
     C_HIGH \<le> pf_confidence r \<and> pf_confidence q < pf_confidence r)"

lemma follows_trans: "follows a b \<Longrightarrow> follows b c \<Longrightarrow> follows a c"
  unfolding follows_def by auto

lemma promote_follows:
  assumes "k < length prefs"
  shows "k < length (promote p e prefs) \<and> follows (prefs ! k) (promote p e prefs ! k)"
proof -
  obtain i j where e: "e = (i, j)" by fastforce
  show ?thesis
  proof (cases "find_index (\<lambda>q. same_slot q (promoted p i j)) prefs")
    case None
    then show ?thesis using assms by (simp add: promote_def e nth_append follows_def)
  next
    case (Some n)
    note n = find_index_Some [OF Some]
    have high: "C_HIGH \<le> inf_confidence j" if "inf_confidence j = C_HIGH \<or> inf_confidence j = C_CONFIRMED"
      using that by (auto simp: level_order_defs)
    show ?thesis
      using assms Some n(1,2) high
      by (auto simp: promote_def e nth_list_update follows_def slot_def promoted_def level_order_defs)
  qed
qed

lemma promotes_follow:
  assumes "k < length prefs"
  shows "k < length (fold (promote p) es prefs) \<and> follows (prefs ! k) (fold (promote p) es prefs ! k)"
  using assms
proof (induction es arbitrary: prefs)
  case Nil
  then show ?case by (simp add: follows_def)
next
  case (Cons e es)
  note f = promote_follows [OF Cons.prems, of p e]
  from Cons.IH [OF conjunct1 [OF f]] f show ?case by (auto intro: follows_trans)
qed

text \<open>
  the promotion of inferences keeps every preference in its place: it is untouched, or it is
  replaced, under the same identifier, by an inference of high confidence that is strictly more
  confident. So the confidence of a preference never falls, and a confirmed preference is final.
\<close>

theorem promotion_keeps:
  assumes "k < length prefs"
  shows "k < length (promoteInferences p prefs infs) \<and>
    (let q = prefs ! k; r = promoteInferences p prefs infs ! k in
     r = q \<or> (pf_domain r = pf_domain q \<and> pf_key r = pf_key q \<and> pf_id r = pf_id q \<and>
       pf_source r = ps_inferred \<and> C_HIGH \<le> pf_confidence r \<and> pf_confidence q < pf_confidence r)) \<and>
    (pf_confidence (prefs ! k) = C_CONFIRMED \<longrightarrow> promoteInferences p prefs infs ! k = prefs ! k)"
proof -
  have f: "k < length (promoteInferences p prefs infs)" "follows (prefs ! k) (promoteInferences p prefs infs ! k)"
    using promotes_follow [OF assms] by (simp_all add: promoteInferences_def)
  have "\<not> C_CONFIRMED < c" for c by (cases c) (simp_all add: level_order_defs)
  then show ?thesis using f by (auto simp: follows_def slot_def Let_def)
qed

section \<open>Feedback against its specification\<close>

text \<open>How far one event moves the confidence of an inference that has evidence.\<close>

definition feedback_move :: "feedback_event \<Rightarrow> confidence_level \<Rightarrow> confidence_level" where
  "feedback_move fb = (case fe_type fb of
     fb_approve \<Rightarrow> increaseConfidence
   | fb_reject \<Rightarrow> decreaseConfidence
   | fb_undo \<Rightarrow> decreaseConfidence ^^ (case fe_undoSeverity fb of
       None \<Rightarrow> 1 | Some sev \<Rightarrow> if sev = sev_severe then 3 else 2)
   | _ \<Rightarrow> id)"

definition moves :: "feedback_event \<Rightarrow> bool" where
  "moves fb \<longleftrightarrow> fe_type fb = fb_approve \<or> fe_type fb = fb_reject \<or> fe_type fb = fb_undo"

definition moved :: "inference_env \<Rightarrow> (confidence_level \<Rightarrow> confidence_level) \<Rightarrow> stored_inference \<Rightarrow> stored_inference" where
  "moved env f i = (if inf_supporting i \<noteq> []
     then i \<lparr> inf_confidence := f (inf_confidence i), inf_updatedAt := ie_now env \<rparr> else i)"

definition feedback_spec ::
  "inference_env \<Rightarrow> feedback_event \<Rightarrow> stored_inference list \<Rightarrow> stored_inference list" where
  "feedback_spec env fb infs =
     (if moves fb then map (moved env (feedback_move fb)) infs
      else if fe_type fb = fb_correct
      then (case fe_correctedAction fb of
          Some what \<Rightarrow> if what \<noteq> [] \<and> fe_correctedValue fb \<noteq> JUndefined
            then infs @ [correction_inference env (length infs) fb what] else infs
        | None \<Rightarrow> infs)
      else infs)"

lemma adjust_all:
  "distinct refs \<Longrightarrow> fold (adjust_at env f) refs h r = (if r \<in> set refs then moved env f (h r) else h r)"
  by (induction refs arbitrary: h) (auto simp: adjust_at_apply moved_def)

lemma moved_twice [simp]: "moved env f (moved env g i) = moved env (f \<circ> g) i"
  by (simp add: moved_def)

lemma adjusted_list:
  assumes "\<And>r. r < length infs \<Longrightarrow> h r = moved env g (infs ! r)"
  shows "map (fold (adjust_at env f) [0..<length infs] h) [0..<length infs] = map (moved env (f \<circ> g)) infs"
  using assms by (intro nth_equalityI) (simp_all add: adjust_all)

lemma moved_id: "r < length infs \<Longrightarrow> fold (adjust_at env f) [0..<length infs] ((!) infs) r = moved env f (infs ! r)"
  by (simp add: adjust_all)

lemma map_moved:
  "(\<And>r. r < length infs \<Longrightarrow> h r = moved env f (infs ! r)) \<Longrightarrow>
   map h [0..<length infs] = map (moved env f) infs"
  by (intro nth_equalityI) simp_all

lemma severe_three: "decreaseConfidence \<circ> (decreaseConfidence \<circ> decreaseConfidence) = decreaseConfidence ^^ 3"
  by (simp add: numeral_3_eq_3)

lemma twice_two: "decreaseConfidence \<circ> decreaseConfidence = decreaseConfidence ^^ 2"
  by (simp add: numeral_2_eq_2)

lemma feedback_moves:
  assumes "moves fb" "r < length infs"
  shows "fst (apply_feedback env fb (length infs) ((!) infs)) = [0..<length infs] \<and>
    snd (apply_feedback env fb (length infs) ((!) infs)) r = moved env (feedback_move fb) (infs ! r)"
  using assms unfolding moves_def
  by (auto simp: apply_feedback_def updateInferencesFromFeedback_def feedback_move_def Let_def adjust_all
      severe_three [symmetric] twice_two [symmetric] split: option.splits)

lemma feedback_refs:
  assumes "fe_type fb \<noteq> fb_correct"
  shows "fst (apply_feedback env fb n h) = [0..<n]"
  using assms
  by (auto simp: apply_feedback_def updateInferencesFromFeedback_def Let_def
      split: option.splits feedback_type.splits)

lemma feedback_list:
  "(let (refs, h) = apply_feedback env fb (length infs) ((!) infs) in map h refs) = feedback_spec env fb infs"
proof (cases "moves fb")
  case True
  have "fst (apply_feedback env fb (length infs) ((!) infs)) = [0..<length infs]"
    using True by (intro feedback_refs) (auto simp: moves_def)
  moreover have "map (snd (apply_feedback env fb (length infs) ((!) infs))) [0..<length infs] =
      map (moved env (feedback_move fb)) infs"
    by (rule map_moved) (simp add: feedback_moves [OF True])
  ultimately show ?thesis using True by (simp add: feedback_spec_def case_prod_unfold Let_def)
next
  case False
  then have t: "fe_type fb = fb_correct \<or> fe_type fb = fb_ignore"
    unfolding moves_def by (cases "fe_type fb") simp_all
  have "map ((!) infs) [0..<length infs] = infs" by (rule map_nth)
  moreover have "map (((!) infs)(length infs := x)) [0..<length infs] = infs" for x
    by (rule nth_equalityI) simp_all
  ultimately show ?thesis using False t
    by (auto simp: feedback_spec_def apply_feedback_def updateInferencesFromFeedback_def Let_def
        split: option.splits)
qed

text \<open>
  C34: feedback, which the code applies in place and several times to shared objects, computes what the
  specification says of plain values: an approval raises the confidence of every inference that has
  evidence by one level, a rejection lowers it by one, an undo by one, by two when it comes with
  reasoning and by three when that is severe, a correction adds one confirmed inference, and nothing
  else changes.
\<close>

theorem feedback_refines:
  "\<exists>fx. processFeedback p u fb =
     save p (current p u \<lparr> sp_inferences :=
       feedback_spec (tw_env p) fb (sp_inferences (current p u)) \<rparr>) fx"
  using feedback_list [of "tw_env p" fb "sp_inferences (current p u)"]
  by (auto simp: processFeedback_def Let_def case_prod_unfold current_def)

definition record_calls :: "twin_effect list \<Rightarrow> twin_effect list" where
  "record_calls fx = filter (\<lambda>e. case e of Change_recorded c \<Rightarrow> True | _ \<Rightarrow> False) fx"

text \<open>
  What is recorded for an updated inference: the code looks for the original with the same domain and
  key, and finds an object that the feedback has already updated.
\<close>

abbreviation same_subject :: "stored_inference \<Rightarrow> stored_inference \<Rightarrow> bool" where
  "same_subject i j \<equiv> inf_domain i = inf_domain j \<and> inf_key i = inf_key j"

abbreviation looks_changed :: "stored_inference \<Rightarrow> stored_inference \<Rightarrow> bool" where
  "looks_changed i j \<equiv> inf_confidence i \<noteq> inf_confidence j \<or> stringify (inf_value i) \<noteq> stringify (inf_value j)"

definition recorded_for ::
  "twin_ports \<Rightarrow> string \<Rightarrow> feedback_event \<Rightarrow> stored_inference list \<Rightarrow> stored_inference \<Rightarrow> twin_effect list" where
  "recorded_for p u fb originals i =
     (case find (\<lambda>x. same_subject x i) originals of
        Some x \<Rightarrow>
          if looks_changed x i
          then recordChange p u (Some (as_preference x)) (as_preference i) by_feedback (Some (fe_id fb))
          else []
      | None \<Rightarrow> [])"

lemma find_map: "find P (map f xs) = map_option f (find (P \<circ> f) xs)"
  by (induction xs) simp_all

lemma changes_values: "changes_of p u fb [0..<n] h r = recorded_for p u fb (map h [0..<n]) (h r)"
  by (simp add: changes_of_def recorded_for_def find_map comp_def split: option.splits)

lemma feedback_originals:
  assumes "apply_feedback env fb n h0 = (refs, h)"
  shows "\<exists>m. refs = [0..<m] \<and> n \<le> m"
proof (cases "fe_type fb = fb_correct")
  case True
  then show ?thesis using assms
    by (auto simp: apply_feedback_def updateInferencesFromFeedback_def Let_def
        intro: exI [of _ n] exI [of _ "Suc n"] split: option.splits if_splits)
next
  case False
  then have "refs = [0..<n]" using feedback_refs [OF False, of env n h0] assms by simp
  then show ?thesis by blast
qed

lemma record_calls_append: "record_calls (xs @ ys) = record_calls xs @ record_calls ys"
  by (simp add: record_calls_def)

lemma recorded_calls: "record_calls (concat (map (recorded_for p u fb os) is)) = concat (map (recorded_for p u fb os) is)"
  by (induction "is") (auto simp: record_calls_def recorded_for_def recordChange_def split: option.splits)

lemma feedback_effects:
  assumes "apply_feedback (tw_env p) fb (length (sp_inferences (current p u))) ((!) (sp_inferences (current p u))) = (refs, h)"
  shows "record_calls (snd (processFeedback p u fb)) =
    record_calls (concat (map (changes_of p u fb [0..<length (sp_inferences (current p u))] h) refs))"
proof -
  have "record_calls (snd (getOrCreateProfile p u)) = []"
    by (simp add: record_calls_def getOrCreateProfile_def split: option.splits)
  moreover have "record_calls (map (\<lambda>r. Inference_upserted u (h r)) refs) = []"
    "record_calls [Feedback_added fb] = []" "record_calls [Profile_updated prof] = []" for prof
    by (simp_all add: record_calls_def)
  moreover have "\<exists>prof. snd (processFeedback p u fb) = [Feedback_added fb] @ snd (getOrCreateProfile p u) @
      map (\<lambda>r. Inference_upserted u (h r)) refs @
      concat (map (changes_of p u fb [0..<length (sp_inferences (current p u))] h) refs) @ [Profile_updated prof]"
    using assms by (simp add: processFeedback_def Let_def case_prod_unfold current_def save_def)
  ultimately show ?thesis by (auto simp only: record_calls_append append_Nil append_Nil2)
qed

lemma recorded_values:
  "record_calls (snd (processFeedback p u fb)) =
    (let infs = feedback_spec (tw_env p) fb (sp_inferences (current p u)) in
     concat (map (recorded_for p u fb (take (length (sp_inferences (current p u))) infs)) infs))"
proof -
  let ?infs = "sp_inferences (current p u)"
  obtain refs h where a: "apply_feedback (tw_env p) fb (length ?infs) ((!) ?infs) = (refs, h)" by fastforce
  obtain m where m: "refs = [0..<m]" "length ?infs \<le> m" using feedback_originals [OF a] by blast
  have infs: "feedback_spec (tw_env p) fb ?infs = map h [0..<m]"
    using feedback_list [of "tw_env p" fb ?infs] by (simp add: a m(1))
  have os: "take (length ?infs) (map h [0..<m]) = map h [0..<length ?infs]" using m(2) by (simp add: take_map)
  have "map (changes_of p u fb [0..<length ?infs] h) refs =
      map (recorded_for p u fb (map h [0..<length ?infs])) (map h [0..<m])"
    unfolding m(1) by (simp add: changes_values)
  then show ?thesis unfolding feedback_effects [OF a] Let_def infs os by (simp only: recorded_calls)
qed

lemma recorded_none:
  "recorded_for p u fb os i = [] \<longleftrightarrow>
    \<not> tr_history p \<or> (\<forall>x. find (\<lambda>x. same_subject x i) os = Some x \<longrightarrow> \<not> looks_changed x i)"
  by (auto simp: recorded_for_def recordChange_def split: option.splits)

lemma find_itself:
  assumes "distinct (map f xs)" "i \<in> set xs" "find (\<lambda>x. f x = f i) xs = Some x"
  shows "x = i"
  using assms by (auto simp: find_Some_iff distinct_map dest: inj_onD)

lemma spec_subjects:
  assumes "fe_type fb \<noteq> fb_correct"
  shows "map (\<lambda>i. (inf_domain i, inf_key i)) (feedback_spec env fb infs) =
    map (\<lambda>i. (inf_domain i, inf_key i)) infs"
  using assms by (simp add: feedback_spec_def moved_def)

text \<open>
  C38: the history of preferences does not see what feedback does. The original that an updated
  inference is compared with is an object that was updated as well, so a change of confidence is never
  compared with the confidence before it: a change is recorded exactly when an inference differs, after
  the update, from the first one of the list that has its domain and key. So when the inferences of the
  profile have different domains or keys, an approval, a rejection or an undo records nothing, whatever
  it does to their confidence.
\<close>

theorem feedback_not_recorded:
  "let infs = feedback_spec (tw_env p) fb (sp_inferences (current p u));
     originals = take (length (sp_inferences (current p u))) infs;
     records = record_calls (snd (processFeedback p u fb)) in
   (records = [] \<longleftrightarrow> \<not> tr_history p \<or>
      (\<forall>i \<in> set infs. \<forall>x. find (\<lambda>x. inf_domain x = inf_domain i \<and> inf_key x = inf_key i) originals = Some x \<longrightarrow>
         inf_confidence x = inf_confidence i \<and> stringify (inf_value x) = stringify (inf_value i))) \<and>
   (fe_type fb \<noteq> fb_correct \<and> distinct (map (\<lambda>i. (inf_domain i, inf_key i)) (sp_inferences (current p u))) \<longrightarrow>
      records = [])"
proof -
  let ?old = "sp_inferences (current p u)"
  let ?infs = "feedback_spec (tw_env p) fb ?old"
  have exact: "record_calls (snd (processFeedback p u fb)) = [] \<longleftrightarrow> \<not> tr_history p \<or>
      (\<forall>i \<in> set ?infs. \<forall>x. find (\<lambda>x. same_subject x i) (take (length ?old) ?infs) = Some x \<longrightarrow>
         \<not> looks_changed x i)"
    unfolding recorded_values Let_def by (auto simp: recorded_none)
  have "record_calls (snd (processFeedback p u fb)) = []"
    if "fe_type fb \<noteq> fb_correct" and d: "distinct (map (\<lambda>i. (inf_domain i, inf_key i)) ?old)"
  proof -
    note s = spec_subjects [OF that(1), of "tw_env p" ?old]
    have "length ?infs = length ?old" using arg_cong [OF s, of length] by (simp only: length_map)
    then have "take (length ?old) ?infs = ?infs" by (simp only: order_refl take_all)
    moreover have "distinct (map (\<lambda>i. (inf_domain i, inf_key i)) ?infs)" using d by (simp only: s)
    then have "x = i" if "i \<in> set ?infs" "find (\<lambda>x. same_subject x i) ?infs = Some x" for x i
      by (rule find_itself [OF _ that(1)]) (simp only: prod.inject that(2))
    ultimately show ?thesis unfolding exact by (auto simp only:)
  qed
  note quiet = this
  show ?thesis unfolding Let_def
    by (rule conjI, rule exact [unfolded de_Morgan_disj not_not], rule impI, elim conjE, rule quiet)
qed

section \<open>Two corrections of one action\<close>

text \<open>
  A second correction of an action adds a second inference of the same subject; of the two the next
  batch of evidence leaves the later one.
\<close>

lemma later_correction_wins:
  assumes "plain_domains evs"
  shows "\<exists>j. filter (\<lambda>x. inference_key x = pair_key ''correction'' what) (analyzeEvidence env
      (infs @ [correction_inference env1 n1 fb1 what, correction_inference env2 n2 fb2 what]) evs) = [j] \<and>
    inf_value j = fe_correctedValue fb2"
  using batch_moves [of "correction_inference env2 n2 fb2 what" "[]" evs env
      "infs @ [correction_inference env1 n1 fb1 what]"] assms
  by (auto simp: correction_inference_def inference_key_def)

section \<open>Evidence that is counted again\<close>

text \<open>
  with a pattern repository every new item of evidence sends the last hundred items through the
  inference again, whatever the new item is about. So an inference rises by the number of items in that
  window that agree with it, each time, although nothing new was observed about it.
\<close>

theorem window_counted_again:
  assumes "tr_patterns p = Some repo" and "tr_getEvidence p u 100 = evs" and "plain_domains evs"
    and "distinct (map inference_key (sp_inferences (current p u)))" and "i \<in> set (sp_inferences (current p u))"
    and "CHR '':'' \<notin> set (inf_domain i)"
    and "\<forall>s \<in> set (relevant (inf_domain i) (inf_key i) evs). valuesAreConsistent (inf_value i) (sg_value s)"
  shows "\<exists>fx next j. fst (addEvidence p u ev cache) = (tr_updateProfile p next, fx) \<and>
    j \<in> set (sp_inferences next) \<and> inf_id j = inf_id i \<and> inf_domain j = inf_domain i \<and> inf_key j = inf_key i \<and>
    confidence_index (inf_confidence j) = min 4 (confidence_index (inf_confidence i)
      + int (length (relevant (inf_domain i) (inf_key i) evs)))"
proof -
  obtain j where j: "j \<in> set (analyzeEvidence (tw_env p) (sp_inferences (current p u)) evs)"
    "inf_id j = inf_id i" "inf_domain j = inf_domain i" "inf_key j = inf_key i"
    "inf_confidence j = fold (reaction (inf_value i)) (relevant (inf_domain i) (inf_key i) evs) (inf_confidence i)"
    using confidence_follows [OF assms(4,5,6,3), of "tw_env p"] by blast
  have "confidence_index (inf_confidence j) = min 4 (confidence_index (inf_confidence i)
      + int (length (relevant (inf_domain i) (inf_key i) evs)))"
    unfolding j(5) agreeing_index [OF assms(7)] by (rule increases_index)
  moreover have "fst (addEvidence p u ev cache) =
      (tr_updateProfile p (next_version p (current p u \<lparr> sp_inferences :=
         analyzeEvidence (tw_env p) (sp_inferences (current p u)) evs \<rparr>)), snd (fst (addEvidence p u ev cache)))"
    using assms(1,2) by (simp add: addEvidence_def Let_def case_prod_unfold save_def current_def)
  ultimately show ?thesis using j(1-4)
    by (intro exI [of _ "snd (fst (addEvidence p u ev cache))"] exI [of _ j]
        exI [of _ "next_version p (current p u \<lparr> sp_inferences :=
           analyzeEvidence (tw_env p) (sp_inferences (current p u)) evs \<rparr>)"])
      (simp add: next_version_def)
qed

section \<open>Queries\<close>

lemma split_nil [simp]: "split_spaces [] = [[]]"
  by (subst split_spaces.simps) simp

lemma split_step:
  "dropWhile (\<lambda>c. \<not> is_space c) s = rest \<Longrightarrow> rest \<noteq> [] \<Longrightarrow>
   split_spaces s = takeWhile (\<lambda>c. \<not> is_space c) s # split_spaces (dropWhile is_space rest)"
  by (subst split_spaces.simps) (simp only: Let_def if_False)

lemma dropWhile_snoc:
  "dropWhile P (s @ [c]) = (if dropWhile P s = [] then dropWhile P [c] else dropWhile P s @ [c])"
  by (induction s) simp_all

lemma split_trailing: "is_space c \<Longrightarrow> [] \<in> set (split_spaces (s @ [c]))"
proof (induction s rule: split_spaces.induct)
  case (1 s)
  let ?rest = "dropWhile (\<lambda>c. \<not> is_space c) s"
  show ?case
  proof (cases "?rest = []")
    case True
    then have "dropWhile (\<lambda>c. \<not> is_space c) (s @ [c]) = [c]" using "1.prems" by (simp add: dropWhile_snoc)
    from split_step [OF this] have "split_spaces (s @ [c]) = takeWhile (\<lambda>c. \<not> is_space c) (s @ [c]) # split_spaces []"
      using "1.prems" by (simp only: dropWhile.simps if_True not_Cons_self2 list.distinct not_False_eq_True simp_thms)
    then show ?thesis by simp
  next
    case False
    then have d: "dropWhile (\<lambda>c. \<not> is_space c) (s @ [c]) = ?rest @ [c]" by (simp add: dropWhile_snoc)
    have "[] \<in> set (split_spaces (dropWhile is_space (?rest @ [c])))"
    proof (cases "dropWhile is_space ?rest = []")
      case True
      then have "dropWhile is_space (?rest @ [c]) = []"
        using "1.prems" by (simp only: dropWhile_snoc [of is_space] dropWhile.simps simp_thms if_True)
      then show ?thesis by (simp only: split_nil list.set insert_iff simp_thms)
    next
      case rest: False
      then have "dropWhile is_space (?rest @ [c]) = dropWhile is_space ?rest @ [c]"
        by (simp only: dropWhile_snoc [of is_space] if_False)
      then show ?thesis using "1.IH" [OF refl refl False "1.prems"] by (simp only:)
    qed
    then show ?thesis using split_step [OF d] by (simp only: list.set insert_iff simp_thms snoc_eq_iff_butlast)
  qed
qed

text \<open>
  a situation that ends with a blank makes every general preference relevant, because its last
  keyword is then the empty string, which is part of every text.
\<close>

theorem trailing_blank_matches_all:
  assumes "is_space c"
  shows "getRelevantPreferences p u domain (situation @ [c]) =
    tr_getPreferencesByDomain p u domain @ tr_getPreferencesByDomain p u ''general''"
proof -
  have "to_lower (situation @ [c]) = to_lower situation @ [c]" using assms
    by (auto simp: to_lower_def lower_char_def is_space_def)
  then have "[] \<in> set (split_spaces (to_lower (situation @ [c])))" using split_trailing [OF assms] by simp
  moreover have "str_includes s []" for s by (cases s) simp_all
  ultimately have "relevant_to domain (situation @ [c]) q" for q
    unfolding relevant_to_def list_ex_iff by auto
  then show ?thesis by (simp add: getRelevantPreferences_def)
qed

end
