(* ===== verification/TwinDiscovery.thy ===== *)
theory TwinDiscovery
  imports TwinService
begin

text \<open>
  What the twin finds in stored data: the history of a preference (the queries of
  preference-evolution.ts), latent preferences that are proposed to the user
  (preference-archaeologist.ts) and signals of different domains that belong together
  (cross-domain-correlator.ts), all of packages/twin-model/src. Random identifiers, the clock and the
  constructor of dates are parameters.
\<close>

section \<open>The history of a preference\<close>

record history_entry =
  he_previousValue :: jsval
  he_newValue :: jsval
  he_previousConfidence :: "confidence_level option"
  he_newConfidence :: confidence_level
  he_attributionType :: string
  he_changedAt :: int

record evolution_summary =
  es_preferenceId :: string
  es_totalChanges :: nat
  es_valueChanges :: nat
  es_confidenceChanges :: nat
  es_attributionBreakdown :: "(string \<times> nat) list"
  es_firstSeen :: int
  es_lastChanged :: int

definition summarize_history :: "string \<Rightarrow> history_entry list \<Rightarrow> evolution_summary option" where
  "summarize_history ref hist =
     (if length hist = 0 then None
      else let sorted = sort_key he_changedAt hist in
        Some \<lparr> es_preferenceId = ref, es_totalChanges = length hist,
          es_valueChanges = length (filter (\<lambda>e. stringify (he_previousValue e) \<noteq> stringify (he_newValue e)) hist),
          es_confidenceChanges = length (filter (\<lambda>e. he_previousConfidence e \<noteq> Some (he_newConfidence e)) hist),
          es_attributionBreakdown = map (\<lambda>(k, es). (k, length es)) (group_by he_attributionType hist),
          es_firstSeen = he_changedAt (hd sorted), es_lastChanged = he_changedAt (last sorted) \<rparr>)"

definition getStateAt :: "history_entry list \<Rightarrow> int \<Rightarrow> (jsval \<times> confidence_level) option" where
  "getStateAt hist t =
     (case sort_key (\<lambda>e. - he_changedAt e) (filter (\<lambda>e. he_changedAt e \<le> t) hist) of
        [] \<Rightarrow> None
      | e # _ \<Rightarrow> Some (he_newValue e, he_newConfidence e))"

text \<open>
  The state of a preference at a time is that of its last change up to then: there is none exactly when
  nothing changed until then.
\<close>

lemma sort_key_Cons:
  assumes "sort_key f xs = y # ys"
  shows "y \<in> set xs" "\<forall>x \<in> set xs. f y \<le> f x"
proof -
  have "y \<in> set (sort_key f xs)" by (simp add: assms)
  then show "y \<in> set xs" by simp
  have "sorted (map f (y # ys))" using sorted_sort_key [of f xs] by (simp only: assms)
  moreover have "set xs = set (y # ys)" using set_sort [of f xs] by (simp only: assms)
  ultimately show "\<forall>x \<in> set xs. f y \<le> f x" by auto
qed

theorem state_at_exact:
  "(getStateAt hist t = None \<longleftrightarrow> (\<forall>e \<in> set hist. t < he_changedAt e)) \<and>
   (getStateAt hist t = Some (v, c) \<longrightarrow> (\<exists>e \<in> set hist. he_changedAt e \<le> t \<and> he_newValue e = v \<and>
      he_newConfidence e = c \<and> (\<forall>x \<in> set hist. he_changedAt x \<le> t \<longrightarrow> he_changedAt x \<le> he_changedAt e)))"
proof (cases "sort_key (\<lambda>e. - he_changedAt e) (filter (\<lambda>e. he_changedAt e \<le> t) hist)")
  case Nil
  then have "filter (\<lambda>e. he_changedAt e \<le> t) hist = []" by (metis set_empty set_sort)
  then show ?thesis using Nil by (auto simp: getStateAt_def filter_empty_conv not_le)
next
  case (Cons e es)
  then show ?thesis using sort_key_Cons [OF Cons] by (auto simp: getStateAt_def not_less)
qed

section \<open>Proposals (preference-archaeologist.ts)\<close>

record preference_proposal =
  pp_id :: string
  pp_userId :: string
  pp_domain :: string
  pp_key :: string
  pp_value :: jsval
  pp_confidence :: confidence_level
  pp_supporting :: "string list"
  pp_detectedAt :: int
  pp_expiresAt :: int

definition extractAction :: "twin_evidence \<Rightarrow> string option" where
  "extractAction ev =
     (case get (ev_data ev) ''action'' of
        JStr s \<Rightarrow> Some s
      | _ \<Rightarrow> (case get (ev_data ev) ''preference_key'' of
          JStr s \<Rightarrow> Some s
        | _ \<Rightarrow> (case get (ev_data ev) ''behavior'' of JStr s \<Rightarrow> Some s | _ \<Rightarrow> None)))"

definition has_action :: "twin_evidence \<Rightarrow> bool" where
  "has_action ev = (case extractAction ev of None \<Rightarrow> False | Some a \<Rightarrow> a \<noteq> [])"

definition action_key :: "twin_evidence \<Rightarrow> string" where
  "action_key ev = pair_key (ev_domain ev) (the (extractAction ev))"

definition groupEvidence :: "twin_evidence list \<Rightarrow> (string \<times> twin_evidence list) list" where
  "groupEvidence evs = group_by action_key (filter has_action evs)"

definition proposed_value :: "twin_evidence \<Rightarrow> jsval" where
  "proposed_value ev = nullish_or (nullish_or (nullish_or (get (ev_data ev) ''action'')
     (get (ev_data ev) ''preference_value'')) (get (ev_data ev) ''behavior'')) (JBool True)"

definition extractDominantValue :: "twin_evidence list \<Rightarrow> jsval" where
  "extractDominantValue evs =
     fst (fold (\<lambda>(_, vs) (best, n). if n < length vs then (hd vs, length vs) else (best, n))
       (group_by stringify (map proposed_value evs)) (JBool True, 0))"

definition confidenceFromCount :: "nat \<Rightarrow> confidence_level" where
  "confidenceFromCount n = (if 20 \<le> n then C_HIGH else if 10 \<le> n then C_MODERATE else C_LOW)"

definition proposal_of ::
  "(nat \<Rightarrow> string) \<Rightarrow> int \<Rightarrow> string \<Rightarrow> stored_preference list
     \<Rightarrow> nat \<times> string \<times> twin_evidence list \<Rightarrow> preference_proposal list" where
  "proposal_of newId now u prefs = (\<lambda>(i, key, evs).
     if length evs < 5 then []
     else let parts = split_on CHR '':'' key; domain = parts ! 0; action = parts ! 1 in
       if list_ex (\<lambda>p. pf_domain p = domain \<and> pf_key p = action \<and> pf_source p = ps_explicit) prefs then []
       else [\<lparr> pp_id = newId i, pp_userId = u, pp_domain = domain, pp_key = action,
           pp_value = extractDominantValue evs, pp_confidence = confidenceFromCount (length evs),
           pp_supporting = map ev_id (take 10 evs), pp_detectedAt = now,
           pp_expiresAt = now + 30 * 24 * 60 * 60 * 1000 \<rparr>])"

definition analyze_proposals ::
  "(nat \<Rightarrow> string) \<Rightarrow> int \<Rightarrow> string \<Rightarrow> twin_evidence list \<Rightarrow> stored_preference list
     \<Rightarrow> preference_proposal list" where
  "analyze_proposals newId now u evs prefs =
     concat (map (proposal_of newId now u prefs) (enumerate 0 (groupEvidence evs)))"

section \<open>Correlations (cross-domain-correlator.ts)\<close>

record stored_signal =
  ss_id :: string
  ss_source :: string
  ss_domain :: string
  ss_data :: jsobj
  ss_timestamp :: int

record signal_correlation =
  sc_signalIds :: "string list"
  sc_type :: string
  sc_confidence :: confidence_level
  sc_description :: string

definition isCalendarEmailLink :: "stored_signal \<Rightarrow> stored_signal \<Rightarrow> bool" where
  "isCalendarEmailLink a b =
     (let (email, calendar) = (if ss_domain a = ''email'' then (a, b) else (b, a)) in
      if ss_domain email \<noteq> ''email'' \<or> ss_domain calendar \<noteq> ''calendar'' then False
      else let body = to_lower (json_text (JObj (ss_data email)));
          title = to_lower (to_str (nullish_or (nullish_or (get (ss_data calendar) ''title'')
            (get (ss_data calendar) ''subject'')) (JStr []))) in
        if title = [] \<or> length title < 3 then False else str_includes body title)"

definition isCalendarConflict :: "(jsval \<Rightarrow> number) \<Rightarrow> stored_signal \<Rightarrow> stored_signal \<Rightarrow> bool" where
  "isCalendarConflict date_of a b =
     (let aStart = get (ss_data a) ''startTime''; aEnd = get (ss_data a) ''endTime'';
        bStart = get (ss_data b) ''startTime''; bEnd = get (ss_data b) ''endTime'' in
      if \<not> truthy aStart \<or> \<not> truthy aEnd \<or> \<not> truthy bStart \<or> \<not> truthy bEnd then False
      else num_lt (date_of aStart) (date_of bEnd) \<and> num_lt (date_of bStart) (date_of aEnd))"

definition isSubscriptionRelated :: "stored_signal \<Rightarrow> bool" where
  "isSubscriptionRelated s \<longleftrightarrow> list_ex (str_includes (to_lower (json_text (JObj (ss_data s)))))
     [''subscription'', ''renewal'', ''recurring'', ''billing'', ''auto-renew'']"

definition same_sender :: "stored_signal \<Rightarrow> stored_signal \<Rightarrow> bool" where
  "same_sender cur s \<longleftrightarrow> ss_source s = ss_source cur \<and> ss_domain s = ss_domain cur \<and> ss_id s \<noteq> ss_id cur \<and>
     \<bar>ss_timestamp s - ss_timestamp cur\<bar> < 24 * 60 * 60 * 1000"

definition findCorrelations ::
  "(jsval \<Rightarrow> number) \<Rightarrow> stored_signal \<Rightarrow> stored_signal list \<Rightarrow> signal_correlation list" where
  "findCorrelations date_of cur recent =
     (let pair = (\<lambda>kind c descr s. \<lparr> sc_signalIds = [ss_id cur, ss_id s], sc_type = kind,
          sc_confidence = c, sc_description = descr \<rparr>);
        thread = filter (same_sender cur) recent in
      map (pair ''calendar_email_link'' C_MODERATE ''Email references calendar event'')
        (filter (isCalendarEmailLink cur) recent)
      @ (if 0 < length thread
         then [\<lparr> sc_signalIds = ss_id cur # map ss_id thread, sc_type = ''same_sender_thread'',
             sc_confidence = C_HIGH,
             sc_description = digits_of (int (length thread + 1)) @ '' signals from '' @ ss_source cur
               @ '' within 24h'' \<rparr>]
         else [])
      @ (if ss_domain cur = ''calendar''
         then map (pair ''calendar_conflict'' C_CONFIRMED ''Calendar events overlap in time'')
           (filter (\<lambda>s. ss_domain s = ''calendar'' \<and> isCalendarConflict date_of cur s) recent)
         else [])
      @ (if isSubscriptionRelated cur
         then map (pair ''subscription_financial'' C_MODERATE
             ''Subscription renewal linked to financial activity'')
           (filter (\<lambda>s. ss_domain s = ''finance'' \<or> ss_domain s = ''subscriptions'') recent)
         else []))"

lemma conflict_sym: "isCalendarConflict d a b = isCalendarConflict d b a"
  by (auto simp: isCalendarConflict_def Let_def)

lemma email_link_sym:
  "ss_domain a \<noteq> ''email'' \<or> ss_domain b \<noteq> ''email'' \<Longrightarrow> isCalendarEmailLink a b = isCalendarEmailLink b a"
  by (auto simp: isCalendarEmailLink_def Let_def)

section \<open>What is proposed\<close>

lemma dominant_fold:
  assumes "\<forall>(k, vs) \<in> set gs. vs \<noteq> []"
  shows "let r = fold (\<lambda>(_, vs) (best, n). if n < length vs then (hd vs, length vs) else (best, n)) gs (b0, n0) in
    (r = (b0, n0) \<or> (\<exists>(k, vs) \<in> set gs. r = (hd vs, length vs))) \<and>
    (\<forall>(k, vs) \<in> set gs. length vs \<le> snd r) \<and> n0 \<le> snd r"
  using assms
proof (induction gs arbitrary: b0 n0)
  case (Cons g gs)
  obtain k vs where g: "g = (k, vs)" by fastforce
  show ?case
    using Cons.IH [of "if n0 < length vs then hd vs else b0" "if n0 < length vs then length vs else n0"]
      Cons.prems by (auto simp: g Let_def split: if_splits)
qed simp

text \<open>How often a value occurs among the evidence, by its JSON text.\<close>

definition occurrences :: "twin_evidence list \<Rightarrow> jsval \<Rightarrow> nat" where
  "occurrences evs v = length (filter (\<lambda>e. stringify (proposed_value e) = stringify v) evs)"

lemma dominant_most_frequent:
  assumes "evs \<noteq> []"
  shows "\<forall>e \<in> set evs. occurrences evs (proposed_value e) \<le> occurrences evs (extractDominantValue evs)"
    and "extractDominantValue evs \<in> proposed_value ` set evs"
proof -
  let ?gs = "group_by stringify (map proposed_value evs)"
  let ?r = "fold (\<lambda>(_, vs) (best, n). if n < length vs then (hd vs, length vs) else (best, n)) ?gs (JBool True, 0)"
  have ne: "\<forall>(k, vs) \<in> set ?gs. vs \<noteq> []"
    by (auto dest: group_nonempty)
  note f = dominant_fold [OF ne, of "JBool True" 0, unfolded Let_def]
  have occ: "length (filter (\<lambda>v. stringify v = k) (map proposed_value evs)) =
      length (filter (\<lambda>e. stringify (proposed_value e) = k) evs)" for k
    by (simp add: filter_map comp_def)
  have all: "occurrences evs (proposed_value e) \<le> snd ?r" if "e \<in> set evs" for e
  proof -
    have "(stringify (proposed_value e), filter (\<lambda>v. stringify v = stringify (proposed_value e)) (map proposed_value evs))
        \<in> set ?gs" using that by (simp add: group_by_iff)
    then show ?thesis using f occ [of "stringify (proposed_value e)"] unfolding occurrences_def by fastforce
  qed
  obtain e where e: "e \<in> set evs" using assms by (cases evs) auto
  have "0 < occurrences evs (proposed_value e)" using e by (auto simp: occurrences_def filter_empty_conv)
  then have "snd ?r \<noteq> 0" using all [OF e] by linarith
  then have "?r \<noteq> (JBool True, 0)" by (metis snd_conv)
  then obtain k vs where kv: "(k, vs) \<in> set ?gs" "?r = (hd vs, length vs)" using f by blast
  then have vs: "vs = filter (\<lambda>v. stringify v = k) (map proposed_value evs)" "vs \<noteq> []"
    using group_nonempty [OF kv(1)] by (simp_all add: group_by_iff)
  have "\<forall>v \<in> set vs. stringify v = k \<and> v \<in> proposed_value ` set evs" unfolding vs(1) by auto
  then have h: "stringify (hd vs) = k" "hd vs \<in> proposed_value ` set evs"
    using hd_in_set [OF vs(2)] by blast+
  then have "occurrences evs (extractDominantValue evs) = snd ?r"
    using kv(2) vs(1) occ [of k] h(1) by (simp add: extractDominantValue_def occurrences_def)
  then show "\<forall>e \<in> set evs. occurrences evs (proposed_value e) \<le> occurrences evs (extractDominantValue evs)"
    using all by simp
  show "extractDominantValue evs \<in> proposed_value ` set evs"
    using kv(2) h(2) by (simp add: extractDominantValue_def)
qed

definition plain_actions :: "twin_evidence list \<Rightarrow> bool" where
  "plain_actions evs = list_all (\<lambda>e. CHR '':'' \<notin> set (ev_domain e) \<and>
     (case extractAction e of None \<Rightarrow> True | Some a \<Rightarrow> CHR '':'' \<notin> set a)) evs"

definition observed :: "string \<Rightarrow> string \<Rightarrow> twin_evidence list \<Rightarrow> twin_evidence list" where
  "observed d a evs = filter (\<lambda>e. ev_domain e = d \<and> extractAction e = Some a) evs"

definition stated :: "stored_preference list \<Rightarrow> string \<Rightarrow> string \<Rightarrow> bool" where
  "stated prefs d a \<longleftrightarrow> (\<exists>p \<in> set prefs. pf_domain p = d \<and> pf_key p = a \<and> pf_source p = ps_explicit)"

lemma split_pair:
  assumes "CHR '':'' \<notin> set d" "CHR '':'' \<notin> set a"
  shows "split_on CHR '':'' (pair_key d a) = [d, a]"
  using assms by (simp add: pair_key_def split_first split_plain)

lemma action_group:
  assumes "plain_actions evs" "a \<noteq> []" "CHR '':'' \<notin> set d"
  shows "filter (\<lambda>e. action_key e = pair_key d a) (filter has_action evs) = observed d a evs"
  unfolding observed_def filter_filter
  by (rule filter_cong [OF refl])
    (use assms in \<open>auto simp: has_action_def action_key_def plain_actions_def list_all_iff pair_key_inject
      split: option.splits\<close>)

lemma proposal_groups:
  assumes "plain_actions evs" "(key, g) \<in> set (groupEvidence evs)"
  obtains d a where "key = pair_key d a" "a \<noteq> []" "CHR '':'' \<notin> set d" "CHR '':'' \<notin> set a"
    "g = observed d a evs"
proof -
  obtain e where e: "e \<in> set evs" "has_action e" "key = action_key e"
    "g = filter (\<lambda>x. action_key x = key) (filter has_action evs)"
    using assms(2) by (auto simp: groupEvidence_def group_by_iff)
  obtain a where a: "extractAction e = Some a" "a \<noteq> []"
    using e(2) by (auto simp: has_action_def split: option.splits)
  have plain: "CHR '':'' \<notin> set (ev_domain e)" "CHR '':'' \<notin> set a"
    using assms(1) e(1) a(1) by (auto simp: plain_actions_def list_all_iff)
  have k: "key = pair_key (ev_domain e) a" using e(3) a(1) by (simp add: action_key_def)
  show ?thesis using that [OF k a(2) plain] e(4) action_group [OF assms(1) a(2) plain(1)] k by simp
qed

lemma proposal_group_of:
  assumes "plain_actions evs" "a \<noteq> []" "observed d a evs \<noteq> []"
  shows "(pair_key d a, observed d a evs) \<in> set (groupEvidence evs)"
proof -
  obtain e where e: "e \<in> set evs" "ev_domain e = d" "extractAction e = Some a"
    using assms(3) by (auto simp: observed_def filter_empty_conv)
  have d: "CHR '':'' \<notin> set d" using assms(1) e by (auto simp: plain_actions_def list_all_iff)
  have "has_action e" "action_key e = pair_key d a" using e assms(2) by (simp_all add: has_action_def action_key_def)
  then show ?thesis using e(1) action_group [OF assms(1,2) d]
    by (auto simp: groupEvidence_def group_by_iff intro: rev_image_eqI)
qed

lemma proposal_iff:
  assumes "CHR '':'' \<notin> set d" "CHR '':'' \<notin> set a"
  shows "set (proposal_of newId now u prefs (i, pair_key d a, evs)) =
    (if 5 \<le> length evs \<and> \<not> stated prefs d a
     then {\<lparr> pp_id = newId i, pp_userId = u, pp_domain = d, pp_key = a, pp_value = extractDominantValue evs,
        pp_confidence = confidenceFromCount (length evs), pp_supporting = map ev_id (take 10 evs),
        pp_detectedAt = now, pp_expiresAt = now + 30 * 24 * 60 * 60 * 1000 \<rparr>} else {})"
  by (auto simp: proposal_of_def split_pair [OF assms] stated_def list_ex_iff Let_def)

lemma enumerated: "(\<exists>i. (i, x) \<in> set (enumerate 0 xs)) \<longleftrightarrow> x \<in> set xs"
proof -
  have "x \<in> set (map snd (enumerate 0 xs)) \<longleftrightarrow> x \<in> set xs" by simp
  then show ?thesis by (force simp del: map_snd_enumerate)
qed

text \<open>
  Proposals are exact: a preference is proposed for a domain and an action when it was observed at
  least five times there and the user has not stated it, and only then; what is proposed is a value
  that occurs most often in that evidence. This needs domains and actions without a colon.
\<close>

theorem proposals_exact:
  assumes "plain_actions evs"
  shows "(\<exists>q \<in> set (analyze_proposals newId now u evs prefs). pp_domain q = d \<and> pp_key q = a) \<longleftrightarrow>
      a \<noteq> [] \<and> 5 \<le> length (observed d a evs) \<and> \<not> stated prefs d a"
    and "\<forall>q \<in> set (analyze_proposals newId now u evs prefs).
      (let g = observed (pp_domain q) (pp_key q) evs in
       pp_value q \<in> proposed_value ` set g \<and>
       (\<forall>e \<in> set g. occurrences g (proposed_value e) \<le> occurrences g (pp_value q)) \<and>
       pp_confidence q = confidenceFromCount (length g))"
proof -
  have mem: "q \<in> set (analyze_proposals newId now u evs prefs) \<longleftrightarrow>
      (\<exists>i key g. (i, key, g) \<in> set (enumerate 0 (groupEvidence evs)) \<and>
        q \<in> set (proposal_of newId now u prefs (i, key, g)))" for q
    by (simp add: analyze_proposals_def Bex_def)
  have from_group: "\<exists>d a. pp_domain q = d \<and> pp_key q = a \<and> a \<noteq> [] \<and> 5 \<le> length (observed d a evs) \<and>
      \<not> stated prefs d a \<and> pp_value q = extractDominantValue (observed d a evs) \<and>
      pp_confidence q = confidenceFromCount (length (observed d a evs))"
    if q: "q \<in> set (analyze_proposals newId now u evs prefs)" for q
  proof -
    obtain i key g where g: "(i, key, g) \<in> set (enumerate 0 (groupEvidence evs))"
      "q \<in> set (proposal_of newId now u prefs (i, key, g))" using q unfolding mem by blast
    then have "(key, g) \<in> set (groupEvidence evs)" using enumerated by metis
    then obtain d a where da: "key = pair_key d a" "a \<noteq> []" "CHR '':'' \<notin> set d" "CHR '':'' \<notin> set a"
      "g = observed d a evs" by (rule proposal_groups [OF assms])
    then show ?thesis using g(2) unfolding da(1) proposal_iff [OF da(3,4)] by (auto split: if_splits)
  qed
  have to_group: "\<exists>q \<in> set (analyze_proposals newId now u evs prefs). pp_domain q = d \<and> pp_key q = a"
    if h: "a \<noteq> []" "5 \<le> length (observed d a evs)" "\<not> stated prefs d a"
  proof -
    have ne: "observed d a evs \<noteq> []" using h(2) by auto
    obtain i where i: "(i, pair_key d a, observed d a evs) \<in> set (enumerate 0 (groupEvidence evs))"
      using proposal_group_of [OF assms h(1) ne] enumerated by metis
    obtain e where "e \<in> set evs" "ev_domain e = d" "extractAction e = Some a"
      using ne by (auto simp: observed_def filter_empty_conv)
    then have "CHR '':'' \<notin> set d" "CHR '':'' \<notin> set a"
      using assms by (auto simp: plain_actions_def list_all_iff)
    from proposal_iff [OF this, of newId now u prefs i "observed d a evs"] h(2,3) obtain q where
      "q \<in> set (proposal_of newId now u prefs (i, pair_key d a, observed d a evs))"
      "pp_domain q = d" "pp_key q = a" by auto
    then show ?thesis using i unfolding Bex_def mem by blast
  qed
  show "(\<exists>q \<in> set (analyze_proposals newId now u evs prefs). pp_domain q = d \<and> pp_key q = a) \<longleftrightarrow>
      a \<noteq> [] \<and> 5 \<le> length (observed d a evs) \<and> \<not> stated prefs d a"
  proof
    assume "\<exists>q \<in> set (analyze_proposals newId now u evs prefs). pp_domain q = d \<and> pp_key q = a"
    then obtain q where q: "q \<in> set (analyze_proposals newId now u evs prefs)" "pp_domain q = d" "pp_key q = a"
      by blast
    from from_group [OF q(1)] obtain d' a' where "pp_domain q = d'" "pp_key q = a'" "a' \<noteq> []"
      "5 \<le> length (observed d' a' evs)" "\<not> stated prefs d' a'" by blast
    then show "a \<noteq> [] \<and> 5 \<le> length (observed d a evs) \<and> \<not> stated prefs d a" using q(2,3) by simp
  qed (simp add: to_group)
  show "\<forall>q \<in> set (analyze_proposals newId now u evs prefs).
      (let g = observed (pp_domain q) (pp_key q) evs in
       pp_value q \<in> proposed_value ` set g \<and>
       (\<forall>e \<in> set g. occurrences g (proposed_value e) \<le> occurrences g (pp_value q)) \<and>
       pp_confidence q = confidenceFromCount (length g))"
  proof
    fix q assume "q \<in> set (analyze_proposals newId now u evs prefs)"
    from from_group [OF this] obtain d' a' where "pp_domain q = d'" "pp_key q = a'"
      "5 \<le> length (observed d' a' evs)" "pp_value q = extractDominantValue (observed d' a' evs)"
      "pp_confidence q = confidenceFromCount (length (observed d' a' evs))" by blast
    then have q: "5 \<le> length (observed (pp_domain q) (pp_key q) evs)"
      "pp_value q = extractDominantValue (observed (pp_domain q) (pp_key q) evs)"
      "pp_confidence q = confidenceFromCount (length (observed (pp_domain q) (pp_key q) evs))" by simp_all
    then have "observed (pp_domain q) (pp_key q) evs \<noteq> []" by auto
    from dominant_most_frequent [OF this] q(2,3) show "(let g = observed (pp_domain q) (pp_key q) evs in
       pp_value q \<in> proposed_value ` set g \<and>
       (\<forall>e \<in> set g. occurrences g (proposed_value e) \<le> occurrences g (pp_value q)) \<and>
       pp_confidence q = confidenceFromCount (length g))" by (simp add: Let_def)
  qed
qed

end
