(* ===== verification/TwinExamples.thy ===== *)
theory TwinExamples
  imports TwinTheorems TwinDiscovery
begin

text \<open>
  A small user for the witnesses of the twin's properties: mails that were archived, an inference and a
  preference about them, and a repository that keeps what it is given.
\<close>

definition sample_inference_env :: inference_env where
  "sample_inference_env = \<lparr> ie_now = 1000, ie_newId = (\<lambda>n. ''inf'' @ digits_of (int n)) \<rparr>"

definition mail :: "string \<Rightarrow> twin_evidence" where
  "mail e = \<lparr> ev_id = e, ev_userId = ''u'', ev_source = ''gmail'', ev_type = ''mail'',
     ev_data = [(''action'', JStr ''archive'')], ev_domain = ''email'', ev_timestamp = 0 \<rparr>"

definition known_inference :: stored_inference where
  "known_inference = \<lparr> inf_id = ''i0'', inf_domain = ''email'', inf_key = ''preferred_action_mail'',
     inf_value = JStr ''archive'', inf_confidence = C_LOW, inf_supporting = [''e0''], inf_contradicting = [],
     inf_reasoning = [], inf_createdAt = 0, inf_updatedAt = 0 \<rparr>"

definition archive_signal :: twin_signal where
  "archive_signal = \<lparr> sg_key = ''preferred_action_mail'', sg_value = JStr ''archive'' \<rparr>"

lemma archive_agrees: "valuesAreConsistent (JStr ''archive'') (sg_value archive_signal)"
  by (simp add: valuesAreConsistent_def archive_signal_def)

lemma two_mails: "relevant ''email'' ''preferred_action_mail'' [mail ''e1'', mail ''e2''] = [archive_signal, archive_signal]"
  by code_simp

lemma three_mails: "relevant ''email'' ''preferred_action_mail'' [mail ''e1'', mail ''e2'', mail ''e3''] =
  [archive_signal, archive_signal, archive_signal]"
  by code_simp

lemma mails_plain: "plain_domains [mail ''e1'', mail ''e2'']" "plain_domains [mail ''e1'', mail ''e2'', mail ''e3'']"
  by (simp_all add: plain_domains_def mail_def)

lemma known_fields [simp]:
  "inf_domain known_inference = ''email''" "inf_key known_inference = ''preferred_action_mail''"
  "inf_value known_inference = JStr ''archive''" "inf_confidence known_inference = C_LOW"
  "inf_supporting known_inference = [''e0'']" "inf_id known_inference = ''i0''"
  by (simp_all add: known_inference_def)

text \<open>An older inference about the same subject, which the batch drops.\<close>

definition older_inference :: stored_inference where
  "older_inference = known_inference \<lparr> inf_id := ''i9'', inf_value := JStr ''keep'', inf_confidence := C_CONFIRMED \<rparr>"

theorem confidence_follows_signals_witness:
  "\<exists>j. filter (\<lambda>x. inference_key x = inference_key known_inference)
       (analyzeEvidence sample_inference_env [older_inference, known_inference] [mail ''e1'', mail ''e2'']) = [j] \<and>
     inference_key older_inference = inference_key known_inference \<and>
     inf_id j = ''i0'' \<and> inf_confidence j = C_HIGH"
proof -
  have "fold (reaction (JStr ''archive'')) [archive_signal, archive_signal] C_LOW = C_HIGH"
    by (simp add: reaction_def archive_agrees increaseConfidence_def level_index_def CONFIDENCE_LEVELS_def)
  then show ?thesis
    using confidence_follows_signals [of "[older_inference, known_inference]" "[older_inference]"
        known_inference "[]" "[mail ''e1'', mail ''e2'']" sample_inference_env] mails_plain(1) two_mails
    by (auto simp: older_inference_def inference_key_def)
qed

lemma three_mails_moderate: "calculateConfidence (of_domain ''email'' [mail ''e1'', mail ''e2'', mail ''e3'']) = C_MODERATE"
  by code_simp

theorem new_inference_confidence_witness:
  "\<exists>j \<in> set (analyzeEvidence sample_inference_env [] [mail ''e1'', mail ''e2'', mail ''e3'']).
     inf_key j = ''preferred_action_mail'' \<and> inf_confidence j = C_CONFIRMED"
proof -
  have "fold (reaction (JStr ''archive'')) [archive_signal, archive_signal] C_MODERATE = C_CONFIRMED"
    by (simp add: reaction_def archive_agrees increaseConfidence_def level_index_def CONFIDENCE_LEVELS_def)
  then show ?thesis
    using new_inference_confidence [of "''email''" "''preferred_action_mail''" "[]", OF _ three_mails _ mails_plain(2),
        of sample_inference_env] three_mails_moderate by (auto simp: archive_signal_def)
qed

section \<open>The service\<close>

definition sample_preference :: "confidence_level \<Rightarrow> stored_preference" where
  "sample_preference c = \<lparr> pf_id = ''p0'', pf_domain = ''email'', pf_key = ''preferred_action_mail'',
     pf_value = JStr ''keep'', pf_confidence = c, pf_source = ps_explicit, pf_evidenceIds = [],
     pf_createdAt = 0, pf_updatedAt = 0 \<rparr>"

definition sample_profile :: stored_profile where
  "sample_profile = \<lparr> sp_id = ''t'', sp_userId = ''u'', sp_version = 3, sp_preferences = [],
     sp_inferences = [known_inference], sp_createdAt = 0, sp_updatedAt = 0 \<rparr>"

definition sample_twin :: twin_ports where
  "sample_twin = \<lparr> tr_getProfile = (\<lambda>u. Some sample_profile), tr_createProfile = id, tr_updateProfile = id,
     tr_getEvidence = (\<lambda>u n. [mail ''e1'', mail ''e2'']), tr_getPreferencesByDomain = (\<lambda>u d. []),
     tr_getInferences = (\<lambda>u. [known_inference]),
     tr_patterns = Some \<lparr> pr_getPatterns = (\<lambda>u. []), pr_getTraits = (\<lambda>u. []) \<rparr>, tr_history = True,
     tw_env = sample_inference_env, tw_uuid = ''t'', tw_newPreferenceId = (\<lambda>n. ''pref'' @ digits_of (int n)),
     tw_patternEnv = \<lparr> pe_newId = (\<lambda>n. ''pat'' @ digits_of (int n)) \<rparr>,
     tw_localTime = \<lparr> lt_hour = (\<lambda>t. nat (t div 3600000 mod 24)), lt_day = (\<lambda>t. nat ((t div 86400000 + 4) mod 7)) \<rparr> \<rparr>"

lemma current_sample: "current sample_twin u = sample_profile"
  by (simp add: current_def getOrCreateProfile_def sample_twin_def)

definition sample_approval :: feedback_event where
  "sample_approval = \<lparr> fe_id = ''f'', fe_type = fb_approve, fe_correctedAction = None,
     fe_correctedValue = JUndefined, fe_reason = None, fe_undoSeverity = None \<rparr>"

text \<open>A profile that holds two inferences about one subject, of different confidence.\<close>

definition crowded_twin :: twin_ports where
  "crowded_twin = sample_twin \<lparr> tr_getProfile :=
     (\<lambda>u. Some (sample_profile \<lparr> sp_inferences := [older_inference, known_inference] \<rparr>)) \<rparr>"

lemma current_crowded: "current crowded_twin u = sample_profile \<lparr> sp_inferences := [older_inference, known_inference] \<rparr>"
  by (simp add: current_def getOrCreateProfile_def crowded_twin_def)

lemma approval_moves:
  "feedback_spec env sample_approval infs = map (moved env increaseConfidence) infs"
  by (simp add: feedback_spec_def moves_def sample_approval_def feedback_move_def)

lemma raised_twice: "increaseConfidence C_CONFIRMED = C_CONFIRMED" "increaseConfidence C_LOW = C_MODERATE"
  by (simp_all add: increaseConfidence_def level_index_def CONFIDENCE_LEVELS_def)

theorem feedback_not_recorded_witness:
  "record_calls (snd (processFeedback sample_twin ''u'' sample_approval)) = [] \<and>
   feedback_spec sample_inference_env sample_approval [known_inference] \<noteq> [known_inference] \<and>
   record_calls (snd (processFeedback crowded_twin ''u'' sample_approval)) \<noteq> []"
proof -
  have "inf_confidence (hd (feedback_spec sample_inference_env sample_approval [known_inference])) = C_MODERATE"
    by (simp add: approval_moves moved_def raised_twice)
  then have "feedback_spec sample_inference_env sample_approval [known_inference] \<noteq> [known_inference]"
    by (metis confidence_level.distinct(9) known_fields(4) list.sel(1))
  moreover have "record_calls (snd (processFeedback sample_twin ''u'' sample_approval)) = []"
    using feedback_not_recorded [of sample_twin sample_approval "''u''"]
    by (simp add: current_sample sample_profile_def sample_approval_def Let_def)
  moreover have "record_calls (snd (processFeedback crowded_twin ''u'' sample_approval)) \<noteq> []"
    using feedback_not_recorded [of crowded_twin sample_approval "''u''"]
    by (simp add: current_crowded approval_moves moved_def raised_twice older_inference_def Let_def)
      (simp add: crowded_twin_def sample_twin_def)
  ultimately show ?thesis by blast
qed

text \<open>A correction that read the profile before another request replaced the preference.\<close>

definition sample_correction :: insight_body where
  "sample_correction = \<lparr> ib_domain = ''email'', ib_key = ''preferred_action_mail'', ib_newValue = Some ''delete '' \<rparr>"

definition preference_edits :: "twin_event list" where
  "preference_edits =
     [Operation sample_twin ''u'' (Set_preference (sample_preference C_LOW)) 0,
      Operation sample_twin ''u'' (Set_preference (sample_preference C_HIGH)) 0,
      Delete_insights sample_twin sample_twin ''u'' sample_correction 1 0]"

text \<open>What one step leaves of the preferences of a user, from the profile that it read.\<close>

lemma set_preference_leaves:
  assumes "map slot (sp_preferences (fst (getOrCreateProfile (faithful p (seen h n)) u))) \<in> {[], [slot q]}"
  shows "\<exists>prof. seen (twin_step h (Operation p u (Set_preference q) n)) 0 u = Some prof \<and>
    map (\<lambda>q. (slot q, pf_confidence q)) (sp_preferences prof) = [(slot q, pf_confidence q)]"
  using assms
  by (auto simp: write_profile_def seen_def operation_preferences put_preference_def find_index_def slot_def
      simp del: perform.simps split: option.splits)

lemma correction_leaves:
  assumes "map slot (sp_preferences (fst (getOrCreateProfile (faithful p (seen h n)) u))) = [(ib_domain b, ib_key b)]"
    and "insight_refused u b = None" "ib_newValue b = Some v" "trim v \<noteq> []"
  shows "\<exists>prof. seen (twin_step h (Delete_insights p p' u b n m)) 0 u = Some prof \<and>
    map (\<lambda>q. (slot q, pf_confidence q)) (sp_preferences prof) = [((ib_domain b, ib_key b), C_CONFIRMED)]"
  using assms
  by (auto simp: write_profile_def seen_def deleteInsights_def edited_insights_def replaceProfileInsights_def
      corrected_preference_def slot_def case_prod_unfold Let_def apsnd_def map_prod_def)

lemma read_seen: "seen h n u = Some prof \<Longrightarrow> fst (getOrCreateProfile (faithful p (seen h n)) u) = prof"
  by (simp add: getOrCreateProfile_def faithful_def)

lemma seen_before: "seen (twin_step h (Operation p u c n)) 1 = seen h 0"
  by (auto simp: seen_def write_profile_def)

lemma sample_slot: "slot (sample_preference c) = (''email'', ''preferred_action_mail'')" "pf_confidence (sample_preference c) = c"
  by (simp_all add: slot_def sample_preference_def)

lemma correction_accepted:
  "insight_refused ''u'' sample_correction = None" "ib_newValue sample_correction = Some ''delete ''"
  "trim ''delete '' \<noteq> []" "(ib_domain sample_correction, ib_key sample_correction) = (''email'', ''preferred_action_mail'')"
  by (simp_all add: insight_refused_def sample_correction_def trim_def is_space_def)

lemma edits_leave:
  "\<exists>prof. seen (run twin_step [] preference_edits) 0 ''u'' = Some prof \<and>
     map pf_confidence (sp_preferences prof) = [C_CONFIRMED]"
proof -
  let ?q = "sample_preference C_LOW"
  let ?h1 = "twin_step [] (Operation sample_twin ''u'' (Set_preference ?q) 0)"
  let ?h2 = "twin_step ?h1 (Operation sample_twin ''u'' (Set_preference (sample_preference C_HIGH)) 0)"
  have "sp_preferences (fst (getOrCreateProfile (faithful sample_twin (seen [] 0)) ''u'')) = []"
    by (simp add: getOrCreateProfile_def faithful_def seen_def default_profile_def)
  then obtain p1 where p1: "seen ?h1 0 ''u'' = Some p1"
    "map (\<lambda>q. (slot q, pf_confidence q)) (sp_preferences p1) = [(slot ?q, C_LOW)]"
    using set_preference_leaves [of sample_twin "[]" 0 "''u''" ?q] by (auto simp: sample_slot)
  have "seen ?h2 1 ''u'' = Some p1" unfolding seen_before by (rule p1(1))
  from read_seen [OF this, of sample_twin] p1(2)
  have "map slot (sp_preferences (fst (getOrCreateProfile (faithful sample_twin (seen ?h2 1)) ''u''))) =
      [(ib_domain sample_correction, ib_key sample_correction)]"
    unfolding correction_accepted(4) by (auto simp only: sample_slot list.map map_eq_Cons_conv prod.inject map_is_Nil_conv)
  from correction_leaves [OF this correction_accepted(1-3), of sample_twin 0]
  obtain prof where p: "seen (twin_step ?h2 (Delete_insights sample_twin sample_twin ''u'' sample_correction 1 0)) 0 ''u'' = Some prof"
    "map (\<lambda>q. (slot q, pf_confidence q)) (sp_preferences prof) =
      [((ib_domain sample_correction, ib_key sample_correction), C_CONFIRMED)]" by (elim exE conjE)
  have "map pf_confidence (sp_preferences prof) = [C_CONFIRMED]"
    using arg_cong [OF p(2), of "map snd"] by (simp only: list.map map_map comp_def snd_conv)
  with p(1) show ?thesis unfolding preference_edits_def run.simps by (intro exI [of _ prof] conjI)
qed

theorem one_preference_per_key_witness:
  "\<exists>prof. seen (run twin_step [] preference_edits) 0 ''u'' = Some prof \<and>
     map pf_confidence (sp_preferences prof) = [C_CONFIRMED] \<and>
     distinct (map (\<lambda>q. (pf_domain q, pf_key q)) (sp_preferences prof))"
proof -
  obtain prof where p: "seen (run twin_step [] preference_edits) 0 ''u'' = Some prof"
    "map pf_confidence (sp_preferences prof) = [C_CONFIRMED]"
    using edits_leave by (elim exE conjE)
  show ?thesis by (intro exI [of _ prof] conjI p one_preference_per_key [OF p(1)])
qed

theorem promotion_keeps_witness:
  "let r = promoteInferences sample_twin [sample_preference C_LOW]
      [known_inference \<lparr> inf_confidence := C_HIGH \<rparr>] ! 0 in pf_id r = ''p0'' \<and> pf_key r = ''preferred_action_mail''"
  using promotion_keeps [of 0 "[sample_preference C_LOW]" sample_twin "[known_inference \<lparr> inf_confidence := C_HIGH \<rparr>]"]
  by (auto simp: Let_def sample_preference_def)

theorem window_counted_again_witness:
  "\<exists>fx next j. fst (addEvidence sample_twin ''u'' (mail ''new'' \<lparr> ev_domain := ''calendar'' \<rparr>) (\<lambda>_. None)) =
     (next, fx) \<and> j \<in> set (sp_inferences next) \<and> inf_id j = ''i0'' \<and>
     confidence_index (inf_confidence j) = confidence_index C_LOW + 2"
proof -
  have a: "tr_patterns sample_twin = Some \<lparr> pr_getPatterns = (\<lambda>u. []), pr_getTraits = (\<lambda>u. []) \<rparr>"
    "tr_getEvidence sample_twin ''u'' 100 = [mail ''e1'', mail ''e2'']"
    by (simp_all add: sample_twin_def)
  have "\<exists>fx next j. fst (addEvidence sample_twin ''u'' (mail ''new'' \<lparr> ev_domain := ''calendar'' \<rparr>) (\<lambda>_. None)) =
      (tr_updateProfile sample_twin next, fx) \<and> j \<in> set (sp_inferences next) \<and>
      inf_id j = inf_id known_inference \<and> inf_domain j = inf_domain known_inference \<and>
      inf_key j = inf_key known_inference \<and>
      confidence_index (inf_confidence j) = min 4 (confidence_index (inf_confidence known_inference)
        + int (length (relevant (inf_domain known_inference) (inf_key known_inference) [mail ''e1'', mail ''e2''])))"
    by (rule window_counted_again [OF a mails_plain(1)])
      (simp_all add: current_sample sample_profile_def two_mails archive_agrees)
  then show ?thesis unfolding two_mails known_fields by (auto simp: sample_twin_def)
qed

theorem habits_settle_witness:
  "let found = detectHabits (tw_patternEnv sample_twin) [mail ''e1'', mail ''e2'', mail ''e3''] [] in
   detectHabits (tw_patternEnv sample_twin) [mail ''e1'', mail ''e2'', mail ''e3''] found = found \<and>
   map bp_observedAction found = [''archive'']"
proof -
  have "plain_habits [mail ''e1'', mail ''e2'', mail ''e3'']" by code_simp
  moreover have "map bp_observedAction (detectHabits (tw_patternEnv sample_twin) [mail ''e1'', mail ''e2'', mail ''e3''] [])
      = [''archive'']" by code_simp
  ultimately show ?thesis
    using habits_settle [of "[mail ''e1'', mail ''e2'', mail ''e3'']" "tw_patternEnv sample_twin"
        "tw_patternEnv sample_twin" "[]"] by (simp add: Let_def)
qed

text \<open>
  With a colon in the action the detector does not settle: a run that finds a pattern stores it under a
  shortened action, and the next run finds it anew.
\<close>

definition labelled :: "string \<Rightarrow> twin_evidence" where
  "labelled e = mail e \<lparr> ev_data := [(''action'', JStr ''label:work'')] \<rparr>"

lemma colon_action_duplicates:
  "let evs = [labelled ''e1'', labelled ''e2'', labelled ''e3'']; env = tw_patternEnv sample_twin in
   length (detectHabits env evs (detectHabits env evs [])) = 2"
  by code_simp

theorem active_hours_cover_witness:
  "let p = analyzeTemporalPatterns (tw_localTime sample_twin) [mail ''e1'', mail ''e2'' \<lparr> ev_timestamp := 82800000 \<rparr>]
   in tm_start p = 0 \<and> tm_end p = 23 \<and> isActiveHour (tw_localTime sample_twin) p 43200000"
proof -
  let ?evs = "[mail ''e1'', mail ''e2'' \<lparr> ev_timestamp := 82800000 \<rparr>]"
  let ?p = "analyzeTemporalPatterns (tw_localTime sample_twin) ?evs"
  have h: "tm_start ?p \<le> tm_end ?p"
    using active_hours_cover [of ?evs "tw_localTime sample_twin"]
    by (simp add: sample_twin_def mail_def Let_def)
  have "tm_start ?p = 0" "tm_end ?p = 23" by code_simp+
  then show ?thesis using h by (simp add: Let_def isActiveHour_def sample_twin_def)
qed

end
