(* ===== verification/MemoryRouter.thy ===== *)
theory MemoryRouter
  imports JsValue Prelude "HOL-Library.Multiset"
begin

text \<open>
  The memory ports and the router before a memory backend (packages/memory-port/src/port.ts, types.ts
  and router.ts). A backend declares its capabilities; where one is missing the router fills in: a walk
  of the knowledge graph breadth-first over its triples, a summary put together from triples, and a
  compression from the summary. What a backend answers is a record of functions; the time that a
  polyfill takes is a parameter. The router's state is its statistics.
\<close>

section \<open>Data\<close>

datatype memory_capability =
    semantic_search | graph_walk | episodic | spatial_wings | aaak_compression | temporal_triples
  | code_aware_search | federated_sources

record knowledge_entity =
  ke_id :: string
  ke_userId :: string
  ke_name :: string
  ke_entityType :: string
  ke_attributes :: "jsobj option"
  ke_firstSeenAt :: int
  ke_lastSeenAt :: int

record triple_evidence =
  te_signalId :: "string option"
  te_sourceRef :: "string option"

record knowledge_triple =
  kt_id :: string
  kt_userId :: string
  kt_subject :: string
  kt_predicate :: string
  kt_object :: string
  kt_validFrom :: int
  kt_validTo :: "int option"
  kt_evidence :: "triple_evidence option"

record episode =
  ep_id :: string
  ep_userId :: string
  ep_wing :: "string option"
  ep_startedAt :: int
  ep_endedAt :: int
  ep_summary :: string
  ep_metadata :: "jsobj option"

record semantic_hit =
  sh_id :: string
  sh_score :: number
  sh_content :: string
  sh_source :: string
  sh_metadata :: "jsobj option"

datatype knowledge_node = Entity_node knowledge_entity | Triple_node knowledge_triple

record graph_walk_spec =
  gw_startNodeId :: string
  gw_maxDepth :: int
  gw_predicate :: "string option"

datatype summary_scope = scope_user_profile | scope_recent_week | scope_recent_day | scope_wing

fun scope_str :: "summary_scope \<Rightarrow> string" where
  "scope_str scope_user_profile = ''user-profile''"
| "scope_str scope_recent_week = ''recent-week''"
| "scope_str scope_recent_day = ''recent-day''"
| "scope_str scope_wing = ''wing''"

record summarize_spec =
  sz_scope :: summary_scope
  sz_wingName :: "string option"
  sz_maxTokens :: "int option"

record memory_summary =
  ms_text :: string
  ms_tokenCount :: int
  ms_citations :: "(string \<times> string) list"

record compressed_entry =
  ce_summary :: string
  ce_sourceCount :: nat
  ce_periodFrom :: int
  ce_periodTo :: int

record compressed_view =
  cv_entries :: "compressed_entry list"
  cv_totalSourcesCompressed :: nat

record episode_query =
  eq_from :: int
  eq_to :: int
  eq_wing :: "string option"
  eq_minDurationMs :: "int option"

text \<open>The reads of a memory port.\<close>

record memory_port =
  mp_capabilities :: "memory_capability list"
  mp_searchSemantic :: "string \<Rightarrow> nat \<Rightarrow> string list \<Rightarrow> semantic_hit list"
  mp_walkGraph :: "graph_walk_spec \<Rightarrow> knowledge_node list"
  mp_getEpisodes :: "episode_query \<Rightarrow> episode list"
  mp_getEntitiesByType :: "string \<Rightarrow> string option \<Rightarrow> knowledge_entity list"
  mp_getTriples :: "string option \<Rightarrow> string option \<Rightarrow> string option \<Rightarrow> knowledge_triple list"
  mp_summarize :: "summarize_spec \<Rightarrow> memory_summary"
  mp_compress :: "int \<Rightarrow> compressed_view"

definition has_capability :: "memory_port \<Rightarrow> memory_capability \<Rightarrow> bool" where
  "has_capability b c \<longleftrightarrow> c \<in> set (mp_capabilities b)"

section \<open>The walk\<close>

text \<open>
  The measure of the loop below: an item is replaced by finitely many items that may go less deep.
\<close>

definition depth_left :: "int \<Rightarrow> (string \<times> nat) list \<Rightarrow> nat multiset" where
  "depth_left D queue = mset (map (\<lambda>(n, d). nat (D + 1 - int d)) queue)"

lemma depth_left_tail: "(depth_left D q, depth_left D (x # q)) \<in> mult less_than"
  using one_step_implies_mult [of "{#case x of (n, d) \<Rightarrow> nat (D + 1 - int d)#}" "{#}" less_than "depth_left D q"]
  by (simp add: depth_left_def)

lemma depth_left_pushed:
  assumes "int d \<le> D" "\<forall>(m, e) \<in> set new. e = d + 1"
  shows "(depth_left D (q @ new), depth_left D ((n, d) # q)) \<in> mult less_than"
proof -
  let ?K = "mset (map (\<lambda>(n, d). nat (D + 1 - int d)) new)"
  have "\<forall>k \<in> set_mset ?K. \<exists>j \<in> set_mset {#nat (D + 1 - int d)#}. (k, j) \<in> less_than"
    using assms by auto
  then show ?thesis
    using one_step_implies_mult [of "{#nat (D + 1 - int d)#}" ?K less_than "depth_left D q"]
    by (simp add: depth_left_def add.commute)
qed

text \<open>
  The loop over the queue. \<open>succ n\<close> is the answer of the backend for the subject \<open>n\<close>; the depth of an
  item is at most one more than that of the item it came from.
\<close>

function walk_loop ::
  "(string \<Rightarrow> knowledge_triple list) \<Rightarrow> int \<Rightarrow> string list \<Rightarrow> (string \<times> nat) list \<Rightarrow> knowledge_triple list
     \<Rightarrow> knowledge_triple list" where
  "walk_loop succ D visited [] acc = acc"
| "walk_loop succ D visited ((n, d) # queue) acc =
     (if n \<in> set visited \<or> D < int d then walk_loop succ D visited queue acc
      else walk_loop succ D (n # visited)
        (queue @ map (\<lambda>t. (kt_object t, d + 1))
          (filter (\<lambda>t. kt_object t \<notin> set (n # visited) \<and> int d < D) (succ n)))
        (acc @ succ n))"
  by pat_completeness auto

termination
proof (relation "inv_image (mult less_than) (\<lambda>(succ, D, visited, queue, acc). depth_left D queue)", goal_cases)
  case 1
  then show ?case by (simp add: wf_mult)
next
  case (2 succ D visited n d queue acc)
  then show ?case by (simp add: depth_left_tail)
next
  case (3 succ D visited n d queue acc)
  then show ?case by (simp, intro depth_left_pushed) auto
qed

definition polyfillWalkGraph :: "memory_port \<Rightarrow> graph_walk_spec \<Rightarrow> knowledge_node list" where
  "polyfillWalkGraph b spec =
     map Triple_node (walk_loop (\<lambda>n. mp_getTriples b (Some n) (gw_predicate spec) None) (gw_maxDepth spec) []
       [(gw_startNodeId spec, 0)] [])"

section \<open>Summaries\<close>

definition triple_line :: "knowledge_triple \<Rightarrow> string" where
  "triple_line t = kt_subject t @ '' '' @ kt_predicate t @ '' '' @ kt_object t"

abbreviation newline :: string where
  "newline \<equiv> [CHR 0x0A]"

fun take_lines :: "int \<Rightarrow> string list \<Rightarrow> knowledge_triple list \<Rightarrow> string list" where
  "take_lines maxChars ls [] = ls"
| "take_lines maxChars ls (t # ts) =
     (if maxChars < int (length (join_with newline ls) + length (triple_line t)) then ls
      else take_lines maxChars (ls @ [triple_line t]) ts)"

definition polyfillSummarize :: "memory_port \<Rightarrow> summarize_spec \<Rightarrow> memory_summary" where
  "polyfillSummarize b spec =
     (let triples = mp_getTriples b None None None;
        maxTokens = (case sz_maxTokens spec of None \<Rightarrow> 500 | Some n \<Rightarrow> n); maxChars = maxTokens * 4;
        ls = take_lines maxChars [] triples;
        citations = map (\<lambda>t. (kt_id t, ''triple'')) (take (length ls) triples);
        joined = join_with newline ls;
        txt = (if joined \<noteq> [] then joined else ''Summary for scope: '' @ scope_str (sz_scope spec)) in
      \<lparr> ms_text = txt, ms_tokenCount = \<lceil>(of_nat (length txt) :: rat) / 4\<rceil>, ms_citations = citations \<rparr>)"

definition polyfillGetEpisodes :: "episode_query \<Rightarrow> episode list" where
  "polyfillGetEpisodes q = []"

section \<open>The router\<close>

record polyfill_stat =
  pl_latencyMs :: int
  pl_calls :: nat

type_synonym router_stats = "(string \<times> polyfill_stat) list"

definition recordStat :: "string \<Rightarrow> int \<Rightarrow> router_stats \<Rightarrow> router_stats" where
  "recordStat m latency st =
     (case map_of st m of
        Some x \<Rightarrow> put m (x \<lparr> pl_latencyMs := pl_latencyMs x + latency, pl_calls := pl_calls x + 1 \<rparr>) st
      | None \<Rightarrow> put m \<lparr> pl_latencyMs = latency, pl_calls = 1 \<rparr> st)"

record router_env =
  re_backend :: memory_port
  re_latency :: "string \<Rightarrow> int"
  re_now :: int

definition router_walkGraph ::
  "router_env \<Rightarrow> graph_walk_spec \<Rightarrow> router_stats \<Rightarrow> knowledge_node list \<times> router_stats" where
  "router_walkGraph env spec st =
     (if has_capability (re_backend env) graph_walk then (mp_walkGraph (re_backend env) spec, st)
      else (polyfillWalkGraph (re_backend env) spec, recordStat ''walkGraph'' (re_latency env ''walkGraph'') st))"

definition router_getEpisodes ::
  "router_env \<Rightarrow> episode_query \<Rightarrow> router_stats \<Rightarrow> episode list \<times> router_stats" where
  "router_getEpisodes env q st =
     (if has_capability (re_backend env) episodic then (mp_getEpisodes (re_backend env) q, st)
      else (polyfillGetEpisodes q, recordStat ''getEpisodes'' (re_latency env ''getEpisodes'') st))"

definition router_summarize ::
  "router_env \<Rightarrow> summarize_spec \<Rightarrow> router_stats \<Rightarrow> memory_summary \<times> router_stats" where
  "router_summarize env spec st =
     (if has_capability (re_backend env) aaak_compression \<or> has_capability (re_backend env) temporal_triples
      then (mp_summarize (re_backend env) spec, st)
      else (polyfillSummarize (re_backend env) spec, recordStat ''summarize'' (re_latency env ''summarize'') st))"

definition compress_view :: "int \<Rightarrow> memory_summary \<Rightarrow> compressed_view" where
  "compress_view now sm =
     (let n = length (ms_citations sm) in
      \<lparr> cv_entries = [\<lparr> ce_summary = ms_text sm, ce_sourceCount = n,
          ce_periodFrom = now - 7 * 24 * 60 * 60 * 1000, ce_periodTo = now \<rparr>],
        cv_totalSourcesCompressed = n \<rparr>)"

definition router_compress ::
  "router_env \<Rightarrow> int \<Rightarrow> router_stats \<Rightarrow> compressed_view \<times> router_stats" where
  "router_compress env maxTokens st =
     (if has_capability (re_backend env) aaak_compression then (mp_compress (re_backend env) maxTokens, st)
      else (let (sm, st1) = router_summarize env
            \<lparr> sz_scope = scope_user_profile, sz_wingName = None, sz_maxTokens = Some maxTokens \<rparr> st in
        (compress_view (re_now env) sm, recordStat ''compress'' (re_latency env ''compress'') st1)))"

definition polyfillStats :: "router_stats \<Rightarrow> (string \<times> polyfill_stat) list" where
  "polyfillStats st = st"

section \<open>The walk finds what is near\<close>

text \<open>\<open>n\<close> is reached from \<open>s\<close> along \<open>k\<close> triples.\<close>

inductive steps :: "(string \<Rightarrow> knowledge_triple list) \<Rightarrow> string \<Rightarrow> string \<Rightarrow> nat \<Rightarrow> bool"
  for succ :: "string \<Rightarrow> knowledge_triple list" and s :: string where
  start: "steps succ s s 0"
| step: "steps succ s n k \<Longrightarrow> t \<in> set (succ n) \<Longrightarrow> steps succ s (kt_object t) (Suc k)"

inductive_cases steps_Suc: "steps succ s n (Suc k)"
inductive_simps steps_0: "steps succ s n 0"

definition near :: "(string \<Rightarrow> knowledge_triple list) \<Rightarrow> string \<Rightarrow> int \<Rightarrow> string set" where
  "near succ s D = {n. \<exists>k. steps succ s n k \<and> int k \<le> D}"

text \<open>
  The invariant of the loop, for the depth \<open>f\<close> at which a visited node was taken from the queue: the
  queue is ordered by depth, its items are that far away, and what follows a visited node that is not
  at the bound is visited or queued, one deeper at most.
\<close>

definition walk_inv ::
  "(string \<Rightarrow> knowledge_triple list) \<Rightarrow> string \<Rightarrow> int \<Rightarrow> (string \<Rightarrow> nat) \<Rightarrow> string list
     \<Rightarrow> (string \<times> nat) list \<Rightarrow> bool" where
  "walk_inv succ s D f V q \<longleftrightarrow>
     sorted (map snd q) \<and> (\<forall>(n, d) \<in> set q. d \<le> Suc (snd (hd q))) \<and>
     (\<forall>(n, d) \<in> set q. steps succ s n d) \<and>
     (\<forall>v \<in> set V. steps succ s v (f v) \<and> int (f v) \<le> D) \<and>
     (\<forall>v \<in> set V. \<forall>(n, d) \<in> set q. f v \<le> d) \<and>
     ((s \<in> set V \<and> f s = 0) \<or> (s, 0) \<in> set q) \<and>
     (\<forall>v \<in> set V. int (f v) < D \<longrightarrow> (\<forall>t \<in> set (succ v).
        (kt_object t \<in> set V \<and> f (kt_object t) \<le> Suc (f v)) \<or>
        (\<exists>d. (kt_object t, d) \<in> set q \<and> d \<le> Suc (f v))))"

lemma walk_inv_start: "walk_inv succ s D f [] [(s, 0)]"
  by (simp add: walk_inv_def steps.start)

lemma walk_inv_head:
  assumes "walk_inv succ s D f V ((n, d) # q)" "(m, e) \<in> set q"
  shows "d \<le> e" "e \<le> Suc d"
proof -
  have "sorted (d # map snd q)" "\<forall>(m, e) \<in> set q. e \<le> Suc d"
    using assms(1) by (auto simp: walk_inv_def)
  then show "d \<le> e" "e \<le> Suc d" using assms(2) by (auto simp: image_iff)
qed

lemma walk_inv_skip:
  assumes "walk_inv succ s D f V ((n, d) # q)" "n \<in> set V \<or> D < int d" "0 \<le> D"
  shows "walk_inv succ s D f V q"
proof -
  note i = assms(1) [unfolded walk_inv_def]
  have sorted: "sorted (map snd q)" using i by simp
  have shallow: "\<forall>(m, e) \<in> set q. e \<le> Suc (snd (hd q))"
  proof (cases q)
    case (Cons x q')
    then have "d \<le> snd x" using walk_inv_head(1) [OF assms(1), of "fst x" "snd x"] by simp
    then have "\<forall>y \<in> set q. snd y \<le> Suc (snd x)"
      using walk_inv_head(2) [OF assms(1)] by (metis Suc_le_mono le_trans prod.collapse)
    then show ?thesis using Cons by auto
  qed simp
  have s: "(s \<in> set V \<and> f s = 0) \<or> (s, 0) \<in> set q"
    using i assms(2,3) by fastforce
  have follow: "(kt_object t \<in> set V \<and> f (kt_object t) \<le> Suc (f v)) \<or>
      (\<exists>e. (kt_object t, e) \<in> set q \<and> e \<le> Suc (f v))"
    if v: "v \<in> set V" "int (f v) < D" "t \<in> set (succ v)" for v t
  proof -
    consider "kt_object t \<in> set V \<and> f (kt_object t) \<le> Suc (f v)"
      | e where "(kt_object t, e) \<in> set ((n, d) # q)" "e \<le> Suc (f v)"
      using i v by blast
    then show ?thesis
    proof cases
      case (2 e)
      show ?thesis
      proof (cases "(kt_object t, e) = (n, d)")
        case True
        then have "int d \<le> D" using 2(2) v(2) by auto
        then have "n \<in> set V" using assms(2) by simp
        then have "f n \<le> d" using i by auto
        then show ?thesis using True 2(2) \<open>n \<in> set V\<close> by auto
      qed (use 2 in auto)
    qed blast
  qed
  show ?thesis unfolding walk_inv_def using i sorted shallow s follow by auto
qed

lemma walk_inv_visit:
  assumes "walk_inv succ s D f V ((n, d) # q)" "n \<notin> set V" "int d \<le> D"
  defines "new \<equiv> map (\<lambda>t. (kt_object t, d + 1))
    (filter (\<lambda>t. kt_object t \<notin> set (n # V) \<and> int d < D) (succ n))"
  shows "walk_inv succ s D (f(n := d)) (n # V) (q @ new)"
proof -
  note i = assms(1) [unfolded walk_inv_def]
  let ?f = "f(n := d)"
  have dq: "\<forall>(m, e) \<in> set q. d \<le> e \<and> e \<le> Suc d" using walk_inv_head [OF assms(1)] by blast
  have dn: "\<forall>(m, e) \<in> set new. e = Suc d" by (auto simp: new_def)
  have hd: "d \<le> snd (hd (q @ new))" if "q @ new \<noteq> []"
    using dq dn that hd_in_set [OF that] by fastforce
  have sorted: "sorted (map snd (q @ new))"
  proof -
    have "sorted (map snd q)" using i by simp
    moreover have "sorted (map snd new)" by (simp add: new_def comp_def map_replicate_const sorted_replicate)
    moreover have "\<forall>x \<in> set (map snd q). \<forall>y \<in> set (map snd new). x \<le> y" using dq dn by fastforce
    ultimately show ?thesis by (simp add: sorted_append)
  qed
  have shallow: "\<forall>(m, e) \<in> set (q @ new). e \<le> Suc (snd (hd (q @ new)))"
    using dq dn hd by fastforce
  have reach: "\<forall>(m, e) \<in> set (q @ new). steps succ s m e"
    using i by (auto simp: new_def intro: steps.step)
  have visited: "\<forall>v \<in> set (n # V). steps succ s v (?f v) \<and> int (?f v) \<le> D"
    using i assms(3) by auto
  have old: "f v \<le> d" if "v \<in> set V" for v using i that by auto
  have "?f v \<le> e" if "v \<in> set (n # V)" "(m, e) \<in> set (q @ new)" for v m e
  proof -
    have "d \<le> e" using dq dn that(2) by fastforce
    then show ?thesis using old [of v] that(1) by (cases "v = n") auto
  qed
  then have before_q: "\<forall>v \<in> set (n # V). \<forall>(m, e) \<in> set (q @ new). ?f v \<le> e" by blast
  have s: "(s \<in> set (n # V) \<and> ?f s = 0) \<or> (s, 0) \<in> set (q @ new)"
    using i assms(2) by auto
  have follow: "(kt_object t \<in> set (n # V) \<and> ?f (kt_object t) \<le> Suc (?f v)) \<or>
      (\<exists>e. (kt_object t, e) \<in> set (q @ new) \<and> e \<le> Suc (?f v))"
    if v: "v \<in> set (n # V)" "int (?f v) < D" "t \<in> set (succ v)" for v t
  proof (cases "v = n")
    case True
    show ?thesis
    proof (cases "kt_object t \<in> set (n # V)")
      case in_V: True
      then show ?thesis using True old by (fastforce simp: assms(2))
    next
      case False
      then have "(kt_object t, Suc d) \<in> set new" using v True by (auto simp: new_def)
      then show ?thesis using True by auto
    qed
  next
    case False
    then have "(kt_object t \<in> set V \<and> f (kt_object t) \<le> Suc (f v)) \<or>
        (\<exists>e. (kt_object t, e) \<in> set ((n, d) # q) \<and> e \<le> Suc (f v))"
      using i v by auto
    then show ?thesis using False assms(2) by auto
  qed
  show ?thesis unfolding walk_inv_def
    using sorted shallow reach visited before_q s follow by blast
qed

lemma walk_inv_end:
  assumes "walk_inv succ s D f V []" "steps succ s x k" "int k \<le> D"
  shows "x \<in> set V \<and> f x \<le> k"
  using assms(2,3)
proof (induction rule: steps.induct)
  case start
  then show ?case using assms(1) by (simp add: walk_inv_def)
next
  case (step n k t)
  then have "n \<in> set V" "f n \<le> k" "int (f n) < D" by auto
  then show ?case using assms(1) step.hyps(2) by (fastforce simp: walk_inv_def)
qed

lemma walk_loop_finds:
  assumes "walk_inv succ s D f V q" "distinct V" "acc = concat (map succ (rev V))" "0 \<le> D"
  shows "\<exists>ns. walk_loop succ D V q acc = concat (map succ ns) \<and> distinct ns \<and> set ns = near succ s D"
  using assms
proof (induction succ D V q acc arbitrary: f rule: walk_loop.induct)
  case (1 succ D V acc)
  have "set V = near succ s D"
    using walk_inv_end [OF 1(1)] 1(1) by (fastforce simp: near_def walk_inv_def)
  then show ?case using 1(2,3) by (intro exI [of _ "rev V"]) simp
next
  case (2 succ D V n d q acc)
  show ?case
  proof (cases "n \<in> set V \<or> D < int d")
    case True
    then show ?thesis
      using "2.IH"(1) [OF True walk_inv_skip [OF "2.prems"(1) True "2.prems"(4)] "2.prems"(2-4)] by simp
  next
    case False
    then have f: "n \<notin> set V" "int d \<le> D" by simp_all
    show ?thesis
      using "2.IH"(2) [OF False walk_inv_visit [OF "2.prems"(1) f]] "2.prems"(2-4) f
      by (simp add: not_less)
  qed
qed

text \<open>
  C39: the walk of a knowledge graph that the router makes for a backend without one: it asks the backend
  for every node that is at most the maximal depth away from the start exactly once, and returns their
  triples, all of them and no others; and it ends on every graph, cycles included.
\<close>

theorem walk_is_neighbourhood:
  assumes "0 \<le> gw_maxDepth spec"
  shows "\<exists>ns. distinct ns \<and>
    set ns = near (\<lambda>n. mp_getTriples b (Some n) (gw_predicate spec) None) (gw_startNodeId spec) (gw_maxDepth spec) \<and>
    polyfillWalkGraph b spec =
      map Triple_node (concat (map (\<lambda>n. mp_getTriples b (Some n) (gw_predicate spec) None) ns))"
proof -
  let ?succ = "\<lambda>n. mp_getTriples b (Some n) (gw_predicate spec) None"
  obtain ns where "walk_loop ?succ (gw_maxDepth spec) [] [(gw_startNodeId spec, 0)] [] = concat (map ?succ ns)"
    "distinct ns" "set ns = near ?succ (gw_startNodeId spec) (gw_maxDepth spec)"
    using walk_loop_finds [OF walk_inv_start _ _ assms, of "[]" ?succ "gw_startNodeId spec"] by auto
  then show ?thesis unfolding polyfillWalkGraph_def by (intro exI [of _ ns]) simp
qed

section \<open>The budget of a summary\<close>

lemma join_snoc:
  "length (join_with sep (ls @ [x])) =
    (if ls = [] then length x else length (join_with sep ls) + length sep + length x)"
proof (induction ls rule: join_with.induct)
  case (3 sep s t ss)
  then show ?case by simp
qed simp_all

lemma take_lines_bound:
  assumes "int (length (join_with newline ls)) \<le> m + 1 \<or> ls = []"
  shows "int (length (join_with newline (take_lines m ls ts))) \<le> m + 1 \<or> take_lines m ls ts = []"
  using assms by (induction m ls ts rule: take_lines.induct) (auto simp: join_snoc)

lemma take_lines_nonempty:
  assumes "\<forall>l \<in> set ls. l \<noteq> []"
  shows "\<forall>l \<in> set (take_lines m ls ts). l \<noteq> []"
  using assms by (induction m ls ts rule: take_lines.induct) (auto simp: triple_line_def)

lemma take_lines_prefix: "\<exists>k. take_lines m ls ts = ls @ map triple_line (take k ts)"
proof (induction m ls ts rule: take_lines.induct)
  case (1 m ls)
  then show ?case by simp
next
  case (2 m ls t ts)
  show ?case
  proof (cases "m < int (length (join_with newline ls) + length (triple_line t))")
    case True
    then show ?thesis by (intro exI [of _ 0]) simp
  next
    case False
    then obtain k where "take_lines m (ls @ [triple_line t]) ts = (ls @ [triple_line t]) @ map triple_line (take k ts)"
      using 2 by blast
    then show ?thesis using False by (intro exI [of _ "Suc k"]) simp
  qed
qed

lemma join_lines_nonempty: "ls \<noteq> [] \<Longrightarrow> \<forall>l \<in> set ls. l \<noteq> [] \<Longrightarrow> join_with sep ls \<noteq> []"
  by (induction sep ls rule: join_with.induct) auto

text \<open>
  the summary that is put together from triples has one line for each triple that it cites, these
  are the first ones of the backend, and it exceeds the number of tokens that was asked for by one at
  most. By one it can: the line breaks are not counted before a line is taken.
\<close>

theorem summary_in_budget:
  assumes "ms_citations (polyfillSummarize b spec) \<noteq> []" "sz_maxTokens spec = Some n"
  shows "\<exists>k. ms_citations (polyfillSummarize b spec) =
      map (\<lambda>t. (kt_id t, ''triple'')) (take k (mp_getTriples b None None None)) \<and>
    ms_text (polyfillSummarize b spec) =
      join_with newline (map triple_line (take k (mp_getTriples b None None None))) \<and>
    ms_tokenCount (polyfillSummarize b spec) \<le> n + 1"
proof -
  let ?ts = "mp_getTriples b None None None" and ?ls = "take_lines (n * 4) [] (mp_getTriples b None None None)"
  obtain k where k: "?ls = map triple_line (take k ?ts)" using take_lines_prefix [of "n * 4" "[]" ?ts] by auto
  have len: "take (length ?ls) ?ts = take k ?ts" by (simp add: k min_def)
  have cited: "ms_citations (polyfillSummarize b spec) = map (\<lambda>t. (kt_id t, ''triple'')) (take k ?ts)"
    by (simp add: polyfillSummarize_def Let_def assms(2) len)
  then have ne: "?ls \<noteq> []" using assms(1) by (auto simp: k)
  have text_eq: "ms_text (polyfillSummarize b spec) = join_with newline ?ls"
    using join_lines_nonempty [OF ne] take_lines_nonempty [of "[]" "n * 4" ?ts]
    by (simp add: polyfillSummarize_def Let_def assms(2))
  have "int (length (join_with newline ?ls)) \<le> n * 4 + 1"
    using take_lines_bound [of "[]" "n * 4" ?ts] ne by simp
  then have "(of_nat (length (join_with newline ?ls)) :: rat) \<le> of_int (n * 4 + 1)"
    by (metis of_int_le_iff of_int_of_nat_eq)
  then have "(of_nat (length (join_with newline ?ls)) :: rat) / 4 \<le> of_int (n + 1)" by simp
  then have "\<lceil>(of_nat (length (join_with newline ?ls)) :: rat) / 4\<rceil> \<le> n + 1" by (rule ceiling_le)
  moreover have "ms_tokenCount (polyfillSummarize b spec) = \<lceil>(of_nat (length (ms_text (polyfillSummarize b spec))) :: rat) / 4\<rceil>"
    by (simp add: polyfillSummarize_def Let_def)
  ultimately show ?thesis using cited text_eq k by (intro exI [of _ k]) simp
qed

section \<open>Statistics\<close>

datatype memory_call =
    Walk graph_walk_spec
  | Episodes episode_query
  | Summarize summarize_spec
  | Compress int

fun router_step :: "router_env \<Rightarrow> router_stats \<Rightarrow> memory_call \<Rightarrow> router_stats" where
  "router_step env st (Walk spec) = snd (router_walkGraph env spec st)"
| "router_step env st (Episodes q) = snd (router_getEpisodes env q st)"
| "router_step env st (Summarize spec) = snd (router_summarize env spec st)"
| "router_step env st (Compress n) = snd (router_compress env n st)"

text \<open>The methods that a call fills in for; a compression asks for a summary.\<close>

fun filled_in :: "memory_port \<Rightarrow> memory_call \<Rightarrow> string list" where
  "filled_in b (Walk spec) = (if has_capability b graph_walk then [] else [''walkGraph''])"
| "filled_in b (Episodes q) = (if has_capability b episodic then [] else [''getEpisodes''])"
| "filled_in b (Summarize spec) =
     (if has_capability b aaak_compression \<or> has_capability b temporal_triples then [] else [''summarize''])"
| "filled_in b (Compress n) = (if has_capability b aaak_compression then []
     else (if has_capability b temporal_triples then [] else [''summarize'']) @ [''compress''])"

definition calls_of :: "router_stats \<Rightarrow> string \<Rightarrow> nat" where
  "calls_of st m = (case map_of st m of None \<Rightarrow> 0 | Some x \<Rightarrow> pl_calls x)"

lemma calls_record: "calls_of (recordStat m l st) m' = (if m' = m then calls_of st m + 1 else calls_of st m')"
  by (auto simp: calls_of_def recordStat_def split: option.splits)

lemma calls_step: "calls_of (router_step env st c) m = calls_of st m + length (filter (\<lambda>x. x = m) (filled_in (re_backend env) c))"
  by (cases c) (simp_all add: router_walkGraph_def router_getEpisodes_def router_summarize_def
      router_compress_def calls_record Let_def case_prod_unfold)

text \<open>The statistics count exactly the calls that were filled in, whatever was called.\<close>

theorem stats_exact:
  "calls_of (run (router_step env) [] cs) m =
    length (filter (\<lambda>x. x = m) (concat (map (filled_in (re_backend env)) cs)))"
proof -
  have "calls_of (run (router_step env) st cs) m = calls_of st m +
      length (filter (\<lambda>x. x = m) (concat (map (filled_in (re_backend env)) cs)))" for st
    by (induction cs arbitrary: st) (simp_all add: calls_step)
  then show ?thesis by (simp add: calls_of_def)
qed

end
