(* ===== verification/MemoryHybrid.thy ===== *)
theory MemoryHybrid
  imports MemoryRouter
begin

text \<open>
  Two memory backends behind one port (packages/memory-hybrid/src/hybrid-port.ts): reads go to one of
  them by a routing table and their capabilities, writes to both. A write ends with an error or not,
  which is a parameter of the call; the diagnostics are the state. The two backends are different
  objects. Export and import are passed to the secondary unchanged and are not modelled. At the end the port is composed with
  the router of theory MemoryRouter.
\<close>

section \<open>Routing of reads\<close>

datatype port_choice = to_primary | to_secondary

datatype read_method =
    rd_searchSemantic | rd_codeAwareSearch | rd_walkGraph | rd_getEpisodes | rd_getTriples
  | rd_getEntitiesByType | rd_summarize | rd_compress

fun DEFAULT_ROUTING :: "read_method \<Rightarrow> port_choice" where
  "DEFAULT_ROUTING rd_searchSemantic = to_primary"
| "DEFAULT_ROUTING rd_codeAwareSearch = to_primary"
| "DEFAULT_ROUTING rd_walkGraph = to_secondary"
| "DEFAULT_ROUTING rd_getEpisodes = to_secondary"
| "DEFAULT_ROUTING rd_getTriples = to_secondary"
| "DEFAULT_ROUTING rd_getEntitiesByType = to_primary"
| "DEFAULT_ROUTING rd_summarize = to_secondary"
| "DEFAULT_ROUTING rd_compress = to_secondary"

record hybrid_port =
  hy_primary :: memory_port
  hy_secondary :: memory_port
  hy_routing :: "read_method \<Rightarrow> port_choice"

definition new_hybrid ::
  "memory_port \<Rightarrow> memory_port \<Rightarrow> (read_method \<Rightarrow> port_choice option) \<Rightarrow> hybrid_port" where
  "new_hybrid p s routing = \<lparr> hy_primary = p, hy_secondary = s,
     hy_routing = (\<lambda>m. case routing m of None \<Rightarrow> DEFAULT_ROUTING m | Some c \<Rightarrow> c) \<rparr>"

record hybrid_diagnostics =
  hd_routedPrimary :: nat
  hd_routedSecondary :: nat
  hd_writesPrimaryOk :: nat
  hd_writesSecondaryOk :: nat
  hd_writesSecondaryFailed :: nat
  hd_writesPrimaryFailed :: nat

definition no_diagnostics :: hybrid_diagnostics where
  "no_diagnostics = \<lparr> hd_routedPrimary = 0, hd_routedSecondary = 0, hd_writesPrimaryOk = 0,
     hd_writesSecondaryOk = 0, hd_writesSecondaryFailed = 0, hd_writesPrimaryFailed = 0 \<rparr>"

definition reset_diagnostics :: "hybrid_diagnostics \<Rightarrow> hybrid_diagnostics" where
  "reset_diagnostics dg = dg \<lparr> hd_routedPrimary := 0, hd_routedSecondary := 0, hd_writesPrimaryOk := 0,
     hd_writesSecondaryOk := 0, hd_writesSecondaryFailed := 0, hd_writesPrimaryFailed := 0 \<rparr>"

definition choice_of :: "hybrid_port \<Rightarrow> read_method \<Rightarrow> memory_capability \<Rightarrow> port_choice" where
  "choice_of h m c =
     (if hy_routing h m = to_primary
      then (if has_capability (hy_primary h) c then to_primary else to_secondary)
      else (if has_capability (hy_secondary h) c then to_secondary else to_primary))"

definition port_of :: "hybrid_port \<Rightarrow> port_choice \<Rightarrow> memory_port" where
  "port_of h x = (case x of to_primary \<Rightarrow> hy_primary h | to_secondary \<Rightarrow> hy_secondary h)"

definition resolveReadPort ::
  "hybrid_port \<Rightarrow> read_method \<Rightarrow> memory_capability \<Rightarrow> hybrid_diagnostics \<Rightarrow> memory_port \<times> hybrid_diagnostics" where
  "resolveReadPort h m c dg =
     (case choice_of h m c of
        to_primary \<Rightarrow> (hy_primary h, dg \<lparr> hd_routedPrimary := hd_routedPrimary dg + 1 \<rparr>)
      | to_secondary \<Rightarrow> (hy_secondary h, dg \<lparr> hd_routedSecondary := hd_routedSecondary dg + 1 \<rparr>))"

definition hybrid_capabilities :: "hybrid_port \<Rightarrow> memory_capability list" where
  "hybrid_capabilities h = remdups (mp_capabilities (hy_primary h) @ mp_capabilities (hy_secondary h))"

definition hybrid_searchSemantic ::
  "hybrid_port \<Rightarrow> string \<Rightarrow> nat \<Rightarrow> string list \<Rightarrow> hybrid_diagnostics \<Rightarrow> semantic_hit list \<times> hybrid_diagnostics" where
  "hybrid_searchSemantic h q k tiers dg =
     apfst (\<lambda>p. mp_searchSemantic p q k tiers) (resolveReadPort h rd_searchSemantic semantic_search dg)"

definition hybrid_walkGraph ::
  "hybrid_port \<Rightarrow> graph_walk_spec \<Rightarrow> hybrid_diagnostics \<Rightarrow> knowledge_node list \<times> hybrid_diagnostics" where
  "hybrid_walkGraph h spec dg =
     apfst (\<lambda>p. mp_walkGraph p spec) (resolveReadPort h rd_walkGraph graph_walk dg)"

definition hybrid_getEpisodes ::
  "hybrid_port \<Rightarrow> episode_query \<Rightarrow> hybrid_diagnostics \<Rightarrow> episode list \<times> hybrid_diagnostics" where
  "hybrid_getEpisodes h q dg =
     apfst (\<lambda>p. mp_getEpisodes p q) (resolveReadPort h rd_getEpisodes episodic dg)"

definition hybrid_getEntitiesByType ::
  "hybrid_port \<Rightarrow> string \<Rightarrow> string option \<Rightarrow> hybrid_diagnostics \<Rightarrow> knowledge_entity list \<times> hybrid_diagnostics" where
  "hybrid_getEntitiesByType h t f dg =
     apfst (\<lambda>p. mp_getEntitiesByType p t f) (resolveReadPort h rd_getEntitiesByType temporal_triples dg)"

definition hybrid_getTriples ::
  "hybrid_port \<Rightarrow> string option \<Rightarrow> string option \<Rightarrow> string option \<Rightarrow> hybrid_diagnostics
     \<Rightarrow> knowledge_triple list \<times> hybrid_diagnostics" where
  "hybrid_getTriples h s p t dg =
     apfst (\<lambda>b. mp_getTriples b s p t) (resolveReadPort h rd_getTriples temporal_triples dg)"

definition hybrid_summarize ::
  "hybrid_port \<Rightarrow> summarize_spec \<Rightarrow> hybrid_diagnostics \<Rightarrow> memory_summary \<times> hybrid_diagnostics" where
  "hybrid_summarize h spec dg =
     apfst (\<lambda>p. mp_summarize p spec) (resolveReadPort h rd_summarize aaak_compression dg)"

definition hybrid_compress ::
  "hybrid_port \<Rightarrow> int \<Rightarrow> hybrid_diagnostics \<Rightarrow> compressed_view \<times> hybrid_diagnostics" where
  "hybrid_compress h n dg =
     apfst (\<lambda>p. mp_compress p n) (resolveReadPort h rd_compress aaak_compression dg)"

section \<open>Writes\<close>

text \<open>
  One write of a signal, an entity, a triple or an episode: what the two backends answer, given that
  they are called. The result is whether the caller sees an error, and the ports that were called.
\<close>

definition bestEffortSecondary :: "bool \<Rightarrow> hybrid_diagnostics \<Rightarrow> hybrid_diagnostics" where
  "bestEffortSecondary secondaryOk dg =
     (if secondaryOk then dg \<lparr> hd_writesSecondaryOk := hd_writesSecondaryOk dg + 1 \<rparr>
      else dg \<lparr> hd_writesSecondaryFailed := hd_writesSecondaryFailed dg + 1 \<rparr>)"

definition primaryWrite :: "bool \<Rightarrow> hybrid_diagnostics \<Rightarrow> bool \<times> hybrid_diagnostics" where
  "primaryWrite primaryOk dg =
     (if primaryOk then (True, dg \<lparr> hd_writesPrimaryOk := hd_writesPrimaryOk dg + 1 \<rparr>)
      else (False, dg \<lparr> hd_writesPrimaryFailed := hd_writesPrimaryFailed dg + 1 \<rparr>))"

definition hybrid_record ::
  "bool \<Rightarrow> bool \<Rightarrow> hybrid_diagnostics \<Rightarrow> bool \<times> port_choice list \<times> hybrid_diagnostics" where
  "hybrid_record primaryOk secondaryOk dg =
     (case primaryWrite primaryOk dg of
        (False, dg1) \<Rightarrow> (False, [to_primary], dg1)
      | (True, dg1) \<Rightarrow> (True, [to_primary, to_secondary], bestEffortSecondary secondaryOk dg1))"

section \<open>The counters\<close>

datatype hybrid_call =
    Read_call read_method memory_capability
  | Write_call bool bool
  | Reset_call

fun hybrid_step :: "hybrid_port \<Rightarrow> hybrid_diagnostics \<Rightarrow> hybrid_call \<Rightarrow> hybrid_diagnostics" where
  "hybrid_step h dg (Read_call m c) = snd (resolveReadPort h m c dg)"
| "hybrid_step h dg (Write_call p s) = snd (snd (hybrid_record p s dg))"
| "hybrid_step h dg Reset_call = reset_diagnostics dg"

text \<open>Every write that the primary took was offered to the secondary.\<close>

definition balanced :: "hybrid_diagnostics \<Rightarrow> bool" where
  "balanced dg \<longleftrightarrow> hd_writesSecondaryOk dg + hd_writesSecondaryFailed dg = hd_writesPrimaryOk dg"

interpretation hybrid: initialised_machine "hybrid_step h" balanced no_diagnostics
proof unfold_locales
  fix dg c
  show "balanced dg \<Longrightarrow> balanced (hybrid_step h dg c)"
    by (cases c) (auto simp: balanced_def resolveReadPort_def hybrid_record_def primaryWrite_def
        bestEffortSecondary_def no_diagnostics_def reset_diagnostics_def split: port_choice.splits)
qed (simp add: balanced_def no_diagnostics_def)

text \<open>The calls since the last reset.\<close>

fun since_reset :: "hybrid_call list \<Rightarrow> hybrid_call list" where
  "since_reset cs = takeWhile (\<lambda>c. c \<noteq> Reset_call) (rev cs)"

definition is_read :: "hybrid_call \<Rightarrow> bool" where
  "is_read c = (case c of Read_call m k \<Rightarrow> True | _ \<Rightarrow> False)"

definition is_write :: "hybrid_call \<Rightarrow> bool" where
  "is_write c = (case c of Write_call p s \<Rightarrow> True | _ \<Rightarrow> False)"

lemma run_snoc: "run step s (es @ [e]) = step (run step s es) e"
  by (simp add: run_append)

lemma counters:
  "hd_routedPrimary (run (hybrid_step h) no_diagnostics cs) + hd_routedSecondary (run (hybrid_step h) no_diagnostics cs) =
     length (filter is_read (since_reset cs)) \<and>
   hd_writesPrimaryOk (run (hybrid_step h) no_diagnostics cs) + hd_writesPrimaryFailed (run (hybrid_step h) no_diagnostics cs) =
     length (filter is_write (since_reset cs))"
proof (induction cs rule: rev_induct)
  case Nil
  then show ?case by (simp add: no_diagnostics_def)
next
  case (snoc c cs)
  then show ?case
    by (cases c) (auto simp: run_snoc is_read_def is_write_def resolveReadPort_def hybrid_record_def
        primaryWrite_def bestEffortSecondary_def no_diagnostics_def reset_diagnostics_def split: port_choice.splits)
qed

text \<open>
  the diagnostics account for every call since the last reset: each read was routed to one of the two
  ports, each write was tried on the primary, and each write that the primary took was tried on the
  secondary too, successfully or not.
\<close>

theorem diagnostics_account:
  "let dg = run (hybrid_step h) no_diagnostics cs in
   hd_routedPrimary dg + hd_routedSecondary dg = length (filter is_read (since_reset cs)) \<and>
   hd_writesPrimaryOk dg + hd_writesPrimaryFailed dg = length (filter is_write (since_reset cs)) \<and>
   hd_writesSecondaryOk dg + hd_writesSecondaryFailed dg = hd_writesPrimaryOk dg"
  using counters [of h cs] hybrid.reachable_inv [of h cs] by (simp add: Let_def balanced_def)

section \<open>Reads reach a port that can serve them\<close>

definition read_capability :: "read_method \<Rightarrow> memory_capability" where
  "read_capability m = (case m of
     rd_searchSemantic \<Rightarrow> semantic_search
   | rd_codeAwareSearch \<Rightarrow> code_aware_search
   | rd_walkGraph \<Rightarrow> graph_walk
   | rd_getEpisodes \<Rightarrow> episodic
   | rd_getTriples \<Rightarrow> temporal_triples
   | rd_getEntitiesByType \<Rightarrow> temporal_triples
   | rd_summarize \<Rightarrow> aaak_compression
   | rd_compress \<Rightarrow> aaak_compression)"

lemma chosen_serves:
  assumes "c \<in> set (hybrid_capabilities h)"
  shows "has_capability (port_of h (choice_of h m c)) c"
  using assms by (cases "hy_routing h m") (auto simp: hybrid_capabilities_def choice_of_def port_of_def has_capability_def)

text \<open>The hybrid as the backend of a router; its counters play no part there.\<close>

definition as_backend :: "hybrid_port \<Rightarrow> memory_port" where
  "as_backend h =
     \<lparr> mp_capabilities = hybrid_capabilities h,
       mp_searchSemantic = (\<lambda>q k t. fst (hybrid_searchSemantic h q k t no_diagnostics)),
       mp_walkGraph = (\<lambda>spec. fst (hybrid_walkGraph h spec no_diagnostics)),
       mp_getEpisodes = (\<lambda>q. fst (hybrid_getEpisodes h q no_diagnostics)),
       mp_getEntitiesByType = (\<lambda>t f. fst (hybrid_getEntitiesByType h t f no_diagnostics)),
       mp_getTriples = (\<lambda>s p t. fst (hybrid_getTriples h s p t no_diagnostics)),
       mp_summarize = (\<lambda>spec. fst (hybrid_summarize h spec no_diagnostics)),
       mp_compress = (\<lambda>n. fst (hybrid_compress h n no_diagnostics)) \<rparr>"

lemma resolved: "fst (resolveReadPort h m c dg) = port_of h (choice_of h m c)"
  by (simp add: resolveReadPort_def port_of_def split: port_choice.splits)

text \<open>
  a router before a hybrid: a walk, episodes and a compression are answered natively by one of the
  two backends that declares the capability for it, whenever one of them does; otherwise the router
  fills in.
\<close>

theorem routed_to_capable_backend:
  assumes "re_backend env = as_backend h"
  shows "(has_capability (hy_primary h) graph_walk \<or> has_capability (hy_secondary h) graph_walk \<longrightarrow>
      (\<exists>x. has_capability (port_of h x) graph_walk \<and>
        router_walkGraph env spec st = (mp_walkGraph (port_of h x) spec, st)))
    \<and> (has_capability (hy_primary h) episodic \<or> has_capability (hy_secondary h) episodic \<longrightarrow>
      (\<exists>x. has_capability (port_of h x) episodic \<and>
        router_getEpisodes env q st = (mp_getEpisodes (port_of h x) q, st)))
    \<and> (has_capability (hy_primary h) aaak_compression \<or> has_capability (hy_secondary h) aaak_compression \<longrightarrow>
      (\<exists>x. has_capability (port_of h x) aaak_compression \<and>
        router_compress env n st = (mp_compress (port_of h x) n, st)))"
proof -
  have cap: "has_capability (as_backend h) c \<longleftrightarrow> c \<in> set (hybrid_capabilities h)"
    "has_capability (hy_primary h) c \<or> has_capability (hy_secondary h) c \<longleftrightarrow> c \<in> set (hybrid_capabilities h)" for c
    by (auto simp: has_capability_def as_backend_def hybrid_capabilities_def)
  show ?thesis unfolding cap(2)
  proof (intro conjI impI)
    assume c: "graph_walk \<in> set (hybrid_capabilities h)"
    then show "\<exists>x. has_capability (port_of h x) graph_walk \<and>
        router_walkGraph env spec st = (mp_walkGraph (port_of h x) spec, st)"
      using chosen_serves [OF c, of rd_walkGraph] cap(1)
      by (auto simp: router_walkGraph_def assms as_backend_def hybrid_walkGraph_def resolved has_capability_def)
  next
    assume c: "episodic \<in> set (hybrid_capabilities h)"
    then show "\<exists>x. has_capability (port_of h x) episodic \<and>
        router_getEpisodes env q st = (mp_getEpisodes (port_of h x) q, st)"
      using chosen_serves [OF c, of rd_getEpisodes]
      by (auto simp: router_getEpisodes_def assms as_backend_def hybrid_getEpisodes_def resolved has_capability_def)
  next
    assume c: "aaak_compression \<in> set (hybrid_capabilities h)"
    then show "\<exists>x. has_capability (port_of h x) aaak_compression \<and>
        router_compress env n st = (mp_compress (port_of h x) n, st)"
      using chosen_serves [OF c, of rd_compress]
      by (auto simp: router_compress_def assms as_backend_def hybrid_compress_def resolved has_capability_def)
  qed
qed

text \<open>
  Summaries are the exception. The router counts a backend with temporal triples as able to summarize,
  the hybrid looks for compression only: when nothing compresses, the rule asks for the secondary and
  only the secondary has triples, the request goes to the primary, which has neither capability, and
  the router does not fill in.
\<close>

lemma summary_misrouted:
  assumes "re_backend env = as_backend h" "hy_routing h rd_summarize = to_secondary"
    and "\<not> has_capability (hy_primary h) aaak_compression" "\<not> has_capability (hy_secondary h) aaak_compression"
    and "\<not> has_capability (hy_primary h) temporal_triples" "has_capability (hy_secondary h) temporal_triples"
  shows "router_summarize env spec st = (mp_summarize (hy_primary h) spec, st)"
proof -
  have "has_capability (as_backend h) temporal_triples"
    using assms(6) by (simp add: has_capability_def as_backend_def hybrid_capabilities_def)
  moreover have "choice_of h rd_summarize aaak_compression = to_primary"
    using assms by (simp add: choice_of_def)
  ultimately show ?thesis
    by (simp add: router_summarize_def assms(1)) (simp add: as_backend_def hybrid_summarize_def resolved port_of_def)
qed

end
