(* ===== verification/RankFusion.thy ===== *)
theory RankFusion
  imports JsValue Prelude Float64
begin

text \<open>
  Retrieval from the memory: the fusion of a text ranking and a vector ranking
  (packages/memory-gbrain-crdb-adapter/src/rrf.ts) and the bonuses by authorship and relationship
  (tier-weights.ts). Scores are doubles: quotients, sums and the threshold are rounded. Of a page only
  its identifier and its metadata are read.
\<close>

section \<open>Bonuses (tier-weights.ts)\<close>

datatype tier_calibration = cal_sparse | cal_normal | cal_dense

definition authoring_table :: "tier_calibration \<Rightarrow> (string \<times> rat) list" where
  "authoring_table c =
     (let (originated, reply) = (case c of
          cal_sparse \<Rightarrow> (f64 (2 / 1000), f64 (1 / 1000))
        | cal_normal \<Rightarrow> (f64 (5 / 1000), f64 (3 / 1000))
        | cal_dense \<Rightarrow> (f64 (8 / 1000), f64 (5 / 1000))) in
      [(''user_sent_originated'', originated), (''user_sent_reply'', reply), (''inbox_personal'', 0),
       (''inbox_broadcast'', 0), (''inbox_newsletter'', 0), (''inbox_automated'', 0)])"

definition relationship_table :: "tier_calibration \<Rightarrow> (string \<times> rat) list" where
  "relationship_table c =
     (let (core, frequent) = (case c of
          cal_sparse \<Rightarrow> (f64 (2 / 1000), f64 (1 / 1000))
        | cal_normal \<Rightarrow> (f64 (4 / 1000), f64 (2 / 1000))
        | cal_dense \<Rightarrow> (f64 (6 / 1000), f64 (3 / 1000))) in
      [(''core'', core), (''frequent'', frequent), (''occasional'', 0), (''stranger'', 0)])"

definition PINNED_BOOST :: rat where
  "PINNED_BOOST = f64 (12 / 1000)"

definition BRIEF_BODY_THRESHOLD :: rat where
  "BRIEF_BODY_THRESHOLD = 50"

definition looked_up :: "(string \<times> rat) list \<Rightarrow> jsval \<Rightarrow> rat option" where
  "looked_up table v = (case v of JStr s \<Rightarrow> map_of table s | _ \<Rightarrow> None)"

definition authoring_bonus :: "tier_calibration \<Rightarrow> jsobj \<Rightarrow> rat" where
  "authoring_bonus c m =
     (case looked_up (authoring_table c) (get m ''authoringTier'') of
        None \<Rightarrow> 0
      | Some b \<Rightarrow>
          if (get m ''authoringTier'' = JStr ''user_sent_originated'' \<or> get m ''authoringTier'' = JStr ''user_sent_reply'')
             \<and> (case get m ''bodyLen'' of JNum n \<Rightarrow> num_lt n (Fin BRIEF_BODY_THRESHOLD) | _ \<Rightarrow> False)
          then the (map_of (authoring_table c) ''inbox_personal'') else b)"

definition relationship_bonus :: "tier_calibration \<Rightarrow> jsobj \<Rightarrow> rat" where
  "relationship_bonus c m =
     (case looked_up (relationship_table c) (get m ''relationshipTier'') of None \<Rightarrow> 0 | Some b \<Rightarrow> b)"

definition tierBonus :: "tier_calibration \<Rightarrow> jsval \<Rightarrow> number" where
  "tierBonus c metadata =
     (case metadata of
        JObj m \<Rightarrow>
          if get m ''userOverride'' = JStr ''hidden'' then NegInf
          else let pinned = (if get m ''userOverride'' = JStr ''pinned'' then PINNED_BOOST else 0) in
            Fin (f64 (f64 (authoring_bonus c m + relationship_bonus c m) + pinned))
      | _ \<Rightarrow> Fin 0)"

definition relationshipTierFromThreadCount :: "int \<Rightarrow> string" where
  "relationshipTierFromThreadCount n =
     (if 5 \<le> n then ''core'' else if 2 \<le> n then ''frequent'' else if 1 \<le> n then ''occasional''
      else ''stranger'')"

definition calibrationFromSentVolume :: "int \<Rightarrow> tier_calibration" where
  "calibrationFromSentVolume n =
     (if n < 100 then cal_sparse else if 1000 < n then cal_dense else cal_normal)"

section \<open>The fold (rrf.ts)\<close>

record brain_page =
  bg_id :: string
  bg_user_id :: string
  bg_title :: string
  bg_content :: string
  bg_source :: string
  bg_source_ref :: "string option"
  bg_metadata :: jsval
  bg_embedding :: "number list option"
  bg_embedding_model :: "string option"
  bg_embedding_dim :: "int option"
  bg_created_at :: int
  bg_updated_at :: int

record rrf_hit =
  rh_id :: string
  rh_score :: number
  rh_textRank :: "nat option"
  rh_vectorRank :: "nat option"
  rh_page :: brain_page

definition rounded :: "number \<Rightarrow> number" where
  "rounded x = (case x of Fin a \<Rightarrow> Fin (f64 a) | _ \<Rightarrow> x)"

definition contribution :: "number \<Rightarrow> nat \<Rightarrow> number" where
  "contribution rrfK rank =
     (case rounded (num_add rrfK (Fin (of_nat rank))) of
        Fin d \<Rightarrow> if d = 0 then PosInf else Fin (f64 (1 / d))
      | NaN \<Rightarrow> NaN
      | _ \<Rightarrow> Fin 0)"

definition add_text ::
  "number \<Rightarrow> nat \<times> brain_page \<Rightarrow> (string \<times> rrf_hit) list \<Rightarrow> (string \<times> rrf_hit) list" where
  "add_text rrfK = (\<lambda>(i, page) acc.
     let rank = i + 1; c = contribution rrfK rank in
     case map_of acc (bg_id page) of
       Some h \<Rightarrow> put (bg_id page) (h \<lparr> rh_score := rounded (num_add (rh_score h) c), rh_textRank := Some rank \<rparr>) acc
     | None \<Rightarrow> put (bg_id page) \<lparr> rh_id = bg_id page, rh_score = c, rh_textRank = Some rank,
         rh_vectorRank = None, rh_page = page \<rparr> acc)"

definition add_vector ::
  "number \<Rightarrow> nat \<times> brain_page \<Rightarrow> (string \<times> rrf_hit) list \<Rightarrow> (string \<times> rrf_hit) list" where
  "add_vector rrfK = (\<lambda>(i, page) acc.
     let rank = i + 1; c = contribution rrfK rank in
     case map_of acc (bg_id page) of
       Some h \<Rightarrow> put (bg_id page) (h \<lparr> rh_score := rounded (num_add (rh_score h) c), rh_vectorRank := Some rank \<rparr>) acc
     | None \<Rightarrow> put (bg_id page) \<lparr> rh_id = bg_id page, rh_score = c, rh_textRank = None,
         rh_vectorRank = Some rank, rh_page = page \<rparr> acc)"

definition fused :: "brain_page list \<Rightarrow> brain_page list \<Rightarrow> number \<Rightarrow> rrf_hit list" where
  "fused textHits vectorHits rrfK = map snd
     (fold (add_vector rrfK) (enumerate 0 vectorHits) (fold (add_text rrfK) (enumerate 0 textHits) []))"

definition DEFAULT_FLOOR_RATIO :: rat where
  "DEFAULT_FLOOR_RATIO = f64 (85 / 100)"

definition valid_ratio :: "number \<Rightarrow> bool" where
  "valid_ratio r = (case r of Fin x \<Rightarrow> 0 \<le> x \<and> x \<le> 1 | _ \<Rightarrow> False)"

definition computeFloorThreshold :: "rrf_hit list \<Rightarrow> number option \<Rightarrow> number" where
  "computeFloorThreshold entries ratio =
     (case ratio of
        Some (Fin r) \<Rightarrow>
          if r < 0 \<or> 1 < r then NegInf
          else let best = fold (\<lambda>e b. if is_finite (rh_score e) \<and> num_lt b (rh_score e) then rh_score e else b)
              entries NegInf in
            (case best of Fin x \<Rightarrow> if x \<le> 0 then NegInf else Fin (f64 (x * r)) | _ \<Rightarrow> NegInf)
      | _ \<Rightarrow> NegInf)"

definition pickValidFloorRatio :: "number option \<Rightarrow> number option \<Rightarrow> number" where
  "pickValidFloorRatio a b =
     (case find (\<lambda>c. case c of None \<Rightarrow> False | Some r \<Rightarrow> valid_ratio r) [a, b, Some (Fin DEFAULT_FLOOR_RATIO)] of
        Some (Some r) \<Rightarrow> r
      | _ \<Rightarrow> Fin DEFAULT_FLOOR_RATIO)"

record rrf_options =
  ro_tierWeight :: "(jsval \<Rightarrow> number) option"
  ro_floorRatio :: "number option"
  ro_tierWeightFloorRatio :: "number option"

definition with_bonus :: "number \<Rightarrow> (jsval \<Rightarrow> number) \<Rightarrow> rrf_hit \<Rightarrow> rrf_hit" where
  "with_bonus threshold bonus h =
     (let raw = bonus (bg_metadata (rh_page h)) in
      if raw = NegInf then h \<lparr> rh_score := NegInf \<rparr>
      else if \<not> is_finite (rh_score h) then h
      else if num_lt (rh_score h) threshold then h
      else if \<not> is_finite raw then h
      else h \<lparr> rh_score := rounded (num_add (rh_score h) raw) \<rparr>)"

definition score_value :: "rrf_hit \<Rightarrow> rat" where
  "score_value h = (case rh_score h of Fin x \<Rightarrow> x | _ \<Rightarrow> 0)"

definition slice_first :: "int \<Rightarrow> 'a list \<Rightarrow> 'a list" where
  "slice_first k xs = (if 0 \<le> k then take (nat k) xs else take (length xs - nat (- k)) xs)"

definition weighted :: "rrf_options \<Rightarrow> rrf_hit list \<Rightarrow> rrf_hit list" where
  "weighted opts entries =
     (case ro_tierWeight opts of
        Some bonus \<Rightarrow>
          let ratio = pickValidFloorRatio (ro_floorRatio opts) (ro_tierWeightFloorRatio opts);
            threshold = computeFloorThreshold entries (Some ratio) in
          filter (\<lambda>h. is_finite (rh_score h)) (map (with_bonus threshold bonus) entries)
      | None \<Rightarrow> filter (\<lambda>h. is_finite (rh_score h)) entries)"

definition rrfFold ::
  "brain_page list \<Rightarrow> brain_page list \<Rightarrow> int \<Rightarrow> number \<Rightarrow> rrf_options \<Rightarrow> rrf_hit list" where
  "rrfFold textHits vectorHits k rrfK opts =
     slice_first k (sort_key (\<lambda>h. - score_value h) (weighted opts (fused textHits vectorHits rrfK)))"

section \<open>The entries before the bonuses\<close>

definition hits_ok :: "brain_page set \<Rightarrow> (string \<times> rrf_hit) list \<Rightarrow> bool" where
  "hits_ok P acc \<longleftrightarrow> distinct (map fst acc) \<and>
     (\<forall>(k, h) \<in> set acc. rh_id h = k \<and> bg_id (rh_page h) = k \<and> rh_page h \<in> P)"

lemma set_put_subset: "set (put k v m) \<subseteq> insert (k, v) (set m)"
  by (induction k v m rule: put.induct) auto

lemma hits_ok_put:
  assumes "hits_ok P acc" "rh_id h = k" "bg_id (rh_page h) = k" "rh_page h \<in> P"
  shows "hits_ok P (put k h acc)"
  using assms distinct_put [of acc k h] set_put_subset [of k h acc] unfolding hits_ok_def by fast

lemma hits_ok_at: "hits_ok P acc \<Longrightarrow> map_of acc k = Some h \<Longrightarrow> rh_id h = k \<and> bg_id (rh_page h) = k \<and> rh_page h \<in> P"
  by (auto simp: hits_ok_def dest: map_of_SomeD)

lemma hits_ok_add:
  assumes "hits_ok P acc" "snd e \<in> P"
  shows "hits_ok P (add_text K e acc)" "hits_ok P (add_vector K e acc)"
  using assms
  by (auto simp: add_text_def add_vector_def Let_def case_prod_unfold dest: hits_ok_at
      intro!: hits_ok_put split: option.splits)

lemma hits_ok_adds:
  assumes "hits_ok P acc" "snd ` set es \<subseteq> P"
  shows "hits_ok P (fold (add_text K) es acc)" "hits_ok P (fold (add_vector K) es acc)"
  using assms by (induction es arbitrary: acc) (auto simp: hits_ok_add)

lemma snd_enumerate: "snd ` set (enumerate n xs) = set xs"
  by (simp flip: set_map)

lemma fused_ok:
  "distinct (map rh_id (fused ts vs K)) \<and> rh_page ` set (fused ts vs K) \<subseteq> set ts \<union> set vs"
proof -
  let ?acc = "fold (add_vector K) (enumerate 0 vs) (fold (add_text K) (enumerate 0 ts) [])"
  have ok: "hits_ok (set ts \<union> set vs) ?acc"
    by (intro hits_ok_adds) (simp_all add: hits_ok_def snd_enumerate)
  then have "map rh_id (map snd ?acc) = map fst ?acc" by (auto simp: hits_ok_def)
  then show ?thesis using ok unfolding fused_def by (auto simp: hits_ok_def simp del: map_map)
qed

lemma with_bonus_same [simp]: "rh_id (with_bonus th b h) = rh_id h" "rh_page (with_bonus th b h) = rh_page h"
  by (simp_all add: with_bonus_def Let_def)

lemma weighted_ok:
  assumes "distinct (map rh_id es)"
  shows "distinct (map rh_id (weighted opts es))" "\<forall>h \<in> set (weighted opts es). is_finite (rh_score h)"
    "rh_page ` set (weighted opts es) \<subseteq> rh_page ` set es"
proof -
  have ids: "map rh_id (map (with_bonus th b) es) = map rh_id es" for th b by simp
  show "distinct (map rh_id (weighted opts es))"
    using assms distinct_map_filter [of rh_id "map (with_bonus th b) es" for th b] ids
    by (auto simp: weighted_def Let_def distinct_map_filter comp_def split: option.splits)
  show "\<forall>h \<in> set (weighted opts es). is_finite (rh_score h)"
    by (auto simp: weighted_def Let_def split: option.splits)
  show "rh_page ` set (weighted opts es) \<subseteq> rh_page ` set es"
    by (auto simp: weighted_def Let_def split: option.splits)
qed

lemma slice_prefix: "\<exists>n. slice_first k xs = take n xs \<and> (0 \<le> k \<longrightarrow> n = nat k)"
  by (auto simp: slice_first_def)

text \<open>
  a retrieval returns at most as many pages as were asked for, every page at most once, each from one
  of the two rankings, with finite scores in descending order, whatever the constant, the options and
  the bonuses are (NaN and the infinities included).
\<close>

theorem retrieval_well_formed:
  "distinct (map rh_id (rrfFold ts vs k K opts)) \<and>
   rh_page ` set (rrfFold ts vs k K opts) \<subseteq> set ts \<union> set vs \<and>
   (\<forall>h \<in> set (rrfFold ts vs k K opts). is_finite (rh_score h)) \<and>
   sorted_wrt (\<lambda>a b. score_value b \<le> score_value a) (rrfFold ts vs k K opts) \<and>
   (0 \<le> k \<longrightarrow> length (rrfFold ts vs k K opts) \<le> nat k)"
proof -
  let ?w = "weighted opts (fused ts vs K)"
  let ?s = "sort_key (\<lambda>h. - score_value h) ?w"
  note f = fused_ok [of ts vs K]
  note w = weighted_ok [OF conjunct1 [OF f], of opts]
  obtain n where n: "rrfFold ts vs k K opts = take n ?s" "0 \<le> k \<longrightarrow> n = nat k"
    unfolding rrfFold_def using slice_prefix by blast
  have "distinct (map rh_id ?s)" using w(1) by (simp add: distinct_map)
  then have "distinct (map rh_id (take n ?s))" by (simp flip: take_map)
  moreover have "set (take n ?s) \<subseteq> set ?w" using set_take_subset [of n ?s] by simp
  moreover have "sorted_wrt (\<lambda>a b. score_value b \<le> score_value a) ?s"
    using sorted_sort_key [of "\<lambda>h. - score_value h" ?w] by (simp add: sorted_map)
  then have "sorted_wrt (\<lambda>a b. score_value b \<le> score_value a) (take n ?s)" by (rule sorted_wrt_take)
  moreover have "rh_page ` set (take n ?s) \<subseteq> set ts \<union> set vs"
    using image_mono [OF calculation(2), of rh_page] w(3) f by blast
  ultimately show ?thesis unfolding n(1) using w(2) n(2) by auto
qed

section \<open>Hidden pages and the gate\<close>

lemma f64_abs: "0 < x \<Longrightarrow> 0 \<le> f64 x"
proof -
  assume x: "0 < x"
  then have "\<bar>f64 x - x\<bar> \<le> x / 2 ^ 53" by (rule f64_relative)
  moreover have "x / 2 ^ 53 \<le> x" using x by (simp add: field_simps)
  ultimately show ?thesis by linarith
qed

lemma f64_close:
  assumes "0 \<le> x"
  shows "f64 x \<le> x * (1001 / 1000)" "x * (999 / 1000) \<le> f64 x"
proof -
  have "\<bar>f64 x - x\<bar> \<le> x / 1000"
  proof (cases "x = 0")
    case False
    then have "\<bar>f64 x - x\<bar> \<le> x / 2 ^ 53" using assms by (intro f64_relative) simp
    also have "\<dots> \<le> x / 1000" using assms by (intro divide_left_mono) simp_all
    finally show ?thesis .
  qed (simp add: f64_def)
  then show "f64 x \<le> x * (1001 / 1000)" "x * (999 / 1000) \<le> f64 x" by linarith+
qed

lemma f64_between: "0 \<le> x \<Longrightarrow> x \<le> b \<Longrightarrow> 0 \<le> f64 x \<and> f64 x \<le> b * (1001 / 1000)"
  using f64_close [of x] mult_right_mono [of x b "1001 / 1000"] by simp

lemma table_range:
  "looked_up (authoring_table c) v = Some b \<Longrightarrow> 0 \<le> b \<and> b \<le> 81 / 10000"
  "looked_up (relationship_table c) v = Some b \<Longrightarrow> 0 \<le> b \<and> b \<le> 61 / 10000"
proof -
  have n: "0 \<le> f64 (1 / 1000)" "f64 (1 / 1000) \<le> 2 / 1000" "0 \<le> f64 (2 / 1000)" "f64 (2 / 1000) \<le> 3 / 1000"
    "0 \<le> f64 (3 / 1000)" "f64 (3 / 1000) \<le> 4 / 1000" "0 \<le> f64 (4 / 1000)" "f64 (4 / 1000) \<le> 5 / 1000"
    "0 \<le> f64 (5 / 1000)" "f64 (5 / 1000) \<le> 6 / 1000" "0 \<le> f64 (6 / 1000)" "f64 (6 / 1000) \<le> 61 / 10000"
    "0 \<le> f64 (8 / 1000)" "f64 (8 / 1000) \<le> 81 / 10000"
    using f64_close [of "1 / 1000"] f64_close [of "2 / 1000"] f64_close [of "3 / 1000"] f64_close [of "4 / 1000"]
      f64_close [of "5 / 1000"] f64_close [of "6 / 1000"] f64_close [of "8 / 1000"] by simp_all
  show "looked_up (authoring_table c) v = Some b \<Longrightarrow> 0 \<le> b \<and> b \<le> 81 / 10000"
    using n by (cases c) (auto simp: looked_up_def authoring_table_def split: jsval.splits if_splits)
  show "looked_up (relationship_table c) v = Some b \<Longrightarrow> 0 \<le> b \<and> b \<le> 61 / 10000"
    using n by (cases c) (auto simp: looked_up_def relationship_table_def split: jsval.splits if_splits)
qed

lemma bonus_parts:
  "0 \<le> authoring_bonus c m \<and> authoring_bonus c m \<le> 81 / 10000"
  "0 \<le> relationship_bonus c m \<and> relationship_bonus c m \<le> 61 / 10000"
proof -
  have personal: "map_of (authoring_table c) ''inbox_personal'' = Some 0"
    by (cases c) (simp_all add: authoring_table_def)
  show "0 \<le> authoring_bonus c m \<and> authoring_bonus c m \<le> 81 / 10000"
    using table_range(1) [of c "get m ''authoringTier''"] personal
    by (auto simp: authoring_bonus_def split: option.splits)
  show "0 \<le> relationship_bonus c m \<and> relationship_bonus c m \<le> 61 / 10000"
    using table_range(2) [of c "get m ''relationshipTier''"]
    by (auto simp: relationship_bonus_def split: option.splits)
qed

lemma bonus_range:
  "(tierBonus c v = NegInf \<and> (\<exists>m. v = JObj m \<and> get m ''userOverride'' = JStr ''hidden'')) \<or>
   (\<exists>b. tierBonus c v = Fin b \<and> 0 \<le> b \<and> b \<le> 27 / 1000 \<and>
      \<not> (\<exists>m. v = JObj m \<and> get m ''userOverride'' = JStr ''hidden''))"
proof (cases v)
  case (JObj m)
  let ?x = "authoring_bonus c m + relationship_bonus c m"
  let ?pin = "if get m ''userOverride'' = JStr ''pinned'' then PINNED_BOOST else 0"
  have x: "0 \<le> ?x" "?x \<le> 142 / 10000" using bonus_parts [of c m] by simp_all
  have pin: "0 \<le> ?pin" "?pin \<le> 121 / 10000"
    using f64_close [of "12 / 1000"] by (simp_all add: PINNED_BOOST_def)
  have fx: "0 \<le> f64 ?x" "f64 ?x \<le> 143 / 10000" using f64_between [OF x] by simp_all
  have "0 \<le> f64 ?x + ?pin" "f64 ?x + ?pin \<le> 264 / 10000" using fx pin by linarith+
  then have "0 \<le> f64 (f64 ?x + ?pin)" "f64 (f64 ?x + ?pin) \<le> 27 / 1000"
    using f64_close [of "f64 ?x + ?pin"] by simp_all
  then show ?thesis by (simp add: tierBonus_def JObj Let_def)
qed (simp_all add: tierBonus_def)

text \<open>
  a bonus never pushes a page down and never lifts it by more than 0.027; the only other value is
  the one that hides a page, and it stands for a hidden page exactly.
\<close>

theorem bonus_bounded:
  "(tierBonus c v = NegInf \<and> (\<exists>m. v = JObj m \<and> get m ''userOverride'' = JStr ''hidden'')) \<or>
   (\<exists>b. tierBonus c v = Fin b \<and> 0 \<le> b \<and> b \<le> 27 / 1000 \<and>
      \<not> (\<exists>m. v = JObj m \<and> get m ''userOverride'' = JStr ''hidden''))"
  by (rule bonus_range)

text \<open>
  a page that the user has hidden is never retrieved, however well it matches.
\<close>

theorem hidden_never_retrieved:
  assumes "ro_tierWeight opts = Some (tierBonus c)"
    and "\<exists>m. bg_metadata page = JObj m \<and> get m ''userOverride'' = JStr ''hidden''"
  shows "page \<notin> rh_page ` set (rrfFold ts vs k K opts)"
proof
  assume "page \<in> rh_page ` set (rrfFold ts vs k K opts)"
  then obtain h where h: "h \<in> set (rrfFold ts vs k K opts)" "rh_page h = page" by blast
  obtain n where "rrfFold ts vs k K opts =
      take n (sort_key (\<lambda>h. - score_value h) (weighted opts (fused ts vs K)))"
    unfolding rrfFold_def using slice_prefix by blast
  then have w: "h \<in> set (weighted opts (fused ts vs K))" using h(1) by (auto dest: in_set_takeD)
  obtain th h0 where h0: "h = with_bonus th (tierBonus c) h0" "is_finite (rh_score h)"
    using w assms(1) by (auto simp: weighted_def Let_def)
  have "rh_page h0 = page" using h(2) h0(1) by simp
  then have "tierBonus c (bg_metadata (rh_page h0)) = NegInf"
    using assms(2) bonus_range [of c "bg_metadata page"] by auto
  then show False using h0 by (simp add: with_bonus_def)
qed

definition best_of :: "rrf_hit list \<Rightarrow> number \<Rightarrow> number" where
  "best_of = fold (\<lambda>e b. if is_finite (rh_score e) \<and> num_lt b (rh_score e) then rh_score e else b)"

lemma best_of_Fin: "\<exists>y \<ge> x. best_of es (Fin x) = Fin y"
proof (induction es arbitrary: x)
  case Nil
  then show ?case by (simp add: best_of_def)
next
  case (Cons e es)
  show ?case
  proof (cases "\<exists>z. rh_score e = Fin z \<and> x < z")
    case True
    then obtain z where z: "rh_score e = Fin z" "x < z" by blast
    obtain y where "z \<le> y" "best_of es (Fin z) = Fin y" using Cons.IH [of z] by blast
    then show ?thesis using z by (auto simp: best_of_def)
  next
    case False
    then have "best_of (e # es) (Fin x) = best_of es (Fin x)"
      by (cases "rh_score e") (auto simp: best_of_def)
    then show ?thesis using Cons.IH [of x] by simp
  qed
qed

lemma best_of_bound:
  "e \<in> set es \<Longrightarrow> rh_score e = Fin z \<Longrightarrow> b = NegInf \<or> is_finite b \<Longrightarrow> \<exists>y \<ge> z. best_of es b = Fin y"
proof (induction es arbitrary: b)
  case (Cons a es)
  let ?b = "if is_finite (rh_score a) \<and> num_lt b (rh_score a) then rh_score a else b"
  have step: "best_of (a # es) b = best_of es ?b" by (simp add: best_of_def)
  show ?case
  proof (cases "e = a")
    case True
    then have "\<exists>x \<ge> z. ?b = Fin x" using Cons.prems by (cases b) auto
    then obtain x where x: "z \<le> x" "?b = Fin x" by blast
    obtain y where "x \<le> y" "best_of es (Fin x) = Fin y" using best_of_Fin by blast
    then have "z \<le> y" "best_of (a # es) b = Fin y" using x step by simp_all
    then show ?thesis by blast
  next
    case False
    have "?b = NegInf \<or> is_finite ?b" using Cons.prems(3) by auto
    then show ?thesis using Cons.IH [of ?b] Cons.prems False step by auto
  qed
qed simp

lemma best_of_attained: "best_of es b = b \<or> (\<exists>e \<in> set es. best_of es b = rh_score e)"
proof (induction es arbitrary: b)
  case (Cons a es)
  let ?b = "if is_finite (rh_score a) \<and> num_lt b (rh_score a) then rh_score a else b"
  have step: "best_of (a # es) b = best_of es ?b" by (simp add: best_of_def)
  have "?b = b \<or> ?b = rh_score a" by simp
  then show ?case
  proof
    assume "?b = b"
    then show ?case using Cons.IH [of b] unfolding step by auto
  next
    assume "?b = rh_score a"
    then show ?case using Cons.IH [of "rh_score a"] unfolding step by auto
  qed
qed (simp add: best_of_def)

lemma best_of_top:
  assumes "t \<in> set es" "rh_score t = Fin x" "\<forall>e \<in> set es. \<forall>y. rh_score e = Fin y \<longrightarrow> y \<le> x"
  shows "best_of es NegInf = Fin x"
proof -
  obtain y where y: "x \<le> y" "best_of es NegInf = Fin y"
    using best_of_bound [OF assms(1,2), of NegInf] by blast
  then obtain e where "e \<in> set es" "rh_score e = Fin y"
    using best_of_attained [of es NegInf] by auto
  then show ?thesis using assms(3) y by force
qed

lemma default_threshold:
  assumes "t \<in> set es" "rh_score t = Fin x" "\<forall>e \<in> set es. \<forall>y. rh_score e = Fin y \<longrightarrow> y \<le> x" "0 < x"
  shows "\<exists>th \<le> x * (86 / 100). computeFloorThreshold es (Some (pickValidFloorRatio None None)) = Fin th"
proof -
  let ?r = DEFAULT_FLOOR_RATIO
  have r: "0 \<le> ?r" "?r \<le> 85085 / 100000"
    using f64_between [of "85 / 100" "85 / 100"] by (simp_all add: DEFAULT_FLOOR_RATIO_def)
  have "f64 (x * ?r) \<le> x * ?r * (1001 / 1000)" using f64_close(1) [of "x * ?r"] r assms(4) by simp
  also have "\<dots> \<le> x * (85085 / 100000) * (1001 / 1000)"
    using r assms(4) by (intro mult_right_mono mult_left_mono) simp_all
  also have "\<dots> \<le> x * (86 / 100)" using assms(4) by simp
  finally have th: "f64 (x * ?r) \<le> x * (86 / 100)" .
  have "pickValidFloorRatio None None = Fin ?r" using r by (simp add: pickValidFloorRatio_def)
  moreover have "best_of es NegInf = Fin x" using assms by (intro best_of_top)
  then have "computeFloorThreshold es (Some (Fin ?r)) = Fin (f64 (x * ?r))"
    using r assms(4) by (simp add: computeFloorThreshold_def best_of_def Let_def)
  ultimately show ?thesis using th by simp
qed

lemma top_keeps:
  assumes "rh_score t = Fin x" "0 < x" "\<not> (\<exists>m. bg_metadata (rh_page t) = JObj m \<and> get m ''userOverride'' = JStr ''hidden'')"
  shows "is_finite (rh_score (with_bonus th (tierBonus c) t)) \<and>
    x * (999 / 1000) \<le> score_value (with_bonus th (tierBonus c) t)"
proof -
  obtain b where b: "tierBonus c (bg_metadata (rh_page t)) = Fin b" "0 \<le> b"
    using bonus_range [of c "bg_metadata (rh_page t)"] assms(3) by auto
  have "x * (999 / 1000) \<le> (x + b) * (999 / 1000)" using b(2) by simp
  also have "\<dots> \<le> f64 (x + b)" using f64_close(2) [of "x + b"] b(2) assms(2) by simp
  finally have "x * (999 / 1000) \<le> f64 (x + b)" .
  then show ?thesis using assms b by (simp add: with_bonus_def score_value_def rounded_def Let_def)
qed

lemma sorted_before:
  assumes "sorted_wrt (\<lambda>a b. score_value b \<le> score_value a) xs" "j < length xs" "b \<in> set xs"
    and "score_value (xs ! j) < score_value b"
  shows "\<exists>i < j. xs ! i = b"
proof -
  obtain i where i: "i < length xs" "xs ! i = b" using assms(3) by (auto simp: in_set_conv_nth)
  have "i \<noteq> j" using i(2) assms(4) by auto
  moreover have "\<not> j < i" using sorted_wrt_nth_less [OF assms(1), of j i] i assms(4) by auto
  ultimately show ?thesis using i(2) by (metis linorder_neqE_nat)
qed

text \<open>
  C40: no leapfrogging: when a page matches so badly that its fused score is below the gate at the default
  ratio, it never stands before the best match that is not hidden, whoever wrote it and whatever the
  user has pinned; this with every quotient, product and sum rounded.
\<close>

theorem no_leapfrog:
  assumes "ro_tierWeight opts = Some (tierBonus c)" "ro_floorRatio opts = None" "ro_tierWeightFloorRatio opts = None"
    and "t \<in> set (fused ts vs K)" "rh_score t = Fin x" "0 < x"
    and "\<forall>e \<in> set (fused ts vs K). \<forall>y. rh_score e = Fin y \<longrightarrow> y \<le> x"
    and "\<not> (\<exists>m. bg_metadata (rh_page t) = JObj m \<and> get m ''userOverride'' = JStr ''hidden'')"
    and "p \<in> set (fused ts vs K)"
    and "num_lt (rh_score p) (computeFloorThreshold (fused ts vs K) (Some (pickValidFloorRatio None None)))"
    and "j < length (rrfFold ts vs k K opts)" "rh_id (rrfFold ts vs k K opts ! j) = rh_id p"
  shows "\<exists>i < j. rh_id (rrfFold ts vs k K opts ! i) = rh_id t"
proof -
  let ?es = "fused ts vs K"
  let ?th = "computeFloorThreshold ?es (Some (pickValidFloorRatio None None))"
  let ?f = "with_bonus ?th (tierBonus c)"
  let ?s = "sort_key (\<lambda>h. - score_value h) (weighted opts ?es)"
  obtain th where th: "?th = Fin th" "th \<le> x * (86 / 100)" using default_threshold assms(4-7) by blast
  have w: "weighted opts ?es = filter (\<lambda>h. is_finite (rh_score h)) (map ?f ?es)"
    using assms(1-3) by (simp add: weighted_def)
  have ids: "distinct (map rh_id ?es)" using fused_ok by blast
  obtain n where n: "rrfFold ts vs k K opts = take n ?s" unfolding rrfFold_def using slice_prefix by blast
  have j: "j < length ?s" "rrfFold ts vs k K opts ! j = ?s ! j" using assms(11) by (simp_all add: n)
  then have "?s ! j \<in> set (weighted opts ?es)" using nth_mem [of j ?s] by simp
  then obtain q where q: "q \<in> set ?es" "?s ! j = ?f q" "is_finite (rh_score (?f q))" using w by auto
  then have "rh_id q = rh_id p" using assms(12) j(2) by simp
  then have "q = p" using ids q(1) assms(9) by (auto simp: distinct_map dest: inj_onD)
  then obtain y where y: "rh_score (?f p) = Fin y" "y < th"
    using q(3) assms(10) th(1) \<open>q = p\<close>
    by (cases "rh_score p") (auto simp: with_bonus_def Let_def split: if_splits)
  have top: "is_finite (rh_score (?f t))" "x * (999 / 1000) \<le> score_value (?f t)"
    using top_keeps [OF assms(5,6,8)] by blast+
  have "score_value (?s ! j) < score_value (?f t)"
    using y top(2) th(2) q(2) \<open>q = p\<close> assms(6) by (simp add: score_value_def)
  moreover have "?f t \<in> set ?s" using top(1) assms(4) w by simp
  moreover have "sorted_wrt (\<lambda>a b. score_value b \<le> score_value a) ?s"
    using sorted_sort_key [of "\<lambda>h. - score_value h" "weighted opts ?es"] by (simp add: sorted_map)
  ultimately obtain i where "i < j" "?s ! i = ?f t" using sorted_before j(1) by blast
  then show ?thesis using assms(11) by (auto simp: n)
qed

end
