(* ===== verification/MemoryExamples.thy ===== *)
theory MemoryExamples
  imports MemoryHybrid RankFusion
begin

text \<open>
  The theorems on the memory at concrete inputs: a graph with a cycle, a summary that just fits, two
  backends of which each serves something else, and pages that the user has hidden or pinned.
\<close>

section \<open>Backends\<close>

definition triple_of :: "string \<Rightarrow> string \<Rightarrow> string \<Rightarrow> knowledge_triple" where
  "triple_of i s ob = \<lparr> kt_id = i, kt_userId = ''u'', kt_subject = s, kt_predicate = ''knows'', kt_object = ob,
     kt_validFrom = 0, kt_validTo = None, kt_evidence = None \<rparr>"

definition small_graph :: "knowledge_triple list" where
  "small_graph = [triple_of ''1'' ''a'' ''b'', triple_of ''2'' ''b'' ''a'', triple_of ''3'' ''b'' ''c'',
     triple_of ''4'' ''c'' ''d'']"

definition graph_backend :: "memory_capability list \<Rightarrow> memory_port" where
  "graph_backend caps =
     \<lparr> mp_capabilities = caps,
       mp_searchSemantic = (\<lambda>q k t. []),
       mp_walkGraph = (\<lambda>spec. map Triple_node small_graph),
       mp_getEpisodes = (\<lambda>q. []),
       mp_getEntitiesByType = (\<lambda>t f. []),
       mp_getTriples = (\<lambda>s p t. filter (\<lambda>x. case s of None \<Rightarrow> True | Some n \<Rightarrow> kt_subject x = n) small_graph),
       mp_summarize = (\<lambda>spec. \<lparr> ms_text = [], ms_tokenCount = 0, ms_citations = [] \<rparr>),
       mp_compress = (\<lambda>n. \<lparr> cv_entries = [], cv_totalSourcesCompressed = 0 \<rparr>) \<rparr>"

definition walk_from_a :: graph_walk_spec where
  "walk_from_a = \<lparr> gw_startNodeId = ''a'', gw_maxDepth = 1, gw_predicate = None \<rparr>"

lemmas graph_simps = walk_from_a_def graph_backend_def small_graph_def triple_of_def

text \<open>One step from a: the triples of a and of b, not those of c.\<close>

lemma walk_is_neighbourhood_witness:
  "polyfillWalkGraph (graph_backend []) walk_from_a =
     map Triple_node [triple_of ''1'' ''a'' ''b'', triple_of ''2'' ''b'' ''a'', triple_of ''3'' ''b'' ''c''] \<and>
   (\<exists>ns. distinct ns \<and>
     set ns = near (\<lambda>n. mp_getTriples (graph_backend []) (Some n) None None) ''a'' 1 \<and>
     polyfillWalkGraph (graph_backend []) walk_from_a =
       map Triple_node (concat (map (\<lambda>n. mp_getTriples (graph_backend []) (Some n) None None) ns)))"
proof (rule conjI)
  show "polyfillWalkGraph (graph_backend []) walk_from_a =
     map Triple_node [triple_of ''1'' ''a'' ''b'', triple_of ''2'' ''b'' ''a'', triple_of ''3'' ''b'' ''c'']"
    by (simp add: polyfillWalkGraph_def graph_simps)
  have "0 \<le> gw_maxDepth walk_from_a" by (simp add: walk_from_a_def)
  from walk_is_neighbourhood [OF this, of "graph_backend []"] show "\<exists>ns. distinct ns \<and>
     set ns = near (\<lambda>n. mp_getTriples (graph_backend []) (Some n) None None) ''a'' 1 \<and>
     polyfillWalkGraph (graph_backend []) walk_from_a =
       map Triple_node (concat (map (\<lambda>n. mp_getTriples (graph_backend []) (Some n) None None) ns))"
    by (simp add: walk_from_a_def)
qed

definition short_summary :: summarize_spec where
  "short_summary = \<lparr> sz_scope = scope_user_profile, sz_wingName = None, sz_maxTokens = Some 4 \<rparr>"

text \<open>A line has nine characters; two of them with the line break between are nineteen: five tokens.\<close>

lemma summary_in_budget_witness:
  "ms_tokenCount (polyfillSummarize (graph_backend []) \<lparr> sz_scope = scope_user_profile, sz_wingName = None, sz_maxTokens = Some 4 \<rparr>) \<le> 4 + 1"
proof -
  have c: "ms_citations (polyfillSummarize (graph_backend []) short_summary) \<noteq> []"
    "sz_maxTokens short_summary = Some 4"
    by (simp_all add: polyfillSummarize_def short_summary_def graph_simps triple_line_def Let_def)
  from summary_in_budget [OF c] show ?thesis unfolding short_summary_def by auto
qed

text \<open>The bound is attained: an allowance of one token, and a text of five characters.\<close>

definition empty_triple :: "string \<Rightarrow> knowledge_triple" where
  "empty_triple i = (triple_of i [] []) \<lparr> kt_predicate := [] \<rparr>"

lemma summary_over_budget:
  "ms_tokenCount (polyfillSummarize
     ((graph_backend []) \<lparr> mp_getTriples := (\<lambda>s p t. [empty_triple ''1'', empty_triple ''2'']) \<rparr>)
     \<lparr> sz_scope = scope_user_profile, sz_wingName = None, sz_maxTokens = Some 1 \<rparr>) = 2"
proof -
  have "\<lceil>5 / 4 :: rat\<rceil> = 2" by (rule ceiling_unique) simp_all
  then show ?thesis by (simp add: polyfillSummarize_def triple_line_def empty_triple_def triple_of_def Let_def)
qed

definition two_backends :: hybrid_port where
  "two_backends = new_hybrid (graph_backend [semantic_search, episodic]) (graph_backend [graph_walk, aaak_compression])
     (\<lambda>m. None)"

definition router_before_two :: router_env where
  "router_before_two = \<lparr> re_backend = as_backend two_backends, re_latency = (\<lambda>m. 1), re_now = 0 \<rparr>"

text \<open>Each of the three capabilities is declared by one of the two; nothing is filled in.\<close>

lemma routed_to_capable_backend_witness:
  "(\<exists>x. has_capability (port_of two_backends x) graph_walk \<and>
      router_walkGraph router_before_two walk_from_a [] = (mp_walkGraph (port_of two_backends x) walk_from_a, []))
   \<and> (\<exists>x. has_capability (port_of two_backends x) episodic \<and>
      router_getEpisodes router_before_two \<lparr> eq_from = 0, eq_to = 1, eq_wing = None, eq_minDurationMs = None \<rparr> [] =
        (mp_getEpisodes (port_of two_backends x) \<lparr> eq_from = 0, eq_to = 1, eq_wing = None, eq_minDurationMs = None \<rparr>, []))
   \<and> (\<exists>x. has_capability (port_of two_backends x) aaak_compression \<and>
      router_compress router_before_two 100 [] = (mp_compress (port_of two_backends x) 100, []))"
proof -
  have env: "re_backend router_before_two = as_backend two_backends" by (simp add: router_before_two_def)
  have caps: "has_capability (hy_secondary two_backends) graph_walk"
    "has_capability (hy_primary two_backends) episodic"
    "has_capability (hy_secondary two_backends) aaak_compression"
    by (simp_all add: two_backends_def new_hybrid_def graph_backend_def has_capability_def)
  show ?thesis
    using routed_to_capable_backend [OF env, of walk_from_a "[]" "\<lparr> eq_from = 0, eq_to = 1, eq_wing = None, eq_minDurationMs = None \<rparr>" 100]
      caps by blast
qed

section \<open>Rankings\<close>

definition plain_page :: "string \<Rightarrow> brain_page" where
  "plain_page i = \<lparr> bg_id = i, bg_user_id = ''u'', bg_title = [], bg_content = [], bg_source = ''gmail'',
     bg_source_ref = None, bg_metadata = JObj [], bg_embedding = None, bg_embedding_model = None,
     bg_embedding_dim = None, bg_created_at = 0, bg_updated_at = 0 \<rparr>"

definition hidden_page :: brain_page where
  "hidden_page = (plain_page ''h'') \<lparr> bg_metadata := JObj [(''userOverride'', JStr ''hidden'')] \<rparr>"

definition tiers_normal :: rrf_options where
  "tiers_normal = \<lparr> ro_tierWeight = Some (tierBonus cal_normal), ro_floorRatio = None, ro_tierWeightFloorRatio = None \<rparr>"

lemma hidden_never_retrieved_witness:
  "hidden_page \<notin> rh_page ` set (rrfFold [hidden_page, plain_page ''a''] [hidden_page] 10 (Fin 60) tiers_normal)"
proof -
  have "ro_tierWeight tiers_normal = Some (tierBonus cal_normal)" by (simp add: tiers_normal_def)
  moreover have "\<exists>m. bg_metadata hidden_page = JObj m \<and> get m ''userOverride'' = JStr ''hidden''"
    by (simp add: hidden_page_def get_def)
  ultimately show ?thesis by (rule hidden_never_retrieved)
qed

definition pinned_page :: brain_page where
  "pinned_page = (plain_page ''p'') \<lparr> bg_metadata := JObj [(''userOverride'', JStr ''pinned'')] \<rparr>"

definition top_hit :: rrf_hit where
  "top_hit = \<lparr> rh_id = ''a'', rh_score = Fin (1 / 2), rh_textRank = Some 1, rh_vectorRank = None, rh_page = plain_page ''a'' \<rparr>"

definition pinned_hit :: rrf_hit where
  "pinned_hit = \<lparr> rh_id = ''p'', rh_score = Fin (f64 (1 / 3)), rh_textRank = Some 2, rh_vectorRank = None, rh_page = pinned_page \<rparr>"

text \<open>
  A smoothing constant of 1: the first page scores a half, the pinned one a third, which is below the gate.
\<close>

lemma half_exact: "f64 (1 / 2) = 1 / 2" "f64 2 = 2" "f64 3 = 3"
  by code_simp+

lemma two_fused: "fused [plain_page ''a'', pinned_page] [] (Fin 1) = [top_hit, pinned_hit]"
  by (simp add: fused_def add_text_def contribution_def rounded_def Let_def plain_page_def pinned_page_def
      top_hit_def pinned_hit_def half_exact)

lemma third_below_gate:
  "num_lt (rh_score pinned_hit)
     (computeFloorThreshold [top_hit, pinned_hit] (Some (pickValidFloorRatio None None)))"
  by code_simp

lemma pinned_stands_second:
  "map rh_id (rrfFold [plain_page ''a'', pinned_page] [] 10 (Fin 1) tiers_normal) = [''a'', ''p'']"
  by code_simp

lemma no_leapfrog_witness:
  "rh_id (rrfFold [plain_page ''a'', pinned_page] [] 10 (Fin 1) tiers_normal ! 1) = ''p'' \<and>
   (\<exists>i < 1. rh_id (rrfFold [plain_page ''a'', pinned_page] [] 10 (Fin 1) tiers_normal ! i) = ''a'')"
proof -
  let ?R = "rrfFold [plain_page ''a'', pinned_page] [] 10 (Fin 1) tiers_normal"
  let ?es = "fused [plain_page ''a'', pinned_page] [] (Fin 1)"
  have opts: "ro_tierWeight tiers_normal = Some (tierBonus cal_normal)" "ro_floorRatio tiers_normal = None"
    "ro_tierWeightFloorRatio tiers_normal = None" by (simp_all add: tiers_normal_def)
  have third: "f64 (1 / 3) \<le> 1 / 2" by code_simp
  have es: "top_hit \<in> set ?es" "rh_score top_hit = Fin (1 / 2)"
    "\<forall>e \<in> set ?es. \<forall>y. rh_score e = Fin y \<longrightarrow> y \<le> 1 / 2" "pinned_hit \<in> set ?es"
    using third by (simp_all add: two_fused) (simp_all add: top_hit_def pinned_hit_def)
  have open_page: "\<not> (\<exists>m. bg_metadata (rh_page top_hit) = JObj m \<and> get m ''userOverride'' = JStr ''hidden'')"
    by (simp add: top_hit_def plain_page_def get_def)
  have below: "num_lt (rh_score pinned_hit) (computeFloorThreshold ?es (Some (pickValidFloorRatio None None)))"
    unfolding two_fused by (rule third_below_gate)
  have len: "1 < length ?R" using arg_cong [OF pinned_stands_second, of length] by simp
  have id1: "rh_id (?R ! 1) = rh_id pinned_hit"
    using arg_cong [OF pinned_stands_second, of "\<lambda>xs. xs ! 1"] len by (simp add: pinned_hit_def)
  from no_leapfrog [OF opts es(1,2) _ es(3) open_page es(4) below len id1]
  have "\<exists>i < 1. rh_id (?R ! i) = rh_id top_hit" by simp
  then show ?thesis using id1 by (simp add: top_hit_def pinned_hit_def)
qed

end
