(* ===== verification/DispatchLeases.thy ===== *)
theory DispatchLeases
  imports RouterDispatch ExecutionEvidence
begin

text \<open>
  The request-start fence of the execution adapters across processes
  (packages/db/src/repositories/credential-dispatch-lease-repository.ts). The state is the part of the
  database that its transactions read and write: the leases, the ambiguities and the explanations, and
  the tables of authority that only others change. A transaction runs alone, as the isolation of the
  database promises, and one that throws changes nothing. A query returns rows in the order of the
  table. Random values, the clock, the hash of capabilities, the text of a date and the order of keys
  in JSON are arguments. Of the constraints of the table of leases the unique ones are modelled
  (identifier, plan, capability hash); its foreign keys hold for rows that the authority query found,
  because the tables of authority have the same ones.
\<close>

section \<open>Rows\<close>

datatype lease_state = ls_request_started | ls_completed | ls_failed | ls_ambiguous

datatype authority_kind = ak_admission | ak_receipt

record dispatch_lease =
  dl_id :: string
  dl_userId :: string
  dl_oauthTokenId :: "string option"
  dl_provider :: "string option"
  dl_accountEmail :: "string option"
  dl_credentialRevision :: "string option"
  dl_credentialGeneration :: "string option"
  dl_vaultGeneration :: "string option"
  dl_adapterName :: string
  dl_riskSnapshot :: jsobj
  dl_executionChannel :: "string option"
  dl_mcpServerId :: "string option"
  dl_mcpToolName :: "string option"
  dl_executionAuthorityRevision :: string
  dl_policyAuthorityRevision :: string
  dl_actionId :: string
  dl_decisionId :: string
  dl_executionPlanId :: string
  dl_authorityKind :: authority_kind
  dl_authorityId :: string
  dl_authorityUpdatedAt :: int
  dl_capabilityHash :: string
  dl_leaseGeneration :: string
  dl_state :: lease_state
  dl_acquiredAt :: int
  dl_requestStartedAt :: int
  dl_expiresAt :: int
  dl_terminalAt :: "int option"

datatype ambiguity_phase = ph_adapter_execute | ph_adapter_stream | ph_lease_expiry | ph_lease_recovery

datatype ambiguity_reason =
    rs_adapter_result_unbound | rs_adapter_exception | rs_stream_protocol_invalid | rs_stream_incomplete
  | rs_stream_exception | rs_lease_expired | rs_legacy_ambiguous

record ambiguity_row =
  am_dispatchLeaseId :: string
  am_decisionId :: string
  am_explanationId :: string
  am_phase :: ambiguity_phase
  am_reasonCode :: ambiguity_reason
  am_observation :: jsobj
  am_evidenceSchemaVersion :: int
  am_createdAt :: int

record owner_row =
  ow_id :: string
  ow_autonomySettings :: jsobj
  ow_executionAuthorityRevision :: string
  ow_ironclawChannel :: "string option"

record mcp_server_row =
  ms_serverId :: string
  ms_userId :: string
  ms_active :: bool

record opt_in_row =
  oi_serverId :: string
  oi_skillName :: string
  oi_accepted :: bool

record plan_row =
  pr_planId :: string
  pr_decisionId :: string
  pr_actionId :: string
  pr_running :: bool

record barrier_row =
  br_id :: string
  br_userId :: string
  br_decisionId :: string
  br_actionId :: string
  br_executionPlanId :: string
  br_inProgress :: bool
  br_updatedAt :: int
  br_adapterName :: string
  br_riskSnapshot :: jsval

record guard_row =
  gr_decisionId :: string
  gr_selectedActionId :: string
  gr_sourceExecutionPlanId :: string
  gr_running :: bool
  gr_updatedAt :: int
  gr_dispatchAdapterName :: "string option"
  gr_dispatchRiskSnapshot :: jsval

record vault_row =
  vr_userId :: string
  vr_unlocked :: bool
  vr_generation :: string

record oauth_token_row =
  ot_id :: string
  ot_userId :: string
  ot_provider :: string
  ot_accountEmail :: string
  ot_credentialRevision :: string
  ot_dispatchGeneration :: string
  ot_active :: bool
  ot_expiresAt :: int
  ot_updatedAt :: int

record dispatch_db =
  db_owners :: "owner_row list"
  db_policyRevision :: "string option"
  db_servers :: "mcp_server_row list"
  db_optIns :: "opt_in_row list"
  db_plans :: "plan_row list"
  db_decisions :: "(string \<times> string) list"
  db_barriers :: "barrier_row list"
  db_guards :: "guard_row list"
  db_vaults :: "vault_row list"
  db_tokens :: "oauth_token_row list"
  db_leases :: "dispatch_lease list"
  db_ambiguities :: "ambiguity_row list"
  db_explanations :: "(string \<times> string \<times> jsobj list) list"

text \<open>What a transaction takes from outside: the results of its random calls and the functions it uses.\<close>

record lease_env =
  le_now :: int
  le_capability :: string
  le_leaseGeneration :: string
  le_leaseId :: string
  le_explanationId :: "string \<Rightarrow> string"
  le_hash :: "string \<Rightarrow> string"
  le_iso :: "int \<Rightarrow> string"
  le_collate :: "string \<Rightarrow> string \<Rightarrow> int"

definition LEASE_TTL_MS :: int where
  "LEASE_TTL_MS = 5 * 60000"

definition active :: "dispatch_lease \<Rightarrow> bool" where
  "active l \<longleftrightarrow> dl_state l \<in> {ls_request_started, ls_ambiguous}"

definition given :: "string option \<Rightarrow> bool" where
  "given x = (case x of Some s \<Rightarrow> s \<noteq> [] | None \<Rightarrow> False)"

section \<open>Ambiguity\<close>

definition isValidAmbiguityPair :: "ambiguity_phase \<Rightarrow> ambiguity_reason \<Rightarrow> bool" where
  "isValidAmbiguityPair phase reason =
     (if phase = ph_adapter_execute then reason = rs_adapter_result_unbound \<or> reason = rs_adapter_exception
      else if phase = ph_adapter_stream then
        reason = rs_stream_protocol_invalid \<or> reason = rs_stream_incomplete \<or> reason = rs_stream_exception
      else if phase = ph_lease_expiry then reason = rs_lease_expired
      else reason = rs_legacy_ambiguous)"

definition phase_str :: "ambiguity_phase \<Rightarrow> string" where
  "phase_str p = (case p of ph_adapter_execute \<Rightarrow> ''adapter_execute'' | ph_adapter_stream \<Rightarrow> ''adapter_stream''
     | ph_lease_expiry \<Rightarrow> ''lease_expiry'' | ph_lease_recovery \<Rightarrow> ''lease_recovery'')"

definition reason_str :: "ambiguity_reason \<Rightarrow> string" where
  "reason_str r = (case r of
     rs_adapter_result_unbound \<Rightarrow> ''adapter_result_unbound'' | rs_adapter_exception \<Rightarrow> ''adapter_exception''
   | rs_stream_protocol_invalid \<Rightarrow> ''stream_protocol_invalid'' | rs_stream_incomplete \<Rightarrow> ''stream_incomplete''
   | rs_stream_exception \<Rightarrow> ''stream_exception'' | rs_lease_expired \<Rightarrow> ''lease_expired''
   | rs_legacy_ambiguous \<Rightarrow> ''legacy_ambiguous'')"

definition authority_str :: "authority_kind \<Rightarrow> string" where
  "authority_str k = (case k of ak_admission \<Rightarrow> ''admission'' | ak_receipt \<Rightarrow> ''receipt'')"

definition ambiguityObservation :: "dispatch_lease \<Rightarrow> ambiguity_phase \<Rightarrow> ambiguity_reason \<Rightarrow> jsobj option" where
  "ambiguityObservation l phase reason =
     (if \<not> isValidAmbiguityPair phase reason then None
      else Some
        [(''schemaVersion'', JNum (Fin 1)), (''kind'', JStr ''execution_terminal_ambiguity''),
         (''status'', JStr ''ambiguous''), (''phase'', JStr (phase_str phase)),
         (''reasonCode'', JStr (reason_str reason)), (''decisionId'', JStr (dl_decisionId l)),
         (''actionId'', JStr (dl_actionId l)), (''executionPlanId'', JStr (dl_executionPlanId l)),
         (''adapterName'', JStr (dl_adapterName l)), (''authorityKind'', JStr (authority_str (dl_authorityKind l))),
         (''dispatchLeaseId'', JStr (dl_id l))])"

text \<open>\<open>None\<close> is an exception, which rolls the transaction back.\<close>

definition recordAmbiguity ::
  "lease_env \<Rightarrow> dispatch_lease \<Rightarrow> ambiguity_phase \<Rightarrow> ambiguity_reason \<Rightarrow> int \<Rightarrow> dispatch_db
     \<Rightarrow> (bool \<times> dispatch_db) option" where
  "recordAmbiguity env l phase reason now db =
     (case ambiguityObservation l phase reason of
        None \<Rightarrow> None
      | Some observation \<Rightarrow>
        (case find (\<lambda>a. am_dispatchLeaseId a = dl_id l) (db_ambiguities db) of
           Some a \<Rightarrow> Some (canonicalJson (le_collate env) (JObj (am_observation a)) =
               canonicalJson (le_collate env) (JObj observation), db)
         | None \<Rightarrow>
           if \<not> active l then Some (False, db)
           else let explanationId = le_explanationId env (dl_id l);
               row = \<lparr> am_dispatchLeaseId = dl_id l, am_decisionId = dl_decisionId l,
                 am_explanationId = explanationId, am_phase = phase, am_reasonCode = reason,
                 am_observation = observation, am_evidenceSchemaVersion = 1, am_createdAt = now \<rparr>;
               updated = (\<lambda>x. dl_id x = dl_id l \<and> active x) in
             if \<not> list_ex updated (db_leases db) then None
             else Some (True, db \<lparr> db_explanations := db_explanations db @ [(explanationId, dl_decisionId l, [observation])],
               db_ambiguities := db_ambiguities db @ [row],
               db_leases := map (\<lambda>x. if updated x
                 then x \<lparr> dl_state := ls_ambiguous,
                   dl_terminalAt := Some (case dl_terminalAt x of Some t \<Rightarrow> t | None \<Rightarrow> now) \<rparr>
                 else x) (db_leases db) \<rparr>)))"

definition by_expiry :: "dispatch_lease \<Rightarrow> dispatch_lease \<Rightarrow> int" where
  "by_expiry x y =
     (if dl_expiresAt x < dl_expiresAt y then -1 else if dl_expiresAt y < dl_expiresAt x then 1
      else if str_less (dl_id x) (dl_id y) then -1 else if str_less (dl_id y) (dl_id x) then 1 else 0)"

definition overdue_leases :: "string option \<Rightarrow> string option \<Rightarrow> int \<Rightarrow> dispatch_db \<Rightarrow> dispatch_lease list" where
  "overdue_leases userId oauthTokenId now db =
     take 100 (sort_by by_expiry (filter (\<lambda>l.
       ((dl_state l = ls_request_started \<and> dl_expiresAt l \<le> now) \<or>
        (dl_state l = ls_ambiguous \<and> \<not> list_ex (\<lambda>a. am_dispatchLeaseId a = dl_id l) (db_ambiguities db))) \<and>
       (userId = None \<or> Some (dl_userId l) = userId) \<and>
       (oauthTokenId = None \<or> dl_oauthTokenId l = oauthTokenId)) (db_leases db)))"

fun mark_each :: "lease_env \<Rightarrow> int \<Rightarrow> dispatch_lease list \<Rightarrow> dispatch_db \<Rightarrow> dispatch_db option" where
  "mark_each env now [] db = Some db"
| "mark_each env now (l # ls) db =
     (let recovering = (dl_state l = ls_ambiguous) in
      case recordAmbiguity env l (if recovering then ph_lease_recovery else ph_lease_expiry)
          (if recovering then rs_legacy_ambiguous else rs_lease_expired) now db of
        Some (True, db1) \<Rightarrow> mark_each env now ls db1
      | _ \<Rightarrow> None)"

definition markOverdueLeasesAmbiguous ::
  "lease_env \<Rightarrow> string option \<Rightarrow> string option \<Rightarrow> int \<Rightarrow> dispatch_db \<Rightarrow> dispatch_db option" where
  "markOverdueLeasesAmbiguous env userId oauthTokenId now db =
     mark_each env now (overdue_leases userId oauthTokenId now db) db"

section \<open>Starting a dispatch\<close>

record start_input =
  si_userId :: string
  si_decisionId :: string
  si_actionId :: string
  si_executionPlanId :: string
  si_adapterName :: string
  si_expectedRiskSnapshot :: jsobj
  si_expectedExecutionChannel :: "string option"
  si_expectedUserExecutionChannel :: "string option"
  si_mcpServerId :: "string option"
  si_mcpToolName :: "string option"
  si_credentialProvider :: "string option"
  si_expectedOAuthTokenId :: "string option"
  si_expectedCredentialRevision :: "string option"
  si_credentialAccountEmail :: "string option"
  si_expectedVaultGeneration :: "string option"
  si_expectedAuthorityRevision :: string
  si_expectedPolicyAuthorityRevision :: string
  si_expectedAdmissionAuthorityId :: string
  si_expectedAdmissionAuthorityUpdatedAt :: string
  si_now :: "int option"
  si_ttlMs :: "int option"

record dispatch_grant =
  dg_capability :: string
  dg_leaseGeneration :: string
  dg_expiresAt :: int
  dg_credential :: "(string \<times> string) option"

datatype refusal = credential_unavailable | authority_revoked | dispatch_replayed

text \<open>A transaction answers, or it throws and is rolled back.\<close>

datatype 'a tx_result = tx_ok 'a | tx_refused refusal string | tx_threw

definition now_of :: "lease_env \<Rightarrow> int option \<Rightarrow> int" where
  "now_of env now = (case now of Some t \<Rightarrow> t | None \<Rightarrow> le_now env)"

text \<open>The guards before the transaction.\<close>

definition start_guard :: "start_input \<Rightarrow> string option" where
  "start_guard inp =
     (if normalizeMemoryActionAdapterName (JStr (si_adapterName inp)) \<noteq> Some (si_adapterName inp)
      then Some ''Adapter identity is not a canonical durable identifier.''
      else if get (si_expectedRiskSnapshot inp) ''actionId'' \<noteq> JStr (si_actionId inp)
      then Some ''Exact execution risk authority is required.''
      else None)"

definition owner_refusal :: "dispatch_db \<Rightarrow> start_input \<Rightarrow> string option" where
  "owner_refusal db inp =
     (case find (\<lambda>u. ow_id u = si_userId inp) (db_owners db) of
        None \<Rightarrow> Some ''Execution owner is unavailable.''
      | Some u \<Rightarrow>
          if get (ow_autonomySettings u) ''paused'' = JBool True \<or>
             ow_executionAuthorityRevision u \<noteq> si_expectedAuthorityRevision inp
          then Some ''Execution owner is unavailable.''
          else if si_adapterName inp = ''ironclaw'' \<and> ow_ironclawChannel u \<noteq> si_expectedUserExecutionChannel inp
          then Some ''IronClaw channel authority changed before request start.''
          else None)"

definition mcp_refusal :: "dispatch_db \<Rightarrow> start_input \<Rightarrow> string option" where
  "mcp_refusal db inp =
     (if si_adapterName inp \<noteq> ''mcp-host'' then None
      else if \<not> given (si_mcpServerId inp) \<or> \<not> given (si_mcpToolName inp)
      then Some ''Exact MCP execution authority is required.''
      else if \<not> list_ex (\<lambda>m. Some (ms_serverId m) = si_mcpServerId inp \<and> ms_userId m = si_userId inp \<and> ms_active m)
          (db_servers db) \<or>
        list_ex (\<lambda>o'. Some (oi_serverId o') = si_mcpServerId inp \<and> Some (oi_skillName o') = si_mcpToolName inp \<and>
          \<not> oi_accepted o') (db_optIns db)
      then Some ''MCP tool authorization changed before request start.''
      else None)"

record authority_row =
  ar_kind :: authority_kind
  ar_id :: string
  ar_updatedAt :: int
  ar_adapterName :: "string option"
  ar_riskSnapshot :: jsval

definition plan_running :: "dispatch_db \<Rightarrow> string \<Rightarrow> string \<Rightarrow> string \<Rightarrow> bool" where
  "plan_running db planId decisionId actionId \<longleftrightarrow>
     list_ex (\<lambda>p. pr_planId p = planId \<and> pr_decisionId p = decisionId \<and> pr_actionId p = actionId \<and> pr_running p)
       (db_plans db)"

definition authority_rows :: "dispatch_db \<Rightarrow> start_input \<Rightarrow> authority_row list" where
  "authority_rows db inp =
     (let d = si_decisionId inp; a = si_actionId inp; p = si_executionPlanId inp in
      map (\<lambda>b. \<lparr> ar_kind = ak_admission, ar_id = br_id b, ar_updatedAt = br_updatedAt b,
          ar_adapterName = Some (br_adapterName b), ar_riskSnapshot = br_riskSnapshot b \<rparr>)
        (filter (\<lambda>b. br_userId b = si_userId inp \<and> br_decisionId b = d \<and> br_actionId b = a \<and>
            br_executionPlanId b = p \<and> br_inProgress b \<and> plan_running db p d a) (db_barriers db))
      @ map (\<lambda>g. \<lparr> ar_kind = ak_receipt, ar_id = gr_decisionId g, ar_updatedAt = gr_updatedAt g,
          ar_adapterName = gr_dispatchAdapterName g, ar_riskSnapshot = gr_dispatchRiskSnapshot g \<rparr>)
        (filter (\<lambda>g. gr_decisionId g = d \<and> gr_selectedActionId g = a \<and> gr_sourceExecutionPlanId g = p \<and>
            gr_running g \<and> (d, si_userId inp) \<in> set (db_decisions db) \<and> plan_running db p d a) (db_guards db)))"

definition authority_matches :: "lease_env \<Rightarrow> start_input \<Rightarrow> authority_row \<Rightarrow> bool" where
  "authority_matches env inp a \<longleftrightarrow>
     ar_id a = si_expectedAdmissionAuthorityId inp \<and>
     le_iso env (ar_updatedAt a) = si_expectedAdmissionAuthorityUpdatedAt inp \<and>
     ar_adapterName a = Some (si_adapterName inp) \<and>
     canonicalJson (le_collate env) (ar_riskSnapshot a) =
       canonicalJson (le_collate env) (JObj (si_expectedRiskSnapshot inp))"

definition provider_busy :: "dispatch_db \<Rightarrow> string \<Rightarrow> string option \<Rightarrow> bool" where
  "provider_busy db userId provider \<longleftrightarrow>
     list_ex (\<lambda>l. dl_userId l = userId \<and> provider \<noteq> None \<and> dl_provider l = provider \<and> active l) (db_leases db)"

definition vault_stale :: "vault_row option \<Rightarrow> string option \<Rightarrow> bool" where
  "vault_stale v expected =
     (case v of
        Some r \<Rightarrow> \<not> vr_unlocked r \<or> Some (vr_generation r) \<noteq> expected
      | None \<Rightarrow> expected \<noteq> None)"

definition vault_of :: "dispatch_db \<Rightarrow> string \<Rightarrow> vault_row option" where
  "vault_of db userId = find (\<lambda>v. vr_userId v = userId) (db_vaults db)"

definition token_of ::
  "dispatch_db \<Rightarrow> string \<Rightarrow> string \<Rightarrow> string \<Rightarrow> string \<Rightarrow> string option \<Rightarrow> oauth_token_row option" where
  "token_of db tokenId userId provider revision accountEmail =
     (case sort_key (\<lambda>t. - ot_updatedAt t) (filter (\<lambda>t. ot_id t = tokenId \<and> ot_userId t = userId \<and>
         ot_provider t = provider \<and> ot_credentialRevision t = revision \<and>
         (accountEmail = None \<or> Some (ot_accountEmail t) = accountEmail)) (db_tokens db)) of
        [] \<Rightarrow> None
      | t # _ \<Rightarrow> Some t)"

definition usable_token :: "int \<Rightarrow> oauth_token_row option \<Rightarrow> bool" where
  "usable_token now t = (case t of Some r \<Rightarrow> ot_active r \<and> now < ot_expiresAt r | None \<Rightarrow> False)"

text \<open>The credential of a dispatch: a refusal, or the token, if any, and the generation of the vault.\<close>

definition prepared_credential ::
  "dispatch_db \<Rightarrow> start_input \<Rightarrow> int \<Rightarrow> string + oauth_token_row option \<times> string option" where
  "prepared_credential db inp now =
     (if \<not> given (si_credentialProvider inp) then Inr (None, None)
      else if provider_busy db (si_userId inp) (si_credentialProvider inp)
      then Inl ''Credential dispatch is already active for this provider.''
      else if si_expectedOAuthTokenId inp = None \<and> si_expectedCredentialRevision inp = None \<and>
          si_expectedVaultGeneration inp = None
      then Inr (None, None)
      else if \<not> given (si_expectedOAuthTokenId inp) \<or> \<not> given (si_expectedCredentialRevision inp)
      then Inl ''Prepared OAuth credential identity is incomplete.''
      else let v = vault_of db (si_userId inp) in
        if vault_stale v (si_expectedVaultGeneration inp)
        then Inl ''Prepared OAuth credential vault authority is stale.''
        else let t = token_of db (the (si_expectedOAuthTokenId inp)) (si_userId inp) (the (si_credentialProvider inp))
            (the (si_expectedCredentialRevision inp)) (si_credentialAccountEmail inp) in
          if \<not> usable_token now t
          then Inl (''Prepared '' @ the (si_credentialProvider inp) @ '' credential is unavailable for dispatch.'')
          else Inr (t, map_option vr_generation v))"

definition new_lease ::
  "lease_env \<Rightarrow> start_input \<Rightarrow> authority_row \<Rightarrow> oauth_token_row option \<Rightarrow> string option \<Rightarrow> int \<Rightarrow> dispatch_lease" where
  "new_lease env inp a token vaultGeneration now =
     \<lparr> dl_id = le_leaseId env, dl_userId = si_userId inp, dl_oauthTokenId = map_option ot_id token,
       dl_provider = si_credentialProvider inp, dl_accountEmail = map_option ot_accountEmail token,
       dl_credentialRevision = map_option ot_credentialRevision token,
       dl_credentialGeneration = map_option ot_dispatchGeneration token, dl_vaultGeneration = vaultGeneration,
       dl_adapterName = si_adapterName inp, dl_riskSnapshot = si_expectedRiskSnapshot inp,
       dl_executionChannel = si_expectedExecutionChannel inp, dl_mcpServerId = si_mcpServerId inp,
       dl_mcpToolName = si_mcpToolName inp, dl_executionAuthorityRevision = si_expectedAuthorityRevision inp,
       dl_policyAuthorityRevision = si_expectedPolicyAuthorityRevision inp, dl_actionId = si_actionId inp,
       dl_decisionId = si_decisionId inp, dl_executionPlanId = si_executionPlanId inp,
       dl_authorityKind = ar_kind a, dl_authorityId = ar_id a, dl_authorityUpdatedAt = ar_updatedAt a,
       dl_capabilityHash = le_hash env (le_capability env), dl_leaseGeneration = le_leaseGeneration env,
       dl_state = ls_request_started, dl_acquiredAt = now, dl_requestStartedAt = now,
       dl_expiresAt = now + max 1000 (case si_ttlMs inp of Some n \<Rightarrow> n | None \<Rightarrow> LEASE_TTL_MS),
       dl_terminalAt = None \<rparr>"

definition lease_conflict :: "dispatch_db \<Rightarrow> dispatch_lease \<Rightarrow> bool" where
  "lease_conflict db l \<longleftrightarrow> list_ex (\<lambda>x. dl_id x = dl_id l \<or> dl_capabilityHash x = dl_capabilityHash l \<or>
     dl_executionPlanId x = dl_executionPlanId l) (db_leases db)"

definition insert_lease ::
  "lease_env \<Rightarrow> dispatch_lease \<Rightarrow> oauth_token_row option \<Rightarrow> dispatch_db \<Rightarrow> dispatch_grant tx_result \<times> dispatch_db" where
  "insert_lease env l token db =
     (if lease_conflict db l then (tx_threw, db)
      else (tx_ok \<lparr> dg_capability = le_capability env, dg_leaseGeneration = dl_leaseGeneration l,
          dg_expiresAt = dl_expiresAt l, dg_credential = map_option (\<lambda>t. (ot_accountEmail t, ot_id t)) token \<rparr>,
        db \<lparr> db_leases := db_leases db @ [l] \<rparr>))"

text \<open>The transaction after the sweep of overdue leases.\<close>

definition start_swept ::
  "lease_env \<Rightarrow> start_input \<Rightarrow> int \<Rightarrow> dispatch_db \<Rightarrow> dispatch_grant tx_result \<times> dispatch_db" where
  "start_swept env inp now db =
     (if list_ex (\<lambda>l. dl_executionPlanId l = si_executionPlanId inp) (db_leases db)
      then (tx_refused dispatch_replayed ''This execution plan already consumed its dispatch capability.'', db)
      else case owner_refusal db inp of Some why \<Rightarrow> (tx_refused authority_revoked why, db)
      | None \<Rightarrow>
        if db_policyRevision db \<noteq> Some (si_expectedPolicyAuthorityRevision inp)
        then (tx_refused authority_revoked ''Execution policy changed before request start.'', db)
        else case mcp_refusal db inp of Some why \<Rightarrow> (tx_refused authority_revoked why, db)
        | None \<Rightarrow>
          (case authority_rows db inp of
             [] \<Rightarrow> (tx_refused authority_revoked ''Execution authority is unavailable.'', db)
           | a # _ \<Rightarrow>
             if \<not> authority_matches env inp a
             then (tx_refused authority_revoked ''Execution authority is unavailable.'', db)
             else (case prepared_credential db inp now of
                 Inl why \<Rightarrow> (tx_refused authority_revoked why, db)
               | Inr (token, vg) \<Rightarrow> insert_lease env (new_lease env inp a token vg now) token db)))"

definition lease_start :: "lease_env \<Rightarrow> start_input \<Rightarrow> dispatch_db \<Rightarrow> dispatch_grant tx_result \<times> dispatch_db" where
  "lease_start env inp db =
     (case start_guard inp of
        Some why \<Rightarrow> (tx_refused authority_revoked why, db)
      | None \<Rightarrow> let now = now_of env (si_now inp) in
          (case markOverdueLeasesAmbiguous env (Some (si_userId inp)) None now db of
             None \<Rightarrow> (tx_threw, db)
           | Some db1 \<Rightarrow> (case start_swept env inp now db1 of
               (tx_threw, _) \<Rightarrow> (tx_threw, db)
             | (res, db2) \<Rightarrow> (res, db2))))"

section \<open>Binding a credential\<close>

record bind_input =
  bi_userId :: string
  bi_provider :: string
  bi_accountEmail :: "string option"
  bi_decisionId :: string
  bi_actionId :: string
  bi_executionPlanId :: string
  bi_capability :: string
  bi_leaseGeneration :: string
  bi_expectedOAuthTokenId :: string
  bi_expectedCredentialRevision :: string
  bi_expectedVaultGeneration :: "string option"
  bi_now :: "int option"

definition bind_key :: "lease_env \<Rightarrow> bind_input \<Rightarrow> dispatch_lease \<Rightarrow> bool" where
  "bind_key env inp l \<longleftrightarrow>
     dl_userId l = bi_userId inp \<and> dl_decisionId l = bi_decisionId inp \<and> dl_actionId l = bi_actionId inp \<and>
     dl_executionPlanId l = bi_executionPlanId inp \<and> dl_capabilityHash l = le_hash env (bi_capability inp) \<and>
     dl_leaseGeneration l = bi_leaseGeneration inp \<and> dl_state l = ls_request_started"

definition bind_lease :: "oauth_token_row \<Rightarrow> string option \<Rightarrow> dispatch_lease \<Rightarrow> dispatch_lease" where
  "bind_lease t vaultGeneration l = l \<lparr> dl_oauthTokenId := Some (ot_id t), dl_provider := Some (ot_provider t),
     dl_accountEmail := Some (ot_accountEmail t), dl_credentialRevision := Some (ot_credentialRevision t),
     dl_credentialGeneration := Some (ot_dispatchGeneration t), dl_vaultGeneration := vaultGeneration \<rparr>"

definition bind_swept ::
  "lease_env \<Rightarrow> bind_input \<Rightarrow> int \<Rightarrow> dispatch_db \<Rightarrow> dispatch_grant tx_result \<times> dispatch_db" where
  "bind_swept env inp now db =
     (case find (bind_key env inp) (db_leases db) of
        None \<Rightarrow> (tx_refused dispatch_replayed ''Dispatch capability is unavailable.'', db)
      | Some l \<Rightarrow>
        if dl_oauthTokenId l \<noteq> None then (tx_refused dispatch_replayed ''Dispatch capability is unavailable.'', db)
        else if dl_provider l \<noteq> Some (bi_provider inp)
        then (tx_refused credential_unavailable
          ''Dispatch capability is not authorized for this credential provider.'', db)
        else let v = vault_of db (bi_userId inp) in
          if vault_stale v (bi_expectedVaultGeneration inp)
          then (tx_refused credential_unavailable ''Credential vault session is stale.'', db)
          else (case token_of db (bi_expectedOAuthTokenId inp) (bi_userId inp) (bi_provider inp)
              (bi_expectedCredentialRevision inp) (bi_accountEmail inp) of
              Some t \<Rightarrow>
                if \<not> usable_token now (Some t)
                then (tx_refused credential_unavailable
                  (''No active '' @ bi_provider inp @ '' credential is available for dispatch.''), db)
                else let hit = (\<lambda>x. bind_key env inp x \<and> dl_oauthTokenId x = None) in
                  if \<not> list_ex hit (db_leases db)
                  then (tx_refused dispatch_replayed ''Dispatch capability is unavailable.'', db)
                  else (tx_ok \<lparr> dg_capability = bi_capability inp, dg_leaseGeneration = bi_leaseGeneration inp,
                      dg_expiresAt = dl_expiresAt l, dg_credential = Some (ot_accountEmail t, ot_id t) \<rparr>,
                    db \<lparr> db_leases := map (\<lambda>x. if hit x then bind_lease t (map_option vr_generation v) x else x)
                      (db_leases db) \<rparr>)
            | None \<Rightarrow> (tx_refused credential_unavailable
                (''No active '' @ bi_provider inp @ '' credential is available for dispatch.''), db)))"

definition bindCredential :: "lease_env \<Rightarrow> bind_input \<Rightarrow> dispatch_db \<Rightarrow> dispatch_grant tx_result \<times> dispatch_db" where
  "bindCredential env inp db =
     (let now = now_of env (bi_now inp) in
      if \<not> list_ex (\<lambda>u. ow_id u = bi_userId inp) (db_owners db)
      then (tx_refused authority_revoked ''Execution owner is unavailable.'', db)
      else (case markOverdueLeasesAmbiguous env (Some (bi_userId inp)) None now db of
          None \<Rightarrow> (tx_threw, db)
        | Some db1 \<Rightarrow> bind_swept env inp now db1))"

section \<open>Terminal states\<close>

datatype terminal_request = tr_completed | tr_failed | tr_ambiguous ambiguity_phase ambiguity_reason

record terminalize_input =
  ti_userId :: string
  ti_executionPlanId :: string
  ti_capability :: string
  ti_leaseGeneration :: string
  ti_now :: "int option"
  ti_request :: terminal_request

definition settle :: "int \<Rightarrow> dispatch_lease \<Rightarrow> lease_state \<Rightarrow> dispatch_db \<Rightarrow> bool \<times> dispatch_db" where
  "settle now l s db =
     (if dl_state l = s then (True, db)
      else if dl_state l = ls_completed \<or> dl_state l = ls_failed then (False, db)
      else let hit = (\<lambda>x. dl_id x = dl_id l \<and> active x) in
        (list_ex hit (db_leases db), db \<lparr> db_leases := map (\<lambda>x. if hit x
           then x \<lparr> dl_state := s, dl_terminalAt := Some now \<rparr> else x) (db_leases db) \<rparr>))"

definition terminalize ::
  "lease_env \<Rightarrow> terminalize_input \<Rightarrow> dispatch_db \<Rightarrow> bool tx_result \<times> dispatch_db" where
  "terminalize env inp db =
     (let now = now_of env (ti_now inp) in
      if \<not> list_ex (\<lambda>u. ow_id u = ti_userId inp) (db_owners db) then (tx_ok False, db)
      else case find (\<lambda>l. dl_userId l = ti_userId inp \<and> dl_executionPlanId l = ti_executionPlanId inp \<and>
            dl_capabilityHash l = le_hash env (ti_capability inp) \<and> dl_leaseGeneration l = ti_leaseGeneration inp)
          (db_leases db) of
        None \<Rightarrow> (tx_ok False, db)
      | Some l \<Rightarrow>
        (case ti_request inp of
           tr_ambiguous phase reason \<Rightarrow>
             (case recordAmbiguity env l phase reason now db of
                None \<Rightarrow> (tx_threw, db)
              | Some (b, db1) \<Rightarrow> (tx_ok b, db1))
         | tr_completed \<Rightarrow> apfst tx_ok (settle now l ls_completed db)
         | tr_failed \<Rightarrow> apfst tx_ok (settle now l ls_failed db)))"

section \<open>Mutations of credentials\<close>

record mutation_proof =
  mp_userId :: string
  mp_provider :: string
  mp_executionPlanId :: string
  mp_capability :: string
  mp_leaseGeneration :: string
  mp_oauthTokenId :: string
  mp_now :: "int option"

definition latest :: "int list \<Rightarrow> int option" where
  "latest ts = (if ts = [] then None else Some (fold max ts (hd ts)))"

definition live :: "int \<Rightarrow> dispatch_lease \<Rightarrow> bool" where
  "live now l \<longleftrightarrow> dl_state l = ls_request_started \<and> now < dl_expiresAt l"

definition own_lease :: "lease_env \<Rightarrow> mutation_proof \<Rightarrow> int \<Rightarrow> dispatch_lease \<Rightarrow> bool" where
  "own_lease env p now l \<longleftrightarrow>
     dl_userId l = mp_userId p \<and> dl_executionPlanId l = mp_executionPlanId p \<and>
     dl_capabilityHash l = le_hash env (mp_capability p) \<and> dl_leaseGeneration l = mp_leaseGeneration p \<and>
     live now l \<and> (dl_oauthTokenId l = None \<or> dl_oauthTokenId l = Some (mp_oauthTokenId p)) \<and>
     dl_provider l = Some (mp_provider p)"

definition authorizeCredentialMutation ::
  "lease_env \<Rightarrow> mutation_proof \<Rightarrow> dispatch_db \<Rightarrow> (bool \<times> int option) tx_result \<times> dispatch_db" where
  "authorizeCredentialMutation env p db =
     (let now = now_of env (mp_now p) in
      case markOverdueLeasesAmbiguous env (Some (mp_userId p)) None now db of
        None \<Rightarrow> (tx_threw, db)
      | Some db1 \<Rightarrow>
        (case find (own_lease env p now) (db_leases db1) of
           None \<Rightarrow> (tx_ok (False, None), db1)
         | Some own \<Rightarrow>
           let conflicts = filter (\<lambda>l. dl_userId l = mp_userId p \<and> dl_id l \<noteq> dl_id own \<and>
               (dl_oauthTokenId l = Some (mp_oauthTokenId p) \<or>
                (dl_oauthTokenId l = None \<and> dl_provider l = Some (mp_provider p))) \<and> active l) (db_leases db1) in
           (tx_ok (conflicts = [], latest (map dl_expiresAt (filter (live now) conflicts))), db1)))"

definition expireCredentialDispatchLeases ::
  "lease_env \<Rightarrow> string \<Rightarrow> int \<Rightarrow> dispatch_db \<Rightarrow> unit tx_result \<times> dispatch_db" where
  "expireCredentialDispatchLeases env tokenId now db =
     (case markOverdueLeasesAmbiguous env None (Some tokenId) now db of
        None \<Rightarrow> (tx_threw, db)
      | Some db1 \<Rightarrow> (tx_ok (), db1))"

definition hasActiveCredentialDispatch ::
  "int \<Rightarrow> string option \<Rightarrow> string option \<Rightarrow> string option \<Rightarrow> string option \<Rightarrow> dispatch_db \<Rightarrow> bool \<times> int option" where
  "hasActiveCredentialDispatch now tokenId userId provider accountEmail db =
     (let owner = (case userId of Some u \<Rightarrow> Some u
          | None \<Rightarrow> (case tokenId of None \<Rightarrow> None
              | Some i \<Rightarrow> map_option ot_userId (find (\<lambda>t. ot_id t = i) (db_tokens db))));
        hits = filter (\<lambda>l. active l \<and>
          (tokenId = None \<or> dl_oauthTokenId l = tokenId \<or> (dl_oauthTokenId l = None \<and> Some (dl_userId l) = owner)) \<and>
          (userId = None \<or> Some (dl_userId l) = userId) \<and>
          (provider = None \<or> dl_provider l = provider) \<and>
          (accountEmail = None \<or> dl_accountEmail l = accountEmail \<or> dl_accountEmail l = None)) (db_leases db) in
      (hits \<noteq> [], latest (map dl_expiresAt (filter (live now) hits))))"

section \<open>The combined entry point\<close>

text \<open>
  The older entry claims and binds in one call, with three transactions in a row. Its input is that of
  a start with the provider in place; the adapter is the direct one.
\<close>

definition current_authority :: "dispatch_db \<Rightarrow> start_input \<Rightarrow> (string \<times> int) option" where
  "current_authority db inp =
     (let d = si_decisionId inp; a = si_actionId inp; p = si_executionPlanId inp;
        rows = map (\<lambda>b. (br_id b, br_updatedAt b)) (filter (\<lambda>b. br_userId b = si_userId inp \<and> br_decisionId b = d \<and>
            br_actionId b = a \<and> br_executionPlanId b = p \<and> br_inProgress b) (db_barriers db))
          @ map (\<lambda>g. (gr_decisionId g, gr_updatedAt g)) (filter (\<lambda>g. gr_decisionId g = d \<and> gr_selectedActionId g = a \<and>
            gr_sourceExecutionPlanId g = p \<and> gr_running g \<and> (d, si_userId inp) \<in> set (db_decisions db)) (db_guards db)) in
      case rows of [] \<Rightarrow> None | r # _ \<Rightarrow> Some r)"

definition with_authority :: "lease_env \<Rightarrow> dispatch_db \<Rightarrow> start_input \<Rightarrow> start_input" where
  "with_authority env db inp =
     (if si_expectedAdmissionAuthorityId inp \<noteq> [] \<and> si_expectedAdmissionAuthorityUpdatedAt inp \<noteq> [] then inp
      else case current_authority db inp of
        None \<Rightarrow> inp \<lparr> si_expectedAdmissionAuthorityId := [], si_expectedAdmissionAuthorityUpdatedAt := [] \<rparr>
      | Some (i, t) \<Rightarrow> inp \<lparr> si_expectedAdmissionAuthorityId := i,
          si_expectedAdmissionAuthorityUpdatedAt := le_iso env t \<rparr>)"

definition never_bound :: "bool tx_result \<Rightarrow> dispatch_grant tx_result" where
  "never_bound r = (case r of tx_threw \<Rightarrow> tx_threw
     | _ \<Rightarrow> tx_refused credential_unavailable ''Exact prepared OAuth credential authority was not bound.'')"

definition failed_request :: "start_input \<Rightarrow> dispatch_grant \<Rightarrow> terminalize_input" where
  "failed_request inp g = \<lparr> ti_userId = si_userId inp, ti_executionPlanId = si_executionPlanId inp,
     ti_capability = dg_capability g, ti_leaseGeneration = dg_leaseGeneration g, ti_now = None,
     ti_request = tr_failed \<rparr>"

definition credential_start ::
  "lease_env \<Rightarrow> start_input \<Rightarrow> dispatch_db \<Rightarrow> dispatch_grant tx_result \<times> dispatch_db" where
  "credential_start env inp0 db =
     (let inp = with_authority env db inp0 in
      if si_expectedAdmissionAuthorityId inp = [] \<or> si_expectedAdmissionAuthorityUpdatedAt inp = []
      then (tx_refused authority_revoked ''Execution authority is unavailable.'', db)
      else (case lease_start env (inp \<lparr> si_adapterName := ''direct'' \<rparr>) db of
          (tx_ok g, db1) \<Rightarrow>
            (case dg_credential g of
               Some c \<Rightarrow> (tx_ok g, db1)
             | None \<Rightarrow> apfst never_bound (terminalize env (failed_request inp g) db1))
        | r \<Rightarrow> r))"

end
