(* ===== verification/LeaseTheorems.thy ===== *)
theory LeaseTheorems
  imports DispatchLeases "HOL-Library.Multiset"
begin

text \<open>
  What the dispatch leases promise, over any sequence of transactions by any processes: a lease only
  moves forward, a plan is granted once, a credential of a provider serves one dispatch at a time, the
  sweep of overdue leases always succeeds and leaves evidence, and a grant means that every authority
  agreed. The jobs that delete leases take only those that are completed or failed.
\<close>

section \<open>How a lease moves\<close>

text \<open>The states a lease can reach from a state; completed and failed are final.\<close>

definition leads :: "lease_state \<Rightarrow> lease_state \<Rightarrow> bool" where
  "leads s t \<longleftrightarrow> s = t \<or> s = ls_request_started \<or> (s = ls_ambiguous \<and> t \<noteq> ls_request_started)"

definition identity_of :: "dispatch_lease \<Rightarrow> string list" where
  "identity_of l = [dl_id l, dl_userId l, dl_executionPlanId l, dl_decisionId l, dl_actionId l, dl_adapterName l,
     authority_str (dl_authorityKind l), dl_authorityId l, dl_capabilityHash l, dl_leaseGeneration l]"

definition lease_moves :: "dispatch_lease \<Rightarrow> dispatch_lease \<Rightarrow> bool" where
  "lease_moves l m \<longleftrightarrow> identity_of m = identity_of l \<and> dl_provider m = dl_provider l \<and>
     dl_expiresAt m = dl_expiresAt l \<and> dl_riskSnapshot m = dl_riskSnapshot l \<and> leads (dl_state l) (dl_state m)"

abbreviation leases_move :: "dispatch_lease list \<Rightarrow> dispatch_lease list \<Rightarrow> bool" where
  "leases_move \<equiv> list_all2 lease_moves"

lemma moves_refl [simp]: "lease_moves l l"
  by (simp add: lease_moves_def leads_def)

lemma moves_trans: "lease_moves l m \<Longrightarrow> lease_moves m n \<Longrightarrow> lease_moves l n"
  unfolding lease_moves_def leads_def by metis

lemma all_move_refl [simp]: "leases_move ls ls"
  by (simp add: list_all2_refl)

lemma all_move_trans: "leases_move ls ms \<Longrightarrow> leases_move ms ns \<Longrightarrow> leases_move ls ns"
  by (rule list_all2_trans [OF moves_trans])

lemma all_move_map: "(\<And>l. l \<in> set ls \<Longrightarrow> lease_moves l (f l)) \<Longrightarrow> leases_move ls (map f ls)"
  by (simp add: list_all2_conv_all_nth)

lemma moves_same:
  assumes "lease_moves l m"
  shows "dl_id m = dl_id l" "dl_userId m = dl_userId l" "dl_executionPlanId m = dl_executionPlanId l"
    "dl_capabilityHash m = dl_capabilityHash l" "dl_provider m = dl_provider l"
    "ambiguityObservation m ph rs = ambiguityObservation l ph rs"
  using assms by (auto simp: lease_moves_def identity_of_def ambiguityObservation_def)

lemma moves_active: "lease_moves l m \<Longrightarrow> active m \<Longrightarrow> active l"
  by (cases "dl_state l") (auto simp: lease_moves_def leads_def active_def)

lemma moves_left_start: "lease_moves l m \<Longrightarrow> dl_state l \<noteq> ls_request_started \<Longrightarrow> dl_state m \<noteq> ls_request_started"
  by (auto simp: lease_moves_def leads_def)

lemma all_move_keys:
  assumes "leases_move ls ms"
  shows "map dl_id ms = map dl_id ls" "map dl_executionPlanId ms = map dl_executionPlanId ls"
    "map dl_capabilityHash ms = map dl_capabilityHash ls"
  using assms by (induction rule: list_all2_induct) (simp_all add: moves_same)

lemma all_move_find:
  assumes "leases_move ls ms" "l \<in> set ls"
  obtains m where "m \<in> set ms" "lease_moves l m"
proof -
  obtain i where "i < length ls" "l = ls ! i" using assms(2) by (auto simp: in_set_conv_nth)
  then have "ms ! i \<in> set ms" "lease_moves l (ms ! i)"
    using assms(1) by (simp_all add: list_all2_lengthD [symmetric] list_all2_nthD)
  then show ?thesis using that by blast
qed

section \<open>The invariant\<close>

definition holds_credential :: "dispatch_lease \<Rightarrow> bool" where
  "holds_credential l \<longleftrightarrow> active l \<and> given (dl_provider l)"

definition credential_slot :: "dispatch_lease \<Rightarrow> string \<times> string option" where
  "credential_slot l = (dl_userId l, dl_provider l)"

definition slots :: "dispatch_lease list \<Rightarrow> (string \<times> string option) list" where
  "slots ls = map credential_slot (filter holds_credential ls)"

definition evidenced :: "dispatch_lease list \<Rightarrow> ambiguity_row \<Rightarrow> bool" where
  "evidenced ls a \<longleftrightarrow> (\<exists>l \<in> set ls. dl_id l = am_dispatchLeaseId a \<and> dl_state l \<noteq> ls_request_started \<and>
     ambiguityObservation l (am_phase a) (am_reasonCode a) = Some (am_observation a))"

definition fence_ok :: "dispatch_db \<Rightarrow> bool" where
  "fence_ok db \<longleftrightarrow> distinct (map dl_id (db_leases db)) \<and> distinct (map dl_executionPlanId (db_leases db)) \<and>
     distinct (map dl_capabilityHash (db_leases db)) \<and> distinct (slots (db_leases db)) \<and>
     (\<forall>a \<in> set (db_ambiguities db). evidenced (db_leases db) a) \<and>
     distinct (map am_dispatchLeaseId (db_ambiguities db))"

lemma slots_move: "leases_move ls ms \<Longrightarrow> set (slots ms) \<subseteq> set (slots ls) \<and> (distinct (slots ls) \<longrightarrow> distinct (slots ms))"
proof (induction rule: list_all2_induct)
  case (Cons l ls m ms)
  have "holds_credential m \<Longrightarrow> holds_credential l \<and> credential_slot m = credential_slot l"
    using moves_same [OF Cons(1)] moves_active [OF Cons(1)] by (simp add: holds_credential_def credential_slot_def)
  then show ?case using Cons(3) by (auto simp: slots_def)
qed (simp add: slots_def)

lemma evidenced_move: "leases_move ls ms \<Longrightarrow> evidenced ls a \<Longrightarrow> evidenced ms a"
  unfolding evidenced_def by (metis all_move_find moves_left_start moves_same(1,6))

text \<open>A transaction that moves leases and leaves the ambiguities alone keeps the invariant.\<close>

lemma fence_moves:
  assumes "fence_ok db" "leases_move (db_leases db) (db_leases db')" "db_ambiguities db' = db_ambiguities db"
  shows "fence_ok db'"
  using assms slots_move [OF assms(2)] all_move_keys [OF assms(2)] evidenced_move [OF assms(2)]
  by (auto simp: fence_ok_def)

section \<open>Recording an ambiguity\<close>

lemma observation_same:
  "ambiguityObservation (l \<lparr> dl_state := s, dl_terminalAt := t \<rparr>) ph rs = ambiguityObservation l ph rs"
  by (simp add: ambiguityObservation_def)

lemma record_cases:
  assumes "recordAmbiguity env l ph rs now db = Some (b, db')"
  shows "leases_move (db_leases db) (db_leases db')"
  using assms
  by (auto simp: recordAmbiguity_def Let_def split: option.splits if_splits
      intro!: all_move_map simp: lease_moves_def identity_of_def leads_def active_def)

lemma record_fence:
  assumes "recordAmbiguity env l ph rs now db = Some (b, db')" "fence_ok db" "x \<in> set (db_leases db)" "lease_moves l x"
  shows "fence_ok db'"
proof (cases "db' = db")
  case False
  note mv = record_cases [OF assms(1)]
  obtain observation row where r: "db_ambiguities db' = db_ambiguities db @ [row]"
    "am_dispatchLeaseId row = dl_id l" "am_phase row = ph" "am_reasonCode row = rs"
    "am_observation row = observation" "ambiguityObservation l ph rs = Some observation"
    "\<forall>a \<in> set (db_ambiguities db). am_dispatchLeaseId a \<noteq> dl_id l"
    "db_leases db' = map (\<lambda>y. if dl_id y = dl_id l \<and> active y
        then y \<lparr> dl_state := ls_ambiguous, dl_terminalAt := Some (case dl_terminalAt y of Some t \<Rightarrow> t | None \<Rightarrow> now) \<rparr>
        else y) (db_leases db)" "list_ex (\<lambda>y. dl_id y = dl_id l \<and> active y) (db_leases db)"
    using assms(1) False
    by (auto simp: recordAmbiguity_def Let_def find_None_iff split: option.splits if_splits)
  have ids: "distinct (map dl_id (db_leases db))" using assms(2) by (simp add: fence_ok_def)
  obtain y where y: "y \<in> set (db_leases db)" "dl_id y = dl_id l" "active y" using r(9) by (auto simp: list_ex_iff)
  have "dl_id x = dl_id l" using moves_same(1) [OF assms(4)] .
  then have "y = x" using ids assms(3) y(1,2) by (simp add: distinct_map inj_on_def)
  let ?y = "y \<lparr> dl_state := ls_ambiguous, dl_terminalAt := Some (case dl_terminalAt y of Some t \<Rightarrow> t | None \<Rightarrow> now) \<rparr>"
  have "?y \<in> set (db_leases db')" using y r(8) by auto
  moreover have "ambiguityObservation x ph rs = Some observation"
    using moves_same(6) [OF assms(4), of ph rs] r(6) by simp
  then have "ambiguityObservation ?y ph rs = Some observation"
    unfolding \<open>y = x\<close> by (simp only: observation_same)
  ultimately have "evidenced (db_leases db') row"
    using y(2) r(2-5) unfolding evidenced_def by (intro bexI [of _ ?y]) simp_all
  then show ?thesis
    using assms(2) slots_move [OF mv] all_move_keys [OF mv] evidenced_move [OF mv] r(1,2,7)
    by (auto simp: fence_ok_def)
qed (use assms(2) in simp)

section \<open>The sweep\<close>

lemma mset_insert_by [simp]: "mset (insert_by cmp x ys) = add_mset x (mset ys)"
  by (induction cmp x ys rule: insert_by.induct) simp_all

lemma mset_sort_by [simp]: "mset (sort_by cmp xs) = mset xs"
  by (induction xs) simp_all

lemma overdue_rows:
  assumes "fence_ok db" "l \<in> set (overdue_leases u t now db)"
  shows "l \<in> set (db_leases db)" "active l" "\<forall>a \<in> set (db_ambiguities db). am_dispatchLeaseId a \<noteq> dl_id l"
proof -
  have l: "l \<in> set (db_leases db)" "(dl_state l = ls_request_started \<and> dl_expiresAt l \<le> now) \<or>
        (dl_state l = ls_ambiguous \<and> \<not> list_ex (\<lambda>a. am_dispatchLeaseId a = dl_id l) (db_ambiguities db))"
    using assms(2) unfolding overdue_leases_def by (auto dest: in_set_takeD)
  then show "l \<in> set (db_leases db)" "active l" by (auto simp: active_def)
  show "\<forall>a \<in> set (db_ambiguities db). am_dispatchLeaseId a \<noteq> dl_id l"
  proof (intro ballI notI)
    fix a assume a: "a \<in> set (db_ambiguities db)" "am_dispatchLeaseId a = dl_id l"
    then obtain x where x: "x \<in> set (db_leases db)" "dl_id x = dl_id l" "dl_state x \<noteq> ls_request_started"
      using assms(1) by (fastforce simp: fence_ok_def evidenced_def)
    have "x = l" using assms(1) x(1,2) l(1) by (simp add: fence_ok_def distinct_map inj_on_def)
    then show False using x(3) l(2) a by (auto simp: list_ex_iff)
  qed
qed

lemma overdue_distinct:
  assumes "fence_ok db"
  shows "distinct (map dl_id (overdue_leases u t now db))"
proof -
  let ?f = "filter (\<lambda>l. ((dl_state l = ls_request_started \<and> dl_expiresAt l \<le> now) \<or>
        (dl_state l = ls_ambiguous \<and> \<not> list_ex (\<lambda>a. am_dispatchLeaseId a = dl_id l) (db_ambiguities db))) \<and>
       (u = None \<or> Some (dl_userId l) = u) \<and> (t = None \<or> dl_oauthTokenId l = t)) (db_leases db)"
  have "distinct (map dl_id ?f)" using assms by (simp add: fence_ok_def distinct_map_filter)
  moreover have "mset (map dl_id (sort_by by_expiry ?f)) = mset (map dl_id ?f)"
    by (simp only: mset_map mset_sort_by)
  ultimately have "distinct (map dl_id (sort_by by_expiry ?f))"
    by (rule mset_eq_imp_distinct_iff [THEN iffD2, rotated])
  then show ?thesis unfolding overdue_leases_def take_map [symmetric] by (rule distinct_take)
qed

text \<open>One step of the sweep: it succeeds, marks the lease, and does not touch the others.\<close>

lemma record_overdue:
  assumes "l \<in> set (db_leases db)" "active l" "\<forall>a \<in> set (db_ambiguities db). am_dispatchLeaseId a \<noteq> dl_id l"
    and "isValidAmbiguityPair ph rs"
  shows "\<exists>db'. recordAmbiguity env l ph rs now db = Some (True, db') \<and>
    (\<forall>x \<in> set (db_leases db). dl_id x \<noteq> dl_id l \<longrightarrow> x \<in> set (db_leases db')) \<and>
    (\<forall>a \<in> set (db_ambiguities db'). a \<in> set (db_ambiguities db) \<or> am_dispatchLeaseId a = dl_id l) \<and>
    (\<exists>a \<in> set (db_ambiguities db'). am_dispatchLeaseId a = dl_id l)"
proof -
  have none: "find (\<lambda>a. am_dispatchLeaseId a = dl_id l) (db_ambiguities db) = None"
    using assms(3) by (simp add: find_None_iff)
  have ex: "list_ex (\<lambda>x. dl_id x = dl_id l \<and> active x) (db_leases db)" using assms(1,2) by (auto simp: list_ex_iff)
  obtain observation where ob: "ambiguityObservation l ph rs = Some observation"
    using assms(4) by (simp add: ambiguityObservation_def)
  show ?thesis unfolding recordAmbiguity_def ob none using ex assms(2) by (auto simp: Let_def)
qed

lemma mark_succeeds:
  assumes "\<forall>l \<in> set ls. l \<in> set (db_leases db) \<and> active l \<and> (\<forall>a \<in> set (db_ambiguities db). am_dispatchLeaseId a \<noteq> dl_id l)"
    and "distinct (map dl_id ls)" "fence_ok db"
  shows "\<exists>db'. mark_each env now ls db = Some db' \<and> fence_ok db' \<and> leases_move (db_leases db) (db_leases db') \<and>
    (\<forall>l \<in> set ls. \<exists>a \<in> set (db_ambiguities db'). am_dispatchLeaseId a = dl_id l) \<and>
    set (db_ambiguities db) \<subseteq> set (db_ambiguities db')"
  using assms
proof (induction ls arbitrary: db)
  case (Cons l ls)
  let ?ph = "if dl_state l = ls_ambiguous then ph_lease_recovery else ph_lease_expiry"
  let ?rs = "if dl_state l = ls_ambiguous then rs_legacy_ambiguous else rs_lease_expired"
  have "isValidAmbiguityPair ?ph ?rs" by (simp add: isValidAmbiguityPair_def)
  with Cons.prems(1) obtain db1 where r: "recordAmbiguity env l ?ph ?rs now db = Some (True, db1)"
    "\<forall>x \<in> set (db_leases db). dl_id x \<noteq> dl_id l \<longrightarrow> x \<in> set (db_leases db1)"
    "\<forall>a \<in> set (db_ambiguities db1). a \<in> set (db_ambiguities db) \<or> am_dispatchLeaseId a = dl_id l"
    "\<exists>a \<in> set (db_ambiguities db1). am_dispatchLeaseId a = dl_id l"
    using record_overdue [of l db ?ph ?rs env now] by auto
  have "fence_ok db1" by (rule record_fence [OF r(1) Cons.prems(3) _ moves_refl]) (use Cons.prems(1) in simp)
  moreover have "\<forall>x \<in> set ls. x \<in> set (db_leases db1) \<and> active x \<and>
      (\<forall>a \<in> set (db_ambiguities db1). am_dispatchLeaseId a \<noteq> dl_id x)"
    using Cons.prems(1,2) r(2,3) by (auto simp: image_iff)
  ultimately obtain db' where d: "mark_each env now ls db1 = Some db'" "fence_ok db'"
    "leases_move (db_leases db1) (db_leases db')"
    "\<forall>l \<in> set ls. \<exists>a \<in> set (db_ambiguities db'). am_dispatchLeaseId a = dl_id l"
    "set (db_ambiguities db1) \<subseteq> set (db_ambiguities db')"
    using Cons.IH [of db1] Cons.prems(2) by auto
  have "set (db_ambiguities db) \<subseteq> set (db_ambiguities db1)"
    using r(1) by (auto simp: recordAmbiguity_def Let_def split: option.splits if_splits)
  moreover have "mark_each env now (l # ls) db = Some db'" using r(1) d(1) by (simp add: Let_def)
  ultimately show ?case using d r(4) all_move_trans [OF record_cases [OF r(1)] d(3)] by auto
qed simp

lemma sweep_succeeds:
  assumes "fence_ok db"
  obtains db' where "markOverdueLeasesAmbiguous env u t now db = Some db'" "fence_ok db'"
    "leases_move (db_leases db) (db_leases db')"
    "\<forall>l \<in> set (overdue_leases u t now db). \<exists>a \<in> set (db_ambiguities db'). am_dispatchLeaseId a = dl_id l"
proof -
  have "\<forall>l \<in> set (overdue_leases u t now db). l \<in> set (db_leases db) \<and> active l \<and>
      (\<forall>a \<in> set (db_ambiguities db). am_dispatchLeaseId a \<noteq> dl_id l)"
    using overdue_rows [OF assms] by blast
  then show ?thesis
    using mark_succeeds [OF _ overdue_distinct [OF assms] assms] that
    unfolding markOverdueLeasesAmbiguous_def by blast
qed

section \<open>The transactions\<close>

text \<open>What a transaction may do to the fence: leases move, and at most one lease of a new plan is added.\<close>

definition fence_step :: "dispatch_db \<Rightarrow> dispatch_lease list \<Rightarrow> dispatch_db \<Rightarrow> bool" where
  "fence_step db added db' \<longleftrightarrow> fence_ok db' \<and>
     (\<exists>ls. db_leases db' = ls @ added \<and> leases_move (db_leases db) ls)"

lemma step_refl: "fence_ok db \<Longrightarrow> fence_step db [] db"
  by (auto simp: fence_step_def)

lemma step_moves:
  assumes "fence_ok db" "leases_move (db_leases db) (db_leases db')" "db_ambiguities db' = db_ambiguities db"
  shows "fence_step db [] db'"
  using fence_moves [OF assms] assms(2) by (simp add: fence_step_def)

lemma step_after:
  assumes "leases_move (db_leases db) (db_leases db1)" "fence_step db1 added db'"
  shows "fence_step db added db'"
  using assms all_move_trans unfolding fence_step_def by blast

lemma token_provider: "token_of db i u pr rv email = Some t \<Longrightarrow> ot_provider t = pr"
proof -
  assume "token_of db i u pr rv email = Some t"
  then have "t \<in> set (sort_key (\<lambda>t. - ot_updatedAt t) (filter (\<lambda>t. ot_id t = i \<and> ot_userId t = u \<and>
      ot_provider t = pr \<and> ot_credentialRevision t = rv \<and>
      (email = None \<or> Some (ot_accountEmail t) = email)) (db_tokens db)))"
    unfolding token_of_def by (auto split: list.splits simp del: set_sort)
  then show ?thesis by simp
qed

lemma insert_fence:
  assumes "fence_ok db" "insert_lease env l token db = (tx_ok g, db')" "holds_credential l \<longrightarrow> credential_slot l \<notin> set (slots (db_leases db))"
  shows "fence_step db [l] db'"
proof -
  have d: "db' = db \<lparr> db_leases := db_leases db @ [l] \<rparr>" "\<not> lease_conflict db l"
    using assms(2) by (auto simp: insert_lease_def split: if_splits)
  have "evidenced (db_leases db) a \<Longrightarrow> evidenced (db_leases db @ [l]) a" for a by (auto simp: evidenced_def)
  then have "fence_ok db'"
    using assms(1,3) d by (auto simp: fence_ok_def lease_conflict_def list_ex_iff slots_def)
  then show ?thesis by (auto simp: fence_step_def d(1))
qed

lemma provider_free:
  assumes "\<not> provider_busy db u pr" "given pr"
  shows "(u, pr) \<notin> set (slots (db_leases db))"
  using assms by (auto simp: provider_busy_def slots_def credential_slot_def holds_credential_def list_ex_iff given_def
      split: option.splits)

lemma start_swept_step:
  assumes "fence_ok db" "start_swept env inp now db = (res, db')"
  shows "res = tx_threw \<or> (db' = db \<and> (\<forall>g. res \<noteq> tx_ok g)) \<or>
    (\<exists>g l. res = tx_ok g \<and> fence_step db [l] db' \<and> dl_executionPlanId l = si_executionPlanId inp \<and>
      dl_capabilityHash l = le_hash env (dg_capability g) \<and> dl_leaseGeneration l = dg_leaseGeneration g \<and>
      dl_userId l = si_userId inp \<and> dl_state l = ls_request_started)"
proof (cases "\<exists>g. res = tx_ok g")
  case True
  then obtain g where g: "res = tx_ok g" by blast
  obtain a rows token vg where r: "authority_rows db inp = a # rows" "prepared_credential db inp now = Inr (token, vg)"
    "insert_lease env (new_lease env inp a token vg now) token db = (tx_ok g, db')"
    using assms(2) g by (auto simp: start_swept_def split: if_splits option.splits list.splits sum.splits)
  let ?l = "new_lease env inp a token vg now"
  have "given (si_credentialProvider inp) \<longrightarrow> \<not> provider_busy db (si_userId inp) (si_credentialProvider inp)"
    using r(2) by (auto simp: prepared_credential_def split: if_splits)
  then have "holds_credential ?l \<longrightarrow> credential_slot ?l \<notin> set (slots (db_leases db))"
    using provider_free by (auto simp: holds_credential_def credential_slot_def new_lease_def)
  then have "fence_step db [?l] db'" by (rule insert_fence [OF assms(1) r(3)])
  moreover have "dg_capability g = le_capability env" "dg_leaseGeneration g = dl_leaseGeneration ?l"
    using r(3) by (auto simp: insert_lease_def split: if_splits)
  ultimately show ?thesis using g by (auto simp: new_lease_def)
next
  case False
  then show ?thesis using assms(2)
    by (auto simp: start_swept_def insert_lease_def split: if_splits option.splits list.splits sum.splits)
qed

lemma lease_start_step:
  assumes "fence_ok db" "lease_start env inp db = (res, db')"
  shows "((\<forall>g. res \<noteq> tx_ok g) \<and> fence_step db [] db') \<or>
    (\<exists>g l. res = tx_ok g \<and> fence_step db [l] db' \<and> dl_executionPlanId l = si_executionPlanId inp \<and>
      dl_capabilityHash l = le_hash env (dg_capability g) \<and> dl_leaseGeneration l = dg_leaseGeneration g \<and>
      dl_userId l = si_userId inp \<and> dl_state l = ls_request_started)"
proof (cases "start_guard inp")
  case None
  let ?now = "now_of env (si_now inp)"
  obtain db1 where sw: "markOverdueLeasesAmbiguous env (Some (si_userId inp)) None ?now db = Some db1" "fence_ok db1"
    "leases_move (db_leases db) (db_leases db1)"
    using sweep_succeeds [OF assms(1), of env "Some (si_userId inp)" None ?now] by blast
  obtain res1 db2 where st: "start_swept env inp ?now db1 = (res1, db2)" by fastforce
  consider "res1 = tx_threw" | "db2 = db1 \<and> (\<forall>g. res1 \<noteq> tx_ok g)" "res1 \<noteq> tx_threw"
    | g l where "res1 = tx_ok g" "fence_step db1 [l] db2" "dl_executionPlanId l = si_executionPlanId inp"
      "dl_capabilityHash l = le_hash env (dg_capability g)" "dl_leaseGeneration l = dg_leaseGeneration g"
      "dl_userId l = si_userId inp" "dl_state l = ls_request_started"
    using start_swept_step [OF sw(2) st] by blast
  then show ?thesis
  proof cases
    case 1
    then have "res = tx_threw" "db' = db" using assms(2) None sw(1) st by (auto simp: lease_start_def Let_def)
    then show ?thesis using step_refl [OF assms(1)] by simp
  next
    case 2
    then have "res = res1" "db' = db1" using assms(2) None sw(1) st
      by (auto simp: lease_start_def Let_def split: tx_result.splits)
    then show ?thesis using 2 step_after [OF sw(3) step_refl [OF sw(2)]] by simp
  next
    case (3 g l)
    then have "res = tx_ok g" "db' = db2" using assms(2) None sw(1) st by (auto simp: lease_start_def Let_def)
    then show ?thesis using 3 step_after [OF sw(3) 3(2)] by blast
  qed
next
  case (Some why)
  then show ?thesis using assms step_refl by (auto simp: lease_start_def)
qed

lemma bind_swept_step:
  assumes "fence_ok db" "bind_swept env inp now db = (res, db')"
  shows "fence_step db [] db'"
proof (cases "db' = db")
  case False
  then obtain t vg where t: "token_of db (bi_expectedOAuthTokenId inp) (bi_userId inp) (bi_provider inp)
      (bi_expectedCredentialRevision inp) (bi_accountEmail inp) = Some t"
    "db' = db \<lparr> db_leases := map (\<lambda>x. if bind_key env inp x \<and> dl_oauthTokenId x = None then bind_lease t vg x else x)
      (db_leases db) \<rparr>"
    "find (bind_key env inp) (db_leases db) \<noteq> None" "dl_provider (the (find (bind_key env inp) (db_leases db))) = Some (bi_provider inp)"
    using assms(2) unfolding bind_swept_def by (auto simp: Let_def split: option.splits if_splits)
  obtain l where l: "find (bind_key env inp) (db_leases db) = Some l" using t(3) by blast
  then have l': "l \<in> set (db_leases db)" "dl_executionPlanId l = bi_executionPlanId inp"
    "dl_provider l = Some (bi_provider inp)"
    using find_Some_in [OF l] t(4) unfolding l by (simp_all add: bind_key_def)
  have "lease_moves x (if bind_key env inp x \<and> dl_oauthTokenId x = None then bind_lease t vg x else x)"
    if x: "x \<in> set (db_leases db)" for x
  proof (cases "bind_key env inp x")
    case True
    then have "dl_executionPlanId x = dl_executionPlanId l" using l'(2) by (simp add: bind_key_def)
    then have "x = l" using assms(1) x l'(1) by (simp add: fence_ok_def distinct_map inj_on_def)
    then show ?thesis using l'(3) token_provider [OF t(1)]
      by (simp add: lease_moves_def identity_of_def bind_lease_def leads_def)
  qed simp
  then have "leases_move (db_leases db) (db_leases db')" unfolding t(2) by (auto intro: all_move_map)
  then show ?thesis using assms(1) t(2) by (intro step_moves) auto
qed (use assms(1) step_refl in simp)

lemma bind_step:
  assumes "fence_ok db" "bindCredential env inp db = (res, db')"
  shows "fence_step db [] db'"
proof -
  let ?now = "now_of env (bi_now inp)"
  obtain db1 where sw: "markOverdueLeasesAmbiguous env (Some (bi_userId inp)) None ?now db = Some db1" "fence_ok db1"
    "leases_move (db_leases db) (db_leases db1)"
    using sweep_succeeds [OF assms(1), of env "Some (bi_userId inp)" None ?now] by blast
  show ?thesis
    using assms(2) sw(1) step_refl [OF assms(1)] step_after [OF sw(3) bind_swept_step [OF sw(2)]]
    by (auto simp: bindCredential_def Let_def split: if_splits)
qed

lemma settle_moves:
  assumes "s = ls_completed \<or> s = ls_failed"
  shows "leases_move ls (map (\<lambda>x. if dl_id x = i \<and> active x then x \<lparr> dl_state := s, dl_terminalAt := t \<rparr> else x) ls)"
  using assms by (intro all_move_map) (auto simp: lease_moves_def identity_of_def leads_def active_def)

definition settled_as :: "terminal_request \<Rightarrow> lease_state" where
  "settled_as r = (case r of tr_completed \<Rightarrow> ls_completed | tr_failed \<Rightarrow> ls_failed | _ \<Rightarrow> ls_ambiguous)"

lemma settle_cases:
  assumes "snd (settle now l s db) = db'"
  shows "db' = db \<or> db' = db \<lparr> db_leases := map (\<lambda>x. if dl_id x = dl_id l \<and> active x
        then x \<lparr> dl_state := s, dl_terminalAt := Some now \<rparr> else x) (db_leases db) \<rparr>"
  using assms by (auto simp: settle_def Let_def split: if_splits)

lemma terminalize_cases:
  assumes "terminalize env inp db = (res, db')"
  obtains "db' = db"
  | l ph rs b where "l \<in> set (db_leases db)" "recordAmbiguity env l ph rs (now_of env (ti_now inp)) db = Some (b, db')"
      "ti_request inp = tr_ambiguous ph rs" "res = tx_ok b"
  | l s where "s = ls_completed \<or> s = ls_failed" "s = settled_as (ti_request inp)" "l \<in> set (db_leases db)"
      "db' = db \<lparr> db_leases := map (\<lambda>x. if dl_id x = dl_id l \<and> active x
        then x \<lparr> dl_state := s, dl_terminalAt := Some (now_of env (ti_now inp)) \<rparr> else x) (db_leases db) \<rparr>"
proof (cases "find (\<lambda>l. dl_userId l = ti_userId inp \<and> dl_executionPlanId l = ti_executionPlanId inp \<and>
            dl_capabilityHash l = le_hash env (ti_capability inp) \<and> dl_leaseGeneration l = ti_leaseGeneration inp)
          (db_leases db)")
  case None
  then show ?thesis using assms that(1) by (auto simp: terminalize_def Let_def split: if_splits)
next
  case (Some l)
  note l = conjunct1 [OF find_Some_in [OF Some]]
  let ?now = "now_of env (ti_now inp)"
  note t = assms [unfolded terminalize_def Let_def Some option.case]
  show ?thesis
  proof (cases "list_ex (\<lambda>u. ow_id u = ti_userId inp) (db_owners db)")
    case True
    show ?thesis
    proof (cases "ti_request inp")
      case tr_completed
      then have "snd (settle ?now l ls_completed db) = db'" using t True
        by (auto simp: apfst_def map_prod_def split: prod.splits)
      note c = settle_cases [OF this]
      from c show ?thesis
      proof
        assume "db' = db \<lparr> db_leases := map (\<lambda>x. if dl_id x = dl_id l \<and> active x
          then x \<lparr> dl_state := ls_completed, dl_terminalAt := Some ?now \<rparr> else x) (db_leases db) \<rparr>"
        then show ?thesis by (rule that(3) [of ls_completed l, OF _ _ l, rotated 2]) (simp_all add: settled_as_def tr_completed)
      qed (rule that(1))
    next
      case tr_failed
      then have "snd (settle ?now l ls_failed db) = db'" using t True
        by (auto simp: apfst_def map_prod_def split: prod.splits)
      note c = settle_cases [OF this]
      from c show ?thesis
      proof
        assume "db' = db \<lparr> db_leases := map (\<lambda>x. if dl_id x = dl_id l \<and> active x
          then x \<lparr> dl_state := ls_failed, dl_terminalAt := Some ?now \<rparr> else x) (db_leases db) \<rparr>"
        then show ?thesis by (rule that(3) [of ls_failed l, OF _ _ l, rotated 2]) (simp_all add: settled_as_def tr_failed)
      qed (rule that(1))
    next
      case (tr_ambiguous ph rs)
      then show ?thesis using t True that(1) that(2) [OF l] by (auto split: option.splits)
    qed
  qed (use t that(1) in simp)
qed

lemma terminalize_step:
  assumes "fence_ok db" "terminalize env inp db = (res, db')"
  shows "fence_step db [] db'"
  using assms(2)
proof (cases rule: terminalize_cases)
  case 1
  then show ?thesis using step_refl assms(1) by simp
next
  case (2 l ph rs b)
  then show ?thesis using record_fence [OF 2(2) assms(1) 2(1) moves_refl] record_cases [OF 2(2)]
    by (simp add: fence_step_def)
next
  case (3 l s)
  then show ?thesis using settle_moves [OF 3(1)] by (intro step_moves [OF assms(1)]) simp_all
qed

lemma authorize_step:
  assumes "fence_ok db" "authorizeCredentialMutation env p db = (res, db')"
  shows "fence_step db [] db'"
proof -
  obtain db1 where sw: "markOverdueLeasesAmbiguous env (Some (mp_userId p)) None (now_of env (mp_now p)) db = Some db1"
    "fence_ok db1" "leases_move (db_leases db) (db_leases db1)"
    using sweep_succeeds [OF assms(1), of env "Some (mp_userId p)" None "now_of env (mp_now p)"] by blast
  have "db' = db1" using assms(2) sw(1) by (auto simp: authorizeCredentialMutation_def Let_def split: option.splits)
  then show ?thesis using step_after [OF sw(3) step_refl [OF sw(2)]] by simp
qed

lemma expire_step:
  assumes "fence_ok db" "expireCredentialDispatchLeases env i now db = (res, db')"
  shows "fence_step db [] db'"
proof -
  obtain db1 where sw: "markOverdueLeasesAmbiguous env None (Some i) now db = Some db1"
    "fence_ok db1" "leases_move (db_leases db) (db_leases db1)"
    using sweep_succeeds [OF assms(1), of env None "Some i" now] by blast
  have "db' = db1" using assms(2) sw(1) by (auto simp: expireCredentialDispatchLeases_def)
  then show ?thesis using step_after [OF sw(3) step_refl [OF sw(2)]] by simp
qed

section \<open>Any sequence of transactions\<close>

definition consumes :: "dispatch_db \<Rightarrow> string list \<Rightarrow> dispatch_db \<Rightarrow> bool" where
  "consumes db plans db' \<longleftrightarrow> fence_ok db' \<and>
     (\<exists>ls ms. db_leases db' = ls @ ms \<and> leases_move (db_leases db) ls \<and> map dl_executionPlanId ms = plans)"

lemma step_consumes: "fence_step db added db' \<Longrightarrow> consumes db (map dl_executionPlanId added) db'"
  by (auto simp: fence_step_def consumes_def)

lemma consumes_trans:
  assumes "consumes db ps db1" "consumes db1 qs db2"
  shows "consumes db (ps @ qs) db2"
proof -
  obtain ls ms where a: "db_leases db1 = ls @ ms" "leases_move (db_leases db) ls" "map dl_executionPlanId ms = ps"
    using assms(1) by (auto simp: consumes_def)
  obtain ls' ms' where b: "fence_ok db2" "db_leases db2 = ls' @ ms'" "leases_move (db_leases db1) ls'"
    "map dl_executionPlanId ms' = qs" using assms(2) by (auto simp: consumes_def)
  obtain xs ys where c: "ls' = xs @ ys" "leases_move ls xs" "leases_move ms ys"
    using b(3) unfolding a(1) list_all2_append1 by blast
  have "leases_move (db_leases db) xs" by (rule all_move_trans [OF a(2) c(2)])
  moreover have "map dl_executionPlanId (ys @ ms') = ps @ qs" using all_move_keys(2) [OF c(3)] a(3) b(4) by simp
  moreover have "db_leases db2 = xs @ (ys @ ms')" using b(2) c(1) by simp
  ultimately show ?thesis using b(1) unfolding consumes_def by blast
qed

lemma consumes_plans:
  assumes "consumes db ps db'"
  shows "map dl_executionPlanId (db_leases db') = map dl_executionPlanId (db_leases db) @ ps" "fence_ok db'"
  using assms all_move_keys(2) by (auto simp: consumes_def)

lemma credential_start_consumes:
  assumes "fence_ok db" "credential_start env inp db = (res, db')"
  shows "((\<forall>g. res \<noteq> tx_ok g) \<and> (\<exists>ps. consumes db ps db')) \<or>
    (\<exists>g. res = tx_ok g \<and> consumes db [si_executionPlanId inp] db')"
proof -
  let ?inp = "with_authority env db inp"
  have plan: "si_executionPlanId ?inp = si_executionPlanId inp"
    by (simp add: with_authority_def split: option.splits)
  show ?thesis
  proof (cases "si_expectedAdmissionAuthorityId ?inp = [] \<or> si_expectedAdmissionAuthorityUpdatedAt ?inp = []")
    case True
    then show ?thesis using assms step_consumes [OF step_refl [OF assms(1)]] by (auto simp: credential_start_def Let_def)
  next
    case False
    obtain res1 db1 where st: "lease_start env (?inp \<lparr> si_adapterName := ''direct'' \<rparr>) db = (res1, db1)" by fastforce
    have eq: "(res, db') = (case (res1, db1) of
          (tx_ok g, db1) \<Rightarrow> (case dg_credential g of
               Some c \<Rightarrow> (tx_ok g, db1)
             | None \<Rightarrow> apfst never_bound (terminalize env (failed_request ?inp g) db1))
        | r \<Rightarrow> r)"
      using assms(2) False by (simp add: credential_start_def Let_def st)
    consider "\<forall>g. res1 \<noteq> tx_ok g" "consumes db [] db1"
      | g where "res1 = tx_ok g" "consumes db [si_executionPlanId inp] db1"
      using lease_start_step [OF assms(1) st] step_consumes plan by fastforce
    then show ?thesis
    proof cases
      case 1
      then have "res = res1" "db' = db1" using eq by (cases res1; simp)+
      then show ?thesis using 1 by blast
    next
      case (2 g)
      show ?thesis
      proof (cases "dg_credential g")
        case None
        obtain r2 db2 where t: "terminalize env (failed_request ?inp g) db1 = (r2, db2)" by fastforce
        then have e: "consumes db1 [] db2"
          using step_consumes [OF terminalize_step [OF consumes_plans(2) [OF 2(2)] t]] by simp
        have "consumes db [si_executionPlanId inp] db2" using consumes_trans [OF 2(2) e] by simp
        moreover have "db' = db2" "\<forall>g. res \<noteq> tx_ok g" using eq 2(1) None t
          by (auto simp: never_bound_def split: tx_result.splits)
        ultimately show ?thesis by blast
      next
        case (Some c)
        then have "res = tx_ok g" "db' = db1" using eq 2(1) by simp_all
        then show ?thesis using 2(2) by blast
      qed
    qed
  qed
qed

text \<open>
  The transactions of all processes in the order in which they commit; \<open>Tx_elsewhere\<close> is any change of
  the tables of authority by others. The jobs that delete leases, with their user or with obsolete
  decisions, are not among them; they are added below.
\<close>

datatype lease_tx =
    Tx_start lease_env start_input
  | Tx_bind lease_env bind_input
  | Tx_terminalize lease_env terminalize_input
  | Tx_authorize lease_env mutation_proof
  | Tx_expire lease_env string int
  | Tx_credential_start lease_env start_input
  | Tx_elsewhere dispatch_db

fun apply_tx :: "dispatch_db \<Rightarrow> lease_tx \<Rightarrow> dispatch_db" where
  "apply_tx db (Tx_start env inp) = snd (lease_start env inp db)"
| "apply_tx db (Tx_bind env inp) = snd (bindCredential env inp db)"
| "apply_tx db (Tx_terminalize env inp) = snd (terminalize env inp db)"
| "apply_tx db (Tx_authorize env p) = snd (authorizeCredentialMutation env p db)"
| "apply_tx db (Tx_expire env i now) = snd (expireCredentialDispatchLeases env i now db)"
| "apply_tx db (Tx_credential_start env inp) = snd (credential_start env inp db)"
| "apply_tx db (Tx_elsewhere other) = other \<lparr> db_leases := db_leases db, db_ambiguities := db_ambiguities db,
     db_explanations := db_explanations db \<rparr>"

definition granted_plan :: "start_input \<Rightarrow> dispatch_grant tx_result \<Rightarrow> string list" where
  "granted_plan inp res = (case res of tx_ok g \<Rightarrow> [si_executionPlanId inp] | _ \<Rightarrow> [])"

fun grants :: "dispatch_db \<Rightarrow> lease_tx \<Rightarrow> string list" where
  "grants db (Tx_start env inp) = granted_plan inp (fst (lease_start env inp db))"
| "grants db (Tx_credential_start env inp) = granted_plan inp (fst (credential_start env inp db))"
| "grants db _ = []"

fun all_grants :: "dispatch_db \<Rightarrow> lease_tx list \<Rightarrow> string list" where
  "all_grants db [] = []"
| "all_grants db (t # ts) = grants db t @ all_grants (apply_tx db t) ts"

definition empty_db :: dispatch_db where
  "empty_db = \<lparr> db_owners = [], db_policyRevision = None, db_servers = [], db_optIns = [], db_plans = [],
     db_decisions = [], db_barriers = [], db_guards = [], db_vaults = [], db_tokens = [], db_leases = [],
     db_ambiguities = [], db_explanations = [] \<rparr>"

lemma granted_none: "\<forall>g. res \<noteq> tx_ok g \<Longrightarrow> granted_plan inp res = []"
  by (cases res) (simp_all add: granted_plan_def)

lemma tx_consumes:
  assumes "fence_ok db"
  shows "\<exists>ps. consumes db ps (apply_tx db t) \<and> (grants db t = [] \<or> grants db t = ps)"
proof (cases t)
  case (Tx_start env inp)
  obtain res db' where s: "lease_start env inp db = (res, db')" by fastforce
  from lease_start_step [OF assms s] show ?thesis
  proof (elim disjE conjE exE)
    assume "\<forall>g. res \<noteq> tx_ok g" "fence_step db [] db'"
    then show ?thesis using step_consumes [of db "[]" db'] granted_none by (auto simp: Tx_start s)
  next
    fix g l assume "res = tx_ok g" "fence_step db [l] db'" "dl_executionPlanId l = si_executionPlanId inp"
    then show ?thesis using step_consumes [of db "[l]" db'] by (auto simp: Tx_start s granted_plan_def)
  qed
next
  case (Tx_credential_start env inp)
  obtain res db' where s: "credential_start env inp db = (res, db')" by fastforce
  show ?thesis using credential_start_consumes [OF assms s] granted_none
    by (auto simp: Tx_credential_start s granted_plan_def)
next
  case (Tx_bind env inp)
  then show ?thesis using step_consumes [OF bind_step [OF assms prod.collapse [symmetric]]] by auto
next
  case (Tx_terminalize env inp)
  then show ?thesis using step_consumes [OF terminalize_step [OF assms prod.collapse [symmetric]]] by auto
next
  case (Tx_authorize env p)
  then show ?thesis using step_consumes [OF authorize_step [OF assms prod.collapse [symmetric]]] by auto
next
  case (Tx_expire env i now)
  then show ?thesis using step_consumes [OF expire_step [OF assms prod.collapse [symmetric]]] by auto
next
  case (Tx_elsewhere other)
  have "fence_step db [] (apply_tx db t)"
    using step_moves [OF assms, of "apply_tx db t"] by (simp add: Tx_elsewhere)
  then show ?thesis using step_consumes by (auto simp: Tx_elsewhere)
qed

interpretation fence: initialised_machine apply_tx fence_ok empty_db
proof unfold_locales
  fix db t
  show "fence_ok db \<Longrightarrow> fence_ok (apply_tx db t)" using tx_consumes consumes_plans(2) by blast
qed (simp add: fence_ok_def empty_db_def slots_def)

text \<open>
  at most one dispatch per plan: whatever transactions all processes run in whatever order, no two
  of them are granted the same execution plan.
\<close>

theorem one_grant_per_plan: "distinct (all_grants empty_db txs)"
proof -
  have "distinct (all_grants db txs) \<and> set (all_grants db txs) \<inter> set (map dl_executionPlanId (db_leases db)) = {}"
    if "fence_ok db" for db
    using that
  proof (induction txs arbitrary: db)
    case (Cons t ts)
    obtain ps where c: "consumes db ps (apply_tx db t)" "grants db t = [] \<or> grants db t = ps"
      using tx_consumes [OF Cons.prems] by blast
    note p = consumes_plans [OF c(1)]
    have "distinct (map dl_executionPlanId (db_leases db) @ ps)"
      using p unfolding fence_ok_def by metis
    then have g: "distinct (grants db t)" "set (grants db t) \<inter> set (map dl_executionPlanId (db_leases db)) = {}"
      "set (grants db t) \<subseteq> set (map dl_executionPlanId (db_leases (apply_tx db t)))"
      using c(2) unfolding p(1) by auto
    moreover have "set (map dl_executionPlanId (db_leases db)) \<subseteq> set (map dl_executionPlanId (db_leases (apply_tx db t)))"
      unfolding p(1) by simp
    ultimately show ?case using Cons.IH [OF p(2)] by (simp only: all_grants.simps distinct_append set_append) blast
  qed simp
  moreover have "fence_ok empty_db" using fence.init_inv .
  ultimately show ?thesis by blast
qed

text \<open>
  C7: a credential serves one dispatch at a time: of the leases that are not settled, no two belong to
  the same user and the same credential provider, whatever transactions ran before.
\<close>

theorem one_dispatch_per_credential:
  "distinct (map (\<lambda>l. (dl_userId l, dl_provider l)) (filter (\<lambda>l. active l \<and> given (dl_provider l))
     (db_leases (run apply_tx empty_db txs))))"
  using fence.reachable_inv [of txs]
  by (simp add: fence_ok_def slots_def credential_slot_def [abs_def] holds_credential_def [abs_def])

lemma run_consumes: "fence_ok db \<Longrightarrow> \<exists>ps. consumes db ps (run apply_tx db txs)"
proof (induction txs arbitrary: db)
  case Nil
  then show ?case using step_consumes [OF step_refl [OF Nil]] by auto
next
  case (Cons t ts)
  obtain ps where c: "consumes db ps (apply_tx db t)" using tx_consumes [OF Cons.prems] by blast
  obtain qs where "consumes (apply_tx db t) qs (run apply_tx (apply_tx db t) ts)"
    using Cons.IH [OF consumes_plans(2) [OF c]] by blast
  then show ?case using consumes_trans [OF c] by auto
qed

section \<open>Deletion of a user\<close>

text \<open>
  The two jobs outside the repository of leases that delete leases: the deletion of a user
  (user-purge-repository.ts; \<open>delete\<close> of user-repository.ts deletes the same rows) and the removal of
  obsolete seed decisions (legacy-decision-cleanup.ts), whose leases belong to the user of the decisions
  by the foreign key of the table. Both refuse while an execution of the user is active. How many rows
  of the other tables stand for an active execution, and what the job leaves in the tables without
  leases, are arguments. The ambiguities of a deleted lease go with it (ON DELETE CASCADE).
\<close>

definition assertNoActiveExecutions :: "nat \<Rightarrow> string \<Rightarrow> dispatch_db \<Rightarrow> bool" where
  "assertNoActiveExecutions others u db \<longleftrightarrow>
     others + length (filter (\<lambda>l. dl_userId l = u \<and> active l) (db_leases db)) = 0"

definition without_leases :: "(dispatch_lease \<Rightarrow> bool) \<Rightarrow> dispatch_db \<Rightarrow> dispatch_db \<Rightarrow> dispatch_db" where
  "without_leases doomed db rest =
     (let gone = map dl_id (filter doomed (db_leases db)) in
      rest \<lparr> db_leases := filter (\<lambda>l. \<not> doomed l) (db_leases db),
        db_ambiguities := filter (\<lambda>a. am_dispatchLeaseId a \<notin> set gone) (db_ambiguities db) \<rparr>)"

text \<open>The result is None when the transaction throws.\<close>

definition purgeUser :: "nat \<Rightarrow> string \<Rightarrow> dispatch_db \<Rightarrow> dispatch_db \<Rightarrow> dispatch_db option" where
  "purgeUser others u rest db =
     (if u \<notin> set (map ow_id (db_owners db)) then Some db
      else if \<not> assertNoActiveExecutions others u db then None
      else Some (without_leases (\<lambda>l. dl_userId l = u) db rest))"

definition cleanupLegacyFlatDecisions ::
  "nat \<Rightarrow> string \<Rightarrow> string list \<Rightarrow> dispatch_db \<Rightarrow> dispatch_db \<Rightarrow> dispatch_db option" where
  "cleanupLegacyFlatDecisions others u flatPlans rest db =
     (if \<not> assertNoActiveExecutions others u db then None
      else Some (without_leases (\<lambda>l. dl_userId l = u \<and> dl_executionPlanId l \<in> set flatPlans) db rest))"

datatype fence_event =
    Lease_transaction lease_tx
  | Purge_user nat string dispatch_db
  | Cleanup_decisions nat string "string list" dispatch_db

definition committed :: "dispatch_db \<Rightarrow> dispatch_db option \<Rightarrow> dispatch_db" where
  "committed db res = (case res of None \<Rightarrow> db | Some db' \<Rightarrow> db')"

fun fence_event_step :: "dispatch_db \<Rightarrow> fence_event \<Rightarrow> dispatch_db" where
  "fence_event_step db (Lease_transaction t) = apply_tx db t"
| "fence_event_step db (Purge_user others u rest) = committed db (purgeUser others u rest db)"
| "fence_event_step db (Cleanup_decisions others u flat rest) =
     committed db (cleanupLegacyFlatDecisions others u flat rest db)"

fun deletes_for :: "fence_event \<Rightarrow> string option" where
  "deletes_for (Lease_transaction t) = None"
| "deletes_for (Purge_user others u rest) = Some u"
| "deletes_for (Cleanup_decisions others u flat rest) = Some u"

lemma slots_filter: "slots (filter P ls) = map credential_slot (filter P (filter holds_credential ls))"
  by (simp add: slots_def conj_commute)

lemma distinct_slots_filter: "distinct (slots ls) \<Longrightarrow> distinct (slots (filter P ls))"
  unfolding slots_filter unfolding slots_def by (rule distinct_map_filter)

lemma without_fence:
  assumes "fence_ok db"
  shows "fence_ok (without_leases doomed db rest)"
proof -
  let ?kept = "filter (\<lambda>l. \<not> doomed l) (db_leases db)"
  have "evidenced ?kept a"
    if "evidenced (db_leases db) a" "am_dispatchLeaseId a \<notin> dl_id ` {l \<in> set (db_leases db). doomed l}" for a
    using that unfolding evidenced_def by force
  then show ?thesis
    using assms by (auto simp: without_leases_def Let_def fence_ok_def distinct_map_filter distinct_slots_filter)
qed

lemma no_active: "assertNoActiveExecutions others u db \<Longrightarrow> l \<in> set (db_leases db) \<Longrightarrow> dl_userId l = u \<Longrightarrow> \<not> active l"
  by (auto simp: assertNoActiveExecutions_def filter_empty_conv)

interpretation fenced: initialised_machine fence_event_step fence_ok empty_db
proof unfold_locales
  fix db e
  assume "fence_ok db"
  then show "fence_ok (fence_event_step db e)"
    by (cases e) (auto simp: fence.step_inv without_fence committed_def purgeUser_def
        cleanupLegacyFlatDecisions_def)
qed (rule fence.init_inv)

lemma settled_states: "\<not> active l \<Longrightarrow> dl_state l = ls_completed \<or> dl_state l = ls_failed"
  by (cases "dl_state l") (simp_all add: active_def)

text \<open>One event: a lease moves on, or it is settled and deleted with its user or its decision.\<close>

lemma event_keeps_or_deletes:
  assumes "fence_ok db" "l \<in> set (db_leases db)"
  shows "(\<exists>m \<in> set (db_leases (fence_event_step db e)). lease_moves l m) \<or>
    (deletes_for e = Some (dl_userId l) \<and> (dl_state l = ls_completed \<or> dl_state l = ls_failed))"
proof (cases e)
  case (Lease_transaction t)
  obtain ps where "consumes db ps (apply_tx db t)" using tx_consumes [OF assms(1)] by blast
  then obtain ls ms where c: "db_leases (apply_tx db t) = ls @ ms" "leases_move (db_leases db) ls"
    by (auto simp: consumes_def)
  then show ?thesis using all_move_find [OF c(2) assms(2)] by (auto simp: Lease_transaction)
next
  case (Purge_user others u rest)
  then show ?thesis using assms(2) no_active [of others u db l] settled_states [of l] moves_refl [of l]
    by (auto simp: committed_def purgeUser_def without_leases_def Let_def simp del: moves_refl split: if_splits)
next
  case (Cleanup_decisions others u flat rest)
  then show ?thesis using assms(2) no_active [of others u db l] settled_states [of l] moves_refl [of l]
    by (auto simp: committed_def cleanupLegacyFlatDecisions_def without_leases_def Let_def
        simp del: moves_refl split: if_splits)
qed

lemma leases_move_or_deleted:
  assumes "fence_ok db" "l \<in> set (db_leases db)"
  shows "(\<exists>m \<in> set (db_leases (run fence_event_step db es)). lease_moves l m) \<or>
    (\<exists>before e after m. es = before @ e # after \<and> m \<in> set (db_leases (run fence_event_step db before)) \<and>
       lease_moves l m \<and> deletes_for e = Some (dl_userId l) \<and>
       (dl_state m = ls_completed \<or> dl_state m = ls_failed))"
  using assms
proof (induction es arbitrary: db l)
  case (Cons e es)
  from event_keeps_or_deletes [OF Cons.prems, of e] show ?case
  proof
    assume "\<exists>m \<in> set (db_leases (fence_event_step db e)). lease_moves l m"
    then obtain m where m: "m \<in> set (db_leases (fence_event_step db e))" "lease_moves l m" by blast
    from Cons.IH [OF fenced.step_inv [OF Cons.prems(1)] m(1)] show ?case
    proof
      assume "\<exists>n \<in> set (db_leases (run fence_event_step (fence_event_step db e) es)). lease_moves m n"
      then obtain n where "n \<in> set (db_leases (run fence_event_step (fence_event_step db e) es))" "lease_moves m n"
        by blast
      then show ?thesis using moves_trans [OF m(2)] by auto
    next
      assume "\<exists>before e' after n. es = before @ e' # after \<and>
        n \<in> set (db_leases (run fence_event_step (fence_event_step db e) before)) \<and> lease_moves m n \<and>
        deletes_for e' = Some (dl_userId m) \<and> (dl_state n = ls_completed \<or> dl_state n = ls_failed)"
      then obtain before e' after n where "es = before @ e' # after" "n \<in> set (db_leases (run fence_event_step (fence_event_step db e) before))"
        "lease_moves m n" "deletes_for e' = Some (dl_userId m)" "dl_state n = ls_completed \<or> dl_state n = ls_failed"
        by blast
      then have "e # es = (e # before) @ e' # after \<and>
          n \<in> set (db_leases (run fence_event_step db (e # before))) \<and> lease_moves l n \<and>
          deletes_for e' = Some (dl_userId l) \<and> (dl_state n = ls_completed \<or> dl_state n = ls_failed)"
        using moves_trans [OF m(2)] moves_same(2) [OF m(2)] by simp
      then show ?thesis by blast
    qed
  next
    assume "deletes_for e = Some (dl_userId l) \<and> (dl_state l = ls_completed \<or> dl_state l = ls_failed)"
    then have "e # es = [] @ e # es \<and> l \<in> set (db_leases (run fence_event_step db [])) \<and> lease_moves l l \<and>
        deletes_for e = Some (dl_userId l) \<and> (dl_state l = ls_completed \<or> dl_state l = ls_failed)"
      using Cons.prems(2) by simp
    then show ?case by blast
  qed
qed (auto intro!: bexI moves_refl)

text \<open>
  C8: the table of leases refines a state machine per lease. While only the transactions of the lease
  repository change it, a later state of the table has every lease of an earlier one, in its place, with
  the same identity, plan, adapter, authority and capability, in the same state or a later one: none is
  lost, taken back or started again, and a completed or a failed one stays so. With the jobs that delete
  leases among the transactions, a lease of an earlier state either has moved on in this way or was
  completed or failed when a job for its own user deleted it: no lease disappears while its request may
  still be running or its outcome is unknown.
\<close>

theorem leases_only_advance:
  "(\<exists>ls added. db_leases (run apply_tx empty_db (xs @ ys)) = ls @ added \<and>
      list_all2 lease_moves (db_leases (run apply_tx empty_db xs)) ls) \<and>
   (\<forall>l \<in> set (db_leases (run fence_event_step empty_db us)).
      (\<exists>m \<in> set (db_leases (run fence_event_step empty_db (us @ vs))). lease_moves l m) \<or>
      (\<exists>before e after m. vs = before @ e # after \<and>
         m \<in> set (db_leases (run fence_event_step empty_db (us @ before))) \<and> lease_moves l m \<and>
         deletes_for e = Some (dl_userId l) \<and> (dl_state m = ls_completed \<or> dl_state m = ls_failed)))"
proof (intro conjI ballI)
  show "\<exists>ls added. db_leases (run apply_tx empty_db (xs @ ys)) = ls @ added \<and>
      list_all2 lease_moves (db_leases (run apply_tx empty_db xs)) ls"
    using run_consumes [OF fence.reachable_inv [of xs], of ys] by (auto simp: consumes_def run_append)
next
  fix l assume "l \<in> set (db_leases (run fence_event_step empty_db us))"
  from leases_move_or_deleted [OF fenced.reachable_inv this, of vs]
  show "(\<exists>m \<in> set (db_leases (run fence_event_step empty_db (us @ vs))). lease_moves l m) \<or>
      (\<exists>before e after m. vs = before @ e # after \<and>
         m \<in> set (db_leases (run fence_event_step empty_db (us @ before))) \<and> lease_moves l m \<and>
         deletes_for e = Some (dl_userId l) \<and> (dl_state m = ls_completed \<or> dl_state m = ls_failed))"
    by (simp only: run_append)
qed

section \<open>Evidence of ambiguity\<close>

lemma distinct_filter_one: "distinct xs \<Longrightarrow> x \<in> set xs \<Longrightarrow> length (filter (\<lambda>y. y = x) xs) = 1"
  by (induction xs) (auto simp: filter_empty_conv)

text \<open>
  C9: a dispatch that is overdue does not stay open: whatever ran before, the sweep succeeds, and every
  lease that it selected has left the state in which a request may be running and has one immutable
  record of the ambiguity, which names the lease.
\<close>

theorem overdue_gets_evidence:
  assumes "l \<in> set (overdue_leases u t now (run apply_tx empty_db txs))"
  shows "\<exists>db'. markOverdueLeasesAmbiguous env u t now (run apply_tx empty_db txs) = Some db' \<and>
    (\<exists>m \<in> set (db_leases db'). dl_id m = dl_id l \<and> dl_state m \<noteq> ls_request_started) \<and>
    length (filter (\<lambda>a. am_dispatchLeaseId a = dl_id l) (db_ambiguities db')) = 1"
proof -
  let ?db = "run apply_tx empty_db txs"
  obtain db' where d: "markOverdueLeasesAmbiguous env u t now ?db = Some db'" "fence_ok db'"
    "leases_move (db_leases ?db) (db_leases db')"
    "\<forall>l \<in> set (overdue_leases u t now ?db). \<exists>a \<in> set (db_ambiguities db'). am_dispatchLeaseId a = dl_id l"
    using sweep_succeeds [OF fence.reachable_inv [of txs]] by blast
  obtain a where a: "a \<in> set (db_ambiguities db')" "am_dispatchLeaseId a = dl_id l" using d(4) assms by blast
  then have "evidenced (db_leases db') a" using d(2) by (simp add: fence_ok_def)
  then have m: "\<exists>m \<in> set (db_leases db'). dl_id m = dl_id l \<and> dl_state m \<noteq> ls_request_started"
    using a(2) by (auto simp: evidenced_def)
  have dist: "distinct (map am_dispatchLeaseId (db_ambiguities db'))" using d(2) by (simp add: fence_ok_def)
  have "dl_id l \<in> set (map am_dispatchLeaseId (db_ambiguities db'))" using a by force
  from distinct_filter_one [OF dist this]
  have "length (filter (\<lambda>a. am_dispatchLeaseId a = dl_id l) (db_ambiguities db')) = 1" by (simp add: filter_map comp_def)
  then show ?thesis using d(1) m by blast
qed

section \<open>What a grant means\<close>

definition same_authority :: "dispatch_db \<Rightarrow> dispatch_db \<Rightarrow> bool" where
  "same_authority db db' \<longleftrightarrow> db_owners db' = db_owners db \<and> db_policyRevision db' = db_policyRevision db \<and>
     db_servers db' = db_servers db \<and> db_optIns db' = db_optIns db \<and> db_plans db' = db_plans db \<and>
     db_decisions db' = db_decisions db \<and> db_barriers db' = db_barriers db \<and> db_guards db' = db_guards db"

lemma record_tables: "recordAmbiguity env l ph rs now db = Some (b, db') \<Longrightarrow> same_authority db db'"
  by (auto simp: recordAmbiguity_def same_authority_def Let_def split: option.splits if_splits)

lemma mark_tables: "mark_each env now ls db = Some db' \<Longrightarrow> same_authority db db'"
proof (induction ls arbitrary: db)
  case Nil
  then show ?case by (simp add: same_authority_def)
next
  case (Cons l ls)
  then obtain b db1 where r: "recordAmbiguity env l (if dl_state l = ls_ambiguous then ph_lease_recovery else ph_lease_expiry)
      (if dl_state l = ls_ambiguous then rs_legacy_ambiguous else rs_lease_expired) now db = Some (b, db1)"
    "mark_each env now ls db1 = Some db'"
    by (auto simp: Let_def split: option.splits prod.splits bool.splits)
  show ?case using record_tables [OF r(1)] Cons.IH [OF r(2)] by (simp add: same_authority_def)
qed

text \<open>
  C6: a grant means that at this moment every authority agreed: the user exists, is not paused and has
  the revision the plan was prepared for, the policies have their revision, the plan is running under an
  admission or a receipt with the expected identity, date, adapter and risk, and for the MCP host the
  server is active and the tool is not waiting for the user's consent.
\<close>

theorem grant_is_authorized:
  assumes "fst (lease_start env inp db) = tx_ok g"
  shows "(\<exists>u \<in> set (db_owners db). ow_id u = si_userId inp \<and> get (ow_autonomySettings u) ''paused'' \<noteq> JBool True \<and>
      ow_executionAuthorityRevision u = si_expectedAuthorityRevision inp \<and>
      (si_adapterName inp = ''ironclaw'' \<longrightarrow> ow_ironclawChannel u = si_expectedUserExecutionChannel inp))
    \<and> db_policyRevision db = Some (si_expectedPolicyAuthorityRevision inp)
    \<and> plan_running db (si_executionPlanId inp) (si_decisionId inp) (si_actionId inp)
    \<and> (\<exists>a \<in> set (authority_rows db inp). authority_matches env inp a)
    \<and> get (si_expectedRiskSnapshot inp) ''actionId'' = JStr (si_actionId inp)
    \<and> canonical_name (si_adapterName inp)
    \<and> (si_adapterName inp = ''mcp-host'' \<longrightarrow>
        (\<exists>m \<in> set (db_servers db). Some (ms_serverId m) = si_mcpServerId inp \<and> ms_userId m = si_userId inp \<and> ms_active m) \<and>
        (\<forall>c \<in> set (db_optIns db). Some (oi_serverId c) = si_mcpServerId inp \<and> Some (oi_skillName c) = si_mcpToolName inp
          \<longrightarrow> oi_accepted c))"
proof -
  let ?now = "now_of env (si_now inp)"
  have guard: "start_guard inp = None" using assms by (cases "start_guard inp") (simp_all add: lease_start_def)
  obtain db1 where sw: "markOverdueLeasesAmbiguous env (Some (si_userId inp)) None ?now db = Some db1"
    "fst (start_swept env inp ?now db1) = tx_ok g"
    using assms guard by (auto simp: lease_start_def Let_def split: option.splits prod.splits tx_result.splits)
  have db1: "same_authority db db1" using mark_tables sw(1) unfolding markOverdueLeasesAmbiguous_def by blast
  obtain a rows where st: "owner_refusal db1 inp = None" "db_policyRevision db1 = Some (si_expectedPolicyAuthorityRevision inp)"
    "mcp_refusal db1 inp = None" "authority_rows db1 inp = a # rows" "authority_matches env inp a"
    using sw(2) by (auto simp: start_swept_def split: if_splits option.splits list.splits)
  have same: "owner_refusal db1 inp = owner_refusal db inp" "mcp_refusal db1 inp = mcp_refusal db inp"
    "authority_rows db1 inp = authority_rows db inp" "db_policyRevision db1 = db_policyRevision db"
    using db1
    by (simp_all add: same_authority_def owner_refusal_def mcp_refusal_def authority_rows_def plan_running_def Let_def)
  have rows: "authority_rows db inp = a # rows" using st(4) same(3) by simp
  have "a \<in> set (authority_rows db inp)" by (simp add: rows)
  then have run: "plan_running db (si_executionPlanId inp) (si_decisionId inp) (si_actionId inp)"
    by (auto simp: authority_rows_def Let_def)
  have owner: "\<exists>u \<in> set (db_owners db). ow_id u = si_userId inp \<and> get (ow_autonomySettings u) ''paused'' \<noteq> JBool True \<and>
      ow_executionAuthorityRevision u = si_expectedAuthorityRevision inp \<and>
      (si_adapterName inp = ''ironclaw'' \<longrightarrow> ow_ironclawChannel u = si_expectedUserExecutionChannel inp)"
    using st(1) [unfolded same(1)] unfolding owner_refusal_def by (auto split: option.splits if_splits dest: find_Some_in)
  have mcp: "si_adapterName inp = ''mcp-host'' \<longrightarrow>
        (\<exists>m \<in> set (db_servers db). Some (ms_serverId m) = si_mcpServerId inp \<and> ms_userId m = si_userId inp \<and> ms_active m) \<and>
        (\<forall>c \<in> set (db_optIns db). Some (oi_serverId c) = si_mcpServerId inp \<and> Some (oi_skillName c) = si_mcpToolName inp
          \<longrightarrow> oi_accepted c)"
    using st(3) [unfolded same(2)] unfolding mcp_refusal_def by (auto simp: list_ex_iff split: if_splits)
  have "get (si_expectedRiskSnapshot inp) ''actionId'' = JStr (si_actionId inp)" "canonical_name (si_adapterName inp)"
    using guard by (auto simp: start_guard_def canonical_name_def split: if_splits)
  then show ?thesis using owner st(2,5) same(4) run \<open>a \<in> set (authority_rows db inp)\<close> mcp by auto
qed

end
