(* ===== verification/LeaseRouter.thy ===== *)
theory LeaseRouter
  imports LeaseTheorems RouterProperties
begin

text \<open>
  The execution router of theory RouterDispatch with the dispatch leases of theory DispatchLeases as its
  dispatch authority, which is how apps/api/src/execution-setup.ts builds it: several processes, each
  with a router of its own, and one database. A risk assessment reaches the database as an object; the
  function that makes it one is an argument.
\<close>

section \<open>The authority of the router\<close>

definition start_of :: "(risk_assessment \<Rightarrow> jsobj) \<Rightarrow> authority_input \<Rightarrow> start_input" where
  "start_of risk inp =
     \<lparr> si_userId = ai_userId inp, si_decisionId = ai_decisionId inp, si_actionId = ai_actionId inp,
       si_executionPlanId = ai_executionPlanId inp, si_adapterName = ai_adapterName inp,
       si_expectedRiskSnapshot = risk (ai_expectedRiskSnapshot inp),
       si_expectedExecutionChannel = ai_expectedExecutionChannel inp,
       si_expectedUserExecutionChannel = ai_expectedUserExecutionChannel inp,
       si_mcpServerId = (case ai_mcpServerId inp of JStr s \<Rightarrow> Some s | _ \<Rightarrow> None),
       si_mcpToolName = ai_mcpToolName inp, si_credentialProvider = ai_credentialProvider inp,
       si_expectedOAuthTokenId = ai_expectedOAuthTokenId inp,
       si_expectedCredentialRevision = ai_expectedCredentialRevision inp,
       si_credentialAccountEmail = ai_credentialAccountEmail inp,
       si_expectedVaultGeneration = ai_expectedVaultGeneration inp,
       si_expectedAuthorityRevision = ai_expectedAuthorityRevision inp,
       si_expectedPolicyAuthorityRevision = ai_expectedPolicyAuthorityRevision inp,
       si_expectedAdmissionAuthorityId = ai_expectedAdmissionAuthorityId inp,
       si_expectedAdmissionAuthorityUpdatedAt = ai_expectedAdmissionAuthorityUpdatedAt inp,
       si_now = None, si_ttlMs = None \<rparr>"

definition lease_answer :: "dispatch_grant tx_result \<Rightarrow> start_result" where
  "lease_answer res = (case res of
     tx_ok g \<Rightarrow> st_granted \<lparr> lg_capability = dg_capability g, lg_leaseGeneration = dg_leaseGeneration g \<rparr>
   | tx_refused code why \<Rightarrow> (if code = dispatch_replayed then st_dispatch_replayed why else st_authority_revoked why)
   | tx_threw \<Rightarrow> st_threw)"

definition lease_port ::
  "(risk_assessment \<Rightarrow> jsobj) \<Rightarrow> lease_env \<Rightarrow> dispatch_db \<Rightarrow> authority_input \<Rightarrow> start_result" where
  "lease_port risk env db inp = lease_answer (fst (lease_start env (start_of risk inp) db))"

fun with_authority_port :: "(authority_input \<Rightarrow> start_result) \<Rightarrow> router_call \<Rightarrow> router_call" where
  "with_authority_port f (Prepare p a r u ctx streaming) = Prepare (p \<lparr> po_start := f \<rparr>) a r u ctx streaming"
| "with_authority_port f (Execute p pe a r u ctx) = Execute (p \<lparr> po_start := f \<rparr>) pe a r u ctx"
| "with_authority_port f (Stream p pe a r u ctx) = Stream (p \<lparr> po_start := f \<rparr>) pe a r u ctx"

lemma call_ports_with [simp]: "po_start (call_ports (with_authority_port f c)) = f"
  by (cases c) simp_all

section \<open>Several processes\<close>

text \<open>
  A call of the router of one process, a call in which the process crashes after some of the effects, or
  a transaction of anyone else. A process that crashed starts over with a new router.
\<close>

datatype world_event =
    Router_call nat lease_env router_call
  | Crashed_call nat lease_env router_call nat
  | Transaction lease_tx

type_synonym world = "dispatch_db \<times> (nat \<Rightarrow> router)"

definition call_in ::
  "(risk_assessment \<Rightarrow> jsobj) \<Rightarrow> world \<Rightarrow> nat \<Rightarrow> lease_env \<Rightarrow> router_call \<Rightarrow> router_effect list" where
  "call_in risk w n env c = call_effects (with_authority_port (lease_port risk env (fst w)) c) (snd w n)"

definition after_effect :: "(risk_assessment \<Rightarrow> jsobj) \<Rightarrow> lease_env \<Rightarrow> router_effect \<Rightarrow> dispatch_db \<Rightarrow> dispatch_db" where
  "after_effect risk env e db = (case e of
     Eff_start h inp \<Rightarrow> snd (lease_start env (start_of risk inp) db) | _ \<Rightarrow> db)"

fun world_step :: "(risk_assessment \<Rightarrow> jsobj) \<Rightarrow> world \<Rightarrow> world_event \<Rightarrow> world" where
  "world_step risk w (Router_call n env c) =
     (fold (after_effect risk env) (call_in risk w n env c) (fst w),
      (snd w)(n := call_state (with_authority_port (lease_port risk env (fst w)) c) (snd w n)))"
| "world_step risk w (Crashed_call n env c k) =
     (fold (after_effect risk env) (take k (call_in risk w n env c)) (fst w), (snd w)(n := new_router))"
| "world_step risk w (Transaction t) = (apply_tx (fst w) t, snd w)"

definition plans_executed :: "router_effect list \<Rightarrow> string list" where
  "plans_executed es = concat (map (\<lambda>e. case e of Eff_execute h n plan \<Rightarrow> [xp_id plan] | _ \<Rightarrow> []) es)"

fun executed_in :: "(risk_assessment \<Rightarrow> jsobj) \<Rightarrow> world \<Rightarrow> world_event \<Rightarrow> string list" where
  "executed_in risk w (Router_call n env c) = plans_executed (call_in risk w n env c)"
| "executed_in risk w (Crashed_call n env c k) = plans_executed (take k (call_in risk w n env c))"
| "executed_in risk w (Transaction t) = []"

fun all_executed :: "(risk_assessment \<Rightarrow> jsobj) \<Rightarrow> world \<Rightarrow> world_event list \<Rightarrow> string list" where
  "all_executed risk w [] = []"
| "all_executed risk w (e # es) = executed_in risk w e @ all_executed risk (world_step risk w e) es"

definition empty_world :: world where
  "empty_world = (empty_db, \<lambda>n. new_router)"

section \<open>At most one execution\<close>

lemma start_consumes: "fence_ok db \<Longrightarrow> \<exists>ps. consumes db ps (snd (lease_start env inp db))"
  using tx_consumes [of db "Tx_start env inp"] by auto

lemma effects_consume: "fence_ok db \<Longrightarrow> \<exists>ps. consumes db ps (fold (after_effect risk env) es db)"
proof (induction es arbitrary: db)
  case Nil
  then show ?case using step_consumes [OF step_refl [OF Nil]] by auto
next
  case (Cons e es)
  obtain ps where c: "consumes db ps (after_effect risk env e db)"
    using start_consumes [OF Cons.prems] step_consumes [OF step_refl [OF Cons.prems]]
    by (cases e) (auto simp: after_effect_def)
  obtain qs where "consumes (after_effect risk env e db) qs (fold (after_effect risk env) es (after_effect risk env e db))"
    using Cons.IH [OF consumes_plans(2) [OF c]] by blast
  then show ?case using consumes_trans [OF c] by auto
qed

lemma settled_quiet:
  "list_all (settles h) es \<Longrightarrow> plans_executed es = [] \<and> fold (after_effect risk env) es db = db"
  by (induction es) (auto simp: plans_executed_def after_effect_def elim!: settles.elims split: router_effect.splits)

text \<open>A call executes at most one plan, and only one that the call itself took from the database.\<close>

lemma call_consumes:
  assumes "fence_ok (fst w)" and "es = take k (call_in risk w n env c)"
  shows "\<exists>ps. consumes (fst w) ps (fold (after_effect risk env) es (fst w)) \<and>
    (plans_executed es = [] \<or> plans_executed es = ps)"
proof (cases "\<exists>h a plan. Eff_execute h a plan \<in> set es")
  case True
  then obtain h a plan where e: "Eff_execute h a plan \<in> set es" by blast
  then have "Eff_execute h a plan \<in> set (call_in risk w n env c)" using assms(2) by (auto dest: in_set_takeD)
  from execution_fenced [OF this [unfolded call_in_def]] obtain inp g rest where
    f: "call_in risk w n env c = Eff_start h inp # Eff_execute h a plan # rest" "list_all (settles h) rest"
    "lease_port risk env (fst w) inp = st_granted g" "ai_executionPlanId inp = xp_id plan"
    by (auto simp: call_in_def)
  obtain rest' where es: "es = Eff_start h inp # Eff_execute h a plan # rest'" "list_all (settles h) rest'"
  proof (cases "2 \<le> k")
    case True
    then have "es = Eff_start h inp # Eff_execute h a plan # take (k - 2) rest"
      unfolding assms(2) f(1) by (simp add: take_Cons' numeral_2_eq_2)
    then show ?thesis using that f(2) by (auto simp: list_all_iff dest: in_set_takeD)
  next
    case False
    then have "k = 0 \<or> k = 1" by auto
    then show ?thesis using e unfolding assms(2) f(1) by auto
  qed
  let ?r = "lease_start env (start_of risk inp) (fst w)"
  have "\<exists>gr. fst ?r = tx_ok gr" using f(3) by (cases "fst ?r") (auto simp: lease_port_def lease_answer_def split: if_splits)
  then obtain l where "fence_step (fst w) [l] (snd ?r)" "dl_executionPlanId l = xp_id plan"
    using lease_start_step [OF assms(1) prod.collapse [symmetric], of env "start_of risk inp"] f(4)
    by (auto simp: start_of_def)
  then have "consumes (fst w) [xp_id plan] (snd ?r)" using step_consumes by fastforce
  moreover have "fold (after_effect risk env) es (fst w) = snd ?r"
    using settled_quiet [OF es(2)] by (simp add: es(1) after_effect_def)
  moreover have "plans_executed es = [xp_id plan]"
    using settled_quiet [OF es(2)] by (simp add: es(1) plans_executed_def)
  ultimately show ?thesis by metis
next
  case False
  then have "plans_executed es = []" by (auto simp: plans_executed_def split: router_effect.splits)
  then show ?thesis using effects_consume [OF assms(1)] by auto
qed

lemma world_consumes:
  assumes "fence_ok (fst w)"
  shows "\<exists>ps. consumes (fst w) ps (fst (world_step risk w e)) \<and> (executed_in risk w e = [] \<or> executed_in risk w e = ps)"
proof (cases e)
  case (Router_call n env c)
  then show ?thesis using call_consumes [OF assms, where es = "call_in risk w n env c" and k = "length (call_in risk w n env c)"
      and risk = risk and n = n and env = env and c = c] by simp
next
  case (Crashed_call n env c k)
  then show ?thesis using call_consumes [OF assms refl] by simp
next
  case (Transaction t)
  then show ?thesis using tx_consumes [OF assms] by auto
qed

text \<open>
  C5: no plan is executed twice, by whatever processes: several routers on one database, calls and other
  transactions in any order, with crashes at any point of a call and with any
  change of the tables of authority in between; among all calls of adapters no two are for the same
  execution plan.
\<close>

theorem no_plan_executed_twice: "distinct (all_executed risk empty_world events)"
proof -
  have "distinct (all_executed risk w events) \<and>
      set (all_executed risk w events) \<inter> set (map dl_executionPlanId (db_leases (fst w))) = {}"
    if "fence_ok (fst w)" for w
    using that
  proof (induction events arbitrary: w)
    case (Cons e es)
    obtain ps where c: "consumes (fst w) ps (fst (world_step risk w e))"
      "executed_in risk w e = [] \<or> executed_in risk w e = ps" using world_consumes [OF Cons.prems] by blast
    note p = consumes_plans [OF c(1)]
    have "distinct (map dl_executionPlanId (db_leases (fst w)) @ ps)"
      using p unfolding fence_ok_def by metis
    then have "distinct (executed_in risk w e)"
      "set (executed_in risk w e) \<inter> set (map dl_executionPlanId (db_leases (fst w))) = {}"
      "set (executed_in risk w e) \<subseteq> set (map dl_executionPlanId (db_leases (fst (world_step risk w e))))"
      using c(2) unfolding p(1) by auto
    moreover have "set (map dl_executionPlanId (db_leases (fst w))) \<subseteq>
        set (map dl_executionPlanId (db_leases (fst (world_step risk w e))))" unfolding p(1) by simp
    ultimately show ?case using Cons.IH [OF p(2)] by (simp only: all_executed.simps distinct_append set_append) blast
  qed simp
  moreover have "fence_ok (fst empty_world)" using fence.init_inv by (simp add: empty_world_def)
  ultimately show ?thesis by blast
qed

end
