(* ===== verification/LeaseExamples.thy ===== *)
theory LeaseExamples
  imports LeaseTheorems
begin

text \<open>
  One user, one running plan and one admission: the plan is granted once, refused the second time, and
  its lease becomes ambiguous when nobody reports a result.
\<close>

definition sample_lease_env :: lease_env where
  "sample_lease_env = \<lparr> le_now = 0, le_capability = ''secret'', le_leaseGeneration = ''g1'', le_leaseId = ''l1'',
     le_explanationId = (\<lambda>i. ''e''), le_hash = (\<lambda>s. CHR ''#'' # s), le_iso = (\<lambda>t. ''t''), le_collate = (\<lambda>x y. 0) \<rparr>"

definition sample_risk :: jsobj where
  "sample_risk = [(''actionId'', JStr ''a1'')]"

definition sample_db :: dispatch_db where
  "sample_db = empty_db \<lparr>
     db_owners := [\<lparr> ow_id = ''u1'', ow_autonomySettings = [], ow_executionAuthorityRevision = ''r1'',
       ow_ironclawChannel = None \<rparr>],
     db_policyRevision := Some ''p1'',
     db_plans := [\<lparr> pr_planId = ''x1'', pr_decisionId = ''d1'', pr_actionId = ''a1'', pr_running = True \<rparr>],
     db_barriers := [\<lparr> br_id = ''b1'', br_userId = ''u1'', br_decisionId = ''d1'', br_actionId = ''a1'',
       br_executionPlanId = ''x1'', br_inProgress = True, br_updatedAt = 0, br_adapterName = ''direct'',
       br_riskSnapshot = JObj sample_risk \<rparr>] \<rparr>"

definition sample_start :: start_input where
  "sample_start =
     \<lparr> si_userId = ''u1'', si_decisionId = ''d1'', si_actionId = ''a1'', si_executionPlanId = ''x1'',
       si_adapterName = ''direct'', si_expectedRiskSnapshot = sample_risk, si_expectedExecutionChannel = None,
       si_expectedUserExecutionChannel = None, si_mcpServerId = None, si_mcpToolName = None,
       si_credentialProvider = None, si_expectedOAuthTokenId = None, si_expectedCredentialRevision = None,
       si_credentialAccountEmail = None, si_expectedVaultGeneration = None, si_expectedAuthorityRevision = ''r1'',
       si_expectedPolicyAuthorityRevision = ''p1'', si_expectedAdmissionAuthorityId = ''b1'',
       si_expectedAdmissionAuthorityUpdatedAt = ''t'', si_now = None, si_ttlMs = None \<rparr>"

lemma sample_guard: "start_guard sample_start = None"
  using canonical_samples(1) by (simp add: start_guard_def sample_start_def canonical_name_def sample_risk_def get_def)

lemmas start_simps = start_swept_def owner_refusal_def mcp_refusal_def authority_rows_def plan_running_def
  authority_matches_def prepared_credential_def given_def insert_lease_def lease_conflict_def Let_def
  sample_start_def sample_db_def empty_db_def sample_lease_env_def new_lease_def LEASE_TTL_MS_def get_def

lemma sample_swept:
  "\<exists>g l. start_swept sample_lease_env sample_start 0 sample_db = (tx_ok g, sample_db \<lparr> db_leases := [l] \<rparr>) \<and>
     dl_state l = ls_request_started \<and> dl_expiresAt l = 300000 \<and>
     dl_executionPlanId l = ''x1'' \<and> dl_id l = ''l1'' \<and> dl_userId l = ''u1''"
  by (simp add: start_simps)

lemma sample_granted:
  "\<exists>g l. lease_start sample_lease_env sample_start sample_db =
     (tx_ok g, sample_db \<lparr> db_leases := [l] \<rparr>) \<and> dl_state l = ls_request_started \<and> dl_expiresAt l = 300000 \<and>
     dl_executionPlanId l = ''x1'' \<and> dl_id l = ''l1'' \<and> dl_userId l = ''u1''"
proof -
  have now: "now_of sample_lease_env (si_now sample_start) = 0"
    by (simp add: now_of_def sample_start_def sample_lease_env_def)
  have "markOverdueLeasesAmbiguous sample_lease_env (Some (si_userId sample_start)) None 0 sample_db = Some sample_db"
    by (simp add: markOverdueLeasesAmbiguous_def overdue_leases_def sample_db_def empty_db_def)
  then show ?thesis using sample_swept by (auto simp: lease_start_def sample_guard now Let_def)
qed

lemma grant_is_authorized_witness:
  "\<exists>u \<in> set (db_owners sample_db). ow_id u = ''u1'' \<and> get (ow_autonomySettings u) ''paused'' \<noteq> JBool True"
proof -
  obtain g where "fst (lease_start sample_lease_env sample_start sample_db) = tx_ok g"
    using sample_granted by (metis fst_conv)
  from grant_is_authorized [OF this] show ?thesis by (auto simp: sample_start_def)
qed

definition sample_txs :: "lease_tx list" where
  "sample_txs = [Tx_elsewhere sample_db, Tx_start sample_lease_env sample_start]"

lemma sample_run:
  obtains l where "run apply_tx empty_db sample_txs = sample_db \<lparr> db_leases := [l] \<rparr>"
    "dl_state l = ls_request_started" "dl_expiresAt l = 300000" "dl_id l = ''l1''" "dl_userId l = ''u1''"
proof -
  have "apply_tx empty_db (Tx_elsewhere sample_db) = sample_db" by (simp add: sample_db_def empty_db_def)
  then show ?thesis using sample_granted that by (auto simp: sample_txs_def)
qed

text \<open>The lease of a user that is deleted while the request runs: the deletion is refused.\<close>

theorem leases_only_advance_witness:
  "\<exists>l m. db_leases (run fence_event_step empty_db (map Lease_transaction sample_txs)) = [l] \<and>
     m \<in> set (db_leases (run fence_event_step empty_db
       (map Lease_transaction sample_txs @ [Purge_user 0 ''u1'' empty_db]))) \<and> lease_moves l m"
proof -
  obtain l where l: "run apply_tx empty_db sample_txs = sample_db \<lparr> db_leases := [l] \<rparr>"
    "dl_state l = ls_request_started" "dl_userId l = ''u1''" by (rule sample_run)
  have lift: "run fence_event_step db (map Lease_transaction txs) = run apply_tx db txs" for db txs
    by (induction txs arbitrary: db) simp_all
  let ?us = "map Lease_transaction sample_txs" and ?vs = "[Purge_user 0 ''u1'' empty_db]"
  have here: "l \<in> set (db_leases (run fence_event_step empty_db ?us))" by (simp add: lift l(1))
  have none: "\<not> (m \<in> set (db_leases (run fence_event_step empty_db (?us @ before))) \<and> lease_moves l m \<and>
      (dl_state m = ls_completed \<or> dl_state m = ls_failed))" if "?vs = before @ e # after" for before e after m
    using that l(2) by (cases before) (auto simp: lift l(1))
  from leases_only_advance [of "[]" "[]" ?us ?vs] here
  have "(\<exists>m \<in> set (db_leases (run fence_event_step empty_db (?us @ ?vs))). lease_moves l m) \<or>
      (\<exists>before e after m. ?vs = before @ e # after \<and>
         m \<in> set (db_leases (run fence_event_step empty_db (?us @ before))) \<and> lease_moves l m \<and>
         deletes_for e = Some (dl_userId l) \<and> (dl_state m = ls_completed \<or> dl_state m = ls_failed))" by blast
  then obtain m where "m \<in> set (db_leases (run fence_event_step empty_db (?us @ ?vs)))" "lease_moves l m"
    using none by blast
  moreover have "db_leases (run fence_event_step empty_db ?us) = [l]" by (simp add: lift l(1))
  ultimately show ?thesis by blast
qed

lemma overdue_gets_evidence_witness:
  "\<exists>db' l. markOverdueLeasesAmbiguous sample_lease_env None None 300000 (run apply_tx empty_db sample_txs) = Some db' \<and>
     length (filter (\<lambda>a. am_dispatchLeaseId a = ''l1'') (db_ambiguities db')) = 1"
proof -
  obtain l where l: "run apply_tx empty_db sample_txs = sample_db \<lparr> db_leases := [l] \<rparr>"
    "dl_state l = ls_request_started" "dl_expiresAt l = 300000" "dl_id l = ''l1''" by (rule sample_run)
  have "l \<in> set (overdue_leases None None 300000 (run apply_tx empty_db sample_txs))"
    using l by (simp add: overdue_leases_def)
  from overdue_gets_evidence [OF this, of sample_lease_env] show ?thesis using l(4) by auto
qed

end
