(* ===== verification/Spec2Isabelle.thy ===== *)
theory Spec2Isabelle
  imports PolicyRouting EscalationTriggers TrustTier SpendTracker DecisionTheorems RouterExamples
    AdapterDiscovery CircuitBreaker Retry RoutineSchedule IdleGovernor MinerScan OllamaAdapter
    TwinExamples MemoryExamples LeaseRouter LeaseExamples
begin

text \<open>
  SkyTwin is a personal agent: it interprets signals (mail, calendar, bills) into decisions,
  generates candidate actions, assesses their risk, checks them against policies and the user's
  autonomy settings, and either executes the best one through an adapter or asks the user. This
  development models the core of that pipeline, from the decision to the call of the adapter, the
  twin that learns from it, the client of the language models, the miner of local files, retrieval
  from the memory and the small services around them. All paths below are under src.

  The flow. A decision context enters \<open>decide\<close> (packages/decision-engine, class DecisionMaker). It
  asks a generator for candidates, stamps their provenance, strips replies to awareness mail,
  assesses risk (RiskAssessor), ranks by score, asks the policy evaluator (packages/policy-engine)
  for a verdict on each candidate, and selects. The outcome goes to the execution router
  (packages/execution-router), which prepares a plan with an adapter from its registry, claims a
  dispatch lease and executes or streams. The two meet in this theory.

  Theories, in the order of the pipeline.

  Prelude, JsValue, Regex, Float64: the vocabulary. Prelude has the locales \<open>state_machine\<close> and
  \<open>initialised_machine\<close> (a step function that keeps an invariant) and \<open>graded\<close> (levels with a
  rank), and the lemmas on association lists and ranking. JsValue has JavaScript numbers as
  rationals with NaN and the infinities, values as trees, strings of 8-bit characters, and the
  conversions of the language. Regex has regular expressions as data, the matcher with its
  relational semantics, and the replacement of all matches. Float64 has the rounding of doubles.

  SharedTypes, Autonomy, ActionSafety (packages/shared-types): the data model, the parser of stored
  autonomy settings, the exact condition of its round trip through JSON, the severity of an action's shape and the injection guard.

  DefaultPolicies, QuietHours, PolicyEvaluator, PolicySpec, PolicyTheorems
  (packages/policy-engine/src/policy-evaluator.ts, default-policies.ts): the evaluator's gates in
  their order, the abstract specification (the outcome is the strictest of the outcomes of the
  gates) and the exact conditions of clearing and denying.

  TrustTier (trust-tier-engine.ts), SpendTracker (spend-tracker.ts and the spend repository),
  EscalationTriggers (escalation-triggers.ts), PolicyRouting (approval-router.ts,
  domain-autonomy.ts, zero-trust.ts, scope-gate.ts): the other components of the policy engine; the
  locale of machines is interpreted on the spend ledger and on the tiers.

  RiskAssessor (risk-assessor.ts), CandidateGenerators and GeneratorTheorems, DecisionMaker and
  DecisionTheorems (decision-maker.ts): the six risk dimensions and their aggregation; every
  built-in generator with its texts and parameters; the pipeline, its writes in order, and the
  hypothetical query. Shown: which action types can ever clear, what an automatic execution went
  through, that the selection is the best candidate that is not denied, totality.

  ExecutionEvidence, PreviewBoundary (packages/shared-types): the redaction and the typed schemas of
  durable evidence; the recognition of account-backed actions and integrations, and the guard of the
  worker (apps/worker/src/execution-account-boundary.ts).

  AdapterRegistry, AdapterDiscovery (adapter-registry.ts, risk-modifier.ts, adapter-manifest.ts,
  adapter-discovery.ts): an adapter is a record of its methods; a registry is the class's maps. The
  machine locales are interpreted on registration (revisions, names) and on discovery.

  PlanBinding, ExecutionRouter, RouterDispatch (execution-router.ts): the guards and the binding of
  an adapter's plan to the admitted action; the state of one-time handles, routing, preparation and
  consumption; the dispatch lease, execution, the streaming protocol and rollback. A call returns
  its result, the new state and its effects in order. RouterTheorems has the case analysis of a
  call, RouterProperties the properties over arbitrary ports and adapters (the machine locale is
  interpreted on sequences of calls), RouterExamples a concrete run for the witnesses.

  DispatchLeases, LeaseTheorems, LeaseRouter, LeaseExamples
  (packages/db/src/repositories/credential-dispatch-lease-repository.ts): the authority behind the
  dispatch lease, as transactions on the tables of a database that all processes share; the machine
  locale is interpreted on sequences of transactions. LeaseRouter composes it with the router: several
  processes, crashes included, never execute a plan twice. The jobs that delete leases, with a user
  (user-purge-repository.ts) or with obsolete decisions (legacy-decision-cleanup.ts), are modelled
  beside the transactions and play a part in the theorem on the progress of leases only.

  CircuitBreaker, Retry (packages/core): the breaker over any sequence of timed calls; the retry
  loop over any results.

  Calendar, RoutineSchedule (packages/routines/src/schedule.ts, match.ts): the arithmetic of civil
  dates, the next run of a routine in a time zone and the filter of signals.

  IdleGovernor, RegexExec, MinerFiles, MinerScan (packages/idle-miner): the governor of resources,
  whose state is a machine over polls and reads; the denylist and the extractors, with regular
  expressions that return their match; the scan of a tree of files with its snapshots, batches and
  waits. Shown: what a scan may read, that it ends, that a second scan is quiet, the daily budget.

  ProviderUrls, ProviderModes, PromptRedaction, LlmClient, LlmTheorems, LlmExamples, OllamaAdapter
  (packages/llm-client, packages/shared-types/src/reasoning-mode.ts): which endpoints a provider may
  have and what a connection is checked for, the reasoning modes and their providers, the redaction
  of addresses, the client with its chain of providers, breakers, deadlines and verification, its
  streams, and the adapter of the local server. The main results are about where a prompt can go.

  TwinData, TwinInference, TwinAnalyzers, TwinService, TwinDiscovery, TwinTheorems, TwinExamples
  (packages/twin-model): JSON texts and keyed maps as the code uses them; the inference engine,
  where objects that the code updates in place are indices into a heap; habits, traits and active
  hours; the service, whose state is the stored profile of each user and whose effects are its writes,
  with the handler of the twin page that removes or corrects insights (apps/api/src/routes/twin.ts; the
  machine locale is interpreted on a history of stores, so that requests may overlap); proposals and
  correlations.

  MemoryRouter, MemoryHybrid, RankFusion, MemoryExamples (packages/memory-port,
  packages/memory-hybrid, packages/memory-gbrain-crdb-adapter/src/rrf.ts, tier-weights.ts): a memory
  port is a record of its reads; the router fills in what a backend lacks, the hybrid routes between
  two backends (the machine locale is interpreted on its counters), and the two are composed; the
  fusion of rankings, with doubles rounded.

  Bounds. Loops of the code are recursions over lists, over a length, over the attempts that are
  left or over a multiset of depths (the walk of the memory graph), with their termination proved.
  The one exception is the miner: its scan and its waits take fuel, and the theorem \<open>batch_ends\<close> of
  MinerScan shows that fuel for the size of the tree and for the time until the governor lets the
  miner go on is enough. Money is exact, as the code adds whole cents; where rounding of doubles
  decides (the rejection ratio, the fusion of ranks and its gate) it is modelled. Times are integers
  or rationals of milliseconds.

  Parameters. Services behind ports (repositories, the dispatch authority, adapters, label
  statistics, random identifiers, the clock, the order of localeCompare, the parsers of dates, URLs
  and IP addresses, DNS, the HTTP transport, the offsets of time zones, the file system, the memory
  backends) are arguments. A port is a function of its arguments: two calls in one operation with
  equal arguments agree, except for the registry and the admission guard of the router and the
  transport of the model client, which are given per call.

  Not modelled, and why. Error messages that interpolate data keep only their fixed part. Values are
  trees without identity: an object that occurs twice in a streamed payload is refused by the code
  and not here, and prototypes play no part (a situation type named like a property of
  Object.prototype is not distinguished). Characters above 255 are not represented. Concurrency inside
  one process is the order of the calls: two calls of one object do not overlap. The language model
  strategies and interpreters (prompts and their parsing), the remote model adapters, the memory
  palace and the repositories of the memory, connectors, the execution adapters themselves, the
  vault, the repositories other than the spend ledger and the dispatch leases, the rest of the API,
  worker, web, desktop and mobile applications and the scripts are input and output around the modelled parts, or
  SQL, or texts for a model; the manifest lists them with the reason.
\<close>

section \<open>From the decision to the router\<close>

lemma auto_executable_permitted:
  assumes "ca_reversible c" "severity_of c = severity_none"
  shows "assertExecutionPermitted c ctx = None"
  using assms archive_destructive [of c] unfolding permitted_iff guard_verdict by auto

lemma assess_actionId: "ra_actionId (assess now c) = ca_id c"
  by (simp add: assess_def Let_def)

lemma assessment_actionId:
  assumes "c \<in> set cs"
  shows "ra_actionId (assessment_of (assessments_of now cs) c) = ca_id c"
proof -
  obtain x where x: "find (\<lambda>x. ca_id x = ca_id c) (rev cs) = Some x"
    using assms by (cases "find (\<lambda>x. ca_id x = ca_id c) (rev cs)") (auto simp: find_None_iff)
  then have "ca_id x = ca_id c" by (auto dest: find_Some_in)
  then show ?thesis
    using x by (simp add: assessment_of_def assessments_of_def assessments_of_eq assess_actionId)
qed

text \<open>
  C1: the decision engine and the router agree: an outcome marked for automatic execution hands the
  router an action and an assessment that belong together, and which its guards let pass in every
  context, without any human approval. So the backstop never refuses what the policies cleared.
\<close>

theorem decision_reaches_router:
  assumes "decide env cx = Some (oc, fx)" and "oc_autoExecute oc"
  shows "\<exists>c r. oc_selectedAction oc = Some c \<and> oc_riskAssessment oc = Some r \<and>
    assertValidExecutionInputs c r = None \<and> (\<forall>ctx. assertExecutionPermitted c ctx = None)"
  using assms(1)
proof (cases rule: decide_cases)
  case none
  then show ?thesis using assms(2) by (simp add: no_candidate_outcome_def)
next
  case (some cs)
  have auto: "sl_autoExecute (chosen env cx cs)" using assms(2) some by simp
  obtain c r where c: "c \<in> set cs" "r = assessment_of (assessments_of (en_now env) cs) c"
    "sl_action (chosen env cx cs) = Some c" "sl_assessment (chosen env cx cs) = Some r"
    "outcome_of (judge_in env cx c r) = Clear"
    by (rule chosen_auto [OF auto])
  note clear = c(5) [unfolded judge_in_outcome, folded outcome_of_iff(2), unfolded auto_clear_iff]
  have "assertValidExecutionInputs c r = None"
    using assessment_actionId [OF c(1)] by (simp add: assertValidExecutionInputs_def c(2))
  then show ?thesis using some c clear auto_executable_permitted by auto
qed

theorem decision_reaches_router_witness:
  "assertExecutionPermitted label_action no_context = None"
  using decision_reaches_router [OF sample_pair(1) sample_facts(2)] by (auto simp: sample_facts(4))

section \<open>The account boundary of the worker\<close>

text \<open>The guard of the worker as the admission port of its router.\<close>

definition worker_admission ::
    "google_connection_mode \<Rightarrow> nat \<Rightarrow> candidate_action \<Rightarrow> string \<Rightarrow> string option \<Rightarrow> admission" where
  "worker_admission mode = (\<lambda>k a userId adapterName. case worker_guard mode a adapterName of
     None \<Rightarrow> adm_allowed | Some why \<Rightarrow> adm_refused why)"

definition account_action :: "candidate_action \<Rightarrow> bool" where
  "account_action a \<longleftrightarrow>
     isAccountBackedEmailOrCalendarAction (ca_actionType a) (Some (ca_domain a)) (ca_parameters a)"

lemma worker_allows:
  assumes "worker_admission gm_disabled k a u (Some n) = adm_allowed"
  shows "\<not> isAccountBackedIntegrationIdentifier n \<and> \<not> account_action a"
  using assms no_empty_integration
  by (auto simp: worker_admission_def worker_guard_def isAccountBackedIntegration_def account_action_def
      split: if_splits)

text \<open>
  C27: a router behind the worker's guard, with account connections disabled, never makes an adapter
  execute an account-backed email or calendar action, and never executes anything through an
  adapter whose name stands for an account integration.
\<close>

theorem worker_never_touches_accounts:
  assumes "po_admit (call_ports c) = worker_admission gm_disabled"
    and "account_action (call_action c) \<or> isAccountBackedIntegrationIdentifier n"
  shows "Eff_execute h n plan \<notin> set (call_effects c rt)"
proof
  assume "Eff_execute h n plan \<in> set (call_effects c rt)"
  then obtain p pe a r u ctx streaming st rt' grant es es' where
    d: "dispatching c p pe a r u ctx streaming" "n = ps_adapterName st"
    and con: "consumePreparedExecution p pe a r u streaming ctx rt = (Inr st, rt')"
    by (rule execute_started)
  show False
    using consumed(6) [OF con] assms d(2) worker_allows unfolding dispatching_call [OF d(1)] by metis
qed

theorem worker_never_touches_accounts_witness:
  "\<not> list_ex is_execute (call_effects
     (Execute (sample_ports \<lparr> po_admit := worker_admission gm_disabled \<rparr>) (the_prepared False)
        sample_admitted low_risk ''u'' human) (sample_state False))"
proof -
  have "account_action sample_admitted"
    by (simp add: label_email_normal account_action_def isAccountBackedEmailOrCalendarAction_def isAccountBackedActionType_def
        isGoogleAccountActionType_def GOOGLE_ACCOUNT_ACTION_TYPES_def sample_admitted_def label_action_def)
  then have "Eff_execute h n plan \<notin> set (call_effects
      (Execute (sample_ports \<lparr> po_admit := worker_admission gm_disabled \<rparr>) (the_prepared False)
         sample_admitted low_risk ''u'' human) (sample_state False))" for h n plan
    by (intro worker_never_touches_accounts) simp_all
  moreover have "\<exists>h n plan. x = Eff_execute h n plan" if "is_execute x" for x using that by (cases x) simp_all
  ultimately show ?thesis unfolding list_ex_iff by blast
qed

end
